(* ===== verification/OS_Prelude.thy ===== *)
theory OS_Prelude
  imports Main "HOL-Library.Word" "HOL-Library.Code_Target_Nat"
begin

text \<open>
  Shared vocabulary of the OpenSwitcher development.

  Machine integers keep the width the Rust code gives them (\<open>u8\<close>, \<open>u16\<close>, \<open>u32\<close>,
  \<open>u64\<close> as words); \<open>usize\<close> lengths are natural numbers with the 64-bit limit written out
  where the code checks it.  A Rust \<open>Result\<close> is a sum whose left side is the error; the
  \<open>?\<close> operator and \<open>and_then\<close> are \<open>and_then\<close> below.  A method on \<open>&mut self\<close> that
  returns a \<open>Result\<close> is a function to \<open>('e + 'a) \<times> 's\<close>: the state after an error is part of
  the result, so that "an error changes nothing" is a theorem and not a convention.

  The theory also holds big-endian byte strings of words, the list facts the ledgers share
  (first position of an element, removal at a position), and the locale of step systems with
  an invariant, which every state machine of the development interprets.
\<close>

named_theorems handler_defs \<open>definitions of the request handlers of the state machines\<close>

type_synonym u8 = "8 word"
type_synonym u16 = "16 word"
type_synonym u32 = "32 word"
type_synonym u64 = "64 word"

subsection \<open>Errors (src/src/error)\<close>

datatype input_safety_error =
    InvalidEntrypoint
  | Invariant string
  | ProtocolViolation u64 string
  | SessionModifierProtocolViolation u64 string
  | OperationCancelled u64
  | OperationTimedOut u64
  | Reconciliation u64 nat
  | GuardianUnavailable string
  | GuardianRequestTimedOut u64
  | GuardianProtocol string
  | GuardianEmergencyTimedOut nat
  | OversizedFrame nat nat

text \<open>The text of a hotkey is the list of its Unicode scalar values.\<close>

datatype validation_error =
    LayoutDelayOutOfRange u32 u32 u32
  | InputDelayOutOfRange string u32 u32
  | InputCorrectionScheduleTooLong u64 u64
  | InputCorrectionPlanTooLarge nat nat nat nat
  | DuplicateHotkey "nat list"
  | UnknownSettingsPatchFields u16

text \<open>
  Of a \<open>std::io::Error\<close> the program reads its kind (five kinds are distinguished), the number of
  the system error, when there is one, and the rendered text.  \<open>SwitcherError\<close> has the variants that the modelled components build or inspect;
  the others (D-Bus, settings file, clipboard, user interface) reach them as an opaque value.
\<close>

datatype io_error_kind = IoNotFound | IoPermissionDenied | IoInterrupted | IoWouldBlock | IoNotConnected | IoOtherKind

datatype os_error = OsError (os_error_kind: io_error_kind) (raw_os_error: "int option") (os_error_text: string)

datatype switcher_error =
    InputSafety input_safety_error
  | InputWorkValidation validation_error
  | SelectedTextWorkerDisconnected
  | InputWorkerDisconnected string
  | InputWorkerStartupTimedOut string u64
  | InputBackendAlreadyActive
  | DaemonPanicked
  | VirtualKeyboardWriterDisconnected
  | VirtualKeyboardWriterStartupTimedOut u64
  | VirtualKeyboardWriterShutdownUnresponsive u64 string string
  | VirtualKeyboardWriterSaturated
  | VirtualKeyboardWriterTransactionTimedOut u64
  | VirtualKeyboardWriterTransactionCancelled u64
  | VirtualKeyboardWriterTransactionFailed u64 string
  | DeferredInputCapacityExceeded nat
  | InputSessionInactive
  | SessionMonitorStopped
  | InputDeviceSeatMismatch
  | InputDeviceIdentityUnverified
  | KeyboardNotFound
  | PhysicalKeyboardDeviceLost string u16
  | PhysicalKeyboardHandoffBusy string
  | KeyboardAccessDenied string os_error
  | UinputAccessDenied string os_error
  | SwitcherIo os_error
  | OtherSwitcherError string

type_synonym 'a res = "switcher_error + 'a"

definition input_safety :: "string \<Rightarrow> switcher_error" where
  "input_safety context = InputSafety (Invariant context)"

subsection \<open>Terminal proofs (src/src/daemon/synthetic_input.rs)\<close>

text \<open>How an input session ended: every key released, its owner destroyed, or keys left over.\<close>

datatype terminal_proof =
    Reconciled
  | OwnerGenerationDestroyed u64
  | Unreconciled nat

subsection \<open>Strings\<close>

text \<open>\<open>str::contains\<close> for a literal needle.\<close>

fun str_contains :: "'a list \<Rightarrow> 'a list \<Rightarrow> bool" where
  "str_contains needle [] = (needle = [])"
| "str_contains needle (c # cs) = (take (length needle) (c # cs) = needle \<or> str_contains needle cs)"

subsection \<open>Results\<close>

fun and_then :: "'e + 'a \<Rightarrow> ('a \<Rightarrow> 'e + 'b) \<Rightarrow> 'e + 'b" where
  "and_then (Inl e) f = Inl e"
| "and_then (Inr a) f = f a"

text \<open>A check in a method on \<open>&mut self\<close>: on an error the method returns with the state as it is.\<close>

fun check :: "'e + 'a \<Rightarrow> 's \<Rightarrow> ('a \<Rightarrow> ('e + 'b) \<times> 's) \<Rightarrow> ('e + 'b) \<times> 's" where
  "check (Inl e) s k = (Inl e, s)"
| "check (Inr a) s k = k a"

definition map_err :: "('e \<Rightarrow> 'd) \<Rightarrow> 'e + 'a \<Rightarrow> 'd + 'a" where
  "map_err f r = map_sum f id r"

lemma map_err_simps [simp]: "map_err f (Inl e) = Inl (f e)" "map_err f (Inr a) = Inr a"
  by (simp_all add: map_err_def)

lemma map_err_Inr_iff [simp]: "map_err f r = Inr a \<longleftrightarrow> r = Inr a"
  by (cases r) simp_all

text \<open>Sequencing two fallible steps on the same state, as \<open>self.f()?; self.g()\<close> does.\<close>

fun then_st :: "('e + 'a) \<times> 's \<Rightarrow> ('a \<Rightarrow> 's \<Rightarrow> ('e + 'b) \<times> 's) \<Rightarrow> ('e + 'b) \<times> 's" where
  "then_st (Inl e, s) k = (Inl e, s)"
| "then_st (Inr a, s) k = k a s"

definition ensure :: "bool \<Rightarrow> 'e \<Rightarrow> 'e + unit" where
  "ensure b e = (if b then Inr () else Inl e)"

fun ok_or :: "'a option \<Rightarrow> 'e \<Rightarrow> 'e + 'a" where
  "ok_or None e = Inl e"
| "ok_or (Some a) e = Inr a"

definition is_ok :: "'e + 'a \<Rightarrow> bool" where
  "is_ok r = (case r of Inl _ \<Rightarrow> False | Inr _ \<Rightarrow> True)"

fun err_of :: "'e + 'a \<Rightarrow> 'e option" where
  "err_of (Inl e) = Some e"
| "err_of (Inr a) = None"

lemma and_then_Inr_iff [simp]: "and_then r f = Inr b \<longleftrightarrow> (\<exists>a. r = Inr a \<and> f a = Inr b)"
  by (cases r) auto

lemma and_then_assoc: "and_then (and_then r f) g = and_then r (\<lambda>a. and_then (f a) g)"
  by (cases r) auto

lemma check_Inr_iff [simp]:
  "check r s k = (Inr b, s') \<longleftrightarrow> (\<exists>a. r = Inr a \<and> k a = (Inr b, s'))"
  by (cases r) auto

lemma check_Inl_iff:
  "check r s k = (Inl e, s') \<longleftrightarrow> (r = Inl e \<and> s' = s) \<or> (\<exists>a. r = Inr a \<and> k a = (Inl e, s'))"
  by (cases r) auto

lemma then_st_Inr_iff [simp]:
  "then_st r k = (Inr b, s') \<longleftrightarrow> (\<exists>a s. r = (Inr a, s) \<and> k a s = (Inr b, s'))"
  by (cases "(r, k)" rule: then_st.cases) auto

lemma then_st_Inl_iff:
  "then_st r k = (Inl e, s') \<longleftrightarrow> r = (Inl e, s') \<or> (\<exists>a s. r = (Inr a, s) \<and> k a s = (Inl e, s'))"
  by (cases "(r, k)" rule: then_st.cases) auto

text \<open>A fallible method is atomic on a state when an error leaves that state as it was.\<close>

definition atomic_on :: "'s \<Rightarrow> ('e + 'a) \<times> 's \<Rightarrow> bool" where
  "atomic_on s r \<longleftrightarrow> (case fst r of Inl _ \<Rightarrow> snd r = s | Inr _ \<Rightarrow> True)"

lemma atomic_on_simps [simp]: "atomic_on s (Inl e, s)" "atomic_on s (Inr a, s')"
  by (simp_all add: atomic_on_def)

lemma atomic_on_check [simp]: "(\<And>a. atomic_on s (k a)) \<Longrightarrow> atomic_on s (check r s k)"
  by (cases r) simp_all

lemma atomic_on_then_st:
  assumes "atomic_on s r" and "\<And>a s'. \<exists>b s''. k a s' = (Inr b, s'')"
  shows "atomic_on s (then_st r k)"
proof (cases "(r, k)" rule: then_st.cases)
  case (1 e s' k')
  with assms(1) show ?thesis by (auto simp: atomic_on_def)
next
  case (2 a s' k')
  obtain b s'' where "k a s' = (Inr b, s'')" using assms(2) by blast
  with 2 show ?thesis by simp
qed

lemma atomic_onD: "atomic_on s r \<Longrightarrow> r = (Inl e, s') \<Longrightarrow> s' = s"
  by (simp add: atomic_on_def)

text \<open>
  Postconditions of fallible methods: \<open>E\<close> for the state after an error, \<open>Q\<close> for the value and state
  after success, with the rules for sequencing.
\<close>

definition post :: "('s \<Rightarrow> bool) \<Rightarrow> ('a \<Rightarrow> 's \<Rightarrow> bool) \<Rightarrow> ('e + 'a) \<times> 's \<Rightarrow> bool" where
  "post E Q r \<longleftrightarrow> (case fst r of Inl _ \<Rightarrow> E (snd r) | Inr a \<Rightarrow> Q a (snd r))"

lemma post_simps [simp]: "post E Q (Inl e, s) = E s" "post E Q (Inr a, s) = Q a s"
  by (simp_all add: post_def)

lemma post_then:
  assumes "post E Q r" and "\<And>a s. Q a s \<Longrightarrow> post E R (k a s)"
  shows "post E R (then_st r k)"
  using assms by (cases "(r, k)" rule: then_st.cases) auto

lemma post_check:
  assumes "E s" and "\<And>a. r = Inr a \<Longrightarrow> post E R (k a)"
  shows "post E R (check r s k)"
  using assms by (cases r) auto

lemma post_snd: "post P (\<lambda>_. P) r \<longleftrightarrow> P (snd r)"
  by (auto simp: post_def split: sum.splits)

lemma post_weaken: "post E Q r \<Longrightarrow> (\<And>a s. Q a s \<Longrightarrow> R a s) \<Longrightarrow> post E R r"
  by (auto simp: post_def split: sum.splits)

lemma ensure_Inr [simp]: "ensure b e = Inr u \<longleftrightarrow> b"
  by (simp add: ensure_def)

lemma ensure_Inl [simp]: "ensure b e = Inl e' \<longleftrightarrow> \<not> b \<and> e' = e"
  by (auto simp: ensure_def)

lemma ok_or_Inr [simp]: "ok_or x e = Inr a \<longleftrightarrow> x = Some a"
  by (cases x) auto

lemma ok_or_Inl [simp]: "ok_or x e = Inl e' \<longleftrightarrow> x = None \<and> e' = e"
  by (cases x) auto

lemma is_ok_simps [simp]: "is_ok (Inr a)" "\<not> is_ok (Inl e)"
  by (simp_all add: is_ok_def)

lemma err_of_None_iff [simp]: "err_of r = None \<longleftrightarrow> is_ok r"
  by (cases r) auto

subsection \<open>Checked and saturating arithmetic on machine integers\<close>

definition checked_add :: "'w::len word \<Rightarrow> 'w word \<Rightarrow> 'w word option" where
  "checked_add a b = (if unat a + unat b < 2 ^ LENGTH('w) then Some (a + b) else None)"

definition checked_sub :: "'w::len word \<Rightarrow> 'w word \<Rightarrow> 'w word option" where
  "checked_sub a b = (if b \<le> a then Some (a - b) else None)"

definition saturating_add :: "'w::len word \<Rightarrow> 'w word \<Rightarrow> 'w word" where
  "saturating_add a b = (if unat a + unat b < 2 ^ LENGTH('w) then a + b else - 1)"

definition usize_checked_add :: "nat \<Rightarrow> nat \<Rightarrow> nat option" where
  "usize_checked_add a b = (if a + b < 2 ^ 64 then Some (a + b) else None)"

lemma checked_add_Some:
  "checked_add a b = Some c \<Longrightarrow> unat c = unat a + unat b \<and> c = a + b"
  by (auto simp: checked_add_def unat_word_ariths split: if_splits)

lemma checked_add_1_less: "checked_add a 1 = Some c \<Longrightarrow> a < c"
proof -
  assume h: "checked_add a 1 = Some c"
  then have "unat c = unat a + unat (1 :: 'a word)"
    using checked_add_Some by blast
  moreover have "0 < unat (1 :: 'a word)"
    by (simp add: unat_gt_0)
  ultimately show "a < c"
    by (simp add: word_less_nat_alt)
qed

lemma checked_sub_Some: "checked_sub a b = Some c \<Longrightarrow> b \<le> a \<and> c = a - b \<and> unat c = unat a - unat b"
  by (auto simp: checked_sub_def unat_sub split: if_splits)

lemma unat_saturating_add:
  "unat (saturating_add (a :: 'w::len word) b) = min (unat a + unat b) (2 ^ LENGTH('w) - 1)"
proof (cases "unat a + unat b < 2 ^ LENGTH('w)")
  case True
  then show ?thesis by (simp add: saturating_add_def unat_word_ariths)
next
  case False
  then show ?thesis
    by (simp add: saturating_add_def unsigned_minus_1_eq_mask mask_eq_exp_minus_1)
qed

lemma unat_of_nat_u64: "n < 2 ^ 64 \<Longrightarrow> unat (of_nat n :: u64) = n"
  by (simp add: unat_of_nat)

subsection \<open>Big-endian bytes\<close>

fun be_nat :: "u8 list \<Rightarrow> nat" where
  "be_nat [] = 0"
| "be_nat (b # bs) = unat b * 256 ^ length bs + be_nat bs"

fun nat_be :: "nat \<Rightarrow> nat \<Rightarrow> u8 list" where
  "nat_be 0 v = []"
| "nat_be (Suc n) v = word_of_nat (v div 256 ^ n mod 256) # nat_be n v"

definition to_be_bytes :: "'w::len word \<Rightarrow> u8 list" where
  "to_be_bytes w = nat_be (LENGTH('w) div 8) (unat w)"

definition from_be_bytes :: "u8 list \<Rightarrow> 'w::len word" where
  "from_be_bytes bs = word_of_nat (be_nat bs)"

lemma length_nat_be [simp]: "length (nat_be n v) = n"
  by (induction n) auto

lemma be_nat_bound: "be_nat bs < 256 ^ length bs"
proof (induction bs)
  case (Cons b bs)
  have "unat b \<le> 255"
    using unsigned_less [of b, where ?'a = nat] by simp
  then have "unat b * 256 ^ length bs \<le> 255 * 256 ^ length bs"
    by (rule mult_le_mono1)
  moreover have "255 * 256 ^ length bs + 256 ^ length bs = (256::nat) ^ length (b # bs)"
    by simp
  ultimately show ?case
    using Cons.IH unfolding be_nat.simps by linarith
qed simp

lemma nat_be_mod: "nat_be n (v mod 256 ^ n) = nat_be n v"
proof -
  have "nat_be m (v mod 256 ^ n) = nat_be m v" if "m \<le> n" for m
    using that
  proof (induction m)
    case (Suc m)
    have "v mod 256 ^ n div 256 ^ m mod 256 = v div 256 ^ m mod (256::nat)"
    proof -
      have "v mod 256 ^ n = v mod (256 ^ m * 256 ^ (n - m))"
        using Suc.prems by (simp flip: power_add)
      then have "v mod 256 ^ n div 256 ^ m = v div 256 ^ m mod 256 ^ (n - m)"
        by (simp add: mod_mult2_eq)
      moreover have "(256::nat) dvd 256 ^ (n - m)"
        using Suc.prems by (metis Suc_diff_Suc Suc_le_lessD dvd_triv_left power_Suc)
      ultimately show ?thesis
        by (simp add: mod_mod_cancel)
    qed
    with Suc show ?case by simp
  qed simp
  then show ?thesis by simp
qed

lemma be_nat_nat_be: "be_nat (nat_be n v) = v mod 256 ^ n"
proof (induction n)
  case (Suc n)
  have "v mod (256 ^ n * 256) = 256 ^ n * (v div 256 ^ n mod 256) + v mod 256 ^ n"
    by (rule mod_mult2_eq)
  moreover have "unat (word_of_nat (v div 256 ^ n mod 256) :: u8) = v div 256 ^ n mod 256"
    by (simp add: unat_of_nat)
  ultimately show ?case
    using Suc by (simp add: mult.commute)
qed simp

lemma nat_be_be_nat: "nat_be (length bs) (be_nat bs) = bs"
proof (induction bs)
  case (Cons b bs)
  let ?n = "length bs"
  have lt: "be_nat bs < 256 ^ ?n" by (rule be_nat_bound)
  have "unat b < 256"
    using unsigned_less [of b, where ?'a = nat] by simp
  then have hd_eq: "(unat b * 256 ^ ?n + be_nat bs) div 256 ^ ?n mod 256 = unat b"
    using lt by simp
  have "nat_be ?n (unat b * 256 ^ ?n + be_nat bs) = nat_be ?n ((unat b * 256 ^ ?n + be_nat bs) mod 256 ^ ?n)"
    by (simp only: nat_be_mod)
  also have "\<dots> = nat_be ?n (be_nat bs)"
    using lt by simp
  also have "\<dots> = bs" by (rule Cons.IH)
  finally show ?case
    using hd_eq by simp
qed simp

lemma from_to_be_bytes:
  assumes "LENGTH('w::len) = 8 * k"
  shows "from_be_bytes (to_be_bytes (w :: 'w word)) = w"
proof -
  have "unat w < 2 ^ LENGTH('w)"
    by (rule unsigned_less)
  also have "(2::nat) ^ LENGTH('w) = 256 ^ (LENGTH('w) div 8)"
    using assms by (simp add: power_mult)
  finally show ?thesis
    by (simp add: from_be_bytes_def to_be_bytes_def be_nat_nat_be)
qed

lemma to_from_be_bytes:
  assumes "LENGTH('w::len) = 8 * length bs"
  shows "to_be_bytes (from_be_bytes bs :: 'w word) = bs"
proof -
  have "be_nat bs < 2 ^ LENGTH('w)"
    using be_nat_bound [of bs] assms by (simp add: power_mult)
  then have "unat (word_of_nat (be_nat bs) :: 'w word) = be_nat bs"
    by (simp add: unat_of_nat)
  then show ?thesis
    using assms by (simp add: from_be_bytes_def to_be_bytes_def nat_be_be_nat)
qed

lemma length_to_be_bytes: "length (to_be_bytes (w :: 'w::len word)) = LENGTH('w) div 8"
  by (simp add: to_be_bytes_def)

subsection \<open>First positions in a list\<close>

text \<open>\<open>Iterator::position\<close>: the index of the first element that satisfies a predicate.\<close>

fun position :: "('a \<Rightarrow> bool) \<Rightarrow> 'a list \<Rightarrow> nat option" where
  "position p [] = None"
| "position p (x # xs) = (if p x then Some 0 else map_option Suc (position p xs))"

text \<open>\<open>Vec::remove\<close> at an index the code has just found.\<close>

definition remove_at :: "nat \<Rightarrow> 'a list \<Rightarrow> 'a list" where
  "remove_at i xs = take i xs @ drop (Suc i) xs"

lemma position_None_iff: "position p xs = None \<longleftrightarrow> (\<forall>x \<in> set xs. \<not> p x)"
  by (induction xs) auto

lemma position_SomeD:
  "position p xs = Some i \<Longrightarrow> i < length xs \<and> p (xs ! i) \<and> (\<forall>j < i. \<not> p (xs ! j))"
proof (induction xs arbitrary: i)
  case (Cons x xs)
  then show ?case
    by (cases i) (auto split: if_splits simp: less_Suc_eq_0_disj)
qed simp

lemma position_exists: "x \<in> set xs \<Longrightarrow> p x \<Longrightarrow> \<exists>i. position p xs = Some i"
  by (induction xs) auto

lemma find_SomeD: "find p xs = Some x \<Longrightarrow> x \<in> set xs \<and> p x"
  by (auto simp: find_Some_iff)

lemma find_position: "find p xs = map_option (\<lambda>i. xs ! i) (position p xs)"
  by (induction xs) (auto simp: option.map_comp comp_def)

lemma set_remove_at_subset: "set (remove_at i xs) \<subseteq> set xs"
  by (auto simp: remove_at_def dest: in_set_takeD in_set_dropD)

lemma split_at: "i < length xs \<Longrightarrow> xs = take i xs @ xs ! i # drop (Suc i) xs"
  by (simp add: id_take_nth_drop)

lemma length_remove_at [simp]: "i < length xs \<Longrightarrow> length (remove_at i xs) = length xs - 1"
  by (simp add: remove_at_def)

lemma map_remove_at: "map f (remove_at i xs) = remove_at i (map f xs)"
  by (simp add: remove_at_def take_map drop_map)

lemma distinct_remove_at: "distinct xs \<Longrightarrow> distinct (remove_at i xs)"
  by (auto simp: remove_at_def set_take_disj_set_drop_if_distinct)

lemma set_remove_at_distinct:
  assumes "distinct xs" and "i < length xs"
  shows "set (remove_at i xs) = set xs - {xs ! i}"
proof -
  have eq: "xs = take i xs @ xs ! i # drop (Suc i) xs"
    using assms(2) by (rule split_at)
  have "distinct (take i xs @ xs ! i # drop (Suc i) xs)"
    using assms(1) by (simp flip: eq)
  then have "xs ! i \<notin> set (take i xs) \<union> set (drop (Suc i) xs)" by auto
  moreover have "set xs = insert (xs ! i) (set (take i xs) \<union> set (drop (Suc i) xs))"
    by (subst eq) auto
  ultimately show ?thesis
    by (auto simp: remove_at_def)
qed

lemma length_filter_remove_at:
  assumes "i < length xs"
  shows "length (filter p (remove_at i xs)) = length (filter p xs) - (if p (xs ! i) then 1 else 0)"
proof -
  have "filter p xs = filter p (take i xs @ xs ! i # drop (Suc i) xs)"
    using split_at [OF assms] by simp
  then show ?thesis
    by (simp add: remove_at_def)
qed

lemma length_filter_update:
  assumes "i < length xs"
  shows "length (filter p (xs[i := y])) + (if p (xs ! i) then 1 else 0)
       = length (filter p xs) + (if p y then 1 else 0)"
proof -
  have "filter p xs = filter p (take i xs @ xs ! i # drop (Suc i) xs)"
    using split_at [OF assms] by simp
  moreover have "xs[i := y] = take i xs @ y # drop (Suc i) xs"
    using assms by (rule upd_conv_take_nth_drop)
  ultimately show ?thesis by simp
qed

text \<open>In a list whose elements have distinct keys, a search by key finds the element itself.\<close>

lemma distinct_map_Cons_neq:
  assumes "distinct (map f (x # xs))" and "y \<in> set xs"
  shows "f y \<noteq> f x"
proof
  assume "f y = f x"
  with assms(2) have "f x \<in> f ` set xs" by (metis imageI)
  with assms(1) show False by simp
qed

lemma find_unique_key:
  assumes "distinct (map f xs)" and "x \<in> set xs"
  shows "find (\<lambda>y. f y = f x) xs = Some x"
  using assms by (induction xs) force+

lemma position_unique_key:
  assumes "distinct (map f xs)" and "i < length xs"
  shows "position (\<lambda>y. f y = f (xs ! i)) xs = Some i"
  using assms
proof (induction xs arbitrary: i)
  case (Cons x xs)
  then show ?case by (cases i) (auto simp: image_iff)
qed simp

lemma remove_at_filter:
  assumes "distinct (map f xs)" and "position (\<lambda>x. f x = k) xs = Some i"
  shows "remove_at i xs = filter (\<lambda>x. f x \<noteq> k) xs"
  using assms
proof (induction xs arbitrary: i)
  case (Cons x xs)
  show ?case
  proof (cases "f x = k")
    case True
    with Cons.prems have "i = 0" "k \<notin> f ` set xs" by auto
    then have "\<forall>y \<in> set xs. f y \<noteq> k" by blast
    with True \<open>i = 0\<close> show ?thesis by (simp add: remove_at_def)
  next
    case False
    with Cons.prems obtain j where j: "i = Suc j" "position (\<lambda>x. f x = k) xs = Some j" by auto
    with Cons False show ?thesis by (simp add: remove_at_def)
  qed
qed simp

subsection \<open>Step systems with an invariant\<close>

text \<open>
  Each stateful component is driven by a sequence of calls.  The locale states the one
  obligation a component discharges (every call keeps the invariant) and lifts it to runs.
\<close>

locale step_invariant =
  fixes step :: "'s \<Rightarrow> 'c \<Rightarrow> 's"
    and inv :: "'s \<Rightarrow> bool"
  assumes inv_step: "inv s \<Longrightarrow> inv (step s c)"
begin

lemma inv_run: "inv s \<Longrightarrow> inv (foldl step s cs)"
  by (induction cs arbitrary: s) (auto intro: inv_step)

lemma inv_prefix: "inv s \<Longrightarrow> inv (foldl step s (take n cs))"
  by (rule inv_run)

end

text \<open>
  The companion for facts about two moments of a run: a preorder every single call respects
  (counters that only grow, flags that are never cleared) holds between the ends of any run.
\<close>

locale step_monotone =
  fixes step :: "'s \<Rightarrow> 'c \<Rightarrow> 's"
    and rel :: "'s \<Rightarrow> 's \<Rightarrow> bool"
  assumes rel_refl: "rel s s"
    and rel_trans: "rel s t \<Longrightarrow> rel t u \<Longrightarrow> rel s u"
    and rel_step: "rel s (step s c)"
begin

lemma rel_run: "rel s (foldl step s cs)"
proof (induction cs arbitrary: s)
  case (Cons c cs)
  show ?case using rel_trans [OF rel_step Cons.IH] by simp
qed (simp add: rel_refl)

end

end
