(* ===== verification/Guardian_Wire.thy ===== *)
theory Guardian_Wire
  imports OS_Prelude
begin

text \<open>
  The wire format between the daemon and the XTEST guardian
  (src/src/daemon/xtest_guardian/protocol.rs, first half).

  A frame is a 17-byte header (magic, version, kind, payload length, sequence number) and a
  payload of at most 111 bytes.  \<open>Encoder\<close> and \<open>Decoder\<close> are the two cursors of the source;
  every \<open>encode_*\<close> and \<open>decode_*\<close> function is translated one to one, with every error
  branch.  The locale \<open>byte_codec\<close> is the contract between one encoder and one decoder of a
  field; it is interpreted on each field codec of the source, and the frame theorems (round
  trip, canonicity, totality) rest on those interpretations.

  A \<open>[u8; 16]\<close> is a byte list; \<open>wf_request\<close>, \<open>wf_response\<close> and \<open>wf_message\<close> state the
  array lengths that the Rust types enforce.
\<close>

subsection \<open>Constants\<close>

definition MAGIC :: "u8 list" where
  "MAGIC = [79, 83, 88, 71]"

definition HEADER_BYTES :: nat where
  "HEADER_BYTES = 17"

definition PROTOCOL_VERSION :: u16 where
  "PROTOCOL_VERSION = 1"

definition MAX_FRAME_BYTES :: nat where
  "MAX_FRAME_BYTES = 128"

definition MAX_PREPARED_TOKENS :: nat where
  "MAX_PREPARED_TOKENS = 512"

definition MAX_ACTIVE_DEBTS :: nat where
  "MAX_ACTIVE_DEBTS = 32"

definition MAX_TRANSACTION_TIMEOUT_NS :: u64 where
  "MAX_TRANSACTION_TIMEOUT_NS = 5000000000"

definition MAX_RELEASE_CLEANUP_NS :: u64 where
  "MAX_RELEASE_CLEANUP_NS = 1000000000"

abbreviation (input) KIND_HELLO :: u8 where "KIND_HELLO \<equiv> 1"

abbreviation (input) KIND_PREPARE_KEY :: u8 where "KIND_PREPARE_KEY \<equiv> 2"
abbreviation (input) KIND_EXECUTE_DOWN :: u8 where "KIND_EXECUTE_DOWN \<equiv> 3"
abbreviation (input) KIND_KEY_UP :: u8 where "KIND_KEY_UP \<equiv> 4"
abbreviation (input) KIND_SYNCHRONIZE :: u8 where "KIND_SYNCHRONIZE \<equiv> 5"
abbreviation (input) KIND_TRANSFER_TO_PHYSICAL_DEBT :: u8 where "KIND_TRANSFER_TO_PHYSICAL_DEBT \<equiv> 6"
abbreviation (input) KIND_PHYSICAL_RELEASE_COMMITTED :: u8 where "KIND_PHYSICAL_RELEASE_COMMITTED \<equiv> 7"
abbreviation (input) KIND_CANCEL_AND_DRAIN :: u8 where "KIND_CANCEL_AND_DRAIN \<equiv> 8"
abbreviation (input) KIND_RELEASE_ALL_AND_EXIT :: u8 where "KIND_RELEASE_ALL_AND_EXIT \<equiv> 9"
abbreviation (input) KIND_READY :: u8 where "KIND_READY \<equiv> 101"
abbreviation (input) KIND_PREPARED :: u8 where "KIND_PREPARED \<equiv> 102"
abbreviation (input) KIND_DOWN_ACK :: u8 where "KIND_DOWN_ACK \<equiv> 103"
abbreviation (input) KIND_UP_ACK :: u8 where "KIND_UP_ACK \<equiv> 104"
abbreviation (input) KIND_SYNC_ACK :: u8 where "KIND_SYNC_ACK \<equiv> 105"
abbreviation (input) KIND_TRANSFER_ACK :: u8 where "KIND_TRANSFER_ACK \<equiv> 106"
abbreviation (input) KIND_RELEASE_COMMIT_ACK :: u8 where "KIND_RELEASE_COMMIT_ACK \<equiv> 107"
abbreviation (input) KIND_DRAINED :: u8 where "KIND_DRAINED \<equiv> 108"
abbreviation (input) KIND_STOPPED :: u8 where "KIND_STOPPED \<equiv> 109"
abbreviation (input) KIND_FATAL :: u8 where "KIND_FATAL \<equiv> 110"

subsection \<open>Messages\<close>

type_synonym operation_id = u64
type_synonym sequence_no = u64
type_synonym input_generation = u64
type_synonym physical_sequence = u64
type_synonym session_id = "u8 list"
type_synonym server_epoch = "u8 list"
type_synonym mutation_deadline_ns = u64
type_synonym cleanup_deadline_ns = u64

record protocol_session =
  ps_session :: session_id
  ps_epoch :: server_epoch

datatype release_deadline =
    MutationDeadline mutation_deadline_ns
  | CleanupDeadline cleanup_deadline_ns

record prepared_token =
  tok_session :: session_id
  tok_epoch :: server_epoch
  token_id :: u64
  evdev_code :: u16
  x11_keycode :: u8

datatype wire_terminal_proof =
    WireReconciled
  | WireOwnerGenerationDestroyed u64
  | WireUnreconciled u16

datatype fatal_code =
    FatalProtocolViolation
  | FatalDeadlineExpired
  | FatalDeadlineTooFar
  | FatalCapacityExceeded
  | FatalBackendUnavailable
  | FatalBackendFailure
  | FatalUnreconciled

datatype request =
    Hello "u8 list" mutation_deadline_ns
  | PrepareKey operation_id u16 mutation_deadline_ns
  | ExecuteDown operation_id prepared_token mutation_deadline_ns
  | KeyUp operation_id prepared_token release_deadline
  | Synchronize operation_id u64 release_deadline
  | TransferToPhysicalDebt operation_id prepared_token input_generation mutation_deadline_ns
  | PhysicalReleaseCommitted physical_sequence prepared_token input_generation mutation_deadline_ns
  | CancelAndDrain operation_id cleanup_deadline_ns
  | ReleaseAllAndExit cleanup_deadline_ns

datatype response =
    Ready session_id server_epoch u32 "u8 list"
  | Prepared operation_id prepared_token
  | DownAck operation_id u64
  | UpAck operation_id u64
  | SyncAck operation_id u64
  | TransferAck operation_id u64
  | ReleaseCommitAck physical_sequence u64
  | Drained operation_id wire_terminal_proof
  | Stopped wire_terminal_proof
  | Fatal fatal_code

datatype message = Request request | Response response

record decoded_frame =
  df_sequence :: sequence_no
  df_message :: message

definition protocol_error :: "string \<Rightarrow> switcher_error" where
  "protocol_error context = input_safety context"

subsection \<open>Encoder and decoder cursors\<close>

record encoder =
  enc_bytes :: "u8 list"

definition encoder_new :: encoder where
  "encoder_new = \<lparr>enc_bytes = []\<rparr>"

definition push_bytes :: "encoder \<Rightarrow> u8 list \<Rightarrow> encoder res" where
  "push_bytes e bs =
     (case usize_checked_add (length (enc_bytes e)) (length bs) of
        None \<Rightarrow> Inl (protocol_error ''XTEST guardian frame payload is too large'')
      | Some n \<Rightarrow>
          if n > MAX_FRAME_BYTES - HEADER_BYTES
          then Inl (protocol_error ''XTEST guardian frame payload is too large'')
          else Inr (e\<lparr>enc_bytes := enc_bytes e @ bs\<rparr>))"

definition push_u8 :: "encoder \<Rightarrow> u8 \<Rightarrow> encoder res" where
  "push_u8 e v = push_bytes e [v]"

definition push_u16 :: "encoder \<Rightarrow> u16 \<Rightarrow> encoder res" where
  "push_u16 e v = push_bytes e (to_be_bytes v)"

definition push_u32 :: "encoder \<Rightarrow> u32 \<Rightarrow> encoder res" where
  "push_u32 e v = push_bytes e (to_be_bytes v)"

definition push_u64 :: "encoder \<Rightarrow> u64 \<Rightarrow> encoder res" where
  "push_u64 e v = push_bytes e (to_be_bytes v)"

record decoder =
  dec_bytes :: "u8 list"
  dec_offset :: nat

type_synonym 'a reader = "decoder \<Rightarrow> ('a \<times> decoder) res"

definition decoder_new :: "u8 list \<Rightarrow> decoder" where
  "decoder_new bs = \<lparr>dec_bytes = bs, dec_offset = 0\<rparr>"

definition read_array :: "nat \<Rightarrow> (u8 list) reader" where
  "read_array n d =
     and_then (ok_or (usize_checked_add (dec_offset d) n)
                 (protocol_error ''XTEST guardian frame offset overflow''))
       (\<lambda>end_offset.
          if end_offset \<le> length (dec_bytes d)
          then Inr (take n (drop (dec_offset d) (dec_bytes d)), d\<lparr>dec_offset := end_offset\<rparr>)
          else Inl (protocol_error ''XTEST guardian frame is truncated''))"

definition read_u8 :: "u8 reader" where
  "read_u8 d = and_then (read_array 1 d) (\<lambda>(bs, d). Inr (bs ! 0, d))"

definition read_u16 :: "u16 reader" where
  "read_u16 d = and_then (read_array 2 d) (\<lambda>(bs, d). Inr (from_be_bytes bs, d))"

definition read_u32 :: "u32 reader" where
  "read_u32 d = and_then (read_array 4 d) (\<lambda>(bs, d). Inr (from_be_bytes bs, d))"

definition read_u64 :: "u64 reader" where
  "read_u64 d = and_then (read_array 8 d) (\<lambda>(bs, d). Inr (from_be_bytes bs, d))"

definition decoder_finish :: "decoder \<Rightarrow> unit res" where
  "decoder_finish d =
     (if dec_offset d = length (dec_bytes d) then Inr ()
      else Inl (protocol_error ''XTEST guardian frame contains trailing payload bytes''))"

subsection \<open>Field codecs\<close>

definition encode_operation :: "encoder \<Rightarrow> operation_id \<Rightarrow> encoder res" where
  "encode_operation e operation = push_u64 e operation"

definition decode_operation :: "operation_id reader" where
  "decode_operation d = read_u64 d"

definition encode_token :: "encoder \<Rightarrow> prepared_token \<Rightarrow> encoder res" where
  "encode_token e token =
     and_then (push_bytes e (tok_session token)) (\<lambda>e.
     and_then (push_bytes e (tok_epoch token)) (\<lambda>e.
     and_then (push_u64 e (token_id token)) (\<lambda>e.
     and_then (push_u16 e (evdev_code token)) (\<lambda>e.
     push_u8 e (x11_keycode token)))))"

definition decode_token :: "prepared_token reader" where
  "decode_token d =
     and_then (read_array 16 d) (\<lambda>(session, d).
     and_then (read_array 16 d) (\<lambda>(epoch, d).
     and_then (read_u64 d) (\<lambda>(tid, d).
     and_then (read_u16 d) (\<lambda>(code, d).
     and_then (read_u8 d) (\<lambda>(keycode, d).
     Inr (\<lparr>tok_session = session, tok_epoch = epoch, token_id = tid,
            evdev_code = code, x11_keycode = keycode\<rparr>, d))))))"

definition encode_release_deadline :: "encoder \<Rightarrow> release_deadline \<Rightarrow> encoder res" where
  "encode_release_deadline e deadline =
     (case deadline of
        MutationDeadline ns \<Rightarrow> and_then (push_u8 e 1) (\<lambda>e. push_u64 e ns)
      | CleanupDeadline ns \<Rightarrow> and_then (push_u8 e 2) (\<lambda>e. push_u64 e ns))"

definition decode_release_deadline :: "release_deadline reader" where
  "decode_release_deadline d =
     and_then (read_u8 d) (\<lambda>(k, d).
       if k = 1 then and_then (read_u64 d) (\<lambda>(ns, d). Inr (MutationDeadline ns, d))
       else if k = 2 then and_then (read_u64 d) (\<lambda>(ns, d). Inr (CleanupDeadline ns, d))
       else Inl (protocol_error ''XTEST guardian release deadline kind is unknown''))"

definition encode_terminal_proof :: "encoder \<Rightarrow> wire_terminal_proof \<Rightarrow> encoder res" where
  "encode_terminal_proof e p =
     (case p of
        WireReconciled \<Rightarrow> push_u8 e 1
      | WireOwnerGenerationDestroyed generation \<Rightarrow>
          and_then (push_u8 e 2) (\<lambda>e. push_u64 e generation)
      | WireUnreconciled remaining \<Rightarrow>
          and_then (push_u8 e 3) (\<lambda>e. push_u16 e remaining))"

definition decode_terminal_proof :: "wire_terminal_proof reader" where
  "decode_terminal_proof d =
     and_then (read_u8 d) (\<lambda>(k, d).
       if k = 1 then Inr (WireReconciled, d)
       else if k = 2 then
         and_then (read_u64 d) (\<lambda>(generation, d). Inr (WireOwnerGenerationDestroyed generation, d))
       else if k = 3 then
         and_then (read_u16 d) (\<lambda>(remaining, d). Inr (WireUnreconciled remaining, d))
       else Inl (protocol_error ''XTEST guardian terminal proof kind is unknown''))"

fun fatal_code_value :: "fatal_code \<Rightarrow> u8" where
  "fatal_code_value FatalProtocolViolation = 1"
| "fatal_code_value FatalDeadlineExpired = 2"
| "fatal_code_value FatalDeadlineTooFar = 3"
| "fatal_code_value FatalCapacityExceeded = 4"
| "fatal_code_value FatalBackendUnavailable = 5"
| "fatal_code_value FatalBackendFailure = 6"
| "fatal_code_value FatalUnreconciled = 7"

definition encode_fatal_code :: "encoder \<Rightarrow> fatal_code \<Rightarrow> encoder res" where
  "encode_fatal_code e code = push_u8 e (fatal_code_value code)"

definition decode_fatal_code :: "fatal_code reader" where
  "decode_fatal_code d =
     and_then (read_u8 d) (\<lambda>(k, d).
       if k = 1 then Inr (FatalProtocolViolation, d)
       else if k = 2 then Inr (FatalDeadlineExpired, d)
       else if k = 3 then Inr (FatalDeadlineTooFar, d)
       else if k = 4 then Inr (FatalCapacityExceeded, d)
       else if k = 5 then Inr (FatalBackendUnavailable, d)
       else if k = 6 then Inr (FatalBackendFailure, d)
       else if k = 7 then Inr (FatalUnreconciled, d)
       else Inl (protocol_error ''XTEST guardian fatal code is unknown''))"

subsection \<open>Messages on the wire\<close>

fun encode_message :: "message \<Rightarrow> (u8 \<times> u8 list) res" where
  "encode_message (Request (Hello daemon_nonce deadline)) =
     and_then (push_bytes encoder_new daemon_nonce) (\<lambda>e.
     and_then (push_u64 e deadline) (\<lambda>e.
     Inr (KIND_HELLO, enc_bytes e)))"
| "encode_message (Request (PrepareKey operation code deadline)) =
     and_then (encode_operation encoder_new operation) (\<lambda>e.
     and_then (push_u16 e code) (\<lambda>e.
     and_then (push_u64 e deadline) (\<lambda>e.
     Inr (KIND_PREPARE_KEY, enc_bytes e))))"
| "encode_message (Request (ExecuteDown operation token deadline)) =
     and_then (encode_operation encoder_new operation) (\<lambda>e.
     and_then (encode_token e token) (\<lambda>e.
     and_then (push_u64 e deadline) (\<lambda>e.
     Inr (KIND_EXECUTE_DOWN, enc_bytes e))))"
| "encode_message (Request (KeyUp operation token release)) =
     and_then (encode_operation encoder_new operation) (\<lambda>e.
     and_then (encode_token e token) (\<lambda>e.
     and_then (encode_release_deadline e release) (\<lambda>e.
     Inr (KIND_KEY_UP, enc_bytes e))))"
| "encode_message (Request (Synchronize operation tid release)) =
     and_then (encode_operation encoder_new operation) (\<lambda>e.
     and_then (push_u64 e tid) (\<lambda>e.
     and_then (encode_release_deadline e release) (\<lambda>e.
     Inr (KIND_SYNCHRONIZE, enc_bytes e))))"
| "encode_message (Request (TransferToPhysicalDebt operation token generation deadline)) =
     and_then (encode_operation encoder_new operation) (\<lambda>e.
     and_then (encode_token e token) (\<lambda>e.
     and_then (push_u64 e generation) (\<lambda>e.
     and_then (push_u64 e deadline) (\<lambda>e.
     Inr (KIND_TRANSFER_TO_PHYSICAL_DEBT, enc_bytes e)))))"
| "encode_message (Request (PhysicalReleaseCommitted sequence token generation deadline)) =
     and_then (push_u64 encoder_new sequence) (\<lambda>e.
     and_then (encode_token e token) (\<lambda>e.
     and_then (push_u64 e generation) (\<lambda>e.
     and_then (push_u64 e deadline) (\<lambda>e.
     Inr (KIND_PHYSICAL_RELEASE_COMMITTED, enc_bytes e)))))"
| "encode_message (Request (CancelAndDrain operation deadline)) =
     and_then (encode_operation encoder_new operation) (\<lambda>e.
     and_then (push_u64 e deadline) (\<lambda>e.
     Inr (KIND_CANCEL_AND_DRAIN, enc_bytes e)))"
| "encode_message (Request (ReleaseAllAndExit deadline)) =
     and_then (push_u64 encoder_new deadline) (\<lambda>e.
     Inr (KIND_RELEASE_ALL_AND_EXIT, enc_bytes e))"
| "encode_message (Response (Ready session epoch window nonce)) =
     and_then (push_bytes encoder_new session) (\<lambda>e.
     and_then (push_bytes e epoch) (\<lambda>e.
     and_then (push_u32 e window) (\<lambda>e.
     and_then (push_bytes e nonce) (\<lambda>e.
     Inr (KIND_READY, enc_bytes e)))))"
| "encode_message (Response (Prepared operation token)) =
     and_then (encode_operation encoder_new operation) (\<lambda>e.
     and_then (encode_token e token) (\<lambda>e.
     Inr (KIND_PREPARED, enc_bytes e)))"
| "encode_message (Response (DownAck operation tid)) =
     and_then (encode_operation encoder_new operation) (\<lambda>e.
     and_then (push_u64 e tid) (\<lambda>e.
     Inr (KIND_DOWN_ACK, enc_bytes e)))"
| "encode_message (Response (UpAck operation tid)) =
     and_then (encode_operation encoder_new operation) (\<lambda>e.
     and_then (push_u64 e tid) (\<lambda>e.
     Inr (KIND_UP_ACK, enc_bytes e)))"
| "encode_message (Response (SyncAck operation tid)) =
     and_then (encode_operation encoder_new operation) (\<lambda>e.
     and_then (push_u64 e tid) (\<lambda>e.
     Inr (KIND_SYNC_ACK, enc_bytes e)))"
| "encode_message (Response (TransferAck operation tid)) =
     and_then (encode_operation encoder_new operation) (\<lambda>e.
     and_then (push_u64 e tid) (\<lambda>e.
     Inr (KIND_TRANSFER_ACK, enc_bytes e)))"
| "encode_message (Response (ReleaseCommitAck sequence tid)) =
     and_then (push_u64 encoder_new sequence) (\<lambda>e.
     and_then (push_u64 e tid) (\<lambda>e.
     Inr (KIND_RELEASE_COMMIT_ACK, enc_bytes e)))"
| "encode_message (Response (Drained operation evidence)) =
     and_then (encode_operation encoder_new operation) (\<lambda>e.
     and_then (encode_terminal_proof e evidence) (\<lambda>e.
     Inr (KIND_DRAINED, enc_bytes e)))"
| "encode_message (Response (Stopped evidence)) =
     and_then (encode_terminal_proof encoder_new evidence) (\<lambda>e.
     Inr (KIND_STOPPED, enc_bytes e))"
| "encode_message (Response (Fatal code)) =
     and_then (encode_fatal_code encoder_new code) (\<lambda>e.
     Inr (KIND_FATAL, enc_bytes e))"

definition encode_frame :: "sequence_no \<Rightarrow> message \<Rightarrow> (u8 list) res" where
  "encode_frame sequence m =
     (if sequence = 0 then Inl (protocol_error ''XTEST guardian sequence must be nonzero'')
      else and_then (encode_message m) (\<lambda>(kind, payload).
        if length payload \<ge> 2 ^ 16
        then Inl (protocol_error ''XTEST guardian payload length overflow'')
        else (let payload_len = (of_nat (length payload) :: u16) in
          and_then (ok_or (usize_checked_add HEADER_BYTES (length payload))
                      (protocol_error ''XTEST guardian frame length overflow'')) (\<lambda>frame_len.
          if frame_len > MAX_FRAME_BYTES
          then Inl (protocol_error ''XTEST guardian frame is too large'')
          else Inr (MAGIC @ to_be_bytes PROTOCOL_VERSION @ [kind] @ to_be_bytes payload_len
                    @ to_be_bytes sequence @ payload)))))"

definition decode_message :: "u8 \<Rightarrow> message reader" where
  "decode_message kind d =
     (if kind = KIND_HELLO then
        and_then (read_array 16 d) (\<lambda>(daemon_nonce, d).
        and_then (read_u64 d) (\<lambda>(deadline, d).
        Inr (Request (Hello daemon_nonce deadline), d)))
      else if kind = KIND_PREPARE_KEY then
        and_then (decode_operation d) (\<lambda>(operation, d).
        and_then (read_u16 d) (\<lambda>(code, d).
        and_then (read_u64 d) (\<lambda>(deadline, d).
        Inr (Request (PrepareKey operation code deadline), d))))
      else if kind = KIND_EXECUTE_DOWN then
        and_then (decode_operation d) (\<lambda>(operation, d).
        and_then (decode_token d) (\<lambda>(token, d).
        and_then (read_u64 d) (\<lambda>(deadline, d).
        Inr (Request (ExecuteDown operation token deadline), d))))
      else if kind = KIND_KEY_UP then
        and_then (decode_operation d) (\<lambda>(operation, d).
        and_then (decode_token d) (\<lambda>(token, d).
        and_then (decode_release_deadline d) (\<lambda>(release, d).
        Inr (Request (KeyUp operation token release), d))))
      else if kind = KIND_SYNCHRONIZE then
        and_then (decode_operation d) (\<lambda>(operation, d).
        and_then (read_u64 d) (\<lambda>(tid, d).
        and_then (decode_release_deadline d) (\<lambda>(release, d).
        Inr (Request (Synchronize operation tid release), d))))
      else if kind = KIND_TRANSFER_TO_PHYSICAL_DEBT then
        and_then (decode_operation d) (\<lambda>(operation, d).
        and_then (decode_token d) (\<lambda>(token, d).
        and_then (read_u64 d) (\<lambda>(generation, d).
        and_then (read_u64 d) (\<lambda>(deadline, d).
        Inr (Request (TransferToPhysicalDebt operation token generation deadline), d)))))
      else if kind = KIND_PHYSICAL_RELEASE_COMMITTED then
        and_then (read_u64 d) (\<lambda>(sequence, d).
        and_then (decode_token d) (\<lambda>(token, d).
        and_then (read_u64 d) (\<lambda>(generation, d).
        and_then (read_u64 d) (\<lambda>(deadline, d).
        Inr (Request (PhysicalReleaseCommitted sequence token generation deadline), d)))))
      else if kind = KIND_CANCEL_AND_DRAIN then
        and_then (decode_operation d) (\<lambda>(operation, d).
        and_then (read_u64 d) (\<lambda>(deadline, d).
        Inr (Request (CancelAndDrain operation deadline), d)))
      else if kind = KIND_RELEASE_ALL_AND_EXIT then
        and_then (read_u64 d) (\<lambda>(deadline, d).
        Inr (Request (ReleaseAllAndExit deadline), d))
      else if kind = KIND_READY then
        and_then (read_array 16 d) (\<lambda>(session, d).
        and_then (read_array 16 d) (\<lambda>(epoch, d).
        and_then (read_u32 d) (\<lambda>(window, d).
        and_then (read_array 16 d) (\<lambda>(nonce, d).
        Inr (Response (Ready session epoch window nonce), d)))))
      else if kind = KIND_PREPARED then
        and_then (decode_operation d) (\<lambda>(operation, d).
        and_then (decode_token d) (\<lambda>(token, d).
        Inr (Response (Prepared operation token), d)))
      else if kind = KIND_DOWN_ACK then
        and_then (decode_operation d) (\<lambda>(operation, d).
        and_then (read_u64 d) (\<lambda>(tid, d).
        Inr (Response (DownAck operation tid), d)))
      else if kind = KIND_UP_ACK then
        and_then (decode_operation d) (\<lambda>(operation, d).
        and_then (read_u64 d) (\<lambda>(tid, d).
        Inr (Response (UpAck operation tid), d)))
      else if kind = KIND_SYNC_ACK then
        and_then (decode_operation d) (\<lambda>(operation, d).
        and_then (read_u64 d) (\<lambda>(tid, d).
        Inr (Response (SyncAck operation tid), d)))
      else if kind = KIND_TRANSFER_ACK then
        and_then (decode_operation d) (\<lambda>(operation, d).
        and_then (read_u64 d) (\<lambda>(tid, d).
        Inr (Response (TransferAck operation tid), d)))
      else if kind = KIND_RELEASE_COMMIT_ACK then
        and_then (read_u64 d) (\<lambda>(sequence, d).
        and_then (read_u64 d) (\<lambda>(tid, d).
        Inr (Response (ReleaseCommitAck sequence tid), d)))
      else if kind = KIND_DRAINED then
        and_then (decode_operation d) (\<lambda>(operation, d).
        and_then (decode_terminal_proof d) (\<lambda>(evidence, d).
        Inr (Response (Drained operation evidence), d)))
      else if kind = KIND_STOPPED then
        and_then (decode_terminal_proof d) (\<lambda>(evidence, d).
        Inr (Response (Stopped evidence), d))
      else if kind = KIND_FATAL then
        and_then (decode_fatal_code d) (\<lambda>(code, d).
        Inr (Response (Fatal code), d))
      else Inl (protocol_error ''XTEST guardian message kind is unknown''))"

definition decode_frame :: "u8 list \<Rightarrow> decoded_frame res" where
  "decode_frame frame =
     (if length frame > MAX_FRAME_BYTES
      then Inl (protocol_error ''XTEST guardian frame is too large'')
      else if length frame < HEADER_BYTES
      then Inl (protocol_error ''XTEST guardian frame header is truncated'')
      else
        and_then (read_array 4 (decoder_new (take HEADER_BYTES frame))) (\<lambda>(magic, header).
        if magic \<noteq> MAGIC then Inl (protocol_error ''XTEST guardian frame magic is invalid'')
        else and_then (read_u16 header) (\<lambda>(version, header).
        if version \<noteq> PROTOCOL_VERSION
        then Inl (protocol_error ''XTEST guardian protocol version is unsupported'')
        else and_then (read_u8 header) (\<lambda>(kind, header).
        and_then (read_u16 header) (\<lambda>(payload_len, header).
        and_then (read_u64 header) (\<lambda>(sequence, header).
        and_then (decoder_finish header) (\<lambda>_.
        if sequence = 0 then Inl (protocol_error ''XTEST guardian sequence must be nonzero'')
        else and_then (ok_or (usize_checked_add HEADER_BYTES (unat payload_len))
                        (protocol_error ''XTEST guardian frame length overflow'')) (\<lambda>expected_len.
        if expected_len \<noteq> length frame
        then Inl (protocol_error ''XTEST guardian payload length does not match frame'')
        else and_then (decode_message kind (decoder_new (drop HEADER_BYTES frame)))
          (\<lambda>(m, payload).
        and_then (decoder_finish payload) (\<lambda>_.
        Inr \<lparr>df_sequence = sequence, df_message = m\<rparr>))))))))))"

definition response_pairs :: "request \<Rightarrow> response \<Rightarrow> bool" where
  "response_pairs req resp =
     (case req of
        Hello _ _ \<Rightarrow> (case resp of Ready _ _ _ _ \<Rightarrow> True | _ \<Rightarrow> False)
      | PrepareKey operation code _ \<Rightarrow>
          (case resp of Prepared operation' token \<Rightarrow> operation = operation' \<and> code = evdev_code token
           | _ \<Rightarrow> False)
      | ExecuteDown operation token _ \<Rightarrow>
          (case resp of DownAck operation' tid \<Rightarrow> operation = operation' \<and> token_id token = tid
           | _ \<Rightarrow> False)
      | KeyUp operation token _ \<Rightarrow>
          (case resp of UpAck operation' tid \<Rightarrow> operation = operation' \<and> token_id token = tid
           | _ \<Rightarrow> False)
      | Synchronize operation tid _ \<Rightarrow>
          (case resp of SyncAck operation' tid' \<Rightarrow> operation = operation' \<and> tid = tid'
           | _ \<Rightarrow> False)
      | TransferToPhysicalDebt operation token _ _ \<Rightarrow>
          (case resp of TransferAck operation' tid \<Rightarrow> operation = operation' \<and> token_id token = tid
           | _ \<Rightarrow> False)
      | PhysicalReleaseCommitted sequence token _ _ \<Rightarrow>
          (case resp of ReleaseCommitAck sequence' tid \<Rightarrow> sequence = sequence' \<and> token_id token = tid
           | _ \<Rightarrow> False)
      | CancelAndDrain operation _ \<Rightarrow>
          (case resp of Drained operation' _ \<Rightarrow> operation = operation' | _ \<Rightarrow> False)
      | ReleaseAllAndExit _ \<Rightarrow> (case resp of Stopped _ \<Rightarrow> True | _ \<Rightarrow> False))"

definition response_matches :: "sequence_no \<Rightarrow> request \<Rightarrow> decoded_frame \<Rightarrow> unit res" where
  "response_matches request_sequence req frame =
     (if df_sequence frame \<noteq> request_sequence
      then Inl (protocol_error ''XTEST guardian response sequence does not match request'')
      else case df_message frame of
        Request _ \<Rightarrow> Inl (protocol_error ''XTEST guardian peer returned a request as a response'')
      | Response (Fatal _) \<Rightarrow> Inr ()
      | Response resp \<Rightarrow>
          if response_pairs req resp then Inr ()
          else Inl (protocol_error ''XTEST guardian response does not match request''))"

subsection \<open>Specification: the bytes of a message\<close>

text \<open>
  What the functions above are proved against: array lengths the Rust types enforce, and the
  payload as one byte string.
\<close>

definition wf_token :: "prepared_token \<Rightarrow> bool" where
  "wf_token t \<longleftrightarrow> length (tok_session t) = 16 \<and> length (tok_epoch t) = 16"

fun wf_request :: "request \<Rightarrow> bool" where
  "wf_request (Hello nonce _) = (length nonce = 16)"
| "wf_request (ExecuteDown _ t _) = wf_token t"
| "wf_request (KeyUp _ t _) = wf_token t"
| "wf_request (TransferToPhysicalDebt _ t _ _) = wf_token t"
| "wf_request (PhysicalReleaseCommitted _ t _ _) = wf_token t"
| "wf_request _ = True"

fun wf_response :: "response \<Rightarrow> bool" where
  "wf_response (Ready session epoch _ nonce) =
     (length session = 16 \<and> length epoch = 16 \<and> length nonce = 16)"
| "wf_response (Prepared _ t) = wf_token t"
| "wf_response _ = True"

fun wf_message :: "message \<Rightarrow> bool" where
  "wf_message (Request r) = wf_request r"
| "wf_message (Response r) = wf_response r"

definition token_bytes :: "prepared_token \<Rightarrow> u8 list" where
  "token_bytes t = tok_session t @ tok_epoch t @ to_be_bytes (token_id t)
     @ to_be_bytes (evdev_code t) @ [x11_keycode t]"

fun release_deadline_bytes :: "release_deadline \<Rightarrow> u8 list" where
  "release_deadline_bytes (MutationDeadline ns) = 1 # to_be_bytes ns"
| "release_deadline_bytes (CleanupDeadline ns) = 2 # to_be_bytes ns"

fun terminal_proof_bytes :: "wire_terminal_proof \<Rightarrow> u8 list" where
  "terminal_proof_bytes WireReconciled = [1]"
| "terminal_proof_bytes (WireOwnerGenerationDestroyed g) = 2 # to_be_bytes g"
| "terminal_proof_bytes (WireUnreconciled n) = 3 # to_be_bytes n"

fun message_kind :: "message \<Rightarrow> u8" where
  "message_kind (Request (Hello _ _)) = KIND_HELLO"
| "message_kind (Request (PrepareKey _ _ _)) = KIND_PREPARE_KEY"
| "message_kind (Request (ExecuteDown _ _ _)) = KIND_EXECUTE_DOWN"
| "message_kind (Request (KeyUp _ _ _)) = KIND_KEY_UP"
| "message_kind (Request (Synchronize _ _ _)) = KIND_SYNCHRONIZE"
| "message_kind (Request (TransferToPhysicalDebt _ _ _ _)) = KIND_TRANSFER_TO_PHYSICAL_DEBT"
| "message_kind (Request (PhysicalReleaseCommitted _ _ _ _)) = KIND_PHYSICAL_RELEASE_COMMITTED"
| "message_kind (Request (CancelAndDrain _ _)) = KIND_CANCEL_AND_DRAIN"
| "message_kind (Request (ReleaseAllAndExit _)) = KIND_RELEASE_ALL_AND_EXIT"
| "message_kind (Response (Ready _ _ _ _)) = KIND_READY"
| "message_kind (Response (Prepared _ _)) = KIND_PREPARED"
| "message_kind (Response (DownAck _ _)) = KIND_DOWN_ACK"
| "message_kind (Response (UpAck _ _)) = KIND_UP_ACK"
| "message_kind (Response (SyncAck _ _)) = KIND_SYNC_ACK"
| "message_kind (Response (TransferAck _ _)) = KIND_TRANSFER_ACK"
| "message_kind (Response (ReleaseCommitAck _ _)) = KIND_RELEASE_COMMIT_ACK"
| "message_kind (Response (Drained _ _)) = KIND_DRAINED"
| "message_kind (Response (Stopped _)) = KIND_STOPPED"
| "message_kind (Response (Fatal _)) = KIND_FATAL"

fun payload_bytes :: "message \<Rightarrow> u8 list" where
  "payload_bytes (Request (Hello daemon_nonce deadline)) =
     daemon_nonce @ to_be_bytes deadline"
| "payload_bytes (Request (PrepareKey operation code deadline)) =
     to_be_bytes operation @ to_be_bytes code @ to_be_bytes deadline"
| "payload_bytes (Request (ExecuteDown operation token deadline)) =
     to_be_bytes operation @ token_bytes token @ to_be_bytes deadline"
| "payload_bytes (Request (KeyUp operation token release)) =
     to_be_bytes operation @ token_bytes token @ release_deadline_bytes release"
| "payload_bytes (Request (Synchronize operation tid release)) =
     to_be_bytes operation @ to_be_bytes tid @ release_deadline_bytes release"
| "payload_bytes (Request (TransferToPhysicalDebt operation token generation deadline)) =
     to_be_bytes operation @ token_bytes token @ to_be_bytes generation @ to_be_bytes deadline"
| "payload_bytes (Request (PhysicalReleaseCommitted sequence token generation deadline)) =
     to_be_bytes sequence @ token_bytes token @ to_be_bytes generation @ to_be_bytes deadline"
| "payload_bytes (Request (CancelAndDrain operation deadline)) =
     to_be_bytes operation @ to_be_bytes deadline"
| "payload_bytes (Request (ReleaseAllAndExit deadline)) =
     to_be_bytes deadline"
| "payload_bytes (Response (Ready session epoch window nonce)) =
     session @ epoch @ to_be_bytes window @ nonce"
| "payload_bytes (Response (Prepared operation token)) =
     to_be_bytes operation @ token_bytes token"
| "payload_bytes (Response (DownAck operation tid)) =
     to_be_bytes operation @ to_be_bytes tid"
| "payload_bytes (Response (UpAck operation tid)) =
     to_be_bytes operation @ to_be_bytes tid"
| "payload_bytes (Response (SyncAck operation tid)) =
     to_be_bytes operation @ to_be_bytes tid"
| "payload_bytes (Response (TransferAck operation tid)) =
     to_be_bytes operation @ to_be_bytes tid"
| "payload_bytes (Response (ReleaseCommitAck sequence tid)) =
     to_be_bytes sequence @ to_be_bytes tid"
| "payload_bytes (Response (Drained operation evidence)) =
     to_be_bytes operation @ terminal_proof_bytes evidence"
| "payload_bytes (Response (Stopped evidence)) =
     terminal_proof_bytes evidence"
| "payload_bytes (Response (Fatal code)) =
     [fatal_code_value code]"

text \<open>
  \<open>dec_step d bs d'\<close>: the cursor moved from \<open>d\<close> to \<open>d'\<close> over exactly the bytes \<open>bs\<close>.
\<close>

definition dec_step :: "decoder \<Rightarrow> u8 list \<Rightarrow> decoder \<Rightarrow> bool" where
  "dec_step d bs d' \<longleftrightarrow>
     dec_bytes d' = dec_bytes d \<and> dec_offset d' = dec_offset d + length bs \<and>
     dec_offset d' \<le> length (dec_bytes d) \<and>
     take (length bs) (drop (dec_offset d) (dec_bytes d)) = bs"

definition fits :: "decoder \<Rightarrow> bool" where
  "fits d \<longleftrightarrow> length (dec_bytes d) < 2 ^ 64"

subsection \<open>The contract of a field codec\<close>

locale byte_codec =
  fixes push :: "encoder \<Rightarrow> 'a \<Rightarrow> encoder res"
    and read :: "'a reader"
    and bytes :: "'a \<Rightarrow> u8 list"
    and ok :: "'a \<Rightarrow> bool"
  assumes push_spec: "push e x = push_bytes e (bytes x)"
    and read_iff: "fits d \<Longrightarrow> read d = Inr (x, d') \<longleftrightarrow> ok x \<and> dec_step d (bytes x) d'"
begin

lemma read_thenI:
  assumes "dec_step d (bytes x) d1" and "fits d" and "ok x" and "fits d1 \<Longrightarrow> k x d1 = r"
  shows "and_then (read d) (\<lambda>(x, d). k x d) = r"
  using assms read_iff [of d x d1] by (simp add: dec_step_def fits_def)

lemma readD: "read d = Inr (x, d') \<Longrightarrow> fits d \<Longrightarrow> ok x \<and> dec_step d (bytes x) d' \<and> fits d'"
  using read_iff by (auto simp: dec_step_def fits_def)

text \<open>No field encoding is a proper prefix of another: a stream splits in one way only.\<close>

lemma prefix_free:
  assumes "ok x" and "ok y" and "bytes x @ r = bytes y @ s" and "length (bytes x @ r) < 2 ^ 64"
  shows "x = y \<and> r = s"
proof -
  let ?d = "decoder_new (bytes x @ r)"
  have "fits ?d" using assms(4) by (simp add: fits_def decoder_new_def)
  moreover have "dec_step ?d (bytes x) (?d\<lparr>dec_offset := length (bytes x)\<rparr>)"
    by (simp add: dec_step_def decoder_new_def)
  moreover have "dec_step ?d (bytes y) (?d\<lparr>dec_offset := length (bytes y)\<rparr>)"
    unfolding assms(3) by (simp add: dec_step_def decoder_new_def)
  ultimately have "read ?d = Inr (x, ?d\<lparr>dec_offset := length (bytes x)\<rparr>)"
    and "read ?d = Inr (y, ?d\<lparr>dec_offset := length (bytes y)\<rparr>)"
    using read_iff assms(1,2) by blast+
  then have "x = y" by simp
  then show ?thesis using assms(3) by simp
qed

end

lemma dec_step_append:
  "dec_step d (as @ bs) d' \<longleftrightarrow> (\<exists>d1. dec_step d as d1 \<and> dec_step d1 bs d')"
proof
  assume h: "dec_step d (as @ bs) d'"
  let ?d1 = "d\<lparr>dec_offset := dec_offset d + length as\<rparr>"
  have eq: "take (length as + length bs) (drop (dec_offset d) (dec_bytes d)) = as @ bs"
    using h by (simp add: dec_step_def)
  have "take (length as) (drop (dec_offset d) (dec_bytes d)) = as"
    using arg_cong [OF eq, of "take (length as)"] by simp
  moreover have "take (length bs) (drop (dec_offset d + length as) (dec_bytes d)) = bs"
    using arg_cong [OF eq, of "drop (length as)"] by (simp add: drop_take add.commute)
  ultimately have "dec_step d as ?d1 \<and> dec_step ?d1 bs d'"
    using h by (auto simp: dec_step_def)
  then show "\<exists>d1. dec_step d as d1 \<and> dec_step d1 bs d'" by blast
next
  assume "\<exists>d1. dec_step d as d1 \<and> dec_step d1 bs d'"
  then show "dec_step d (as @ bs) d'"
    by (auto simp: dec_step_def take_add add.commute)
qed

lemma push_bytes_append:
  "and_then (push_bytes e as) (\<lambda>e. push_bytes e bs) = push_bytes e (as @ bs)"
  by (auto simp: push_bytes_def usize_checked_add_def MAX_FRAME_BYTES_def HEADER_BYTES_def
      split: option.splits if_splits)

lemma read_array_iff:
  "fits d \<Longrightarrow> read_array n d = Inr (bs, d') \<longleftrightarrow> length bs = n \<and> dec_step d bs d'"
  by (auto simp: read_array_def dec_step_def usize_checked_add_def fits_def min_def)

text \<open>A fixed-width integer read: the bytes of the value, whatever the value.\<close>

lemma read_word_iff:
  assumes "fits d" and "LENGTH('w::len) = 8 * n"
  shows "and_then (read_array n d) (\<lambda>(bs, d). Inr (from_be_bytes bs, d)) = Inr (x :: 'w word, d')
     \<longleftrightarrow> dec_step d (to_be_bytes x) d'"
proof -
  have len: "length (to_be_bytes (x :: 'w word)) = n"
    using assms(2) by (simp add: length_to_be_bytes)
  have "and_then (read_array n d) (\<lambda>(bs, d). Inr (from_be_bytes bs, d)) = Inr (x, d')
      \<longleftrightarrow> (\<exists>bs. length bs = n \<and> dec_step d bs d' \<and> from_be_bytes bs = x)"
    using read_array_iff [OF assms(1)] by fastforce
  also have "\<dots> \<longleftrightarrow> dec_step d (to_be_bytes x) d'"
  proof
    assume "\<exists>bs. length bs = n \<and> dec_step d bs d' \<and> from_be_bytes bs = x"
    then obtain bs where bs: "length bs = n" "dec_step d bs d'" "from_be_bytes bs = x"
      by blast
    then have "to_be_bytes x = bs"
      using to_from_be_bytes [of bs, where 'w = 'w] assms(2) by simp
    with bs(2) show "dec_step d (to_be_bytes x) d'" by simp
  next
    assume "dec_step d (to_be_bytes x) d'"
    with len from_to_be_bytes [OF assms(2), of x]
    show "\<exists>bs. length bs = n \<and> dec_step d bs d' \<and> from_be_bytes bs = x" by blast
  qed
  finally show ?thesis .
qed

interpretation wire_u8: byte_codec push_u8 read_u8 "\<lambda>v. [v]" "\<lambda>_. True"
proof unfold_locales
  fix d d' and x :: u8
  assume "fits d"
  note read_array_iff [OF this, of 1]
  then have "read_u8 d = Inr (x, d') \<longleftrightarrow> (\<exists>bs. length bs = 1 \<and> dec_step d bs d' \<and> bs ! 0 = x)"
    by (fastforce simp: read_u8_def)
  also have "\<dots> \<longleftrightarrow> dec_step d [x] d'"
    by (auto simp: length_Suc_conv)
  finally show "read_u8 d = Inr (x, d') \<longleftrightarrow> True \<and> dec_step d [x] d'"
    by simp
qed (simp add: push_u8_def)

interpretation wire_u16: byte_codec push_u16 read_u16 to_be_bytes "\<lambda>_. True"
proof unfold_locales
  show "fits d \<Longrightarrow> read_u16 d = Inr (x, d') \<longleftrightarrow> True \<and> dec_step d (to_be_bytes x) d'" for d d' x
    unfolding read_u16_def by (subst read_word_iff) simp_all
qed (simp add: push_u16_def)

interpretation wire_u32: byte_codec push_u32 read_u32 to_be_bytes "\<lambda>_. True"
proof unfold_locales
  show "fits d \<Longrightarrow> read_u32 d = Inr (x, d') \<longleftrightarrow> True \<and> dec_step d (to_be_bytes x) d'" for d d' x
    unfolding read_u32_def by (subst read_word_iff) simp_all
qed (simp add: push_u32_def)

interpretation wire_u64: byte_codec push_u64 read_u64 to_be_bytes "\<lambda>_. True"
proof unfold_locales
  show "fits d \<Longrightarrow> read_u64 d = Inr (x, d') \<longleftrightarrow> True \<and> dec_step d (to_be_bytes x) d'" for d d' x
    unfolding read_u64_def by (subst read_word_iff) simp_all
qed (simp add: push_u64_def)

interpretation wire_array: byte_codec push_bytes "read_array 16" "\<lambda>bs. bs" "\<lambda>bs. length bs = 16"
  by unfold_locales (simp_all add: read_array_iff)

interpretation wire_operation: byte_codec encode_operation decode_operation to_be_bytes "\<lambda>_. True"
  by unfold_locales
    (simp_all add: encode_operation_def decode_operation_def wire_u64.push_spec wire_u64.read_iff)

lemmas wire_push =
  wire_u8.push_spec wire_u16.push_spec wire_u32.push_spec wire_u64.push_spec
  wire_operation.push_spec

lemmas wire_thenI =
  wire_u8.read_thenI wire_u16.read_thenI wire_u32.read_thenI wire_u64.read_thenI
  wire_operation.read_thenI wire_array.read_thenI

lemmas wire_readD =
  wire_u8.readD wire_u16.readD wire_u32.readD wire_u64.readD wire_operation.readD wire_array.readD

lemma and_then_push [simp]:
  "and_then (push_bytes e as) (\<lambda>e. and_then (push_bytes e bs) k)
   = and_then (push_bytes e (as @ bs)) k"
  by (simp flip: push_bytes_append add: and_then_assoc)

lemma dec_step_fits: "dec_step d bs d' \<Longrightarrow> fits d' \<longleftrightarrow> fits d"
  by (simp add: dec_step_def fits_def)

lemma dec_step_Cons:
  "dec_step d (b # bs) d' \<longleftrightarrow> (\<exists>d1. dec_step d [b] d1 \<and> dec_step d1 bs d')"
  using dec_step_append [of d "[b]" bs d'] by simp

text \<open>
  A compound codec: its decoder is right when a successful read is a cursor step over the
  specified bytes and, the other way round, such a step is what the decoder takes.
\<close>

lemma byte_codecI:
  assumes "\<And>e x. push e x = push_bytes e (bytes x)"
    and "\<And>d x d'. fits d \<Longrightarrow> read d = Inr (x, d') \<Longrightarrow> ok x \<and> dec_step d (bytes x) d'"
    and "\<And>d x d'. fits d \<Longrightarrow> ok x \<Longrightarrow> dec_step d (bytes x) d' \<Longrightarrow> read d = Inr (x, d')"
  shows "byte_codec push read bytes ok"
  using assms by unfold_locales blast+

interpretation wire_token: byte_codec encode_token decode_token token_bytes wf_token
proof (rule byte_codecI)
  show "encode_token e x = push_bytes e (token_bytes x)" for e x
    by (simp add: encode_token_def token_bytes_def wire_push push_bytes_append)
  show "fits d \<Longrightarrow> decode_token d = Inr (x, d') \<Longrightarrow> wf_token x \<and> dec_step d (token_bytes x) d'" for d x d'
    by (auto simp: decode_token_def token_bytes_def wf_token_def dec_step_append dest!: wire_readD)
      blast
  show "fits d \<Longrightarrow> wf_token x \<Longrightarrow> dec_step d (token_bytes x) d' \<Longrightarrow> decode_token d = Inr (x, d')" for d x d'
    unfolding decode_token_def token_bytes_def wf_token_def dec_step_append
    by (elim exE conjE) ((erule wire_thenI, assumption, simp)+, simp)
qed

interpretation wire_release: byte_codec encode_release_deadline decode_release_deadline
  release_deadline_bytes "\<lambda>_. True"
proof (rule byte_codecI)
  show "encode_release_deadline e x = push_bytes e (release_deadline_bytes x)" for e x
    by (cases x) (simp_all add: encode_release_deadline_def wire_push push_bytes_append)
  show "fits d \<Longrightarrow> decode_release_deadline d = Inr (x, d') \<Longrightarrow>
      True \<and> dec_step d (release_deadline_bytes x) d'" for d x d'
    by (auto simp: decode_release_deadline_def dec_step_Cons [of _ _ "to_be_bytes _"]
        split: if_splits dest!: wire_readD)
  show "fits d \<Longrightarrow> True \<Longrightarrow> dec_step d (release_deadline_bytes x) d' \<Longrightarrow>
      decode_release_deadline d = Inr (x, d')" for d x d'
    unfolding decode_release_deadline_def
    by (cases x; simp add: dec_step_Cons [of _ _ "to_be_bytes _"] del: and_then_Inr_iff;
        (elim exE conjE)?; (erule wire_thenI, assumption, simp, simp del: and_then_Inr_iff)+)
qed

interpretation wire_proof: byte_codec encode_terminal_proof decode_terminal_proof
  terminal_proof_bytes "\<lambda>_. True"
proof (rule byte_codecI)
  show "encode_terminal_proof e x = push_bytes e (terminal_proof_bytes x)" for e x
    by (cases x) (simp_all add: encode_terminal_proof_def wire_push push_bytes_append)
  show "fits d \<Longrightarrow> decode_terminal_proof d = Inr (x, d') \<Longrightarrow>
      True \<and> dec_step d (terminal_proof_bytes x) d'" for d x d'
    by (auto simp: decode_terminal_proof_def dec_step_Cons [of _ _ "to_be_bytes _"]
        split: if_splits dest!: wire_readD)
  show "fits d \<Longrightarrow> True \<Longrightarrow> dec_step d (terminal_proof_bytes x) d' \<Longrightarrow>
      decode_terminal_proof d = Inr (x, d')" for d x d'
    unfolding decode_terminal_proof_def
    by (cases x; simp add: dec_step_Cons [of _ _ "to_be_bytes _"] del: and_then_Inr_iff;
        (elim exE conjE)?; (erule wire_thenI, assumption, simp, simp del: and_then_Inr_iff)+)
qed

interpretation wire_fatal: byte_codec encode_fatal_code decode_fatal_code
  "\<lambda>c. [fatal_code_value c]" "\<lambda>_. True"
proof (rule byte_codecI)
  show "encode_fatal_code e x = push_bytes e [fatal_code_value x]" for e x
    by (simp add: encode_fatal_code_def wire_push)
  show "fits d \<Longrightarrow> decode_fatal_code d = Inr (x, d') \<Longrightarrow>
      True \<and> dec_step d [fatal_code_value x] d'" for d x d'
    by (auto simp: decode_fatal_code_def split: if_splits dest!: wire_u8.readD)
  show "fits d \<Longrightarrow> True \<Longrightarrow> dec_step d [fatal_code_value x] d' \<Longrightarrow>
      decode_fatal_code d = Inr (x, d')" for d x d'
    unfolding decode_fatal_code_def
    by (erule wire_u8.read_thenI, assumption, simp, cases x) simp_all
qed

interpretation wire_magic: byte_codec push_bytes "read_array 4" "\<lambda>bs. bs" "\<lambda>bs. length bs = 4"
  by unfold_locales (simp_all add: read_array_iff)

subsection \<open>Messages and frames\<close>

lemmas field_push = wire_push wire_token.push_spec wire_release.push_spec wire_proof.push_spec
  wire_fatal.push_spec

lemmas field_thenI = wire_thenI wire_token.read_thenI wire_release.read_thenI
  wire_proof.read_thenI wire_fatal.read_thenI

lemmas field_readD = wire_readD wire_token.readD wire_release.readD wire_proof.readD
  wire_fatal.readD

lemma encode_message_spec:
  "encode_message m
   = and_then (push_bytes encoder_new (payload_bytes m)) (\<lambda>e. Inr (message_kind m, enc_bytes e))"
  by (cases m rule: encode_message.cases) (simp_all add: field_push)

lemma length_field_bytes:
  "length (to_be_bytes (a :: u16)) = 2" "length (to_be_bytes (b :: u32)) = 4"
  "length (to_be_bytes (c :: u64)) = 8" "wf_token t \<Longrightarrow> length (token_bytes t) = 43"
  "length (release_deadline_bytes r) = 9" "length (terminal_proof_bytes p) \<le> 9"
proof -
  show "length (release_deadline_bytes r) = 9"
    by (cases r) (simp_all add: length_to_be_bytes)
  show "length (terminal_proof_bytes p) \<le> 9"
    by (cases p) (simp_all add: length_to_be_bytes)
qed (simp_all add: length_to_be_bytes token_bytes_def wf_token_def)

lemma length_payload: "wf_message m \<Longrightarrow> length (payload_bytes m) \<le> 67"
  by (cases m rule: encode_message.cases)
    (auto simp: length_field_bytes intro: order_trans [OF length_field_bytes(6)])

lemma encode_message_ok: "wf_message m \<Longrightarrow> encode_message m = Inr (message_kind m, payload_bytes m)"
  using length_payload [of m]
  by (simp add: encode_message_spec push_bytes_def encoder_new_def usize_checked_add_def
      MAX_FRAME_BYTES_def HEADER_BYTES_def)

lemma decode_message_sound:
  assumes "fits d" and "decode_message k d = Inr (m, d')"
  shows "k = message_kind m \<and> wf_message m \<and> dec_step d (payload_bytes m) d'"
  using assms unfolding decode_message_def
  by (auto simp: dec_step_append split: if_splits dest!: field_readD) blast+

lemma decode_message_complete:
  "\<lbrakk>fits d; wf_message m; dec_step d (payload_bytes m) d'\<rbrakk>
   \<Longrightarrow> decode_message (message_kind m) d = Inr (m, d')"
  unfolding decode_message_def
  by (cases m rule: encode_message.cases; simp add: dec_step_append del: and_then_Inr_iff;
      (elim exE conjE)?; (erule field_thenI, assumption, simp, (simp del: and_then_Inr_iff)?)+)

lemma decoder_new_step_finish:
  "dec_step (decoder_new bs) cs d \<and> decoder_finish d = Inr u \<longleftrightarrow>
     cs = bs \<and> d = \<lparr>dec_bytes = bs, dec_offset = length bs\<rparr>"
  by (cases d) (auto simp: dec_step_def decoder_new_def decoder_finish_def)

definition frame_header :: "sequence_no \<Rightarrow> message \<Rightarrow> u8 list" where
  "frame_header sequence m =
     MAGIC @ to_be_bytes PROTOCOL_VERSION @ [message_kind m]
     @ to_be_bytes (of_nat (length (payload_bytes m)) :: u16) @ to_be_bytes sequence"

lemma length_frame_header [simp]: "length (frame_header sequence m) = HEADER_BYTES"
  by (simp add: frame_header_def MAGIC_def HEADER_BYTES_def length_field_bytes)

lemma encode_frame_iff:
  assumes "wf_message m"
  shows "encode_frame sequence m = Inr f \<longleftrightarrow>
     sequence \<noteq> 0 \<and> f = frame_header sequence m @ payload_bytes m"
  using length_payload [OF assms]
  by (auto simp: encode_frame_def encode_message_ok [OF assms] Let_def usize_checked_add_def
      HEADER_BYTES_def MAX_FRAME_BYTES_def frame_header_def)

lemma frame_header_step:
  "dec_step d (frame_header sequence m) d' \<longleftrightarrow>
     (\<exists>h1 h2 h3 h4. dec_step d MAGIC h1 \<and> dec_step h1 (to_be_bytes PROTOCOL_VERSION) h2 \<and>
       dec_step h2 [message_kind m] h3 \<and>
       dec_step h3 (to_be_bytes (of_nat (length (payload_bytes m)) :: u16)) h4 \<and>
       dec_step h4 (to_be_bytes sequence) d')"
  unfolding frame_header_def dec_step_append by blast

lemma header_reads:
  obtains h1 h2 h3 h4 h5 where
    "read_array 4 (decoder_new (frame_header sequence m)) = Inr (MAGIC, h1)"
    "read_u16 h1 = Inr (PROTOCOL_VERSION, h2)"
    "read_u8 h2 = Inr (message_kind m, h3)"
    "read_u16 h3 = Inr (of_nat (length (payload_bytes m)), h4)"
    "read_u64 h4 = Inr (sequence, h5)"
    "decoder_finish h5 = Inr ()"
proof -
  let ?h0 = "decoder_new (frame_header sequence m)"
  have f0: "fits ?h0"
    by (simp add: fits_def decoder_new_def HEADER_BYTES_def)
  obtain h5 where "dec_step ?h0 (frame_header sequence m) h5" and fin: "decoder_finish h5 = Inr ()"
    using decoder_new_step_finish by blast
  then obtain h1 h2 h3 h4 where
      s1: "dec_step ?h0 MAGIC h1" and s2: "dec_step h1 (to_be_bytes PROTOCOL_VERSION) h2"
    and s3: "dec_step h2 [message_kind m] h3"
    and s4: "dec_step h3 (to_be_bytes (of_nat (length (payload_bytes m)) :: u16)) h4"
    and s5: "dec_step h4 (to_be_bytes sequence) h5"
    by (auto simp: frame_header_step)
  have f1: "fits h1" and f2: "fits h2" and f3: "fits h3" and f4: "fits h4"
    using f0 s1 s2 s3 s4 by (simp_all add: dec_step_fits)
  have "read_array 4 ?h0 = Inr (MAGIC, h1)"
    using s1 f0 by (simp add: wire_magic.read_iff MAGIC_def)
  moreover have "read_u16 h1 = Inr (PROTOCOL_VERSION, h2)"
    using s2 f1 by (simp add: wire_u16.read_iff)
  moreover have "read_u8 h2 = Inr (message_kind m, h3)"
    using s3 f2 by (simp add: wire_u8.read_iff)
  moreover have "read_u16 h3 = Inr (of_nat (length (payload_bytes m)), h4)"
    using s4 f3 by (simp add: wire_u16.read_iff)
  moreover have "read_u64 h4 = Inr (sequence, h5)"
    using s5 f4 by (simp add: wire_u64.read_iff)
  ultimately show thesis
    using fin that by blast
qed

lemma decode_frame_complete:
  assumes "wf_message m" and "sequence \<noteq> 0"
  shows "decode_frame (frame_header sequence m @ payload_bytes m)
    = Inr \<lparr>df_sequence = sequence, df_message = m\<rparr>"
proof -
  obtain h1 h2 h3 h4 h5 where hdr:
    "read_array 4 (decoder_new (frame_header sequence m)) = Inr (MAGIC, h1)"
    "read_u16 h1 = Inr (PROTOCOL_VERSION, h2)"
    "read_u8 h2 = Inr (message_kind m, h3)"
    "read_u16 h3 = Inr (of_nat (length (payload_bytes m)), h4)"
    "read_u64 h4 = Inr (sequence, h5)"
    "decoder_finish h5 = Inr ()"
    by (rule header_reads)
  let ?p = "decoder_new (payload_bytes m)"
  obtain p' where "dec_step ?p (payload_bytes m) p'" and fin: "decoder_finish p' = Inr ()"
    using decoder_new_step_finish by blast
  moreover have "fits ?p"
    using length_payload [OF assms(1)] by (simp add: fits_def decoder_new_def)
  ultimately have msg: "decode_message (message_kind m) ?p = Inr (m, p')"
    using assms(1) by (blast intro: decode_message_complete)
  have len: "length (payload_bytes m) \<le> 67" by (rule length_payload [OF assms(1)])
  then have "unat (of_nat (length (payload_bytes m)) :: u16) = length (payload_bytes m)"
    by (simp add: unat_of_nat)
  then show ?thesis
    using len assms(2)
    by (simp add: decode_frame_def hdr msg fin usize_checked_add_def HEADER_BYTES_def
        MAX_FRAME_BYTES_def)
qed

lemma decode_frame_sound:
  assumes "decode_frame f = Inr \<lparr>df_sequence = sequence, df_message = m\<rparr>"
  shows "wf_message m \<and> sequence \<noteq> 0 \<and> f = frame_header sequence m @ payload_bytes m"
proof -
  let ?h0 = "decoder_new (take HEADER_BYTES f)" and ?p = "decoder_new (drop HEADER_BYTES f)"
  from assms obtain h1 h2 kind h3 n h4 h5 p' where
      len: "length f \<le> MAX_FRAME_BYTES" "HEADER_BYTES \<le> length f"
    and hdr: "read_array 4 ?h0 = Inr (MAGIC, h1)" "read_u16 h1 = Inr (PROTOCOL_VERSION, h2)"
      "read_u8 h2 = Inr (kind, h3)" "read_u16 h3 = Inr (n, h4)" "read_u64 h4 = Inr (sequence, h5)"
      "decoder_finish h5 = Inr ()"
    and seq: "sequence \<noteq> 0" and n: "HEADER_BYTES + unat n = length f"
    and msg: "decode_message kind ?p = Inr (m, p')" "decoder_finish p' = Inr ()"
    by (auto simp: decode_frame_def usize_checked_add_def split: if_splits)
  have "fits ?h0" "fits ?p"
    using len by (simp_all add: fits_def decoder_new_def HEADER_BYTES_def MAX_FRAME_BYTES_def)
  note m = decode_message_sound [OF \<open>fits ?p\<close> msg(1)]
  then have payload: "drop HEADER_BYTES f = payload_bytes m"
    using decoder_new_step_finish msg(2) by metis
  have "n = of_nat (length (payload_bytes m))"
    using n by (simp flip: payload n)
  then have "dec_step ?h0 (frame_header sequence m) h5"
    using hdr m \<open>fits ?h0\<close>
    by (auto simp: frame_header_step dest!: wire_magic.readD wire_readD)
  then have "take HEADER_BYTES f = frame_header sequence m"
    using hdr(6) decoder_new_step_finish by metis
  then show ?thesis
    using m seq payload append_take_drop_id [of HEADER_BYTES f] by metis
qed

subsection \<open>Properties\<close>

text \<open>
  C4: the wire format round-trips and is canonical.  A byte string decodes to a frame exactly
  when it is what the encoder writes for that sequence number and message: decoding inverts
  encoding, every accepted byte string re-encodes to itself, and trailing, missing, oversized or
  otherwise malformed bytes are refused.  (\<open>wf_message\<close> is the array length that the Rust types
  fix.)
\<close>

theorem decode_frame_iff_encode_frame:
  "decode_frame f = Inr \<lparr>df_sequence = sequence, df_message = m\<rparr> \<longleftrightarrow>
     wf_message m \<and> encode_frame sequence m = Inr f"
  using decode_frame_sound encode_frame_iff decode_frame_complete by metis

text \<open>
  Encoding is total on the messages of the protocol.  It fails only for sequence number
  zero; otherwise the frame has the 17 byte header and at most 84 bytes in all, so the 128 byte
  limit and the overflow branches of the encoder are never reached.
\<close>

theorem encode_frame_total:
  assumes "wf_message m"
  shows "case encode_frame sequence m of
      Inl e \<Rightarrow> sequence = 0
    | Inr f \<Rightarrow> sequence \<noteq> 0 \<and> length f = HEADER_BYTES + length (payload_bytes m) \<and> length f \<le> 84"
proof (cases "sequence = 0")
  case True
  then have "encode_frame sequence m \<noteq> Inr f" for f using encode_frame_iff [OF assms] by simp
  with True show ?thesis by (cases "encode_frame sequence m") auto
next
  case False
  then have "encode_frame sequence m = Inr (frame_header sequence m @ payload_bytes m)"
    using encode_frame_iff [OF assms] by simp
  with False length_payload [OF assms] show ?thesis by (simp add: HEADER_BYTES_def)
qed

theorem encode_frame_total_witness:
  "wf_message (Request (Hello (replicate 16 3) 9)) \<and>
   (case encode_frame 5 (Request (Hello (replicate 16 3) 9)) of
      Inl e \<Rightarrow> False | Inr f \<Rightarrow> length f \<le> 84)"
proof -
  have wf: "wf_message (Request (Hello (replicate 16 3) 9))" by simp
  show ?thesis
    using encode_frame_total [OF wf, of 5] wf by (auto split: sum.splits)
qed

text \<open>
  Request and response kinds correspond.  A response accepted for a request carries its
  sequence number and is either the fatal response or the acknowledgement whose kind byte is the
  request's plus 100.
\<close>

theorem response_matches_kind:
  assumes "response_matches n req frame = Inr ()"
  shows "df_sequence frame = n \<and>
    (\<exists>r. df_message frame = Response r \<and>
       (message_kind (Response r) = 110 \<or>
        message_kind (Response r) = message_kind (Request req) + 100))"
  using assms
  by (cases "df_message frame"; cases req)
    (auto simp: response_matches_def response_pairs_def split: if_splits response.splits)

theorem response_matches_kind_witness:
  "response_matches 4 (Synchronize 1 7 (MutationDeadline 9))
     \<lparr>df_sequence = 4, df_message = Response (SyncAck 1 7)\<rparr> = Inr () \<and>
   message_kind (Response (SyncAck 1 7)) = message_kind (Request (Synchronize 1 7 (MutationDeadline 9))) + 100"
proof -
  have "response_matches 4 (Synchronize 1 7 (MutationDeadline 9))
     \<lparr>df_sequence = 4, df_message = Response (SyncAck 1 7)\<rparr> = Inr ()" by code_simp
  from this response_matches_kind [OF this] show ?thesis by simp
qed

end
