(* ===== verification/Guardian_Protocol.thy ===== *)
theory Guardian_Protocol
  imports Guardian_Wire
begin

text \<open>
  The guardian's session state machine: \<open>ProtocolState\<close> of
  src/src/daemon/xtest_guardian/protocol.rs (second half).

  \<open>protocol_state\<close> has the fields of the struct.  Each method is a function that returns its
  \<open>Result\<close> together with the state it leaves behind.  \<open>protocol_inv\<close> is the invariant that
  ties the fields together; \<open>protocol_step\<close> is one call on the state, and the interpretation
  of \<open>step_invariant\<close> lifts the invariant to every sequence of calls.
\<close>

subsection \<open>State\<close>

datatype tracked_token_state =
    TokPrepared
  | AttemptingDown
  | PossiblyDown
  | PhysicalDebt input_generation

record tracked_token =
  tr_operation :: operation_id
  tr_token :: prepared_token
  tr_state :: tracked_token_state

record pending_prepare_req =
  pp_operation :: operation_id
  pp_evdev_code :: u16

datatype pending_sync_kind = SyncDown | SyncUp

record pending_sync_req =
  sy_operation :: operation_id
  sy_token_id :: u64
  sy_kind :: pending_sync_kind
  sy_accepted :: bool

record protocol_state =
  st_session :: protocol_session
  last_sequence :: u64
  last_operation :: u64
  active_operation :: "operation_id option"
  operation_deadline :: "mutation_deadline_ns option"
  last_prepared_token_id :: u64
  last_physical_release_sequence :: u64
  pending_prepare :: "pending_prepare_req option"
  pending_sync :: "pending_sync_req option"
  tokens :: "tracked_token list"
  terminal :: bool
  cleanup_deadline :: "cleanup_deadline_ns option"

type_synonym 'a protocol_result = "'a res \<times> protocol_state"

abbreviation tr_id :: "tracked_token \<Rightarrow> u64" where
  "tr_id t \<equiv> token_id (tr_token t)"

subsection \<open>Construction\<close>

definition ready :: "protocol_session \<Rightarrow> protocol_state res" where
  "ready session =
     (if list_all (\<lambda>b. b = 0) (ps_session session)
      then Inl (protocol_error ''XTEST guardian session identifier must be nonzero'')
      else if list_all (\<lambda>b. b = 0) (ps_epoch session)
      then Inl (protocol_error ''XTEST guardian server epoch must be nonzero'')
      else Inr \<lparr>st_session = session, last_sequence = 0, last_operation = 0,
        active_operation = None, operation_deadline = None, last_prepared_token_id = 0,
        last_physical_release_sequence = 0, pending_prepare = None, pending_sync = None,
        tokens = [], terminal = False, cleanup_deadline = None\<rparr>)"

definition ready_after_handshake :: "protocol_session \<Rightarrow> sequence_no \<Rightarrow> protocol_state res" where
  "ready_after_handshake session handshake_sequence =
     (if handshake_sequence = 0
      then Inl (protocol_error ''XTEST guardian handshake sequence must be nonzero'')
      else and_then (ready session) (\<lambda>s. Inr (s\<lparr>last_sequence := handshake_sequence\<rparr>)))"

subsection \<open>Checks\<close>

definition validate_future_deadline ::
  "u64 \<Rightarrow> u64 \<Rightarrow> u64 \<Rightarrow> string \<Rightarrow> string \<Rightarrow> unit res" where
  "validate_future_deadline deadline_ns now_ns maximum_delta_ns expired_context too_far_context =
     (case checked_sub deadline_ns now_ns of
        None \<Rightarrow> Inl (protocol_error expired_context)
      | Some delta \<Rightarrow>
          if delta = 0 then Inl (protocol_error expired_context)
          else if delta > maximum_delta_ns then Inl (protocol_error too_far_context)
          else Inr ())"

definition validate_normal_deadline ::
  "protocol_state \<Rightarrow> mutation_deadline_ns \<Rightarrow> u64 \<Rightarrow> unit res" where
  "validate_normal_deadline s deadline now_ns =
     (if terminal s
      then Inl (protocol_error ''XTEST guardian normal mutation attempted after terminal transition'')
      else validate_future_deadline deadline now_ns MAX_TRANSACTION_TIMEOUT_NS
        ''XTEST guardian mutation deadline expired''
        ''XTEST guardian mutation deadline is too far in the future'')"

definition validate_cleanup_deadline ::
  "protocol_state \<Rightarrow> cleanup_deadline_ns \<Rightarrow> u64 \<Rightarrow> bool res" where
  "validate_cleanup_deadline s deadline now_ns =
     and_then (validate_future_deadline deadline now_ns MAX_RELEASE_CLEANUP_NS
        ''XTEST guardian cleanup deadline expired''
        ''XTEST guardian cleanup deadline is too far in the future'') (\<lambda>_.
     case cleanup_deadline s of
       Some existing \<Rightarrow>
         if existing \<noteq> deadline
         then Inl (protocol_error ''XTEST guardian cleanup deadline cannot be changed'')
         else Inr False
     | None \<Rightarrow> Inr True)"

definition apply_cleanup_deadline ::
  "protocol_state \<Rightarrow> cleanup_deadline_ns \<Rightarrow> bool \<Rightarrow> protocol_state" where
  "apply_cleanup_deadline s deadline starts_terminal =
     (if starts_terminal then s\<lparr>cleanup_deadline := Some deadline\<rparr> else s)\<lparr>terminal := True\<rparr>"

definition validate_active_operation :: "protocol_state \<Rightarrow> operation_id \<Rightarrow> unit res" where
  "validate_active_operation s operation =
     ensure (\<not> (operation = 0 \<or> active_operation s \<noteq> Some operation))
       (protocol_error ''XTEST guardian request operation is stale or inactive'')"

definition validate_operation_deadline ::
  "protocol_state \<Rightarrow> operation_id \<Rightarrow> mutation_deadline_ns \<Rightarrow> unit res" where
  "validate_operation_deadline s operation deadline =
     ensure (\<not> (active_operation s \<noteq> Some operation \<or> operation_deadline s \<noteq> Some deadline))
       (protocol_error ''XTEST guardian operation mutation deadline cannot be changed'')"

definition validate_release_deadline ::
  "protocol_state \<Rightarrow> operation_id \<Rightarrow> release_deadline \<Rightarrow> u64 \<Rightarrow> bool res" where
  "validate_release_deadline s operation deadline now_ns =
     (case deadline of
        MutationDeadline ns \<Rightarrow>
          and_then (validate_normal_deadline s ns now_ns) (\<lambda>_.
          and_then (validate_operation_deadline s operation ns) (\<lambda>_. Inr False))
      | CleanupDeadline ns \<Rightarrow> validate_cleanup_deadline s ns now_ns)"

definition validate_token_identity :: "protocol_state \<Rightarrow> prepared_token \<Rightarrow> unit res" where
  "validate_token_identity s token =
     (if tok_session token \<noteq> ps_session (st_session s) \<or> tok_epoch token \<noteq> ps_epoch (st_session s)
      then Inl (protocol_error ''XTEST guardian token belongs to another session or epoch'')
      else ensure (\<not> (token_id token = 0 \<or> evdev_code token = 0 \<or> x11_keycode token = 0))
        (protocol_error ''XTEST guardian token contains a zero identifier''))"

definition find_token :: "protocol_state \<Rightarrow> prepared_token \<Rightarrow> nat res" where
  "find_token s token =
     ok_or (position (\<lambda>t. tr_token t = token) (tokens s))
       (protocol_error ''XTEST guardian token is unknown or stale'')"

fun is_physical_debt :: "tracked_token_state \<Rightarrow> bool" where
  "is_physical_debt (PhysicalDebt _) = True"
| "is_physical_debt _ = False"

definition validate_prepare_operation :: "protocol_state \<Rightarrow> operation_id \<Rightarrow> bool res" where
  "validate_prepare_operation s operation =
     (if operation = 0
      then Inl (protocol_error ''XTEST guardian operation identifier must be nonzero'')
      else if operation < last_operation s
      then Inl (protocol_error ''XTEST guardian operation identifier is stale'')
      else if operation = last_operation s
      then (if active_operation s = Some operation then Inr False
            else Inl (protocol_error ''XTEST guardian completed operation cannot be reused''))
      else if list_ex (\<lambda>t. \<not> is_physical_debt (tr_state t)) (tokens s)
      then Inl (protocol_error ''XTEST guardian previous operation has transient tokens'')
      else Inr True)"

definition debt_count :: "protocol_state \<Rightarrow> nat" where
  "debt_count s = length (filter (\<lambda>t. tr_state t \<noteq> TokPrepared) (tokens s))"

definition in_flight :: "protocol_state \<Rightarrow> bool" where
  "in_flight s \<longleftrightarrow> pending_prepare s \<noteq> None \<or> pending_sync s \<noteq> None"

subsection \<open>Accepting requests\<close>

definition accept_prepare ::
  "protocol_state \<Rightarrow> operation_id \<Rightarrow> u16 \<Rightarrow> mutation_deadline_ns \<Rightarrow> u64 \<Rightarrow> unit protocol_result" where
  "accept_prepare s operation code deadline now_ns =
     check (validate_normal_deadline s deadline now_ns) s (\<lambda>_.
     check (ensure (code \<noteq> 0)
              (protocol_error ''XTEST guardian evdev key code must be nonzero'')) s (\<lambda>_.
     check (ensure (\<not> in_flight s)
              (protocol_error ''XTEST guardian accepts only one request in flight'')) s (\<lambda>_.
     check (validate_prepare_operation s operation) s (\<lambda>starts_operation.
     check (if \<not> starts_operation then validate_operation_deadline s operation deadline
            else Inr ()) s (\<lambda>_.
     let s = (if starts_operation
              then s\<lparr>last_operation := operation, active_operation := Some operation,
                     operation_deadline := Some deadline\<rparr>
              else s)
     in (Inr (), s\<lparr>pending_prepare :=
           Some \<lparr>pp_operation = operation, pp_evdev_code = code\<rparr>\<rparr>))))))"

definition accept_execute_down ::
  "protocol_state \<Rightarrow> operation_id \<Rightarrow> prepared_token \<Rightarrow> mutation_deadline_ns \<Rightarrow> u64 \<Rightarrow>
   unit protocol_result" where
  "accept_execute_down s operation token deadline now_ns =
     check (validate_normal_deadline s deadline now_ns) s (\<lambda>_.
     check (validate_active_operation s operation) s (\<lambda>_.
     check (validate_operation_deadline s operation deadline) s (\<lambda>_.
     check (validate_token_identity s token) s (\<lambda>_.
     check (ensure (\<not> in_flight s)
              (protocol_error ''XTEST guardian accepts only one request in flight'')) s (\<lambda>_.
     check (find_token s token) s (\<lambda>index.
     check (ensure (\<not> (tr_operation (tokens s ! index) \<noteq> operation
                       \<or> tr_state (tokens s ! index) \<noteq> TokPrepared))
              (protocol_error ''XTEST guardian down token is not prepared for this operation'')) s (\<lambda>_.
     check (ensure (\<not> debt_count s \<ge> MAX_ACTIVE_DEBTS)
              (protocol_error ''XTEST guardian active debt capacity exceeded'')) s (\<lambda>_.
     (Inr (), s\<lparr>tokens := (tokens s)[index := (tokens s ! index)\<lparr>tr_state := AttemptingDown\<rparr>],
                pending_sync := Some \<lparr>sy_operation = operation, sy_token_id = token_id token,
                  sy_kind = SyncDown, sy_accepted = False\<rparr>\<rparr>)))))))))"

definition accept_key_up ::
  "protocol_state \<Rightarrow> operation_id \<Rightarrow> prepared_token \<Rightarrow> release_deadline \<Rightarrow> u64 \<Rightarrow>
   unit protocol_result" where
  "accept_key_up s operation token deadline now_ns =
     check (validate_active_operation s operation) s (\<lambda>_.
     check (validate_token_identity s token) s (\<lambda>_.
     check (ensure (\<not> in_flight s)
              (protocol_error ''XTEST guardian accepts only one request in flight'')) s (\<lambda>_.
     check (find_token s token) s (\<lambda>index.
     check (case tr_state (tokens s ! index) of
              TokPrepared \<Rightarrow>
                ensure (tr_operation (tokens s ! index) = operation)
                  (protocol_error ''XTEST guardian physical release operation does not own prepared token'')
            | AttemptingDown \<Rightarrow>
                Inl (protocol_error ''XTEST guardian cannot release a down still in flight'')
            | PossiblyDown \<Rightarrow>
                ensure (tr_operation (tokens s ! index) = operation)
                  (protocol_error ''XTEST guardian release operation does not own token'')
            | PhysicalDebt _ \<Rightarrow> Inr ()) s (\<lambda>_.
     check (validate_release_deadline s operation deadline now_ns) s (\<lambda>starts_terminal.
     let s = (case deadline of
                CleanupDeadline ns \<Rightarrow> apply_cleanup_deadline s ns starts_terminal
              | MutationDeadline _ \<Rightarrow> s)
     in (Inr (), s\<lparr>pending_sync := Some \<lparr>sy_operation = operation, sy_token_id = token_id token,
                    sy_kind = SyncUp, sy_accepted = False\<rparr>\<rparr>)))))))"

definition accept_synchronize ::
  "protocol_state \<Rightarrow> operation_id \<Rightarrow> u64 \<Rightarrow> release_deadline \<Rightarrow> u64 \<Rightarrow> unit protocol_result" where
  "accept_synchronize s operation tid deadline now_ns =
     check (validate_active_operation s operation) s (\<lambda>_.
     check (ensure (tid \<noteq> 0)
              (protocol_error ''XTEST guardian synchronize token must be nonzero'')) s (\<lambda>_.
     check (ok_or (pending_sync s)
              (protocol_error ''XTEST guardian synchronize has no preceding mutation'')) s (\<lambda>pending.
     check (ensure (\<not> (sy_operation pending \<noteq> operation \<or> sy_token_id pending \<noteq> tid
                        \<or> sy_accepted pending))
              (protocol_error ''XTEST guardian synchronize does not match mutation'')) s (\<lambda>_.
     check (if sy_kind pending = SyncDown
            then and_then (ok_or (find (\<lambda>t. tr_id t = tid) (tokens s))
                            (protocol_error ''XTEST guardian synchronize lost its token'')) (\<lambda>tracked.
                 ensure (tr_state tracked = PossiblyDown)
                   (protocol_error ''XTEST guardian down did not finish before synchronize''))
            else Inr ()) s (\<lambda>_.
     check (validate_release_deadline s operation deadline now_ns) s (\<lambda>starts_terminal.
     let s = (case deadline of
                CleanupDeadline ns \<Rightarrow> apply_cleanup_deadline s ns starts_terminal
              | MutationDeadline _ \<Rightarrow> s)
     in (Inr (), s\<lparr>pending_sync := Some (pending\<lparr>sy_accepted := True\<rparr>)\<rparr>)))))))"

definition accept_transfer ::
  "protocol_state \<Rightarrow> operation_id \<Rightarrow> prepared_token \<Rightarrow> input_generation \<Rightarrow> mutation_deadline_ns \<Rightarrow>
   u64 \<Rightarrow> unit protocol_result" where
  "accept_transfer s operation token generation deadline now_ns =
     check (validate_normal_deadline s deadline now_ns) s (\<lambda>_.
     check (validate_active_operation s operation) s (\<lambda>_.
     check (validate_operation_deadline s operation deadline) s (\<lambda>_.
     check (validate_token_identity s token) s (\<lambda>_.
     check (ensure (generation \<noteq> 0)
              (protocol_error ''XTEST guardian input generation must be nonzero'')) s (\<lambda>_.
     check (ensure (\<not> in_flight s)
              (protocol_error ''XTEST guardian cannot transfer an in-flight mutation'')) s (\<lambda>_.
     check (find_token s token) s (\<lambda>index.
     check (ensure (\<not> (tr_operation (tokens s ! index) \<noteq> operation
                       \<or> tr_state (tokens s ! index) \<noteq> PossiblyDown))
              (protocol_error ''XTEST guardian transfer token is not owned by operation'')) s (\<lambda>_.
     (Inr (), s\<lparr>tokens :=
        (tokens s)[index := (tokens s ! index)\<lparr>tr_state := PhysicalDebt generation\<rparr>]\<rparr>)))))))))"

definition accept_physical_release ::
  "protocol_state \<Rightarrow> physical_sequence \<Rightarrow> prepared_token \<Rightarrow> input_generation \<Rightarrow>
   mutation_deadline_ns \<Rightarrow> u64 \<Rightarrow> unit protocol_result" where
  "accept_physical_release s sequence token generation deadline now_ns =
     check (validate_normal_deadline s deadline now_ns) s (\<lambda>_.
     check (validate_token_identity s token) s (\<lambda>_.
     check (ensure (generation \<noteq> 0)
              (protocol_error ''XTEST guardian input generation must be nonzero'')) s (\<lambda>_.
     check (ensure (\<not> (sequence = 0 \<or> sequence \<le> last_physical_release_sequence s))
              (protocol_error ''XTEST guardian physical release sequence is stale or zero'')) s (\<lambda>_.
     check (ensure (pending_sync s = None)
              (protocol_error ''XTEST guardian cannot commit release during synchronization'')) s (\<lambda>_.
     check (find_token s token) s (\<lambda>index.
     check (ensure (tr_state (tokens s ! index) = PhysicalDebt generation)
              (protocol_error ''XTEST guardian physical release generation does not match debt'')) s (\<lambda>_.
     (Inr (), s\<lparr>tokens := remove_at index (tokens s),
                last_physical_release_sequence := sequence\<rparr>))))))))"

definition accept_cancel_and_drain ::
  "protocol_state \<Rightarrow> operation_id \<Rightarrow> cleanup_deadline_ns \<Rightarrow> u64 \<Rightarrow> unit protocol_result" where
  "accept_cancel_and_drain s operation deadline now_ns =
     check (validate_active_operation s operation) s (\<lambda>_.
     check (validate_cleanup_deadline s deadline now_ns) s (\<lambda>starts_terminal.
     (Inr (), (apply_cleanup_deadline s deadline starts_terminal)
                \<lparr>pending_prepare := None, pending_sync := None\<rparr>)))"

text \<open>\<open>accept\<close> dispatches on the request (\<open>accept_request\<close>) and then advances the sequence.\<close>

definition accept_request :: "protocol_state \<Rightarrow> request \<Rightarrow> u64 \<Rightarrow> unit protocol_result" where
  "accept_request s req now_ns =
     (case req of
        Hello _ _ \<Rightarrow>
          (Inl (protocol_error ''XTEST guardian ready session cannot accept another hello''), s)
      | PrepareKey operation code deadline \<Rightarrow> accept_prepare s operation code deadline now_ns
      | ExecuteDown operation token deadline \<Rightarrow>
          accept_execute_down s operation token deadline now_ns
      | KeyUp operation token deadline \<Rightarrow> accept_key_up s operation token deadline now_ns
      | Synchronize operation tid deadline \<Rightarrow>
          accept_synchronize s operation tid deadline now_ns
      | TransferToPhysicalDebt operation token generation deadline \<Rightarrow>
          accept_transfer s operation token generation deadline now_ns
      | PhysicalReleaseCommitted release_sequence token generation deadline \<Rightarrow>
          accept_physical_release s release_sequence token generation deadline now_ns
      | CancelAndDrain operation deadline \<Rightarrow> accept_cancel_and_drain s operation deadline now_ns
      | ReleaseAllAndExit deadline \<Rightarrow>
          check (validate_cleanup_deadline s deadline now_ns) s (\<lambda>starts_terminal.
          (Inr (), (apply_cleanup_deadline s deadline starts_terminal)
                     \<lparr>pending_prepare := None, pending_sync := None\<rparr>)))"

definition accept :: "protocol_state \<Rightarrow> sequence_no \<Rightarrow> request \<Rightarrow> u64 \<Rightarrow> unit protocol_result" where
  "accept s sequence req now_ns =
     (if sequence = 0 \<or> sequence \<le> last_sequence s
      then (Inl (protocol_error ''XTEST guardian request sequence is stale or zero''), s)
      else then_st (accept_request s req now_ns)
        (\<lambda>_ s. (Inr (), s\<lparr>last_sequence := sequence\<rparr>)))"

subsection \<open>Recording results\<close>

definition record_prepared ::
  "protocol_state \<Rightarrow> operation_id \<Rightarrow> prepared_token \<Rightarrow> unit protocol_result" where
  "record_prepared s operation token =
     check (ok_or (pending_prepare s)
              (protocol_error ''XTEST guardian prepared token has no matching request'')) s (\<lambda>pending.
     check (ensure (\<not> (pp_operation pending \<noteq> operation \<or> pp_evdev_code pending \<noteq> evdev_code token))
              (protocol_error ''XTEST guardian prepared token does not match request'')) s (\<lambda>_.
     check (validate_token_identity s token) s (\<lambda>_.
     check (ensure (\<not> token_id token \<le> last_prepared_token_id s)
              (protocol_error ''XTEST guardian prepared token identifier is stale'')) s (\<lambda>_.
     check (ensure (\<not> length (tokens s) \<ge> MAX_PREPARED_TOKENS)
              (protocol_error ''XTEST guardian prepared token capacity exceeded'')) s (\<lambda>_.
     check (ensure (\<not> list_ex (\<lambda>t. tr_id t = token_id token) (tokens s))
              (protocol_error ''XTEST guardian prepared token identifier is duplicated'')) s (\<lambda>_.
     (Inr (), s\<lparr>tokens := tokens s
                  @ [\<lparr>tr_operation = operation, tr_token = token, tr_state = TokPrepared\<rparr>],
                last_prepared_token_id := token_id token,
                pending_prepare := None\<rparr>)))))))"

definition record_down_attempt :: "protocol_state \<Rightarrow> u64 \<Rightarrow> unit protocol_result" where
  "record_down_attempt s tid =
     check (ok_or (pending_sync s)
              (protocol_error ''XTEST guardian down attempt has no matching request'')) s (\<lambda>pending.
     check (ensure (\<not> (sy_kind pending \<noteq> SyncDown \<or> sy_token_id pending \<noteq> tid \<or> sy_accepted pending))
              (protocol_error ''XTEST guardian down attempt does not match request'')) s (\<lambda>_.
     check (ok_or (position (\<lambda>t. tr_id t = tid) (tokens s))
              (protocol_error ''XTEST guardian down attempt lost its token'')) s (\<lambda>index.
     check (ensure (tr_state (tokens s ! index) = AttemptingDown)
              (protocol_error ''XTEST guardian down attempt token is not attempting'')) s (\<lambda>_.
     (Inr (), s\<lparr>tokens :=
        (tokens s)[index := (tokens s ! index)\<lparr>tr_state := PossiblyDown\<rparr>]\<rparr>)))))"

definition complete_synchronize :: "protocol_state \<Rightarrow> u64 \<Rightarrow> unit protocol_result" where
  "complete_synchronize s tid =
     check (ok_or (pending_sync s)
              (protocol_error ''XTEST guardian synchronize completion has no request'')) s (\<lambda>pending.
     check (ensure (\<not> (sy_token_id pending \<noteq> tid \<or> \<not> sy_accepted pending))
              (protocol_error ''XTEST guardian synchronize completion does not match request'')) s (\<lambda>_.
     if sy_kind pending = SyncUp
     then check (ok_or (position (\<lambda>t. tr_id t = tid) (tokens s))
              (protocol_error ''XTEST guardian release completion lost its token'')) s (\<lambda>index.
          (Inr (), s\<lparr>tokens := remove_at index (tokens s), pending_sync := None\<rparr>))
     else (Inr (), s\<lparr>pending_sync := None\<rparr>)))"

definition begin_terminal :: "protocol_state \<Rightarrow> protocol_state" where
  "begin_terminal s =
     s\<lparr>terminal := True, pending_prepare := None, pending_sync := None,
       tokens := filter (\<lambda>t. tr_state t \<noteq> TokPrepared) (tokens s)\<rparr>"

definition cleanup_tokens_reverse :: "protocol_state \<Rightarrow> prepared_token list" where
  "cleanup_tokens_reverse s =
     map tr_token (filter (\<lambda>t. tr_state t \<noteq> TokPrepared) (rev (tokens s)))"

definition acknowledge_cleanup_release :: "protocol_state \<Rightarrow> u64 \<Rightarrow> unit protocol_result" where
  "acknowledge_cleanup_release s tid =
     check (ok_or (position (\<lambda>t. tr_id t = tid \<and> tr_state t \<noteq> TokPrepared) (tokens s))
              (protocol_error ''XTEST guardian cleanup lost its token'')) s (\<lambda>index.
     (Inr (), s\<lparr>tokens := remove_at index (tokens s)\<rparr>))"

subsection \<open>Invariant\<close>

text \<open>
  What every tracked token satisfies: it carries the identity of this session, its identifier
  has been issued, a token that is not a physical debt belongs to the active operation, and a
  down that is still being attempted is the one mutation in flight.
\<close>

definition token_inv :: "protocol_state \<Rightarrow> tracked_token \<Rightarrow> bool" where
  "token_inv s t \<longleftrightarrow>
     tok_session (tr_token t) = ps_session (st_session s) \<and>
     tok_epoch (tr_token t) = ps_epoch (st_session s) \<and>
     tr_id t \<noteq> 0 \<and> x11_keycode (tr_token t) \<noteq> 0 \<and> tr_id t \<le> last_prepared_token_id s \<and>
     tr_operation t \<le> last_operation s \<and>
     (\<not> is_physical_debt (tr_state t) \<longrightarrow> active_operation s = Some (tr_operation t)) \<and>
     (tr_state t = AttemptingDown \<longrightarrow> terminal s \<or>
        (\<exists>p. pending_sync s = Some p \<and> sy_kind p = SyncDown \<and> sy_token_id p = tr_id t
             \<and> \<not> sy_accepted p))"

text \<open>The mutation in flight refers to a token that is still tracked, in a fitting state.\<close>

definition sync_inv :: "protocol_state \<Rightarrow> pending_sync_req \<Rightarrow> bool" where
  "sync_inv s p \<longleftrightarrow>
     active_operation s = Some (sy_operation p) \<and>
     (\<exists>t \<in> set (tokens s). tr_id t = sy_token_id p \<and>
        (if sy_kind p = SyncDown
         then tr_state t = PossiblyDown \<or> (tr_state t = AttemptingDown \<and> \<not> sy_accepted p)
         else tr_state t \<noteq> AttemptingDown))"

definition operation_inv :: "protocol_state \<Rightarrow> bool" where
  "operation_inv s \<longleftrightarrow>
     (active_operation s = None \<longrightarrow> last_operation s = 0) \<and>
     (\<forall>operation. active_operation s = Some operation \<longrightarrow>
        operation \<noteq> 0 \<and> operation = last_operation s \<and> operation_deadline s \<noteq> None)"

definition protocol_inv :: "protocol_state \<Rightarrow> bool" where
  "protocol_inv s \<longleftrightarrow>
     distinct (map tr_id (tokens s)) \<and>
     (\<forall>t \<in> set (tokens s). token_inv s t) \<and>
     length (tokens s) \<le> MAX_PREPARED_TOKENS \<and> debt_count s \<le> MAX_ACTIVE_DEBTS \<and>
     (pending_prepare s = None \<or> pending_sync s = None) \<and>
     (\<forall>p. pending_prepare s = Some p \<longrightarrow> active_operation s = Some (pp_operation p)) \<and>
     (\<forall>p. pending_sync s = Some p \<longrightarrow> sync_inv s p) \<and>
     operation_inv s \<and>
     (cleanup_deadline s \<noteq> None \<longrightarrow> terminal s)"

text \<open>One call on the protocol state, as the guardian session makes them.\<close>

datatype protocol_call =
    CallAccept sequence_no request u64
  | CallRecordPrepared operation_id prepared_token
  | CallRecordDownAttempt u64
  | CallCompleteSynchronize u64
  | CallBeginTerminal

fun protocol_step :: "protocol_state \<Rightarrow> protocol_call \<Rightarrow> protocol_state" where
  "protocol_step s (CallAccept sequence req now_ns) = snd (accept s sequence req now_ns)"
| "protocol_step s (CallRecordPrepared operation token) = snd (record_prepared s operation token)"
| "protocol_step s (CallRecordDownAttempt tid) = snd (record_down_attempt s tid)"
| "protocol_step s (CallCompleteSynchronize tid) = snd (complete_synchronize s tid)"
| "protocol_step s CallBeginTerminal = begin_terminal s"

subsection \<open>Errors change nothing\<close>

lemmas [handler_defs] = accept_prepare_def accept_execute_down_def accept_key_up_def
  accept_synchronize_def accept_transfer_def accept_physical_release_def
  accept_cancel_and_drain_def record_prepared_def record_down_attempt_def
  complete_synchronize_def acknowledge_cleanup_release_def

lemma accept_parts_atomic:
  "atomic_on s (accept_prepare s operation code deadline now_ns)"
  "atomic_on s (accept_execute_down s operation token deadline now_ns)"
  "atomic_on s (accept_key_up s operation token release now_ns)"
  "atomic_on s (accept_synchronize s operation tid release now_ns)"
  "atomic_on s (accept_transfer s operation token generation deadline now_ns)"
  "atomic_on s (accept_physical_release s sequence token generation deadline now_ns)"
  "atomic_on s (accept_cancel_and_drain s operation deadline now_ns)"
  by (simp_all add: handler_defs Let_def)

lemma accept_request_atomic: "atomic_on s (accept_request s req now_ns)"
  by (simp add: accept_request_def accept_parts_atomic split: request.splits)

lemma accept_atomic: "atomic_on s (accept s sequence req now_ns)"
  unfolding accept_def by (auto intro!: atomic_on_then_st simp: accept_request_atomic)

lemma record_atomic:
  "atomic_on s (record_prepared s operation token)"
  "atomic_on s (record_down_attempt s tid)"
  "atomic_on s (complete_synchronize s tid)"
  "atomic_on s (acknowledge_cleanup_release s tid)"
  by (simp_all add: handler_defs)

subsection \<open>Preservation\<close>

lemma find_token_Inr:
  "find_token s token = Inr i \<Longrightarrow> i < length (tokens s) \<and> tr_token (tokens s ! i) = token"
  by (auto simp: find_token_def dest: position_SomeD)

lemma map_tr_id_update:
  "i < length ts \<Longrightarrow> map tr_id (ts[i := (ts ! i)\<lparr>tr_state := x\<rparr>]) = map tr_id ts"
  by (rule nth_equalityI) (auto simp: nth_list_update)

lemma same_id_same_token:
  assumes "distinct (map tr_id ts)" and "t \<in> set ts" and "u \<in> set ts" and "tr_id t = tr_id u"
  shows "t = u"
  using assms by (auto simp: distinct_map dest: inj_onD)

lemma validate_normal_deadline_live: "validate_normal_deadline s d n = Inr u \<Longrightarrow> \<not> terminal s"
  by (auto simp: validate_normal_deadline_def split: if_splits)

text \<open>With nothing in flight and the session live, no down is being attempted.\<close>

lemma quiet_no_attempt:
  assumes "protocol_inv s" and "\<not> in_flight s" and "\<not> terminal s" and "t \<in> set (tokens s)"
  shows "tr_state t \<noteq> AttemptingDown"
  using assms by (auto simp: protocol_inv_def token_inv_def in_flight_def)

lemma apply_cleanup_deadline_simps [simp]:
  "tokens (apply_cleanup_deadline s d b) = tokens s"
  "st_session (apply_cleanup_deadline s d b) = st_session s"
  "last_prepared_token_id (apply_cleanup_deadline s d b) = last_prepared_token_id s"
  "last_operation (apply_cleanup_deadline s d b) = last_operation s"
  "active_operation (apply_cleanup_deadline s d b) = active_operation s"
  "operation_deadline (apply_cleanup_deadline s d b) = operation_deadline s"
  "pending_prepare (apply_cleanup_deadline s d b) = pending_prepare s"
  "pending_sync (apply_cleanup_deadline s d b) = pending_sync s"
  "last_sequence (apply_cleanup_deadline s d b) = last_sequence s"
  "last_physical_release_sequence (apply_cleanup_deadline s d b) = last_physical_release_sequence s"
  "terminal (apply_cleanup_deadline s d b)"
  by (simp_all add: apply_cleanup_deadline_def)

lemma accept_prepare_inv:
  assumes inv: "protocol_inv s" and acc: "accept_prepare s operation code deadline now_ns = (Inr u, s')"
  shows "protocol_inv s'"
proof -
  from acc obtain starts where quiet: "\<not> in_flight s"
    and starts: "validate_prepare_operation s operation = Inr starts"
    and s': "s' = (if starts then s\<lparr>last_operation := operation, active_operation := Some operation,
        operation_deadline := Some deadline\<rparr> else s)
        \<lparr>pending_prepare := Some \<lparr>pp_operation = operation, pp_evdev_code = code\<rparr>\<rparr>"
    by (auto simp: accept_prepare_def Let_def)
  show ?thesis
  proof (cases starts)
    case True
    with starts have "operation \<noteq> 0" "last_operation s \<le> operation"
      and "\<forall>t \<in> set (tokens s). is_physical_debt (tr_state t)"
      by (auto simp: validate_prepare_operation_def list_ex_iff split: if_splits)
    with True inv quiet s' show ?thesis
      by (force simp: protocol_inv_def token_inv_def operation_inv_def debt_count_def
          in_flight_def)
  next
    case False
    with starts have "active_operation s = Some operation"
      by (auto simp: validate_prepare_operation_def split: if_splits)
    with False inv quiet s' show ?thesis
      by (auto simp: protocol_inv_def token_inv_def operation_inv_def debt_count_def in_flight_def)
  qed
qed

lemma sync_invI:
  assumes "active_operation s = Some (sy_operation p)" and "t \<in> set (tokens s)"
    and "tr_id t = sy_token_id p"
    and "if sy_kind p = SyncDown
         then tr_state t = PossiblyDown \<or> (tr_state t = AttemptingDown \<and> \<not> sy_accepted p)
         else tr_state t \<noteq> AttemptingDown"
  shows "sync_inv s p"
  using assms unfolding sync_inv_def by blast

text \<open>
  The three operations that move a token to another state share one argument: identifiers and
  ownership are untouched, so only the new state, the debt count and the mutation in flight
  have to be checked again.
\<close>

lemma protocol_inv_move:
  assumes inv: "protocol_inv s" and i: "i < length (tokens s)"
    and toks: "tokens s' = (tokens s)[i := (tokens s ! i)\<lparr>tr_state := x\<rparr>]"
    and same: "st_session s' = st_session s" "last_prepared_token_id s' = last_prepared_token_id s"
      "last_operation s' = last_operation s" "active_operation s' = active_operation s"
      "operation_deadline s' = operation_deadline s" "pending_prepare s' = pending_prepare s"
      "cleanup_deadline s' = cleanup_deadline s" "terminal s' = terminal s"
    and owner: "\<not> is_physical_debt x \<Longrightarrow> active_operation s = Some (tr_operation (tokens s ! i))"
    and attempts: "\<And>t. t \<in> set (tokens s') \<Longrightarrow> tr_state t = AttemptingDown \<Longrightarrow> \<not> terminal s \<Longrightarrow>
      \<exists>p. pending_sync s' = Some p \<and> sy_kind p = SyncDown \<and> sy_token_id p = tr_id t \<and> \<not> sy_accepted p"
    and debts: "debt_count s' \<le> MAX_ACTIVE_DEBTS"
    and flight: "pending_prepare s = None \<or> pending_sync s' = None"
      "\<And>p. pending_sync s' = Some p \<Longrightarrow> sync_inv s' p"
  shows "protocol_inv s'"
proof -
  have "token_inv s' t" if t: "t \<in> set (tokens s')" for t
  proof -
    obtain u where u: "u \<in> set (tokens s)" "tr_token t = tr_token u" "tr_operation t = tr_operation u"
      and "t = u \<or> t = (tokens s ! i)\<lparr>tr_state := x\<rparr> \<and> u = tokens s ! i"
      using t i set_update_subset_insert [of "tokens s" i] unfolding toks
      by (metis (no_types, lifting) insert_iff nth_mem subsetD tracked_token.select_convs(1,2)
          tracked_token.surjective tracked_token.update_convs(3))
    then show ?thesis
      using inv same owner attempts [OF t] by (auto simp: protocol_inv_def token_inv_def)
  qed
  moreover have "distinct (map tr_id (tokens s'))"
    using inv i by (simp add: toks map_tr_id_update protocol_inv_def)
  ultimately show ?thesis
    using inv same debts flight by (simp add: protocol_inv_def operation_inv_def toks)
qed

lemma debt_count_move:
  assumes "i < length (tokens s)" and "tokens s' = (tokens s)[i := (tokens s ! i)\<lparr>tr_state := x\<rparr>]"
  shows "debt_count s' + (if tr_state (tokens s ! i) \<noteq> TokPrepared then 1 else 0)
       = debt_count s + (if x \<noteq> TokPrepared then 1 else 0)"
  using length_filter_update [OF assms(1), of "\<lambda>t. tr_state t \<noteq> TokPrepared"
      "(tokens s ! i)\<lparr>tr_state := x\<rparr>"]
  by (simp add: debt_count_def assms(2))

lemma moved_token_in: "i < length ts \<Longrightarrow> (ts ! i)\<lparr>tr_state := x\<rparr> \<in> set (ts[i := (ts ! i)\<lparr>tr_state := x\<rparr>])"
  by (rule set_update_memI)

lemma moved_tokenD:
  "t \<in> set (ts[i := y]) \<Longrightarrow> t = y \<or> t \<in> set ts"
  using set_update_subset_insert by fastforce

lemma accept_execute_down_D:
  assumes "accept_execute_down s operation token deadline now_ns = (Inr u, s')"
  shows "\<exists>i. \<not> terminal s \<and> active_operation s = Some operation \<and> \<not> in_flight s \<and>
     i < length (tokens s) \<and> tr_token (tokens s ! i) = token \<and>
     tr_operation (tokens s ! i) = operation \<and> tr_state (tokens s ! i) = TokPrepared \<and>
     debt_count s < MAX_ACTIVE_DEBTS \<and>
     s' = s\<lparr>tokens := (tokens s)[i := (tokens s ! i)\<lparr>tr_state := AttemptingDown\<rparr>],
       pending_sync := Some \<lparr>sy_operation = operation, sy_token_id = token_id token,
         sy_kind = SyncDown, sy_accepted = False\<rparr>\<rparr>"
  using assms
  by (clarsimp simp: accept_execute_down_def validate_active_operation_def
      dest!: validate_normal_deadline_live find_token_Inr) blast

lemma accept_execute_down_inv:
  assumes inv: "protocol_inv s"
    and acc: "accept_execute_down s operation token deadline now_ns = (Inr u, s')"
  shows "protocol_inv s'"
proof -
  from acc obtain i where live: "\<not> terminal s" and active: "active_operation s = Some operation"
    and quiet: "\<not> in_flight s" and i: "i < length (tokens s)" "tr_token (tokens s ! i) = token"
    and tok: "tr_operation (tokens s ! i) = operation" "tr_state (tokens s ! i) = TokPrepared"
    and cap: "debt_count s < MAX_ACTIVE_DEBTS"
    and s': "s' = s\<lparr>tokens := (tokens s)[i := (tokens s ! i)\<lparr>tr_state := AttemptingDown\<rparr>],
       pending_sync := Some \<lparr>sy_operation = operation, sy_token_id = token_id token,
         sy_kind = SyncDown, sy_accepted = False\<rparr>\<rparr>"
    using accept_execute_down_D by blast
  show ?thesis
  proof (rule protocol_inv_move [OF inv i(1), where x = AttemptingDown])
    show "debt_count s' \<le> MAX_ACTIVE_DEBTS"
      using debt_count_move [OF i(1), of s' AttemptingDown] cap tok by (simp add: s')
    show "\<exists>p. pending_sync s' = Some p \<and> sy_kind p = SyncDown \<and> sy_token_id p = tr_id t \<and> \<not> sy_accepted p"
      if "t \<in> set (tokens s')" "tr_state t = AttemptingDown" for t
      using that quiet_no_attempt [OF inv quiet live] i(2) by (auto simp: s' dest: moved_tokenD)
    show "sync_inv s' p" if "pending_sync s' = Some p" for p
      by (rule sync_invI [where t = "(tokens s ! i)\<lparr>tr_state := AttemptingDown\<rparr>"])
        (use that i moved_token_in [OF i(1), of AttemptingDown] active in \<open>auto simp: s'\<close>)
  qed (use active quiet tok in \<open>simp_all add: s' in_flight_def\<close>)
qed

lemma accept_transfer_inv:
  assumes inv: "protocol_inv s"
    and acc: "accept_transfer s operation token generation deadline now_ns = (Inr u, s')"
  shows "protocol_inv s'"
proof -
  from acc obtain i where live: "\<not> terminal s" and quiet: "\<not> in_flight s"
    and i: "i < length (tokens s)" and tok: "tr_state (tokens s ! i) = PossiblyDown"
    and s': "s' = s\<lparr>tokens := (tokens s)[i := (tokens s ! i)\<lparr>tr_state := PhysicalDebt generation\<rparr>]\<rparr>"
    by (clarsimp simp: accept_transfer_def dest!: validate_normal_deadline_live find_token_Inr)
  show ?thesis
  proof (rule protocol_inv_move [OF inv i, where x = "PhysicalDebt generation"])
    show "debt_count s' \<le> MAX_ACTIVE_DEBTS"
      using debt_count_move [OF i, of s' "PhysicalDebt generation"] tok inv
      by (simp add: s' protocol_inv_def)
    show "\<exists>p. pending_sync s' = Some p \<and> sy_kind p = SyncDown \<and> sy_token_id p = tr_id t \<and> \<not> sy_accepted p"
      if "t \<in> set (tokens s')" "tr_state t = AttemptingDown" for t
      using that quiet_no_attempt [OF inv quiet live] by (auto simp: s' dest: moved_tokenD)
  qed (use quiet in \<open>simp_all add: s' in_flight_def\<close>)
qed

lemma record_down_attempt_inv:
  assumes inv: "protocol_inv s" and acc: "record_down_attempt s tid = (Inr u, s')"
  shows "protocol_inv s'"
proof -
  from acc obtain p i where p: "pending_sync s = Some p" "sy_kind p = SyncDown" "sy_token_id p = tid"
      "\<not> sy_accepted p"
    and i: "i < length (tokens s)" "tr_id (tokens s ! i) = tid"
    and tok: "tr_state (tokens s ! i) = AttemptingDown"
    and s': "s' = s\<lparr>tokens := (tokens s)[i := (tokens s ! i)\<lparr>tr_state := PossiblyDown\<rparr>]\<rparr>"
    by (clarsimp simp: record_down_attempt_def dest!: position_SomeD)
  have old: "token_inv s t" if "t \<in> set (tokens s)" for t
    using inv that by (simp add: protocol_inv_def)
  have active: "active_operation s = Some (tr_operation (tokens s ! i))"
    using old [OF nth_mem [OF i(1)]] tok by (simp add: token_inv_def)
  show ?thesis
  proof (rule protocol_inv_move [OF inv i(1), where x = PossiblyDown])
    show "debt_count s' \<le> MAX_ACTIVE_DEBTS"
      using debt_count_move [OF i(1), of s' PossiblyDown] tok inv
      by (simp add: s' protocol_inv_def)
    show "\<exists>p. pending_sync s' = Some p \<and> sy_kind p = SyncDown \<and> sy_token_id p = tr_id t \<and> \<not> sy_accepted p"
      if "t \<in> set (tokens s')" "tr_state t = AttemptingDown" "\<not> terminal s" for t
      using that old [of t] by (auto simp: s' token_inv_def dest: moved_tokenD)
    show "sync_inv s' q" if "pending_sync s' = Some q" for q
    proof -
      have "sync_inv s q" using that inv by (simp add: s' protocol_inv_def)
      then show ?thesis
        by (intro sync_invI [where t = "(tokens s ! i)\<lparr>tr_state := PossiblyDown\<rparr>"])
          (use that p i moved_token_in [OF i(1), of PossiblyDown] in \<open>auto simp: s' sync_inv_def\<close>)
    qed
  qed (use active p inv in \<open>simp_all add: s' protocol_inv_def\<close>)
qed

text \<open>Operations that leave the tokens alone, and operations that drop one.\<close>

lemma protocol_inv_frame:
  assumes inv: "protocol_inv s" and toks: "tokens s' = tokens s"
    and same: "st_session s' = st_session s" "last_prepared_token_id s' = last_prepared_token_id s"
      "last_operation s' = last_operation s" "active_operation s' = active_operation s"
      "operation_deadline s' = operation_deadline s"
    and closing: "cleanup_deadline s' \<noteq> None \<Longrightarrow> terminal s'"
    and attempts: "\<And>t. t \<in> set (tokens s) \<Longrightarrow> tr_state t = AttemptingDown \<Longrightarrow> \<not> terminal s' \<Longrightarrow>
      \<exists>p. pending_sync s' = Some p \<and> sy_kind p = SyncDown \<and> sy_token_id p = tr_id t \<and> \<not> sy_accepted p"
    and flight: "pending_prepare s' = None \<or> pending_sync s' = None"
      "pending_prepare s' = pending_prepare s \<or> pending_prepare s' = None"
      "\<And>p. pending_sync s' = Some p \<Longrightarrow> sync_inv s' p"
  shows "protocol_inv s'"
proof -
  have "token_inv s' t" if "t \<in> set (tokens s')" for t
    using that inv same attempts [of t] by (auto simp: protocol_inv_def token_inv_def toks)
  then show ?thesis
    using inv same closing flight
    by (auto simp: protocol_inv_def operation_inv_def debt_count_def toks)
qed

lemma protocol_inv_remove:
  assumes inv: "protocol_inv s" and i: "i < length (tokens s)"
    and toks: "tokens s' = remove_at i (tokens s)"
    and same: "st_session s' = st_session s" "last_prepared_token_id s' = last_prepared_token_id s"
      "last_operation s' = last_operation s" "active_operation s' = active_operation s"
      "operation_deadline s' = operation_deadline s" "pending_prepare s' = pending_prepare s"
      "cleanup_deadline s' = cleanup_deadline s" "terminal s' = terminal s"
    and quiet: "pending_sync s' = None"
    and attempts: "\<And>t. t \<in> set (tokens s') \<Longrightarrow> tr_state t = AttemptingDown \<Longrightarrow> terminal s"
  shows "protocol_inv s'"
proof -
  have sub: "set (tokens s') \<subseteq> set (tokens s)"
    unfolding toks by (rule set_remove_at_subset)
  have "token_inv s' t" if "t \<in> set (tokens s')" for t
    using that sub inv same attempts [of t] by (auto simp: protocol_inv_def token_inv_def)
  moreover have "distinct (map tr_id (tokens s'))"
    using inv by (simp add: toks map_remove_at distinct_remove_at protocol_inv_def)
  moreover have "length (tokens s') \<le> MAX_PREPARED_TOKENS" "debt_count s' \<le> MAX_ACTIVE_DEBTS"
    using inv i by (auto simp: toks protocol_inv_def debt_count_def length_filter_remove_at)
  ultimately show ?thesis
    using inv same quiet by (simp add: protocol_inv_def operation_inv_def)
qed

lemma releasable_state:
  "(case st of TokPrepared \<Rightarrow> ensure a e1 | AttemptingDown \<Rightarrow> Inl e2
    | PossiblyDown \<Rightarrow> ensure b e3 | PhysicalDebt _ \<Rightarrow> Inr ()) = Inr u \<Longrightarrow> st \<noteq> AttemptingDown"
  by (cases st) auto

lemma accept_key_up_D:
  assumes "accept_key_up s operation token release now_ns = (Inr u, s')"
  shows "\<exists>i starts. active_operation s = Some operation \<and> \<not> in_flight s \<and>
     i < length (tokens s) \<and> tr_token (tokens s ! i) = token \<and>
     tr_state (tokens s ! i) \<noteq> AttemptingDown \<and>
     validate_release_deadline s operation release now_ns = Inr starts \<and>
     s' = (case release of CleanupDeadline ns \<Rightarrow> apply_cleanup_deadline s ns starts
           | MutationDeadline _ \<Rightarrow> s)
       \<lparr>pending_sync := Some \<lparr>sy_operation = operation, sy_token_id = token_id token,
         sy_kind = SyncUp, sy_accepted = False\<rparr>\<rparr>"
  using assms
  by (clarsimp simp: accept_key_up_def validate_active_operation_def Let_def
      dest!: find_token_Inr releasable_state) blast

lemma terminal_release:
  assumes "protocol_inv s"
    and "s1 = (case release of CleanupDeadline ns \<Rightarrow> apply_cleanup_deadline s ns starts
                | MutationDeadline _ \<Rightarrow> s)"
  shows "tokens s1 = tokens s" "st_session s1 = st_session s"
    "last_prepared_token_id s1 = last_prepared_token_id s" "last_operation s1 = last_operation s"
    "active_operation s1 = active_operation s" "operation_deadline s1 = operation_deadline s"
    "pending_prepare s1 = pending_prepare s" "pending_sync s1 = pending_sync s"
    "cleanup_deadline s1 \<noteq> None \<Longrightarrow> terminal s1" "terminal s \<Longrightarrow> terminal s1"
  using assms by (auto simp: protocol_inv_def split: release_deadline.splits)

lemma accept_key_up_inv:
  assumes inv: "protocol_inv s" and acc: "accept_key_up s operation token release now_ns = (Inr u, s')"
  shows "protocol_inv s'"
proof -
  from accept_key_up_D [OF acc] obtain i starts where active: "active_operation s = Some operation"
    and quiet: "\<not> in_flight s" and i: "i < length (tokens s)" "tr_token (tokens s ! i) = token"
    and tok: "tr_state (tokens s ! i) \<noteq> AttemptingDown"
    and s': "s' = (case release of CleanupDeadline ns \<Rightarrow> apply_cleanup_deadline s ns starts
           | MutationDeadline _ \<Rightarrow> s)
       \<lparr>pending_sync := Some \<lparr>sy_operation = operation, sy_token_id = token_id token,
         sy_kind = SyncUp, sy_accepted = False\<rparr>\<rparr>"
    by blast
  note same = terminal_release [OF inv refl, where release = release and starts = starts]
  show ?thesis
  proof (rule protocol_inv_frame [OF inv])
    show "\<exists>p. pending_sync s' = Some p \<and> sy_kind p = SyncDown \<and> sy_token_id p = tr_id t \<and> \<not> sy_accepted p"
      if "t \<in> set (tokens s)" "tr_state t = AttemptingDown" "\<not> terminal s'" for t
      using that quiet_no_attempt [OF inv quiet] same(10) by (auto simp: s')
    show "sync_inv s' p" if "pending_sync s' = Some p" for p
      by (rule sync_invI [where t = "tokens s ! i"])
        (use that i active tok same in \<open>auto simp: s'\<close>)
  qed (use same quiet in \<open>simp_all add: s' in_flight_def\<close>)
qed

lemma accept_synchronize_D:
  assumes "accept_synchronize s operation tid release now_ns = (Inr u, s')"
  shows "\<exists>p starts. active_operation s = Some operation \<and> tid \<noteq> 0 \<and> pending_sync s = Some p \<and>
     sy_operation p = operation \<and> sy_token_id p = tid \<and> \<not> sy_accepted p \<and>
     (sy_kind p = SyncDown \<longrightarrow>
        (\<exists>t. find (\<lambda>t. tr_id t = tid) (tokens s) = Some t \<and> tr_state t = PossiblyDown)) \<and>
     validate_release_deadline s operation release now_ns = Inr starts \<and>
     s' = (case release of CleanupDeadline ns \<Rightarrow> apply_cleanup_deadline s ns starts
           | MutationDeadline _ \<Rightarrow> s)\<lparr>pending_sync := Some (p\<lparr>sy_accepted := True\<rparr>)\<rparr>"
  using assms
  by (clarsimp simp: accept_synchronize_def validate_active_operation_def Let_def split: if_splits)
    blast+

lemma accept_synchronize_inv:
  assumes inv: "protocol_inv s"
    and acc: "accept_synchronize s operation tid release now_ns = (Inr u, s')"
  shows "protocol_inv s'"
proof -
  from accept_synchronize_D [OF acc] obtain p starts where p: "pending_sync s = Some p"
      "sy_token_id p = tid"
    and down: "sy_kind p = SyncDown \<longrightarrow>
        (\<exists>t. find (\<lambda>t. tr_id t = tid) (tokens s) = Some t \<and> tr_state t = PossiblyDown)"
    and s': "s' = (case release of CleanupDeadline ns \<Rightarrow> apply_cleanup_deadline s ns starts
           | MutationDeadline _ \<Rightarrow> s)\<lparr>pending_sync := Some (p\<lparr>sy_accepted := True\<rparr>)\<rparr>"
    by blast
  note same = terminal_release [OF inv refl, where release = release and starts = starts]
  from inv have dist: "distinct (map tr_id (tokens s))" and sp: "sync_inv s p"
    and toks: "\<forall>t \<in> set (tokens s). token_inv s t"
    using p by (auto simp: protocol_inv_def)
  have finished: "\<exists>t \<in> set (tokens s). tr_id t = tid \<and> tr_state t = PossiblyDown" if "sy_kind p = SyncDown"
    using that down by (auto dest!: find_SomeD)
  show ?thesis
  proof (rule protocol_inv_frame [OF inv])
    show "\<exists>p. pending_sync s' = Some p \<and> sy_kind p = SyncDown \<and> sy_token_id p = tr_id t \<and> \<not> sy_accepted p"
      if t: "t \<in> set (tokens s)" "tr_state t = AttemptingDown" "\<not> terminal s'" for t
    proof -
      have "\<not> terminal s" using t(3) same(10) by (auto simp: s')
      then have "sy_kind p = SyncDown" "tid = tr_id t"
        using toks t p by (auto simp: token_inv_def)
      then show ?thesis
        using finished same_id_same_token [OF dist t(1)] t(2) by force
    qed
    show "sync_inv s' q" if "pending_sync s' = Some q" for q
      using that sp finished p same(1,5) by (cases "sy_kind p") (auto simp: s' sync_inv_def)
  qed (use same p inv in \<open>auto simp: s' protocol_inv_def\<close>)
qed

lemma accept_physical_release_inv:
  assumes inv: "protocol_inv s"
    and acc: "accept_physical_release s sequence token generation deadline now_ns = (Inr u, s')"
  shows "protocol_inv s'"
proof -
  from acc obtain i where "\<not> terminal s" "pending_sync s = None" and i: "i < length (tokens s)"
    and s': "s' = s\<lparr>tokens := remove_at i (tokens s), last_physical_release_sequence := sequence\<rparr>"
    by (clarsimp simp: accept_physical_release_def dest!: validate_normal_deadline_live find_token_Inr)
  then show ?thesis
    by (intro protocol_inv_remove [OF inv i])
      (use inv set_remove_at_subset [of i "tokens s"] in
        \<open>auto simp: protocol_inv_def token_inv_def\<close>)
qed

lemma terminal_drain_inv:
  assumes "protocol_inv s"
  shows "protocol_inv ((apply_cleanup_deadline s deadline starts)
    \<lparr>pending_prepare := None, pending_sync := None\<rparr>)"
  by (rule protocol_inv_frame [OF assms]) simp_all

lemma complete_synchronize_D:
  assumes "complete_synchronize s tid = (Inr u, s')"
  shows "\<exists>p. pending_sync s = Some p \<and> sy_token_id p = tid \<and> sy_accepted p \<and>
     (sy_kind p = SyncDown \<and> s' = s\<lparr>pending_sync := None\<rparr> \<or>
      (\<exists>i. sy_kind p = SyncUp \<and> position (\<lambda>t. tr_id t = tid) (tokens s) = Some i \<and>
           s' = s\<lparr>tokens := remove_at i (tokens s), pending_sync := None\<rparr>))"
  using assms by (cases "pending_sync s", simp_all add: complete_synchronize_def)
    (auto split: if_splits intro: pending_sync_kind.exhaust)

lemma complete_synchronize_inv:
  assumes inv: "protocol_inv s" and acc: "complete_synchronize s tid = (Inr u, s')"
  shows "protocol_inv s'"
proof -
  from complete_synchronize_D [OF acc] obtain p where
      p: "pending_sync s = Some p" "sy_token_id p = tid" "sy_accepted p"
    and cases: "sy_kind p = SyncDown \<and> s' = s\<lparr>pending_sync := None\<rparr> \<or>
      (\<exists>i. sy_kind p = SyncUp \<and> i < length (tokens s) \<and>
           s' = s\<lparr>tokens := remove_at i (tokens s), pending_sync := None\<rparr>)"
    by (blast dest: position_SomeD)
  have quiet: "terminal s" if "t \<in> set (tokens s)" "tr_state t = AttemptingDown" for t
    using that inv p by (auto simp: protocol_inv_def token_inv_def)
  from cases show ?thesis
  proof
    assume "sy_kind p = SyncDown \<and> s' = s\<lparr>pending_sync := None\<rparr>"
    then show ?thesis
      by (intro protocol_inv_frame [OF inv]) (use inv quiet in \<open>auto simp: protocol_inv_def\<close>)
  next
    assume "\<exists>i. sy_kind p = SyncUp \<and> i < length (tokens s) \<and>
           s' = s\<lparr>tokens := remove_at i (tokens s), pending_sync := None\<rparr>"
    then obtain i where "i < length (tokens s)"
      "s' = s\<lparr>tokens := remove_at i (tokens s), pending_sync := None\<rparr>" by blast
    then show ?thesis
      using quiet set_remove_at_subset [of i "tokens s"]
      by (intro protocol_inv_remove [OF inv]) auto
  qed
qed

lemma acknowledge_cleanup_release_inv:
  assumes inv: "protocol_inv s" and quiet: "pending_sync s = None" "terminal s"
  shows "protocol_inv (snd (acknowledge_cleanup_release s tid))"
proof (cases "position (\<lambda>t. tr_id t = tid \<and> tr_state t \<noteq> TokPrepared) (tokens s)")
  case None
  then show ?thesis using inv by (simp add: acknowledge_cleanup_release_def)
next
  case (Some i)
  then have "i < length (tokens s)" by (auto dest: position_SomeD)
  with Some quiet show ?thesis
    by (intro protocol_inv_remove [OF inv]) (simp_all add: acknowledge_cleanup_release_def)
qed

lemma begin_terminal_inv:
  assumes inv: "protocol_inv s"
  shows "protocol_inv (begin_terminal s)"
proof -
  let ?s = "begin_terminal s"
  have toks: "tokens ?s = filter (\<lambda>t. tr_state t \<noteq> TokPrepared) (tokens s)"
    by (simp add: begin_terminal_def)
  have "token_inv ?s t" if "t \<in> set (tokens ?s)" for t
    using that inv by (auto simp: begin_terminal_def protocol_inv_def token_inv_def)
  moreover have "length (tokens ?s) \<le> length (tokens s)"
    by (simp add: toks)
  moreover have "debt_count ?s = debt_count s"
    by (simp add: toks debt_count_def)
  moreover have "distinct (map tr_id (tokens ?s))"
    using inv by (simp add: toks protocol_inv_def distinct_map_filter)
  moreover have "pending_prepare ?s = None" "pending_sync ?s = None" "terminal ?s"
    "operation_inv ?s"
    using inv by (simp_all add: begin_terminal_def protocol_inv_def operation_inv_def)
  ultimately show ?thesis
    using inv by (simp add: protocol_inv_def)
qed

lemma record_prepared_D:
  assumes "record_prepared s operation token = (Inr u, s')"
  shows "\<exists>p. pending_prepare s = Some p \<and> pp_operation p = operation \<and>
     pp_evdev_code p = evdev_code token \<and> validate_token_identity s token = Inr () \<and>
     last_prepared_token_id s < token_id token \<and> length (tokens s) < MAX_PREPARED_TOKENS \<and>
     s' = s\<lparr>tokens := tokens s
                  @ [\<lparr>tr_operation = operation, tr_token = token, tr_state = TokPrepared\<rparr>],
            last_prepared_token_id := token_id token, pending_prepare := None\<rparr>"
  using assms by (clarsimp simp: record_prepared_def not_le)

lemma record_prepared_inv:
  assumes inv: "protocol_inv s" and rec: "record_prepared s operation token = (Inr u, s')"
  shows "protocol_inv s'"
proof -
  from record_prepared_D [OF rec] obtain p where p: "pending_prepare s = Some p" "pp_operation p = operation"
    and ident: "validate_token_identity s token = Inr ()"
    and fresh: "last_prepared_token_id s < token_id token"
    and cap: "length (tokens s) < MAX_PREPARED_TOKENS"
    and s': "s' = s\<lparr>tokens := tokens s
                  @ [\<lparr>tr_operation = operation, tr_token = token, tr_state = TokPrepared\<rparr>],
            last_prepared_token_id := token_id token, pending_prepare := None\<rparr>"
    by blast
  from inv p have active: "active_operation s = Some operation" and quiet: "pending_sync s = None"
    and op: "operation = last_operation s"
    by (auto simp: protocol_inv_def operation_inv_def)
  have old: "token_inv s t" if "t \<in> set (tokens s)" for t
    using inv that by (simp add: protocol_inv_def)
  have "token_inv s' t" if "t \<in> set (tokens s')" for t
  proof (cases "t \<in> set (tokens s)")
    case True
    with old [OF True] fresh show ?thesis by (auto simp: token_inv_def s')
  next
    case False
    with that ident active op show ?thesis
      by (auto simp: token_inv_def s' validate_token_identity_def split: if_splits)
  qed
  moreover have "distinct (map tr_id (tokens s'))"
    using inv old fresh by (fastforce simp: s' protocol_inv_def token_inv_def)
  moreover have "debt_count s' = debt_count s"
    by (simp add: s' debt_count_def)
  ultimately show ?thesis
    using inv cap quiet by (simp add: s' protocol_inv_def operation_inv_def)
qed

lemma set_sequence_inv: "protocol_inv s \<Longrightarrow> protocol_inv (s\<lparr>last_sequence := n\<rparr>)"
  by (rule protocol_inv_frame) (auto simp: protocol_inv_def token_inv_def sync_inv_def)

lemma accept_request_inv:
  assumes inv: "protocol_inv s" and acc: "accept_request s req now_ns = (Inr u, s')"
  shows "protocol_inv s'"
proof (cases req)
  case (CancelAndDrain operation deadline)
  with acc inv show ?thesis
    by (auto simp: accept_request_def accept_cancel_and_drain_def intro: terminal_drain_inv)
next
  case (ReleaseAllAndExit deadline)
  with acc inv show ?thesis
    by (auto simp: accept_request_def intro: terminal_drain_inv)
qed (use acc inv in \<open>auto simp: accept_request_def intro: accept_prepare_inv accept_execute_down_inv
      accept_key_up_inv accept_synchronize_inv accept_transfer_inv accept_physical_release_inv\<close>)

lemma accept_Inr:
  "accept s sequence req now_ns = (Inr u, s') \<longleftrightarrow>
     last_sequence s < sequence \<and>
     (\<exists>s1. accept_request s req now_ns = (Inr (), s1) \<and> s' = s1\<lparr>last_sequence := sequence\<rparr>)"
  by (auto simp: accept_def not_le word_gt_0)

lemma accept_inv:
  "protocol_inv s \<Longrightarrow> accept s sequence req now_ns = (Inr u, s') \<Longrightarrow> protocol_inv s'"
  by (auto simp: accept_Inr intro: accept_request_inv set_sequence_inv)

lemma atomic_on_inv:
  assumes "atomic_on s r" and "P s" and "\<And>a s'. r = (Inr a, s') \<Longrightarrow> P s'"
  shows "P (snd r)"
  using assms by (cases r; cases "fst r") (auto simp: atomic_on_def)

lemma protocol_step_inv:
  assumes "protocol_inv s"
  shows "protocol_inv (protocol_step s c)"
proof (cases c)
  case (CallAccept sequence req now_ns)
  with assms show ?thesis
    by (auto intro: atomic_on_inv [OF accept_atomic] accept_inv)
next
  case (CallRecordPrepared operation token)
  with assms show ?thesis
    by (auto intro: atomic_on_inv [OF record_atomic(1)] record_prepared_inv)
next
  case (CallRecordDownAttempt tid)
  with assms show ?thesis
    by (auto intro: atomic_on_inv [OF record_atomic(2)] record_down_attempt_inv)
next
  case (CallCompleteSynchronize tid)
  with assms show ?thesis
    by (auto intro: atomic_on_inv [OF record_atomic(3)] complete_synchronize_inv)
next
  case CallBeginTerminal
  with assms show ?thesis by (simp add: begin_terminal_inv)
qed

interpretation guardian: step_invariant protocol_step protocol_inv
  by unfold_locales (rule protocol_step_inv)

lemma ready_inv: "ready session = Inr s \<Longrightarrow> protocol_inv s"
  by (auto simp: ready_def protocol_inv_def operation_inv_def debt_count_def split: if_splits)

lemma ready_after_handshake_inv: "ready_after_handshake session n = Inr s \<Longrightarrow> protocol_inv s"
  by (auto simp: ready_after_handshake_def split: if_splits intro: ready_inv set_sequence_inv)

end
