(* ===== verification/Guardian_Safety.thy ===== *)
theory Guardian_Safety
  imports Guardian_Protocol
begin

text \<open>
  Properties of whole runs of the guardian's protocol state (src/src/daemon/xtest_guardian/
  protocol.rs): bounded resources, refusal of replayed and late requests, conservation of key
  debts, and completion of the down and up cycles.
\<close>

subsection \<open>A sample session\<close>

text \<open>A key is prepared for operation 1, and then pressed and synchronized.\<close>

definition sample_session :: protocol_session where
  "sample_session = \<lparr>ps_session = replicate 16 1, ps_epoch = replicate 16 2\<rparr>"

definition sample_token :: "u64 \<Rightarrow> prepared_token" where
  "sample_token n = \<lparr>tok_session = replicate 16 1, tok_epoch = replicate 16 2, token_id = n,
     evdev_code = 30, x11_keycode = 38\<rparr>"

definition sample_start :: protocol_state where
  "sample_start = (case ready_after_handshake sample_session 1 of Inr s \<Rightarrow> s)"

definition sample_prepared :: protocol_state where
  "sample_prepared = foldl protocol_step sample_start
     [CallAccept 2 (PrepareKey 1 30 2000) 1000, CallRecordPrepared 1 (sample_token 7)]"

definition sample_down :: protocol_state where
  "sample_down = foldl protocol_step sample_prepared
     [CallAccept 3 (ExecuteDown 1 (sample_token 7) 2000) 1000, CallRecordDownAttempt 7,
      CallAccept 4 (Synchronize 1 7 (MutationDeadline 2000)) 1000, CallCompleteSynchronize 7]"

lemma sample_start_ready: "ready_after_handshake sample_session 1 = Inr sample_start"
  by code_simp

lemma sample_inv:
  "protocol_inv sample_start" "protocol_inv sample_prepared" "protocol_inv sample_down"
proof -
  show start: "protocol_inv sample_start"
    by (rule ready_after_handshake_inv [OF sample_start_ready])
  show prepared: "protocol_inv sample_prepared"
    unfolding sample_prepared_def by (rule guardian.inv_run [OF start])
  show "protocol_inv sample_down"
    unfolding sample_down_def by (rule guardian.inv_run [OF prepared])
qed

subsection \<open>Counters and flags that never go back\<close>

definition protocol_grows :: "protocol_state \<Rightarrow> protocol_state \<Rightarrow> bool" where
  "protocol_grows s s' \<longleftrightarrow>
     st_session s' = st_session s \<and> last_sequence s \<le> last_sequence s' \<and>
     last_operation s \<le> last_operation s' \<and>
     last_prepared_token_id s \<le> last_prepared_token_id s' \<and>
     last_physical_release_sequence s \<le> last_physical_release_sequence s' \<and>
     (terminal s \<longrightarrow> terminal s') \<and>
     (\<forall>d. cleanup_deadline s = Some d \<longrightarrow> cleanup_deadline s' = Some d)"

lemma protocol_grows_refl: "protocol_grows s s"
  by (simp add: protocol_grows_def)

lemma protocol_grows_trans: "protocol_grows s t \<Longrightarrow> protocol_grows t u \<Longrightarrow> protocol_grows s u"
  by (auto simp: protocol_grows_def)

lemma validate_cleanup_deadline_starts:
  "validate_cleanup_deadline s deadline now_ns = Inr starts \<Longrightarrow> starts \<longleftrightarrow> cleanup_deadline s = None"
  by (auto simp: validate_cleanup_deadline_def split: option.splits if_splits)

lemma apply_cleanup_deadline_grows:
  assumes "validate_cleanup_deadline s deadline now_ns = Inr starts"
  shows "protocol_grows s (apply_cleanup_deadline s deadline starts)"
  using validate_cleanup_deadline_starts [OF assms]
  by (auto simp: protocol_grows_def apply_cleanup_deadline_def)

lemma release_deadline_grows:
  assumes "validate_release_deadline s operation release now_ns = Inr starts"
  shows "protocol_grows s (case release of CleanupDeadline ns \<Rightarrow> apply_cleanup_deadline s ns starts
           | MutationDeadline _ \<Rightarrow> s)"
  using assms apply_cleanup_deadline_grows
  by (auto simp: validate_release_deadline_def protocol_grows_refl split: release_deadline.splits)

lemma protocol_grows_pending [simp]:
  "protocol_grows s (s'\<lparr>pending_sync := p\<rparr>) \<longleftrightarrow> protocol_grows s s'"
  "protocol_grows s (s'\<lparr>pending_prepare := q\<rparr>) \<longleftrightarrow> protocol_grows s s'"
  "protocol_grows s (s'\<lparr>tokens := ts\<rparr>) \<longleftrightarrow> protocol_grows s s'"
  by (simp_all add: protocol_grows_def)

lemma accept_prepare_grows:
  assumes "accept_prepare s operation code deadline now_ns = (Inr u, s')"
  shows "protocol_grows s s'"
proof -
  from assms obtain starts where v: "validate_prepare_operation s operation = Inr starts"
    and s': "s' = (if starts then s\<lparr>last_operation := operation, active_operation := Some operation,
        operation_deadline := Some deadline\<rparr> else s)
        \<lparr>pending_prepare := Some \<lparr>pp_operation = operation, pp_evdev_code = code\<rparr>\<rparr>"
    by (auto simp: accept_prepare_def Let_def)
  have "starts \<Longrightarrow> last_operation s \<le> operation"
    using v by (auto simp: validate_prepare_operation_def split: if_splits)
  then show ?thesis
    by (simp add: s' protocol_grows_def)
qed

lemma accept_request_grows:
  assumes acc: "accept_request s req now_ns = (Inr u, s')"
  shows "protocol_grows s s'"
proof (cases req)
  case (PrepareKey operation code deadline)
  with acc show ?thesis by (simp add: accept_request_def accept_prepare_grows)
next
  case (KeyUp operation token release)
  with acc accept_key_up_D [of s operation token release now_ns u s'] show ?thesis
    by (auto simp: accept_request_def release_deadline_grows)
next
  case (Synchronize operation tid release)
  with acc accept_synchronize_D [of s operation tid release now_ns u s'] show ?thesis
    by (auto simp: accept_request_def release_deadline_grows)
next
  case (PhysicalReleaseCommitted sequence token generation deadline)
  with acc show ?thesis
    by (auto simp: accept_request_def accept_physical_release_def protocol_grows_def not_le)
qed (use acc in \<open>auto simp: accept_request_def accept_execute_down_def accept_transfer_def
      accept_cancel_and_drain_def protocol_grows_refl apply_cleanup_deadline_grows\<close>)

lemma accept_grows:
  assumes "accept s sequence req now_ns = (Inr u, s')"
  shows "protocol_grows s s'"
proof -
  from assms obtain s1 where "last_sequence s < sequence" "s' = s1\<lparr>last_sequence := sequence\<rparr>"
    and "protocol_grows s s1"
    by (auto simp: accept_Inr dest: accept_request_grows)
  then show ?thesis by (auto simp: protocol_grows_def)
qed

lemma protocol_step_grows: "protocol_grows s (protocol_step s c)"
proof (cases c)
  case (CallAccept sequence req now_ns)
  then show ?thesis
    by (auto intro: atomic_on_inv [OF accept_atomic] accept_grows protocol_grows_refl)
next
  case (CallRecordPrepared operation token)
  have "protocol_grows s s'" if "record_prepared s operation token = (Inr u, s')" for u s'
    using record_prepared_D [OF that] by (auto simp: protocol_grows_def)
  then show ?thesis
    unfolding CallRecordPrepared protocol_step.simps
    by (rule atomic_on_inv [where P = "protocol_grows s", OF record_atomic(1) protocol_grows_refl])
next
  case (CallRecordDownAttempt tid)
  have "protocol_grows s s'" if "record_down_attempt s tid = (Inr u, s')" for u s'
    using that by (auto simp: record_down_attempt_def protocol_grows_refl)
  then show ?thesis
    unfolding CallRecordDownAttempt protocol_step.simps
    by (rule atomic_on_inv [where P = "protocol_grows s", OF record_atomic(2) protocol_grows_refl])
next
  case (CallCompleteSynchronize tid)
  have "protocol_grows s s'" if "complete_synchronize s tid = (Inr u, s')" for u s'
    using complete_synchronize_D [OF that] by (auto simp: protocol_grows_refl)
  then show ?thesis
    unfolding CallCompleteSynchronize protocol_step.simps
    by (rule atomic_on_inv [where P = "protocol_grows s", OF record_atomic(3) protocol_grows_refl])
next
  case CallBeginTerminal
  then show ?thesis by (simp add: begin_terminal_def protocol_grows_def)
qed

interpretation guardian_order: step_monotone protocol_step protocol_grows
  by unfold_locales (rule protocol_grows_refl, erule (1) protocol_grows_trans, rule protocol_step_grows)

subsection \<open>Which requests carry which deadline\<close>

text \<open>Requests that need the session to be live: everything under a mutation deadline.\<close>

fun normal_mutation :: "request \<Rightarrow> bool" where
  "normal_mutation (PrepareKey _ _ _) = True"
| "normal_mutation (ExecuteDown _ _ _) = True"
| "normal_mutation (KeyUp _ _ (MutationDeadline _)) = True"
| "normal_mutation (Synchronize _ _ (MutationDeadline _)) = True"
| "normal_mutation (TransferToPhysicalDebt _ _ _ _) = True"
| "normal_mutation (PhysicalReleaseCommitted _ _ _ _) = True"
| "normal_mutation _ = False"

fun request_deadline :: "request \<Rightarrow> u64" where
  "request_deadline (Hello _ deadline) = deadline"
| "request_deadline (PrepareKey _ _ deadline) = deadline"
| "request_deadline (ExecuteDown _ _ deadline) = deadline"
| "request_deadline (KeyUp _ _ (MutationDeadline deadline)) = deadline"
| "request_deadline (KeyUp _ _ (CleanupDeadline deadline)) = deadline"
| "request_deadline (Synchronize _ _ (MutationDeadline deadline)) = deadline"
| "request_deadline (Synchronize _ _ (CleanupDeadline deadline)) = deadline"
| "request_deadline (TransferToPhysicalDebt _ _ _ deadline) = deadline"
| "request_deadline (PhysicalReleaseCommitted _ _ _ deadline) = deadline"
| "request_deadline (CancelAndDrain _ deadline) = deadline"
| "request_deadline (ReleaseAllAndExit deadline) = deadline"

definition deadline_limit :: "request \<Rightarrow> u64" where
  "deadline_limit req = (if normal_mutation req then MAX_TRANSACTION_TIMEOUT_NS else MAX_RELEASE_CLEANUP_NS)"

definition deadline_in_window :: "u64 \<Rightarrow> u64 \<Rightarrow> u64 \<Rightarrow> bool" where
  "deadline_in_window now_ns deadline limit \<longleftrightarrow>
     unat now_ns < unat deadline \<and> unat deadline \<le> unat now_ns + unat limit"

lemma validate_future_deadline_iff:
  "validate_future_deadline deadline now_ns limit e1 e2 = Inr u \<longleftrightarrow> deadline_in_window now_ns deadline limit"
proof (cases "now_ns \<le> deadline")
  case True
  then have "unat (deadline - now_ns) = unat deadline - unat now_ns" "unat now_ns \<le> unat deadline"
    by (simp_all add: unat_sub word_le_nat_alt)
  then have "deadline - now_ns = 0 \<longleftrightarrow> \<not> unat now_ns < unat deadline"
    and "limit < deadline - now_ns \<longleftrightarrow> \<not> unat deadline \<le> unat now_ns + unat limit"
    by (auto simp: word_less_nat_alt unat_eq_zero simp flip: unat_eq_0)
  with True show ?thesis
    by (auto simp: validate_future_deadline_def checked_sub_def deadline_in_window_def)
next
  case False
  then show ?thesis
    by (simp add: validate_future_deadline_def checked_sub_def deadline_in_window_def
        word_less_nat_alt word_le_nat_alt)
qed

lemma validate_normal_deadline_iff:
  "validate_normal_deadline s deadline now_ns = Inr u \<longleftrightarrow>
     \<not> terminal s \<and> deadline_in_window now_ns deadline MAX_TRANSACTION_TIMEOUT_NS"
  by (simp add: validate_normal_deadline_def validate_future_deadline_iff)

lemma validate_cleanup_deadline_iff:
  "validate_cleanup_deadline s deadline now_ns = Inr starts \<longleftrightarrow>
     deadline_in_window now_ns deadline MAX_RELEASE_CLEANUP_NS \<and>
     (starts \<and> cleanup_deadline s = None \<or> \<not> starts \<and> cleanup_deadline s = Some deadline)"
  by (auto simp: validate_cleanup_deadline_def validate_future_deadline_iff split: option.splits)

lemmas deadline_iffs = validate_normal_deadline_iff validate_cleanup_deadline_iff
  validate_future_deadline_iff

text \<open>Every accepted request passed the deadline check of its class.\<close>

lemma accept_request_deadline:
  assumes acc: "accept_request s req now_ns = (Inr u, s')"
  shows "(normal_mutation req \<longrightarrow> \<not> terminal s) \<and>
    deadline_in_window now_ns (request_deadline req) (deadline_limit req)"
proof (cases req)
  case (PrepareKey operation code deadline)
  with acc show ?thesis
    by (auto simp: accept_request_def accept_prepare_def deadline_iffs deadline_limit_def)
next
  case (ExecuteDown operation token deadline)
  with acc show ?thesis
    by (auto simp: accept_request_def accept_execute_down_def deadline_iffs deadline_limit_def)
next
  case (KeyUp operation token release)
  with acc have "\<exists>starts. validate_release_deadline s operation release now_ns = Inr starts"
    using accept_key_up_D [of s operation token release now_ns u s']
    by (auto simp: accept_request_def)
  with KeyUp show ?thesis
    by (cases release) (auto simp: validate_release_deadline_def deadline_iffs deadline_limit_def)
next
  case (Synchronize operation tid release)
  with acc have "\<exists>starts. validate_release_deadline s operation release now_ns = Inr starts"
    using accept_synchronize_D [of s operation tid release now_ns u s']
    by (auto simp: accept_request_def)
  with Synchronize show ?thesis
    by (cases release) (auto simp: validate_release_deadline_def deadline_iffs deadline_limit_def)
next
  case (TransferToPhysicalDebt operation token generation deadline)
  with acc show ?thesis
    by (auto simp: accept_request_def accept_transfer_def deadline_iffs deadline_limit_def)
next
  case (PhysicalReleaseCommitted sequence token generation deadline)
  with acc show ?thesis
    by (auto simp: accept_request_def accept_physical_release_def deadline_iffs deadline_limit_def)
qed (use acc in \<open>auto simp: accept_request_def accept_cancel_and_drain_def deadline_iffs
      deadline_limit_def\<close>)

subsection \<open>Debts leave only with evidence of a release\<close>

definition debts :: "protocol_state \<Rightarrow> prepared_token set" where
  "debts s = set (map tr_token (filter (\<lambda>t. tr_state t \<noteq> TokPrepared) (tokens s)))"

text \<open>
  A call is release evidence for a token when it completes the synchronization of that token's
  key-up, or commits the physical release of the generation the debt was transferred to.
\<close>

fun releases :: "protocol_state \<Rightarrow> protocol_call \<Rightarrow> prepared_token \<Rightarrow> bool" where
  "releases s (CallCompleteSynchronize tid) token =
     (tid = token_id token \<and>
      (case pending_sync s of
         None \<Rightarrow> False
       | Some p \<Rightarrow> sy_token_id p = tid \<and> sy_kind p = SyncUp \<and> sy_accepted p))"
| "releases s (CallAccept sequence (PhysicalReleaseCommitted release_sequence released generation deadline) now_ns)
     token =
     (released = token \<and>
      (\<exists>t \<in> set (tokens s). tr_token t = token \<and> tr_state t = PhysicalDebt generation))"
| "releases s c token = False"

lemma debts_iff: "token \<in> debts s \<longleftrightarrow> (\<exists>t \<in> set (tokens s). tr_token t = token \<and> tr_state t \<noteq> TokPrepared)"
  by (auto simp: debts_def)

lemma debts_cong: "tokens s' = tokens s \<Longrightarrow> debts s' = debts s"
  by (simp add: debts_def)

lemma debts_remove:
  assumes "token \<in> debts s" and "tokens s' = remove_at i (tokens s)" and "i < length (tokens s)"
    and "tr_token (tokens s ! i) \<noteq> token"
  shows "token \<in> debts s'"
proof -
  from assms(1) obtain t where t: "t \<in> set (tokens s)" "tr_token t = token" "tr_state t \<noteq> TokPrepared"
    by (auto simp: debts_iff)
  have "set (tokens s) = insert (tokens s ! i) (set (remove_at i (tokens s)))"
    by (subst split_at [OF assms(3)]) (auto simp: remove_at_def)
  with t assms(2,4) show ?thesis by (auto simp: debts_iff)
qed

lemma debts_move:
  assumes "token \<in> debts s" and "tokens s' = (tokens s)[i := (tokens s ! i)\<lparr>tr_state := x\<rparr>]"
    and "i < length (tokens s)" and "x \<noteq> TokPrepared"
  shows "token \<in> debts s'"
proof -
  from assms(1) obtain j where j: "j < length (tokens s)" "tr_token (tokens s ! j) = token"
      "tr_state (tokens s ! j) \<noteq> TokPrepared"
    by (auto simp: debts_iff in_set_conv_nth)
  then have "tr_token (tokens s' ! j) = token" "tr_state (tokens s' ! j) \<noteq> TokPrepared"
    using assms(2-4) by (auto simp: nth_list_update)
  moreover have "tokens s' ! j \<in> set (tokens s')"
    using j(1) assms(2) by (intro nth_mem) simp
  ultimately show ?thesis by (auto simp: debts_iff)
qed

lemma tokens_release_deadline [simp]:
  "tokens (case release of CleanupDeadline ns \<Rightarrow> apply_cleanup_deadline s ns starts
           | MutationDeadline _ \<Rightarrow> s) = tokens s"
  by (cases release) simp_all

lemma accept_request_debts:
  assumes debt: "token \<in> debts s" and acc: "accept_request s req now_ns = (Inr u, s')"
    and lost: "token \<notin> debts s'"
  shows "releases s (CallAccept sequence req now) token"
proof (cases req)
  case (ExecuteDown operation t deadline)
  with acc accept_execute_down_D [of s operation t deadline now_ns u s'] obtain i where
      "i < length (tokens s)" "tokens s' = (tokens s)[i := (tokens s ! i)\<lparr>tr_state := AttemptingDown\<rparr>]"
    by (auto simp: accept_request_def)
  with debts_move [OF debt] lost show ?thesis by blast
next
  case (TransferToPhysicalDebt operation t generation deadline)
  with acc obtain i where
      "i < length (tokens s)" "tokens s' = (tokens s)[i := (tokens s ! i)\<lparr>tr_state := PhysicalDebt generation\<rparr>]"
    by (clarsimp simp: accept_request_def accept_transfer_def dest!: find_token_Inr)
  with debts_move [OF debt] lost show ?thesis by blast
next
  case (PhysicalReleaseCommitted release_sequence t generation deadline)
  with acc obtain i where i: "i < length (tokens s)" "tokens s' = remove_at i (tokens s)"
      "tr_token (tokens s ! i) = t" "tr_state (tokens s ! i) = PhysicalDebt generation"
    by (clarsimp simp: accept_request_def accept_physical_release_def dest!: find_token_Inr)
  with debts_remove [OF debt i(2,1)] lost have "t = token" by auto
  with i nth_mem [OF i(1)] PhysicalReleaseCommitted show ?thesis by auto
next
  case (KeyUp operation t release)
  with acc accept_key_up_D [of s operation t release now_ns u s'] have "tokens s' = tokens s"
    by (auto simp: accept_request_def)
  with debt lost show ?thesis by (simp add: debts_def)
next
  case (Synchronize operation tid release)
  with acc accept_synchronize_D [of s operation tid release now_ns u s'] have "tokens s' = tokens s"
    by (auto simp: accept_request_def)
  with debt lost show ?thesis by (simp add: debts_def)
qed (use acc debt lost in \<open>auto simp: accept_request_def accept_prepare_def
      accept_cancel_and_drain_def debts_def Let_def split: if_splits\<close>)

lemma complete_synchronize_debts:
  assumes debt: "token \<in> debts s" and acc: "complete_synchronize s tid = (Inr u, s')"
  shows "token \<in> debts s' \<or> releases s (CallCompleteSynchronize tid) token"
proof -
  from complete_synchronize_D [OF acc] obtain p where
      p: "pending_sync s = Some p" "sy_token_id p = tid" "sy_accepted p"
    and cases: "tokens s' = tokens s \<or>
      (\<exists>i. sy_kind p = SyncUp \<and> position (\<lambda>t. tr_id t = tid) (tokens s) = Some i \<and>
           tokens s' = remove_at i (tokens s))"
    by auto
  from cases show ?thesis
  proof (elim disjE exE conjE)
    assume "tokens s' = tokens s"
    with debt show ?thesis by (simp add: debts_def)
  next
    fix i
    assume kind: "sy_kind p = SyncUp" and i: "position (\<lambda>t. tr_id t = tid) (tokens s) = Some i"
      and toks: "tokens s' = remove_at i (tokens s)"
    from position_SomeD [OF i] have "i < length (tokens s)" "tr_id (tokens s ! i) = tid" by simp_all
    with debts_remove [OF debt toks] p kind show ?thesis
      by (cases "tr_token (tokens s ! i) = token") auto
  qed
qed

lemma step_debts:
  assumes inv: "protocol_inv s" and debt: "token \<in> debts s"
    and lost: "token \<notin> debts (protocol_step s c)"
  shows "releases s c token"
proof (cases c)
  case (CallAccept sequence req now_ns)
  show ?thesis
  proof (cases "accept s sequence req now_ns")
    case (Pair r s')
    show ?thesis
    proof (cases r)
      case (Inl e)
      with Pair have "s' = s" using accept_atomic atomic_onD by metis
      with Pair CallAccept debt lost show ?thesis by simp
    next
      case (Inr u)
      with Pair obtain s1 where "accept_request s req now_ns = (Inr (), s1)"
          "s' = s1\<lparr>last_sequence := sequence\<rparr>"
        by (auto simp: accept_Inr)
      moreover have "token \<notin> debts s1"
        using lost Pair CallAccept calculation(2) by (simp add: debts_def)
      ultimately show ?thesis
        using accept_request_debts [OF debt] CallAccept by blast
    qed
  qed
next
  case (CallRecordPrepared operation t)
  have "token \<in> debts s'" if "record_prepared s operation t = (Inr u, s')" for u s'
    using record_prepared_D [OF that] debt by (auto simp: debts_def)
  then have "token \<in> debts (protocol_step s c)"
    unfolding CallRecordPrepared protocol_step.simps
    by (rule atomic_on_inv [where P = "\<lambda>x. token \<in> debts x", OF record_atomic(1) debt])
  with lost show ?thesis by simp
next
  case (CallRecordDownAttempt tid)
  have "token \<in> debts s'" if rec: "record_down_attempt s tid = (Inr u, s')" for u s'
  proof -
    from rec obtain i where "i < length (tokens s)"
      "tokens s' = (tokens s)[i := (tokens s ! i)\<lparr>tr_state := PossiblyDown\<rparr>]"
      by (clarsimp simp: record_down_attempt_def dest!: position_SomeD)
    then show ?thesis using debts_move [OF debt] by blast
  qed
  then have "token \<in> debts (protocol_step s c)"
    unfolding CallRecordDownAttempt protocol_step.simps
    by (rule atomic_on_inv [where P = "\<lambda>x. token \<in> debts x", OF record_atomic(2) debt])
  with lost show ?thesis by simp
next
  case (CallCompleteSynchronize tid)
  have "token \<in> debts s' \<or> releases s c token" if acc: "complete_synchronize s tid = (Inr u, s')" for u s'
    using complete_synchronize_debts [OF debt acc] CallCompleteSynchronize by blast
  then have "token \<in> debts (protocol_step s c) \<or> releases s c token"
    unfolding CallCompleteSynchronize protocol_step.simps
    by (rule atomic_on_inv [where P = "\<lambda>x. token \<in> debts x \<or> releases s (CallCompleteSynchronize tid) token",
          OF record_atomic(3) disjI1 [OF debt]])
  with lost show ?thesis by simp
next
  case CallBeginTerminal
  with debt lost show ?thesis by (auto simp: debts_def begin_terminal_def)
qed

lemma run_debts:
  assumes "protocol_inv s" and "token \<in> debts s" and "token \<notin> debts (foldl protocol_step s cs)"
  shows "\<exists>before c after. cs = before @ c # after \<and> releases (foldl protocol_step s before) c token"
  using assms
proof (induction cs arbitrary: s)
  case (Cons c cs)
  show ?case
  proof (cases "token \<in> debts (protocol_step s c)")
    case True
    with Cons protocol_step_inv obtain before d after where
      "cs = before @ d # after" "releases (foldl protocol_step (protocol_step s c) before) d token"
      by fastforce
    then have "c # cs = (c # before) @ d # after \<and> releases (foldl protocol_step s (c # before)) d token"
      by simp
    then show ?thesis by blast
  next
    case False
    with Cons.prems have "releases s c token" by (blast intro: step_debts)
    then have "c # cs = [] @ c # cs \<and> releases (foldl protocol_step s []) c token" by simp
    then show ?thesis by blast
  qed
qed simp

subsection \<open>A mutation in flight can be finished\<close>

lemma accept_synchronize_ok:
  assumes "pending_sync s = Some p" and "\<not> sy_accepted p" and "active_operation s = Some (sy_operation p)"
    and "sy_operation p \<noteq> 0" and "sy_token_id p \<noteq> 0"
    and "sy_kind p = SyncDown \<Longrightarrow> \<exists>t. find (\<lambda>t. tr_id t = sy_token_id p) (tokens s) = Some t \<and> tr_state t = PossiblyDown"
    and "validate_release_deadline s (sy_operation p) release now_ns = Inr starts"
  shows "accept_synchronize s (sy_operation p) (sy_token_id p) release now_ns =
    (Inr (), (case release of CleanupDeadline ns \<Rightarrow> apply_cleanup_deadline s ns starts
           | MutationDeadline _ \<Rightarrow> s)\<lparr>pending_sync := Some (p\<lparr>sy_accepted := True\<rparr>)\<rparr>)"
  using assms by (auto simp: accept_synchronize_def validate_active_operation_def ensure_def Let_def
      split: if_splits)


lemma validate_mutation_release:
  assumes "\<not> terminal s" and "active_operation s = Some operation" and "operation_deadline s = Some deadline"
    and "deadline_in_window now_ns deadline MAX_TRANSACTION_TIMEOUT_NS"
  shows "validate_release_deadline s operation (MutationDeadline deadline) now_ns = Inr False"
  using assms by (simp add: validate_release_deadline_def validate_operation_deadline_def deadline_iffs)


lemma tracked_ids_nonzero:
  assumes "protocol_inv s" and "pending_sync s = Some p"
  shows "sy_operation p \<noteq> 0" "sy_token_id p \<noteq> 0" "active_operation s = Some (sy_operation p)"
    "\<exists>t \<in> set (tokens s). tr_id t = sy_token_id p"
  using assms by (force simp: protocol_inv_def sync_inv_def token_inv_def operation_inv_def)+

text \<open>
  A mutation in flight is finished by one synchronize under a valid deadline: a down leaves the
  tokens as they are, an up removes its token and no other.
\<close>

lemma synchronize_cycle:
  assumes inv: "protocol_inv s" and p: "pending_sync s = Some p" "\<not> sy_accepted p"
    and finished: "sy_kind p = SyncDown \<Longrightarrow> \<exists>t \<in> set (tokens s). tr_id t = sy_token_id p \<and> tr_state t = PossiblyDown"
    and valid: "validate_release_deadline s (sy_operation p) release now_ns = Inr starts"
    and later: "last_sequence s < n"
  shows "\<exists>s3 s4. accept s n (Synchronize (sy_operation p) (sy_token_id p) release) now_ns = (Inr (), s3) \<and>
    complete_synchronize s3 (sy_token_id p) = (Inr (), s4) \<and> pending_sync s4 = None \<and>
    pending_prepare s4 = pending_prepare s \<and>
    tokens s4 = (if sy_kind p = SyncDown then tokens s else filter (\<lambda>t. tr_id t \<noteq> sy_token_id p) (tokens s))"
proof -
  note ids = tracked_ids_nonzero [OF inv p(1)]
  have dist: "distinct (map tr_id (tokens s))" using inv by (simp add: protocol_inv_def)
  let ?s1 = "case release of CleanupDeadline ns \<Rightarrow> apply_cleanup_deadline s ns starts | MutationDeadline _ \<Rightarrow> s"
  let ?s3 = "?s1\<lparr>pending_sync := Some (p\<lparr>sy_accepted := True\<rparr>), last_sequence := n\<rparr>"
  have found: "sy_kind p = SyncDown \<Longrightarrow>
      \<exists>t. find (\<lambda>t. tr_id t = sy_token_id p) (tokens s) = Some t \<and> tr_state t = PossiblyDown"
    using finished find_unique_key [OF dist] by metis
  have "accept_request s (Synchronize (sy_operation p) (sy_token_id p) release) now_ns =
      (Inr (), ?s1\<lparr>pending_sync := Some (p\<lparr>sy_accepted := True\<rparr>)\<rparr>)"
    using accept_synchronize_ok [OF p ids(3,1,2) found valid] by (simp add: accept_request_def)
  then have acc: "accept s n (Synchronize (sy_operation p) (sy_token_id p) release) now_ns = (Inr (), ?s3)"
    using later by (simp add: accept_Inr)
  have prep: "pending_prepare ?s1 = pending_prepare s" by (cases release) simp_all
  show ?thesis
  proof (cases "sy_kind p")
    case SyncDown
    then have "complete_synchronize ?s3 (sy_token_id p) = (Inr (), ?s3\<lparr>pending_sync := None\<rparr>)"
      by (simp add: complete_synchronize_def ensure_def)
    with acc SyncDown prep show ?thesis
      by - (rule exI [of _ ?s3], rule exI [of _ "?s3\<lparr>pending_sync := None\<rparr>"], simp)
  next
    case SyncUp
    from ids(4) obtain i where i: "position (\<lambda>t. tr_id t = sy_token_id p) (tokens s) = Some i"
      by (metis (mono_tags, lifting) position_exists)
    with SyncUp have "complete_synchronize ?s3 (sy_token_id p) =
        (Inr (), ?s3\<lparr>tokens := remove_at i (tokens s), pending_sync := None\<rparr>)"
      by (simp add: complete_synchronize_def ensure_def)
    with acc SyncUp prep remove_at_filter [OF dist i] show ?thesis
      by - (rule exI [of _ ?s3], rule exI [of _ "?s3\<lparr>tokens := remove_at i (tokens s), pending_sync := None\<rparr>"],
        simp)
  qed
qed

lemma execute_down_then_attempt:
  assumes inv: "protocol_inv s"
    and acc: "accept s n (ExecuteDown operation token deadline) now_ns = (Inr (), s1)"
  shows "\<exists>s2 i. record_down_attempt s1 (token_id token) = (Inr (), s2) \<and> i < length (tokens s) \<and>
    tr_token (tokens s ! i) = token \<and> tr_state (tokens s ! i) = TokPrepared \<and>
    tokens s2 = (tokens s)[i := (tokens s ! i)\<lparr>tr_state := PossiblyDown\<rparr>] \<and>
    pending_sync s2 = Some \<lparr>sy_operation = operation, sy_token_id = token_id token,
      sy_kind = SyncDown, sy_accepted = False\<rparr> \<and> pending_prepare s2 = None \<and>
    last_sequence s2 = n \<and> \<not> terminal s2 \<and> active_operation s2 = Some operation \<and>
    operation_deadline s2 = Some deadline"
proof -
  let ?p = "\<lparr>sy_operation = operation, sy_token_id = token_id token, sy_kind = SyncDown, sy_accepted = False\<rparr>"
  from acc obtain r where req: "accept_execute_down s operation token deadline now_ns = (Inr (), r)"
    and s1: "s1 = r\<lparr>last_sequence := n\<rparr>"
    by (auto simp: accept_Inr accept_request_def)
  from accept_execute_down_D [OF req] obtain i where
    live: "\<not> terminal s" "active_operation s = Some operation" "\<not> in_flight s"
    and i: "i < length (tokens s)" "tr_token (tokens s ! i) = token" "tr_state (tokens s ! i) = TokPrepared"
    and r: "r = s\<lparr>tokens := (tokens s)[i := (tokens s ! i)\<lparr>tr_state := AttemptingDown\<rparr>], pending_sync := Some ?p\<rparr>"
    by auto
  from req have opd: "operation_deadline s = Some deadline"
    by (clarsimp simp: accept_execute_down_def validate_operation_deadline_def)
  have "distinct (map tr_id (tokens s1))"
    using inv i(1) by (simp add: s1 r protocol_inv_def map_tr_id_update)
  from position_unique_key [OF this, of i] i
  have "position (\<lambda>t. tr_id t = token_id token) (tokens s1) = Some i" by (simp add: s1 r)
  with i have "record_down_attempt s1 (token_id token) =
      (Inr (), s1\<lparr>tokens := (tokens s)[i := (tokens s ! i)\<lparr>tr_state := PossiblyDown\<rparr>]\<rparr>)" (is "_ = (_, ?s2)")
    by (simp add: record_down_attempt_def s1 r ensure_def)
  with i live opd show ?thesis
    by - (rule exI [of _ ?s2], rule exI [of _ i], simp add: s1 r in_flight_def)
qed

lemma key_up_in_flight:
  assumes inv: "protocol_inv s"
    and acc: "accept s n (KeyUp operation token release) now_ns = (Inr (), s1)"
  shows "tokens s1 = tokens s \<and> token \<in> tr_token ` set (tokens s) \<and> last_sequence s1 = n \<and>
    pending_prepare s1 = None \<and>
    pending_sync s1 = Some \<lparr>sy_operation = operation, sy_token_id = token_id token,
      sy_kind = SyncUp, sy_accepted = False\<rparr>"
proof -
  from acc obtain r where req: "accept_key_up s operation token release now_ns = (Inr (), r)"
    and s1: "s1 = r\<lparr>last_sequence := n\<rparr>"
    by (auto simp: accept_Inr accept_request_def)
  have "pending_prepare (case release of CleanupDeadline ns \<Rightarrow> apply_cleanup_deadline s ns b
           | MutationDeadline _ \<Rightarrow> s) = pending_prepare s" for b
    by (cases release) simp_all
  with accept_key_up_D [OF req] s1 show ?thesis by (auto simp: in_flight_def)
qed

text \<open>A release deadline that admitted the key-up still admits its synchronize.\<close>

lemma key_up_release_valid:
  assumes inv: "protocol_inv s"
    and acc: "accept s n (KeyUp operation token release) now1 = (Inr (), s1)"
    and window: "deadline_in_window now2 (request_deadline (KeyUp operation token release))
       (deadline_limit (KeyUp operation token release))"
  shows "\<exists>b. validate_release_deadline s1 operation release now2 = Inr b"
proof -
  from acc obtain r where req: "accept_key_up s operation token release now1 = (Inr (), r)"
    and s1: "s1 = r\<lparr>last_sequence := n\<rparr>"
    by (auto simp: accept_Inr accept_request_def)
  from accept_key_up_D [OF req] obtain starts where
      active: "active_operation s = Some operation"
    and valid: "validate_release_deadline s operation release now1 = Inr starts"
    and r: "r = (case release of CleanupDeadline ns \<Rightarrow> apply_cleanup_deadline s ns starts
           | MutationDeadline _ \<Rightarrow> s)
       \<lparr>pending_sync := Some \<lparr>sy_operation = operation, sy_token_id = token_id token,
         sy_kind = SyncUp, sy_accepted = False\<rparr>\<rparr>"
    by blast
  show ?thesis
  proof (cases release)
    case (MutationDeadline d)
    with valid window active show ?thesis
      by (auto simp: s1 r validate_release_deadline_def validate_operation_deadline_def
          deadline_iffs deadline_limit_def)
  next
    case (CleanupDeadline d)
    with valid window show ?thesis
      by (auto simp: s1 r validate_release_deadline_def deadline_iffs deadline_limit_def
          apply_cleanup_deadline_def)
  qed
qed

lemma filter_other_tokens:
  assumes "protocol_inv s" and "token \<in> tr_token ` set (tokens s)"
  shows "filter (\<lambda>t. tr_id t \<noteq> token_id token) (tokens s) = filter (\<lambda>t. tr_token t \<noteq> token) (tokens s)"
proof (rule filter_cong [OF refl])
  from assms obtain u where u: "u \<in> set (tokens s)" "tr_token u = token" by auto
  fix t assume "t \<in> set (tokens s)"
  then show "(tr_id t \<noteq> token_id token) = (tr_token t \<noteq> token)"
    using same_id_same_token [of "tokens s" t u] u assms(1) by (auto simp: protocol_inv_def)
qed

subsection \<open>Properties\<close>

text \<open>
  C3: resource bounds.  In every state the guardian reaches from a completed handshake, by any
  sequence of calls, there are at most 512 tracked tokens and 32 debts, token identifiers are
  distinct and nonzero, every token belongs to this session and epoch, at most one of a prepare
  and a mutation is in flight, and only the active operation has tokens that are not yet
  physical debts.
\<close>

theorem session_bounded:
  assumes "ready_after_handshake session n = Inr s0"
  shows "let s = foldl protocol_step s0 cs in
    length (tokens s) \<le> 512 \<and> debt_count s \<le> 32 \<and> distinct (map tr_id (tokens s)) \<and>
    (pending_prepare s = None \<or> pending_sync s = None) \<and>
    (\<forall>t \<in> set (tokens s). tr_id t \<noteq> 0 \<and> tok_session (tr_token t) = ps_session session \<and>
       tok_epoch (tr_token t) = ps_epoch session \<and>
       (is_physical_debt (tr_state t) \<or> active_operation s = Some (tr_operation t)))"
proof -
  let ?s = "foldl protocol_step s0 cs"
  have inv: "protocol_inv ?s"
    by (rule guardian.inv_run [OF ready_after_handshake_inv [OF assms]])
  have "st_session s0 = session"
    using assms by (auto simp: ready_after_handshake_def ready_def split: if_splits)
  then have "st_session ?s = session"
    using guardian_order.rel_run [of s0 cs] by (simp add: protocol_grows_def)
  with inv show ?thesis
    by (auto simp: Let_def protocol_inv_def token_inv_def MAX_PREPARED_TOKENS_def MAX_ACTIVE_DEBTS_def)
qed

theorem session_bounded_witness:
  "length (tokens (foldl protocol_step sample_start
      [CallAccept 2 (PrepareKey 1 30 2000) 1000, CallRecordPrepared 1 (sample_token 7)])) = 1 \<and>
   length (tokens (foldl protocol_step sample_start
      [CallAccept 2 (PrepareKey 1 30 2000) 1000, CallRecordPrepared 1 (sample_token 7)])) \<le> 512"
proof
  show "length (tokens (foldl protocol_step sample_start
      [CallAccept 2 (PrepareKey 1 30 2000) 1000, CallRecordPrepared 1 (sample_token 7)])) = 1"
    by code_simp
  show "length (tokens (foldl protocol_step sample_start
      [CallAccept 2 (PrepareKey 1 30 2000) 1000, CallRecordPrepared 1 (sample_token 7)])) \<le> 512"
    using session_bounded [OF sample_start_ready] unfolding Let_def by blast
qed

text \<open>
  A request either is accepted with a fresh sequence number, which becomes the last one, or
  is refused and leaves the whole protocol state as it was.
\<close>

theorem accept_fresh_or_unchanged:
  "case accept s sequence req now_ns of
     (Inl e, s') \<Rightarrow> s' = s
   | (Inr _, s') \<Rightarrow> last_sequence s < sequence \<and> last_sequence s' = sequence"
proof (cases "accept s sequence req now_ns")
  case (Pair r s')
  have "r = Inl e \<Longrightarrow> s' = s" for e
    using Pair atomic_onD [OF accept_atomic] by blast
  moreover have "r = Inr u \<Longrightarrow> last_sequence s < sequence \<and> last_sequence s' = sequence" for u
    using Pair by (auto simp: accept_Inr)
  ultimately show ?thesis
    using Pair by (cases r) simp_all
qed

text \<open>
  No replay.  Once a request with sequence number n was accepted, every request with a
  sequence number up to n is refused for the rest of the session, whatever happens in between.
\<close>

theorem replay_refused:
  assumes "accept s n req now_ns = (Inr (), s')" and "m \<le> n"
  shows "accept (foldl protocol_step s' cs) m req' now' =
    (Inl (protocol_error ''XTEST guardian request sequence is stale or zero''), foldl protocol_step s' cs)"
proof -
  have "last_sequence s' = n" using assms(1) by (auto simp: accept_Inr)
  then have "m \<le> last_sequence (foldl protocol_step s' cs)"
    using guardian_order.rel_run [of s' cs] assms(2) by (auto simp: protocol_grows_def)
  then show ?thesis by (simp add: accept_def)
qed

theorem replay_refused_witness:
  "accept sample_start 2 (PrepareKey 1 30 2000) 1000 =
     (Inr (), protocol_step sample_start (CallAccept 2 (PrepareKey 1 30 2000) 1000)) \<and>
   fst (accept (foldl protocol_step (protocol_step sample_start (CallAccept 2 (PrepareKey 1 30 2000) 1000))
          [CallRecordPrepared 1 (sample_token 7)]) 2 (PrepareKey 1 30 2000) 1500) =
     Inl (protocol_error ''XTEST guardian request sequence is stale or zero'')"
proof -
  have "accept sample_start 2 (PrepareKey 1 30 2000) 1000 =
     (Inr (), protocol_step sample_start (CallAccept 2 (PrepareKey 1 30 2000) 1000))"
    by code_simp
  then show ?thesis using replay_refused [of _ 2 _ _ _ 2] by (metis fst_conv order_refl)
qed

text \<open>
  C15: deadlines.  Every accepted request has its deadline strictly in the future and at most
  five seconds (a mutation) or one second (a cleanup) away, computed without wrap-around.
\<close>

theorem accepted_deadline_in_window:
  assumes "accept s n req now_ns = (Inr (), s')"
  shows "unat now_ns < unat (request_deadline req) \<and>
    unat (request_deadline req) \<le> unat now_ns + (if normal_mutation req then 5000000000 else 1000000000)"
proof -
  from assms obtain s1 where "accept_request s req now_ns = (Inr (), s1)" by (auto simp: accept_Inr)
  from accept_request_deadline [OF this] show ?thesis
    by (simp add: deadline_in_window_def deadline_limit_def MAX_TRANSACTION_TIMEOUT_NS_def
        MAX_RELEASE_CLEANUP_NS_def split: if_splits)
qed

theorem accepted_deadline_in_window_witness:
  "accept sample_start 2 (PrepareKey 1 30 2000) 1000 =
     (Inr (), protocol_step sample_start (CallAccept 2 (PrepareKey 1 30 2000) 1000)) \<and>
   unat (1000 :: u64) < unat (request_deadline (PrepareKey 1 30 2000))"
proof -
  have "accept sample_start 2 (PrepareKey 1 30 2000) 1000 =
     (Inr (), protocol_step sample_start (CallAccept 2 (PrepareKey 1 30 2000) 1000))"
    by code_simp
  then show ?thesis using accepted_deadline_in_window by blast
qed

text \<open>
  C5: the terminal transition is final.  After it, no request under a mutation deadline is ever
  accepted again, and the cleanup deadline that was set is never replaced.
\<close>

theorem terminal_is_final:
  assumes "terminal s" and "normal_mutation req"
  shows "let s' = foldl protocol_step s cs in
    terminal s' \<and> (\<exists>e. accept s' n req now_ns = (Inl e, s')) \<and>
    (\<forall>d. cleanup_deadline s = Some d \<longrightarrow> cleanup_deadline s' = Some d)"
proof -
  let ?s = "foldl protocol_step s cs"
  have grows: "protocol_grows s ?s" by (rule guardian_order.rel_run)
  then have "terminal ?s" using assms(1) by (simp add: protocol_grows_def)
  moreover have "\<exists>e. accept ?s n req now_ns = (Inl e, ?s)"
  proof (cases "accept ?s n req now_ns")
    case (Pair r s')
    have "\<not> (\<exists>u. r = Inr u)"
      using Pair accept_request_deadline \<open>terminal ?s\<close> assms(2) by (auto simp: accept_Inr)
    then obtain e where "r = Inl e" by (cases r) auto
    with Pair show ?thesis using atomic_onD [OF accept_atomic] by blast
  qed
  ultimately show ?thesis
    using grows by (simp add: protocol_grows_def Let_def)
qed

theorem terminal_is_final_witness:
  "terminal (begin_terminal sample_down) \<and>
   (\<exists>e. accept (foldl protocol_step (begin_terminal sample_down) []) 9 (PrepareKey 2 30 2000) 1000 =
      (Inl e, foldl protocol_step (begin_terminal sample_down) []))"
proof -
  have "terminal (begin_terminal sample_down)" by (simp add: begin_terminal_def)
  then show ?thesis
    using terminal_is_final [of "begin_terminal sample_down" "PrepareKey 2 30 2000" "[]" 9 1000]
    by (simp add: Let_def)
qed



text \<open>
  The down cycle completes.  When a key-down request is accepted, recording the attempt
  succeeds, a synchronize under the operation's deadline is then accepted and completes, and
  afterwards the key is a debt of the session and nothing is in flight.  The "lost its token"
  errors of the code cannot occur on this path.
\<close>

theorem down_cycle_completes:
  assumes inv: "protocol_inv s"
    and acc: "accept s n1 (ExecuteDown operation token deadline) now1 = (Inr (), s1)"
    and later: "n1 < n2" and window: "deadline_in_window now2 deadline MAX_TRANSACTION_TIMEOUT_NS"
  shows "\<exists>s2 s3 s4. record_down_attempt s1 (token_id token) = (Inr (), s2) \<and>
    accept s2 n2 (Synchronize operation (token_id token) (MutationDeadline deadline)) now2 = (Inr (), s3) \<and>
    complete_synchronize s3 (token_id token) = (Inr (), s4) \<and>
    token \<in> debts s4 \<and> debt_count s4 = Suc (debt_count s) \<and> \<not> in_flight s4"
proof -
  let ?p = "\<lparr>sy_operation = operation, sy_token_id = token_id token, sy_kind = SyncDown, sy_accepted = False\<rparr>"
  obtain s2 i where rda: "record_down_attempt s1 (token_id token) = (Inr (), s2)"
    and i: "i < length (tokens s)" "tr_token (tokens s ! i) = token" "tr_state (tokens s ! i) = TokPrepared"
    and toks: "tokens s2 = (tokens s)[i := (tokens s ! i)\<lparr>tr_state := PossiblyDown\<rparr>]"
    and s2: "pending_sync s2 = Some ?p" "pending_prepare s2 = None" "last_sequence s2 = n1" "\<not> terminal s2"
      "active_operation s2 = Some operation" "operation_deadline s2 = Some deadline"
    using execute_down_then_attempt [OF inv acc] by blast
  have inv2: "protocol_inv s2"
    using record_down_attempt_inv [OF accept_inv [OF inv acc] rda] .
  have t: "(tokens s ! i)\<lparr>tr_state := PossiblyDown\<rparr> \<in> set (tokens s2)"
    using i(1) by (simp add: toks moved_token_in)
  obtain s3 s4 where "accept s2 n2 (Synchronize operation (token_id token) (MutationDeadline deadline)) now2 = (Inr (), s3)"
    "complete_synchronize s3 (token_id token) = (Inr (), s4)"
    and s4: "tokens s4 = tokens s2" "pending_sync s4 = None" "pending_prepare s4 = None"
    using synchronize_cycle [OF inv2 s2(1) _ _ validate_mutation_release [OF s2(4) _ s2(6) window]]
      s2 later i(2) t by fastforce
  moreover have "debt_count s4 = Suc (debt_count s)"
    using debt_count_move [OF i(1) toks] i(3) s4(1) by (simp add: debt_count_def)
  moreover have "token \<in> debts s4"
    using t i(2) s4(1) by (auto simp: debts_iff intro!: bexI [OF _ t])
  ultimately show ?thesis
    using rda s4 by (auto simp: in_flight_def)
qed


theorem down_cycle_completes_witness:
  "\<exists>s2 s3 s4. record_down_attempt
      (protocol_step sample_prepared (CallAccept 3 (ExecuteDown 1 (sample_token 7) 2000) 1000)) 7 = (Inr (), s2) \<and>
    accept s2 4 (Synchronize 1 7 (MutationDeadline 2000)) 1500 = (Inr (), s3) \<and>
    complete_synchronize s3 7 = (Inr (), s4) \<and> sample_token 7 \<in> debts s4 \<and>
    debt_count s4 = Suc 0 \<and> \<not> in_flight s4"
proof -
  have acc: "accept sample_prepared 3 (ExecuteDown 1 (sample_token 7) 2000) 1000 =
     (Inr (), protocol_step sample_prepared (CallAccept 3 (ExecuteDown 1 (sample_token 7) 2000) 1000))"
    by code_simp
  have window: "deadline_in_window 1500 2000 MAX_TRANSACTION_TIMEOUT_NS"
    by (simp add: deadline_in_window_def MAX_TRANSACTION_TIMEOUT_NS_def)
  have order: "(3 :: u64) < 4" by simp
  have eqs: "debt_count sample_prepared = 0" "token_id (sample_token 7) = 7" by code_simp+
  show ?thesis
    using down_cycle_completes [OF sample_inv(2) acc order window] unfolding eqs .
qed

text \<open>
  The up cycle completes.  When a key-up request is accepted, a synchronize within the same
  deadline is accepted and completes, and it removes exactly the released token from the session.
\<close>

theorem up_cycle_completes:
  assumes inv: "protocol_inv s"
    and acc: "accept s n1 (KeyUp operation token release) now1 = (Inr (), s1)"
    and later: "n1 < n2"
    and window: "deadline_in_window now2 (request_deadline (KeyUp operation token release))
       (deadline_limit (KeyUp operation token release))"
  shows "\<exists>s2 s3. accept s1 n2 (Synchronize operation (token_id token) release) now2 = (Inr (), s2) \<and>
    complete_synchronize s2 (token_id token) = (Inr (), s3) \<and>
    tokens s3 = filter (\<lambda>t. tr_token t \<noteq> token) (tokens s) \<and> \<not> in_flight s3"
proof -
  note s1 = key_up_in_flight [OF inv acc]
  have inv1: "protocol_inv s1" by (rule accept_inv [OF inv acc])
  obtain b where "validate_release_deadline s1 operation release now2 = Inr b"
    using key_up_release_valid [OF inv acc window] by blast
  then obtain s2 s3 where "accept s1 n2 (Synchronize operation (token_id token) release) now2 = (Inr (), s2)"
    "complete_synchronize s2 (token_id token) = (Inr (), s3)"
    "tokens s3 = filter (\<lambda>t. tr_id t \<noteq> token_id token) (tokens s)" "\<not> in_flight s3"
    using synchronize_cycle [OF inv1, of _ release now2 b n2] s1 later by (fastforce simp: in_flight_def)
  then show ?thesis
    using filter_other_tokens [OF inv] s1 by auto
qed

theorem up_cycle_completes_witness:
  "\<exists>s2 s3. accept (protocol_step sample_down (CallAccept 5 (KeyUp 1 (sample_token 7) (CleanupDeadline 2000)) 1000))
      6 (Synchronize 1 7 (CleanupDeadline 2000)) 1500 = (Inr (), s2) \<and>
    complete_synchronize s2 7 = (Inr (), s3) \<and>
    tokens s3 = filter (\<lambda>t. tr_token t \<noteq> sample_token 7) (tokens sample_down) \<and> \<not> in_flight s3"
proof -
  have acc: "accept sample_down 5 (KeyUp 1 (sample_token 7) (CleanupDeadline 2000)) 1000 =
     (Inr (), protocol_step sample_down (CallAccept 5 (KeyUp 1 (sample_token 7) (CleanupDeadline 2000)) 1000))"
    by code_simp
  have window: "deadline_in_window 1500 (request_deadline (KeyUp 1 (sample_token 7) (CleanupDeadline 2000)))
       (deadline_limit (KeyUp 1 (sample_token 7) (CleanupDeadline 2000)))"
    by (simp add: deadline_in_window_def deadline_limit_def MAX_RELEASE_CLEANUP_NS_def)
  have order: "(5 :: u64) < 6" by simp
  have eqs: "token_id (sample_token 7) = 7" by code_simp
  show ?thesis
    using up_cycle_completes [OF sample_inv(3) acc order window] unfolding eqs .
qed

end
