(* ===== verification/Guardian_Service.thy ===== *)
theory Guardian_Service
  imports Guardian_Safety
begin

text \<open>
  The guardian process: \<open>GuardianSession\<close> and the connection loop of
  src/src/daemon/xtest_guardian/service.rs.

  The \<open>XtestExecutor\<close> trait is a record of functions over the executor's state \<open>'x\<close>; the same
  state carries the process's monotonic clock and the connection, whose \<open>clock_gettime\<close> and
  \<open>send\<close> calls are the other two functions of \<open>guardian_env\<close>.  Every operation threads that
  state, so a call that fails may still have changed it.
\<close>

subsection \<open>Executor, clock and connection\<close>

record x11_server_identity =
  id_epoch :: server_epoch
  id_root :: u32
  id_epoch_window :: u32
  id_epoch_nonce :: "u8 list"

record 'x xtest_executor =
  server_identity :: "'x \<Rightarrow> x11_server_identity"
  exec_prepare_key :: "'x \<Rightarrow> u16 \<Rightarrow> (input_safety_error + (u8 \<times> server_epoch)) \<times> 'x"
  exec_key_down :: "'x \<Rightarrow> u8 \<Rightarrow> (input_safety_error + unit) \<times> 'x"
  exec_key_up :: "'x \<Rightarrow> u8 \<Rightarrow> (input_safety_error + unit) \<times> 'x"
  exec_synchronize :: "'x \<Rightarrow> (input_safety_error + unit) \<times> 'x"

record 'x guardian_env = "'x xtest_executor" +
  monotonic_now_ns :: "'x \<Rightarrow> u64 res \<times> 'x"
  send_frame :: "'x \<Rightarrow> u8 list \<Rightarrow> unit res \<times> 'x"

text \<open>The environment is passed with its record extension fixed to \<open>unit\<close>.\<close>

type_synonym 'x env = "'x guardian_env"

definition monotonic_now_ns_or_zero :: "'x env \<Rightarrow> 'x \<Rightarrow> u64 \<times> 'x" where
  "monotonic_now_ns_or_zero env x =
     (case monotonic_now_ns env x of (Inl _, x') \<Rightarrow> (0, x') | (Inr now, x') \<Rightarrow> (now, x'))"

subsection \<open>Session state\<close>

datatype stop_reason =
    PeerEof
  | StopSignal
  | StopProtocolViolation
  | StopBackendFailure
  | StopRequested
  | StopDrop

record terminal_record =
  rec_reason :: stop_reason
  rec_proof :: terminal_proof

record request_failure =
  rf_code :: fatal_code
  rf_reason :: stop_reason
  rf_error :: switcher_error

record 'x guardian_session =
  gs_executor :: 'x
  gs_protocol :: protocol_state
  next_token_id :: u64
  gs_terminal :: "terminal_record option"

type_synonym ('x, 'a) session_result = "(request_failure + 'a) \<times> 'x guardian_session"

subsection \<open>Failures\<close>

definition protocol_fatal_code :: "switcher_error \<Rightarrow> fatal_code" where
  "protocol_fatal_code e =
     (case e of
        InputSafety (OversizedFrame _ _) \<Rightarrow> FatalCapacityExceeded
      | InputSafety (Invariant context) \<Rightarrow>
          if str_contains ''expired'' context then FatalDeadlineExpired
          else if str_contains ''too far'' context then FatalDeadlineTooFar
          else if str_contains ''capacity'' context \<or> str_contains ''too large'' context
          then FatalCapacityExceeded
          else FatalProtocolViolation
      | _ \<Rightarrow> FatalProtocolViolation)"

definition failure_protocol :: "switcher_error \<Rightarrow> request_failure" where
  "failure_protocol e =
     \<lparr>rf_code = protocol_fatal_code e, rf_reason = StopProtocolViolation, rf_error = e\<rparr>"

definition failure_backend :: "input_safety_error \<Rightarrow> request_failure" where
  "failure_backend e =
     \<lparr>rf_code = FatalBackendFailure, rf_reason = StopBackendFailure, rf_error = InputSafety e\<rparr>"

fun wire_terminal_proof_of :: "terminal_proof \<Rightarrow> wire_terminal_proof" where
  "wire_terminal_proof_of Reconciled = WireReconciled"
| "wire_terminal_proof_of (OwnerGenerationDestroyed generation) =
     WireOwnerGenerationDestroyed generation"
| "wire_terminal_proof_of (Unreconciled remaining) =
     WireUnreconciled (if remaining < 2 ^ 16 then of_nat remaining else - 1)"

subsection \<open>Starting a session\<close>

definition ready_with_protocol ::
  "'x env \<Rightarrow> protocol_session \<Rightarrow> 'x \<Rightarrow> protocol_state \<Rightarrow> 'x guardian_session res" where
  "ready_with_protocol env session x protocol =
     (if id_epoch (server_identity env x) \<noteq> ps_epoch session
      then Inl (input_safety ''XTEST executor epoch does not match guardian session'')
      else Inr \<lparr>gs_executor = x, gs_protocol = protocol, next_token_id = 1, gs_terminal = None\<rparr>)"

definition session_ready_after_handshake ::
  "'x env \<Rightarrow> protocol_session \<Rightarrow> sequence_no \<Rightarrow> 'x \<Rightarrow> 'x guardian_session res" where
  "session_ready_after_handshake env session handshake_sequence x =
     and_then (ready_after_handshake session handshake_sequence) (ready_with_protocol env session x)"

definition ready_response :: "'x env \<Rightarrow> 'x guardian_session \<Rightarrow> response" where
  "ready_response env gs =
     (let identity = server_identity env (gs_executor gs)
      in Ready (ps_session (st_session (gs_protocol gs))) (id_epoch identity)
           (id_epoch_window identity) (id_epoch_nonce identity))"

definition validate_hello :: "u8 list \<Rightarrow> mutation_deadline_ns \<Rightarrow> u64 \<Rightarrow> unit res" where
  "validate_hello daemon_nonce deadline now_ns =
     (if list_all (\<lambda>b. b = 0) daemon_nonce
      then Inl (input_safety ''XTEST guardian daemon nonce must be nonzero'')
      else case checked_sub deadline now_ns of
        None \<Rightarrow> Inl (input_safety ''XTEST guardian hello deadline expired'')
      | Some delta \<Rightarrow>
          if delta = 0 then Inl (input_safety ''XTEST guardian hello deadline expired'')
          else if delta > MAX_TRANSACTION_TIMEOUT_NS
          then Inl (input_safety ''XTEST guardian hello deadline is too far in the future'')
          else Inr ())"

subsection \<open>Finishing a session\<close>

text \<open>The cleanup loop over the debts, newest first; it stops when the deadline has passed.\<close>

fun cleanup_loop ::
  "'x env \<Rightarrow> u64 \<Rightarrow> prepared_token list \<Rightarrow> 'x guardian_session \<Rightarrow> 'x guardian_session" where
  "cleanup_loop env deadline_ns [] gs = gs"
| "cleanup_loop env deadline_ns (token # ts) gs =
     (let (now1, x1) = monotonic_now_ns_or_zero env (gs_executor gs) in
      if now1 \<ge> deadline_ns then gs\<lparr>gs_executor := x1\<rparr>
      else
        let (released, x2) = exec_key_up env x1 (x11_keycode token);
            (now2, x3) = monotonic_now_ns_or_zero env x2 in
        if now2 \<ge> deadline_ns then gs\<lparr>gs_executor := x3\<rparr>
        else
          let (synchronized, x4) = exec_synchronize env x3 in
          cleanup_loop env deadline_ns ts
            (if is_ok released \<and> is_ok synchronized
             then gs\<lparr>gs_executor := x4,
                     gs_protocol := snd (acknowledge_cleanup_release (gs_protocol gs) (token_id token))\<rparr>
             else gs\<lparr>gs_executor := x4\<rparr>))"

definition finish_until ::
  "'x env \<Rightarrow> stop_reason \<Rightarrow> u64 \<Rightarrow> 'x guardian_session \<Rightarrow> terminal_proof \<times> 'x guardian_session" where
  "finish_until env reason deadline_ns gs =
     (case gs_terminal gs of
        Some record \<Rightarrow> (rec_proof record, gs)
      | None \<Rightarrow>
          let gs = gs\<lparr>gs_protocol := begin_terminal (gs_protocol gs)\<rparr>;
              gs = cleanup_loop env deadline_ns (cleanup_tokens_reverse (gs_protocol gs)) gs;
              remaining = debt_count (gs_protocol gs);
              proof = (if remaining = 0 then Reconciled else Unreconciled remaining)
          in (proof, gs\<lparr>gs_terminal := Some \<lparr>rec_reason = reason, rec_proof = proof\<rparr>\<rparr>))"

definition finish_with_clock ::
  "'x env \<Rightarrow> stop_reason \<Rightarrow> 'x guardian_session \<Rightarrow> terminal_proof \<times> 'x guardian_session" where
  "finish_with_clock env reason gs =
     (case gs_terminal gs of
        Some record \<Rightarrow> (rec_proof record, gs)
      | None \<Rightarrow>
          let (now, x) = monotonic_now_ns_or_zero env (gs_executor gs)
          in finish_until env reason (saturating_add now MAX_RELEASE_CLEANUP_NS)
               (gs\<lparr>gs_executor := x\<rparr>))"

definition finish_record ::
  "'x env \<Rightarrow> stop_reason \<Rightarrow> 'x guardian_session \<Rightarrow> terminal_record \<times> 'x guardian_session" where
  "finish_record env reason gs =
     (let gs = snd (finish_with_clock env reason gs)
      in (case gs_terminal gs of
            Some record \<Rightarrow> record
          | None \<Rightarrow> \<lparr>rec_reason = reason, rec_proof = Unreconciled (debt_count (gs_protocol gs))\<rparr>,
          gs))"

definition drop_session :: "'x env \<Rightarrow> 'x guardian_session \<Rightarrow> 'x guardian_session" where
  "drop_session env gs =
     (if gs_terminal gs = None then snd (finish_with_clock env StopDrop gs) else gs)"

subsection \<open>Handling a request\<close>

text \<open>The work for each request that the protocol has accepted.\<close>

definition serve_prepare ::
  "'x env \<Rightarrow> operation_id \<Rightarrow> u16 \<Rightarrow> 'x guardian_session \<Rightarrow> ('x, response) session_result" where
  "serve_prepare env operation code gs =
     (case exec_prepare_key env (gs_executor gs) code of
        (Inl e, x) \<Rightarrow> (Inl (failure_backend e), gs\<lparr>gs_executor := x\<rparr>)
      | (Inr (keycode, epoch), x) \<Rightarrow>
          let gs = gs\<lparr>gs_executor := x\<rparr> in
          if epoch \<noteq> id_epoch (server_identity env x)
          then (Inl (failure_backend
                  (Invariant ''XTEST mapping epoch changed during key preparation'')), gs)
          else
            let token = \<lparr>tok_session = ps_session (st_session (gs_protocol gs)), tok_epoch = epoch,
                  token_id = next_token_id gs, evdev_code = code, x11_keycode = keycode\<rparr> in
            case checked_add (next_token_id gs) 1 of
              None \<Rightarrow> (Inl (failure_backend
                        (Invariant ''XTEST guardian token identifier exhausted'')), gs)
            | Some next \<Rightarrow>
                let gs = gs\<lparr>next_token_id := next\<rparr> in
                case record_prepared (gs_protocol gs) operation token of
                  (Inl e, protocol) \<Rightarrow>
                    (Inl (failure_protocol e), gs\<lparr>gs_protocol := protocol\<rparr>)
                | (Inr _, protocol) \<Rightarrow>
                    (Inr (Prepared operation token), gs\<lparr>gs_protocol := protocol\<rparr>))"

definition serve_execute_down ::
  "'x env \<Rightarrow> operation_id \<Rightarrow> prepared_token \<Rightarrow> 'x guardian_session \<Rightarrow> ('x, response) session_result" where
  "serve_execute_down env operation token gs =
     (let (down_result, x) = exec_key_down env (gs_executor gs) (x11_keycode token) in
      case record_down_attempt (gs_protocol gs) (token_id token) of
        (Inl e, protocol) \<Rightarrow>
          (Inl (failure_protocol e), gs\<lparr>gs_executor := x, gs_protocol := protocol\<rparr>)
      | (Inr _, protocol) \<Rightarrow>
          (case down_result of
             Inl e \<Rightarrow> (Inl (failure_backend e), gs\<lparr>gs_executor := x, gs_protocol := protocol\<rparr>)
           | Inr _ \<Rightarrow> (Inr (DownAck operation (token_id token)),
                       gs\<lparr>gs_executor := x, gs_protocol := protocol\<rparr>)))"

definition serve_key_up ::
  "'x env \<Rightarrow> operation_id \<Rightarrow> prepared_token \<Rightarrow> 'x guardian_session \<Rightarrow> ('x, response) session_result" where
  "serve_key_up env operation token gs =
     (case exec_key_up env (gs_executor gs) (x11_keycode token) of
        (Inl e, x) \<Rightarrow> (Inl (failure_backend e), gs\<lparr>gs_executor := x\<rparr>)
      | (Inr _, x) \<Rightarrow> (Inr (UpAck operation (token_id token)), gs\<lparr>gs_executor := x\<rparr>))"

definition serve_synchronize ::
  "'x env \<Rightarrow> operation_id \<Rightarrow> u64 \<Rightarrow> 'x guardian_session \<Rightarrow> ('x, response) session_result" where
  "serve_synchronize env operation tid gs =
     (case exec_synchronize env (gs_executor gs) of
        (Inl e, x) \<Rightarrow> (Inl (failure_backend e), gs\<lparr>gs_executor := x\<rparr>)
      | (Inr _, x) \<Rightarrow>
          case complete_synchronize (gs_protocol gs) tid of
            (Inl e, protocol) \<Rightarrow>
              (Inl (failure_protocol e), gs\<lparr>gs_executor := x, gs_protocol := protocol\<rparr>)
          | (Inr _, protocol) \<Rightarrow>
              (Inr (SyncAck operation tid), gs\<lparr>gs_executor := x, gs_protocol := protocol\<rparr>))"

definition serve_request ::
  "'x env \<Rightarrow> request \<Rightarrow> 'x guardian_session \<Rightarrow> ('x, response) session_result" where
  "serve_request env req gs =
     (case req of
        Hello _ _ \<Rightarrow>
          (Inl (failure_protocol
             (input_safety ''XTEST guardian ready session cannot accept another hello'')), gs)
      | PrepareKey operation code _ \<Rightarrow> serve_prepare env operation code gs
      | ExecuteDown operation token _ \<Rightarrow> serve_execute_down env operation token gs
      | KeyUp operation token _ \<Rightarrow> serve_key_up env operation token gs
      | Synchronize operation tid _ \<Rightarrow> serve_synchronize env operation tid gs
      | TransferToPhysicalDebt operation token _ _ \<Rightarrow>
          (Inr (TransferAck operation (token_id token)), gs)
      | PhysicalReleaseCommitted sequence token _ _ \<Rightarrow>
          (Inr (ReleaseCommitAck sequence (token_id token)), gs)
      | CancelAndDrain operation deadline \<Rightarrow>
          let (proof, gs) = finish_until env StopRequested deadline gs
          in (Inr (Drained operation (wire_terminal_proof_of proof)), gs)
      | ReleaseAllAndExit deadline \<Rightarrow>
          let (proof, gs) = finish_until env StopRequested deadline gs
          in (Inr (Stopped (wire_terminal_proof_of proof)), gs))"

definition handle_request_detailed ::
  "'x env \<Rightarrow> sequence_no \<Rightarrow> request \<Rightarrow> u64 \<Rightarrow> 'x guardian_session \<Rightarrow> ('x, response) session_result" where
  "handle_request_detailed env sequence req now_ns gs =
     (if gs_terminal gs \<noteq> None
      then (Inl (failure_protocol
              (input_safety ''XTEST guardian request arrived after session termination'')), gs)
      else case accept (gs_protocol gs) sequence req now_ns of
        (Inl e, protocol) \<Rightarrow> (Inl (failure_protocol e), gs\<lparr>gs_protocol := protocol\<rparr>)
      | (Inr _, protocol) \<Rightarrow> serve_request env req (gs\<lparr>gs_protocol := protocol\<rparr>))"

subsection \<open>The connection loop\<close>

datatype connection_event = Frame "u8 list" | SignalEvent

definition send_response ::
  "'x env \<Rightarrow> sequence_no \<Rightarrow> response \<Rightarrow> 'x \<Rightarrow> unit res \<times> 'x" where
  "send_response env sequence resp x =
     (case encode_frame sequence (Response resp) of
        Inl e \<Rightarrow> (Inl e, x)
      | Inr frame \<Rightarrow> send_frame env x frame)"

definition send_fatal_best_effort :: "'x env \<Rightarrow> sequence_no \<Rightarrow> fatal_code \<Rightarrow> 'x \<Rightarrow> 'x" where
  "send_fatal_best_effort env sequence code x = snd (send_response env sequence (Fatal code) x)"

definition is_terminal_response :: "response \<Rightarrow> bool" where
  "is_terminal_response resp = (case resp of Drained _ _ \<Rightarrow> True | Stopped _ \<Rightarrow> True | _ \<Rightarrow> False)"

text \<open>
  One turn of the loop: the events still to come decide whether it goes on.  The loop over a
  list of events returns \<open>None\<close> while it is still waiting for the next one; an error return
  drops the session, which finishes it.
\<close>

datatype 'x loop_outcome =
    LoopContinue "'x guardian_session"
  | LoopReturn "terminal_record res" "'x guardian_session"

definition finish_return :: "'x env \<Rightarrow> stop_reason \<Rightarrow> 'x guardian_session \<Rightarrow> 'x loop_outcome" where
  "finish_return env reason gs = (let (record, gs) = finish_record env reason gs in LoopReturn (Inr record) gs)"

definition fatal_return ::
  "'x env \<Rightarrow> sequence_no \<Rightarrow> fatal_code \<Rightarrow> stop_reason \<Rightarrow> 'x guardian_session \<Rightarrow> 'x loop_outcome" where
  "fatal_return env sequence code reason gs =
     finish_return env reason
       (gs\<lparr>gs_executor := send_fatal_best_effort env sequence code (gs_executor gs)\<rparr>)"

definition answer_request ::
  "'x env \<Rightarrow> sequence_no \<Rightarrow> request \<Rightarrow> u64 \<Rightarrow> 'x guardian_session \<Rightarrow> 'x loop_outcome" where
  "answer_request env sequence req now_ns gs =
     (case handle_request_detailed env sequence req now_ns gs of
        (Inl failure, gs) \<Rightarrow> fatal_return env sequence (rf_code failure) (rf_reason failure) gs
      | (Inr resp, gs) \<Rightarrow>
          case send_response env sequence resp (gs_executor gs) of
            (Inl _, x) \<Rightarrow> finish_return env PeerEof (gs\<lparr>gs_executor := x\<rparr>)
          | (Inr _, x) \<Rightarrow>
              let gs = gs\<lparr>gs_executor := x\<rparr> in
              if is_terminal_response resp
              then LoopReturn (Inr (case gs_terminal gs of
                     Some record \<Rightarrow> record
                   | None \<Rightarrow> \<lparr>rec_reason = StopRequested,
                        rec_proof = Unreconciled (debt_count (gs_protocol gs))\<rparr>)) gs
              else LoopContinue gs)"

definition connection_turn ::
  "'x env \<Rightarrow> connection_event res \<Rightarrow> 'x guardian_session \<Rightarrow> 'x loop_outcome" where
  "connection_turn env event gs =
     (case event of
        Inl _ \<Rightarrow> finish_return env PeerEof gs
      | Inr SignalEvent \<Rightarrow> finish_return env StopSignal gs
      | Inr (Frame frame) \<Rightarrow>
          if frame = [] then finish_return env PeerEof gs
          else case decode_frame frame of
            Inl e \<Rightarrow> fatal_return env 1 (protocol_fatal_code e) StopProtocolViolation gs
          | Inr decoded \<Rightarrow>
              case df_message decoded of
                Response _ \<Rightarrow>
                  fatal_return env (df_sequence decoded) FatalProtocolViolation StopProtocolViolation gs
              | Request req \<Rightarrow>
                  case monotonic_now_ns env (gs_executor gs) of
                    (Inl e, x) \<Rightarrow> LoopReturn (Inl e) (drop_session env (gs\<lparr>gs_executor := x\<rparr>))
                  | (Inr now_ns, x) \<Rightarrow>
                      answer_request env (df_sequence decoded) req now_ns (gs\<lparr>gs_executor := x\<rparr>))"

fun connection_loop ::
  "'x env \<Rightarrow> connection_event res list \<Rightarrow> 'x guardian_session \<Rightarrow>
   (terminal_record res \<times> 'x) option" where
  "connection_loop env [] gs = None"
| "connection_loop env (event # events) gs =
     (case connection_turn env event gs of
        LoopReturn result gs \<Rightarrow> Some (result, gs_executor gs)
      | LoopContinue gs \<Rightarrow> connection_loop env events gs)"

definition run_connection_with_receiver ::
  "'x env \<Rightarrow> protocol_session \<Rightarrow> connection_event res list \<Rightarrow> 'x \<Rightarrow> (terminal_record res \<times> 'x) option" where
  "run_connection_with_receiver env protocol_session events x =
     (case events of
        [] \<Rightarrow> None
      | Inl e # _ \<Rightarrow> Some (Inl e, x)
      | Inr SignalEvent # _ \<Rightarrow> Some (Inr \<lparr>rec_reason = StopSignal, rec_proof = Reconciled\<rparr>, x)
      | Inr (Frame frame) # events \<Rightarrow>
          if frame = [] then Some (Inl (input_safety ''XTEST guardian peer closed before handshake''), x)
          else case decode_frame frame of
            Inl e \<Rightarrow> Some (Inl e, x)
          | Inr decoded \<Rightarrow>
              let refuse = (\<lambda>e x. Some (Inl e, send_fatal_best_effort env (df_sequence decoded)
                              (protocol_fatal_code e) x)) in
              case df_message decoded of
                Request (Hello daemon_nonce deadline) \<Rightarrow>
                  (case monotonic_now_ns env x of
                     (Inl e, x) \<Rightarrow> Some (Inl e, x)
                   | (Inr now_ns, x) \<Rightarrow>
                       case validate_hello daemon_nonce deadline now_ns of
                         Inl e \<Rightarrow> refuse e x
                       | Inr _ \<Rightarrow>
                           case session_ready_after_handshake env protocol_session
                                  (df_sequence decoded) x of
                             Inl e \<Rightarrow> refuse e x
                           | Inr gs \<Rightarrow>
                               case send_response env (df_sequence decoded) (ready_response env gs) x of
                                 (Inl e, x) \<Rightarrow>
                                   Some (Inl e, gs_executor (drop_session env (gs\<lparr>gs_executor := x\<rparr>)))
                               | (Inr _, x) \<Rightarrow> connection_loop env events (gs\<lparr>gs_executor := x\<rparr>))
              | _ \<Rightarrow> refuse (input_safety ''XTEST guardian first frame is not a hello request'') x)"

end
