(* ===== verification/Guardian_Session.thy ===== *)
theory Guardian_Session
  imports Guardian_Service
begin

text \<open>
  Correctness of the guardian session and its connection loop (src/src/daemon/xtest_guardian/
  service.rs).  The locale \<open>key_server\<close> is what the session relies on in the executor: which
  keys a call may leave pressed.  Inside it the loop is shown never to report a reconciled end
  while it may still hold a key down.
\<close>

subsection \<open>Bookkeeping\<close>

definition session_inv :: "'x guardian_session \<Rightarrow> bool" where
  "session_inv gs \<longleftrightarrow> protocol_inv (gs_protocol gs) \<and>
     last_prepared_token_id (gs_protocol gs) < next_token_id gs"

lemma session_inv_executor [simp]: "session_inv (gs\<lparr>gs_executor := x\<rparr>) = session_inv gs"
  "session_inv (gs\<lparr>gs_terminal := r\<rparr>) = session_inv gs"
  by (simp_all add: session_inv_def)

lemma session_inv_protocol:
  "session_inv gs \<Longrightarrow> protocol_inv protocol \<Longrightarrow> last_prepared_token_id protocol = last_prepared_token_id (gs_protocol gs)
   \<Longrightarrow> session_inv (gs\<lparr>gs_protocol := protocol\<rparr>)"
  by (simp add: session_inv_def)

lemma release_case_token_id [simp]:
  "last_prepared_token_id (case release of CleanupDeadline ns \<Rightarrow> apply_cleanup_deadline s ns b
     | MutationDeadline _ \<Rightarrow> s) = last_prepared_token_id s"
  by (cases release) simp_all

lemma accept_request_token_id:
  assumes acc: "accept_request s req now_ns = (Inr u, s')"
  shows "last_prepared_token_id s' = last_prepared_token_id s"
proof (cases req)
  case (KeyUp operation token release)
  with acc accept_key_up_D [of s operation token release now_ns u s'] show ?thesis
    by (auto simp: accept_request_def)
next
  case (Synchronize operation tid release)
  with acc accept_synchronize_D [of s operation tid release now_ns u s'] show ?thesis
    by (auto simp: accept_request_def)
next
  case (ExecuteDown operation token deadline)
  with acc accept_execute_down_D [of s operation token deadline now_ns u s'] show ?thesis
    by (auto simp: accept_request_def)
qed (use acc in \<open>auto simp: accept_request_def accept_prepare_def accept_transfer_def
      accept_physical_release_def accept_cancel_and_drain_def Let_def split: if_splits\<close>)

lemma accept_session_inv:
  assumes inv: "session_inv gs" and acc: "accept (gs_protocol gs) n req now_ns = (Inr u, protocol)"
  shows "session_inv (gs\<lparr>gs_protocol := protocol\<rparr>)"
proof (rule session_inv_protocol [OF inv])
  show "protocol_inv protocol"
    using accept_inv [OF _ acc] inv by (simp add: session_inv_def)
  from acc obtain s1 where "accept_request (gs_protocol gs) req now_ns = (Inr (), s1)"
    "protocol = s1\<lparr>last_sequence := n\<rparr>" by (auto simp: accept_Inr)
  then show "last_prepared_token_id protocol = last_prepared_token_id (gs_protocol gs)"
    by (simp add: accept_request_token_id)
qed

lemma record_prepared_session_inv:
  assumes inv: "session_inv gs" and next_id: "checked_add (next_token_id gs) 1 = Some n"
    and rec: "record_prepared (gs_protocol gs) operation token = (Inr u, protocol)"
    and tid: "token_id token = next_token_id gs"
  shows "session_inv (gs\<lparr>next_token_id := n, gs_protocol := protocol\<rparr>)"
  using record_prepared_D [OF rec] record_prepared_inv [OF _ rec] inv tid
    checked_add_1_less [OF next_id] by (auto simp: session_inv_def)

lemma serve_prepare_inv:
  assumes inv: "session_inv gs"
  shows "session_inv (snd (serve_prepare env operation code gs))"
proof -
  have fresh: "session_inv (gs\<lparr>next_token_id := n\<rparr>)" if "checked_add (next_token_id gs) 1 = Some n" for n
    using inv checked_add_1_less [OF that] by (auto simp: session_inv_def)
  show ?thesis
    using inv fresh record_prepared_session_inv [of "gs\<lparr>gs_executor := x\<rparr>" for x] 
    by (auto simp: serve_prepare_def Let_def session_inv_def split: prod.splits sum.splits option.splits
        dest: atomic_onD [OF record_atomic(1)])
qed

lemma record_down_attempt_session_inv:
  assumes inv: "session_inv gs" and rec: "record_down_attempt (gs_protocol gs) tid = (r, protocol)"
  shows "session_inv (gs\<lparr>gs_protocol := protocol\<rparr>)"
proof (cases r)
  case (Inl e)
  then have "protocol = gs_protocol gs"
    using rec atomic_onD [OF record_atomic(2)] by blast
  then show ?thesis using inv by (simp add: session_inv_def)
next
  case (Inr u)
  with rec have ok: "record_down_attempt (gs_protocol gs) tid = (Inr u, protocol)" by simp
  then have "last_prepared_token_id protocol = last_prepared_token_id (gs_protocol gs)"
    by (clarsimp simp: record_down_attempt_def)
  then show ?thesis
    using inv record_down_attempt_inv [OF _ ok] by (simp add: session_inv_def)
qed

lemma complete_synchronize_session_inv:
  assumes inv: "session_inv gs" and rec: "complete_synchronize (gs_protocol gs) tid = (r, protocol)"
  shows "session_inv (gs\<lparr>gs_protocol := protocol\<rparr>)"
proof (cases r)
  case (Inl e)
  then have "protocol = gs_protocol gs"
    using rec atomic_onD [OF record_atomic(3)] by blast
  then show ?thesis using inv by (simp add: session_inv_def)
next
  case (Inr u)
  with rec have ok: "complete_synchronize (gs_protocol gs) tid = (Inr u, protocol)" by simp
  then have "last_prepared_token_id protocol = last_prepared_token_id (gs_protocol gs)"
    using complete_synchronize_D [OF ok] by auto
  then show ?thesis
    using inv complete_synchronize_inv [OF _ ok] by (simp add: session_inv_def)
qed

text \<open>During the cleanup the session is terminal with nothing in flight, which is kept too.\<close>

definition closing :: "protocol_state \<Rightarrow> bool" where
  "closing s \<longleftrightarrow> terminal s \<and> pending_sync s = None \<and> pending_prepare s = None"

lemma acknowledge_closing:
  assumes "closing s"
  shows "closing (snd (acknowledge_cleanup_release s tid))"
    "last_prepared_token_id (snd (acknowledge_cleanup_release s tid)) = last_prepared_token_id s"
  using assms
  by (cases "position (\<lambda>t. tr_id t = tid \<and> tr_state t \<noteq> TokPrepared) (tokens s)";
      simp add: closing_def acknowledge_cleanup_release_def)+

lemma acknowledge_session_inv:
  assumes "session_inv gs" and "closing (gs_protocol gs)"
  shows "session_inv (gs\<lparr>gs_protocol := snd (acknowledge_cleanup_release (gs_protocol gs) tid)\<rparr>)"
  using assms acknowledge_cleanup_release_inv [of "gs_protocol gs" tid] acknowledge_closing(2) [of "gs_protocol gs" tid]
  by (simp add: session_inv_def closing_def)

lemma cleanup_loop_inv:
  assumes "session_inv gs" and "closing (gs_protocol gs)"
  shows "session_inv (cleanup_loop env deadline_ns ts gs) \<and> closing (gs_protocol (cleanup_loop env deadline_ns ts gs))"
  using assms
proof (induction ts arbitrary: gs)
  case (Cons token ts)
  have step: "session_inv (gs\<lparr>gs_executor := x,
      gs_protocol := snd (acknowledge_cleanup_release (gs_protocol gs) (token_id token))\<rparr>)" for x
    using acknowledge_session_inv [of "gs\<lparr>gs_executor := x\<rparr>"] Cons.prems by simp
  show ?case
    using Cons.prems step acknowledge_closing(1) [OF Cons.prems(2)]
    by (auto simp: Let_def intro!: Cons.IH split: prod.splits)
qed simp

lemma begin_terminal_session:
  assumes "session_inv gs"
  shows "session_inv (gs\<lparr>gs_protocol := begin_terminal (gs_protocol gs)\<rparr>)"
    "closing (begin_terminal (gs_protocol gs))"
  using assms begin_terminal_inv [of "gs_protocol gs"]
  by (simp_all add: session_inv_def closing_def begin_terminal_def)

lemma finish_until_inv:
  assumes "session_inv gs"
  shows "session_inv (snd (finish_until env reason deadline_ns gs))"
proof (cases "gs_terminal gs")
  case None
  have "session_inv (cleanup_loop env deadline_ns (cleanup_tokens_reverse (begin_terminal (gs_protocol gs)))
      (gs\<lparr>gs_protocol := begin_terminal (gs_protocol gs)\<rparr>))"
    using begin_terminal_session [OF assms] by (simp add: cleanup_loop_inv)
  with None show ?thesis by (simp add: finish_until_def Let_def)
qed (use assms in \<open>simp add: finish_until_def\<close>)

lemma serve_request_inv:
  assumes "session_inv gs"
  shows "session_inv (snd (serve_request env req gs))"
proof (cases req)
  case (PrepareKey operation code deadline)
  with assms show ?thesis by (simp add: serve_request_def serve_prepare_inv)
next
  case (ExecuteDown operation token deadline)
  have "session_inv (gs\<lparr>gs_executor := x, gs_protocol := protocol\<rparr>)"
    if "record_down_attempt (gs_protocol gs) (token_id token) = (r, protocol)" for x r protocol
    using record_down_attempt_session_inv [of "gs\<lparr>gs_executor := x\<rparr>"] that assms by simp
  with ExecuteDown show ?thesis
    by (auto simp: serve_request_def serve_execute_down_def split: prod.splits sum.splits)
next
  case (Synchronize operation tid release)
  have "session_inv (gs\<lparr>gs_executor := x, gs_protocol := protocol\<rparr>)"
    if "complete_synchronize (gs_protocol gs) tid = (r, protocol)" for x r protocol
    using complete_synchronize_session_inv [of "gs\<lparr>gs_executor := x\<rparr>"] that assms by simp
  with Synchronize assms show ?thesis
    by (auto simp: serve_request_def serve_synchronize_def split: prod.splits sum.splits)
next
  case (CancelAndDrain operation deadline)
  with finish_until_inv [OF assms, of env StopRequested deadline] show ?thesis
    by (auto simp: serve_request_def split: prod.splits)
next
  case (ReleaseAllAndExit deadline)
  with finish_until_inv [OF assms, of env StopRequested deadline] show ?thesis
    by (auto simp: serve_request_def split: prod.splits)
qed (use assms in \<open>auto simp: serve_request_def serve_key_up_def split: prod.splits sum.splits\<close>)

lemma handle_request_inv:
  assumes "session_inv gs"
  shows "session_inv (snd (handle_request_detailed env n req now_ns gs))"
proof (cases "accept (gs_protocol gs) n req now_ns")
  case (Pair r protocol)
  show ?thesis
  proof (cases r)
    case (Inl e)
    with Pair have "protocol = gs_protocol gs" using atomic_onD [OF accept_atomic] by blast
    with Inl Pair assms show ?thesis by (simp add: handle_request_detailed_def)
  next
    case (Inr u)
    with Pair assms show ?thesis
      by (auto simp: handle_request_detailed_def intro: serve_request_inv accept_session_inv)
  qed
qed

interpretation guardian_service: step_invariant
  "\<lambda>gs (n, req, now_ns). snd (handle_request_detailed env n req now_ns gs)" session_inv for env
  by unfold_locales (auto intro: handle_request_inv)

subsection \<open>Debts through the session's operations\<close>

text \<open>The keys whose physical release a request commits.\<close>

definition committed_keys :: "request \<Rightarrow> u8 set" where
  "committed_keys req =
     (case req of PhysicalReleaseCommitted _ token _ _ \<Rightarrow> {x11_keycode token} | _ \<Rightarrow> {})"

text \<open>The keys whose physical release some frame of the event commits.\<close>

definition event_committed :: "connection_event res \<Rightarrow> u8 set" where
  "event_committed event =
     (case event of
        Inr (Frame frame) \<Rightarrow>
          (case decode_frame frame of
             Inr decoded \<Rightarrow> (case df_message decoded of Request req \<Rightarrow> committed_keys req | _ \<Rightarrow> {})
           | _ \<Rightarrow> {})
      | _ \<Rightarrow> {})"

abbreviation debt_keys :: "protocol_state \<Rightarrow> u8 set" where
  "debt_keys s \<equiv> x11_keycode ` debts s"

lemma accept_debt_keys:
  assumes acc: "accept s n req now_ns = (Inr u, s')"
  shows "debt_keys s \<subseteq> debt_keys s' \<union> committed_keys req"
proof
  fix k assume "k \<in> debt_keys s"
  then obtain token where token: "token \<in> debts s" "k = x11_keycode token" by blast
  from acc obtain s1 where s1: "accept_request s req now_ns = (Inr (), s1)" "s' = s1\<lparr>last_sequence := n\<rparr>"
    by (auto simp: accept_Inr)
  show "k \<in> debt_keys s' \<union> committed_keys req"
  proof (cases "token \<in> debts s1")
    case True
    with s1(2) token show ?thesis by (auto simp: debts_def)
  next
    case False
    with accept_request_debts [OF token(1) s1(1) False, of n now_ns] token(2) show ?thesis
      by (cases req) (auto simp: committed_keys_def)
  qed
qed

lemma execute_down_is_debt:
  assumes "accept s n (ExecuteDown operation token deadline) now_ns = (Inr u, s')"
  shows "token \<in> debts s'"
proof -
  from assms obtain s1 where s1: "accept_execute_down s operation token deadline now_ns = (Inr (), s1)"
    "s' = s1\<lparr>last_sequence := n\<rparr>"
    by (auto simp: accept_Inr accept_request_def)
  from accept_execute_down_D [OF s1(1)] obtain i where "i < length (tokens s)" "tr_token (tokens s ! i) = token"
    "tokens s1 = (tokens s)[i := (tokens s ! i)\<lparr>tr_state := AttemptingDown\<rparr>]"
    by auto
  then show ?thesis
    using s1(2) moved_token_in [of i "tokens s" AttemptingDown]
    by (auto simp: debts_iff intro!: bexI [of _ "(tokens s ! i)\<lparr>tr_state := AttemptingDown\<rparr>"])
qed

lemma record_down_attempt_debts:
  assumes "record_down_attempt s tid = (r, s')"
  shows "debts s \<subseteq> debts s'"
proof (cases r)
  case (Inl e)
  then have "s' = s" using assms atomic_onD [OF record_atomic(2)] by blast
  then show ?thesis by simp
next
  case (Inr u)
  with assms obtain i where "i < length (tokens s)"
    "tokens s' = (tokens s)[i := (tokens s ! i)\<lparr>tr_state := PossiblyDown\<rparr>]"
    by (clarsimp simp: record_down_attempt_def dest!: position_SomeD)
  then show ?thesis using debts_move by blast
qed

lemma record_prepared_debts:
  assumes "record_prepared s operation token = (r, s')"
  shows "debts s' = debts s" "r = Inr u \<Longrightarrow> pending_sync s' = pending_sync s"
proof -
  have "s' = s" if "r = Inl e" for e
    using that assms atomic_onD [OF record_atomic(1)] by blast
  moreover have "debts s' = debts s \<and> pending_sync s' = pending_sync s" if "r = Inr u" for u
    using that record_prepared_D assms by (force simp: debts_def)
  ultimately show "debts s' = debts s" "r = Inr u \<Longrightarrow> pending_sync s' = pending_sync s"
    by (cases r; auto)+
qed

lemma begin_terminal_debts [simp]: "debts (begin_terminal s) = debts s"
  by (auto simp: debts_def begin_terminal_def)

lemma debts_empty_iff: "debts s = {} \<longleftrightarrow> debt_count s = 0"
  by (auto simp: debts_def debt_count_def filter_empty_conv)

lemma acknowledge_debts:
  assumes "token \<in> debts s" and "token_id token \<noteq> tid"
  shows "token \<in> debts (snd (acknowledge_cleanup_release s tid))"
proof (cases "position (\<lambda>t. tr_id t = tid \<and> tr_state t \<noteq> TokPrepared) (tokens s)")
  case None
  then show ?thesis using assms by (simp add: acknowledge_cleanup_release_def)
next
  case (Some i)
  note i = position_SomeD [OF Some]
  show ?thesis
    by (rule debts_remove [OF assms(1), of _ i])
      (use Some i assms(2) in \<open>auto simp: acknowledge_cleanup_release_def\<close>)
qed

lemma distinct_debt_ids:
  assumes "protocol_inv s" and "a \<in> debts s" and "b \<in> debts s" and "token_id a = token_id b"
  shows "a = b"
  using assms same_id_same_token [of "tokens s"] by (auto simp: debts_iff protocol_inv_def)

lemma cleanup_tokens:
  assumes "protocol_inv s"
  shows "set (cleanup_tokens_reverse s) = debts s" "distinct (map token_id (cleanup_tokens_reverse s))"
  using assms
  by (auto simp: cleanup_tokens_reverse_def debts_def protocol_inv_def rev_filter [symmetric] rev_map [symmetric]
      comp_def distinct_map_filter)

subsection \<open>The executor contract and the connection loop\<close>

text \<open>
  \<open>held x\<close> are the keys the executor may have left pressed in state \<open>x\<close>.  A key-down may press its
  key whatever it returns; a key-up that succeeds has released its key; nothing else presses one.
\<close>

lemma run_connection_Inr:
  assumes "run_connection_with_receiver env session events x = Some (Inr record, x')"
  shows "x' = x \<or> (\<exists>event rest now_ns y n gs resp z u. events = event # rest \<and>
    monotonic_now_ns env x = (Inr now_ns, y) \<and>
    session_ready_after_handshake env session n y = Inr gs \<and>
    send_response env n resp y = (Inr u, z) \<and>
    connection_loop env rest (gs\<lparr>gs_executor := z\<rparr>) = Some (Inr record, x'))"
  using assms unfolding run_connection_with_receiver_def Let_def
  by (auto split: list.splits sum.splits connection_event.splits message.splits request.splits
      if_splits prod.splits)

locale key_server =
  fixes env :: "'x env"
    and held :: "'x \<Rightarrow> u8 set"
  assumes down_held: "exec_key_down env x k = (r, x') \<Longrightarrow> held x' \<subseteq> insert k (held x)"
    and up_held: "exec_key_up env x k = (r, x') \<Longrightarrow> held x' \<subseteq> held x"
    and up_released: "exec_key_up env x k = (Inr u, x') \<Longrightarrow> k \<notin> held x'"
    and sync_held: "exec_synchronize env x = (r', x') \<Longrightarrow> held x' \<subseteq> held x"
    and prepare_held: "exec_prepare_key env x code = (q, x') \<Longrightarrow> held x' \<subseteq> held x"
    and clock_held: "monotonic_now_ns env x = (now, x') \<Longrightarrow> held x' \<subseteq> held x"
    and send_held: "send_frame env x frame = (s, x') \<Longrightarrow> held x' \<subseteq> held x"
begin

definition covered :: "u8 set \<Rightarrow> 'x guardian_session \<Rightarrow> bool" where
  "covered C gs \<longleftrightarrow> held (gs_executor gs) \<subseteq> debt_keys (gs_protocol gs) \<union> C"

text \<open>While the synchronize of a key-up is outstanding, that key is already released.\<close>

definition up_done :: "'x guardian_session \<Rightarrow> bool" where
  "up_done gs \<longleftrightarrow> (\<forall>p t. pending_sync (gs_protocol gs) = Some p \<longrightarrow> sy_kind p = SyncUp \<longrightarrow>
     t \<in> set (tokens (gs_protocol gs)) \<longrightarrow> tr_id t = sy_token_id p \<longrightarrow>
     x11_keycode (tr_token t) \<notin> held (gs_executor gs))"

definition live :: "u8 set \<Rightarrow> 'x guardian_session \<Rightarrow> bool" where
  "live C gs \<longleftrightarrow> session_inv gs \<and> gs_terminal gs = None \<and> covered C gs \<and> up_done gs"

definition finished :: "u8 set \<Rightarrow> 'x guardian_session \<Rightarrow> bool" where
  "finished C gs \<longleftrightarrow> covered C gs \<and>
     (\<exists>record. gs_terminal gs = Some record \<and>
        (rec_proof record = Reconciled \<longrightarrow> held (gs_executor gs) \<subseteq> C) \<and>
        rec_proof record = (if debt_count (gs_protocol gs) = 0 then Reconciled
                            else Unreconciled (debt_count (gs_protocol gs))))"

lemma covered_shrink:
  "covered C gs \<Longrightarrow> held x \<subseteq> held (gs_executor gs) \<Longrightarrow> covered C (gs\<lparr>gs_executor := x\<rparr>)"
  by (auto simp: covered_def)

lemma covered_mono: "covered C gs \<Longrightarrow> C \<subseteq> D \<Longrightarrow> covered D gs"
  by (auto simp: covered_def)

lemma live_shrink: "live C gs \<Longrightarrow> held x \<subseteq> held (gs_executor gs) \<Longrightarrow> live C (gs\<lparr>gs_executor := x\<rparr>)"
  by (auto simp: live_def covered_def up_done_def)

lemma now_or_zero_held: "monotonic_now_ns_or_zero env x = (now, x') \<Longrightarrow> held x' \<subseteq> held x"
  using clock_held [of x] by (auto simp: monotonic_now_ns_or_zero_def split: prod.splits sum.splits)

lemma send_response_held: "send_response env n resp x = (r, x') \<Longrightarrow> held x' \<subseteq> held x"
  using send_held by (auto simp: send_response_def split: sum.splits)

text \<open>One acknowledged release of the cleanup.\<close>

lemma acknowledge_covered:
  assumes inv: "session_inv gs" and cov: "covered C gs" and debt: "token \<in> debts (gs_protocol gs)"
    and shrink: "held x \<subseteq> held (gs_executor gs)" and released: "x11_keycode token \<notin> held x"
  shows "covered C (gs\<lparr>gs_executor := x,
     gs_protocol := snd (acknowledge_cleanup_release (gs_protocol gs) (token_id token))\<rparr>)"
proof -
  have "k \<in> debt_keys (snd (acknowledge_cleanup_release (gs_protocol gs) (token_id token))) \<union> C"
    if k: "k \<in> held x" for k
  proof -
    from k shrink cov have "k \<in> debt_keys (gs_protocol gs) \<union> C" by (auto simp: covered_def)
    then show ?thesis
    proof
      assume "k \<in> debt_keys (gs_protocol gs)"
      then obtain other where other: "other \<in> debts (gs_protocol gs)" "k = x11_keycode other" by blast
      with k released have "other \<noteq> token" by auto
      with other debt inv have "token_id other \<noteq> token_id token"
        using distinct_debt_ids by (auto simp: session_inv_def)
      with acknowledge_debts other show ?thesis by blast
    qed simp
  qed
  then show ?thesis by (auto simp: covered_def)
qed

lemma acknowledge_other_debts:
  assumes "set ts \<subseteq> debts s" and "distinct (map token_id (token # ts))"
  shows "set ts \<subseteq> debts (snd (acknowledge_cleanup_release s (token_id token)))"
proof
  fix t assume t: "t \<in> set ts"
  have "token_id t \<noteq> token_id token" by (rule distinct_map_Cons_neq [OF assms(2) t])
  with t assms(1) show "t \<in> debts (snd (acknowledge_cleanup_release s (token_id token)))"
    by (auto intro: acknowledge_debts)
qed

lemma cleanup_loop_covered:
  assumes "session_inv gs" and "closing (gs_protocol gs)" and "covered C gs"
    and "set ts \<subseteq> debts (gs_protocol gs)" and "distinct (map token_id ts)"
  shows "covered C (cleanup_loop env deadline_ns ts gs)"
  using assms
proof (induction ts arbitrary: gs)
  case (Cons token ts)
  obtain now1 x1 where x1: "monotonic_now_ns_or_zero env (gs_executor gs) = (now1, x1)" by fastforce
  obtain released x2 where x2: "exec_key_up env x1 (x11_keycode token) = (released, x2)" by fastforce
  obtain now2 x3 where x3: "monotonic_now_ns_or_zero env x2 = (now2, x3)" by fastforce
  obtain synchronized x4 where x4: "exec_synchronize env x3 = (synchronized, x4)" by fastforce
  have h1: "held x1 \<subseteq> held (gs_executor gs)" and h2: "held x2 \<subseteq> held x1"
    and h3: "held x3 \<subseteq> held x2" and h4: "held x4 \<subseteq> held x3"
    using now_or_zero_held x1 up_held x2 x3 sync_held x4 by blast+
  then have shrink: "held x4 \<subseteq> held (gs_executor gs)" "held x3 \<subseteq> held (gs_executor gs)" by auto
  show ?case
  proof (cases "now1 \<ge> deadline_ns \<or> now2 \<ge> deadline_ns")
    case True
    with x1 x2 x3 Cons.prems(3) h1 shrink show ?thesis
      by (auto intro: covered_shrink)
  next
    case False
    show ?thesis
    proof (cases "is_ok released \<and> is_ok synchronized")
      case True
      then obtain u where "released = Inr u" by (cases released) auto
      then have "x11_keycode token \<notin> held x4"
        using up_released x2 h3 h4 by blast
      then have "covered C (gs\<lparr>gs_executor := x4,
          gs_protocol := snd (acknowledge_cleanup_release (gs_protocol gs) (token_id token))\<rparr>)"
        using acknowledge_covered Cons.prems shrink by auto
      then have "covered C (cleanup_loop env deadline_ns ts (gs\<lparr>gs_executor := x4,
          gs_protocol := snd (acknowledge_cleanup_release (gs_protocol gs) (token_id token))\<rparr>))"
        using Cons.prems acknowledge_session_inv [of "gs\<lparr>gs_executor := x4\<rparr>"]
          acknowledge_other_debts [of ts] acknowledge_closing(1)
        by (intro Cons.IH) auto
      with False True x1 x2 x3 x4 show ?thesis by simp
    next
      case notok: False
      have "covered C (cleanup_loop env deadline_ns ts (gs\<lparr>gs_executor := x4\<rparr>))"
        using Cons.prems shrink by (intro Cons.IH) (auto intro: covered_shrink)
      with False notok x1 x2 x3 x4 show ?thesis by auto
    qed
  qed
qed simp

lemma finish_until_finished:
  assumes inv: "session_inv gs" and open_session: "gs_terminal gs = None" and cov: "covered C gs"
  shows "finished C (snd (finish_until env reason deadline_ns gs))"
proof -
  let ?s = "begin_terminal (gs_protocol gs)"
  let ?gs = "cleanup_loop env deadline_ns (cleanup_tokens_reverse ?s) (gs\<lparr>gs_protocol := ?s\<rparr>)"
  have "covered C ?gs"
    using begin_terminal_session [OF inv] cleanup_tokens [of ?s] cov
    by (intro cleanup_loop_covered) (auto simp: session_inv_def covered_def)
  moreover have "debt_keys (gs_protocol ?gs) = {}" if "debt_count (gs_protocol ?gs) = 0"
    using that by (simp add: debts_empty_iff)
  ultimately show ?thesis
    using open_session by (auto simp: finish_until_def Let_def finished_def covered_def)
qed

lemma finish_with_clock_finished:
  assumes "session_inv gs" and "gs_terminal gs = None" and "covered C gs"
  shows "finished C (snd (finish_with_clock env reason gs))"
proof -
  obtain now x where x: "monotonic_now_ns_or_zero env (gs_executor gs) = (now, x)" by fastforce
  have "covered C (gs\<lparr>gs_executor := x\<rparr>)"
    using covered_shrink [OF assms(3) now_or_zero_held [OF x]] .
  with assms x finish_until_finished [of "gs\<lparr>gs_executor := x\<rparr>"] show ?thesis
    by (simp add: finish_with_clock_def)
qed

lemma finish_return_finished:
  assumes "session_inv gs" and "gs_terminal gs = None" and "covered C gs"
  shows "\<exists>record gs'. finish_return env reason gs = LoopReturn (Inr record) gs' \<and> finished C gs' \<and>
    gs_terminal gs' = Some record"
  using finish_with_clock_finished [OF assms, of reason]
  by (auto simp: finish_return_def finish_record_def Let_def finished_def)

lemma fatal_return_finished:
  assumes "session_inv gs" and "gs_terminal gs = None" and "covered C gs"
  shows "\<exists>record gs'. fatal_return env n code reason gs = LoopReturn (Inr record) gs' \<and> finished C gs' \<and>
    gs_terminal gs' = Some record"
proof -
  let ?x = "send_fatal_best_effort env n code (gs_executor gs)"
  have "held ?x \<subseteq> held (gs_executor gs)"
    using send_response_held by (metis prod.collapse send_fatal_best_effort_def)
  with assms finish_return_finished [of "gs\<lparr>gs_executor := ?x\<rparr>" C reason] show ?thesis
    by (simp add: fatal_return_def covered_shrink)
qed

text \<open>What each accepted request does to the covered keys.\<close>

definition served :: "u8 set \<Rightarrow> (request_failure + response) \<times> 'x guardian_session \<Rightarrow> bool" where
  "served C r \<longleftrightarrow>
     (case fst r of
        Inl failure \<Rightarrow> session_inv (snd r) \<and> gs_terminal (snd r) = None \<and> covered C (snd r)
      | Inr resp \<Rightarrow> if is_terminal_response resp then finished C (snd r) else live C (snd r))"

lemma serve_prepare_served:
  assumes gs: "live C gs" and quiet: "pending_sync (gs_protocol gs) = None"
  shows "served C (serve_prepare env operation code gs)"
proof -
  obtain q x where x: "exec_prepare_key env (gs_executor gs) code = (q, x)" by fastforce
  have cov: "held x \<subseteq> debt_keys (gs_protocol gs) \<union> C"
    using prepare_held [OF x] gs by (auto simp: live_def covered_def)
  have inv: "session_inv (snd (serve_prepare env operation code gs))"
    using serve_prepare_inv gs by (auto simp: live_def)
  have rest: "gs_terminal (snd (serve_prepare env operation code gs)) = None \<and>
     gs_executor (snd (serve_prepare env operation code gs)) = x \<and>
     debts (gs_protocol (snd (serve_prepare env operation code gs))) = debts (gs_protocol gs) \<and>
     (\<forall>resp. fst (serve_prepare env operation code gs) = Inr resp \<longrightarrow>
        \<not> is_terminal_response resp \<and> pending_sync (gs_protocol (snd (serve_prepare env operation code gs))) = None)"
    using x gs quiet
    by (auto simp: serve_prepare_def Let_def live_def is_terminal_response_def record_prepared_debts
        split: prod.splits sum.splits option.splits)
  then show ?thesis
    using inv cov by (auto simp: served_def live_def covered_def up_done_def split: sum.splits)
qed

lemma serve_execute_down_served:
  assumes inv: "session_inv gs" and open_session: "gs_terminal gs = None" and cov: "covered C gs"
    and debt: "token \<in> debts (gs_protocol gs)"
    and down: "\<And>p. pending_sync (gs_protocol gs) = Some p \<Longrightarrow> sy_kind p = SyncDown"
  shows "served C (serve_execute_down env operation token gs)"
proof -
  obtain r x where x: "exec_key_down env (gs_executor gs) (x11_keycode token) = (r, x)" by fastforce
  obtain q protocol where q: "record_down_attempt (gs_protocol gs) (token_id token) = (q, protocol)" by fastforce
  let ?gs = "gs\<lparr>gs_executor := x, gs_protocol := protocol\<rparr>"
  have "debts (gs_protocol gs) \<subseteq> debts protocol" by (rule record_down_attempt_debts [OF q])
  then have "covered C ?gs"
    using cov debt down_held [OF x] by (force simp: covered_def)
  moreover have "session_inv ?gs"
    using record_down_attempt_session_inv [of "gs\<lparr>gs_executor := x\<rparr>"] inv q by simp
  moreover have "pending_sync protocol = pending_sync (gs_protocol gs)"
  proof (cases q)
    case (Inl e)
    then show ?thesis using q atomic_onD [OF record_atomic(2)] by blast
  next
    case (Inr u)
    with q show ?thesis by (clarsimp simp: record_down_attempt_def)
  qed
  then have "up_done ?gs" using down by (auto simp: up_done_def)
  ultimately show ?thesis
    using x q open_session
    by (auto simp: serve_execute_down_def served_def live_def is_terminal_response_def split: sum.splits)
qed

lemma serve_key_up_served:
  assumes inv: "session_inv gs" and open_session: "gs_terminal gs = None" and cov: "covered C gs"
    and p: "pending_sync (gs_protocol gs) = Some p" "sy_token_id p = token_id token"
    and tok: "token \<in> tr_token ` set (tokens (gs_protocol gs))"
  shows "served C (serve_key_up env operation token gs)"
proof -
  obtain r x where x: "exec_key_up env (gs_executor gs) (x11_keycode token) = (r, x)" by fastforce
  have cov': "covered C (gs\<lparr>gs_executor := x\<rparr>)"
    using covered_shrink [OF cov up_held [OF x]] .
  from tok obtain v where v: "v \<in> set (tokens (gs_protocol gs))" "tr_token v = token" by blast
  have "distinct (map tr_id (tokens (gs_protocol gs)))"
    using inv by (simp add: session_inv_def protocol_inv_def)
  then have "tr_token t = token" if "t \<in> set (tokens (gs_protocol gs))" "tr_id t = token_id token" for t
    using same_id_same_token [OF _ that(1) v(1)] that(2) v(2) by simp
  moreover have "x11_keycode token \<notin> held x" if "r = Inr u" for u
    using up_released x that by blast
  ultimately have "up_done (gs\<lparr>gs_executor := x\<rparr>)" if "r = Inr u" for u
    using that p by (fastforce simp: up_done_def)
  with cov' inv open_session x show ?thesis
    by (auto simp: serve_key_up_def served_def live_def is_terminal_response_def split: sum.splits)
qed

lemma complete_synchronize_covered:
  assumes cov: "covered C gs" and up: "up_done gs"
    and ok: "complete_synchronize (gs_protocol gs) tid = (Inr u, protocol)"
  shows "covered C (gs\<lparr>gs_protocol := protocol\<rparr>)"
proof -
  have "k \<in> debt_keys protocol \<union> C" if k: "k \<in> held (gs_executor gs)" for k
  proof -
    from k cov consider "k \<in> C" | token where "token \<in> debts (gs_protocol gs)" "k = x11_keycode token"
      by (auto simp: covered_def)
    then show ?thesis
    proof cases
      case 2
      from complete_synchronize_debts [OF 2(1) ok] show ?thesis
      proof
        assume "releases (gs_protocol gs) (CallCompleteSynchronize tid) token"
        then obtain p where "pending_sync (gs_protocol gs) = Some p" "sy_token_id p = token_id token"
          "sy_kind p = SyncUp"
          by (auto split: option.splits)
        with 2 up k show ?thesis by (auto simp: up_done_def debts_iff)
      qed (use 2(2) in blast)
    qed simp
  qed
  then show ?thesis by (auto simp: covered_def)
qed

lemma serve_synchronize_served:
  assumes gs: "live C gs"
  shows "served C (serve_synchronize env operation tid gs)"
proof -
  obtain r x where x: "exec_synchronize env (gs_executor gs) = (r, x)" by fastforce
  obtain q protocol where q: "complete_synchronize (gs_protocol gs) tid = (q, protocol)" by fastforce
  let ?gs = "gs\<lparr>gs_executor := x\<rparr>"
  have live': "live C ?gs" by (rule live_shrink [OF gs sync_held [OF x]])
  have inv: "session_inv (gs\<lparr>gs_executor := x, gs_protocol := protocol\<rparr>)"
    using complete_synchronize_session_inv [of ?gs] live' q by (simp add: live_def)
  show ?thesis
  proof (cases q)
    case (Inl e)
    with q have "protocol = gs_protocol gs" using atomic_onD [OF record_atomic(3)] by blast
    with Inl x q live' show ?thesis
      by (auto simp: serve_synchronize_def served_def live_def split: sum.splits)
  next
    case (Inr u)
    with q complete_synchronize_covered [of C ?gs tid u protocol] live'
    have "covered C (gs\<lparr>gs_executor := x, gs_protocol := protocol\<rparr>)" by (simp add: live_def)
    moreover have "pending_sync protocol = None"
      using Inr q complete_synchronize_D [of "gs_protocol gs" tid u protocol] by auto
    then have "up_done (gs\<lparr>gs_executor := x, gs_protocol := protocol\<rparr>)" by (simp add: up_done_def)
    ultimately show ?thesis
      using Inr x q live' inv
      by (auto simp: serve_synchronize_def served_def live_def is_terminal_response_def split: sum.splits)
  qed
qed

lemma finish_served:
  assumes "session_inv gs" and "gs_terminal gs = None" and "covered C gs"
    and "\<And>proof. is_terminal_response (resp proof)"
  shows "served C (let (proof, gs') = finish_until env reason deadline_ns gs in (Inr (resp proof), gs'))"
  using finish_until_finished [OF assms(1-3), of reason deadline_ns] assms(4)
  by (auto simp: served_def split: prod.splits)

lemma quiet_live:
  assumes "session_inv gs" and "gs_terminal gs = None" and "covered C gs"
    and "pending_sync (gs_protocol gs) = None"
  shows "live C gs"
  using assms by (simp add: live_def up_done_def)

lemma accept_pending_sync:
  assumes acc: "accept s n req now_ns = (Inr u, s')"
  shows "case req of
      PrepareKey _ _ _ \<Rightarrow> pending_sync s' = None
    | ExecuteDown operation token _ \<Rightarrow> \<exists>p. pending_sync s' = Some p \<and> sy_kind p = SyncDown
    | TransferToPhysicalDebt _ _ _ _ \<Rightarrow> pending_sync s' = None
    | PhysicalReleaseCommitted _ _ _ _ \<Rightarrow> pending_sync s' = None
    | _ \<Rightarrow> True"
proof -
  from acc obtain s1 where s1: "accept_request s req now_ns = (Inr (), s1)" "s' = s1\<lparr>last_sequence := n\<rparr>"
    by (auto simp: accept_Inr)
  show ?thesis
  proof (cases req)
    case (ExecuteDown operation token deadline)
    with s1 accept_execute_down_D [of s operation token deadline now_ns "()" s1] show ?thesis
      by (auto simp: accept_request_def)
  qed (use s1 in \<open>auto simp: accept_request_def accept_prepare_def accept_transfer_def
        accept_physical_release_def in_flight_def Let_def split: if_splits\<close>)
qed

lemma accept_synchronize_up_done:
  assumes up: "up_done gs"
    and acc: "accept (gs_protocol gs) n (Synchronize operation tid release) now_ns = (Inr u, protocol)"
  shows "up_done (gs\<lparr>gs_protocol := protocol\<rparr>)"
proof -
  from acc obtain s1 where s1: "accept_synchronize (gs_protocol gs) operation tid release now_ns = (Inr (), s1)"
    "protocol = s1\<lparr>last_sequence := n\<rparr>"
    by (auto simp: accept_Inr accept_request_def)
  from accept_synchronize_D [OF s1(1)] obtain p where "pending_sync (gs_protocol gs) = Some p"
    "pending_sync s1 = Some (p\<lparr>sy_accepted := True\<rparr>)" "tokens s1 = tokens (gs_protocol gs)"
    by auto
  with up s1(2) show ?thesis by (auto simp: up_done_def)
qed

lemma serve_accepted:
  assumes gs: "live C gs" and acc: "accept (gs_protocol gs) n req now_ns = (Inr u, protocol)"
  shows "served (C \<union> committed_keys req) (serve_request env req (gs\<lparr>gs_protocol := protocol\<rparr>))"
proof -
  let ?gs = "gs\<lparr>gs_protocol := protocol\<rparr>" and ?C = "C \<union> committed_keys req"
  have inv: "session_inv ?gs" and open_session: "gs_terminal ?gs = None"
    using accept_session_inv [OF _ acc] gs by (auto simp: live_def)
  have cov: "covered ?C ?gs"
    using accept_debt_keys [OF acc] gs unfolding live_def covered_def
    by simp blast
  note pend = accept_pending_sync [OF acc]
  show ?thesis
  proof (cases req)
    case (Hello nonce deadline)
    with acc show ?thesis by (simp add: accept_Inr accept_request_def)
  next
    case (PrepareKey operation code deadline)
    with pend quiet_live [OF inv open_session cov] show ?thesis
      by (simp add: serve_request_def serve_prepare_served)
  next
    case (ExecuteDown operation token deadline)
    then have "token \<in> debts (gs_protocol ?gs)"
      using execute_down_is_debt acc by simp
    with ExecuteDown pend inv open_session cov show ?thesis
      by (auto simp: serve_request_def intro!: serve_execute_down_served)
  next
    case (KeyUp operation token release)
    with key_up_in_flight [of "gs_protocol gs" n operation token release now_ns protocol] acc gs
      inv open_session cov show ?thesis
      by (auto simp: serve_request_def live_def session_inv_def intro!: serve_key_up_served)
  next
    case (Synchronize operation tid release)
    have "live ?C ?gs"
      using accept_synchronize_up_done [of gs n operation tid release] acc gs inv open_session cov Synchronize
      by (simp add: live_def)
    with Synchronize show ?thesis by (simp add: serve_request_def serve_synchronize_served)
  next
    case (CancelAndDrain operation deadline)
    with finish_served [OF inv open_session cov] show ?thesis
      by (simp add: serve_request_def is_terminal_response_def)
  next
    case (ReleaseAllAndExit deadline)
    with finish_served [OF inv open_session cov] show ?thesis
      by (simp add: serve_request_def is_terminal_response_def)
  qed (use pend quiet_live [OF inv open_session cov] in
        \<open>simp_all add: serve_request_def served_def is_terminal_response_def\<close>)
qed

lemma handle_request_served:
  assumes gs: "live C gs"
  shows "served (C \<union> committed_keys req) (handle_request_detailed env n req now_ns gs)"
proof (cases "accept (gs_protocol gs) n req now_ns")
  case (Pair r protocol)
  show ?thesis
  proof (cases r)
    case (Inl e)
    with Pair have "protocol = gs_protocol gs" using atomic_onD [OF accept_atomic] by blast
    with Inl Pair gs show ?thesis
      by (auto simp: handle_request_detailed_def served_def live_def intro: covered_mono)
  next
    case (Inr u)
    with Pair serve_accepted [OF gs] gs show ?thesis
      by (simp add: handle_request_detailed_def live_def)
  qed
qed

text \<open>A turn of the loop either goes on with the session live or has finished it.\<close>

definition turned :: "u8 set \<Rightarrow> 'x loop_outcome \<Rightarrow> bool" where
  "turned C outcome \<longleftrightarrow>
     (case outcome of
        LoopContinue gs \<Rightarrow> live C gs
      | LoopReturn result gs \<Rightarrow> finished C gs \<and>
          (\<forall>record. result = Inr record \<longrightarrow> gs_terminal gs = Some record))"

lemma finish_return_turned:
  "session_inv gs \<Longrightarrow> gs_terminal gs = None \<Longrightarrow> covered C gs \<Longrightarrow> turned C (finish_return env reason gs)"
  using finish_return_finished [of gs C reason] by (auto simp: turned_def)

lemma fatal_return_turned:
  "session_inv gs \<Longrightarrow> gs_terminal gs = None \<Longrightarrow> covered C gs \<Longrightarrow> turned C (fatal_return env n code reason gs)"
  using fatal_return_finished [of gs C n code reason] by (auto simp: turned_def)

text \<open>A finished session stays finished when only the connection is used, for a send.\<close>

lemma finished_shrink:
  "finished C gs \<Longrightarrow> held x \<subseteq> held (gs_executor gs) \<Longrightarrow> finished C (gs\<lparr>gs_executor := x\<rparr>)"
  unfolding finished_def by (auto intro: covered_shrink)

lemma finish_record_done:
  assumes "finished C gs"
  shows "turned C (finish_return env reason gs)"
  using assms
  by (auto simp: finish_return_def finish_record_def finish_with_clock_def Let_def turned_def finished_def)

lemma answer_request_turned:
  assumes gs: "live C gs"
  shows "turned (C \<union> committed_keys req) (answer_request env n req now_ns gs)"
proof -
  let ?C = "C \<union> committed_keys req"
  obtain r gs' where h: "handle_request_detailed env n req now_ns gs = (r, gs')" by fastforce
  have s: "served ?C (r, gs')" using handle_request_served [OF gs, of req n now_ns] h by simp
  show ?thesis
  proof (cases r)
    case (Inl failure)
    with s h show ?thesis
      by (auto simp: served_def answer_request_def intro: fatal_return_turned)
  next
    case (Inr resp)
    obtain q x where x: "send_response env n resp (gs_executor gs') = (q, x)" by fastforce
    note shrink = send_response_held [OF x]
    show ?thesis
    proof (cases "is_terminal_response resp")
      case True
      with s Inr have "finished ?C gs'" by (simp add: served_def)
      then have fin: "finished ?C (gs'\<lparr>gs_executor := x\<rparr>)" by (rule finished_shrink [OF _ shrink])
      then show ?thesis
        using finish_record_done [OF fin, of PeerEof] True Inr h x
        by (cases q) (auto simp: answer_request_def turned_def finished_def)
    next
      case False
      with s Inr have "live ?C gs'" by (simp add: served_def)
      then have "live ?C (gs'\<lparr>gs_executor := x\<rparr>)" by (rule live_shrink [OF _ shrink])
      with False Inr h x show ?thesis
        by (cases q) (auto simp: answer_request_def turned_def live_def intro!: finish_return_turned [unfolded turned_def])
    qed
  qed
qed

lemma connection_turn_turned:
  assumes gs: "live C gs"
  shows "turned (C \<union> event_committed event) (connection_turn env event gs)"
proof -
  from gs have base: "session_inv gs" "gs_terminal gs = None" "covered C gs"
    by (simp_all add: live_def)
  have cov: "covered (C \<union> D) gs" for D using base(3) by (rule covered_mono) simp
  note ret = finish_return_turned [OF base(1,2) cov] fatal_return_turned [OF base(1,2) cov]
  show ?thesis
  proof (cases "\<exists>frame decoded req. event = Inr (Frame frame) \<and> frame \<noteq> [] \<and>
        decode_frame frame = Inr decoded \<and> df_message decoded = Request req")
    case True
    then obtain frame decoded req where ev: "event = Inr (Frame frame)" "frame \<noteq> []"
      "decode_frame frame = Inr decoded" "df_message decoded = Request req" by blast
    then have C: "event_committed event = committed_keys req" by (simp add: event_committed_def)
    obtain q x where x: "monotonic_now_ns env (gs_executor gs) = (q, x)" by fastforce
    have live': "live C (gs\<lparr>gs_executor := x\<rparr>)" by (rule live_shrink [OF gs clock_held [OF x]])
    have "finished (C \<union> D) (drop_session env (gs\<lparr>gs_executor := x\<rparr>))" for D
      using live' covered_mono [of C "gs\<lparr>gs_executor := x\<rparr>" "C \<union> D"]
      by (simp add: drop_session_def live_def finish_with_clock_finished)
    with ev C x answer_request_turned [OF live'] show ?thesis
      by (cases q) (simp_all add: connection_turn_def, simp add: turned_def)
  next
    case False
    then show ?thesis
      using ret by (auto simp: connection_turn_def split: sum.splits connection_event.splits message.splits)
  qed
qed

lemma connection_loop_finished:
  assumes "live C gs" and "connection_loop env events gs = Some (Inr record, x)"
    and "rec_proof record = Reconciled"
  shows "held x \<subseteq> C \<union> \<Union> (event_committed ` set events)"
  using assms
proof (induction events arbitrary: C gs)
  case (Cons event events)
  have turn: "turned (C \<union> event_committed event) (connection_turn env event gs)"
    by (rule connection_turn_turned [OF Cons.prems(1)])
  show ?case
  proof (cases "connection_turn env event gs")
    case (LoopContinue gs')
    with turn Cons.prems Cons.IH [of "C \<union> event_committed event" gs'] show ?thesis
      by (auto simp: turned_def)
  next
    case (LoopReturn result gs')
    with turn Cons.prems show ?thesis by (auto simp: turned_def finished_def)
  qed
qed simp

text \<open>A session that starts with no key held starts live.\<close>

lemma fresh_session_live:
  assumes "session_ready_after_handshake env session n x = Inr gs" and "held x = {}"
  shows "live {} gs"
proof -
  from assms(1) obtain protocol where p: "ready_after_handshake session n = Inr protocol"
    and gs: "gs = \<lparr>gs_executor = x, gs_protocol = protocol, next_token_id = 1, gs_terminal = None\<rparr>"
    by (auto simp: session_ready_after_handshake_def ready_with_protocol_def split: if_splits)
  from p have "pending_sync protocol = None" "last_prepared_token_id protocol = 0"
    by (auto simp: ready_after_handshake_def ready_def split: if_splits)
  with p gs assms(2) show ?thesis
    by (simp add: live_def session_inv_def covered_def up_done_def ready_after_handshake_inv)
qed

lemma run_connection_reconciled:
  assumes run: "run_connection_with_receiver env session events x = Some (Inr record, x')"
    and empty: "held x = {}" and recon: "rec_proof record = Reconciled"
  shows "held x' \<subseteq> \<Union> (event_committed ` set events)"
  using run_connection_Inr [OF run]
proof (elim disjE exE conjE)
  assume "x' = x"
  with empty show ?thesis by simp
next
  fix event rest now_ns y n gs resp z u
  assume ev: "events = event # rest" and y: "monotonic_now_ns env x = (Inr now_ns, y)"
    and gs: "session_ready_after_handshake env session n y = Inr gs"
    and z: "send_response env n resp y = (Inr u, z)"
    and loop: "connection_loop env rest (gs\<lparr>gs_executor := z\<rparr>) = Some (Inr record, x')"
  have "held y = {}" using clock_held [OF y] empty by simp
  then have "live {} gs" by (rule fresh_session_live [OF gs])
  moreover have "held z \<subseteq> held (gs_executor gs)"
    using send_response_held [OF z] \<open>held y = {}\<close> by simp
  ultimately have "live {} (gs\<lparr>gs_executor := z\<rparr>)" by (rule live_shrink)
  from connection_loop_finished [OF this loop recon] ev show ?thesis by auto
qed

end

end
