(* ===== verification/X11_Executor.thy ===== *)
theory X11_Executor
  imports Guardian_Session
begin

unbundle bit_operations_syntax

text \<open>
  The executor the guardian process runs on: src/src/daemon/xtest_guardian/x11.rs.

  \<open>X11ConnectionBoundary\<close>, behind which the \<open>x11rb\<close> client library sits, is a record of
  functions over the connection's state; the executor, the server identity and the emergency
  releaser are modelled on top of it.  The locale \<open>x11_server\<close> states what the X server documents
  about checked XTEST requests, and the executor is shown to meet the session's contract
  \<open>key_server\<close>.
\<close>

subsection \<open>Connection boundary\<close>

definition EPOCH_NONCE_BYTES :: nat where
  "EPOCH_NONCE_BYTES = 16"

definition X11_EVDEV_KEYCODE_OFFSET :: u16 where
  "X11_EVDEV_KEYCODE_OFFSET = 8"

record x11_setup_identity =
  su_root :: u32
  su_min_keycode :: u8
  su_max_keycode :: u8
  su_fingerprint :: "u8 list"

record 'c x11_boundary =
  setup_identity :: "'c \<Rightarrow> x11_setup_identity"
  create_epoch_marker :: "'c \<Rightarrow> u8 list \<Rightarrow> u32 res \<times> 'c"
  read_epoch_marker :: "'c \<Rightarrow> u32 \<Rightarrow> (u8 list) res \<times> 'c"
  keyboard_mapping :: "'c \<Rightarrow> u8 \<Rightarrow> (u32 list) res \<times> 'c"
  checked_fake_key :: "'c \<Rightarrow> u8 \<Rightarrow> bool \<Rightarrow> unit res \<times> 'c"
  round_trip :: "'c \<Rightarrow> unit res \<times> 'c"

definition executor_error :: "string \<Rightarrow> input_safety_error" where
  "executor_error context = Invariant context"

subsection \<open>Server identity\<close>

definition all_zero :: "u8 list \<Rightarrow> bool" where
  "all_zero bytes = list_all (\<lambda>b. b = 0) bytes"

text \<open>One byte of the setup fingerprint, at its offset, mixed into the epoch.\<close>

definition mix_byte :: "u8 list \<Rightarrow> nat \<times> u8 \<Rightarrow> u8 list" where
  "mix_byte epoch entry =
     (case entry of (offset, byte) \<Rightarrow>
        let first = offset mod length epoch;
            second = ((offset * 7) mod 2 ^ 64 + 5) mod 2 ^ 64 mod length epoch;
            epoch = epoch[first := (epoch ! first) XOR word_rotl (offset mod 8) byte]
        in epoch[second := (epoch ! second) + (byte XOR (of_nat offset * 29))])"

definition derive_server_epoch :: "u8 list \<Rightarrow> u8 list \<Rightarrow> server_epoch" where
  "derive_server_epoch seed fingerprint = foldl mix_byte seed (enumerate 0 fingerprint)"

definition verify_server_identity ::
  "'c x11_boundary \<Rightarrow> 'c \<Rightarrow> x11_server_identity \<Rightarrow> unit res \<times> 'c" where
  "verify_server_identity xb c identity =
     (if all_zero (id_epoch identity) \<or> id_root identity = 0 \<or> id_epoch_window identity = 0
         \<or> all_zero (id_epoch_nonce identity)
      then (Inl (input_safety ''X11 guardian server identity contains a zero field''), c)
      else if su_root (setup_identity xb c) \<noteq> id_root identity
      then (Inl (input_safety ''X11 connection root does not match guardian server identity''), c)
      else case read_epoch_marker xb c (id_epoch_window identity) of
        (Inl e, c) \<Rightarrow> (Inl e, c)
      | (Inr nonce, c) \<Rightarrow>
          if nonce \<noteq> id_epoch_nonce identity
          then (Inl (input_safety
                  ''X11 guardian epoch property does not match the expected identity''), c)
          else (Inr (), c))"

definition establish_guardian_identity ::
  "'c x11_boundary \<Rightarrow> 'c \<Rightarrow> u8 list \<Rightarrow> x11_server_identity res \<times> 'c" where
  "establish_guardian_identity xb c random =
     (let seed = take 16 random; nonce = drop 16 random; setup = setup_identity xb c in
      if all_zero seed \<or> all_zero nonce
      then (Inl (input_safety ''X11 guardian random identity material must be nonzero''), c)
      else if su_root setup = 0 \<or> su_min_keycode setup = 0
              \<or> su_min_keycode setup > su_max_keycode setup \<or> su_fingerprint setup = []
      then (Inl (input_safety ''X11 guardian setup identity is invalid''), c)
      else
        let epoch = derive_server_epoch seed (su_fingerprint setup) in
        if all_zero epoch
        then (Inl (input_safety ''X11 guardian derived a zero server epoch''), c)
        else case create_epoch_marker xb c nonce of
          (Inl e, c) \<Rightarrow> (Inl e, c)
        | (Inr window, c) \<Rightarrow>
            let identity = \<lparr>id_epoch = epoch, id_root = su_root setup, id_epoch_window = window,
                  id_epoch_nonce = nonce\<rparr> in
            (case verify_server_identity xb c identity of
               (Inl e, c) \<Rightarrow> (Inl e, c)
             | (Inr _, c) \<Rightarrow> (Inr identity, c)))"

subsection \<open>Executor\<close>

record 'c x11_executor =
  ex_connection :: 'c
  ex_identity :: x11_server_identity
  pending_confirmation :: "unit option"

definition from_connection ::
  "'c x11_boundary \<Rightarrow> 'c \<Rightarrow> x11_server_identity \<Rightarrow> 'c x11_executor res" where
  "from_connection xb c identity =
     (case verify_server_identity xb c identity of
        (Inl e, _) \<Rightarrow> Inl e
      | (Inr _, c) \<Rightarrow>
          Inr \<lparr>ex_connection = c, ex_identity = identity, pending_confirmation = None\<rparr>)"

definition checked_mutation ::
  "'c x11_boundary \<Rightarrow> 'c x11_executor \<Rightarrow> u8 \<Rightarrow> bool \<Rightarrow> string \<Rightarrow>
   (input_safety_error + unit) \<times> 'c x11_executor" where
  "checked_mutation xb ex keycode pressed failure =
     (case checked_fake_key xb (ex_connection ex) keycode pressed of
        (Inl _, c) \<Rightarrow> (Inl (executor_error failure),
                       ex\<lparr>ex_connection := c, pending_confirmation := None\<rparr>)
      | (Inr confirmation, c) \<Rightarrow>
          (Inr (), ex\<lparr>ex_connection := c, pending_confirmation := Some confirmation\<rparr>))"

definition x11_prepare_key ::
  "'c x11_boundary \<Rightarrow> 'c x11_executor \<Rightarrow> u16 \<Rightarrow>
   (input_safety_error + (u8 \<times> server_epoch)) \<times> 'c x11_executor" where
  "x11_prepare_key xb ex code =
     (if code = 0
      then (Inl (executor_error ''XTEST guardian evdev key code must be nonzero''), ex)
      else case checked_add code X11_EVDEV_KEYCODE_OFFSET of
        None \<Rightarrow> (Inl (executor_error ''XTEST guardian key code conversion overflowed''), ex)
      | Some raw \<Rightarrow>
          if \<not> unat raw < 2 ^ 8
          then (Inl (executor_error ''XTEST guardian key code is outside the X11 range''), ex)
          else
            let keycode = ucast raw :: u8; setup = setup_identity xb (ex_connection ex) in
            if keycode < su_min_keycode setup \<or> keycode > su_max_keycode setup
            then (Inl (executor_error
                    ''XTEST guardian key code is outside the server mapping range''), ex)
            else case keyboard_mapping xb (ex_connection ex) keycode of
              (Inl _, c) \<Rightarrow>
                (Inl (executor_error ''XTEST guardian could not read the keyboard mapping''),
                 ex\<lparr>ex_connection := c\<rparr>)
            | (Inr mapping, c) \<Rightarrow>
                if mapping = [] \<or> list_all (\<lambda>keysym. keysym = 0) mapping
                then (Inl (executor_error
                        ''XTEST guardian key code has no current keyboard mapping''),
                      ex\<lparr>ex_connection := c\<rparr>)
                else (Inr (keycode, id_epoch (ex_identity ex)), ex\<lparr>ex_connection := c\<rparr>))"

definition x11_key_down ::
  "'c x11_boundary \<Rightarrow> 'c x11_executor \<Rightarrow> u8 \<Rightarrow> (input_safety_error + unit) \<times> 'c x11_executor" where
  "x11_key_down xb ex keycode = checked_mutation xb ex keycode True ''XTEST guardian key-down failed''"

definition x11_key_up ::
  "'c x11_boundary \<Rightarrow> 'c x11_executor \<Rightarrow> u8 \<Rightarrow> (input_safety_error + unit) \<times> 'c x11_executor" where
  "x11_key_up xb ex keycode = checked_mutation xb ex keycode False ''XTEST guardian key-up failed''"

definition x11_synchronize ::
  "'c x11_executor \<Rightarrow> (input_safety_error + unit) \<times> 'c x11_executor" where
  "x11_synchronize ex =
     (case pending_confirmation ex of
        None \<Rightarrow>
          (Inl (executor_error ''XTEST guardian synchronization has no checked mutation''), ex)
      | Some _ \<Rightarrow> (Inr (), ex\<lparr>pending_confirmation := None\<rparr>))"

text \<open>
  The environment of the guardian process: the executor next to the process's clock and socket,
  which do not touch the X connection.
\<close>

definition on_executor ::
  "('a \<times> 'c x11_executor) \<times> 'io \<Rightarrow> 'a \<times> ('c x11_executor \<times> 'io)" where
  "on_executor r = (case r of ((a, ex), io) \<Rightarrow> (a, (ex, io)))"

definition x11_env ::
  "'c x11_boundary \<Rightarrow> ('io \<Rightarrow> u64 res \<times> 'io) \<Rightarrow> ('io \<Rightarrow> u8 list \<Rightarrow> unit res \<times> 'io) \<Rightarrow>
   ('c x11_executor \<times> 'io) env" where
  "x11_env xb now send =
     \<lparr>server_identity = (\<lambda>(ex, io). ex_identity ex),
      exec_prepare_key = (\<lambda>(ex, io) code. on_executor (x11_prepare_key xb ex code, io)),
      exec_key_down = (\<lambda>(ex, io) keycode. on_executor (x11_key_down xb ex keycode, io)),
      exec_key_up = (\<lambda>(ex, io) keycode. on_executor (x11_key_up xb ex keycode, io)),
      exec_synchronize = (\<lambda>(ex, io). on_executor (x11_synchronize ex, io)),
      monotonic_now_ns = (\<lambda>(ex, io). case now io of (r, io) \<Rightarrow> (r, (ex, io))),
      send_frame = (\<lambda>(ex, io) frame. case send io frame of (r, io) \<Rightarrow> (r, (ex, io)))\<rparr>"

subsection \<open>Emergency release\<close>

record 'c emergency_releaser =
  em_connection :: 'c
  em_identity :: x11_server_identity

definition verify_connection ::
  "'c x11_boundary \<Rightarrow> 'c \<Rightarrow> x11_server_identity \<Rightarrow> 'c emergency_releaser res" where
  "verify_connection xb c identity =
     (case verify_server_identity xb c identity of
        (Inl e, _) \<Rightarrow> Inl e
      | (Inr _, c) \<Rightarrow> Inr \<lparr>em_connection = c, em_identity = identity\<rparr>)"

definition release_token ::
  "'c x11_boundary \<Rightarrow> 'c emergency_releaser \<Rightarrow> prepared_token \<Rightarrow> unit res \<times> 'c emergency_releaser" where
  "release_token xb em token =
     (if tok_epoch token \<noteq> id_epoch (em_identity em) \<or> all_zero (tok_session token)
         \<or> token_id token = 0 \<or> evdev_code token = 0
      then (Inl (input_safety
              ''emergency XTEST token does not belong to the verified server epoch''), em)
      else case checked_add (evdev_code token) X11_EVDEV_KEYCODE_OFFSET of
        None \<Rightarrow> (Inl (input_safety ''emergency XTEST token key code is invalid''), em)
      | Some raw \<Rightarrow>
          if \<not> unat raw < 2 ^ 8
          then (Inl (input_safety ''emergency XTEST token key code is invalid''), em)
          else if x11_keycode token \<noteq> ucast raw
          then (Inl (input_safety
                  ''emergency XTEST token key code does not match its evdev code''), em)
          else case checked_fake_key xb (em_connection em) (x11_keycode token) False of
            (r, c) \<Rightarrow> (r, em\<lparr>em_connection := c\<rparr>))"

definition emergency_synchronize ::
  "'c x11_boundary \<Rightarrow> 'c emergency_releaser \<Rightarrow> unit res \<times> 'c emergency_releaser" where
  "emergency_synchronize xb em =
     (case round_trip xb (em_connection em) of (r, c) \<Rightarrow> (r, em\<lparr>em_connection := c\<rparr>))"

subsection \<open>Facts about the operations\<close>

lemma length_mix_byte [simp]: "length (mix_byte epoch entry) = length epoch"
  by (cases entry) (simp add: mix_byte_def Let_def)

lemma length_derive_server_epoch [simp]: "length (derive_server_epoch seed fingerprint) = length seed"
proof -
  have "length (foldl mix_byte seed xs) = length seed" for xs
    by (induction xs arbitrary: seed) simp_all
  then show ?thesis by (simp add: derive_server_epoch_def)
qed

text \<open>The conversion from evdev codes to X11 keycodes that both the executor and the releaser do.\<close>

lemma keycode_offset:
  assumes "checked_add code X11_EVDEV_KEYCODE_OFFSET = Some raw" and "unat raw < 2 ^ 8"
  shows "unat (ucast raw :: u8) = unat code + 8"
proof -
  have "unat raw = unat code + 8"
    using conjunct1 [OF checked_add_Some [OF assms(1)]] by (simp add: X11_EVDEV_KEYCODE_OFFSET_def)
  moreover have "unat (ucast raw :: u8) = unat raw"
    using assms(2) by (simp add: unsigned_ucast_eq take_bit_nat_eq_self)
  ultimately show ?thesis by simp
qed

lemma x11_prepare_key_Inr:
  assumes "x11_prepare_key xb ex code = (Inr (keycode, epoch), ex')"
  shows "code \<noteq> 0 \<and> epoch = id_epoch (ex_identity ex) \<and> unat keycode = unat code + 8 \<and>
    su_min_keycode (setup_identity xb (ex_connection ex)) \<le> keycode \<and>
    keycode \<le> su_max_keycode (setup_identity xb (ex_connection ex)) \<and>
    (\<exists>raw. checked_add code X11_EVDEV_KEYCODE_OFFSET = Some raw \<and> unat raw < 2 ^ 8 \<and> keycode = ucast raw)"
proof -
  from assms obtain raw where raw: "checked_add code X11_EVDEV_KEYCODE_OFFSET = Some raw" "unat raw < 2 ^ 8"
    and rest: "keycode = ucast raw" "code \<noteq> 0" "epoch = id_epoch (ex_identity ex)"
      "su_min_keycode (setup_identity xb (ex_connection ex)) \<le> keycode"
      "keycode \<le> su_max_keycode (setup_identity xb (ex_connection ex))"
    by (auto simp: x11_prepare_key_def Let_def split: if_splits option.splits prod.splits sum.splits)
  with keycode_offset [OF raw] show ?thesis by blast
qed

subsection \<open>The X server's contract and the session's\<close>

text \<open>
  \<open>down c\<close> are the keys the XTEST device holds in connection state \<open>c\<close>.  A checked request that is
  confirmed has been executed by the server; one that fails may or may not have been; reading
  the mapping presses nothing.
\<close>

locale x11_server =
  fixes xb :: "'c x11_boundary"
    and down :: "'c \<Rightarrow> u8 set"
  assumes press: "checked_fake_key xb c k True = (r, c') \<Longrightarrow> down c' \<subseteq> insert k (down c)"
    and release: "checked_fake_key xb c k False = (r, c') \<Longrightarrow> down c' \<subseteq> down c"
    and released: "checked_fake_key xb c k False = (Inr u, c') \<Longrightarrow> k \<notin> down c'"
    and mapping: "keyboard_mapping xb c k = (q, c') \<Longrightarrow> down c' \<subseteq> down c"

sublocale x11_server \<subseteq> key_server "x11_env xb now send" "\<lambda>x. down (ex_connection (fst x))"
  for now :: "'io \<Rightarrow> u64 res \<times> 'io" and send
proof unfold_locales
  fix x x' :: "'c x11_executor \<times> 'io" and k r
  obtain ex io where x: "x = (ex, io)" by fastforce
  show "down (ex_connection (fst x')) \<subseteq> insert k (down (ex_connection (fst x)))"
    if "exec_key_down (x11_env xb now send) x k = (r, x')"
    using that press [of "ex_connection ex" k]
    by (auto simp: x x11_env_def on_executor_def x11_key_down_def checked_mutation_def
        split: prod.splits sum.splits)
  show "down (ex_connection (fst x')) \<subseteq> down (ex_connection (fst x))"
    if "exec_key_up (x11_env xb now send) x k = (r, x')"
    using that release [of "ex_connection ex" k]
    by (auto simp: x x11_env_def on_executor_def x11_key_up_def checked_mutation_def
        split: prod.splits sum.splits)
  show "k \<notin> down (ex_connection (fst x'))"
    if "exec_key_up (x11_env xb now send) x k = (Inr u, x')" for u
    using that released [of "ex_connection ex" k]
    by (auto simp: x x11_env_def on_executor_def x11_key_up_def checked_mutation_def
        split: prod.splits sum.splits)
  show "down (ex_connection (fst x')) \<subseteq> down (ex_connection (fst x))"
    if "exec_synchronize (x11_env xb now send) x = (r, x')"
    using that by (auto simp: x x11_env_def on_executor_def x11_synchronize_def split: option.splits)
  show "down (ex_connection (fst x')) \<subseteq> down (ex_connection (fst x))"
    if "exec_prepare_key (x11_env xb now send) x code = (q, x')" for code q
    using that
    by (auto simp: x x11_env_def on_executor_def x11_prepare_key_def Let_def dest!: mapping
        split: if_splits prod.splits sum.splits option.splits)
  show "down (ex_connection (fst x')) \<subseteq> down (ex_connection (fst x))"
    if "monotonic_now_ns (x11_env xb now send) x = (n, x')" for n
    using that by (auto simp: x x11_env_def split: prod.splits)
  show "down (ex_connection (fst x')) \<subseteq> down (ex_connection (fst x))"
    if "send_frame (x11_env xb now send) x frame = (s, x')" for frame s
    using that by (auto simp: x x11_env_def split: prod.splits)
qed

context x11_server
begin

lemma x11_run_reconciled:
  "run_connection_with_receiver (x11_env xb now send) session events (ex, io) = Some (Inr record, (ex', io')) \<Longrightarrow>
   down (ex_connection ex) = {} \<Longrightarrow> rec_proof record = Reconciled \<Longrightarrow>
   down (ex_connection ex') \<subseteq> \<Union> (event_committed ` set events)"
  using run_connection_reconciled [where x = "(ex, io)" and x' = "(ex', io')"] by simp

end

subsection \<open>A simulated server\<close>

text \<open>
  An X server small enough to run: it executes every checked request, maps every keycode and
  stores one epoch marker.  It meets the contract, and the guardian can be run on it.
\<close>

record sim_x =
  sim_down :: "u8 list"
  sim_marker :: "u8 list"

definition sim_boundary :: "sim_x x11_boundary" where
  "sim_boundary =
     \<lparr>setup_identity = (\<lambda>c. \<lparr>su_root = 5, su_min_keycode = 8, su_max_keycode = 255, su_fingerprint = [1, 2, 3]\<rparr>),
      create_epoch_marker = (\<lambda>c nonce. (Inr 77, c\<lparr>sim_marker := nonce\<rparr>)),
      read_epoch_marker = (\<lambda>c window. (Inr (sim_marker c), c)),
      keyboard_mapping = (\<lambda>c k. (Inr [97], c)),
      checked_fake_key = (\<lambda>c k pressed. (Inr (),
        if pressed then c\<lparr>sim_down := k # sim_down c\<rparr>
        else c\<lparr>sim_down := filter (\<lambda>j. j \<noteq> k) (sim_down c)\<rparr>)),
      round_trip = (\<lambda>c. (Inr (), c))\<rparr>"

interpretation sim: x11_server sim_boundary "\<lambda>c. set (sim_down c)"
  by unfold_locales (auto simp: sim_boundary_def)

text \<open>The process's clock shows one time, and its socket keeps what was sent.\<close>

definition sim_env :: "(sim_x x11_executor \<times> u8 list list) env" where
  "sim_env = x11_env sim_boundary (\<lambda>io. (Inr 1000, io)) (\<lambda>io frame. (Inr (), io @ [frame]))"

definition sim_start :: "sim_x x11_executor" where
  "sim_start =
     \<lparr>ex_connection = \<lparr>sim_down = [], sim_marker = replicate 16 4\<rparr>,
      ex_identity = \<lparr>id_epoch = replicate 16 2, id_root = 5, id_epoch_window = 77, id_epoch_nonce = replicate 16 4\<rparr>,
      pending_confirmation = None\<rparr>"

end
