(* ===== verification/Guardian_Properties.thy ===== *)
theory Guardian_Properties
  imports X11_Executor
begin

text \<open>
  Properties of the guardian process as a whole: its answers, the end of a session, and the keys
  it may leave pressed (src/src/daemon/xtest_guardian/service.rs and x11.rs).
\<close>

subsection \<open>A sample connection\<close>

text \<open>Hello, prepare and press the key with evdev code 30, then ask the guardian to exit.\<close>

definition sim_requests :: "request list" where
  "sim_requests =
     [Hello (replicate 16 3) 2000, PrepareKey 1 30 2000, ExecuteDown 1 (sample_token 1) 2000,
      ReleaseAllAndExit 2000]"

definition request_events :: "request list \<Rightarrow> connection_event res list" where
  "request_events reqs =
     map (\<lambda>(n, req). and_then (encode_frame (of_nat n) (Request req)) (\<lambda>frame. Inr (Frame frame)))
       (enumerate 1 reqs)"

lemma sim_run:
  "\<exists>ex io. run_connection_with_receiver sim_env sample_session (request_events sim_requests) (sim_start, []) =
     Some (Inr \<lparr>rec_reason = StopRequested, rec_proof = Reconciled\<rparr>, (ex, io))"
proof -
  have "case run_connection_with_receiver sim_env sample_session (request_events sim_requests) (sim_start, []) of
      None \<Rightarrow> False
    | Some (r, _) \<Rightarrow> r = Inr \<lparr>rec_reason = StopRequested, rec_proof = Reconciled\<rparr>"
    by code_simp
  then show ?thesis by (auto split: option.splits)
qed

subsection \<open>The connection loop\<close>

text \<open>
  C1: no stuck key.  Take an X server that behaves as XTEST documents for checked requests, and
  run the guardian on any events (frames of any content, a signal, errors and the peer's
  disappearance) starting with no key pressed.  If the run ends with the terminal proof
  \<open>Reconciled\<close>, the only keys that may still be pressed are those whose physical release the daemon
  committed itself.
\<close>

theorem reconciled_leaves_no_key_down:
  fixes xb :: "'c x11_boundary" and down :: "'c \<Rightarrow> u8 set"
    and now :: "'io \<Rightarrow> u64 res \<times> 'io"
  assumes press: "\<And>c k r c'. checked_fake_key xb c k True = (r, c') \<Longrightarrow> down c' \<subseteq> insert k (down c)"
    and release: "\<And>c k r c'. checked_fake_key xb c k False = (r, c') \<Longrightarrow> down c' \<subseteq> down c"
    and released: "\<And>c k u c'. checked_fake_key xb c k False = (Inr u, c') \<Longrightarrow> k \<notin> down c'"
    and mapping: "\<And>c k q c'. keyboard_mapping xb c k = (q, c') \<Longrightarrow> down c' \<subseteq> down c"
    and run: "run_connection_with_receiver (x11_env xb now send) session events (ex, io) =
       Some (Inr record, (ex', io'))"
    and start: "down (ex_connection ex) = {}"
    and reconciled: "rec_proof record = Reconciled"
  shows "down (ex_connection ex') \<subseteq> \<Union> (event_committed ` set events)"
proof -
  have "x11_server xb down"
    using press release released mapping by unfold_locales auto
  from x11_server.x11_run_reconciled [OF this run start reconciled] show ?thesis .
qed

theorem reconciled_leaves_no_key_down_witness:
  "\<exists>ex io. run_connection_with_receiver sim_env sample_session (request_events sim_requests) (sim_start, []) =
     Some (Inr \<lparr>rec_reason = StopRequested, rec_proof = Reconciled\<rparr>, (ex, io)) \<and>
   set (sim_down (ex_connection ex)) \<subseteq> \<Union> (event_committed ` set (request_events sim_requests))"
proof -
  from sim_run obtain ex io where
    run: "run_connection_with_receiver sim_env sample_session (request_events sim_requests) (sim_start, []) =
     Some (Inr \<lparr>rec_reason = StopRequested, rec_proof = Reconciled\<rparr>, (ex, io))" by blast
  have "set (sim_down (ex_connection ex)) \<subseteq> \<Union> (event_committed ` set (request_events sim_requests))"
    by (rule reconciled_leaves_no_key_down [where down = "\<lambda>c. set (sim_down c)",
          OF sim.press sim.release sim.released sim.mapping run [unfolded sim_env_def]])
      (simp_all add: sim_start_def)
  with run show ?thesis by blast
qed

subsection \<open>Answers\<close>

lemma serve_request_pairs:
  "serve_request env req gs = (Inr resp, gs') \<Longrightarrow> response_pairs req resp"
  by (cases req)
    (auto simp: serve_request_def serve_prepare_def serve_execute_down_def serve_key_up_def
      serve_synchronize_def response_pairs_def Let_def
      split: prod.splits sum.splits if_splits option.splits)

text \<open>
  Every answer fits its request.  What the session returns for a request passes the check the
  daemon applies to it, sent with the request's sequence number.
\<close>

theorem answer_matches_request:
  assumes "handle_request_detailed env n req now_ns gs = (Inr resp, gs')"
  shows "response_matches n req \<lparr>df_sequence = n, df_message = Response resp\<rparr> = Inr ()"
proof -
  have "response_pairs req resp"
    using assms by (auto simp: handle_request_detailed_def split: if_splits prod.splits sum.splits
        dest: serve_request_pairs)
  then show ?thesis by (auto simp: response_matches_def split: response.splits)
qed

definition sim_session :: "(sim_x x11_executor \<times> u8 list list) guardian_session" where
  "sim_session = \<lparr>gs_executor = (sim_start, []), gs_protocol = sample_down, next_token_id = 8, gs_terminal = None\<rparr>"

theorem answer_matches_request_witness:
  "fst (handle_request_detailed sim_env 5 (KeyUp 1 (sample_token 7) (CleanupDeadline 2000)) 1000 sim_session) =
     Inr (UpAck 1 7) \<and>
   response_matches 5 (KeyUp 1 (sample_token 7) (CleanupDeadline 2000))
     \<lparr>df_sequence = 5, df_message = Response (UpAck 1 7)\<rparr> = Inr ()"
proof -
  have "fst (handle_request_detailed sim_env 5 (KeyUp 1 (sample_token 7) (CleanupDeadline 2000)) 1000 sim_session) =
     Inr (UpAck 1 7)" by code_simp
  then show ?thesis using answer_matches_request by (metis prod.collapse)
qed

text \<open>
  A key-down is accounted for whatever the executor answers.  Once a key-down request has
  been accepted, its token is a debt of the session after the request has been handled, also
  when the executor failed, and then the answer is the backend failure.
\<close>

theorem down_attempt_is_debt:
  assumes inv: "session_inv gs" and open_session: "gs_terminal gs = None"
    and acc: "accept (gs_protocol gs) n (ExecuteDown operation token deadline) now_ns = (Inr (), protocol)"
    and h: "handle_request_detailed env n (ExecuteDown operation token deadline) now_ns gs = (r, gs')"
  shows "token \<in> debts (gs_protocol gs') \<and>
    (r = Inr (DownAck operation (token_id token)) \<or>
     (\<exists>e. r = Inl (failure_backend e) \<and>
        fst (exec_key_down env (gs_executor gs) (x11_keycode token)) = Inl e))"
proof -
  from inv have pinv: "protocol_inv (gs_protocol gs)" by (simp add: session_inv_def)
  from execute_down_then_attempt [OF pinv acc] obtain protocol' where
    rda: "record_down_attempt protocol (token_id token) = (Inr (), protocol')" by blast
  have "token \<in> debts protocol'"
    using record_down_attempt_debts [OF rda] execute_down_is_debt [OF acc] by blast
  with h acc open_session rda show ?thesis
    by (auto simp: handle_request_detailed_def serve_request_def serve_execute_down_def
        split: prod.splits sum.splits)
qed

theorem down_attempt_is_debt_witness:
  "sample_token 7 \<in> debts (gs_protocol (snd (handle_request_detailed sim_env 3
     (ExecuteDown 1 (sample_token 7) 2000) 1000 (sim_session\<lparr>gs_protocol := sample_prepared\<rparr>))))"
proof -
  let ?gs = "sim_session\<lparr>gs_protocol := sample_prepared\<rparr>"
  have acc: "accept (gs_protocol ?gs) 3 (ExecuteDown 1 (sample_token 7) 2000) 1000 =
     (Inr (), protocol_step sample_prepared (CallAccept 3 (ExecuteDown 1 (sample_token 7) 2000) 1000))"
    by code_simp
  have "last_prepared_token_id sample_prepared < 8" by code_simp
  then have "session_inv ?gs" "gs_terminal ?gs = None"
    using sample_inv by (simp_all add: session_inv_def sim_session_def)
  from down_attempt_is_debt [OF this acc prod.collapse [symmetric]] show ?thesis by blast
qed

subsection \<open>The end of a session\<close>

text \<open>
  The terminal proof is exact and final.  Finishing a session reports \<open>Reconciled\<close> exactly
  when no debt is left and otherwise their number, which is at most 32 and so is not truncated
  on the wire; finishing again, for whatever reason, reports the same and changes nothing.
\<close>

theorem terminal_proof_exact:
  assumes inv: "session_inv gs" and open_session: "gs_terminal gs = None"
    and fin: "finish_until env reason deadline_ns gs = (terminal_proof, gs')"
  shows "terminal_proof = (if debts (gs_protocol gs') = {} then Reconciled
           else Unreconciled (debt_count (gs_protocol gs'))) \<and>
    debt_count (gs_protocol gs') \<le> 32 \<and>
    wire_terminal_proof_of terminal_proof = (if debts (gs_protocol gs') = {} then WireReconciled
           else WireUnreconciled (of_nat (debt_count (gs_protocol gs')))) \<and>
    finish_until env reason' deadline' gs' = (terminal_proof, gs')"
proof -
  have "session_inv gs'" using finish_until_inv [OF inv, of env reason deadline_ns] fin by simp
  then have "debt_count (gs_protocol gs') \<le> 32"
    by (simp add: session_inv_def protocol_inv_def MAX_ACTIVE_DEBTS_def)
  with fin open_session show ?thesis
    by (auto simp: finish_until_def Let_def debts_empty_iff split: if_splits)
qed

theorem terminal_proof_exact_witness:
  "fst (finish_until sim_env StopSignal 2000 sim_session) =
     (if debts (gs_protocol (snd (finish_until sim_env StopSignal 2000 sim_session))) = {} then Reconciled
      else Unreconciled (debt_count (gs_protocol (snd (finish_until sim_env StopSignal 2000 sim_session)))))"
proof -
  have "last_prepared_token_id sample_down < 8" by code_simp
  then have "session_inv sim_session" "gs_terminal sim_session = None"
    using sample_inv by (simp_all add: session_inv_def sim_session_def)
  from terminal_proof_exact [OF this prod.collapse [symmetric], of sim_env StopSignal 2000] show ?thesis
    by blast
qed

text \<open>The cleanup loop acknowledges everything when nothing fails in time.\<close>

lemma acknowledge_removes:
  assumes "protocol_inv s" and "token \<in> debts s"
  shows "debts (snd (acknowledge_cleanup_release s (token_id token))) = debts s - {token}"
proof
  show "debts s - {token} \<subseteq> debts (snd (acknowledge_cleanup_release s (token_id token)))"
    using acknowledge_debts distinct_debt_ids [OF assms(1)] assms(2) by blast
  from assms(2) obtain t where t: "t \<in> set (tokens s)" "tr_token t = token" "tr_state t \<noteq> TokPrepared"
    by (auto simp: debts_iff)
  then obtain i where i: "position (\<lambda>t. tr_id t = token_id token \<and> tr_state t \<noteq> TokPrepared) (tokens s) = Some i"
    using position_exists [of t "tokens s" "\<lambda>t. tr_id t = token_id token \<and> tr_state t \<noteq> TokPrepared"] by auto
  have dist: "distinct (map tr_id (tokens s))" using assms(1) by (simp add: protocol_inv_def)
  then have "tokens s ! i = t"
    using position_SomeD [OF i] same_id_same_token [OF dist _ t(1)] t(2) by simp
  then have "set (remove_at i (tokens s)) = set (tokens s) - {t}"
    using set_remove_at_distinct [of "tokens s" i] dist position_SomeD [OF i] by (auto simp: distinct_map)
  moreover have "tr_token u \<noteq> token" if "u \<in> set (tokens s)" "u \<noteq> t" for u
    using that t same_id_same_token [OF dist _ t(1)] by metis
  ultimately show "debts (snd (acknowledge_cleanup_release s (token_id token))) \<subseteq> debts s - {token}"
    using i by (auto simp: acknowledge_cleanup_release_def debts_iff)
qed

lemma cleanup_loop_complete:
  assumes in_time: "\<And>x. fst (monotonic_now_ns_or_zero env x) < deadline_ns"
    and up: "\<And>x k. is_ok (fst (exec_key_up env x k))"
    and sync: "\<And>x k. is_ok (fst (exec_synchronize env (snd (monotonic_now_ns_or_zero env (snd (exec_key_up env x k))))))"
  shows "\<lbrakk>session_inv gs; closing (gs_protocol gs); set ts \<subseteq> debts (gs_protocol gs); distinct (map token_id ts)\<rbrakk> \<Longrightarrow>
    debts (gs_protocol (cleanup_loop env deadline_ns ts gs)) = debts (gs_protocol gs) - set ts"
proof (induction ts arbitrary: gs)
  case (Cons token ts)
  obtain now1 x1 where x1: "monotonic_now_ns_or_zero env (gs_executor gs) = (now1, x1)" by fastforce
  obtain r x2 where x2: "exec_key_up env x1 (x11_keycode token) = (r, x2)" by fastforce
  obtain now2 x3 where x3: "monotonic_now_ns_or_zero env x2 = (now2, x3)" by fastforce
  obtain q x4 where x4: "exec_synchronize env x3 = (q, x4)" by fastforce
  let ?gs = "gs\<lparr>gs_executor := x4,
     gs_protocol := snd (acknowledge_cleanup_release (gs_protocol gs) (token_id token))\<rparr>"
  have "\<not> now1 \<ge> deadline_ns" "\<not> now2 \<ge> deadline_ns" "is_ok r" "is_ok q"
    using in_time [of "gs_executor gs"] in_time [of x2] up [of x1 "x11_keycode token"]
      sync [of x1 "x11_keycode token"] x1 x2 x3 x4
    by (simp_all add: not_le)
  then have "cleanup_loop env deadline_ns (token # ts) gs = cleanup_loop env deadline_ns ts ?gs"
    using x1 x2 x3 x4 by simp
  moreover have removed: "debts (gs_protocol ?gs) = debts (gs_protocol gs) - {token}"
    using Cons.prems acknowledge_removes by (simp add: session_inv_def)
  moreover have "debts (gs_protocol (cleanup_loop env deadline_ns ts ?gs)) = debts (gs_protocol ?gs) - set ts"
  proof (rule Cons.IH)
    show "session_inv ?gs"
      using acknowledge_session_inv [of "gs\<lparr>gs_executor := x4\<rparr>"] Cons.prems by simp
    show "closing (gs_protocol ?gs)" using acknowledge_closing(1) Cons.prems by simp
    show "set ts \<subseteq> debts (gs_protocol ?gs)" using removed Cons.prems by auto
  qed (use Cons.prems in simp)
  ultimately show ?case by auto
qed simp

text \<open>
  C14: cleanup succeeds when it can.  If the clock stays before the deadline, every key-up succeeds
  and so does the synchronize that follows it, finishing a session releases every debt and reports \<open>Reconciled\<close>.
\<close>

theorem finish_reconciles:
  assumes inv: "session_inv gs" and open_session: "gs_terminal gs = None"
    and in_time: "\<And>x. fst (monotonic_now_ns_or_zero env x) < deadline_ns"
    and up: "\<And>x k. is_ok (fst (exec_key_up env x k))"
    and sync: "\<And>x k. is_ok (fst (exec_synchronize env (snd (monotonic_now_ns_or_zero env (snd (exec_key_up env x k))))))"
  shows "fst (finish_until env reason deadline_ns gs) = Reconciled \<and>
    debts (gs_protocol (snd (finish_until env reason deadline_ns gs))) = {}"
proof -
  let ?s = "begin_terminal (gs_protocol gs)"
  let ?gs = "cleanup_loop env deadline_ns (cleanup_tokens_reverse ?s) (gs\<lparr>gs_protocol := ?s\<rparr>)"
  have "protocol_inv ?s" using inv begin_terminal_inv by (simp add: session_inv_def)
  then have "debts (gs_protocol ?gs) = debts ?s - debts ?s"
    using cleanup_loop_complete [OF in_time up sync, of "gs\<lparr>gs_protocol := ?s\<rparr>" "cleanup_tokens_reverse ?s"]
      cleanup_tokens [of ?s] begin_terminal_session [OF inv] by simp
  then have "debts (gs_protocol ?gs) = {}" by simp
  then show ?thesis
    using open_session by (simp add: finish_until_def Let_def debts_empty_iff)
qed

theorem finish_reconciles_witness:
  "fst (finish_until sim_env StopSignal 2000 sim_session) = Reconciled"
proof -
  have "last_prepared_token_id sample_down < 8" by code_simp
  then have "session_inv sim_session" "gs_terminal sim_session = None"
    using sample_inv by (simp_all add: session_inv_def sim_session_def)
  moreover have "fst (monotonic_now_ns_or_zero sim_env x) < 2000" for x
    by (cases x) (simp add: sim_env_def x11_env_def monotonic_now_ns_or_zero_def)
  moreover have "is_ok (fst (exec_key_up sim_env x k))" for x k
    by (cases x) (simp add: sim_env_def x11_env_def on_executor_def x11_key_up_def checked_mutation_def sim_boundary_def)
  moreover have "is_ok (fst (exec_synchronize sim_env (snd (monotonic_now_ns_or_zero sim_env (snd (exec_key_up sim_env x k))))))"
    for x k
    by (cases x) (simp add: sim_env_def x11_env_def on_executor_def x11_key_up_def checked_mutation_def
        sim_boundary_def monotonic_now_ns_or_zero_def x11_synchronize_def)
  ultimately show ?thesis using finish_reconciles by blast
qed

subsection \<open>Refusals\<close>

lemma future_deadline_codes:
  assumes "\<not> deadline_in_window now_ns deadline MAX_TRANSACTION_TIMEOUT_NS" and "\<not> terminal s"
  shows "\<exists>e. validate_normal_deadline s deadline now_ns = Inl e \<and>
    protocol_fatal_code e = (if deadline \<le> now_ns then FatalDeadlineExpired else FatalDeadlineTooFar)"
proof (cases "deadline \<le> now_ns")
  case True
  then have "validate_normal_deadline s deadline now_ns = Inl (protocol_error ''XTEST guardian mutation deadline expired'')"
    using assms(2) by (auto simp: validate_normal_deadline_def validate_future_deadline_def checked_sub_def)
  moreover have "protocol_fatal_code (protocol_error ''XTEST guardian mutation deadline expired'') = FatalDeadlineExpired"
    by (simp add: protocol_fatal_code_def protocol_error_def input_safety_def)
  ultimately show ?thesis using True by simp
next
  case False
  then have "validate_normal_deadline s deadline now_ns \<noteq> Inr ()"
    using assms by (simp add: validate_normal_deadline_iff)
  with False assms(2) have "validate_normal_deadline s deadline now_ns =
      Inl (protocol_error ''XTEST guardian mutation deadline is too far in the future'')"
    by (auto simp: validate_normal_deadline_def validate_future_deadline_def checked_sub_def split: if_splits)
  moreover have "protocol_fatal_code (protocol_error ''XTEST guardian mutation deadline is too far in the future'') =
      FatalDeadlineTooFar"
    by (simp add: protocol_fatal_code_def protocol_error_def input_safety_def)
  ultimately show ?thesis using False by simp
qed

text \<open>
  Refusals are classified by their cause.  A fresh prepare or key-down request on a live
  session whose deadline has passed is answered with the deadline-expired code, and one whose
  deadline is more than five seconds ahead with the deadline-too-far code; the session is left
  unchanged.
\<close>

theorem deadline_refusal_code:
  assumes fresh: "last_sequence (gs_protocol gs) < n" and open_session: "gs_terminal gs = None"
    and live: "\<not> terminal (gs_protocol gs)"
    and req: "req = PrepareKey operation code deadline \<or> req = ExecuteDown operation token deadline"
    and window: "\<not> deadline_in_window now_ns deadline MAX_TRANSACTION_TIMEOUT_NS"
  shows "\<exists>failure. handle_request_detailed env n req now_ns gs = (Inl failure, gs) \<and>
    rf_reason failure = StopProtocolViolation \<and>
    rf_code failure = (if deadline \<le> now_ns then FatalDeadlineExpired else FatalDeadlineTooFar)"
proof -
  obtain e where e: "validate_normal_deadline (gs_protocol gs) deadline now_ns = Inl e"
    "protocol_fatal_code e = (if deadline \<le> now_ns then FatalDeadlineExpired else FatalDeadlineTooFar)"
    using future_deadline_codes [OF window live] by blast
  have "n \<noteq> 0" using fresh by auto
  then have "accept (gs_protocol gs) n req now_ns = (Inl e, gs_protocol gs)"
    using req e(1) fresh
    by (auto simp: accept_def accept_request_def accept_prepare_def accept_execute_down_def not_le)
  then show ?thesis
    using e(2) open_session by (simp add: handle_request_detailed_def failure_protocol_def)
qed

theorem deadline_refusal_code_witness:
  "\<exists>failure. handle_request_detailed sim_env 9 (PrepareKey 2 30 900) 1000 sim_session = (Inl failure, sim_session) \<and>
    rf_code failure = FatalDeadlineExpired"
proof -
  have "last_sequence (gs_protocol sim_session) < 9" "gs_terminal sim_session = None"
    "\<not> terminal (gs_protocol sim_session)" by code_simp+
  moreover have "\<not> deadline_in_window 1000 900 MAX_TRANSACTION_TIMEOUT_NS"
    by (simp add: deadline_in_window_def)
  ultimately show ?thesis
    using deadline_refusal_code [of sim_session 9 "PrepareKey 2 30 900" 2 30 900 "sample_token 7" 1000 sim_env]
    by auto
qed

subsection \<open>Key codes and identities\<close>

text \<open>
  Prepared keys can be released in an emergency.  Whatever key code the executor accepts,
  the keycode it prepares is the evdev code plus eight, within the server's range and nonzero;
  and a token with that keycode passes every check of the emergency releaser bound to the same
  server identity, which then issues exactly the release of that keycode.
\<close>

theorem prepared_token_is_releasable:
  assumes prep: "x11_prepare_key xb ex code = (Inr (keycode, epoch), ex')"
    and token: "token = \<lparr>tok_session = session, tok_epoch = epoch, token_id = tid, evdev_code = code,
      x11_keycode = keycode\<rparr>"
    and ids: "\<not> all_zero session" "tid \<noteq> 0" and same: "em_identity em = ex_identity ex"
  shows "unat keycode = unat code + 8 \<and> keycode \<noteq> 0 \<and>
    release_token xb em token =
      (fst (checked_fake_key xb (em_connection em) keycode False),
       em\<lparr>em_connection := snd (checked_fake_key xb (em_connection em) keycode False)\<rparr>)"
proof -
  note p = x11_prepare_key_Inr [OF prep]
  from p have "unat keycode \<noteq> 0" by simp
  then have "keycode \<noteq> 0" by auto
  with p ids same show ?thesis
    by (auto simp: release_token_def token split: prod.splits)
qed

theorem prepared_token_is_releasable_witness:
  "fst (x11_prepare_key sim_boundary sim_start 30) = Inr (38, replicate 16 2) \<and>
   release_token sim_boundary \<lparr>em_connection = ex_connection sim_start, em_identity = ex_identity sim_start\<rparr> (sample_token 7) =
     (Inr (), \<lparr>em_connection = ex_connection sim_start, em_identity = ex_identity sim_start\<rparr>)"
proof -
  have prep: "x11_prepare_key sim_boundary sim_start 30 = (Inr (38, replicate 16 2), sim_start)" by code_simp
  have ids: "\<not> all_zero (replicate 16 1)" by code_simp
  have eval: "checked_fake_key sim_boundary (ex_connection sim_start) 38 False = (Inr (), ex_connection sim_start)"
    by (simp add: sim_boundary_def sim_start_def)
  show ?thesis
    using prepared_token_is_releasable [OF prep refl ids, of 7
        "\<lparr>em_connection = ex_connection sim_start, em_identity = ex_identity sim_start\<rparr>"] prep eval
    by (simp add: sample_token_def)
qed

text \<open>
  An established identity is verified.  When the guardian establishes its X11 identity, the
  epoch has 16 bytes and is not all zero, the root, window and nonce are nonzero, the root is the
  connection's, and the nonce was read back from the window it was written to.
\<close>

theorem established_identity_verified:
  assumes len: "length random = 32"
    and est: "establish_guardian_identity xb c random = (Inr identity, c')"
  shows "length (id_epoch identity) = 16 \<and> \<not> all_zero (id_epoch identity) \<and> id_root identity \<noteq> 0 \<and>
    id_epoch_window identity \<noteq> 0 \<and> \<not> all_zero (id_epoch_nonce identity) \<and>
    id_epoch_nonce identity = drop 16 random \<and> id_root identity = su_root (setup_identity xb c) \<and>
    (\<exists>c1. create_epoch_marker xb c (drop 16 random) = (Inr (id_epoch_window identity), c1) \<and>
       su_root (setup_identity xb c1) = id_root identity \<and>
       read_epoch_marker xb c1 (id_epoch_window identity) = (Inr (drop 16 random), c'))"
  using est len
  by (auto simp: establish_guardian_identity_def verify_server_identity_def Let_def
      split: if_splits prod.splits sum.splits)

theorem established_identity_verified_witness:
  "\<exists>identity. fst (establish_guardian_identity sim_boundary \<lparr>sim_down = [], sim_marker = []\<rparr> (replicate 32 9)) = Inr identity \<and>
    \<not> all_zero (id_epoch identity)"
proof -
  let ?r = "establish_guardian_identity sim_boundary \<lparr>sim_down = [], sim_marker = []\<rparr> (replicate 32 9)"
  have "is_ok (fst ?r)" by code_simp
  then obtain identity c' where r: "?r = (Inr identity, c')"
    by (cases ?r; cases "fst ?r") auto
  from established_identity_verified [OF _ r] show ?thesis by (simp add: r)
qed

end
