(* ===== verification/Input_Keys.thy ===== *)
theory Input_Keys
  imports OS_Prelude
begin

text \<open>
  Keys.  \<open>evdev::Key\<close> is a newtype over the kernel's 16-bit key code, so a key is its code and the
  constants the program names are the codes of the kernel's input-event-codes.h.
\<close>

type_synonym key = u16

abbreviation KEY_ESC :: key where "KEY_ESC \<equiv> 1"
abbreviation KEY_LEFTCTRL :: key where "KEY_LEFTCTRL \<equiv> 29"
abbreviation KEY_LEFTSHIFT :: key where "KEY_LEFTSHIFT \<equiv> 42"
abbreviation KEY_RIGHTSHIFT :: key where "KEY_RIGHTSHIFT \<equiv> 54"
abbreviation KEY_LEFTALT :: key where "KEY_LEFTALT \<equiv> 56"
abbreviation KEY_RIGHTCTRL :: key where "KEY_RIGHTCTRL \<equiv> 97"
abbreviation KEY_RIGHTALT :: key where "KEY_RIGHTALT \<equiv> 100"
abbreviation KEY_LEFTMETA :: key where "KEY_LEFTMETA \<equiv> 125"
abbreviation KEY_RIGHTMETA :: key where "KEY_RIGHTMETA \<equiv> 126"

abbreviation KEY_A :: key where "KEY_A \<equiv> 30"
abbreviation KEY_B :: key where "KEY_B \<equiv> 48"
abbreviation KEY_C :: key where "KEY_C \<equiv> 46"
abbreviation KEY_D :: key where "KEY_D \<equiv> 32"
abbreviation KEY_E :: key where "KEY_E \<equiv> 18"
abbreviation KEY_F :: key where "KEY_F \<equiv> 33"
abbreviation KEY_G :: key where "KEY_G \<equiv> 34"
abbreviation KEY_H :: key where "KEY_H \<equiv> 35"
abbreviation KEY_I :: key where "KEY_I \<equiv> 23"
abbreviation KEY_J :: key where "KEY_J \<equiv> 36"
abbreviation KEY_K :: key where "KEY_K \<equiv> 37"
abbreviation KEY_L :: key where "KEY_L \<equiv> 38"
abbreviation KEY_M :: key where "KEY_M \<equiv> 50"
abbreviation KEY_N :: key where "KEY_N \<equiv> 49"
abbreviation KEY_O :: key where "KEY_O \<equiv> 24"
abbreviation KEY_P :: key where "KEY_P \<equiv> 25"
abbreviation KEY_Q :: key where "KEY_Q \<equiv> 16"
abbreviation KEY_R :: key where "KEY_R \<equiv> 19"
abbreviation KEY_S :: key where "KEY_S \<equiv> 31"
abbreviation KEY_T :: key where "KEY_T \<equiv> 20"
abbreviation KEY_U :: key where "KEY_U \<equiv> 22"
abbreviation KEY_V :: key where "KEY_V \<equiv> 47"
abbreviation KEY_W :: key where "KEY_W \<equiv> 17"
abbreviation KEY_X :: key where "KEY_X \<equiv> 45"
abbreviation KEY_Y :: key where "KEY_Y \<equiv> 21"
abbreviation KEY_Z :: key where "KEY_Z \<equiv> 44"
abbreviation KEY_0 :: key where "KEY_0 \<equiv> 11"
abbreviation KEY_1 :: key where "KEY_1 \<equiv> 2"
abbreviation KEY_2 :: key where "KEY_2 \<equiv> 3"
abbreviation KEY_3 :: key where "KEY_3 \<equiv> 4"
abbreviation KEY_4 :: key where "KEY_4 \<equiv> 5"
abbreviation KEY_5 :: key where "KEY_5 \<equiv> 6"
abbreviation KEY_6 :: key where "KEY_6 \<equiv> 7"
abbreviation KEY_7 :: key where "KEY_7 \<equiv> 8"
abbreviation KEY_8 :: key where "KEY_8 \<equiv> 9"
abbreviation KEY_9 :: key where "KEY_9 \<equiv> 10"
abbreviation KEY_SPACE :: key where "KEY_SPACE \<equiv> 57"
abbreviation KEY_DOT :: key where "KEY_DOT \<equiv> 52"
abbreviation KEY_COMMA :: key where "KEY_COMMA \<equiv> 51"
abbreviation KEY_SEMICOLON :: key where "KEY_SEMICOLON \<equiv> 39"
abbreviation KEY_APOSTROPHE :: key where "KEY_APOSTROPHE \<equiv> 40"
abbreviation KEY_GRAVE :: key where "KEY_GRAVE \<equiv> 41"
abbreviation KEY_LEFTBRACE :: key where "KEY_LEFTBRACE \<equiv> 26"
abbreviation KEY_RIGHTBRACE :: key where "KEY_RIGHTBRACE \<equiv> 27"
abbreviation KEY_SLASH :: key where "KEY_SLASH \<equiv> 53"
abbreviation KEY_MINUS :: key where "KEY_MINUS \<equiv> 12"
abbreviation KEY_EQUAL :: key where "KEY_EQUAL \<equiv> 13"
abbreviation KEY_BACKSPACE :: key where "KEY_BACKSPACE \<equiv> 14"
abbreviation KEY_TAB :: key where "KEY_TAB \<equiv> 15"
abbreviation KEY_ENTER :: key where "KEY_ENTER \<equiv> 28"
abbreviation KEY_BACKSLASH :: key where "KEY_BACKSLASH \<equiv> 43"
abbreviation KEY_CAPSLOCK :: key where "KEY_CAPSLOCK \<equiv> 58"
abbreviation KEY_F9 :: key where "KEY_F9 \<equiv> 67"
abbreviation KEY_F10 :: key where "KEY_F10 \<equiv> 68"
abbreviation KEY_SCROLLLOCK :: key where "KEY_SCROLLLOCK \<equiv> 70"
abbreviation KEY_F12 :: key where "KEY_F12 \<equiv> 88"
abbreviation KEY_INSERT :: key where "KEY_INSERT \<equiv> 110"
abbreviation KEY_PAUSE :: key where "KEY_PAUSE \<equiv> 119"
abbreviation KEY_MENU :: key where "KEY_MENU \<equiv> 139"

text \<open>The bit of a modifier in a frozen snapshot (\<open>modifier_bit\<close> of synthetic_input.rs).\<close>

definition modifier_bit :: "key \<Rightarrow> u16 option" where
  "modifier_bit key =
     (if key = KEY_LEFTCTRL then Some 1
      else if key = KEY_RIGHTCTRL then Some 2
      else if key = KEY_LEFTSHIFT then Some 4
      else if key = KEY_RIGHTSHIFT then Some 8
      else if key = KEY_LEFTALT then Some 16
      else if key = KEY_RIGHTALT then Some 32
      else if key = KEY_LEFTMETA then Some 64
      else if key = KEY_RIGHTMETA then Some 128
      else None)"

definition MODIFIER_KEYS :: "key list" where
  "MODIFIER_KEYS = [KEY_LEFTCTRL, KEY_RIGHTCTRL, KEY_LEFTSHIFT, KEY_RIGHTSHIFT, KEY_LEFTALT,
     KEY_RIGHTALT, KEY_LEFTMETA, KEY_RIGHTMETA]"

lemma modifier_bit_iff: "(\<exists>b. modifier_bit key = Some b) \<longleftrightarrow> key \<in> set MODIFIER_KEYS"
  by (simp add: modifier_bit_def MODIFIER_KEYS_def)

end
