(* ===== verification/Deferred_Input.thy ===== *)
theory Deferred_Input
  imports Input_Keys
begin

text \<open>
  The queue of physical key events that arrive while a synthetic operation is running:
  src/src/daemon/deferred_input.rs.

  \<open>deferred_ledger\<close> has the fields of \<open>DeferredInputLedger\<close>; the \<open>debug_assert\<close>s of the source are
  not part of a release build and are theorems here.  \<open>deferred_spec\<close> is what the ledger promises:
  the events it has taken over, in order, of which a prefix has been acknowledged.
\<close>

subsection \<open>Model\<close>

definition DEFERRED_INPUT_SOFT_LIMIT :: nat where
  "DEFERRED_INPUT_SOFT_LIMIT = 256"

definition DEFERRED_INPUT_HARD_LIMIT :: nat where
  "DEFERRED_INPUT_HARD_LIMIT = 16384"

record deferred_event =
  sequence_id :: u64
  ev_key :: key
  ev_value :: int
  ev_timestamp :: nat

datatype deferred_admission =
    Queued
  | RequestCancellation
  | CapacityExceeded nat

record deferred_ack_error =
  ack_expected :: u64
  ack_received :: u64

record deferred_report =
  rep_accepted :: u64
  rep_acknowledged :: u64
  rep_reconciled :: u64
  rep_queued :: nat

record deferred_ledger =
  dl_queue :: "deferred_event list"
  accepted :: u64
  acknowledged :: u64
  soft_limit_reported :: bool
  soft_limit :: nat
  hard_limit :: nat

definition with_limits :: "nat \<Rightarrow> nat \<Rightarrow> deferred_ledger" where
  "with_limits soft hard =
     \<lparr>dl_queue = [], accepted = 0, acknowledged = 0, soft_limit_reported = False,
      soft_limit = soft, hard_limit = hard\<rparr>"

definition admit :: "deferred_ledger \<Rightarrow> deferred_event \<Rightarrow> deferred_admission \<times> deferred_ledger" where
  "admit l event =
     (if length (dl_queue l) \<ge> hard_limit l then (CapacityExceeded (hard_limit l), l)
      else
        let l = l\<lparr>dl_queue := dl_queue l @ [event], accepted := saturating_add (accepted l) 1\<rparr> in
        if \<not> soft_limit_reported l \<and> length (dl_queue l) > soft_limit l
        then (RequestCancellation, l\<lparr>soft_limit_reported := True\<rparr>)
        else (Queued, l))"

definition peek :: "deferred_ledger \<Rightarrow> deferred_event option" where
  "peek l = (case dl_queue l of [] \<Rightarrow> None | event # _ \<Rightarrow> Some event)"

definition acknowledge ::
  "deferred_ledger \<Rightarrow> u64 \<Rightarrow> (deferred_ack_error + unit) \<times> deferred_ledger" where
  "acknowledge l sid =
     (let expected = (case peek l of None \<Rightarrow> 0 | Some event \<Rightarrow> sequence_id event) in
      if expected \<noteq> sid then (Inl \<lparr>ack_expected = expected, ack_received = sid\<rparr>, l)
      else (Inr (), l\<lparr>dl_queue := drop 1 (dl_queue l),
                      acknowledged := saturating_add (acknowledged l) 1\<rparr>))"

definition finish_report :: "deferred_ledger \<Rightarrow> u64 \<Rightarrow> deferred_report \<times> deferred_ledger" where
  "finish_report l reconciled =
     (\<lparr>rep_accepted = accepted l, rep_acknowledged = acknowledged l, rep_reconciled = reconciled,
       rep_queued = length (dl_queue l)\<rparr>,
      l\<lparr>accepted := 0, acknowledged := 0, soft_limit_reported := False\<rparr>)"

definition reconcile_all :: "deferred_ledger \<Rightarrow> deferred_report \<times> deferred_ledger" where
  "reconcile_all l =
     finish_report (l\<lparr>dl_queue := []\<rparr>) (of_nat (length (dl_queue l)))"

definition finish_drained :: "deferred_ledger \<Rightarrow> deferred_report \<times> deferred_ledger" where
  "finish_drained l = finish_report l 0"

subsection \<open>Specification\<close>

text \<open>
  Calls while an operation runs, as the specification sees them: the events taken over so far
  and how many of them have been acknowledged.
\<close>

datatype deferred_call = Admit deferred_event | Acknowledge u64

fun deferred_step :: "deferred_ledger \<Rightarrow> deferred_call \<Rightarrow> deferred_ledger" where
  "deferred_step l (Admit event) = snd (admit l event)"
| "deferred_step l (Acknowledge sid) = snd (acknowledge l sid)"

record deferred_spec =
  taken :: "deferred_event list"
  done_count :: nat

definition outstanding :: "deferred_spec \<Rightarrow> deferred_event list" where
  "outstanding s = drop (done_count s) (taken s)"

fun spec_step :: "nat \<Rightarrow> deferred_spec \<Rightarrow> deferred_call \<Rightarrow> deferred_spec" where
  "spec_step hard s (Admit event) =
     (if length (outstanding s) \<ge> hard then s else s\<lparr>taken := taken s @ [event]\<rparr>)"
| "spec_step hard s (Acknowledge sid) =
     (case outstanding s of
        [] \<Rightarrow> s
      | event # _ \<Rightarrow> if sequence_id event = sid then s\<lparr>done_count := Suc (done_count s)\<rparr> else s)"

text \<open>An acknowledgement of identifier 0 is outside the contract: sequence identifiers are nonzero.\<close>

fun proper_call :: "deferred_call \<Rightarrow> bool" where
  "proper_call (Admit event) = True"
| "proper_call (Acknowledge sid) = (sid \<noteq> 0)"

definition deferred_refines :: "deferred_spec \<Rightarrow> deferred_ledger \<Rightarrow> bool" where
  "deferred_refines s l \<longleftrightarrow> dl_queue l = outstanding s \<and> done_count s \<le> length (taken s) \<and>
     (length (taken s) < 2 ^ 64 \<longrightarrow>
        unat (accepted l) = length (taken s) \<and> unat (acknowledged l) = done_count s)"

subsection \<open>Refinement\<close>

lemma unat_saturating_Suc:
  fixes w :: u64
  assumes "unat w = n" and "Suc n < 2 ^ 64"
  shows "unat (saturating_add w 1) = Suc n"
  using assms by (simp add: unat_saturating_add)

lemma outstanding_snoc:
  "done_count s \<le> length (taken s) \<Longrightarrow> outstanding (s\<lparr>taken := taken s @ [event]\<rparr>) = outstanding s @ [event]"
  by (simp add: outstanding_def)

lemma outstanding_Suc:
  "outstanding s = event # rest \<Longrightarrow> done_count s < length (taken s) \<and>
     outstanding (s\<lparr>done_count := Suc (done_count s)\<rparr>) = rest"
  unfolding outstanding_def by (metis deferred_spec.select_convs(1,2) deferred_spec.surjective
      deferred_spec.update_convs(2) drop_Suc drop_all list.distinct(1) list.sel(3) not_le tl_drop)

lemma admit_refines:
  assumes "deferred_refines s l"
  shows "deferred_refines (spec_step (hard_limit l) s (Admit event)) (snd (admit l event))"
proof (cases "length (outstanding s) \<ge> hard_limit l")
  case True
  with assms show ?thesis by (simp add: deferred_refines_def admit_def)
next
  case False
  from assms have q: "dl_queue l = outstanding s" and le: "done_count s \<le> length (taken s)"
    by (simp_all add: deferred_refines_def)
  have "snd (admit l event) = l\<lparr>dl_queue := dl_queue l @ [event], accepted := saturating_add (accepted l) 1,
     soft_limit_reported := soft_limit_reported (snd (admit l event))\<rparr>"
    using False q by (simp add: admit_def Let_def)
  moreover have "unat (saturating_add (accepted l) 1) = Suc (length (taken s))" if "Suc (length (taken s)) < 2 ^ 64"
    using unat_saturating_Suc that assms by (simp add: deferred_refines_def)
  ultimately show ?thesis
    using False q le outstanding_snoc [OF le] assms
    by (simp add: deferred_refines_def admit_def Let_def)
qed

lemma acknowledge_refines:
  assumes "deferred_refines s l" and "sid \<noteq> 0"
  shows "deferred_refines (spec_step (hard_limit l) s (Acknowledge sid)) (snd (acknowledge l sid))"
proof (cases "outstanding s")
  case Nil
  with assms show ?thesis by (simp add: deferred_refines_def acknowledge_def peek_def Let_def)
next
  case (Cons event rest)
  note os = outstanding_Suc [OF Cons]
  have "unat (saturating_add (acknowledged l) 1) = Suc (done_count s)" if "length (taken s) < 2 ^ 64"
    using that assms os by (intro unat_saturating_Suc) (auto simp: deferred_refines_def)
  with Cons os assms show ?thesis
    by (simp add: deferred_refines_def acknowledge_def peek_def Let_def)
qed

lemma step_limits [simp]:
  "hard_limit (deferred_step l c) = hard_limit l" "soft_limit (deferred_step l c) = soft_limit l"
  by (cases c; simp add: admit_def acknowledge_def Let_def)+

lemma run_limits [simp]: "hard_limit (foldl deferred_step l cs) = hard_limit l"
  by (induction cs arbitrary: l) simp_all

lemma step_refines:
  "deferred_refines s l \<Longrightarrow> proper_call c \<Longrightarrow>
   deferred_refines (spec_step (hard_limit l) s c) (deferred_step l c)"
  using admit_refines acknowledge_refines by (cases c) auto

lemma run_refines:
  "deferred_refines s l \<Longrightarrow> list_all proper_call cs \<Longrightarrow>
   deferred_refines (foldl (spec_step (hard_limit l)) s cs) (foldl deferred_step l cs)"
proof (induction cs arbitrary: s l)
  case (Cons c cs)
  from Cons.prems step_refines have "deferred_refines (spec_step (hard_limit l) s c) (deferred_step l c)" by simp
  from Cons.IH [OF this] Cons.prems show ?case by simp
qed simp

lemma with_limits_refines: "deferred_refines \<lparr>taken = [], done_count = 0\<rparr> (with_limits soft hard)"
  by (simp add: deferred_refines_def with_limits_def outstanding_def)

lemma step_length: "length (dl_queue l) \<le> hard_limit l \<Longrightarrow> length (dl_queue (deferred_step l c)) \<le> hard_limit (deferred_step l c)"
  by (cases c) (auto simp: admit_def acknowledge_def Let_def)

interpretation deferred: step_invariant deferred_step "\<lambda>l. length (dl_queue l) \<le> hard_limit l"
  by unfold_locales (rule step_length)

subsection \<open>Properties\<close>

text \<open>
  C17: the ledger is a bounded queue that loses nothing.  After any admissions and acknowledgements
  the queue holds exactly the events taken over and not yet acknowledged, in order of arrival; it
  never exceeds the hard limit; and while fewer than 2^64 events were taken over, the terminal
  report accounts for each of them: accepted = acknowledged + reconciled + queued.
\<close>

theorem deferred_queue_accounts:
  assumes "list_all proper_call cs"
  shows "let s = foldl (spec_step hard) \<lparr>taken = [], done_count = 0\<rparr> cs;
             l = foldl deferred_step (with_limits soft hard) cs;
             r = fst (reconcile_all l) in
    dl_queue l = drop (done_count s) (taken s) \<and> length (dl_queue l) \<le> hard \<and>
    (length (taken s) < 2 ^ 64 \<longrightarrow>
       unat (rep_accepted r) = unat (rep_acknowledged r) + unat (rep_reconciled r) + rep_queued r \<and>
       unat (rep_accepted r) = length (taken s))"
proof -
  let ?s = "foldl (spec_step hard) \<lparr>taken = [], done_count = 0\<rparr> cs"
  let ?l = "foldl deferred_step (with_limits soft hard) cs"
  have hard: "hard_limit (with_limits soft hard) = hard" by (simp add: with_limits_def)
  have ref: "deferred_refines ?s ?l"
    using run_refines [OF with_limits_refines [of soft hard] assms] unfolding hard .
  have bound: "length (dl_queue ?l) \<le> hard"
    using deferred.inv_run [of "with_limits soft hard" cs] hard by (simp add: with_limits_def)
  have queue: "dl_queue ?l = drop (done_count ?s) (taken ?s)"
    and n: "done_count ?s + length (dl_queue ?l) = length (taken ?s)"
    using ref by (simp_all add: deferred_refines_def outstanding_def)
  have counts: "unat (accepted ?l) = length (taken ?s)" "unat (acknowledged ?l) = done_count ?s"
    and fits: "unat (of_nat (length (dl_queue ?l)) :: u64) = length (dl_queue ?l)"
    if "length (taken ?s) < 2 ^ 64"
  proof -
    have "length (dl_queue ?l) < 2 ^ 64" using that n by linarith
    then show "unat (of_nat (length (dl_queue ?l)) :: u64) = length (dl_queue ?l)"
      by (rule unat_of_nat_u64)
  qed (use that ref in \<open>simp_all add: deferred_refines_def\<close>)
  show ?thesis
    unfolding Let_def reconcile_all_def finish_report_def
    using queue bound n counts fits by simp
qed

definition sample_event :: "u64 \<Rightarrow> deferred_event" where
  "sample_event n = \<lparr>sequence_id = n, ev_key = 30, ev_value = 1, ev_timestamp = 0\<rparr>"

theorem deferred_queue_accounts_witness:
  "dl_queue (foldl deferred_step (with_limits 1 2)
      [Admit (sample_event 5), Admit (sample_event 6), Admit (sample_event 7), Acknowledge 5]) = [sample_event 6]"
proof -
  let ?cs = "[Admit (sample_event 5), Admit (sample_event 6), Admit (sample_event 7), Acknowledge 5]"
  have "list_all proper_call ?cs" by simp
  from deferred_queue_accounts [OF this, of 2 1]
  have "dl_queue (foldl deferred_step (with_limits 1 2) ?cs) =
     drop (done_count (foldl (spec_step 2) \<lparr>taken = [], done_count = 0\<rparr> ?cs))
       (taken (foldl (spec_step 2) \<lparr>taken = [], done_count = 0\<rparr> ?cs))"
    unfolding Let_def by blast
  then show ?thesis by (simp add: outstanding_def sample_event_def)
qed

text \<open>The answers to the admissions of a run, in order.\<close>

fun admissions :: "deferred_ledger \<Rightarrow> deferred_call list \<Rightarrow> deferred_admission list" where
  "admissions l [] = []"
| "admissions l (Admit event # cs) = fst (admit l event) # admissions (snd (admit l event)) cs"
| "admissions l (Acknowledge sid # cs) = admissions (snd (acknowledge l sid)) cs"

lemma admissions_reported:
  "soft_limit_reported l \<Longrightarrow> RequestCancellation \<notin> set (admissions l cs)"
proof (induction l cs rule: admissions.induct)
  case (2 l event cs)
  then show ?case by (auto simp: admit_def Let_def)
next
  case (3 l sid cs)
  then show ?case by (simp add: acknowledge_def Let_def)
qed simp

text \<open>
  The soft limit asks for cancellation once.  In any run of admissions and acknowledgements
  the ledger requests cancellation at most one time, whatever the limits and however often the
  queue crosses the soft limit.
\<close>

theorem cancellation_requested_once:
  "length (filter (\<lambda>a. a = RequestCancellation) (admissions l cs)) \<le> 1"
proof (induction l cs rule: admissions.induct)
  case (2 l event cs)
  show ?case
  proof (cases "fst (admit l event) = RequestCancellation")
    case True
    then have "soft_limit_reported (snd (admit l event))"
      by (auto simp: admit_def Let_def split: if_splits)
    then have "filter (\<lambda>a. a = RequestCancellation) (admissions (snd (admit l event)) cs) = []"
      using admissions_reported by (auto simp: filter_empty_conv)
    with True show ?thesis by simp
  next
    case False
    with 2 show ?thesis by simp
  qed
qed simp_all

text \<open>
  An acknowledgement of identifier 0 succeeds on an empty queue and is counted, which no event
  accounts for.
\<close>

lemma acknowledge_zero_on_empty:
  "dl_queue l = [] \<Longrightarrow>
     acknowledge l 0 = (Inr (), l\<lparr>acknowledged := saturating_add (acknowledged l) 1\<rparr>)"
  by (simp add: acknowledge_def peek_def Let_def)

end
