(* ===== verification/Synthetic_Ledgers.thy ===== *)
theory Synthetic_Ledgers
  imports Input_Keys
begin

unbundle bit_operations_syntax

text \<open>
  The ledgers of src/src/daemon/synthetic_input.rs: the synthetic keys an operation may hold down
  (\<open>SyntheticKeyLedger\<close>), the modifiers a session holds for the user (\<open>SessionModifierLedger\<close>), the
  frozen physical state with the plan to restore it, and the failure latch.  Tokens are a type
  parameter, as in the source.
\<close>

subsection \<open>Synthetic keys of one operation\<close>

datatype down_state = DownAttempting | DownPossibly

record 't synthetic_debt =
  press_id :: u64
  debt_token :: 't
  debt_state :: down_state

record 't key_ledger =
  next_press_id :: u64
  kl_debts :: "'t synthetic_debt list"
  kl_terminal :: bool

definition key_ledger_new :: "'t key_ledger" where
  "key_ledger_new = \<lparr>next_press_id = 1, kl_debts = [], kl_terminal = False\<rparr>"

definition begin_down :: "'t key_ledger \<Rightarrow> 't \<Rightarrow> u64 res \<times> 't key_ledger" where
  "begin_down l token =
     (if kl_terminal l then (Inl (input_safety ''mutation after terminal state''), l)
      else case checked_add (next_press_id l) 1 of
        None \<Rightarrow> (Inl (input_safety ''press id exhausted''), l)
      | Some next \<Rightarrow>
          (Inr (next_press_id l),
           l\<lparr>next_press_id := next,
             kl_debts := kl_debts l @ [\<lparr>press_id = next_press_id l, debt_token = token,
               debt_state = DownAttempting\<rparr>]\<rparr>))"

definition mark_possibly_down :: "'t key_ledger \<Rightarrow> u64 \<Rightarrow> unit res \<times> 't key_ledger" where
  "mark_possibly_down l pid =
     (case position (\<lambda>d. press_id d = pid) (kl_debts l) of
        None \<Rightarrow> (Inl (input_safety ''press id does not belong to ledger''), l)
      | Some i \<Rightarrow>
          (Inr (), l\<lparr>kl_debts := (kl_debts l)[i := (kl_debts l ! i)\<lparr>debt_state := DownPossibly\<rparr>]\<rparr>))"

definition acknowledge_up :: "'t key_ledger \<Rightarrow> u64 \<Rightarrow> unit res \<times> 't key_ledger" where
  "acknowledge_up l pid =
     check (ok_or (position (\<lambda>d. press_id d = pid) (kl_debts l))
              (input_safety ''release id does not belong to ledger'')) l (\<lambda>i.
     (Inr (), l\<lparr>kl_debts := remove_at i (kl_debts l)\<rparr>))"

definition ledger_transfer :: "'t key_ledger \<Rightarrow> u64 \<Rightarrow> 't res \<times> 't key_ledger" where
  "ledger_transfer l pid =
     check (ensure (\<not> kl_terminal l) (input_safety ''transfer after terminal state'')) l (\<lambda>_.
     check (ok_or (position (\<lambda>d. press_id d = pid) (kl_debts l))
              (input_safety ''transfer id does not belong to ledger'')) l (\<lambda>i.
     check (ensure (debt_state (kl_debts l ! i) = DownPossibly)
              (input_safety ''only a possibly-down token can be transferred'')) l (\<lambda>_.
     (Inr (debt_token (kl_debts l ! i)), l\<lparr>kl_debts := remove_at i (kl_debts l)\<rparr>))))"

definition cancel_unattempted_down :: "'t key_ledger \<Rightarrow> u64 \<Rightarrow> unit res \<times> 't key_ledger" where
  "cancel_unattempted_down l pid =
     check (ok_or (position (\<lambda>d. press_id d = pid) (kl_debts l))
              (input_safety ''cancelled press id does not belong to ledger'')) l (\<lambda>i.
     check (ensure (debt_state (kl_debts l ! i) = DownAttempting)
              (input_safety ''only an unattempted down can be cancelled'')) l (\<lambda>_.
     (Inr (), l\<lparr>kl_debts := remove_at i (kl_debts l)\<rparr>)))"

definition ledger_begin_terminal :: "'t key_ledger \<Rightarrow> 't key_ledger" where
  "ledger_begin_terminal l = l\<lparr>kl_terminal := True\<rparr>"

definition ledger_token :: "'t key_ledger \<Rightarrow> u64 \<Rightarrow> 't res" where
  "ledger_token l pid =
     ok_or (map_option debt_token (find (\<lambda>d. press_id d = pid) (kl_debts l)))
       (input_safety ''release id does not belong to ledger'')"

definition reverse_snapshot :: "'t key_ledger \<Rightarrow> 't synthetic_debt list" where
  "reverse_snapshot l = rev (kl_debts l)"

subsection \<open>Frozen physical state\<close>

record frozen_snapshot =
  modifier_bits :: u16
  caps_lock_active :: bool

fun pressed_modifier_bits :: "u16 \<Rightarrow> key list \<Rightarrow> u16 res" where
  "pressed_modifier_bits bits [] = Inr bits"
| "pressed_modifier_bits bits (key # keys) =
     and_then (ok_or (modifier_bit key)
                 (input_safety ''frozen snapshot contains a non-modifier key'')) (\<lambda>mbit.
     pressed_modifier_bits (bits OR mbit) keys)"

definition from_pressed_modifiers :: "key list \<Rightarrow> bool \<Rightarrow> frozen_snapshot res" where
  "from_pressed_modifiers keys caps =
     and_then (pressed_modifier_bits 0 keys) (\<lambda>bits.
     Inr \<lparr>modifier_bits = bits, caps_lock_active = caps\<rparr>)"

definition holds_modifier :: "frozen_snapshot \<Rightarrow> key \<Rightarrow> bool" where
  "holds_modifier snapshot key =
     (case modifier_bit key of None \<Rightarrow> False | Some mbit \<Rightarrow> (modifier_bits snapshot AND mbit) \<noteq> 0)"

text \<open>The restore plan: the modifiers released for the operation, in order of release.\<close>

definition plan_record ::
  "u64 \<Rightarrow> frozen_snapshot \<Rightarrow> key list \<Rightarrow> key \<Rightarrow> unit res \<times> key list" where
  "plan_record operation snapshot plan key =
     (if \<not> holds_modifier snapshot key
      then (Inl (InputSafety (ProtocolViolation operation
              ''temporary release requires a frozen held modifier'')), plan)
      else if key \<in> set plan
      then (Inl (InputSafety (ProtocolViolation operation
              ''modifier was already temporarily released'')), plan)
      else (Inr (), plan @ [key]))"

definition plan_snapshot :: "key list \<Rightarrow> key list" where
  "plan_snapshot plan = rev plan"

subsection \<open>Modifiers of the session\<close>

datatype session_modifier_state = OwnedDown | TemporarilyReleased | RestoringPossiblyDown

record release_commit =
  rc_generation :: u64
  rc_sequence :: u64
  rc_key :: key

record 't session_debt =
  sd_key :: key
  sd_token :: 't
  sd_state :: session_modifier_state

record 't session_ledger =
  sl_generation :: u64
  last_release_sequence :: u64
  sl_entries :: "'t session_debt list"

definition session_ledger_new :: "u64 \<Rightarrow> 't session_ledger" where
  "session_ledger_new generation = \<lparr>sl_generation = generation, last_release_sequence = 0, sl_entries = []\<rparr>"

definition session_error :: "'t session_ledger \<Rightarrow> string \<Rightarrow> switcher_error" where
  "session_error l context = InputSafety (SessionModifierProtocolViolation (sl_generation l) context)"

abbreviation entry_index :: "'t session_ledger \<Rightarrow> key \<Rightarrow> nat option" where
  "entry_index l key \<equiv> position (\<lambda>e. sd_key e = key) (sl_entries l)"

definition adopt_restored :: "'t session_ledger \<Rightarrow> key \<Rightarrow> 't \<Rightarrow> unit res \<times> 't session_ledger" where
  "adopt_restored l key token =
     (if modifier_bit key = None
      then (Inl (session_error l ''session debt requires a modifier key''), l)
      else case entry_index l key of
        Some i \<Rightarrow>
          if sd_state (sl_entries l ! i) \<noteq> RestoringPossiblyDown
          then (Inl (session_error l
                  ''restored modifier already has an incompatible session debt''), l)
          else (Inr (), l\<lparr>sl_entries := (sl_entries l)[i :=
                  (sl_entries l ! i)\<lparr>sd_token := token, sd_state := OwnedDown\<rparr>]\<rparr>)
      | None \<Rightarrow>
          (Inr (), l\<lparr>sl_entries := sl_entries l
             @ [\<lparr>sd_key = key, sd_token = token, sd_state = OwnedDown\<rparr>]\<rparr>))"

definition session_transition ::
  "'t session_ledger \<Rightarrow> key \<Rightarrow> session_modifier_state \<Rightarrow> session_modifier_state \<Rightarrow> string \<Rightarrow>
   unit res \<times> 't session_ledger" where
  "session_transition l key expected next_state context =
     (case entry_index l key of
        None \<Rightarrow> (Inl (session_error l ''modifier has no session debt''), l)
      | Some i \<Rightarrow>
          if sd_state (sl_entries l ! i) \<noteq> expected then (Inl (session_error l context), l)
          else (Inr (), l\<lparr>sl_entries := (sl_entries l)[i :=
                  (sl_entries l ! i)\<lparr>sd_state := next_state\<rparr>]\<rparr>))"

definition mark_temporarily_released :: "'t session_ledger \<Rightarrow> key \<Rightarrow> unit res \<times> 't session_ledger" where
  "mark_temporarily_released l key =
     session_transition l key OwnedDown TemporarilyReleased
       ''only an owned-down modifier can be temporarily released''"

definition mark_restoring :: "'t session_ledger \<Rightarrow> key \<Rightarrow> unit res \<times> 't session_ledger" where
  "mark_restoring l key =
     session_transition l key TemporarilyReleased RestoringPossiblyDown
       ''only a temporarily released modifier can begin restoring''"

definition mark_owned_down :: "'t session_ledger \<Rightarrow> key \<Rightarrow> unit res \<times> 't session_ledger" where
  "mark_owned_down l key =
     session_transition l key RestoringPossiblyDown OwnedDown
       ''only a restoring modifier can become owned-down''"

definition validate_physical_release :: "'t session_ledger \<Rightarrow> release_commit \<Rightarrow> nat option res" where
  "validate_physical_release l commit =
     (if rc_generation commit \<noteq> sl_generation l
      then Inl (session_error l ''physical release generation does not match'')
      else if rc_sequence commit \<le> last_release_sequence l
      then Inl (session_error l ''physical release sequence is stale'')
      else case entry_index l (rc_key commit) of
        None \<Rightarrow> Inr None
      | Some i \<Rightarrow>
          if sd_state (sl_entries l ! i) \<noteq> OwnedDown
          then Inl (session_error l
                  ''physical release cannot commit an in-flight modifier transition'')
          else Inr (Some i))"

definition commit_physical_release ::
  "'t session_ledger \<Rightarrow> release_commit \<Rightarrow> 't option res \<times> 't session_ledger" where
  "commit_physical_release l commit =
     check (validate_physical_release l commit) l (\<lambda>index.
     let l = l\<lparr>last_release_sequence := rc_sequence commit\<rparr> in
     case index of
       None \<Rightarrow> (Inr None, l)
     | Some i \<Rightarrow> (Inr (Some (sd_token (sl_entries l ! i))),
                  l\<lparr>sl_entries := remove_at i (sl_entries l)\<rparr>))"

definition session_contains :: "'t session_ledger \<Rightarrow> key \<Rightarrow> bool" where
  "session_contains l key = list_ex (\<lambda>e. sd_key e = key) (sl_entries l)"

definition session_state :: "'t session_ledger \<Rightarrow> key \<Rightarrow> session_modifier_state option" where
  "session_state l key = map_option sd_state (find (\<lambda>e. sd_key e = key) (sl_entries l))"

definition authorize_synthetic_down :: "'t session_ledger \<Rightarrow> key \<Rightarrow> unit res" where
  "authorize_synthetic_down l key =
     (case session_state l key of
        None \<Rightarrow> Inr ()
      | Some OwnedDown \<Rightarrow>
          Inl (session_error l ''synthetic down cannot cross an owned session modifier'')
      | Some _ \<Rightarrow> Inr ())"

definition preview_physical_release :: "'t session_ledger \<Rightarrow> release_commit \<Rightarrow> 't option res" where
  "preview_physical_release l commit =
     and_then (validate_physical_release l commit) (\<lambda>index.
     Inr (map_option (\<lambda>i. sd_token (sl_entries l ! i)) index))"

definition token_for_key :: "'t session_ledger \<Rightarrow> key \<Rightarrow> 't option" where
  "token_for_key l key = map_option sd_token (find (\<lambda>e. sd_key e = key) (sl_entries l))"

definition release_only_snapshot :: "'t session_ledger \<Rightarrow> 't list" where
  "release_only_snapshot l =
     map sd_token (filter (\<lambda>e. sd_state e = OwnedDown \<or> sd_state e = RestoringPossiblyDown) (sl_entries l))"

definition begin_restore :: "'t session_ledger \<Rightarrow> key \<Rightarrow> unit res \<times> 't session_ledger" where
  "begin_restore l key = (if session_contains l key then mark_restoring l key else (Inr (), l))"

subsection \<open>Failure latch\<close>

record drop_cleanup_report =
  dr_cleanup :: "switcher_error option"
  dr_proof :: terminal_proof

type_synonym failure_latch = "drop_cleanup_report option"

definition latch_fail :: "failure_latch \<Rightarrow> drop_cleanup_report \<Rightarrow> failure_latch" where
  "latch_fail latch report = (case latch of None \<Rightarrow> Some report | Some first \<Rightarrow> Some first)"

definition latch_is_failed :: "failure_latch \<Rightarrow> bool" where
  "latch_is_failed latch \<longleftrightarrow> latch \<noteq> None"

definition latch_take :: "failure_latch \<Rightarrow> drop_cleanup_report option \<times> failure_latch" where
  "latch_take latch = (latch, None)"

subsection \<open>The key ledger's invariant\<close>

definition key_ledger_inv :: "'t key_ledger \<Rightarrow> bool" where
  "key_ledger_inv l \<longleftrightarrow> distinct (map press_id (kl_debts l)) \<and>
     (\<forall>d \<in> set (kl_debts l). press_id d < next_press_id l)"

datatype 't key_ledger_call =
    BeginDown 't
  | MarkPossiblyDown u64
  | AcknowledgeUp u64
  | LedgerTransfer u64
  | CancelUnattempted u64
  | LedgerTerminal

fun key_ledger_step :: "'t key_ledger \<Rightarrow> 't key_ledger_call \<Rightarrow> 't key_ledger" where
  "key_ledger_step l (BeginDown token) = snd (begin_down l token)"
| "key_ledger_step l (MarkPossiblyDown pid) = snd (mark_possibly_down l pid)"
| "key_ledger_step l (AcknowledgeUp pid) = snd (acknowledge_up l pid)"
| "key_ledger_step l (LedgerTransfer pid) = snd (ledger_transfer l pid)"
| "key_ledger_step l (CancelUnattempted pid) = snd (cancel_unattempted_down l pid)"
| "key_ledger_step l LedgerTerminal = ledger_begin_terminal l"

lemma ledger_atomic:
  "atomic_on l (acknowledge_up l pid)" "atomic_on l (ledger_transfer l pid)"
  "atomic_on l (cancel_unattempted_down l pid)"
  by (simp_all add: acknowledge_up_def ledger_transfer_def cancel_unattempted_down_def)

lemma key_ledger_inv_remove:
  "key_ledger_inv l \<Longrightarrow> key_ledger_inv (l\<lparr>kl_debts := remove_at i (kl_debts l)\<rparr>)"
  using set_remove_at_subset [of i "kl_debts l"]
  by (auto simp: key_ledger_inv_def map_remove_at distinct_remove_at)

lemma begin_down_Inr:
  "begin_down l token = (Inr pid, l') \<longleftrightarrow>
     (\<exists>next. \<not> kl_terminal l \<and> checked_add (next_press_id l) 1 = Some next \<and> pid = next_press_id l \<and>
        l' = l\<lparr>next_press_id := next, kl_debts := kl_debts l @ [\<lparr>press_id = pid, debt_token = token,
               debt_state = DownAttempting\<rparr>]\<rparr>)"
  by (auto simp: begin_down_def split: option.splits)

lemma begin_down_Inl: "begin_down l token = (Inl e, l') \<Longrightarrow> l' = l"
  by (auto simp: begin_down_def split: if_splits option.splits)

lemma begin_down_inv:
  assumes "key_ledger_inv l"
  shows "key_ledger_inv (snd (begin_down l token))"
proof (cases "begin_down l token")
  case (Pair r l')
  show ?thesis
  proof (cases r)
    case (Inl e)
    with Pair begin_down_Inl assms show ?thesis by fastforce
  next
    case (Inr pid)
    with Pair have "begin_down l token = (Inr pid, l')" by simp
    then obtain next_id where n: "checked_add (next_press_id l) 1 = Some next_id" "pid = next_press_id l"
      "l' = l\<lparr>next_press_id := next_id, kl_debts := kl_debts l @ [\<lparr>press_id = pid, debt_token = token,
               debt_state = DownAttempting\<rparr>]\<rparr>"
      by (auto simp: begin_down_Inr)
    with assms checked_add_1_less [OF n(1)] Pair show ?thesis
      by (force simp: key_ledger_inv_def)
  qed
qed

lemma map_press_id_update:
  "i < length ds \<Longrightarrow> map press_id (ds[i := (ds ! i)\<lparr>debt_state := x\<rparr>]) = map press_id ds"
  by (rule nth_equalityI) (auto simp: nth_list_update)

lemma mark_possibly_down_inv:
  assumes "key_ledger_inv l"
  shows "key_ledger_inv (snd (mark_possibly_down l pid))"
proof (cases "position (\<lambda>d. press_id d = pid) (kl_debts l)")
  case None
  with assms show ?thesis by (simp add: mark_possibly_down_def)
next
  case (Some i)
  then have i: "i < length (kl_debts l)" by (simp add: position_SomeD)
  have "press_id d < next_press_id l"
    if "d \<in> set ((kl_debts l)[i := (kl_debts l ! i)\<lparr>debt_state := DownPossibly\<rparr>])" for d
    using that assms i set_update_subset_insert [of "kl_debts l" i] by (fastforce simp: key_ledger_inv_def)
  with Some i assms show ?thesis
    by (simp add: mark_possibly_down_def key_ledger_inv_def map_press_id_update)
qed

lemma key_ledger_step_inv:
  assumes "key_ledger_inv l"
  shows "key_ledger_inv (key_ledger_step l c)"
proof (cases c)
  case (AcknowledgeUp pid)
  with assms show ?thesis
    by (cases "position (\<lambda>d. press_id d = pid) (kl_debts l)")
      (simp_all add: acknowledge_up_def key_ledger_inv_remove)
next
  case (LedgerTransfer pid)
  have "key_ledger_inv l'" if "ledger_transfer l pid = (Inr u, l')" for u l'
    using that assms by (auto simp: ledger_transfer_def key_ledger_inv_remove)
  with LedgerTransfer assms ledger_atomic(2) [of l pid] show ?thesis
    by (cases "ledger_transfer l pid"; cases "fst (ledger_transfer l pid)") (auto simp: atomic_on_def)
next
  case (CancelUnattempted pid)
  have "key_ledger_inv l'" if "cancel_unattempted_down l pid = (Inr u, l')" for u l'
    using that assms by (auto simp: cancel_unattempted_down_def key_ledger_inv_remove)
  with CancelUnattempted assms ledger_atomic(3) [of l pid] show ?thesis
    by (cases "cancel_unattempted_down l pid"; cases "fst (cancel_unattempted_down l pid)")
      (auto simp: atomic_on_def)
next
  case LedgerTerminal
  with assms show ?thesis by (simp add: ledger_begin_terminal_def key_ledger_inv_def)
qed (use assms in \<open>simp_all add: begin_down_inv mark_possibly_down_inv\<close>)

interpretation key_ledger: step_invariant key_ledger_step key_ledger_inv
  by unfold_locales (rule key_ledger_step_inv)

subsection \<open>The session ledger's invariant\<close>

definition session_ledger_inv :: "'t session_ledger \<Rightarrow> bool" where
  "session_ledger_inv l \<longleftrightarrow> distinct (map sd_key (sl_entries l)) \<and>
     sd_key ` set (sl_entries l) \<subseteq> set MODIFIER_KEYS"

datatype 't session_call =
    AdoptRestored key 't
  | MarkTemporarilyReleased key
  | MarkRestoring key
  | MarkOwnedDown key
  | CommitRelease release_commit

fun session_step :: "'t session_ledger \<Rightarrow> 't session_call \<Rightarrow> 't session_ledger" where
  "session_step l (AdoptRestored key token) = snd (adopt_restored l key token)"
| "session_step l (MarkTemporarilyReleased key) = snd (mark_temporarily_released l key)"
| "session_step l (MarkRestoring key) = snd (mark_restoring l key)"
| "session_step l (MarkOwnedDown key) = snd (mark_owned_down l key)"
| "session_step l (CommitRelease commit) = snd (commit_physical_release l commit)"

lemma map_sd_key_update:
  "i < length es \<Longrightarrow> sd_key e = sd_key (es ! i) \<Longrightarrow> map sd_key (es[i := e]) = map sd_key es"
  by (rule nth_equalityI) (auto simp: nth_list_update)

lemma session_inv_update:
  assumes "session_ledger_inv l" and "i < length (sl_entries l)" and "sd_key e = sd_key (sl_entries l ! i)"
  shows "session_ledger_inv (l\<lparr>sl_entries := (sl_entries l)[i := e]\<rparr>)"
proof -
  have "map sd_key ((sl_entries l)[i := e]) = map sd_key (sl_entries l)"
    by (rule map_sd_key_update [OF assms(2,3)])
  then have "sd_key ` set ((sl_entries l)[i := e]) = sd_key ` set (sl_entries l)"
    by (metis set_map)
  with assms(1) \<open>map sd_key _ = _\<close> show ?thesis by (simp add: session_ledger_inv_def)
qed

lemma session_transition_inv:
  "session_ledger_inv l \<Longrightarrow> session_ledger_inv (snd (session_transition l key a b context))"
  by (auto simp: session_transition_def session_inv_update dest: position_SomeD split: option.splits)

lemma adopt_restored_inv:
  assumes "session_ledger_inv l"
  shows "session_ledger_inv (snd (adopt_restored l key token))"
proof (cases "entry_index l key")
  case None
  then have "key \<notin> sd_key ` set (sl_entries l)" by (auto simp: position_None_iff)
  with None assms modifier_bit_iff [of key] show ?thesis
    by (auto simp: adopt_restored_def session_ledger_inv_def)
next
  case (Some i)
  with assms show ?thesis
    by (auto simp: adopt_restored_def session_inv_update dest: position_SomeD)
qed

lemma commit_release_inv:
  assumes "session_ledger_inv l"
  shows "session_ledger_inv (snd (commit_physical_release l commit))"
proof (cases "validate_physical_release l commit")
  case (Inl e)
  with assms show ?thesis by (simp add: commit_physical_release_def)
next
  case (Inr index)
  with assms set_remove_at_subset [of _ "sl_entries l"] show ?thesis
    by (auto simp: commit_physical_release_def Let_def session_ledger_inv_def map_remove_at
        distinct_remove_at split: option.splits)
qed

lemma session_step_inv: "session_ledger_inv l \<Longrightarrow> session_ledger_inv (session_step l c)"
  by (cases c) (simp_all add: adopt_restored_inv commit_release_inv session_transition_inv
      mark_temporarily_released_def mark_restoring_def mark_owned_down_def)

interpretation session_modifiers: step_invariant session_step session_ledger_inv
  by unfold_locales (rule session_step_inv)

definition releases_ordered :: "'t session_ledger \<Rightarrow> 't session_ledger \<Rightarrow> bool" where
  "releases_ordered l l' \<longleftrightarrow> sl_generation l' = sl_generation l \<and> last_release_sequence l \<le> last_release_sequence l'"

lemma validate_release_fresh:
  "validate_physical_release l commit = Inr index \<Longrightarrow>
     rc_generation commit = sl_generation l \<and> last_release_sequence l < rc_sequence commit"
  by (auto simp: validate_physical_release_def not_le split: if_splits)

lemma commit_release_last:
  "commit_physical_release l commit = (Inr t, l') \<Longrightarrow>
     last_release_sequence l' = rc_sequence commit \<and> sl_generation l' = sl_generation l \<and>
     last_release_sequence l < rc_sequence commit"
  by (auto simp: commit_physical_release_def Let_def dest: validate_release_fresh split: option.splits)

lemma session_step_ordered: "releases_ordered l (session_step l c)"
proof (cases c)
  case (CommitRelease commit)
  show ?thesis
  proof (cases "validate_physical_release l commit")
    case (Inl e)
    with CommitRelease show ?thesis by (simp add: commit_physical_release_def releases_ordered_def)
  next
    case (Inr index)
    then obtain t l' where "commit_physical_release l commit = (Inr t, l')"
      by (cases index) (simp_all add: commit_physical_release_def Let_def)
    with CommitRelease commit_release_last [of l commit t l'] show ?thesis
      by (simp add: releases_ordered_def order.strict_implies_order)
  qed
qed (auto simp: releases_ordered_def adopt_restored_def mark_temporarily_released_def
    mark_restoring_def mark_owned_down_def session_transition_def split: option.splits)

interpretation session_order: step_monotone session_step releases_ordered
proof unfold_locales
  show "releases_ordered s (session_step s c)" for s :: "'a session_ledger" and c
    by (rule session_step_ordered)
qed (auto simp: releases_ordered_def)

subsection \<open>Properties\<close>

text \<open>
  One session debt per modifier.  In every state of the session ledger reached from a new one
  by any calls, no key has two entries and every entry is one of the eight modifiers, so there
  are never more than eight.
\<close>

theorem session_ledger_bounded:
  "let l = foldl session_step (session_ledger_new generation) cs in
     distinct (map sd_key (sl_entries l)) \<and> sd_key ` set (sl_entries l) \<subseteq> set MODIFIER_KEYS \<and>
     length (sl_entries l) \<le> 8"
proof -
  let ?l = "foldl session_step (session_ledger_new generation) cs"
  have "session_ledger_inv ?l"
    by (rule session_modifiers.inv_run) (simp add: session_ledger_new_def session_ledger_inv_def)
  then have d: "distinct (map sd_key (sl_entries ?l))" and s: "sd_key ` set (sl_entries ?l) \<subseteq> set MODIFIER_KEYS"
    by (simp_all add: session_ledger_inv_def)
  have "length (sl_entries ?l) = card (sd_key ` set (sl_entries ?l))"
    using distinct_card [OF d] by simp
  also have "\<dots> \<le> card (set MODIFIER_KEYS)" by (rule card_mono [OF _ s]) simp
  also have "\<dots> = 8" by (simp add: MODIFIER_KEYS_def)
  finally show ?thesis using d s by (simp add: Let_def)
qed

text \<open>
  A physical release is committed once.  After a commit with sequence number n, every commit
  with a number up to n is refused for the rest of the session and changes nothing, whatever
  happens to the ledger in between; and a commit hands out exactly the token that the preview
  showed.
\<close>

theorem release_commit_once:
  assumes com: "commit_physical_release l commit = (Inr token, l')"
    and stale: "rc_sequence commit' \<le> rc_sequence commit"
  shows "preview_physical_release l commit = Inr token \<and>
    (\<exists>e. commit_physical_release (foldl session_step l' cs) commit' = (Inl e, foldl session_step l' cs))"
proof
  show "preview_physical_release l commit = Inr token"
    using com by (auto simp: commit_physical_release_def preview_physical_release_def Let_def split: option.splits)
  let ?l = "foldl session_step l' cs"
  have "rc_sequence commit' \<le> last_release_sequence ?l"
    using session_order.rel_run [of l' cs] commit_release_last [OF com] stale
    by (auto simp: releases_ordered_def)
  then show "\<exists>e. commit_physical_release ?l commit' = (Inl e, ?l)"
    by (simp add: commit_physical_release_def validate_physical_release_def)
qed

theorem release_commit_once_witness:
  "\<exists>e. commit_physical_release
     (snd (commit_physical_release
        \<lparr>sl_generation = 1, last_release_sequence = 0, sl_entries = [\<lparr>sd_key = 42, sd_token = (), sd_state = OwnedDown\<rparr>]\<rparr>
        \<lparr>rc_generation = 1, rc_sequence = 5, rc_key = 42\<rparr>))
     \<lparr>rc_generation = 1, rc_sequence = 5, rc_key = 42\<rparr> =
   (Inl e, snd (commit_physical_release
        \<lparr>sl_generation = 1, last_release_sequence = 0, sl_entries = [\<lparr>sd_key = 42, sd_token = (), sd_state = OwnedDown\<rparr>]\<rparr>
        \<lparr>rc_generation = 1, rc_sequence = 5, rc_key = 42\<rparr>))"
proof -
  let ?l = "\<lparr>sl_generation = 1, last_release_sequence = 0,
     sl_entries = [\<lparr>sd_key = 42, sd_token = (), sd_state = OwnedDown\<rparr>]\<rparr>"
  let ?c = "\<lparr>rc_generation = 1, rc_sequence = 5, rc_key = 42\<rparr>"
  have "commit_physical_release ?l ?c = (Inr (Some ()), snd (commit_physical_release ?l ?c))" by code_simp
  from release_commit_once [OF this, of ?c "[]"] show ?thesis by simp
qed

lemma modifier_bit_separate:
  "modifier_bit a = Some x \<Longrightarrow> modifier_bit b = Some y \<Longrightarrow> ((x AND y) \<noteq> 0) = (a = b)"
  unfolding modifier_bit_def by (simp split: if_splits; elim disjE; simp)

lemma pressed_modifier_bits_holds:
  "pressed_modifier_bits bits keys = Inr result \<Longrightarrow> modifier_bit k = Some mbit \<Longrightarrow>
   ((result AND mbit) \<noteq> 0) = ((bits AND mbit) \<noteq> 0 \<or> k \<in> set keys)"
proof (induction keys arbitrary: bits)
  case (Cons key keys)
  from Cons.prems(1) obtain b where b: "modifier_bit key = Some b"
    "pressed_modifier_bits (bits OR b) keys = Inr result"
    by auto
  have "(((bits OR b) AND mbit) \<noteq> 0) = ((bits AND mbit) \<noteq> 0 \<or> (b AND mbit) \<noteq> 0)"
    by (simp add: bit.conj_disj_distrib2 or_eq_0_iff)
  with Cons.IH [OF b(2) Cons.prems(2)] modifier_bit_separate [OF b(1) Cons.prems(2)] show ?case
    by auto
qed simp

lemma pressed_modifier_bits_total:
  "(\<exists>result. pressed_modifier_bits bits keys = Inr result) \<longleftrightarrow> set keys \<subseteq> set MODIFIER_KEYS"
proof (induction keys arbitrary: bits)
  case (Cons key keys)
  show ?case
  proof (cases "modifier_bit key")
    case None
    with modifier_bit_iff [of key] show ?thesis by auto
  next
    case (Some b)
    with modifier_bit_iff [of key] have "key \<in> set MODIFIER_KEYS" by blast
    with Some Cons.IH [of "bits OR b"] show ?thesis by simp
  qed
qed simp

text \<open>
  The frozen snapshot is the set of pressed modifiers.  It can be taken exactly when only
  modifiers are listed, and then it holds precisely the keys it was taken from.
\<close>

theorem frozen_snapshot_exact:
  "case from_pressed_modifiers keys caps of
     Inl e \<Rightarrow> \<not> set keys \<subseteq> set MODIFIER_KEYS
   | Inr snapshot \<Rightarrow> set keys \<subseteq> set MODIFIER_KEYS \<and> caps_lock_active snapshot = caps \<and>
       (\<forall>k. holds_modifier snapshot k \<longleftrightarrow> k \<in> set keys)"
proof (cases "pressed_modifier_bits 0 keys")
  case (Inl e)
  then have "\<not> set keys \<subseteq> set MODIFIER_KEYS"
    using pressed_modifier_bits_total [of 0 keys] by auto
  with Inl show ?thesis by (simp add: from_pressed_modifiers_def)
next
  case (Inr result)
  then have sub: "set keys \<subseteq> set MODIFIER_KEYS"
    using pressed_modifier_bits_total [of 0 keys] by blast
  have "holds_modifier \<lparr>modifier_bits = result, caps_lock_active = caps\<rparr> k \<longleftrightarrow> k \<in> set keys" for k
  proof (cases "modifier_bit k")
    case None
    then have "k \<notin> set MODIFIER_KEYS" using modifier_bit_iff [of k] by simp
    with None sub show ?thesis by (auto simp: holds_modifier_def)
  next
    case (Some mbit)
    with pressed_modifier_bits_holds [OF Inr Some] show ?thesis by (simp add: holds_modifier_def)
  qed
  with Inr sub show ?thesis by (simp add: from_pressed_modifiers_def)
qed

end
