(* ===== verification/Synthetic_Operation.thy ===== *)
theory Synthetic_Operation
  imports Synthetic_Ledgers
begin

text \<open>
  \<open>SyntheticOperation\<close> of src/src/daemon/synthetic_input.rs: one batch of synthetic key presses with
  its cleanup.

  The sink and the target that adopts restored modifiers are traits in the source; in the program
  both work on one shared ledger, so here they are records of functions over the same state \<open>'w\<close>.
  What \<open>OperationControl\<close> reads (cancellation flags of other threads and the clock) is a sequence of
  observations, one for each check.  The panic path of \<open>Drop\<close> is not modelled.
\<close>

subsection \<open>Interfaces\<close>

record ('w, 't) key_sink =
  prepare_down :: "'w \<Rightarrow> key \<Rightarrow> 't res \<times> 'w"
  attempt_down :: "'w \<Rightarrow> 't \<Rightarrow> unit res \<times> 'w"
  attempt_up :: "'w \<Rightarrow> 't \<Rightarrow> unit res \<times> 'w"
  sink_synchronize :: "'w \<Rightarrow> unit res \<times> 'w"
  sink_terminal_proof :: "'w \<Rightarrow> nat \<Rightarrow> terminal_proof"

record ('w, 't) restored_target =
  target_begin_restore :: "'w \<Rightarrow> key \<Rightarrow> unit res \<times> 'w"
  target_adopt :: "'w \<Rightarrow> key \<Rightarrow> 't \<Rightarrow> unit res \<times> 'w"

subsection \<open>Control\<close>

record observation =
  obs_cancelled :: bool
  obs_additional :: "bool list"
  obs_failures :: "u64 list"
  obs_now :: nat

datatype restore_down_mode = SuccessCleanup | SoftCancelCleanup

record operation_control =
  ctl_deadline :: nat
  ctl_observe :: "nat \<Rightarrow> observation"
  ctl_reads :: nat
  restore_down_authorizer :: "nat \<Rightarrow> restore_down_mode \<Rightarrow> unit res"

definition cleanup_cancelled :: "observation \<Rightarrow> bool" where
  "cleanup_cancelled obs \<longleftrightarrow>
     list_ex (\<lambda>cancelled. cancelled) (obs_additional obs) \<or> list_ex (\<lambda>failure. failure \<noteq> 0) (obs_failures obs)"

definition control_ensure_active :: "operation_control \<Rightarrow> u64 \<Rightarrow> unit res \<times> operation_control" where
  "control_ensure_active ctl operation =
     (let obs = ctl_observe ctl (ctl_reads ctl); ctl = ctl\<lparr>ctl_reads := Suc (ctl_reads ctl)\<rparr> in
      if obs_cancelled obs \<or> cleanup_cancelled obs
      then (Inl (InputSafety (OperationCancelled operation)), ctl)
      else if obs_now obs \<ge> ctl_deadline ctl
      then (Inl (InputSafety (OperationTimedOut operation)), ctl)
      else (Inr (), ctl))"

definition control_ensure_cleanup_active ::
  "operation_control \<Rightarrow> u64 \<Rightarrow> unit res \<times> operation_control" where
  "control_ensure_cleanup_active ctl operation =
     (let obs = ctl_observe ctl (ctl_reads ctl); ctl = ctl\<lparr>ctl_reads := Suc (ctl_reads ctl)\<rparr> in
      if cleanup_cancelled obs
      then (Inl (InputSafety (OperationCancelled operation)), ctl)
      else if obs_now obs \<ge> ctl_deadline ctl
      then (Inl (InputSafety (OperationTimedOut operation)), ctl)
      else (Inr (), ctl))"

definition is_personally_cancelled :: "operation_control \<Rightarrow> bool" where
  "is_personally_cancelled ctl = obs_cancelled (ctl_observe ctl (ctl_reads ctl))"

subsection \<open>Operation\<close>

datatype operation_outcome = Success | SoftCancelled | HardFailed

record terminal_report =
  tr_outcome :: operation_outcome
  tr_primary :: "switcher_error option"
  tr_cleanup :: "switcher_error option"
  tr_proof :: terminal_proof

record ('w, 't) operation =
  op_id :: u64
  op_sink :: 'w
  op_ledger :: "'t key_ledger"
  op_control :: operation_control
  frozen_physical :: frozen_snapshot
  restore_plan :: "key list"
  release_only_fallback :: "'t list"
  op_latch :: failure_latch
  finalized :: bool

definition operation_new ::
  "u64 \<Rightarrow> 'w \<Rightarrow> operation_control \<Rightarrow> frozen_snapshot \<Rightarrow> failure_latch \<Rightarrow> ('w, 't) operation" where
  "operation_new oid w ctl frozen latch =
     \<lparr>op_id = oid, op_sink = w, op_ledger = key_ledger_new, op_control = ctl,
      frozen_physical = frozen, restore_plan = [], release_only_fallback = [], op_latch = latch,
      finalized = False\<rparr>"

text \<open>Calls on the parts of an operation.\<close>

definition on_sink :: "('w \<Rightarrow> 'a \<times> 'w) \<Rightarrow> ('w, 't) operation \<Rightarrow> 'a \<times> ('w, 't) operation" where
  "on_sink f op = (case f (op_sink op) of (r, w) \<Rightarrow> (r, op\<lparr>op_sink := w\<rparr>))"

definition on_ledger ::
  "('t key_ledger \<Rightarrow> 'a \<times> 't key_ledger) \<Rightarrow> ('w, 't) operation \<Rightarrow> 'a \<times> ('w, 't) operation" where
  "on_ledger f op = (case f (op_ledger op) of (r, l) \<Rightarrow> (r, op\<lparr>op_ledger := l\<rparr>))"

definition ensure_active :: "('w, 't) operation \<Rightarrow> unit res \<times> ('w, 't) operation" where
  "ensure_active op =
     (case control_ensure_active (op_control op) (op_id op) of (r, ctl) \<Rightarrow> (r, op\<lparr>op_control := ctl\<rparr>))"

definition ensure_cleanup_active :: "('w, 't) operation \<Rightarrow> unit res \<times> ('w, 't) operation" where
  "ensure_cleanup_active op =
     (case control_ensure_cleanup_active (op_control op) (op_id op) of
        (r, ctl) \<Rightarrow> (r, op\<lparr>op_control := ctl\<rparr>))"

definition press ::
  "('w, 't) key_sink \<Rightarrow> ('w, 't) operation \<Rightarrow> key \<Rightarrow> u64 res \<times> ('w, 't) operation" where
  "press sink op key =
     then_st (ensure_active op) (\<lambda>_ op.
     then_st (on_sink (\<lambda>w. prepare_down sink w key) op) (\<lambda>token op.
     then_st (ensure_active op) (\<lambda>_ op.
     then_st (on_ledger (\<lambda>l. begin_down l token) op) (\<lambda>pid op.
     case on_sink (\<lambda>w. attempt_down sink w token) op of (down_result, op) \<Rightarrow>
     then_st (on_ledger (\<lambda>l. mark_possibly_down l pid) op) (\<lambda>_ op.
     check down_result op (\<lambda>_.
     then_st (ensure_active op) (\<lambda>_ op.
     then_st (on_sink (sink_synchronize sink) op) (\<lambda>_ op.
     then_st (ensure_active op) (\<lambda>_ op. (Inr pid, op))))))))))"

definition temporarily_release_physical_modifier ::
  "('w, 't) key_sink \<Rightarrow> ('w, 't) operation \<Rightarrow> key \<Rightarrow> unit res \<times> ('w, 't) operation" where
  "temporarily_release_physical_modifier sink op key =
     then_st (ensure_active op) (\<lambda>_ op.
     then_st (on_sink (\<lambda>w. prepare_down sink w key) op) (\<lambda>token op.
     then_st (ensure_active op) (\<lambda>_ op.
     case plan_record (op_id op) (frozen_physical op) (restore_plan op) key of (recorded, plan) \<Rightarrow>
     let op = op\<lparr>restore_plan := plan\<rparr> in
     check recorded op (\<lambda>_.
     then_st (on_sink (\<lambda>w. attempt_up sink w token) op) (\<lambda>_ op.
     then_st (ensure_active op) (\<lambda>_ op.
     then_st (on_sink (sink_synchronize sink) op) (\<lambda>_ op.
     ensure_active op)))))))"

definition has_planned_modifier_restore :: "('w, 't) operation \<Rightarrow> key \<Rightarrow> bool" where
  "has_planned_modifier_restore op key \<longleftrightarrow> key \<in> set (restore_plan op)"

text \<open>A further control check, made only while no control error has been seen.\<close>

definition recheck_active ::
  "switcher_error option \<Rightarrow> ('w, 't) operation \<Rightarrow> switcher_error option \<times> ('w, 't) operation" where
  "recheck_active control_error op =
     (case control_error of
        Some e \<Rightarrow> (Some e, op)
      | None \<Rightarrow> (case ensure_active op of (r, op) \<Rightarrow> (err_of r, op)))"

definition release ::
  "('w, 't) key_sink \<Rightarrow> ('w, 't) operation \<Rightarrow> u64 \<Rightarrow> unit res \<times> ('w, 't) operation" where
  "release sink op pid =
     check (ledger_token (op_ledger op) pid) op (\<lambda>token.
     case recheck_active None op of (control_error, op) \<Rightarrow>
     case on_sink (\<lambda>w. attempt_up sink w token) op of (release_result, op) \<Rightarrow>
     case recheck_active control_error op of (control_error, op) \<Rightarrow>
     case on_sink (sink_synchronize sink) op of (synchronize_result, op) \<Rightarrow>
     case recheck_active control_error op of (control_error, op) \<Rightarrow>
     then_st (if is_ok release_result \<and> is_ok synchronize_result
              then on_ledger (\<lambda>l. acknowledge_up l pid) op else (Inr (), op)) (\<lambda>_ op.
     check release_result op (\<lambda>_.
     check synchronize_result op (\<lambda>_.
     (case control_error of Some e \<Rightarrow> Inl e | None \<Rightarrow> Inr (), op)))))"

subsection \<open>Cleanup\<close>

definition keep_first_error :: "switcher_error option \<Rightarrow> unit res \<Rightarrow> switcher_error option" where
  "keep_first_error first_error r =
     (case r of Inl e \<Rightarrow> (if first_error = None then Some e else first_error) | Inr _ \<Rightarrow> first_error)"

definition first_error_result :: "switcher_error option \<Rightarrow> unit res" where
  "first_error_result first_error = (case first_error of Some e \<Rightarrow> Inl e | None \<Rightarrow> Inr ())"

text \<open>Release one token: both calls are made, and the token is released when both succeed.\<close>

definition release_one ::
  "('w, 't) key_sink \<Rightarrow> 't \<Rightarrow> switcher_error option \<Rightarrow> ('w, 't) operation \<Rightarrow>
   bool \<times> switcher_error option \<times> ('w, 't) operation" where
  "release_one sink token first_error op =
     (case on_sink (\<lambda>w. attempt_up sink w token) op of (released, op) \<Rightarrow>
      case on_sink (sink_synchronize sink) op of (synchronized, op) \<Rightarrow>
      (is_ok released \<and> is_ok synchronized,
       keep_first_error (keep_first_error first_error released) synchronized, op))"

fun release_loop ::
  "('w, 't) key_sink \<Rightarrow> 't synthetic_debt list \<Rightarrow> switcher_error option \<Rightarrow> ('w, 't) operation \<Rightarrow>
   switcher_error option \<times> ('w, 't) operation" where
  "release_loop sink [] first_error op = (first_error, op)"
| "release_loop sink (debt # ds) first_error op =
     (case release_one sink (debt_token debt) first_error op of (gone, first_error, op) \<Rightarrow>
      release_loop sink ds first_error
        (if gone then op\<lparr>op_ledger := snd (acknowledge_up (op_ledger op) (press_id debt))\<rparr> else op))"

definition release_all ::
  "('w, 't) key_sink \<Rightarrow> ('w, 't) operation \<Rightarrow> unit res \<times> ('w, 't) operation" where
  "release_all sink op =
     (case release_loop sink (reverse_snapshot (op_ledger op)) None op of (first_error, op) \<Rightarrow>
      (first_error_result first_error, op))"

text \<open>
  The fallback is emptied into the drain, worked off from its end, and receives back the tokens
  that could not be released, in the order in which they were tried.
\<close>

fun drain_loop ::
  "('w, 't) key_sink \<Rightarrow> 't list \<Rightarrow> 't list \<Rightarrow> switcher_error option \<Rightarrow> ('w, 't) operation \<Rightarrow>
   't list \<times> switcher_error option \<times> ('w, 't) operation" where
  "drain_loop sink [] retained first_error op = (retained, first_error, op)"
| "drain_loop sink (token # ts) retained first_error op =
     (case release_one sink token first_error op of (gone, first_error, op) \<Rightarrow>
      drain_loop sink ts (if gone then retained else retained @ [token]) first_error op)"

definition drain_release_only_fallback ::
  "('w, 't) key_sink \<Rightarrow> ('w, 't) operation \<Rightarrow> unit res \<times> ('w, 't) operation" where
  "drain_release_only_fallback sink op =
     (case drain_loop sink (rev (release_only_fallback op)) [] None (op\<lparr>release_only_fallback := []\<rparr>) of
        (retained, first_error, op) \<Rightarrow>
      (first_error_result first_error,
       op\<lparr>release_only_fallback := release_only_fallback op @ retained\<rparr>))"

definition remaining_debt :: "('w, 't) operation \<Rightarrow> nat" where
  "remaining_debt op = length (kl_debts (op_ledger op)) + length (release_only_fallback op)"

definition record_reconciliation_failure ::
  "terminal_proof \<Rightarrow> ('w, 't) operation \<Rightarrow> ('w, 't) operation" where
  "record_reconciliation_failure tproof op =
     op\<lparr>op_latch := latch_fail (op_latch op)
          \<lparr>dr_cleanup = Some (InputSafety (Reconciliation (op_id op) (remaining_debt op))),
           dr_proof = tproof\<rparr>\<rparr>"

text \<open>The part of every ending after \<open>begin_terminal\<close>.\<close>

definition terminal_cleanup ::
  "('w, 't) key_sink \<Rightarrow> switcher_error option \<Rightarrow> ('w, 't) operation \<Rightarrow>
   switcher_error option \<times> terminal_proof \<times> ('w, 't) operation" where
  "terminal_cleanup sink cleanup op =
     (let op = op\<lparr>op_ledger := ledger_begin_terminal (op_ledger op)\<rparr> in
      case release_all sink op of (r1, op) \<Rightarrow>
      case drain_release_only_fallback sink op of (r2, op) \<Rightarrow>
      case on_sink (sink_synchronize sink) op of (r3, op) \<Rightarrow>
      (keep_first_error (keep_first_error (keep_first_error cleanup r1) r2) r3,
       sink_terminal_proof sink (op_sink op) (remaining_debt op), op))"

definition is_unreconciled :: "terminal_proof \<Rightarrow> bool" where
  "is_unreconciled tproof = (case tproof of Unreconciled _ \<Rightarrow> True | _ \<Rightarrow> False)"

definition finish_hard_failure ::
  "('w, 't) key_sink \<Rightarrow> ('w, 't) operation \<Rightarrow> switcher_error \<Rightarrow> terminal_report \<times> ('w, 't) operation" where
  "finish_hard_failure sink op primary =
     (case terminal_cleanup sink None op of (cleanup, tproof, op) \<Rightarrow>
      let op = (if cleanup \<noteq> None \<or> is_unreconciled tproof
                then record_reconciliation_failure tproof op else op)
      in (\<lparr>tr_outcome = HardFailed, tr_primary = Some primary, tr_cleanup = cleanup, tr_proof = tproof\<rparr>,
          op\<lparr>finalized := True\<rparr>))"

text \<open>Handing a token over: a token that is not adopted goes to the fallback when it is dropped.\<close>

definition pending_transfer_commit ::
  "('w, 't) restored_target \<Rightarrow> key \<Rightarrow> 't \<Rightarrow> ('w, 't) operation \<Rightarrow> unit res \<times> ('w, 't) operation" where
  "pending_transfer_commit target key token op =
     (case on_sink (\<lambda>w. target_adopt target w key token) op of (r, op) \<Rightarrow>
      (r, if is_ok r then op
          else op\<lparr>release_only_fallback := release_only_fallback op @ [token]\<rparr>))"

definition restore_one_modifier ::
  "('w, 't) key_sink \<Rightarrow> ('w, 't) restored_target \<Rightarrow> restore_down_mode \<Rightarrow> ('w, 't) operation \<Rightarrow> key \<Rightarrow>
   unit res \<times> ('w, 't) operation" where
  "restore_one_modifier sink target mode op key =
     then_st (ensure_cleanup_active op) (\<lambda>_ op.
     then_st (on_sink (\<lambda>w. prepare_down sink w key) op) (\<lambda>token op.
     then_st (ensure_cleanup_active op) (\<lambda>_ op.
     check (restore_down_authorizer (op_control op) (ctl_reads (op_control op)) mode) op (\<lambda>_.
     then_st (on_ledger (\<lambda>l. begin_down l token) op) (\<lambda>pid op.
     case on_sink (\<lambda>w. target_begin_restore target w key) op of
       (Inl e, op) \<Rightarrow>
         then_st (on_ledger (\<lambda>l. cancel_unattempted_down l pid) op) (\<lambda>_ op. (Inl e, op))
     | (Inr _, op) \<Rightarrow>
         case on_sink (\<lambda>w. attempt_down sink w token) op of (down_result, op) \<Rightarrow>
         then_st (on_ledger (\<lambda>l. mark_possibly_down l pid) op) (\<lambda>_ op.
         check down_result op (\<lambda>_.
         then_st (ensure_cleanup_active op) (\<lambda>_ op.
         then_st (on_sink (sink_synchronize sink) op) (\<lambda>_ op.
         then_st (ensure_cleanup_active op) (\<lambda>_ op.
         then_st (on_ledger (\<lambda>l. ledger_transfer l pid) op) (\<lambda>token op.
         pending_transfer_commit target key token op)))))))))))"

fun restore_loop ::
  "('w, 't) key_sink \<Rightarrow> ('w, 't) restored_target \<Rightarrow> restore_down_mode \<Rightarrow> key list \<Rightarrow> ('w, 't) operation \<Rightarrow>
   switcher_error option \<times> ('w, 't) operation" where
  "restore_loop sink target mode [] op = (None, op)"
| "restore_loop sink target mode (key # keys) op =
     (case restore_one_modifier sink target mode op key of
        (Inl e, op) \<Rightarrow> (Some e, op)
      | (Inr _, op) \<Rightarrow> restore_loop sink target mode keys op)"

definition restore_planned_modifiers ::
  "('w, 't) key_sink \<Rightarrow> ('w, 't) restored_target \<Rightarrow> restore_down_mode \<Rightarrow> ('w, 't) operation \<Rightarrow>
   switcher_error option \<times> ('w, 't) operation" where
  "restore_planned_modifiers sink target mode op =
     restore_loop sink target mode (plan_snapshot (restore_plan op)) op"

definition finish_with_restore ::
  "('w, 't) key_sink \<Rightarrow> ('w, 't) restored_target \<Rightarrow> operation_outcome \<Rightarrow> ('w, 't) operation \<Rightarrow>
   terminal_report \<times> ('w, 't) operation" where
  "finish_with_restore sink target requested op =
     (let mode = (if requested = SoftCancelled then SoftCancelCleanup else SuccessCleanup) in
      case restore_planned_modifiers sink target mode op of (cleanup, op) \<Rightarrow>
      case terminal_cleanup sink cleanup op of (cleanup, tproof, op) \<Rightarrow>
      let clean = (cleanup = None \<and> tproof = Reconciled);
          op = (if \<not> clean then record_reconciliation_failure tproof op else op)
      in (\<lparr>tr_outcome =
             (if clean
              then if requested = Success \<and> is_personally_cancelled (op_control op)
                   then SoftCancelled else requested
              else HardFailed),
           tr_primary = None, tr_cleanup = cleanup, tr_proof = tproof\<rparr>,
          op\<lparr>finalized := True\<rparr>))"

definition finish_success ::
  "('w, 't) key_sink \<Rightarrow> ('w, 't) restored_target \<Rightarrow> ('w, 't) operation \<Rightarrow>
   terminal_report \<times> ('w, 't) operation" where
  "finish_success sink target op = finish_with_restore sink target Success op"

definition finish_soft_cancel ::
  "('w, 't) key_sink \<Rightarrow> ('w, 't) restored_target \<Rightarrow> ('w, 't) operation \<Rightarrow>
   terminal_report \<times> ('w, 't) operation" where
  "finish_soft_cancel sink target op = finish_with_restore sink target SoftCancelled op"

definition drop_operation :: "('w, 't) key_sink \<Rightarrow> ('w, 't) operation \<Rightarrow> ('w, 't) operation" where
  "drop_operation sink op =
     (if finalized op then op
      else case terminal_cleanup sink None op of (cleanup, tproof, op) \<Rightarrow>
        op\<lparr>op_latch := latch_fail (op_latch op) \<lparr>dr_cleanup = cleanup, dr_proof = tproof\<rparr>,
           finalized := True\<rparr>)"

text \<open>The calls a batch makes before it ends.\<close>

datatype operation_call = PressKey key | ReleasePress u64 | TemporarilyRelease key

fun operation_step ::
  "('w, 't) key_sink \<Rightarrow> ('w, 't) operation \<Rightarrow> operation_call \<Rightarrow> ('w, 't) operation" where
  "operation_step sink op (PressKey key) = snd (press sink op key)"
| "operation_step sink op (ReleasePress pid) = snd (release sink op pid)"
| "operation_step sink op (TemporarilyRelease key) =
     snd (temporarily_release_physical_modifier sink op key)"

subsection \<open>What the ledger keeps\<close>

definition ledger_tokens :: "'t key_ledger \<Rightarrow> 't set" where
  "ledger_tokens l = debt_token ` set (kl_debts l)"

definition operation_tokens :: "('w, 't) operation \<Rightarrow> 't set" where
  "operation_tokens op = ledger_tokens (op_ledger op) \<union> set (release_only_fallback op)"

definition tracks :: "'t key_ledger \<Rightarrow> u64 \<Rightarrow> 't \<Rightarrow> bool" where
  "tracks l pid token \<longleftrightarrow> (\<exists>d \<in> set (kl_debts l). press_id d = pid \<and> debt_token d = token)"

lemma tracks_token: "tracks l pid token \<Longrightarrow> token \<in> ledger_tokens l"
  by (auto simp: tracks_def ledger_tokens_def)

lemma tracks_position:
  assumes "key_ledger_inv l" and "tracks l pid token"
  shows "\<exists>i. position (\<lambda>d. press_id d = pid) (kl_debts l) = Some i \<and> i < length (kl_debts l) \<and>
     press_id (kl_debts l ! i) = pid \<and> debt_token (kl_debts l ! i) = token"
proof -
  from assms(2) obtain i where i: "i < length (kl_debts l)" "press_id (kl_debts l ! i) = pid"
    "debt_token (kl_debts l ! i) = token"
    by (auto simp: tracks_def in_set_conv_nth)
  moreover have "position (\<lambda>d. press_id d = pid) (kl_debts l) = Some i"
    using position_unique_key [of press_id "kl_debts l" i] assms(1) i by (simp add: key_ledger_inv_def)
  ultimately show ?thesis by blast
qed

lemma begin_down_tracks:
  assumes "begin_down l token = (Inr pid, l')"
  shows "tracks l' pid token" "ledger_tokens l' = insert token (ledger_tokens l)"
  using assms by (auto simp: begin_down_Inr tracks_def ledger_tokens_def)

lemma mark_possibly_down_tracks:
  assumes inv: "key_ledger_inv l" and tr: "tracks l pid token"
  shows "\<exists>l'. mark_possibly_down l pid = (Inr (), l') \<and> key_ledger_inv l' \<and> tracks l' pid token \<and>
     ledger_tokens l' = ledger_tokens l"
proof -
  from tracks_position [OF inv tr] obtain i where i: "position (\<lambda>d. press_id d = pid) (kl_debts l) = Some i"
    "i < length (kl_debts l)" "press_id (kl_debts l ! i) = pid" "debt_token (kl_debts l ! i) = token"
    by blast
  let ?ds = "(kl_debts l)[i := (kl_debts l ! i)\<lparr>debt_state := DownPossibly\<rparr>]"
  have "mark_possibly_down l pid = (Inr (), l\<lparr>kl_debts := ?ds\<rparr>)"
    using i by (simp add: mark_possibly_down_def)
  moreover have "map debt_token ?ds = map debt_token (kl_debts l)"
    using i(2) by (intro nth_equalityI) (auto simp: nth_list_update)
  then have "debt_token ` set ?ds = debt_token ` set (kl_debts l)" by (metis set_map)
  moreover have "(kl_debts l ! i)\<lparr>debt_state := DownPossibly\<rparr> \<in> set ?ds"
    using i(2) by (rule set_update_memI)
  ultimately show ?thesis
    using mark_possibly_down_inv [OF inv, of pid] i
    by (intro exI [of _ "l\<lparr>kl_debts := ?ds\<rparr>"])
      (auto simp: ledger_tokens_def tracks_def
        intro!: bexI [of _ "(kl_debts l ! i)\<lparr>debt_state := DownPossibly\<rparr>"])
qed

text \<open>Removing the debt of a press leaves the tokens of all others.\<close>

lemma removed_tokens:
  assumes inv: "key_ledger_inv l" and tr: "tracks l pid token"
    and pos: "position (\<lambda>d. press_id d = pid) (kl_debts l) = Some i"
  shows "ledger_tokens l \<subseteq> insert token (ledger_tokens (l\<lparr>kl_debts := remove_at i (kl_debts l)\<rparr>))"
proof -
  from tracks_position [OF inv tr] pos have i: "i < length (kl_debts l)" "debt_token (kl_debts l ! i) = token"
    by auto
  have "set (kl_debts l) = insert (kl_debts l ! i) (set (remove_at i (kl_debts l)))"
    by (subst split_at [OF i(1)]) (auto simp: remove_at_def)
  with i(2) show ?thesis by (auto simp: ledger_tokens_def)
qed

lemma acknowledge_up_tracks:
  assumes inv: "key_ledger_inv l" and tr: "tracks l pid token"
  shows "\<exists>l'. acknowledge_up l pid = (Inr (), l') \<and> key_ledger_inv l' \<and>
     ledger_tokens l \<subseteq> insert token (ledger_tokens l') \<and> length (kl_debts l') = length (kl_debts l) - 1"
proof -
  from tracks_position [OF inv tr] obtain i where i: "position (\<lambda>d. press_id d = pid) (kl_debts l) = Some i"
    "i < length (kl_debts l)" by blast
  then show ?thesis
    using removed_tokens [OF inv tr i(1)] key_ledger_inv_remove [OF inv] by (simp add: acknowledge_up_def)
qed

lemma ledger_transfer_tracks:
  assumes inv: "key_ledger_inv l" and tr: "tracks l pid token"
    and ok: "ledger_transfer l pid = (Inr moved, l')"
  shows "moved = token \<and> key_ledger_inv l' \<and> ledger_tokens l \<subseteq> insert token (ledger_tokens l')"
proof -
  from ok obtain i where i: "position (\<lambda>d. press_id d = pid) (kl_debts l) = Some i"
    "moved = debt_token (kl_debts l ! i)" "l' = l\<lparr>kl_debts := remove_at i (kl_debts l)\<rparr>"
    by (auto simp: ledger_transfer_def)
  with tracks_position [OF inv tr] have "moved = token" by auto
  with i removed_tokens [OF inv tr i(1)] key_ledger_inv_remove [OF inv] show ?thesis by simp
qed

text \<open>Cancelling a down that was begun and not attempted takes the ledger's debts back.\<close>

lemma cancel_after_begin:
  assumes inv: "key_ledger_inv l" and down: "begin_down l token = (Inr pid, l1)"
  shows "cancel_unattempted_down l1 pid = (Inr (), l1\<lparr>kl_debts := kl_debts l\<rparr>)"
proof -
  from down have l1: "pid = next_press_id l" "kl_debts l1 = kl_debts l @
      [\<lparr>press_id = pid, debt_token = token, debt_state = DownAttempting\<rparr>]"
    by (auto simp: begin_down_Inr)
  have "position (\<lambda>d. press_id d = pid) (kl_debts l) = None"
    using inv l1(1) by (auto simp: position_None_iff key_ledger_inv_def)
  moreover have "position p (xs @ [x]) = (case position p xs of None \<Rightarrow> (if p x then Some (length xs) else None) | Some i \<Rightarrow> Some i)"
    for p xs and x :: "'a synthetic_debt"
    by (induction xs) (auto split: option.splits)
  ultimately have "position (\<lambda>d. press_id d = pid) (kl_debts l1) = Some (length (kl_debts l))"
    by (simp add: l1(2))
  then show ?thesis
    by (simp add: cancel_unattempted_down_def l1(2) remove_at_def ensure_def)
qed

subsection \<open>The contract of sink and target\<close>

text \<open>
  \<open>held w\<close> are the keys the device may hold down in state \<open>w\<close>, and \<open>owned w\<close> the keys the restore
  target answers for.  A key-up followed by a synchronize has released its key when both succeed.
\<close>

locale sink_keys =
  fixes sink :: "('w, 't) key_sink"
    and target :: "('w, 't) restored_target"
    and token_key :: "'t \<Rightarrow> key"
    and held owned :: "'w \<Rightarrow> key set"
  assumes prepare_keys: "prepare_down sink w k = (r, w') \<Longrightarrow> held w' \<subseteq> held w \<and> owned w \<subseteq> owned w'"
    and prepare_key: "prepare_down sink w k = (Inr token, w') \<Longrightarrow> token_key token = k"
    and down_keys: "attempt_down sink w token = (q, w') \<Longrightarrow>
      held w' \<subseteq> insert (token_key token) (held w) \<and> owned w \<subseteq> owned w'"
    and up_keys: "attempt_up sink w token = (q, w') \<Longrightarrow> held w' \<subseteq> held w \<and> owned w \<subseteq> owned w'"
    and sync_keys: "sink_synchronize sink w = (q, w') \<Longrightarrow> held w' \<subseteq> held w \<and> owned w \<subseteq> owned w'"
    and up_sync: "attempt_up sink w token = (Inr u, w1) \<Longrightarrow> sink_synchronize sink w1 = (Inr v, w2) \<Longrightarrow>
      token_key token \<notin> held w2"
    and begin_keys: "target_begin_restore target w k = (q, w') \<Longrightarrow> held w' \<subseteq> held w \<and> owned w \<subseteq> owned w'"
    and adopt_keys: "target_adopt target w k token = (q, w') \<Longrightarrow> held w' \<subseteq> held w \<and> owned w \<subseteq> owned w'"
    and adopt_owned: "target_adopt target w k token = (Inr u, w') \<Longrightarrow> token_key token = k \<Longrightarrow> k \<in> owned w'"
    and proof_exact: "sink_terminal_proof sink w n = Reconciled \<Longrightarrow> n = 0"
begin

text \<open>
  The operation answers for every key that may be down and was not down before (\<open>B\<close>): it has a
  token for it or the restore target owns it.
\<close>

definition op_inv :: "key set \<Rightarrow> ('w, 't) operation \<Rightarrow> bool" where
  "op_inv B op \<longleftrightarrow> key_ledger_inv (op_ledger op) \<and>
     held (op_sink op) \<subseteq> token_key ` operation_tokens op \<union> owned (op_sink op) \<union> B"

lemma op_inv_sink:
  "op_inv B op \<Longrightarrow> held w \<subseteq> held (op_sink op) \<Longrightarrow> owned (op_sink op) \<subseteq> owned w \<Longrightarrow>
   op_inv B (op\<lparr>op_sink := w\<rparr>)"
  unfolding op_inv_def operation_tokens_def by simp blast

lemma on_sink_inv:
  assumes "op_inv B op" and "\<And>r w'. f (op_sink op) = (r, w') \<Longrightarrow> held w' \<subseteq> held (op_sink op) \<and> owned (op_sink op) \<subseteq> owned w'"
  shows "op_inv B (snd (on_sink f op))"
  using assms op_inv_sink by (auto simp: on_sink_def split: prod.splits)

lemma op_inv_fields [simp]:
  "op_inv B (op\<lparr>op_control := c\<rparr>) = op_inv B op" "op_inv B (op\<lparr>restore_plan := p\<rparr>) = op_inv B op"
  "op_inv B (op\<lparr>op_latch := t\<rparr>) = op_inv B op" "op_inv B (op\<lparr>finalized := b\<rparr>) = op_inv B op"
  by (simp_all add: op_inv_def operation_tokens_def)

lemma ensure_active_inv:
  "op_inv B op \<Longrightarrow> op_inv B (snd (ensure_active op))"
  "op_inv B op \<Longrightarrow> op_inv B (snd (ensure_cleanup_active op))"
  by (simp_all add: ensure_active_def ensure_cleanup_active_def split: prod.splits)

lemma ensure_active_ledger [simp]:
  "op_ledger (snd (ensure_active op)) = op_ledger op"
  "op_ledger (snd (ensure_cleanup_active op)) = op_ledger op"
  "op_ledger (snd (on_sink f op)) = op_ledger op"
  by (simp_all add: ensure_active_def ensure_cleanup_active_def on_sink_def split: prod.splits)

text \<open>Postconditions of the pieces an operation is made of.\<close>

abbreviation pre_down :: "key set \<Rightarrow> u64 \<Rightarrow> 't \<Rightarrow> ('w, 't) operation \<Rightarrow> bool" where
  "pre_down B pid token op \<equiv> op_inv B op \<and> tracks (op_ledger op) pid token"

lemma post_of_inv:
  "op_inv B (snd r) \<Longrightarrow> post (op_inv B) (\<lambda>_. op_inv B) r"
  by (simp add: post_snd)

lemma post_active:
  "pre_down B pid token op \<Longrightarrow> post (op_inv B) (\<lambda>_. pre_down B pid token) (ensure_active op)"
  "pre_down B pid token op \<Longrightarrow> post (op_inv B) (\<lambda>_. pre_down B pid token) (ensure_cleanup_active op)"
  using ensure_active_inv [of B op] by (auto simp: post_def split: sum.splits)

lemma post_prepare:
  assumes "op_inv B op"
  shows "post (op_inv B) (\<lambda>token op'. op_inv B op' \<and> token_key token = key)
    (on_sink (\<lambda>w. prepare_down sink w key) op)"
proof -
  obtain r w where r: "prepare_down sink (op_sink op) key = (r, w)" by fastforce
  have "op_inv B (op\<lparr>op_sink := w\<rparr>)"
    using op_inv_sink [OF assms] prepare_keys [OF r] by blast
  with r prepare_key show ?thesis by (cases r) (auto simp: on_sink_def)
qed

lemma post_begin_down:
  assumes "op_inv B op"
  shows "post (op_inv B) (\<lambda>pid op'. pre_down B pid token op' \<and> op_sink op' = op_sink op)
    (on_ledger (\<lambda>l. begin_down l token) op)"
proof -
  obtain r l where r: "begin_down (op_ledger op) token = (r, l)" by fastforce
  have inv: "key_ledger_inv l"
    using begin_down_inv [of "op_ledger op" token] assms r by (simp add: op_inv_def)
  show ?thesis
  proof (cases r)
    case (Inl e)
    with r begin_down_Inl [of "op_ledger op" token e l] have "l = op_ledger op" by simp
    with Inl r assms show ?thesis by (simp add: on_ledger_def)
  next
    case (Inr pid)
    with r begin_down_tracks [of "op_ledger op" token pid l] assms inv show ?thesis
      by (auto simp: on_ledger_def op_inv_def operation_tokens_def)
  qed
qed

lemma attempt_down_inv:
  assumes "pre_down B pid token op"
  shows "pre_down B pid token (snd (on_sink (\<lambda>w. attempt_down sink w token) op))"
proof -
  obtain r w where r: "attempt_down sink (op_sink op) token = (r, w)" by fastforce
  have "token \<in> operation_tokens op"
    using assms tracks_token by (auto simp: operation_tokens_def)
  then have "token_key token \<in> token_key ` operation_tokens op" by blast
  with down_keys [OF r] assms have "op_inv B (op\<lparr>op_sink := w\<rparr>)"
    unfolding op_inv_def operation_tokens_def by simp blast
  with r assms show ?thesis by (simp add: on_sink_def)
qed

lemma post_mark:
  assumes "pre_down B pid token op"
  shows "post (op_inv B) (\<lambda>_. pre_down B pid token) (on_ledger (\<lambda>l. mark_possibly_down l pid) op)"
proof -
  from assms mark_possibly_down_tracks [of "op_ledger op" pid token] obtain l where
    "mark_possibly_down (op_ledger op) pid = (Inr (), l)" "key_ledger_inv l" "tracks l pid token"
    "ledger_tokens l = ledger_tokens (op_ledger op)"
    by (auto simp: op_inv_def)
  with assms show ?thesis by (simp add: on_ledger_def op_inv_def operation_tokens_def)
qed

lemma post_sync:
  assumes "pre_down B pid token op"
  shows "post (op_inv B) (\<lambda>_. pre_down B pid token) (on_sink (sink_synchronize sink) op)"
proof -
  have "op_inv B (snd (on_sink (sink_synchronize sink) op))"
    using assms sync_keys by (intro on_sink_inv) auto
  with assms show ?thesis by (auto simp: post_def split: sum.splits)
qed

lemma press_inv:
  assumes "op_inv B op"
  shows "op_inv B (snd (press sink op key))"
proof -
  have "post (op_inv B) (\<lambda>_. op_inv B) (press sink op key)"
    unfolding press_def
  proof (rule post_then [OF post_of_inv [OF ensure_active_inv(1) [OF assms]]],
      rule post_then [OF post_prepare], assumption, elim conjE,
      rule post_then [OF post_of_inv [OF ensure_active_inv(1)]], assumption,
      rule post_then [OF post_begin_down], assumption, elim conjE)
    fix token pid op
    assume op: "op_inv B op" "tracks (op_ledger op) pid token"
    obtain r op1 where r: "on_sink (\<lambda>w. attempt_down sink w token) op = (r, op1)" by fastforce
    have op1: "pre_down B pid token op1" using attempt_down_inv [where B = B and pid = pid and token = token and op = op] op r by simp
    show "post (op_inv B) (\<lambda>_. op_inv B) (case on_sink (\<lambda>w. attempt_down sink w token) op of (down_result, op) \<Rightarrow>
       then_st (on_ledger (\<lambda>l. mark_possibly_down l pid) op) (\<lambda>_ op.
       check down_result op (\<lambda>_.
       then_st (ensure_active op) (\<lambda>_ op.
       then_st (on_sink (sink_synchronize sink) op) (\<lambda>_ op.
       then_st (ensure_active op) (\<lambda>_ op. (Inr pid, op)))))))"
      unfolding r prod.case
      by (rule post_then [OF post_mark [OF op1]], rule post_check, simp,
          rule post_then [OF post_active(1)], assumption, rule post_then [OF post_sync], assumption,
          rule post_then [OF post_active(1)], assumption, simp)
  qed
  then show ?thesis by (simp add: post_snd)
qed

lemma post_up:
  assumes "op_inv B op"
  shows "post (op_inv B) (\<lambda>_. op_inv B) (on_sink (\<lambda>w. attempt_up sink w token) op)"
  by (rule post_of_inv, rule on_sink_inv [OF assms]) (use up_keys in blast)

lemma post_sync_inv:
  assumes "op_inv B op"
  shows "post (op_inv B) (\<lambda>_. op_inv B) (on_sink (sink_synchronize sink) op)"
  by (rule post_of_inv, rule on_sink_inv [OF assms]) (use sync_keys in blast)

lemmas post_active_inv = post_of_inv [OF ensure_active_inv(1)] post_of_inv [OF ensure_active_inv(2)]

lemma temporarily_release_inv:
  assumes "op_inv B op"
  shows "op_inv B (snd (temporarily_release_physical_modifier sink op key))"
proof -
  have "post (op_inv B) (\<lambda>_. op_inv B) (temporarily_release_physical_modifier sink op key)"
    unfolding temporarily_release_physical_modifier_def Let_def
  proof (rule post_then [OF post_active_inv(1) [OF assms]], rule post_then [OF post_prepare], assumption,
      elim conjE, rule post_then [OF post_active_inv(1)], assumption)
    fix token op
    assume op: "op_inv B op"
    obtain r plan where r: "plan_record (op_id op) (frozen_physical op) (restore_plan op) key = (r, plan)" by fastforce
    show "post (op_inv B) (\<lambda>_. op_inv B)
      (case plan_record (op_id op) (frozen_physical op) (restore_plan op) key of (recorded, plan) \<Rightarrow>
       check recorded (op\<lparr>restore_plan := plan\<rparr>) (\<lambda>_.
       then_st (on_sink (\<lambda>w. attempt_up sink w token) (op\<lparr>restore_plan := plan\<rparr>)) (\<lambda>_ op.
       then_st (ensure_active op) (\<lambda>_ op.
       then_st (on_sink (sink_synchronize sink) op) (\<lambda>_ op.
       ensure_active op)))))"
      unfolding r prod.case
      by (rule post_check, simp add: op, rule post_then [OF post_up], simp add: op,
          rule post_then [OF post_active_inv(1)], assumption, rule post_then [OF post_sync_inv], assumption,
          rule post_active_inv(1))
  qed
  then show ?thesis by (simp add: post_snd)
qed

text \<open>Releasing one token.\<close>

lemma release_one_inv:
  assumes inv: "op_inv B op" and one: "release_one sink token e op = (gone, e', op')"
  shows "op_inv B op' \<and> op_ledger op' = op_ledger op \<and> release_only_fallback op' = release_only_fallback op \<and>
    restore_plan op' = restore_plan op \<and> held (op_sink op') \<subseteq> held (op_sink op) \<and>
    (gone \<longrightarrow> token_key token \<notin> held (op_sink op'))"
proof -
  obtain r1 w1 where w1: "attempt_up sink (op_sink op) token = (r1, w1)" by fastforce
  obtain r2 w2 where w2: "sink_synchronize sink w1 = (r2, w2)" by fastforce
  from one w1 w2 have op': "op' = op\<lparr>op_sink := w2\<rparr>" "gone = (is_ok r1 \<and> is_ok r2)"
    by (auto simp: release_one_def on_sink_def)
  have "held w2 \<subseteq> held (op_sink op)" "owned (op_sink op) \<subseteq> owned w2"
    using up_keys [OF w1] sync_keys [OF w2] by blast+
  moreover have "token_key token \<notin> held w2" if gone
    using that op'(2) w1 w2 up_sync by (cases r1; cases r2) auto
  ultimately show ?thesis
    using op_inv_sink [OF inv] by (simp add: op')
qed

lemma acknowledged_inv:
  assumes inv: "op_inv B op" and tr: "tracks (op_ledger op) pid token"
    and gone: "token_key token \<notin> held (op_sink op)"
  shows "op_inv B (op\<lparr>op_ledger := snd (acknowledge_up (op_ledger op) pid)\<rparr>)"
proof -
  from acknowledge_up_tracks [OF _ tr] inv obtain l where
    "acknowledge_up (op_ledger op) pid = (Inr (), l)" "key_ledger_inv l"
    and sub: "ledger_tokens (op_ledger op) \<subseteq> insert token (ledger_tokens l)"
    by (auto simp: op_inv_def)
  moreover have "held (op_sink op) \<subseteq> token_key ` (ledger_tokens l \<union> set (release_only_fallback op)) \<union> owned (op_sink op) \<union> B"
    using inv gone sub unfolding op_inv_def operation_tokens_def by blast
  ultimately show ?thesis by (simp add: op_inv_def operation_tokens_def)
qed

lemma acknowledge_tracks_other:
  assumes "key_ledger_inv l" and "tracks l pid token" and "tracks l other t" and "other \<noteq> pid"
  shows "tracks (snd (acknowledge_up l pid)) other t"
proof -
  from tracks_position [OF assms(1,2)] obtain i where i: "position (\<lambda>d. press_id d = pid) (kl_debts l) = Some i"
    "i < length (kl_debts l)" "press_id (kl_debts l ! i) = pid" by blast
  have "set (kl_debts l) = insert (kl_debts l ! i) (set (remove_at i (kl_debts l)))"
    by (subst split_at [OF i(2)]) (auto simp: remove_at_def)
  with assms(3,4) i show ?thesis by (auto simp: tracks_def acknowledge_up_def)
qed

lemma release_loop_inv:
  assumes "op_inv B op" and "\<And>d. d \<in> set ds \<Longrightarrow> tracks (op_ledger op) (press_id d) (debt_token d)"
    and "distinct (map press_id ds)"
  shows "op_inv B (snd (release_loop sink ds e op)) \<and>
    release_only_fallback (snd (release_loop sink ds e op)) = release_only_fallback op"
  using assms
proof (induction ds arbitrary: op e)
  case (Cons d ds)
  obtain gone e1 op1 where one: "release_one sink (debt_token d) e op = (gone, e1, op1)"
    by (metis prod_cases3)
  note r1 = release_one_inv [OF Cons.prems(1) one]
  let ?op = "if gone then op1\<lparr>op_ledger := snd (acknowledge_up (op_ledger op1) (press_id d))\<rparr> else op1"
  have tr: "tracks (op_ledger op1) (press_id d) (debt_token d)"
    using Cons.prems(2) [of d] r1 by simp
  have inv: "op_inv B ?op" using acknowledged_inv [OF _ tr] r1 by simp
  have others: "tracks (op_ledger ?op) (press_id x) (debt_token x)" if "x \<in> set ds" for x
  proof -
    have "press_id x \<noteq> press_id d" using distinct_map_Cons_neq [OF Cons.prems(3) that] .
    moreover have "tracks (op_ledger op1) (press_id x) (debt_token x)"
      using Cons.prems(2) [of x] that r1 by simp
    moreover have "key_ledger_inv (op_ledger op1)" using conjunct1 [OF r1] by (simp add: op_inv_def)
    ultimately show ?thesis
      using acknowledge_tracks_other [OF _ tr, of "press_id x" "debt_token x"] by simp
  qed
  have "release_only_fallback ?op = release_only_fallback op" using r1 by simp
  with Cons.IH [OF inv others] Cons.prems(3) one show ?case by simp
qed simp

lemma release_all_inv:
  assumes "op_inv B op"
  shows "op_inv B (snd (release_all sink op)) \<and>
    release_only_fallback (snd (release_all sink op)) = release_only_fallback op"
proof -
  have "tracks (op_ledger op) (press_id d) (debt_token d)" if "d \<in> set (reverse_snapshot (op_ledger op))" for d
    using that by (auto simp: reverse_snapshot_def tracks_def)
  moreover have "distinct (map press_id (reverse_snapshot (op_ledger op)))"
    using assms by (simp add: reverse_snapshot_def op_inv_def key_ledger_inv_def rev_map [symmetric])
  ultimately show ?thesis
    using release_loop_inv [OF assms, of "reverse_snapshot (op_ledger op)" None]
    by (auto simp: release_all_def split: prod.splits)
qed

lemma op_inv_B:
  "op_inv B op \<Longrightarrow> held (op_sink op) \<inter> (B - C) = {} \<Longrightarrow> op_inv C op"
  unfolding op_inv_def by blast

lemma drain_loop_inv:
  assumes "op_inv (B \<union> token_key ` (set ts \<union> set retained)) op"
    and "drain_loop sink ts retained e op = (retained', e', op')"
  shows "op_inv (B \<union> token_key ` set retained') op' \<and> release_only_fallback op' = release_only_fallback op"
  using assms
proof (induction ts arbitrary: op e retained)
  case (Cons token ts)
  obtain gone e1 op1 where one: "release_one sink token e op = (gone, e1, op1)"
    by (metis prod_cases3)
  note r1 = release_one_inv [OF Cons.prems(1) one]
  let ?ret = "if gone then retained else retained @ [token]"
  have "op_inv (B \<union> token_key ` (set ts \<union> set ?ret)) op1"
    by (rule op_inv_B [OF conjunct1 [OF r1]]) (use r1 in auto)
  moreover have "drain_loop sink ts ?ret e1 op1 = (retained', e', op')"
    using Cons.prems(2) one by simp
  ultimately show ?case using Cons.IH r1 by metis
qed simp

lemma drain_inv:
  assumes "op_inv B op"
  shows "op_inv B (snd (drain_release_only_fallback sink op))"
proof -
  let ?op = "op\<lparr>release_only_fallback := []\<rparr>"
  obtain retained e op' where d: "drain_loop sink (rev (release_only_fallback op)) [] None ?op = (retained, e, op')"
    by (metis prod_cases3)
  have "op_inv (B \<union> token_key ` (set (rev (release_only_fallback op)) \<union> set [])) ?op"
    using assms unfolding op_inv_def operation_tokens_def by auto
  from drain_loop_inv [OF this d] have "op_inv (B \<union> token_key ` set retained) op'" by simp
  then have "op_inv B (op'\<lparr>release_only_fallback := release_only_fallback op' @ retained\<rparr>)"
    unfolding op_inv_def operation_tokens_def by auto
  with d show ?thesis by (simp add: drain_release_only_fallback_def)
qed

text \<open>The end of every operation.\<close>

lemma terminal_cleanup_inv:
  assumes inv: "op_inv B op" and fin: "terminal_cleanup sink cleanup op = (cleanup', tproof, op')"
  shows "op_inv B op' \<and> (tproof = Reconciled \<longrightarrow> held (op_sink op') \<subseteq> owned (op_sink op') \<union> B)"
proof -
  let ?op = "op\<lparr>op_ledger := ledger_begin_terminal (op_ledger op)\<rparr>"
  have "op_inv B ?op"
    using inv by (simp add: op_inv_def operation_tokens_def ledger_tokens_def ledger_begin_terminal_def key_ledger_inv_def)
  then have "op_inv B (snd (drain_release_only_fallback sink (snd (release_all sink ?op))))"
    using release_all_inv drain_inv by blast
  then have inv': "op_inv B op'"
    using fin on_sink_inv [of B _ "sink_synchronize sink"] sync_keys
    by (fastforce simp: terminal_cleanup_def Let_def split: prod.splits)
  moreover have "operation_tokens op' = {}" if "tproof = Reconciled"
  proof -
    have "tproof = sink_terminal_proof sink (op_sink op') (remaining_debt op')"
      using fin by (auto simp: terminal_cleanup_def Let_def split: prod.splits)
    with that proof_exact have "remaining_debt op' = 0" by metis
    then show ?thesis by (simp add: remaining_debt_def operation_tokens_def ledger_tokens_def)
  qed
  ultimately show ?thesis by (auto simp: op_inv_def)
qed

lemma release_inv:
  assumes inv: "op_inv B op"
  shows "op_inv B (snd (release sink op pid))"
proof (cases "ledger_token (op_ledger op) pid")
  case (Inl e)
  with inv show ?thesis by (simp add: release_def)
next
  case (Inr token)
  then obtain d where "d \<in> set (kl_debts (op_ledger op))" "press_id d = pid" "debt_token d = token"
    by (auto simp: ledger_token_def dest!: find_SomeD)
  then have tr: "tracks (op_ledger op) pid token" by (auto simp: tracks_def)
  obtain e1 op1 where op1: "recheck_active None op = (e1, op1)" by fastforce
  obtain r1 w1 where w1: "attempt_up sink (op_sink op) token = (r1, w1)" by fastforce
  obtain e2 op2 where op2: "recheck_active e1 (op1\<lparr>op_sink := w1\<rparr>) = (e2, op2)" by fastforce
  obtain r2 w2 where w2: "sink_synchronize sink w1 = (r2, w2)" by fastforce
  obtain e3 op3 where op3: "recheck_active e2 (op2\<lparr>op_sink := w2\<rparr>) = (e3, op3)" by fastforce
  have keep: "\<exists>c. op'' = op'\<lparr>op_control := c\<rparr>" if "recheck_active e op' = (e', op'')" for e op' e' op''
    using that by (auto simp: recheck_active_def ensure_active_def split: option.splits prod.splits
        intro: exI [of _ "op_control op'"])
  obtain c1 c2 c3 where c: "op1 = op\<lparr>op_control := c1\<rparr>" "op2 = op1\<lparr>op_sink := w1, op_control := c2\<rparr>"
    "op3 = op2\<lparr>op_sink := w2, op_control := c3\<rparr>"
    using keep [OF op1] keep [OF op2] keep [OF op3] by auto
  have s3: "op3 = op\<lparr>op_sink := w2, op_control := c3\<rparr>" by (simp add: c)
  have "held w2 \<subseteq> held (op_sink op)" "owned (op_sink op) \<subseteq> owned w2"
    using up_keys [OF w1] sync_keys [OF w2] by blast+
  then have inv3: "op_inv B op3" using op_inv_sink [OF inv] by (simp add: s3)
  have "op_inv B (op3\<lparr>op_ledger := snd (acknowledge_up (op_ledger op3) pid)\<rparr>)" if "is_ok r1" "is_ok r2"
  proof (rule acknowledged_inv [OF inv3])
    show "tracks (op_ledger op3) pid token" using tr by (simp add: s3)
    show "token_key token \<notin> held (op_sink op3)"
      using that w1 w2 up_sync by (cases r1; cases r2) (auto simp: s3)
  qed
  moreover have "snd (release sink op pid) = (if is_ok r1 \<and> is_ok r2
      then op3\<lparr>op_ledger := snd (acknowledge_up (op_ledger op3) pid)\<rparr> else op3)"
    using Inr op1 op2 op3 w1 w2 c(1,2)
    by (cases "acknowledge_up (op_ledger op3) pid"; cases "fst (acknowledge_up (op_ledger op3) pid)"; cases r1; cases r2)
      (auto simp: release_def on_sink_def on_ledger_def)
  ultimately show ?thesis using inv3 by auto
qed

text \<open>Handing a restored modifier over.\<close>

lemma pending_transfer_inv:
  assumes inv: "op_inv (B \<union> {token_key token}) op" and key: "token_key token = key"
  shows "op_inv B (snd (pending_transfer_commit target key token op))"
proof -
  obtain r w where r: "target_adopt target (op_sink op) key token = (r, w)" by fastforce
  have sub: "held w \<subseteq> held (op_sink op)" "owned (op_sink op) \<subseteq> owned w"
    using adopt_keys [OF r] by blast+
  show ?thesis
  proof (cases r)
    case (Inl e)
    then have "snd (pending_transfer_commit target key token op) =
        op\<lparr>op_sink := w, release_only_fallback := release_only_fallback op @ [token]\<rparr>"
      using r by (simp add: pending_transfer_commit_def on_sink_def)
    then show ?thesis
      using inv sub unfolding op_inv_def operation_tokens_def by auto
  next
    case (Inr u)
    then have "snd (pending_transfer_commit target key token op) = op\<lparr>op_sink := w\<rparr>"
      using r by (simp add: pending_transfer_commit_def on_sink_def)
    moreover have "key \<in> owned w" using adopt_owned r Inr key by blast
    ultimately show ?thesis
      using inv sub key unfolding op_inv_def operation_tokens_def by auto
  qed
qed

lemma post_transfer:
  assumes pre: "pre_down B pid token op"
  shows "post (op_inv B) (\<lambda>moved op'. moved = token \<and> op_inv (B \<union> {token_key token}) op')
    (on_ledger (\<lambda>l. ledger_transfer l pid) op)"
proof -
  obtain r l where r: "ledger_transfer (op_ledger op) pid = (r, l)" by fastforce
  show ?thesis
  proof (cases r)
    case (Inl e)
    then have "l = op_ledger op" using r atomic_onD [OF ledger_atomic(2)] by blast
    with Inl r pre show ?thesis by (simp add: on_ledger_def)
  next
    case (Inr moved)
    with r pre ledger_transfer_tracks [of "op_ledger op" pid token moved l]
    have "moved = token" "key_ledger_inv l" "ledger_tokens (op_ledger op) \<subseteq> insert token (ledger_tokens l)"
      by (auto simp: op_inv_def)
    moreover from this pre
    have "held (op_sink op) \<subseteq> token_key ` (ledger_tokens l \<union> set (release_only_fallback op)) \<union> owned (op_sink op)
        \<union> (B \<union> {token_key token})"
      unfolding op_inv_def operation_tokens_def by blast
    ultimately show ?thesis
      using Inr r by (simp add: on_ledger_def op_inv_def operation_tokens_def)
  qed
qed

text \<open>A restore that the target refuses takes its unattempted down back.\<close>

lemma refused_restore_inv:
  assumes inv: "op_inv B op" and down: "begin_down (op_ledger op) token = (Inr pid, l)"
    and refused: "target_begin_restore target (op_sink op) key = (r, w)"
  shows "op_inv B (snd (on_ledger (\<lambda>l. cancel_unattempted_down l pid) (op\<lparr>op_ledger := l, op_sink := w\<rparr>)))"
proof -
  have l: "key_ledger_inv (op_ledger op)" using inv by (simp add: op_inv_def)
  from down obtain next_id where "checked_add (next_press_id (op_ledger op)) 1 = Some next_id"
    "next_press_id l = next_id" by (auto simp: begin_down_Inr)
  then have "next_press_id (op_ledger op) < next_press_id l" using checked_add_1_less by blast
  then have "key_ledger_inv (l\<lparr>kl_debts := kl_debts (op_ledger op)\<rparr>)"
    using l by (force simp: key_ledger_inv_def)
  moreover have "held w \<subseteq> held (op_sink op)" "owned (op_sink op) \<subseteq> owned w"
    using begin_keys [OF refused] by blast+
  ultimately show ?thesis
    using inv cancel_after_begin [OF l down] unfolding op_inv_def operation_tokens_def
    by (simp add: on_ledger_def ledger_tokens_def) blast
qed

lemma restore_tail_inv:
  assumes pre: "pre_down B pid token op" and key: "token_key token = key"
  shows "post (op_inv B) (\<lambda>_. op_inv B)
    (case on_sink (\<lambda>w. attempt_down sink w token) op of (down_result, op) \<Rightarrow>
     then_st (on_ledger (\<lambda>l. mark_possibly_down l pid) op) (\<lambda>_ op.
     check down_result op (\<lambda>_.
     then_st (ensure_cleanup_active op) (\<lambda>_ op.
     then_st (on_sink (sink_synchronize sink) op) (\<lambda>_ op.
     then_st (ensure_cleanup_active op) (\<lambda>_ op.
     then_st (on_ledger (\<lambda>l. ledger_transfer l pid) op) (\<lambda>token op.
     pending_transfer_commit target key token op)))))))"
proof -
  obtain r op1 where r: "on_sink (\<lambda>w. attempt_down sink w token) op = (r, op1)" by fastforce
  have op1: "pre_down B pid token op1"
    using attempt_down_inv [where B = B and pid = pid and token = token and op = op] pre r by simp
  show ?thesis
    unfolding r prod.case
    by (rule post_then [OF post_mark [OF op1]], rule post_check, simp,
        rule post_then [OF post_active(2)], assumption, rule post_then [OF post_sync], assumption,
        rule post_then [OF post_active(2)], assumption, rule post_then [OF post_transfer], assumption,
        rule post_of_inv, elim conjE, simp add: pending_transfer_inv key)
qed

lemma restore_one_inv:
  assumes "op_inv B op"
  shows "op_inv B (snd (restore_one_modifier sink target mode op key))"
proof -
  have "post (op_inv B) (\<lambda>_. op_inv B) (restore_one_modifier sink target mode op key)"
    unfolding restore_one_modifier_def
  proof (rule post_then [OF post_active_inv(2) [OF assms]], rule post_then [OF post_prepare], assumption,
      elim conjE, rule post_then [OF post_active_inv(2)], assumption, rule post_check, assumption)
    fix token op
    assume key: "token_key token = key" and op: "op_inv B op"
    let ?rest = "\<lambda>pid op. case on_sink (\<lambda>w. target_begin_restore target w key) op of
        (Inl e, op) \<Rightarrow> then_st (on_ledger (\<lambda>l. cancel_unattempted_down l pid) op) (\<lambda>_ op. (Inl e, op))
      | (Inr _, op) \<Rightarrow> case on_sink (\<lambda>w. attempt_down sink w token) op of (down_result, op) \<Rightarrow>
         then_st (on_ledger (\<lambda>l. mark_possibly_down l pid) op) (\<lambda>_ op.
         check down_result op (\<lambda>_.
         then_st (ensure_cleanup_active op) (\<lambda>_ op.
         then_st (on_sink (sink_synchronize sink) op) (\<lambda>_ op.
         then_st (ensure_cleanup_active op) (\<lambda>_ op.
         then_st (on_ledger (\<lambda>l. ledger_transfer l pid) op) (\<lambda>token op.
         pending_transfer_commit target key token op))))))"
    obtain b l where b: "begin_down (op_ledger op) token = (b, l)" by fastforce
    show "post (op_inv B) (\<lambda>_. op_inv B) (then_st (on_ledger (\<lambda>l. begin_down l token) op) ?rest)"
    proof (cases b)
      case (Inl e)
      with post_begin_down [OF op, of token] b show ?thesis by (simp add: on_ledger_def)
    next
      case (Inr pid)
      let ?op = "op\<lparr>op_ledger := l\<rparr>"
      have pre: "pre_down B pid token ?op"
        using post_begin_down [OF op, of token] b Inr by (simp add: on_ledger_def)
      obtain r w where r: "target_begin_restore target (op_sink op) key = (r, w)" by fastforce
      have pre': "pre_down B pid token (?op\<lparr>op_sink := w\<rparr>)"
        using pre begin_keys [OF r] op_inv_sink [of B ?op w] by simp
      have "op_inv B (snd (on_ledger (\<lambda>l. cancel_unattempted_down l pid) (?op\<lparr>op_sink := w\<rparr>)))"
        using refused_restore_inv [OF op _ r] b Inr by simp
      then have "post (op_inv B) (\<lambda>_. op_inv B)
          (then_st (on_ledger (\<lambda>l. cancel_unattempted_down l pid) (?op\<lparr>op_sink := w\<rparr>)) (\<lambda>_ op. (Inl e, op)))" for e
        by (rule post_then [OF post_of_inv]) simp
      with restore_tail_inv [OF pre' key] b Inr r show ?thesis
        by (cases r) (simp_all add: on_ledger_def on_sink_def)
    qed
  qed
  then show ?thesis by (simp add: post_snd)
qed

lemma restore_loop_inv:
  "op_inv B op \<Longrightarrow> op_inv B (snd (restore_loop sink target mode keys op))"
proof (induction keys arbitrary: op)
  case (Cons key keys)
  obtain r op1 where r: "restore_one_modifier sink target mode op key = (r, op1)" by fastforce
  with restore_one_inv [OF Cons.prems, of mode key] Cons.IH show ?case by (cases r) auto
qed simp

lemma record_failure_inv [simp]:
  "op_inv B (record_reconciliation_failure tproof op) = op_inv B op"
  "op_sink (record_reconciliation_failure tproof op) = op_sink op"
  by (simp_all add: record_reconciliation_failure_def)

lemma finish_with_restore_reconciled:
  assumes inv: "op_inv B op" and fin: "finish_with_restore sink target requested op = (report, op')"
    and recon: "tr_proof report = Reconciled"
  shows "held (op_sink op') \<subseteq> owned (op_sink op') \<union> B"
proof -
  let ?mode = "if requested = SoftCancelled then SoftCancelCleanup else SuccessCleanup"
  obtain e1 op1 where op1: "restore_planned_modifiers sink target ?mode op = (e1, op1)" by fastforce
  obtain e2 tproof op2 where op2: "terminal_cleanup sink e1 op1 = (e2, tproof, op2)" by (metis prod_cases3)
  have "op_inv B op1"
    using restore_loop_inv [OF inv] op1 by (metis restore_planned_modifiers_def snd_conv)
  from terminal_cleanup_inv [OF this op2] have "tproof = Reconciled \<Longrightarrow> held (op_sink op2) \<subseteq> owned (op_sink op2) \<union> B"
    by blast
  moreover have "tr_proof report = tproof" "op_sink op' = op_sink op2"
    using fin op1 op2 by (auto simp: finish_with_restore_def Let_def split: if_splits)
  ultimately show ?thesis using recon by simp
qed

lemma finish_hard_failure_reconciled:
  assumes inv: "op_inv B op" and fin: "finish_hard_failure sink op primary = (report, op')"
    and recon: "tr_proof report = Reconciled"
  shows "held (op_sink op') \<subseteq> owned (op_sink op') \<union> B"
proof -
  obtain e tproof op1 where op1: "terminal_cleanup sink None op = (e, tproof, op1)" by (metis prod_cases3)
  then have "tr_proof report = tproof" "op_sink op' = op_sink op1"
    using fin by (auto simp: finish_hard_failure_def Let_def split: if_splits)
  with terminal_cleanup_inv [OF inv op1] recon show ?thesis by simp
qed

lemma operation_new_inv:
  "held w \<subseteq> B \<Longrightarrow> op_inv B (operation_new oid w ctl frozen latch)"
  by (auto simp: op_inv_def operation_new_def key_ledger_new_def key_ledger_inv_def)

lemma operation_step_inv: "op_inv B op \<Longrightarrow> op_inv B (operation_step sink op c)"
  by (cases c) (simp_all add: press_inv release_inv temporarily_release_inv)

end

sublocale sink_keys \<subseteq> batch: step_invariant "operation_step sink" "op_inv B" for B
  by unfold_locales (rule operation_step_inv)

text \<open>From a new operation, over any calls, to its end.\<close>

context sink_keys
begin

lemma batch_success_reconciled:
  assumes "held w \<subseteq> B"
    and "finish_with_restore sink target requested
      (foldl (operation_step sink) (operation_new oid w ctl frozen latch) cs) = (report, op')"
    and "tr_proof report = Reconciled"
  shows "held (op_sink op') \<subseteq> owned (op_sink op') \<union> B"
  by (rule finish_with_restore_reconciled [OF batch.inv_run [OF operation_new_inv [OF assms(1)]] assms(2,3)])

lemma batch_failure_reconciled:
  assumes "held w \<subseteq> B"
    and "finish_hard_failure sink
      (foldl (operation_step sink) (operation_new oid w ctl frozen latch) cs) primary = (report, op')"
    and "tr_proof report = Reconciled"
  shows "held (op_sink op') \<subseteq> owned (op_sink op') \<union> B"
  by (rule finish_hard_failure_reconciled [OF batch.inv_run [OF operation_new_inv [OF assms(1)]] assms(2,3)])

text \<open>What the target owns, it keeps; and every modifier restored without an error is owned.\<close>

abbreviation keeps_owned :: "('w, 't) operation \<Rightarrow> ('w, 't) operation \<Rightarrow> bool" where
  "keeps_owned op op' \<equiv> owned (op_sink op) \<subseteq> owned (op_sink op')"

lemma same_sink:
  "on_ledger f op = (r, op') \<Longrightarrow> op_sink op' = op_sink op"
  "ensure_active op = (q, op') \<Longrightarrow> op_sink op' = op_sink op"
  "ensure_cleanup_active op = (q, op') \<Longrightarrow> op_sink op' = op_sink op"
  by (auto simp: on_ledger_def ensure_active_def ensure_cleanup_active_def split: prod.splits)

lemma sink_calls_owned:
  "on_sink (\<lambda>w. prepare_down sink w k) op = (a, op') \<Longrightarrow> keeps_owned op op'"
  "on_sink (\<lambda>w. attempt_down sink w token) op = (b, op') \<Longrightarrow> keeps_owned op op'"
  "on_sink (\<lambda>w. attempt_up sink w token) op = (b, op') \<Longrightarrow> keeps_owned op op'"
  "on_sink (sink_synchronize sink) op = (b, op') \<Longrightarrow> keeps_owned op op'"
  "on_sink (\<lambda>w. target_begin_restore target w k) op = (b, op') \<Longrightarrow> keeps_owned op op'"
  "on_sink (\<lambda>w. target_adopt target w k token) op = (b, op') \<Longrightarrow> keeps_owned op op'"
  by (auto simp: on_sink_def split: prod.splits dest!: prepare_keys down_keys up_keys sync_keys begin_keys adopt_keys)

lemma release_one_owned: "release_one sink token e op = (gone, e', op') \<Longrightarrow> keeps_owned op op'"
  by (auto simp: release_one_def split: prod.splits dest!: sink_calls_owned)

lemma release_loop_owned: "release_loop sink ds e op = (e', op') \<Longrightarrow> keeps_owned op op'"
proof (induction ds arbitrary: op e)
  case (Cons d ds)
  obtain gone e1 op1 where one: "release_one sink (debt_token d) e op = (gone, e1, op1)"
    by (metis prod_cases3)
  with Cons.prems Cons.IH [of e1] release_one_owned [OF one] show ?case
    by (cases gone) fastforce+
qed simp

lemma drain_loop_owned: "drain_loop sink ts retained e op = (retained', e', op') \<Longrightarrow> keeps_owned op op'"
proof (induction ts arbitrary: op e retained)
  case (Cons token ts)
  obtain gone e1 op1 where one: "release_one sink token e op = (gone, e1, op1)"
    by (metis prod_cases3)
  with Cons.prems Cons.IH release_one_owned [OF one] show ?case by fastforce
qed simp

lemma terminal_cleanup_owned:
  assumes "terminal_cleanup sink cleanup op = (cleanup', tproof, op')"
  shows "keeps_owned op op'"
proof -
  let ?op = "op\<lparr>op_ledger := ledger_begin_terminal (op_ledger op)\<rparr>"
  obtain e1 op1 where op1: "release_loop sink (reverse_snapshot (op_ledger ?op)) None ?op = (e1, op1)" by fastforce
  obtain retained e2 op2 where
    op2: "drain_loop sink (rev (release_only_fallback op1)) [] None (op1\<lparr>release_only_fallback := []\<rparr>) = (retained, e2, op2)"
    by (metis prod_cases3)
  obtain r w where r: "sink_synchronize sink (op_sink op2) = (r, w)" by fastforce
  have "op_sink op' = w"
    using assms op1 op2 r
    by (auto simp: terminal_cleanup_def Let_def release_all_def drain_release_only_fallback_def on_sink_def)
  with release_loop_owned [OF op1] drain_loop_owned [OF op2] sync_keys [OF r] show ?thesis by auto
qed

lemma restore_one_owned:
  assumes inv: "key_ledger_inv (op_ledger op)"
    and ok: "restore_one_modifier sink target mode op key = (Inr u, op')"
  shows "insert key (owned (op_sink op)) \<subseteq> owned (op_sink op')"
proof -
  from ok obtain op1 token op2 op3 pid op4 where
    s: "ensure_cleanup_active op = (Inr (), op1)"
    "on_sink (\<lambda>w. prepare_down sink w key) op1 = (Inr token, op2)"
    "ensure_cleanup_active op2 = (Inr (), op3)"
    "on_ledger (\<lambda>l. begin_down l token) op3 = (Inr pid, op4)"
    and rest: "(case on_sink (\<lambda>w. target_begin_restore target w key) op4 of
       (Inl e, op) \<Rightarrow>
         then_st (on_ledger (\<lambda>l. cancel_unattempted_down l pid) op) (\<lambda>_ op. (Inl e, op))
     | (Inr _, op) \<Rightarrow>
         case on_sink (\<lambda>w. attempt_down sink w token) op of (down_result, op) \<Rightarrow>
         then_st (on_ledger (\<lambda>l. mark_possibly_down l pid) op) (\<lambda>_ op.
         check down_result op (\<lambda>_.
         then_st (ensure_cleanup_active op) (\<lambda>_ op.
         then_st (on_sink (sink_synchronize sink) op) (\<lambda>_ op.
         then_st (ensure_cleanup_active op) (\<lambda>_ op.
         then_st (on_ledger (\<lambda>l. ledger_transfer l pid) op) (\<lambda>token op.
         pending_transfer_commit target key token op))))))) = (Inr u, op')"
    unfolding restore_one_modifier_def by clarsimp
  obtain b op5 where t1: "on_sink (\<lambda>w. target_begin_restore target w key) op4 = (b, op5)" by fastforce
  obtain q op6 where t2: "on_sink (\<lambda>w. attempt_down sink w token) op5 = (q, op6)" by fastforce
  from rest t1 t2 obtain op7 op8 op9 op10 moved op11 where
    t: "on_ledger (\<lambda>l. mark_possibly_down l pid) op6 = (Inr (), op7)"
    "ensure_cleanup_active op7 = (Inr (), op8)"
    "on_sink (sink_synchronize sink) op8 = (Inr (), op9)"
    "ensure_cleanup_active op9 = (Inr (), op10)"
    "on_ledger (\<lambda>l. ledger_transfer l pid) op10 = (Inr moved, op11)"
    "pending_transfer_commit target key moved op11 = (Inr u, op')"
    by (cases b) auto
  note s = s t1 t2 t
  have l: "op_ledger op3 = op_ledger op" "op_ledger op6 = op_ledger op4" "op_ledger op10 = op_ledger op7"
    using s(1-3,5,6,8-10)
    by (auto simp: ensure_cleanup_active_def on_sink_def split: prod.splits)
  have b: "begin_down (op_ledger op) token = (Inr pid, op_ledger op4)"
    using s(4) l(1) by (auto simp: on_ledger_def split: prod.splits)
  have k4: "key_ledger_inv (op_ledger op4)"
    using begin_down_inv [OF inv, of token] b by simp
  from mark_possibly_down_tracks [OF k4 begin_down_tracks(1) [OF b]] s(7) l(2)
  have "key_ledger_inv (op_ledger op7)" "tracks (op_ledger op7) pid token"
    by (auto simp: on_ledger_def split: prod.splits)
  moreover have "ledger_transfer (op_ledger op7) pid = (Inr moved, op_ledger op11)"
    using s(11) l(3) by (auto simp: on_ledger_def split: prod.splits)
  ultimately have "moved = token"
    using ledger_transfer_tracks [of "op_ledger op7" pid token moved "op_ledger op11"] by simp
  moreover have "token_key token = key"
    using s(2) prepare_key by (auto simp: on_sink_def split: prod.splits)
  ultimately have adopted: "key \<in> owned (op_sink op')"
    using s(12) adopt_owned by (auto simp: pending_transfer_commit_def on_sink_def is_ok_def split: prod.splits sum.splits)
  have "keeps_owned op11 op'"
    using s(12) sink_calls_owned(6) by (auto simp: pending_transfer_commit_def split: prod.splits if_splits)
  then have "keeps_owned op op'"
    using sink_calls_owned(1) [OF s(2)] sink_calls_owned(5) [OF s(5)] sink_calls_owned(2) [OF s(6)]
      sink_calls_owned(4) [OF s(9)] same_sink(1) [OF s(4)] same_sink(1) [OF s(7)] same_sink(1) [OF s(11)]
      same_sink(3) [OF s(1)] same_sink(3) [OF s(3)] same_sink(3) [OF s(8)] same_sink(3) [OF s(10)]
    by auto
  with adopted show ?thesis by simp
qed

lemma restore_loop_owned:
  assumes "op_inv UNIV op" and "restore_loop sink target mode keys op = (None, op')"
  shows "set keys \<union> owned (op_sink op) \<subseteq> owned (op_sink op')"
  using assms
proof (induction keys arbitrary: op)
  case (Cons key keys)
  then obtain u op1 where one: "restore_one_modifier sink target mode op key = (Inr u, op1)"
    "restore_loop sink target mode keys op1 = (None, op')"
    by (auto split: prod.splits sum.splits)
  have "op_inv UNIV op1" using restore_one_inv [OF Cons.prems(1), of mode key] one(1) by simp
  from Cons.IH [OF this one(2)] restore_one_owned [OF _ one(1)] Cons.prems(1) show ?case
    by (auto simp: op_inv_def)
qed simp

lemma batch_success_restored:
  assumes "finish_with_restore sink target requested
      (foldl (operation_step sink) (operation_new oid w ctl frozen latch) cs) = (report, op')"
    and "tr_cleanup report = None"
  shows "set (restore_plan (foldl (operation_step sink) (operation_new oid w ctl frozen latch) cs))
    \<subseteq> owned (op_sink op')"
proof -
  let ?op = "foldl (operation_step sink) (operation_new oid w ctl frozen latch) cs"
  let ?mode = "if requested = SoftCancelled then SoftCancelCleanup else SuccessCleanup"
  obtain e1 op1 where op1: "restore_planned_modifiers sink target ?mode ?op = (e1, op1)" by fastforce
  obtain e2 tproof op2 where op2: "terminal_cleanup sink e1 op1 = (e2, tproof, op2)" by (metis prod_cases3)
  have fin: "e2 = tr_cleanup report" "op_sink op' = op_sink op2"
    using assms(1) op1 op2 by (auto simp: finish_with_restore_def Let_def split: if_splits)
  have "e1 = None"
    using op2 fin assms(2) by (auto simp: terminal_cleanup_def Let_def keep_first_error_def
        split: prod.splits sum.splits if_splits)
  moreover have "op_inv UNIV ?op" by (rule batch.inv_run [OF operation_new_inv]) simp
  ultimately have "set (restore_plan ?op) \<subseteq> owned (op_sink op1)"
    using restore_loop_owned [of ?op ?mode "rev (restore_plan ?op)" op1] op1
    by (simp add: restore_planned_modifiers_def plan_snapshot_def)
  with terminal_cleanup_owned [OF op2] fin(2) show ?thesis by auto
qed

end

end
