(* ===== verification/Uinput_Synthetic.thy ===== *)
theory Uinput_Synthetic
  imports Synthetic_Operation
begin

text \<open>
  The uinput backend of synthetic operations: src/src/daemon/uinput_synthetic.rs.

  \<open>UinputRawSink\<close>, the trait in front of the kernel device, is a record of functions over the
  device's state.  The sink and the restore target share the session ledger through a \<open>RefCell\<close> in
  the source; here both work on the one \<open>uinput_runtime\<close>.
\<close>

subsection \<open>Model\<close>

record 'd raw_sink =
  write_key :: "'d \<Rightarrow> key \<Rightarrow> int \<Rightarrow> unit res \<times> 'd"
  synchronize_keys :: "'d \<Rightarrow> unit res \<times> 'd"

record uinput_token =
  ut_generation :: u64
  ut_token_id :: u64
  ut_key :: key

record 'd uinput_runtime =
  ur_raw :: 'd
  ur_generation :: u64
  ur_next_token_id :: u64
  session_modifiers :: "uinput_token session_ledger"
  ur_latch :: failure_latch

text \<open>The process-wide counter of input generations: the previous value is handed out.\<close>

definition allocate_input_generation :: "u64 \<Rightarrow> u64 res \<times> u64" where
  "allocate_input_generation counter =
     (case checked_add counter 1 of
        None \<Rightarrow> (Inl (input_safety ''uinput generation exhausted''), counter)
      | Some next \<Rightarrow> (Inr counter, next))"

definition uinput_new :: "'d \<Rightarrow> u64 \<Rightarrow> 'd uinput_runtime res" where
  "uinput_new raw generation =
     (if generation = 0 then Inl (input_safety ''uinput generation must be nonzero'')
      else Inr \<lparr>ur_raw = raw, ur_generation = generation, ur_next_token_id = 1,
        session_modifiers = session_ledger_new generation, ur_latch = None\<rparr>)"

definition uinput_prepare_down ::
  "'d uinput_runtime \<Rightarrow> key \<Rightarrow> uinput_token res \<times> 'd uinput_runtime" where
  "uinput_prepare_down rt key =
     (let tid = ur_next_token_id rt in
      if tid = 0 then (Inl (input_safety ''uinput token id must be nonzero''), rt)
      else case checked_add tid 1 of
        None \<Rightarrow> (Inl (input_safety ''uinput token id exhausted''), rt)
      | Some next \<Rightarrow>
          (Inr \<lparr>ut_generation = ur_generation rt, ut_token_id = tid, ut_key = key\<rparr>,
           rt\<lparr>ur_next_token_id := next\<rparr>))"

definition on_raw :: "('d \<Rightarrow> 'a \<times> 'd) \<Rightarrow> 'd uinput_runtime \<Rightarrow> 'a \<times> 'd uinput_runtime" where
  "on_raw f rt = (case f (ur_raw rt) of (r, d) \<Rightarrow> (r, rt\<lparr>ur_raw := d\<rparr>))"

definition uinput_attempt_down ::
  "'d raw_sink \<Rightarrow> 'd uinput_runtime \<Rightarrow> uinput_token \<Rightarrow> unit res \<times> 'd uinput_runtime" where
  "uinput_attempt_down raw rt token =
     check (authorize_synthetic_down (session_modifiers rt) (ut_key token)) rt (\<lambda>_.
     on_raw (\<lambda>d. write_key raw d (ut_key token) 1) rt)"

definition uinput_attempt_up ::
  "'d raw_sink \<Rightarrow> 'd uinput_runtime \<Rightarrow> uinput_token \<Rightarrow> unit res \<times> 'd uinput_runtime" where
  "uinput_attempt_up raw rt token = on_raw (\<lambda>d. write_key raw d (ut_key token) 0) rt"

definition uinput_terminal_proof :: "nat \<Rightarrow> terminal_proof" where
  "uinput_terminal_proof remaining = (if remaining = 0 then Reconciled else Unreconciled remaining)"

definition uinput_sink :: "'d raw_sink \<Rightarrow> ('d uinput_runtime, uinput_token) key_sink" where
  "uinput_sink raw =
     \<lparr>prepare_down = uinput_prepare_down, attempt_down = uinput_attempt_down raw,
      attempt_up = uinput_attempt_up raw, sink_synchronize = on_raw (synchronize_keys raw),
      sink_terminal_proof = (\<lambda>rt. uinput_terminal_proof)\<rparr>"

definition on_session ::
  "(uinput_token session_ledger \<Rightarrow> 'a \<times> uinput_token session_ledger) \<Rightarrow> 'd uinput_runtime \<Rightarrow>
   'a \<times> 'd uinput_runtime" where
  "on_session f rt = (case f (session_modifiers rt) of (r, l) \<Rightarrow> (r, rt\<lparr>session_modifiers := l\<rparr>))"

definition uinput_target :: "('d uinput_runtime, uinput_token) restored_target" where
  "uinput_target =
     \<lparr>target_begin_restore = (\<lambda>rt key. on_session (\<lambda>l. begin_restore l key) rt),
      target_adopt = (\<lambda>rt key token. on_session (\<lambda>l. adopt_restored l key token) rt)\<rparr>"

definition forward_physical ::
  "'d raw_sink \<Rightarrow> 'd uinput_runtime \<Rightarrow> u64 \<Rightarrow> key \<Rightarrow> int \<Rightarrow>
   uinput_token option res \<times> 'd uinput_runtime" where
  "forward_physical raw rt sequence key value =
     check (ensure (\<not> (value = 1 \<and> session_contains (session_modifiers rt) key))
              (input_safety ''physical press raced an owned synthetic modifier'')) rt (\<lambda>_.
     then_st (on_raw (\<lambda>d. write_key raw d key value) rt) (\<lambda>_ rt.
     then_st (on_raw (synchronize_keys raw) rt) (\<lambda>_ rt.
     if value \<noteq> 0 then (Inr None, rt)
     else on_session (\<lambda>l. commit_physical_release l
            \<lparr>rc_generation = ur_generation rt, rc_sequence = sequence, rc_key = key\<rparr>) rt)))"

definition destroy_generation :: "'d uinput_runtime \<Rightarrow> terminal_proof" where
  "destroy_generation rt = OwnerGenerationDestroyed (ur_generation rt)"

subsection \<open>The contract of the device\<close>

definition session_keys :: "'d uinput_runtime \<Rightarrow> key set" where
  "session_keys rt = sd_key ` set (sl_entries (session_modifiers rt))"

lemma session_transition_keys:
  "session_transition l key a b context = (r, l') \<Longrightarrow> sd_key ` set (sl_entries l') = sd_key ` set (sl_entries l)"
proof -
  assume t: "session_transition l key a b context = (r, l')"
  have "map sd_key (sl_entries l') = map sd_key (sl_entries l)"
    using t map_sd_key_update by (fastforce simp: session_transition_def split: option.splits if_splits
        dest: position_SomeD)
  then show ?thesis by (metis set_map)
qed

lemma begin_restore_keys:
  "begin_restore l key = (r, l') \<Longrightarrow> sd_key ` set (sl_entries l') = sd_key ` set (sl_entries l)"
  by (auto simp: begin_restore_def mark_restoring_def session_transition_keys split: if_splits)

lemma adopt_restored_keys:
  assumes "adopt_restored l key token = (r, l')"
  shows "sd_key ` set (sl_entries l) \<subseteq> sd_key ` set (sl_entries l') \<and>
    (r = Inr u \<longrightarrow> key \<in> sd_key ` set (sl_entries l'))"
proof (cases "entry_index l key")
  case None
  with assms show ?thesis by (auto simp: adopt_restored_def split: if_splits)
next
  case (Some i)
  note i = position_SomeD [OF Some]
  have "map sd_key ((sl_entries l)[i := (sl_entries l ! i)\<lparr>sd_token := token, sd_state := OwnedDown\<rparr>]) =
      map sd_key (sl_entries l)"
    using i by (intro map_sd_key_update) simp_all
  then have "sd_key ` set ((sl_entries l)[i := (sl_entries l ! i)\<lparr>sd_token := token, sd_state := OwnedDown\<rparr>]) =
      sd_key ` set (sl_entries l)" by (metis set_map)
  moreover have "key \<in> sd_key ` set (sl_entries l)" using i nth_mem by blast
  ultimately show ?thesis
    using assms Some by (auto simp: adopt_restored_def split: if_splits)
qed

text \<open>
  \<open>down d\<close> are the keys the virtual device may hold in state \<open>d\<close>: writing a press may press the key,
  writing a release that succeeds together with the following synchronization has released it.
\<close>

locale uinput_device =
  fixes raw :: "'d raw_sink"
    and down :: "'d \<Rightarrow> key set"
  assumes press_written: "write_key raw d k 1 = (r, d') \<Longrightarrow> down d' \<subseteq> insert k (down d)"
    and release_written: "write_key raw d k 0 = (r, d') \<Longrightarrow> down d' \<subseteq> down d"
    and synchronized: "synchronize_keys raw d = (r, d') \<Longrightarrow> down d' \<subseteq> down d"
    and release_synchronized: "write_key raw d k 0 = (Inr u, d1) \<Longrightarrow> synchronize_keys raw d1 = (Inr v, d2) \<Longrightarrow>
      k \<notin> down d2"

sublocale uinput_device \<subseteq> sink_keys "uinput_sink raw" uinput_target ut_key "\<lambda>rt. down (ur_raw rt)" session_keys
proof unfold_locales
  fix w w' :: "'d uinput_runtime" and k r
  show "down (ur_raw w') \<subseteq> down (ur_raw w) \<and> session_keys w \<subseteq> session_keys w'"
    if "prepare_down (uinput_sink raw) w k = (r, w')"
    using that by (auto simp: uinput_sink_def uinput_prepare_down_def Let_def session_keys_def
        split: if_splits option.splits)
next
  fix w w' :: "'d uinput_runtime" and k token
  show "ut_key token = k" if "prepare_down (uinput_sink raw) w k = (Inr token, w')"
    using that by (auto simp: uinput_sink_def uinput_prepare_down_def Let_def split: if_splits option.splits)
next
  fix w w' :: "'d uinput_runtime" and token q
  show "down (ur_raw w') \<subseteq> insert (ut_key token) (down (ur_raw w)) \<and> session_keys w \<subseteq> session_keys w'"
    if "attempt_down (uinput_sink raw) w token = (q, w')"
  proof (cases "authorize_synthetic_down (session_modifiers w) (ut_key token)")
    case (Inl e)
    with that show ?thesis by (auto simp: uinput_sink_def uinput_attempt_down_def)
  next
    case (Inr u)
    with that press_written [of "ur_raw w" "ut_key token"] show ?thesis
      by (auto simp: uinput_sink_def uinput_attempt_down_def on_raw_def session_keys_def split: prod.splits)
  qed
  show "down (ur_raw w') \<subseteq> down (ur_raw w) \<and> session_keys w \<subseteq> session_keys w'"
    if "attempt_up (uinput_sink raw) w token = (q, w')"
    using that release_written [of "ur_raw w" "ut_key token"]
    by (auto simp: uinput_sink_def uinput_attempt_up_def on_raw_def session_keys_def split: prod.splits)
  show "down (ur_raw w') \<subseteq> down (ur_raw w) \<and> session_keys w \<subseteq> session_keys w'"
    if "sink_synchronize (uinput_sink raw) w = (q, w')"
    using that synchronized [of "ur_raw w"]
    by (auto simp: uinput_sink_def on_raw_def session_keys_def split: prod.splits)
next
  fix w w1 w2 :: "'d uinput_runtime" and token u v
  show "ut_key token \<notin> down (ur_raw w2)"
    if "attempt_up (uinput_sink raw) w token = (Inr u, w1)" "sink_synchronize (uinput_sink raw) w1 = (Inr v, w2)"
    using that release_synchronized [of "ur_raw w" "ut_key token"]
    by (auto simp: uinput_sink_def uinput_attempt_up_def on_raw_def split: prod.splits)
next
  fix w w' :: "'d uinput_runtime" and k q
  show "down (ur_raw w') \<subseteq> down (ur_raw w) \<and> session_keys w \<subseteq> session_keys w'"
    if "target_begin_restore uinput_target w k = (q, w')"
    using that begin_restore_keys [of "session_modifiers w" k]
    by (auto simp: uinput_target_def on_session_def session_keys_def split: prod.splits)
next
  fix w w' :: "'d uinput_runtime" and k token q
  show "down (ur_raw w') \<subseteq> down (ur_raw w) \<and> session_keys w \<subseteq> session_keys w'"
    if "target_adopt uinput_target w k token = (q, w')"
    using that adopt_restored_keys [of "session_modifiers w" k token]
    by (auto simp: uinput_target_def on_session_def session_keys_def split: prod.splits)
next
  fix w w' :: "'d uinput_runtime" and k token u
  show "k \<in> session_keys w'" if "target_adopt uinput_target w k token = (Inr u, w')" "ut_key token = k"
    using that adopt_restored_keys [of "session_modifiers w" k token]
    by (auto simp: uinput_target_def on_session_def session_keys_def split: prod.splits)
next
  fix w :: "'d uinput_runtime" and n
  show "n = 0" if "sink_terminal_proof (uinput_sink raw) w n = Reconciled"
    using that by (simp add: uinput_sink_def uinput_terminal_proof_def split: if_splits)
qed

context uinput_device
begin

lemmas device_success = batch_success_reconciled
lemmas device_failure = batch_failure_reconciled
lemmas device_restored = batch_success_restored

end

subsection \<open>A simulated device\<close>

text \<open>A device that keeps the list of its pressed keys and whose calls succeed.\<close>

definition sim_raw :: "key list raw_sink" where
  "sim_raw =
     \<lparr>write_key = (\<lambda>d k v. (Inr (), if v = 0 then filter (\<lambda>j. j \<noteq> k) d else List.insert k d)),
      synchronize_keys = (\<lambda>d. (Inr (), d))\<rparr>"

interpretation sim_dev: uinput_device sim_raw set
  by unfold_locales (auto simp: sim_raw_def)

definition sim_runtime :: "key list uinput_runtime" where
  "sim_runtime = \<lparr>ur_raw = [KEY_LEFTSHIFT], ur_generation = 1, ur_next_token_id = 1,
     session_modifiers = session_ledger_new 1, ur_latch = None\<rparr>"

definition sim_control :: operation_control where
  "sim_control = \<lparr>ctl_deadline = 100,
     ctl_observe = (\<lambda>_. \<lparr>obs_cancelled = False, obs_additional = [], obs_failures = [], obs_now = 5\<rparr>),
     ctl_reads = 0, restore_down_authorizer = (\<lambda>_ _. Inr ())\<rparr>"

definition sim_batch :: "(key list uinput_runtime, uinput_token) operation" where
  "sim_batch = foldl (operation_step (uinput_sink sim_raw))
     (operation_new 9 sim_runtime sim_control \<lparr>modifier_bits = 4, caps_lock_active = False\<rparr> None)
     [TemporarilyRelease KEY_LEFTSHIFT, PressKey 30]"

subsection \<open>Properties\<close>

text \<open>
  C16: no synthetic key is forgotten.  Run any calls of an operation on the uinput backend and end
  it in either way.  If the report says \<open>Reconciled\<close>, every key the device may hold was held
  before the operation or is recorded in the session's modifier ledger, whatever errors the device
  returned in between.
\<close>

theorem uinput_reconciled_keys:
  fixes raw :: "'d raw_sink" and down :: "'d \<Rightarrow> key set"
  assumes press: "\<And>d k r d'. write_key raw d k 1 = (r, d') \<Longrightarrow> down d' \<subseteq> insert k (down d)"
    and release: "\<And>d k r d'. write_key raw d k 0 = (r, d') \<Longrightarrow> down d' \<subseteq> down d"
    and synchronize: "\<And>d r d'. synchronize_keys raw d = (r, d') \<Longrightarrow> down d' \<subseteq> down d"
    and released: "\<And>d k u d1 v d2. write_key raw d k 0 = (Inr u, d1) \<Longrightarrow>
      synchronize_keys raw d1 = (Inr v, d2) \<Longrightarrow> k \<notin> down d2"
    and batch: "op = foldl (operation_step (uinput_sink raw)) (operation_new oid rt ctl frozen latch) cs"
    and finish: "finish_with_restore (uinput_sink raw) uinput_target requested op = (report, op') \<or>
      finish_hard_failure (uinput_sink raw) op primary = (report, op')"
    and reconciled: "tr_proof report = Reconciled"
  shows "down (ur_raw (op_sink op')) \<subseteq> session_keys (op_sink op') \<union> down (ur_raw rt)"
proof -
  have dev: "uinput_device raw down"
    by (unfold_locales) (fact press release synchronize released)+
  from finish show ?thesis
  proof
    assume "finish_with_restore (uinput_sink raw) uinput_target requested op = (report, op')"
    from uinput_device.device_success [OF dev order_refl this [unfolded batch] reconciled]
    show ?thesis .
  next
    assume "finish_hard_failure (uinput_sink raw) op primary = (report, op')"
    from uinput_device.device_failure [OF dev order_refl this [unfolded batch] reconciled]
    show ?thesis .
  qed
qed

theorem uinput_reconciled_keys_witness:
  "tr_proof (fst (finish_with_restore (uinput_sink sim_raw) uinput_target Success sim_batch)) = Reconciled \<and>
   set (ur_raw (op_sink (snd (finish_with_restore (uinput_sink sim_raw) uinput_target Success sim_batch))))
     \<subseteq> session_keys (op_sink (snd (finish_with_restore (uinput_sink sim_raw) uinput_target Success sim_batch)))
       \<union> set (ur_raw sim_runtime)"
proof
  let ?fin = "finish_with_restore (uinput_sink sim_raw) uinput_target Success sim_batch"
  show proved: "tr_proof (fst ?fin) = Reconciled" by code_simp
  show "set (ur_raw (op_sink (snd ?fin))) \<subseteq> session_keys (op_sink (snd ?fin)) \<union> set (ur_raw sim_runtime)"
    by (rule uinput_reconciled_keys [where requested = Success and report = "fst ?fin" and op' = "snd ?fin"
          and primary = "input_safety []", OF sim_dev.press_written sim_dev.release_written sim_dev.synchronized
            sim_dev.release_synchronized sim_batch_def])
      (simp_all add: proved)
qed

text \<open>
  An honest end.  An operation that does not end as \<open>HardFailed\<close> has no cleanup error, is
  \<open>Reconciled\<close>, and every modifier it had released temporarily is in the session's ledger again;
  one that was asked to succeed or to cancel softly and could not do that leaves a failure in the
  latch.
\<close>

theorem finish_reports_honestly:
  fixes raw :: "'d raw_sink" and down :: "'d \<Rightarrow> key set"
  assumes press: "\<And>d k r d'. write_key raw d k 1 = (r, d') \<Longrightarrow> down d' \<subseteq> insert k (down d)"
    and release: "\<And>d k r d'. write_key raw d k 0 = (r, d') \<Longrightarrow> down d' \<subseteq> down d"
    and synchronize: "\<And>d r d'. synchronize_keys raw d = (r, d') \<Longrightarrow> down d' \<subseteq> down d"
    and released: "\<And>d k u d1 v d2. write_key raw d k 0 = (Inr u, d1) \<Longrightarrow>
      synchronize_keys raw d1 = (Inr v, d2) \<Longrightarrow> k \<notin> down d2"
    and batch: "op = foldl (operation_step (uinput_sink raw)) (operation_new oid rt ctl frozen latch) cs"
    and finish: "finish_with_restore (uinput_sink raw) uinput_target requested op = (report, op')"
    and asked: "requested \<noteq> HardFailed"
  shows "if tr_outcome report = HardFailed then op_latch op' \<noteq> None
    else tr_cleanup report = None \<and> tr_proof report = Reconciled \<and>
      set (restore_plan op) \<subseteq> session_keys (op_sink op')"
proof -
  have dev: "uinput_device raw down"
    by (unfold_locales) (fact press release synchronize released)+
  have "tr_cleanup report = None \<Longrightarrow> set (restore_plan op) \<subseteq> session_keys (op_sink op')"
    using uinput_device.device_restored [OF dev finish [unfolded batch]] by (simp add: batch)
  moreover have "if tr_outcome report = HardFailed then op_latch op' \<noteq> None
      else tr_cleanup report = None \<and> tr_proof report = Reconciled"
    using finish asked
    by (auto simp: finish_with_restore_def Let_def record_reconciliation_failure_def latch_fail_def
        split: prod.splits if_splits option.splits)
  ultimately show ?thesis by (simp split: if_splits)
qed

theorem finish_reports_honestly_witness:
  "tr_outcome (fst (finish_with_restore (uinput_sink sim_raw) uinput_target Success sim_batch)) = Success \<and>
   set (restore_plan sim_batch) = {KEY_LEFTSHIFT} \<and>
   KEY_LEFTSHIFT \<in> session_keys (op_sink (snd (finish_with_restore (uinput_sink sim_raw) uinput_target Success sim_batch)))"
proof -
  let ?fin = "finish_with_restore (uinput_sink sim_raw) uinput_target Success sim_batch"
  have out: "tr_outcome (fst ?fin) = Success" by code_simp
  have plan: "restore_plan sim_batch = [KEY_LEFTSHIFT]" by code_simp
  have "if tr_outcome (fst ?fin) = HardFailed then op_latch (snd ?fin) \<noteq> None
      else tr_cleanup (fst ?fin) = None \<and> tr_proof (fst ?fin) = Reconciled \<and>
        set (restore_plan sim_batch) \<subseteq> session_keys (op_sink (snd ?fin))"
    by (rule finish_reports_honestly [where requested = Success and report = "fst ?fin" and op' = "snd ?fin",
          OF sim_dev.press_written sim_dev.release_written sim_dev.synchronized
            sim_dev.release_synchronized sim_batch_def]) simp_all
  with out plan show ?thesis by simp
qed

lemma contains_session_keys: "session_contains (session_modifiers rt) key \<longleftrightarrow> key \<in> session_keys rt"
  by (auto simp: session_contains_def session_keys_def list_ex_iff position_None_iff)

lemma commit_removes_key:
  assumes inv: "session_ledger_inv l" and com: "commit_physical_release l commit = (Inr token, l')"
  shows "sd_key ` set (sl_entries l') = sd_key ` set (sl_entries l) - {rc_key commit} \<and>
    token = token_for_key l (rc_key commit)"
proof (cases "entry_index l (rc_key commit)")
  case None
  then have "rc_key commit \<notin> sd_key ` set (sl_entries l)" by (auto simp: position_None_iff)
  moreover from this have "token_for_key l (rc_key commit) = None"
    by (auto simp: token_for_key_def find_None_iff image_iff)
  ultimately show ?thesis
    using com None by (auto simp: commit_physical_release_def validate_physical_release_def Let_def split: if_splits)
next
  case (Some i)
  note i = position_SomeD [OF Some]
  have dist: "distinct (map sd_key (sl_entries l))" using inv by (simp add: session_ledger_inv_def)
  have "find (\<lambda>e. sd_key e = rc_key commit) (sl_entries l) = Some (sl_entries l ! i)"
    using find_unique_key [OF dist nth_mem] i by fastforce
  then have "token = token_for_key l (rc_key commit)" "sl_entries l' = remove_at i (sl_entries l)"
    using com Some by (auto simp: commit_physical_release_def validate_physical_release_def Let_def
        token_for_key_def split: if_splits)
  moreover note remove_at_filter [OF dist Some]
  ultimately show ?thesis using i by auto
qed

text \<open>
  Forwarding physical events.  A press of a key the session holds is refused and nothing is
  written.  A release that is forwarded without an error takes the key out of the session's ledger,
  hands out exactly the token recorded for it and leaves the key up on the device.  In all other
  cases the ledger does not change.
\<close>

theorem forward_physical_effect:
  assumes fwd: "forward_physical raw rt sequence key val = (r, rt')"
    and inv: "session_ledger_inv (session_modifiers rt)"
    and released: "\<And>d k u d1 v d2. write_key raw d k 0 = (Inr u, d1) \<Longrightarrow>
      synchronize_keys raw d1 = (Inr v, d2) \<Longrightarrow> k \<notin> down d2"
  shows "(val = 1 \<and> key \<in> session_keys rt \<longrightarrow> \<not> is_ok r \<and> rt' = rt) \<and>
    (if val = 0 \<and> is_ok r
     then session_keys rt' = session_keys rt - {key} \<and> key \<notin> down (ur_raw rt') \<and>
       r = Inr (token_for_key (session_modifiers rt) key)
     else session_modifiers rt' = session_modifiers rt)"
proof (cases "val = 1 \<and> key \<in> session_keys rt")
  case True
  with fwd show ?thesis by (auto simp: forward_physical_def contains_session_keys ensure_def)
next
  case False
  obtain r1 d1 where w: "write_key raw (ur_raw rt) key val = (r1, d1)" by fastforce
  obtain r2 d2 where s: "synchronize_keys raw d1 = (r2, d2)" by fastforce
  let ?commit = "\<lparr>rc_generation = ur_generation rt, rc_sequence = sequence, rc_key = key\<rparr>"
  obtain q l where c: "commit_physical_release (session_modifiers rt) ?commit = (q, l)" by fastforce
  have run: "(r, rt') = (case r1 of Inl e \<Rightarrow> (Inl e, rt\<lparr>ur_raw := d1\<rparr>) | Inr _ \<Rightarrow>
      (case r2 of Inl e \<Rightarrow> (Inl e, rt\<lparr>ur_raw := d2\<rparr>) | Inr _ \<Rightarrow>
       (if val \<noteq> 0 then (Inr None, rt\<lparr>ur_raw := d2\<rparr>)
        else (q, rt\<lparr>ur_raw := d2, session_modifiers := l\<rparr>))))"
    using fwd False w s c
    by (cases r1; cases r2) (auto simp: forward_physical_def contains_session_keys on_raw_def on_session_def ensure_def)
  show ?thesis
  proof (cases "val = 0 \<and> is_ok r")
    case True
    with run obtain u v where "r1 = Inr u" "r2 = Inr v" and r: "r = q" "rt' = rt\<lparr>ur_raw := d2, session_modifiers := l\<rparr>"
      by (auto split: sum.splits)
    with w s released True have up: "key \<notin> down (ur_raw rt')" by simp
    from True r obtain token where "q = Inr token" by (cases q) auto
    with commit_removes_key [OF inv, of ?commit token l] c r up True show ?thesis
      by (auto simp: session_keys_def)
  next
    case no: False
    have "l = session_modifiers rt" if "q = Inl e" for e
      using c that by (auto simp: commit_physical_release_def check_Inl_iff Let_def split: option.splits)
    with run no False show ?thesis by (cases q) (auto split: sum.splits if_splits)
  qed
qed

theorem forward_physical_effect_witness:
  "session_keys (snd (forward_physical sim_raw
     (op_sink (snd (finish_with_restore (uinput_sink sim_raw) uinput_target Success sim_batch))) 1 KEY_LEFTSHIFT 0)) =
   session_keys (op_sink (snd (finish_with_restore (uinput_sink sim_raw) uinput_target Success sim_batch))) - {KEY_LEFTSHIFT}"
proof -
  let ?rt = "op_sink (snd (finish_with_restore (uinput_sink sim_raw) uinput_target Success sim_batch))"
  let ?f = "forward_physical sim_raw ?rt 1 KEY_LEFTSHIFT 0"
  have ok: "is_ok (fst ?f)" by code_simp
  have "session_ledger_inv (session_modifiers ?rt)" unfolding session_ledger_inv_def by code_simp
  from forward_physical_effect [where raw = sim_raw and down = set and sequence = 1 and key = KEY_LEFTSHIFT
      and val = 0 and rt = ?rt and r = "fst ?f" and rt' = "snd ?f", OF _ this sim_dev.release_synchronized] ok
  show ?thesis by simp
qed

text \<open>Generations: the counter hands out every val once until it is exhausted.\<close>

lemma allocate_generation_fresh:
  "allocate_input_generation counter = (Inr g, counter') \<Longrightarrow> g = counter \<and> counter < counter'"
  by (auto simp: allocate_input_generation_def checked_add_1_less split: option.splits)

end
