(* ===== verification/Rust_Text.thy ===== *)
theory Rust_Text
  imports OS_Prelude
begin

text \<open>
  Strings as the program sees them: a Rust \<open>char\<close> is its Unicode scalar value, a \<open>str\<close> the list of
  its characters.  What the sources use of the standard library's string functions is defined here.
\<close>

type_synonym rchar = nat
type_synonym rtext = "rchar list"

definition lit :: "string \<Rightarrow> rtext" where
  "lit s = map of_char s"

definition to_ascii_uppercase :: "rchar \<Rightarrow> rchar" where
  "to_ascii_uppercase c = (if 97 \<le> c \<and> c \<le> 122 then c - 32 else c)"

definition to_ascii_lowercase :: "rchar \<Rightarrow> rchar" where
  "to_ascii_lowercase c = (if 65 \<le> c \<and> c \<le> 90 then c + 32 else c)"

definition is_ascii_alphabetic :: "rchar \<Rightarrow> bool" where
  "is_ascii_alphabetic c \<longleftrightarrow> 65 \<le> c \<and> c \<le> 90 \<or> 97 \<le> c \<and> c \<le> 122"

definition ends_with :: "rtext \<Rightarrow> rtext \<Rightarrow> bool" where
  "ends_with word suffix \<longleftrightarrow> take (length suffix) (rev word) = rev suffix"

definition trim_end_matches :: "rtext \<Rightarrow> rchar list \<Rightarrow> rtext" where
  "trim_end_matches word chars = rev (dropWhile (\<lambda>c. c \<in> set chars) (rev word))"

text \<open>\<open>strip_suffix\<close>: the rest of a string that ends in the suffix.\<close>

definition strip_suffix :: "rtext \<Rightarrow> rtext \<Rightarrow> rtext option" where
  "strip_suffix word suffix =
     (if ends_with word suffix then Some (take (length word - length suffix) word) else None)"

text \<open>\<open>char::is_whitespace\<close> (Unicode \<open>White_Space\<close>) and \<open>str::trim\<close>.\<close>

definition is_whitespace :: "rchar \<Rightarrow> bool" where
  "is_whitespace c \<longleftrightarrow> 9 \<le> c \<and> c \<le> 13 \<or> 8192 \<le> c \<and> c \<le> 8202 \<or>
     c \<in> set [32, 133, 160, 5760, 8232, 8233, 8239, 8287, 12288]"

definition trim :: "rtext \<Rightarrow> rtext" where
  "trim word = rev (dropWhile is_whitespace (rev (dropWhile is_whitespace word)))"

lemma ends_with_iff: "ends_with word suffix \<longleftrightarrow> (\<exists>prefix. word = prefix @ suffix)"
proof
  assume "ends_with word suffix"
  then have "rev word = rev suffix @ drop (length suffix) (rev word)"
    by (metis append_take_drop_id ends_with_def)
  then have "word = rev (drop (length suffix) (rev word)) @ suffix"
    by (metis rev_append rev_rev_ident)
  then show "\<exists>prefix. word = prefix @ suffix" by blast
next
  assume "\<exists>prefix. word = prefix @ suffix"
  then show "ends_with word suffix" by (auto simp: ends_with_def)
qed

lemma strip_suffix_Some_iff: "strip_suffix word suffix = Some prefix \<longleftrightarrow> word = prefix @ suffix"
  by (auto simp: strip_suffix_def ends_with_iff)

lemma strip_suffix_None_iff: "strip_suffix word suffix = None \<longleftrightarrow> (\<forall>prefix. word \<noteq> prefix @ suffix)"
  by (auto simp: strip_suffix_def ends_with_iff)

end
