(* ===== verification/Switch_Logic.thy ===== *)
theory Switch_Logic
  imports Input_Keys Rust_Text
begin

text \<open>
  Deciding and planning corrections: src/src/daemon/switch_logic.rs.

  Every string the
  heuristics measure or lower-case is made of ASCII characters (lemma \<open>keys_to_string_ascii\<close>), so
  \<open>len\<close> counts characters and \<open>to_lowercase\<close> is the ASCII one there.  The score of the
  heuristics is an \<open>i32\<close> in the source; \<open>physical_score_bounds\<close> shows that no buffer of less than a hundred
  million keys overflows it.
\<close>

subsection \<open>Data\<close>

definition rposition :: "('a \<Rightarrow> bool) \<Rightarrow> 'a list \<Rightarrow> nat option" where
  "rposition p xs = map_option (\<lambda>i. length xs - 1 - i) (position p (rev xs))"

datatype app_layout_kind = English | Russian | Other | Unknown

record keystroke =
  ks_key :: key
  ks_shift :: bool
  ks_caps_lock :: bool

record correction_plan =
  cp_buffer :: "keystroke list"
  extra_backspaces :: nat

record word_split =
  ws_core :: "keystroke list"
  trailing_tail :: "keystroke list"

datatype letter_case = Upper | Lower

datatype correction_direction = EnglishToRussian | RussianToEnglish

subsection \<open>Word lists\<close>

definition EXCLUDED_WORDS :: "rtext list" where
  "EXCLUDED_WORDS = map lit
     [''sudo'', ''git'', ''cargo'', ''rustc'', ''python'', ''node'', ''grep'', ''echo'', ''ls'',
      ''cd'', ''rm'', ''mkdir'', ''apt'']"

definition TECHNICAL_ENGLISH_WORDS :: "rtext list" where
  "TECHNICAL_ENGLISH_WORDS = map lit
     [''api'', ''array'', ''async'', ''await'', ''cache'', ''class'', ''composer'', ''config'',
      ''css'', ''daemon'', ''debug'', ''dump'', ''error'', ''extends'', ''folder'', ''function'',
      ''html'', ''http'', ''https'', ''implements'', ''input'', ''interface'', ''json'',
      ''laravel'', ''layout'', ''middleware'', ''namespace'', ''output'', ''php'', ''private'',
      ''project'', ''protected'', ''public'', ''queue'', ''request'', ''repository'',
      ''response'', ''return'', ''screen'', ''service'', ''sql'', ''static'', ''switch'',
      ''thread'', ''trait'', ''var'', ''worker'', ''xml'', ''yaml'']"

definition ENGLISH_LAYOUT_NO_VOWEL_TECHNICAL_WORDS :: "rtext list" where
  "ENGLISH_LAYOUT_NO_VOWEL_TECHNICAL_WORDS = map lit
     [''ssh'', ''src'', ''npm'', ''pwd'', ''pdf'', ''www'']"

definition RUSSIAN_PRIORITY_PHYSICAL_WORDS :: "rtext list" where
  "RUSSIAN_PRIORITY_PHYSICAL_WORDS = map lit
     [''kexit'', ''ckexbkjcm'', ''ckeifq'', ''gjckeifq'', ''ckexft'', ''here'', ''nhelyj'',
      ''ckexfq'', ''gjckeifqnt'', ''ckeifqnt'', ''ctreyle'', ''ckexbncz'', ''xedcndetim'',
      ''ckexfqyj'', ''ckeifnm'', ''ckturf'', ''ckexbnmcz'', ''ckexftncz'', ''uhelm'',
      ''ytkturj'', ''gentitcndbt'', ''ctreyljxre'', ''inere'', ''gjckeifnm'', ''ckeiftim'',
      ''eckeue'', ''ckeiftn'', ''ckexfz'', ''ckeifk'', ''nheljv'', ''uhflecjd'', ''cjnhelybrjd'',
      ''cjnhelybxfnm'', ''gjkexftim'', ''ckexftd'', ''eckeub'']"

definition RU_LAYOUT_COMMON_ENGLISH_WORDS :: "rtext list" where
  "RU_LAYOUT_COMMON_ENGLISH_WORDS = map lit
     [''you'', ''the'', ''and'', ''are'', ''can'', ''get'', ''not'', ''for'', ''but'', ''all'',
      ''one'', ''our'', ''out'', ''see'', ''use'', ''work'', ''home'', ''time'', ''know'',
      ''want'', ''make'', ''need'', ''like'', ''good'', ''love'', ''look'', ''come'', ''from'',
      ''have'', ''will'', ''with'', ''this'', ''that'', ''about'', ''after'', ''people'',
      ''because'', ''should'', ''would'', ''could'', ''really'', ''please'', ''thanks'']"

subsection \<open>Characters of keystrokes\<close>

text \<open>The arms of \<open>key_to_char\<close>: letters, then the plain and the shifted character of other keys.\<close>

definition LETTER_KEYS :: "(key \<times> rchar) list" where
  "LETTER_KEYS =
     [(KEY_A, 97), (KEY_B, 98), (KEY_C, 99), (KEY_D, 100), (KEY_E, 101), (KEY_F, 102),
      (KEY_G, 103), (KEY_H, 104), (KEY_I, 105), (KEY_J, 106), (KEY_K, 107), (KEY_L, 108),
      (KEY_M, 109), (KEY_N, 110), (KEY_O, 111), (KEY_P, 112), (KEY_Q, 113), (KEY_R, 114),
      (KEY_S, 115), (KEY_T, 116), (KEY_U, 117), (KEY_V, 118), (KEY_W, 119), (KEY_X, 120),
      (KEY_Y, 121), (KEY_Z, 122)]"

definition SYMBOL_KEYS :: "(key \<times> rchar \<times> rchar) list" where
  "SYMBOL_KEYS =
     [(KEY_0, 48, 41), (KEY_1, 49, 33), (KEY_2, 50, 64), (KEY_3, 51, 35), (KEY_4, 52, 36),
      (KEY_5, 53, 37), (KEY_6, 54, 94), (KEY_7, 55, 38), (KEY_8, 56, 42), (KEY_9, 57, 40),
      (KEY_SPACE, 32, 32), (KEY_DOT, 46, 62), (KEY_COMMA, 44, 60), (KEY_SEMICOLON, 59, 58),
      (KEY_APOSTROPHE, 39, 34), (KEY_GRAVE, 96, 126), (KEY_LEFTBRACE, 91, 123),
      (KEY_RIGHTBRACE, 93, 125), (KEY_SLASH, 47, 63), (KEY_MINUS, 45, 95), (KEY_EQUAL, 61, 43)]"

definition letter :: "rchar \<Rightarrow> bool \<Rightarrow> bool \<Rightarrow> rchar" where
  "letter base shift caps_lock = (if shift \<noteq> caps_lock then to_ascii_uppercase base else base)"

definition key_to_char :: "key \<Rightarrow> bool \<Rightarrow> bool \<Rightarrow> rchar option" where
  "key_to_char key shift caps_lock =
     (case map_of LETTER_KEYS key of
        Some base \<Rightarrow> Some (letter base shift caps_lock)
      | None \<Rightarrow>
          (case map_of SYMBOL_KEYS key of
             Some (plain, shifted) \<Rightarrow> Some (if shift then shifted else plain)
           | None \<Rightarrow> None))"

definition visible_char_for_keystroke :: "keystroke \<Rightarrow> rchar option" where
  "visible_char_for_keystroke stroke = key_to_char (ks_key stroke) (ks_shift stroke) (ks_caps_lock stroke)"

text \<open>The Russian character at the keyboard position of an ASCII character.\<close>

definition RUSSIAN_POSITIONS :: "(rchar \<times> rchar) list" where
  "RUSSIAN_POSITIONS =
     [(113, 1081), (81, 1049), (119, 1094), (87, 1062), (101, 1091), (69, 1059), (114, 1082),
      (82, 1050), (116, 1077), (84, 1045), (121, 1085), (89, 1053), (117, 1075), (85, 1043),
      (105, 1096), (73, 1064), (111, 1097), (79, 1065), (112, 1079), (80, 1047), (96, 1105),
      (126, 1025), (91, 1093), (123, 1061), (93, 1098), (125, 1066), (97, 1092), (65, 1060),
      (115, 1099), (83, 1067), (100, 1074), (68, 1042), (102, 1072), (70, 1040), (103, 1087),
      (71, 1055), (104, 1088), (72, 1056), (106, 1086), (74, 1054), (107, 1083), (75, 1051),
      (108, 1076), (76, 1044), (59, 1078), (58, 1046), (39, 1101), (34, 1069), (122, 1103),
      (90, 1071), (120, 1095), (88, 1063), (99, 1089), (67, 1057), (118, 1084), (86, 1052),
      (98, 1080), (66, 1048), (110, 1090), (78, 1058), (109, 1100), (77, 1068), (44, 1073),
      (60, 1041), (46, 1102), (62, 1070), (47, 46), (63, 44), (92, 92), (124, 47)]"

definition russian_visible_char_for_keyboard_position :: "rchar \<Rightarrow> rchar" where
  "russian_visible_char_for_keyboard_position ch =
     (case map_of RUSSIAN_POSITIONS ch of Some russian \<Rightarrow> russian | None \<Rightarrow> ch)"

definition visible_char_for_layout :: "keystroke \<Rightarrow> app_layout_kind \<Rightarrow> rchar option" where
  "visible_char_for_layout stroke layout_kind =
     map_option (\<lambda>ch. case layout_kind of
         Russian \<Rightarrow> russian_visible_char_for_keyboard_position ch
       | _ \<Rightarrow> ch) (visible_char_for_keystroke stroke)"

definition keys_to_string :: "keystroke list \<Rightarrow> rtext" where
  "keys_to_string ks = List.map_filter visible_char_for_keystroke ks"

definition keys_to_visible_string :: "keystroke list \<Rightarrow> app_layout_kind \<Rightarrow> rtext" where
  "keys_to_visible_string ks layout_kind = List.map_filter (\<lambda>k. visible_char_for_layout k layout_kind) ks"

definition is_russian_letter :: "rchar \<Rightarrow> bool" where
  "is_russian_letter ch \<longleftrightarrow> 1072 \<le> ch \<and> ch \<le> 1103 \<or> 1040 \<le> ch \<and> ch \<le> 1071 \<or> ch = 1105 \<or> ch = 1025"

subsection \<open>Trailing punctuation\<close>

definition is_trailing_tail_punctuation_char :: "rchar \<Rightarrow> bool" where
  "is_trailing_tail_punctuation_char ch \<longleftrightarrow> ch \<in> set (lit '',.;:!?'')"

definition is_some_and :: "'a option \<Rightarrow> ('a \<Rightarrow> bool) \<Rightarrow> bool" where
  "is_some_and x p = (case x of None \<Rightarrow> False | Some a \<Rightarrow> p a)"

definition is_trailing_tail_punctuation :: "keystroke \<Rightarrow> app_layout_kind \<Rightarrow> bool" where
  "is_trailing_tail_punctuation stroke layout_kind \<longleftrightarrow>
     is_some_and (visible_char_for_layout stroke layout_kind) is_trailing_tail_punctuation_char"

text \<open>Both splits cut after the last keystroke that is not punctuation.\<close>

definition split_at_tail :: "(keystroke \<Rightarrow> bool) \<Rightarrow> keystroke list \<Rightarrow> word_split" where
  "split_at_tail punctuation buf =
     (let tail_start = (case rposition (\<lambda>s. \<not> punctuation s) buf of None \<Rightarrow> 0 | Some i \<Rightarrow> i + 1)
      in \<lparr>ws_core = take tail_start buf, trailing_tail = drop tail_start buf\<rparr>)"

definition split_word_core_and_trailing_tail :: "keystroke list \<Rightarrow> app_layout_kind \<Rightarrow> word_split" where
  "split_word_core_and_trailing_tail buf layout_kind =
     split_at_tail (\<lambda>s. is_trailing_tail_punctuation s layout_kind) buf"

definition split_physical_english_core_and_trailing_tail :: "keystroke list \<Rightarrow> word_split" where
  "split_physical_english_core_and_trailing_tail buf =
     split_at_tail (\<lambda>s. is_some_and (visible_char_for_keystroke s) is_trailing_tail_punctuation_char) buf"

subsection \<open>English heuristics\<close>

definition normalize_word_for_switch_heuristics :: "rtext \<Rightarrow> rtext" where
  "normalize_word_for_switch_heuristics word = map to_ascii_lowercase word"

definition contains_latin_vowel :: "rtext \<Rightarrow> bool" where
  "contains_latin_vowel word = list_ex (\<lambda>ch. ch \<in> set (lit ''aeiou'')) word"

definition count_latin_vowels_without_y :: "rtext \<Rightarrow> nat" where
  "count_latin_vowels_without_y word = length (filter (\<lambda>ch. ch \<in> set (lit ''aeiou'')) word)"

definition count_english_vowels :: "rtext \<Rightarrow> nat" where
  "count_english_vowels word = length (filter (\<lambda>ch. ch \<in> set (lit ''aeiouy'')) word)"

definition STRONG_SUFFIXES :: "rtext list" where
  "STRONG_SUFFIXES = map lit
     [''ing'', ''tion'', ''ment'']"

definition STRONG_TRIGRAMS :: "rtext list" where
  "STRONG_TRIGRAMS = map lit
     [''str'', ''ion'', ''ent'', ''ter'', ''est'', ''sys'', ''tem'', ''key'', ''fun'', ''nct'',
      ''ret'', ''tur'', ''urn'', ''pro'', ''ect'', ''swi'', ''tch'']"

definition has_strong_english_signal :: "rtext \<Rightarrow> bool" where
  "has_strong_english_signal word \<longleftrightarrow>
     list_ex (\<lambda>suffix. ends_with word suffix) STRONG_SUFFIXES \<or>
     list_ex (\<lambda>trigram. str_contains trigram word) STRONG_TRIGRAMS"

definition COMMON_BIGRAMS :: "rtext list" where
  "COMMON_BIGRAMS = map lit
     [''al'', ''ar'', ''as'', ''at'', ''bo'', ''br'', ''ch'', ''ck'', ''ct'', ''do'', ''ec'',
      ''ed'', ''el'', ''em'', ''en'', ''er'', ''es'', ''ex'', ''ey'', ''fi'', ''he'', ''il'',
      ''in'', ''it'', ''ke'', ''le'', ''ll'', ''lo'', ''mi'', ''na'', ''nd'', ''oa'', ''on'',
      ''ow'', ''pr'', ''re'', ''ro'', ''se'', ''st'', ''sw'', ''sy'', ''te'', ''th'', ''ti'',
      ''wi'', ''ws'', ''xt'', ''ys'']"

definition COMMON_TRIGRAMS :: "rtext list" where
  "COMMON_TRIGRAMS = map lit
     [''ame'', ''bro'', ''cap'', ''cke'', ''doc'', ''ect'', ''ell'', ''erm'', ''est'', ''hel'',
      ''ina'', ''ing'', ''ion'', ''ita'', ''key'', ''lec'', ''llo'', ''min'', ''nal'', ''ock'',
      ''ows'', ''pro'', ''ret'', ''row'', ''sel'', ''ser'', ''swi'', ''sys'', ''tal'', ''tem'',
      ''ter'', ''tch'', ''tur'', ''urn'']"

definition english_pattern_score :: "rtext \<Rightarrow> nat" where
  "english_pattern_score word =
     length (filter (\<lambda>bigram. str_contains bigram word) COMMON_BIGRAMS) +
     length (filter (\<lambda>trigram. str_contains trigram word) COMMON_TRIGRAMS) * 2"

definition UNLIKELY_SHORT_CLUSTERS :: "rtext list" where
  "UNLIKELY_SHORT_CLUSTERS = map lit
     [''bj'', ''bn'', ''bv'', ''fy'', ''kf'', ''lb'', ''tk'', ''yu'']"

definition has_short_unlikely_english_cluster :: "rtext \<Rightarrow> bool" where
  "has_short_unlikely_english_cluster word \<longleftrightarrow>
     ends_with word (lit ''f'') \<or> ends_with word (lit ''j'') \<or>
     list_ex (\<lambda>cluster. str_contains cluster word) UNLIKELY_SHORT_CLUSTERS"

definition is_explicit_english_guard_word :: "rtext \<Rightarrow> bool" where
  "is_explicit_english_guard_word clean_word \<longleftrightarrow>
     length clean_word < 3 \<or> clean_word \<in> set EXCLUDED_WORDS \<or> clean_word \<in> set TECHNICAL_ENGLISH_WORDS"

definition COMMON_ENGLISH_SUFFIXES :: "rtext list" where
  "COMMON_ENGLISH_SUFFIXES = map lit
     [''ed'', ''ing'', ''tion'', ''ment'', ''ly'', ''er'', ''est'']"

definition COMMON_ENGLISH_BIGRAMS :: "rtext list" where
  "COMMON_ENGLISH_BIGRAMS = map lit
     [''th'', ''he'', ''in'', ''er'', ''an'', ''re'', ''on'', ''at'', ''en'', ''nd'', ''se'',
      ''ed'', ''te'', ''st'', ''el'', ''le'', ''ti'', ''io'', ''ou'', ''ll'', ''oo'']"

definition has_common_english_suffix :: "rtext \<Rightarrow> bool" where
  "has_common_english_suffix clean_word = list_ex (ends_with clean_word) COMMON_ENGLISH_SUFFIXES"

definition has_common_english_bigram :: "rtext \<Rightarrow> bool" where
  "has_common_english_bigram clean_word =
     list_ex (\<lambda>bigram. str_contains bigram clean_word) COMMON_ENGLISH_BIGRAMS"

text \<open>The characters are those of \<open>ENGLISH_PUNCTUATION\<close>: full stop, comma, semicolon, apostrophe,
  grave accent and the brackets.\<close>

definition is_likely_english :: "rtext \<Rightarrow> bool" where
  "is_likely_english word =
     (let clean_word = trim_end_matches word [46, 44, 59, 39, 96, 91, 93] in
      if is_explicit_english_guard_word clean_word then True
      else
        let eng_vowels = count_english_vowels clean_word in
        if eng_vowels \<ge> 2 \<and> length clean_word \<le> 5 then True
        else if eng_vowels \<ge> 2 \<and> has_common_english_suffix clean_word then True
        else eng_vowels \<ge> 1 \<and> has_common_english_bigram clean_word)"

definition is_confident_english_for_russian_layout :: "rtext \<Rightarrow> bool" where
  "is_confident_english_for_russian_layout word =
     (if word \<in> set RUSSIAN_PRIORITY_PHYSICAL_WORDS then False
      else if word \<in> set RU_LAYOUT_COMMON_ENGLISH_WORDS then True
      else if word \<in> set TECHNICAL_ENGLISH_WORDS then True
      else if \<not> contains_latin_vowel word then False
      else
        let pattern_score = english_pattern_score word in
        if length word \<le> 5 then pattern_score \<ge> 3 \<and> \<not> has_short_unlikely_english_cluster word
        else if has_strong_english_signal word \<and> pattern_score \<ge> 2 then True
        else
          let vowel_count = count_latin_vowels_without_y word in
          pattern_score \<ge> 4 \<or> vowel_count \<ge> 2 \<and> pattern_score \<ge> 3 \<and> is_likely_english word)"

subsection \<open>Deciding to switch\<close>

definition is_structural_code_token_stroke :: "keystroke \<Rightarrow> bool" where
  "is_structural_code_token_stroke stroke \<longleftrightarrow>
     is_some_and (visible_char_for_keystroke stroke)
       (\<lambda>ch. 48 \<le> ch \<and> ch \<le> 57 \<or> ch \<in> set (lit ''/:_.-''))"

definition is_english_layout_technical_token :: "keystroke list \<Rightarrow> rtext \<Rightarrow> bool" where
  "is_english_layout_technical_token core normalized_word \<longleftrightarrow>
     normalized_word \<in> set ENGLISH_LAYOUT_NO_VOWEL_TECHNICAL_WORDS \<or>
     list_ex is_structural_code_token_stroke core"

definition count_russian_vowels :: "keystroke list \<Rightarrow> nat" where
  "count_russian_vowels ks =
     length (filter (\<lambda>s. ks_key s \<in> set [KEY_F, KEY_T, KEY_GRAVE, KEY_B, KEY_J, KEY_E, KEY_S,
       KEY_APOSTROPHE, KEY_DOT, KEY_Z]) ks)"

text \<open>The points of the keystroke at an index of a core of length \<open>len\<close>.\<close>

definition stroke_score :: "nat \<Rightarrow> nat \<Rightarrow> keystroke \<Rightarrow> int" where
  "stroke_score len index s =
     (if ks_key s \<in> set [KEY_LEFTBRACE, KEY_RIGHTBRACE, KEY_SEMICOLON, KEY_APOSTROPHE, KEY_GRAVE]
      then 15 else 0) +
     (if ks_key s \<in> set [KEY_COMMA, KEY_DOT] then if index < len - 1 then 15 else 5 else 0)"

definition english_layout_russian_physical_score :: "keystroke list \<Rightarrow> rtext \<Rightarrow> int" where
  "english_layout_russian_physical_score core normalized_word =
     (let score = foldl (\<lambda>score (index, s). score + stroke_score (length core) index s) 0 (enumerate 0 core);
          rus_vowels = count_russian_vowels core;
          eng_vowels = count_english_vowels normalized_word
      in score + (if rus_vowels > eng_vowels then 10 else 0) + (if eng_vowels = 0 then 12 else 0))"

definition should_switch_english_to_russian :: "keystroke list \<Rightarrow> bool" where
  "should_switch_english_to_russian buf =
     (let core = ws_core (split_word_core_and_trailing_tail buf English) in
      if length core < 3 then False
      else
        let normalized_word = normalize_word_for_switch_heuristics (keys_to_string core) in
        if is_english_layout_technical_token core normalized_word then False
        else if is_likely_english normalized_word then False
        else english_layout_russian_physical_score core normalized_word \<ge> 10)"

definition should_switch_russian_to_english :: "keystroke list \<Rightarrow> bool" where
  "should_switch_russian_to_english buf =
     (let core = ws_core (split_physical_english_core_and_trailing_tail buf) in
      if length core < 3 then False
      else
        let normalized_word = normalize_word_for_switch_heuristics (keys_to_string core) in
        if \<not> list_all is_ascii_alphabetic normalized_word then False
        else if \<not> list_ex is_russian_letter (keys_to_visible_string core Russian) then False
        else is_confident_english_for_russian_layout normalized_word)"

definition layout_correction_direction ::
  "keystroke list \<Rightarrow> app_layout_kind \<Rightarrow> correction_direction option" where
  "layout_correction_direction buf layout_kind =
     (case layout_kind of
        English \<Rightarrow> if should_switch_english_to_russian buf then Some EnglishToRussian else None
      | Russian \<Rightarrow> if should_switch_russian_to_english buf then Some RussianToEnglish else None
      | Other \<Rightarrow> None
      | Unknown \<Rightarrow> None)"

definition should_switch :: "keystroke list \<Rightarrow> app_layout_kind \<Rightarrow> bool" where
  "should_switch buf layout_kind \<longleftrightarrow> layout_correction_direction buf layout_kind \<noteq> None"

subsection \<open>Replay and case correction\<close>

definition CASE_FIX_LETTER_KEYS :: "key list" where
  "CASE_FIX_LETTER_KEYS =
     [KEY_A, KEY_B, KEY_C, KEY_D, KEY_E, KEY_F, KEY_G, KEY_H, KEY_I, KEY_J, KEY_K, KEY_L, KEY_M,
      KEY_N, KEY_O, KEY_P, KEY_Q, KEY_R, KEY_S, KEY_T, KEY_U, KEY_V, KEY_W, KEY_X, KEY_Y, KEY_Z,
      KEY_GRAVE, KEY_LEFTBRACE, KEY_RIGHTBRACE, KEY_SEMICOLON, KEY_APOSTROPHE, KEY_COMMA, KEY_DOT]"

definition is_case_fix_letter_key :: "key \<Rightarrow> bool" where
  "is_case_fix_letter_key key \<longleftrightarrow> key \<in> set CASE_FIX_LETTER_KEYS"

definition letter_case_for_stroke :: "keystroke \<Rightarrow> letter_case option" where
  "letter_case_for_stroke stroke =
     (if \<not> is_case_fix_letter_key (ks_key stroke) then None
      else Some (if ks_shift stroke \<noteq> ks_caps_lock stroke then Upper else Lower))"

definition normalize_stroke :: "keystroke \<Rightarrow> keystroke" where
  "normalize_stroke stroke =
     (case letter_case_for_stroke stroke of
        Some Upper \<Rightarrow> \<lparr>ks_key = ks_key stroke, ks_shift = True, ks_caps_lock = False\<rparr>
      | Some Lower \<Rightarrow> \<lparr>ks_key = ks_key stroke, ks_shift = False, ks_caps_lock = False\<rparr>
      | None \<Rightarrow> \<lparr>ks_key = ks_key stroke, ks_shift = ks_shift stroke, ks_caps_lock = False\<rparr>)"

definition normalize_strokes_for_replay :: "keystroke list \<Rightarrow> keystroke list" where
  "normalize_strokes_for_replay buf = map normalize_stroke buf"

definition normalized_replay_buffer :: "keystroke list \<Rightarrow> keystroke list" where
  "normalized_replay_buffer buf = normalize_strokes_for_replay buf"

definition corrected_case_pattern :: "letter_case list \<Rightarrow> bool \<Rightarrow> bool \<Rightarrow> letter_case list option" where
  "corrected_case_pattern pattern fix_two_capitals fix_accidental_caps_lock =
     (if fix_two_capitals \<and> length pattern \<ge> 3 \<and> pattern ! 0 = Upper \<and> pattern ! 1 = Upper \<and>
         list_all (\<lambda>c. c = Lower) (drop 2 pattern)
      then Some (pattern[1 := Lower])
      else if fix_accidental_caps_lock \<and> length pattern \<ge> 2 \<and> pattern ! 0 = Lower \<and>
         list_all (\<lambda>c. c = Upper) (drop 1 pattern)
      then Some (Upper # map (\<lambda>_. Lower) (drop 1 pattern))
      else None)"

text \<open>\<open>collect::<Option<Vec<_>>>\<close>: all the values, or \<open>None\<close> when one is missing.\<close>

fun collect_option :: "'a option list \<Rightarrow> 'a list option" where
  "collect_option [] = Some []"
| "collect_option (None # xs) = None"
| "collect_option (Some x # xs) = map_option (\<lambda>ys. x # ys) (collect_option xs)"

definition set_case :: "keystroke \<Rightarrow> letter_case \<Rightarrow> keystroke" where
  "set_case stroke c = stroke\<lparr>ks_shift := (c = Upper), ks_caps_lock := False\<rparr>"

definition apply_case_fixes_to_strokes :: "keystroke list \<Rightarrow> bool \<Rightarrow> bool \<Rightarrow> keystroke list" where
  "apply_case_fixes_to_strokes buf fix_two_capitals fix_accidental_caps_lock =
     (let normalized = normalize_strokes_for_replay buf in
      case collect_option (map letter_case_for_stroke buf) of
        None \<Rightarrow> normalized
      | Some pattern \<Rightarrow>
          (case corrected_case_pattern pattern fix_two_capitals fix_accidental_caps_lock of
             None \<Rightarrow> normalized
           | Some corrected_pattern \<Rightarrow> map2 set_case normalized corrected_pattern))"

definition manual_correction_plan ::
  "keystroke list \<Rightarrow> keystroke list \<Rightarrow> bool \<Rightarrow> app_layout_kind \<Rightarrow> correction_plan option" where
  "manual_correction_plan current_buffer last_word_buffer followed_by_separator layout_kind =
     (case (if current_buffer \<noteq> [] then Some (current_buffer, 0)
            else if last_word_buffer \<noteq> [] then Some (last_word_buffer, if followed_by_separator then 1 else 0)
            else None) of
        None \<Rightarrow> None
      | Some (buf, extra) \<Rightarrow>
          let split = split_word_core_and_trailing_tail buf layout_kind in
          if ws_core split = [] then None
          else Some \<lparr>cp_buffer = normalized_replay_buffer (ws_core split)
                       @ normalized_replay_buffer (trailing_tail split),
                     extra_backspaces = extra\<rparr>)"

definition same_layout_case_correction_plan ::
  "keystroke list \<Rightarrow> app_layout_kind \<Rightarrow> bool \<Rightarrow> bool \<Rightarrow> correction_plan option" where
  "same_layout_case_correction_plan buf layout_kind fix_two_capitals fix_accidental_caps_lock =
     (let split = split_word_core_and_trailing_tail buf layout_kind in
      if ws_core split = [] then None
      else
        let normalized_core = normalized_replay_buffer (ws_core split);
            corrected_core = apply_case_fixes_to_strokes (ws_core split) fix_two_capitals fix_accidental_caps_lock
        in if corrected_core = normalized_core then None
           else Some \<lparr>cp_buffer = corrected_core @ normalized_replay_buffer (trailing_tail split),
                      extra_backspaces = 0\<rparr>)"

end
