(* ===== verification/Switch_Properties.thy ===== *)
theory Switch_Properties
  imports Switch_Logic
begin

text \<open>
  What the corrections of src/src/daemon/switch_logic.rs guarantee: how a word is split, what is
  replayed, which words are protected, and that case corrections are stable.
\<close>

subsection \<open>Splitting off trailing punctuation\<close>

lemma rposition_None_iff: "rposition p xs = None \<longleftrightarrow> (\<forall>x \<in> set xs. \<not> p x)"
  by (simp add: rposition_def position_None_iff)

lemma rposition_SomeD:
  assumes "rposition p xs = Some i"
  shows "i < length xs \<and> p (xs ! i) \<and> (\<forall>x \<in> set (drop (Suc i) xs). \<not> p x)"
proof -
  from assms obtain j where j: "position p (rev xs) = Some j" "i = length xs - 1 - j"
    by (auto simp: rposition_def)
  note d = position_SomeD [OF j(1)]
  then have len: "j < length xs" by simp
  have "\<not> p (xs ! k)" if "i < k" "k < length xs" for k
  proof -
    have "length xs - 1 - k < j" "rev xs ! (length xs - 1 - k) = xs ! k"
      using that j(2) len by (auto simp: rev_nth)
    with d show ?thesis by metis
  qed
  then have "\<forall>x \<in> set (drop (Suc i) xs). \<not> p x"
    by (force simp: in_set_conv_nth)
  moreover have "p (xs ! i)" using d len j(2) by (simp add: rev_nth)
  ultimately show ?thesis using j(2) len by simp
qed

lemma split_at_tail_spec:
  "ws_core (split_at_tail p buf) @ trailing_tail (split_at_tail p buf) = buf"
  "s \<in> set (trailing_tail (split_at_tail p buf)) \<Longrightarrow> p s"
  "ws_core (split_at_tail p buf) \<noteq> [] \<Longrightarrow> \<not> p (last (ws_core (split_at_tail p buf)))"
proof -
  show "ws_core (split_at_tail p buf) @ trailing_tail (split_at_tail p buf) = buf"
    by (simp add: split_at_tail_def Let_def)
  show "p s" if "s \<in> set (trailing_tail (split_at_tail p buf))"
    using that rposition_None_iff [of "\<lambda>s. \<not> p s" buf] rposition_SomeD [of "\<lambda>s. \<not> p s" buf]
    by (cases "rposition (\<lambda>s. \<not> p s) buf") (auto simp: split_at_tail_def Let_def)
  show "\<not> p (last (ws_core (split_at_tail p buf)))" if "ws_core (split_at_tail p buf) \<noteq> []"
  proof (cases "rposition (\<lambda>s. \<not> p s) buf")
    case None
    with that show ?thesis by (simp add: split_at_tail_def)
  next
    case (Some i)
    from rposition_SomeD [OF Some] have "last (take (Suc i) buf) = buf ! i" "\<not> p (buf ! i)"
      by (auto simp: take_Suc_conv_app_nth)
    with Some show ?thesis by (simp add: split_at_tail_def)
  qed
qed

text \<open>
  Splitting loses nothing.  Under every layout the core and the tail of a word are together
  the word, the tail is punctuation only, and the core does not end in punctuation.
\<close>

theorem split_word_lossless:
  "let split = split_word_core_and_trailing_tail buf layout_kind in
     ws_core split @ trailing_tail split = buf \<and>
     list_all (\<lambda>s. is_trailing_tail_punctuation s layout_kind) (trailing_tail split) \<and>
     (case rev (ws_core split) of [] \<Rightarrow> True | s # _ \<Rightarrow> \<not> is_trailing_tail_punctuation s layout_kind)"
  unfolding Let_def split_word_core_and_trailing_tail_def
  using split_at_tail_spec [where p = "\<lambda>s. is_trailing_tail_punctuation s layout_kind" and buf = buf]
  by (auto simp: list_all_iff last_rev [symmetric] split: list.split dest!: rev_eq_Cons_iff [THEN iffD1])

subsection \<open>Normalised replay\<close>

definition PUNCTUATION_LETTER_KEYS :: "key list" where
  "PUNCTUATION_LETTER_KEYS =
     [KEY_GRAVE, KEY_LEFTBRACE, KEY_RIGHTBRACE, KEY_SEMICOLON, KEY_APOSTROPHE, KEY_COMMA, KEY_DOT]"

lemma case_fix_letter_keys:
  "set CASE_FIX_LETTER_KEYS = fst ` set LETTER_KEYS \<union> set PUNCTUATION_LETTER_KEYS"
  by (simp add: CASE_FIX_LETTER_KEYS_def LETTER_KEYS_def PUNCTUATION_LETTER_KEYS_def insert_commute)

lemma punctuation_not_letter: "k \<in> set PUNCTUATION_LETTER_KEYS \<Longrightarrow> map_of LETTER_KEYS k = None"
  by (auto simp: PUNCTUATION_LETTER_KEYS_def LETTER_KEYS_def)

lemma punctuation_shift_differs:
  "k \<in> set PUNCTUATION_LETTER_KEYS \<Longrightarrow>
   \<exists>plain shifted. map_of SYMBOL_KEYS k = Some (plain, shifted) \<and> plain \<noteq> shifted \<and>
     russian_visible_char_for_keyboard_position plain \<noteq> russian_visible_char_for_keyboard_position shifted"
  by (auto simp: PUNCTUATION_LETTER_KEYS_def SYMBOL_KEYS_def russian_visible_char_for_keyboard_position_def
      RUSSIAN_POSITIONS_def)

lemma normalize_stroke_fields [simp]:
  "ks_key (normalize_stroke s) = ks_key s" "\<not> ks_caps_lock (normalize_stroke s)"
  "ks_shift (normalize_stroke s) =
     (if is_case_fix_letter_key (ks_key s) then ks_shift s \<noteq> ks_caps_lock s else ks_shift s)"
  by (auto simp: normalize_stroke_def letter_case_for_stroke_def split: option.splits letter_case.splits)

lemma normalize_stroke_char:
  "visible_char_for_keystroke (normalize_stroke s) = visible_char_for_keystroke s \<longleftrightarrow>
     \<not> (ks_caps_lock s \<and> ks_key s \<in> set PUNCTUATION_LETTER_KEYS)"
proof (cases "map_of LETTER_KEYS (ks_key s)")
  case (Some base)
  then have "ks_key s \<in> fst ` set LETTER_KEYS" by (force dest: map_of_SomeD)
  with Some case_fix_letter_keys punctuation_not_letter [of "ks_key s"] show ?thesis
    by (auto simp: visible_char_for_keystroke_def key_to_char_def is_case_fix_letter_key_def letter_def)
next
  case None
  then have no: "ks_key s \<notin> fst ` set LETTER_KEYS" by (simp add: map_of_eq_None_iff)
  show ?thesis
  proof (cases "ks_key s \<in> set PUNCTUATION_LETTER_KEYS")
    case True
    with None punctuation_shift_differs [OF True] case_fix_letter_keys show ?thesis
      by (auto simp: visible_char_for_keystroke_def key_to_char_def is_case_fix_letter_key_def split: if_splits)
  next
    case False
    with None no case_fix_letter_keys show ?thesis
      by (auto simp: visible_char_for_keystroke_def key_to_char_def is_case_fix_letter_key_def)
  qed
qed

text \<open>
  C22: what replay changes.  Replaying the normalised form of a stroke in the English layout types
  the character the stroke showed, without Caps Lock, except for exactly one class of strokes:
  the punctuation keys that carry letters in the Russian layout, typed under Caps Lock, where the
  normalised form has Shift pressed and shows a different character.
\<close>

theorem replay_visible_char:
  "ks_key (normalize_stroke s) = ks_key s \<and> \<not> ks_caps_lock (normalize_stroke s) \<and>
   normalize_stroke (normalize_stroke s) = normalize_stroke s \<and>
   (visible_char_for_layout (normalize_stroke s) English = visible_char_for_layout s English \<longleftrightarrow>
     \<not> (ks_caps_lock s \<and> ks_key s \<in> set PUNCTUATION_LETTER_KEYS))"
proof -
  have "normalize_stroke (normalize_stroke s) = normalize_stroke s"
    by (rule keystroke.equality) simp_all
  moreover have "visible_char_for_layout t English = visible_char_for_keystroke t" for t
    by (simp add: visible_char_for_layout_def option.map_ident)
  ultimately show ?thesis by (simp add: normalize_stroke_char)
qed

subsection \<open>Case corrections\<close>

lemma collect_option_Some_iff: "collect_option xs = Some ys \<longleftrightarrow> xs = map Some ys"
  by (induction xs arbitrary: ys rule: collect_option.induct) (auto simp: Cons_eq_map_conv)

definition two_capitals :: "letter_case list \<Rightarrow> bool" where
  "two_capitals pattern \<longleftrightarrow> (\<exists>n > 0. pattern = Upper # Upper # replicate n Lower)"

definition accidental_caps_lock :: "letter_case list \<Rightarrow> bool" where
  "accidental_caps_lock pattern \<longleftrightarrow> (\<exists>n > 0. pattern = Lower # replicate n Upper)"

abbreviation capitalised :: "nat \<Rightarrow> letter_case list" where
  "capitalised n \<equiv> Upper # replicate (n - 1) Lower"

lemma all_equal_replicate: "list_all (\<lambda>c. c = x) xs \<longleftrightarrow> xs = replicate (length xs) x"
  by (induction xs) auto

lemma two_capitals_iff:
  "two_capitals pattern \<longleftrightarrow> length pattern \<ge> 3 \<and> pattern ! 0 = Upper \<and> pattern ! 1 = Upper \<and>
     list_all (\<lambda>c. c = Lower) (drop 2 pattern)"
proof
  assume "two_capitals pattern"
  then show "length pattern \<ge> 3 \<and> pattern ! 0 = Upper \<and> pattern ! 1 = Upper \<and>
     list_all (\<lambda>c. c = Lower) (drop 2 pattern)"
    by (auto simp: two_capitals_def all_equal_replicate)
next
  assume a: "length pattern \<ge> 3 \<and> pattern ! 0 = Upper \<and> pattern ! 1 = Upper \<and>
     list_all (\<lambda>c. c = Lower) (drop 2 pattern)"
  then obtain x y rest where p: "pattern = x # y # rest" "rest \<noteq> []"
    by (cases pattern rule: remdups_adj.cases) (auto simp: Suc_le_length_iff)
  with a have "pattern = Upper # Upper # replicate (length rest) Lower"
    by (simp add: all_equal_replicate)
  with p show "two_capitals pattern" by (auto simp: two_capitals_def)
qed

lemma accidental_caps_lock_iff:
  "accidental_caps_lock pattern \<longleftrightarrow> length pattern \<ge> 2 \<and> pattern ! 0 = Lower \<and>
     list_all (\<lambda>c. c = Upper) (drop 1 pattern)"
proof (cases pattern)
  case (Cons x xs)
  have "(\<exists>n > 0. xs = replicate n Upper) \<longleftrightarrow> xs \<noteq> [] \<and> xs = replicate (length xs) Upper"
    by (auto intro: exI [of _ "length xs"])
  with Cons show ?thesis
    by (cases xs) (auto simp: accidental_caps_lock_def all_equal_replicate)
qed (simp add: accidental_caps_lock_def)

lemma corrected_case_pattern_eq:
  "corrected_case_pattern pattern f g =
     (if f \<and> two_capitals pattern \<or> g \<and> accidental_caps_lock pattern
      then Some (capitalised (length pattern)) else None)"
proof -
  have "pattern[1 := Lower] = capitalised (length pattern)" if "two_capitals pattern"
    using that by (auto simp: two_capitals_def)
  moreover have "Upper # map (\<lambda>_. Lower) (drop 1 pattern) = capitalised (length pattern)"
    by (simp add: map_replicate_const)
  moreover have "corrected_case_pattern pattern f g =
      (if f \<and> two_capitals pattern then Some (pattern[1 := Lower])
       else if g \<and> accidental_caps_lock pattern then Some (Upper # map (\<lambda>_. Lower) (drop 1 pattern))
       else None)"
    unfolding corrected_case_pattern_def two_capitals_iff accidental_caps_lock_iff by (rule refl)
  ultimately show ?thesis by simp
qed

lemma capitalised_not_corrected: "corrected_case_pattern (Upper # replicate n Lower) f g = None"
  by (cases n) (auto simp: corrected_case_pattern_eq two_capitals_def accidental_caps_lock_def)

lemma letter_case_normalize [simp]: "letter_case_for_stroke (normalize_stroke s) = letter_case_for_stroke s"
  by (simp add: letter_case_for_stroke_def)

lemma normalize_idem [simp]: "normalize_stroke (normalize_stroke s) = normalize_stroke s"
  by (rule keystroke.equality) simp_all

lemma set_case_simps [simp]:
  "ks_key (set_case s c) = ks_key s" "ks_shift (set_case s c) = (c = Upper)" "\<not> ks_caps_lock (set_case s c)"
  by (simp_all add: set_case_def)

lemma letter_case_set_case:
  "letter_case_for_stroke s \<noteq> None \<Longrightarrow> letter_case_for_stroke (set_case s c) = Some c"
  by (cases c) (auto simp: letter_case_for_stroke_def split: if_splits)

lemma normalize_set_case: "normalize_stroke (set_case s c) = set_case s c"
  by (rule keystroke.equality) simp_all

text \<open>The cases of a corrected word, and that it is in normal form.\<close>

lemma apply_case_fixes_corrected:
  assumes p: "map letter_case_for_stroke buf = map Some pattern"
    and q: "corrected_case_pattern pattern f g = Some q"
  shows "map letter_case_for_stroke (apply_case_fixes_to_strokes buf f g) = map Some q \<and>
    map normalize_stroke (apply_case_fixes_to_strokes buf f g) = apply_case_fixes_to_strokes buf f g \<and>
    map ks_key (apply_case_fixes_to_strokes buf f g) = map ks_key buf"
proof -
  have len: "length pattern = length buf" using map_eq_imp_length_eq [OF p] by simp
  moreover have "length q = length pattern"
    using q len by (cases "pattern = []")
      (auto simp: corrected_case_pattern_eq two_capitals_def accidental_caps_lock_def split: if_splits)
  ultimately have "length q = length buf" by simp
  moreover have "letter_case_for_stroke (buf ! i) \<noteq> None" if "i < length buf" for i
    using arg_cong [OF p, of "\<lambda>xs. xs ! i"] that len by simp
  moreover have "apply_case_fixes_to_strokes buf f g = map2 set_case (map normalize_stroke buf) q"
    using p q by (simp add: apply_case_fixes_to_strokes_def normalize_strokes_for_replay_def
        collect_option_Some_iff [THEN iffD2])
  ultimately show ?thesis
    by (auto intro!: nth_equalityI simp: letter_case_set_case normalize_set_case)
qed

lemma apply_case_fixes_unchanged:
  assumes "\<And>pattern. map letter_case_for_stroke buf = map Some pattern \<Longrightarrow> corrected_case_pattern pattern f g = None"
  shows "apply_case_fixes_to_strokes buf f g = map normalize_stroke buf"
  using assms by (auto simp: apply_case_fixes_to_strokes_def normalize_strokes_for_replay_def Let_def
      collect_option_Some_iff split: option.splits)

text \<open>
  Case corrections are stable.  Whatever the settings, correcting a word keeps its keys, leaves
  no stroke that depends on Caps Lock, and correcting the result again changes nothing.
\<close>

theorem case_fixes_stable:
  "let fixed = apply_case_fixes_to_strokes buf f g in
     map ks_key fixed = map ks_key buf \<and> list_all (\<lambda>s. \<not> ks_caps_lock s) fixed \<and>
     apply_case_fixes_to_strokes fixed f g = fixed"
proof (cases "\<exists>pattern q. map letter_case_for_stroke buf = map Some pattern \<and>
    corrected_case_pattern pattern f g = Some q")
  case True
  then obtain pattern q where pq: "map letter_case_for_stroke buf = map Some pattern"
    "corrected_case_pattern pattern f g = Some q" by blast
  let ?fixed = "apply_case_fixes_to_strokes buf f g"
  note r = apply_case_fixes_corrected [OF pq]
  have "apply_case_fixes_to_strokes ?fixed f g = map normalize_stroke ?fixed"
    by (rule apply_case_fixes_unchanged)
      (use r pq(2) in \<open>auto simp: inj_map_eq_map [OF inj_Some] corrected_case_pattern_eq [of pattern]
        capitalised_not_corrected split: if_splits\<close>)
  moreover have "list_all (\<lambda>s. \<not> ks_caps_lock s) (map normalize_stroke ?fixed)"
    by (simp add: list_all_iff)
  ultimately show ?thesis using r by (simp add: Let_def)
next
  case False
  then have n: "apply_case_fixes_to_strokes buf f g = map normalize_stroke buf"
    by (intro apply_case_fixes_unchanged) auto
  have "apply_case_fixes_to_strokes (map normalize_stroke buf) f g = map normalize_stroke (map normalize_stroke buf)"
    using False by (intro apply_case_fixes_unchanged) (auto simp: comp_def)
  with n show ?thesis by (simp add: Let_def list_all_iff comp_def)
qed

text \<open>
  C21: exactly two mistakes are corrected.  Without switching the layout a word is changed exactly
  when all of its core are letter keys that show two capitals followed by small letters, or one
  small letter followed by capitals, and the corresponding setting is on.  The plan then types the
  same keys with the first letter capital and the others small, followed by the tail.
\<close>

theorem same_layout_plan_exact:
  "let core = ws_core (split_word_core_and_trailing_tail buf layout_kind);
       mistake = (\<exists>pattern. map letter_case_for_stroke core = map Some pattern \<and>
         (f \<and> two_capitals pattern \<or> g \<and> accidental_caps_lock pattern))
   in case same_layout_case_correction_plan buf layout_kind f g of
        None \<Rightarrow> \<not> mistake
      | Some plan \<Rightarrow> mistake \<and> extra_backspaces plan = 0 \<and> map ks_key (cp_buffer plan) = map ks_key buf \<and>
          map letter_case_for_stroke (take (length core) (cp_buffer plan)) = map Some (capitalised (length core))"
proof -
  let ?split = "split_word_core_and_trailing_tail buf layout_kind"
  let ?core = "ws_core ?split"
  let ?plan = "same_layout_case_correction_plan buf layout_kind f g"
  have buf: "?core @ trailing_tail ?split = buf"
    by (simp add: split_word_core_and_trailing_tail_def split_at_tail_spec(1))
  show ?thesis
  proof (cases "\<exists>pattern. map letter_case_for_stroke ?core = map Some pattern \<and>
         (f \<and> two_capitals pattern \<or> g \<and> accidental_caps_lock pattern)")
    case True
    then obtain pattern where p: "map letter_case_for_stroke ?core = map Some pattern"
      "f \<and> two_capitals pattern \<or> g \<and> accidental_caps_lock pattern" by blast
    let ?fixed = "apply_case_fixes_to_strokes ?core f g"
    have q: "corrected_case_pattern pattern f g = Some (capitalised (length pattern))"
      using p(2) by (simp add: corrected_case_pattern_eq)
    note r = apply_case_fixes_corrected [OF p(1) q]
    have len: "length pattern = length ?core" using map_eq_imp_length_eq [OF p(1)] by simp
    have "?core \<noteq> []" using p by (auto simp: two_capitals_def accidental_caps_lock_def)
    moreover have "pattern \<noteq> capitalised (length pattern)"
      using p(2) by (auto simp: two_capitals_def accidental_caps_lock_def)
    then have "?fixed \<noteq> map normalize_stroke ?core"
      using r p(1) by (metis (no_types, lifting) inj_map_eq_map inj_Some letter_case_normalize list.map_comp comp_apply map_cong)
    ultimately have plan: "?plan = Some \<lparr>cp_buffer = ?fixed @ map normalize_stroke (trailing_tail ?split), extra_backspaces = 0\<rparr>"
      by (simp add: same_layout_case_correction_plan_def Let_def normalized_replay_buffer_def
          normalize_strokes_for_replay_def)
    have "length ?fixed = length ?core" using r map_eq_imp_length_eq by metis
    moreover have "map ks_key (?fixed @ map normalize_stroke (trailing_tail ?split)) = map ks_key buf"
      using r arg_cong [OF buf, of "map ks_key"] by (simp add: comp_def)
    ultimately show ?thesis using True plan r len by (simp add: Let_def)
  next
    case False
    then have "apply_case_fixes_to_strokes ?core f g = map normalize_stroke ?core"
      by (intro apply_case_fixes_unchanged) (auto simp: corrected_case_pattern_eq)
    then have "?plan = None"
      by (simp add: same_layout_case_correction_plan_def Let_def normalized_replay_buffer_def
          normalize_strokes_for_replay_def)
    with False show ?thesis by (simp add: Let_def)
  qed
qed

text \<open>
  The manual plan.  There is a plan exactly when the current word, or else the last word, has a
  core; it types the keys of that word again, and one more backspace is needed exactly when the
  last word is taken and a separator follows it.
\<close>

theorem manual_plan_exact:
  "let word = (if current \<noteq> [] then current else last_word) in
   case manual_correction_plan current last_word separator layout_kind of
     None \<Rightarrow> ws_core (split_word_core_and_trailing_tail word layout_kind) = []
   | Some plan \<Rightarrow> ws_core (split_word_core_and_trailing_tail word layout_kind) \<noteq> [] \<and>
       cp_buffer plan = map normalize_stroke word \<and>
       extra_backspaces plan = (if current = [] \<and> separator then 1 else 0)"
proof -
  have buf: "ws_core (split_word_core_and_trailing_tail buf layout_kind)
      @ trailing_tail (split_word_core_and_trailing_tail buf layout_kind) = buf" for buf
    by (simp add: split_word_core_and_trailing_tail_def split_at_tail_spec(1))
  have "ws_core (split_word_core_and_trailing_tail [] layout_kind) = []"
    using buf [of "[]"] by blast
  then show ?thesis
    by (auto simp: manual_correction_plan_def Let_def normalized_replay_buffer_def
        normalize_strokes_for_replay_def map_append [symmetric] buf simp del: map_append)
qed

subsection \<open>Deciding to switch\<close>

lemma map_filter_map: "List.map_filter (\<lambda>x. map_option g (f x)) xs = map g (List.map_filter f xs)"
  by (induction xs) (auto simp: List.map_filter_def)

lemma length_map_filter: "length (List.map_filter f xs) \<le> length xs"
  by (simp add: List.map_filter_def)

lemma visible_string_russian:
  "keys_to_visible_string ks Russian = map russian_visible_char_for_keyboard_position (keys_to_string ks)"
  by (simp add: keys_to_visible_string_def keys_to_string_def visible_char_for_layout_def map_filter_map)

text \<open>Every character of a physical key is ASCII.\<close>

lemma key_to_char_ascii: "key_to_char k shift caps = Some c \<Longrightarrow> c < 128"
proof -
  assume c: "key_to_char k shift caps = Some c"
  have letters: "\<forall>(k, b) \<in> set LETTER_KEYS. b < 128" by (simp add: LETTER_KEYS_def)
  have symbols: "\<forall>(k, p, q) \<in> set SYMBOL_KEYS. p < 128 \<and> q < 128" by (simp add: SYMBOL_KEYS_def)
  show ?thesis
    using c letters symbols
    by (auto simp: key_to_char_def letter_def to_ascii_uppercase_def split: option.splits if_splits
        dest!: map_of_SomeD)
qed

lemma keys_to_string_ascii: "c \<in> set (keys_to_string ks) \<Longrightarrow> c < 128"
  by (auto simp: keys_to_string_def List.map_filter_def visible_char_for_keystroke_def key_to_char_ascii)

lemma ascii_letter_cases:
  assumes "list_all P ([65..<91] @ [97..<123])" and "is_ascii_alphabetic c"
  shows "P c"
proof -
  have "c \<in> set ([65..<91] @ [97..<123])"
    using assms(2) unfolding is_ascii_alphabetic_def set_append set_upt Un_iff atLeastLessThan_iff by linarith
  with assms(1) show ?thesis unfolding list_all_iff by (rule bspec)
qed

lemma alphabetic_is_russian:
  assumes "is_ascii_alphabetic c"
  shows "is_russian_letter (russian_visible_char_for_keyboard_position c)"
proof -
  have "list_all (\<lambda>c. is_russian_letter (russian_visible_char_for_keyboard_position c)) ([65..<91] @ [97..<123])"
    by code_simp
  from ascii_letter_cases [OF this assms] show ?thesis .
qed

lemma lowercase_alphabetic: "is_ascii_alphabetic (to_ascii_lowercase c) = is_ascii_alphabetic c"
  by (auto simp: is_ascii_alphabetic_def to_ascii_lowercase_def)

lemma english_lists_trimmed:
  "w \<in> set EXCLUDED_WORDS \<union> set TECHNICAL_ENGLISH_WORDS \<Longrightarrow> trim_end_matches w [46, 44, 59, 39, 96, 91, 93] = w"
proof -
  have "list_all (\<lambda>w. trim_end_matches w [46, 44, 59, 39, 96, 91, 93] = w) (EXCLUDED_WORDS @ TECHNICAL_ENGLISH_WORDS)"
    by code_simp
  then show "w \<in> set EXCLUDED_WORDS \<union> set TECHNICAL_ENGLISH_WORDS \<Longrightarrow>
      trim_end_matches w [46, 44, 59, 39, 96, 91, 93] = w"
    by (auto simp: list_all_iff)
qed

abbreviation word_of :: "keystroke list \<Rightarrow> rtext" where
  "word_of core \<equiv> normalize_word_for_switch_heuristics (keys_to_string core)"

text \<open>
  Words protected in the English layout.  A word is never corrected to Russian when its core
  has fewer than three keys, spells in any capitalisation one of the listed command names,
  technical words or vowel-less abbreviations, or contains a digit or one of the characters of
  paths and identifiers.
\<close>

theorem english_words_protected:
  assumes "core = ws_core (split_word_core_and_trailing_tail buf English)"
    and "length core < 3 \<or>
      word_of core \<in> set EXCLUDED_WORDS \<union> set TECHNICAL_ENGLISH_WORDS \<union> set ENGLISH_LAYOUT_NO_VOWEL_TECHNICAL_WORDS \<or>
      list_ex is_structural_code_token_stroke core"
  shows "layout_correction_direction buf English = None"
proof -
  have "is_likely_english (word_of core)" if "word_of core \<in> set EXCLUDED_WORDS \<union> set TECHNICAL_ENGLISH_WORDS"
    using that english_lists_trimmed [OF that]
    by (auto simp: is_likely_english_def is_explicit_english_guard_word_def)
  with assms show ?thesis
    by (auto simp: layout_correction_direction_def should_switch_english_to_russian_def
        is_english_layout_technical_token_def Let_def)
qed

definition plain_stroke :: "key \<Rightarrow> keystroke" where
  "plain_stroke k = \<lparr>ks_key = k, ks_shift = False, ks_caps_lock = False\<rparr>"

theorem english_words_protected_witness:
  "layout_correction_direction (map plain_stroke [KEY_G, KEY_I, KEY_T]) English = None"
  by (rule english_words_protected [OF refl]) code_simp

lemma listed_words_disjoint:
  assumes "w \<in> set RU_LAYOUT_COMMON_ENGLISH_WORDS \<union> set TECHNICAL_ENGLISH_WORDS"
  shows "w \<notin> set RUSSIAN_PRIORITY_PHYSICAL_WORDS \<and> 3 \<le> length w \<and> list_all is_ascii_alphabetic w"
proof -
  have "list_all (\<lambda>w. \<not> List.member RUSSIAN_PRIORITY_PHYSICAL_WORDS w \<and> 3 \<le> length w \<and> list_all is_ascii_alphabetic w)
      (RU_LAYOUT_COMMON_ENGLISH_WORDS @ TECHNICAL_ENGLISH_WORDS)"
    by code_simp
  with assms show ?thesis by (auto simp: list_all_iff)
qed

text \<open>
  Listed words in the Russian layout.  A word whose physical keys spell one of the listed
  Russian words is never corrected to English; one whose keys spell a listed common or technical
  English word always is, in any capitalisation and with any trailing punctuation.
\<close>

theorem russian_layout_listed_words:
  assumes core: "core = ws_core (split_physical_english_core_and_trailing_tail buf)"
  shows "(word_of core \<in> set RUSSIAN_PRIORITY_PHYSICAL_WORDS \<longrightarrow> layout_correction_direction buf Russian = None) \<and>
    (word_of core \<in> set RU_LAYOUT_COMMON_ENGLISH_WORDS \<union> set TECHNICAL_ENGLISH_WORDS \<longrightarrow>
       layout_correction_direction buf Russian = Some RussianToEnglish)"
proof (intro conjI impI)
  assume "word_of core \<in> set RUSSIAN_PRIORITY_PHYSICAL_WORDS"
  then show "layout_correction_direction buf Russian = None"
    using core by (simp add: layout_correction_direction_def should_switch_russian_to_english_def
        is_confident_english_for_russian_layout_def Let_def)
next
  assume listed: "word_of core \<in> set RU_LAYOUT_COMMON_ENGLISH_WORDS \<union> set TECHNICAL_ENGLISH_WORDS"
  note w = listed_words_disjoint [OF listed]
  have len: "3 \<le> length core"
    using w length_map_filter [of visible_char_for_keystroke core]
    by (simp add: normalize_word_for_switch_heuristics_def keys_to_string_def)
  from w have "keys_to_string core \<noteq> []" "list_all is_ascii_alphabetic (keys_to_string core)"
    by (auto simp: normalize_word_for_switch_heuristics_def list_all_iff lowercase_alphabetic)
  then have "list_ex is_russian_letter (keys_to_visible_string core Russian)"
    by (cases "keys_to_string core") (auto simp: visible_string_russian alphabetic_is_russian)
  with core listed w len show "layout_correction_direction buf Russian = Some RussianToEnglish"
    by (auto simp: layout_correction_direction_def should_switch_russian_to_english_def
        is_confident_english_for_russian_layout_def Let_def)
qed

theorem russian_layout_listed_words_witness:
  "layout_correction_direction (map plain_stroke [KEY_H, KEY_T, KEY_M, KEY_L, KEY_COMMA]) Russian = Some RussianToEnglish"
proof -
  have "List.member TECHNICAL_ENGLISH_WORDS (word_of (ws_core (split_physical_english_core_and_trailing_tail
      (map plain_stroke [KEY_H, KEY_T, KEY_M, KEY_L, KEY_COMMA]))))"
    by code_simp
  with russian_layout_listed_words [OF refl, of "map plain_stroke [KEY_H, KEY_T, KEY_M, KEY_L, KEY_COMMA]"]
  show ?thesis by simp
qed

subsection \<open>Words of letters\<close>

definition letter_stroke :: "keystroke \<Rightarrow> bool" where
  "letter_stroke s \<longleftrightarrow> ks_key s \<in> fst ` set LETTER_KEYS"

definition without_case :: "keystroke \<Rightarrow> keystroke" where
  "without_case s = plain_stroke (ks_key s)"

lemma letter_base:
  "map_of LETTER_KEYS k = Some b \<Longrightarrow> 97 \<le> b \<and> b \<le> 122"
proof -
  have "\<forall>(k, b) \<in> set LETTER_KEYS. 97 \<le> b \<and> b \<le> 122" by (simp add: LETTER_KEYS_def)
  then show "map_of LETTER_KEYS k = Some b \<Longrightarrow> 97 \<le> b \<and> b \<le> 122" by (auto dest!: map_of_SomeD)
qed

lemma letter_stroke_char:
  assumes "letter_stroke s"
  shows "\<exists>c b. visible_char_for_keystroke s = Some c \<and> is_ascii_alphabetic c \<and> to_ascii_lowercase c = b \<and>
    visible_char_for_keystroke (without_case s) = Some b \<and> is_ascii_alphabetic b \<and> to_ascii_lowercase b = b"
proof -
  from assms obtain b where b: "map_of LETTER_KEYS (ks_key s) = Some b"
    unfolding letter_stroke_def by (metis map_of_eq_None_iff not_None_eq)
  from letter_base [OF b] b show ?thesis
    by (auto simp: visible_char_for_keystroke_def key_to_char_def letter_def to_ascii_uppercase_def
        is_ascii_alphabetic_def to_ascii_lowercase_def without_case_def plain_stroke_def)
qed

lemma alphabetic_not_punctuation:
  assumes "is_ascii_alphabetic c"
  shows "\<not> is_trailing_tail_punctuation_char c \<and> \<not> (48 \<le> c \<and> c \<le> 57 \<or> c \<in> set (lit ''/:_.-''))"
proof -
  have "list_all (\<lambda>c. \<not> is_trailing_tail_punctuation_char c \<and>
      \<not> (48 \<le> c \<and> c \<le> 57 \<or> List.member (lit ''/:_.-'') c)) ([65..<91] @ [97..<123])"
    by code_simp
  from ascii_letter_cases [OF this assms] show ?thesis by simp
qed

lemma split_at_tail_none:
  assumes "list_all (\<lambda>s. \<not> p s) buf"
  shows "ws_core (split_at_tail p buf) = buf"
proof -
  note spec = split_at_tail_spec(1,2) [where p = p and buf = buf]
  have "trailing_tail (split_at_tail p buf) = []"
  proof (rule ccontr)
    assume "trailing_tail (split_at_tail p buf) \<noteq> []"
    then have s: "hd (trailing_tail (split_at_tail p buf)) \<in> set (trailing_tail (split_at_tail p buf))" by simp
    then have "hd (trailing_tail (split_at_tail p buf)) \<in> set buf" using spec(1) by (metis UnCI set_append)
    with spec(2) [OF s] assms show False by (simp add: list_all_iff)
  qed
  with spec(1) show ?thesis by simp
qed

lemma letter_word_core:
  assumes "list_all letter_stroke buf"
  shows "ws_core (split_word_core_and_trailing_tail buf English) = buf"
    "ws_core (split_physical_english_core_and_trailing_tail buf) = buf"
proof -
  have "\<not> is_some_and (visible_char_for_keystroke s) is_trailing_tail_punctuation_char" if "s \<in> set buf" for s
    using that assms letter_stroke_char [of s] alphabetic_not_punctuation
    by (auto simp: list_all_iff is_some_and_def)
  then show "ws_core (split_word_core_and_trailing_tail buf English) = buf"
    "ws_core (split_physical_english_core_and_trailing_tail buf) = buf"
    unfolding split_word_core_and_trailing_tail_def split_physical_english_core_and_trailing_tail_def
    by (auto intro!: split_at_tail_none simp: list_all_iff is_trailing_tail_punctuation_def
        visible_char_for_layout_def option.map_ident)
qed

lemma letter_word_text:
  "list_all letter_stroke buf \<Longrightarrow> word_of (map without_case buf) = word_of buf"
proof (induction buf)
  case (Cons s buf)
  with letter_stroke_char [of s] show ?case
    by (auto simp: normalize_word_for_switch_heuristics_def keys_to_string_def List.map_filter_def)
qed simp

lemma letter_word_alphabetic:
  "list_all letter_stroke buf \<Longrightarrow> list_all is_ascii_alphabetic (keys_to_string buf) \<and>
     length (keys_to_string buf) = length buf"
proof (induction buf)
  case (Cons s buf)
  with letter_stroke_char [of s] show ?case
    by (auto simp: keys_to_string_def List.map_filter_def)
qed (simp add: keys_to_string_def List.map_filter_def)

lemma letter_word_not_structural: "list_all letter_stroke buf \<Longrightarrow> \<not> list_ex is_structural_code_token_stroke buf"
  using letter_stroke_char alphabetic_not_punctuation
  by (fastforce simp: list_all_iff list_ex_iff is_structural_code_token_stroke_def is_some_and_def)

lemma letter_without_case: "list_all letter_stroke buf \<Longrightarrow> list_all letter_stroke (map without_case buf)"
  by (auto simp: list_all_iff letter_stroke_def without_case_def plain_stroke_def)

lemma stroke_scores_without_case:
  "foldl (\<lambda>score (i, s). score + stroke_score n i s) a (enumerate k (map without_case buf)) =
   foldl (\<lambda>score (i, s). score + stroke_score n i s) a (enumerate k buf)"
  by (induction buf arbitrary: a k) (simp_all add: stroke_score_def without_case_def plain_stroke_def)

lemma score_without_case:
  "english_layout_russian_physical_score (map without_case buf) w = english_layout_russian_physical_score buf w"
proof -
  have "count_russian_vowels (map without_case buf) = count_russian_vowels buf"
    by (simp add: count_russian_vowels_def filter_map comp_def without_case_def plain_stroke_def)
  then show ?thesis
    by (simp add: english_layout_russian_physical_score_def stroke_scores_without_case)
qed

lemma decision_without_case:
  assumes "list_all letter_stroke buf"
  shows "layout_correction_direction (map without_case buf) k = layout_correction_direction buf k"
proof -
  note letters = assms letter_without_case [OF assms]
  have "should_switch_english_to_russian (map without_case buf) = should_switch_english_to_russian buf"
    using letters by (simp add: should_switch_english_to_russian_def letter_word_core letter_word_text
        is_english_layout_technical_token_def letter_word_not_structural score_without_case Let_def)
  moreover have "list_ex is_russian_letter (keys_to_visible_string b Russian)"
    if "list_all letter_stroke b" "b \<noteq> []" for b
    using letter_word_alphabetic [OF that(1)] that(2)
    by (cases "keys_to_string b") (auto simp: visible_string_russian alphabetic_is_russian)
  then have "should_switch_russian_to_english (map without_case buf) = should_switch_russian_to_english buf"
    using letters by (cases "buf = []")
      (simp_all add: should_switch_russian_to_english_def letter_word_core letter_word_text Let_def)
  ultimately show ?thesis by (simp add: layout_correction_direction_def split: app_layout_kind.splits)
qed

text \<open>
  The decision is about keys.  For a word typed with letter keys only, whether and where to
  switch depends on the keys alone: not on Shift, Caps Lock, or any mixture of the two.
\<close>

theorem decision_ignores_case:
  assumes letters: "list_all letter_stroke b1" and keys: "map ks_key b1 = map ks_key b2"
  shows "layout_correction_direction b1 k = layout_correction_direction b2 k"
proof -
  have "list_all letter_stroke b2"
    using letters arg_cong [OF keys, of "list_all (\<lambda>k. k \<in> fst ` set LETTER_KEYS)"]
    by (simp add: list_all_iff letter_stroke_def)
  moreover have "map without_case b1 = map without_case b2"
    using arg_cong [OF keys, of "map plain_stroke"] by (simp add: without_case_def [abs_def] comp_def)
  ultimately show ?thesis using decision_without_case letters by metis
qed

theorem decision_ignores_case_witness:
  "layout_correction_direction
     (map (\<lambda>k. \<lparr>ks_key = k, ks_shift = True, ks_caps_lock = False\<rparr>) [KEY_G, KEY_H, KEY_B, KEY_D, KEY_T, KEY_N]) English =
   layout_correction_direction (map plain_stroke [KEY_G, KEY_H, KEY_B, KEY_D, KEY_T, KEY_N]) English"
  by (rule decision_ignores_case) (simp_all add: letter_stroke_def LETTER_KEYS_def plain_stroke_def)

subsection \<open>The score\<close>

lemma stroke_scores_bounds:
  "a \<le> foldl (\<lambda>score (i, s). score + stroke_score n i s) a (enumerate k buf) \<and>
   foldl (\<lambda>score (i, s). score + stroke_score n i s) a (enumerate k buf) \<le> a + 15 * int (length buf)"
proof (induction buf arbitrary: a k)
  case (Cons s buf)
  have "0 \<le> stroke_score n k s" "stroke_score n k s \<le> 15"
    by (auto simp: stroke_score_def)
  with Cons.IH [of "a + stroke_score n k s" "Suc k"] show ?case by simp
qed simp

text \<open>
  The score fits.  The physical score is between zero and fifteen points for every key plus
  twenty-two, so that the 32-bit accumulator of the source cannot overflow on any buffer of fewer
  than a hundred million keys.
\<close>

theorem physical_score_bounds:
  "0 \<le> english_layout_russian_physical_score core word \<and>
   english_layout_russian_physical_score core word \<le> 15 * int (length core) + 22 \<and>
   (length core < 10 ^ 8 \<longrightarrow> english_layout_russian_physical_score core word < 2 ^ 31)"
proof -
  have "0 \<le> english_layout_russian_physical_score core word"
    "english_layout_russian_physical_score core word \<le> 15 * int (length core) + 22"
    using stroke_scores_bounds [of 0 "length core" 0 core]
    by (auto simp: english_layout_russian_physical_score_def Let_def)
  then show ?thesis by auto
qed

theorem physical_score_bounds_witness:
  "english_layout_russian_physical_score (map plain_stroke [KEY_COMMA, KEY_SEMICOLON, KEY_DOT]) [] < 2 ^ 31"
  using physical_score_bounds [of "map plain_stroke [KEY_COMMA, KEY_SEMICOLON, KEY_DOT]" "[]"] by simp

end
