(* ===== verification/Hotkeys.thy ===== *)
theory Hotkeys
  imports Rust_Text
begin

text \<open>
  Hotkeys and layout-switch combinations: the first half of src/src/model.rs.  A hotkey is a set of
  modifiers with a trigger key; it has a canonical text, a label, and a lenient parser.
\<close>

subsection \<open>Hotkey specifications\<close>

record hotkey_modifiers =
  hm_shift :: bool
  hm_ctrl :: bool
  hm_alt :: bool

definition modifiers_new :: "bool \<Rightarrow> bool \<Rightarrow> bool \<Rightarrow> hotkey_modifiers" where
  "modifiers_new shift ctrl alt = \<lparr>hm_shift = shift, hm_ctrl = ctrl, hm_alt = alt\<rparr>"

definition modifiers_is_empty :: "hotkey_modifiers \<Rightarrow> bool" where
  "modifiers_is_empty m \<longleftrightarrow> \<not> hm_shift m \<and> \<not> hm_ctrl m \<and> \<not> hm_alt m"

definition from_compact_prefix :: "rtext \<Rightarrow> hotkey_modifiers option" where
  "from_compact_prefix prefix =
     (if prefix = [] then Some (modifiers_new False False False)
      else if prefix = lit ''shift'' then Some (modifiers_new True False False)
      else if prefix = lit ''ctrl'' then Some (modifiers_new False True False)
      else if prefix = lit ''alt'' then Some (modifiers_new False False True)
      else if prefix = lit ''shiftctrl'' then Some (modifiers_new True True False)
      else if prefix = lit ''shiftalt'' then Some (modifiers_new True False True)
      else if prefix = lit ''ctrlalt'' then Some (modifiers_new False True True)
      else if prefix = lit ''shiftctrlalt'' then Some (modifiers_new True True True)
      else None)"

datatype hotkey_trigger = F9 | F10 | F12 | Pause | ScrollLock | Insert | Menu

fun trigger_config_value :: "hotkey_trigger \<Rightarrow> rtext" where
  "trigger_config_value F9 = lit ''f9''"
| "trigger_config_value F10 = lit ''f10''"
| "trigger_config_value F12 = lit ''f12''"
| "trigger_config_value Pause = lit ''pause''"
| "trigger_config_value ScrollLock = lit ''scroll_lock''"
| "trigger_config_value Insert = lit ''insert''"
| "trigger_config_value Menu = lit ''menu''"

fun trigger_short_label :: "hotkey_trigger \<Rightarrow> rtext" where
  "trigger_short_label F9 = lit ''F9''"
| "trigger_short_label F10 = lit ''F10''"
| "trigger_short_label F12 = lit ''F12''"
| "trigger_short_label Pause = lit ''Pause''"
| "trigger_short_label ScrollLock = lit ''ScrollLock''"
| "trigger_short_label Insert = lit ''Insert''"
| "trigger_short_label Menu = lit ''Menu''"

fun compact_alias :: "hotkey_trigger \<Rightarrow> rtext" where
  "compact_alias F9 = lit ''f9''"
| "compact_alias F10 = lit ''f10''"
| "compact_alias F12 = lit ''f12''"
| "compact_alias Pause = lit ''pause''"
| "compact_alias ScrollLock = lit ''scrolllock''"
| "compact_alias Insert = lit ''insert''"
| "compact_alias Menu = lit ''menu''"

fun first_suffix :: "hotkey_trigger list \<Rightarrow> rtext \<Rightarrow> (hotkey_trigger \<times> rtext) option" where
  "first_suffix [] value = None"
| "first_suffix (trigger # triggers) value =
     (case strip_suffix value (compact_alias trigger) of
        Some prefix \<Rightarrow> Some (trigger, prefix)
      | None \<Rightarrow> first_suffix triggers value)"

definition SUFFIX_ORDER :: "hotkey_trigger list" where
  "SUFFIX_ORDER = [ScrollLock, Insert, Pause, Menu, F10, F12, F9]"

definition from_compact_suffix :: "rtext \<Rightarrow> (hotkey_trigger \<times> rtext) option" where
  "from_compact_suffix value = first_suffix SUFFIX_ORDER value"

record hotkey_spec =
  hs_modifiers :: hotkey_modifiers
  hs_trigger :: hotkey_trigger

definition spec_new :: "hotkey_modifiers \<Rightarrow> hotkey_trigger \<Rightarrow> hotkey_spec" where
  "spec_new m t = \<lparr>hs_modifiers = m, hs_trigger = t\<rparr>"

text \<open>\<open>Display\<close>, which is also \<open>config_value\<close>.\<close>

definition spec_config_value :: "hotkey_spec \<Rightarrow> rtext" where
  "spec_config_value spec =
     (if hm_shift (hs_modifiers spec) then lit ''shift+'' else []) @
     (if hm_ctrl (hs_modifiers spec) then lit ''ctrl+'' else []) @
     (if hm_alt (hs_modifiers spec) then lit ''alt+'' else []) @
     trigger_config_value (hs_trigger spec)"

fun join :: "rtext \<Rightarrow> rtext list \<Rightarrow> rtext" where
  "join sep [] = []"
| "join sep [part] = part"
| "join sep (part # parts) = part @ sep @ join sep parts"

definition spec_short_label :: "hotkey_spec \<Rightarrow> rtext" where
  "spec_short_label spec =
     join (lit ''+'')
       ((if hm_ctrl (hs_modifiers spec) then [lit ''Ctrl''] else []) @
        (if hm_alt (hs_modifiers spec) then [lit ''Alt''] else []) @
        (if hm_shift (hs_modifiers spec) then [lit ''Shift''] else []) @
        [trigger_short_label (hs_trigger spec)])"

datatype hotkey_parse_error =
    EmptyHotkey
  | UnsupportedTrigger rtext
  | UnsupportedModifier rtext

text \<open>The separators the parser ignores: plus, underscore, hyphen and space.\<close>

definition compact :: "rtext \<Rightarrow> rtext" where
  "compact value = filter (\<lambda>c. c \<notin> set (lit ''+_- '')) (map to_ascii_lowercase (trim value))"

definition spec_from_str :: "rtext \<Rightarrow> hotkey_parse_error + hotkey_spec" where
  "spec_from_str value =
     (if trim value = [] then Inl EmptyHotkey
      else case from_compact_suffix (compact value) of
        None \<Rightarrow> Inl (UnsupportedTrigger value)
      | Some (trigger, prefix) \<Rightarrow>
          (case from_compact_prefix prefix of
             None \<Rightarrow> Inl (UnsupportedModifier value)
           | Some modifiers \<Rightarrow> Inr (spec_new modifiers trigger)))"

definition spec_matches :: "hotkey_spec \<Rightarrow> hotkey_trigger \<Rightarrow> hotkey_modifiers \<Rightarrow> bool" where
  "spec_matches spec trigger m \<longleftrightarrow> hs_trigger spec = trigger \<and>
     hm_shift (hs_modifiers spec) = hm_shift m \<and> hm_ctrl (hs_modifiers spec) = hm_ctrl m \<and>
     hm_alt (hs_modifiers spec) = hm_alt m"

definition conflicts_exact :: "hotkey_spec \<Rightarrow> hotkey_spec \<Rightarrow> bool" where
  "conflicts_exact spec other \<longleftrightarrow> hs_trigger spec = hs_trigger other \<and>
     hm_shift (hs_modifiers spec) = hm_shift (hs_modifiers other) \<and>
     hm_ctrl (hs_modifiers spec) = hm_ctrl (hs_modifiers other) \<and>
     hm_alt (hs_modifiers spec) = hm_alt (hs_modifiers other)"

definition default_manual_correction_hotkey :: hotkey_spec where
  "default_manual_correction_hotkey = spec_new (modifiers_new False False False) Pause"

definition default_selected_text_hotkey :: hotkey_spec where
  "default_selected_text_hotkey = spec_new (modifiers_new True False False) Pause"

subsection \<open>The earlier fixed hotkeys\<close>

datatype undo_key = UndoPause | UndoF12 | UndoScrollLock

fun undo_key_as_str :: "undo_key \<Rightarrow> rtext" where
  "undo_key_as_str UndoPause = lit ''Pause''"
| "undo_key_as_str UndoF12 = lit ''F12''"
| "undo_key_as_str UndoScrollLock = lit ''ScrollLock''"

definition undo_key_from_str :: "rtext \<Rightarrow> undo_key option" where
  "undo_key_from_str value =
     (if value = lit ''Pause'' then Some UndoPause
      else if value = lit ''F12'' then Some UndoF12
      else if value = lit ''ScrollLock'' then Some UndoScrollLock
      else None)"

datatype selected_text_hotkey =
    ShiftPause | CtrlPause | AltPause | ShiftF12 | CtrlF12 | AltF12
  | ShiftScrollLock | CtrlScrollLock | AltScrollLock

fun trigger_key :: "selected_text_hotkey \<Rightarrow> undo_key" where
  "trigger_key ShiftPause = UndoPause"
| "trigger_key CtrlPause = UndoPause"
| "trigger_key AltPause = UndoPause"
| "trigger_key ShiftF12 = UndoF12"
| "trigger_key CtrlF12 = UndoF12"
| "trigger_key AltF12 = UndoF12"
| "trigger_key ShiftScrollLock = UndoScrollLock"
| "trigger_key CtrlScrollLock = UndoScrollLock"
| "trigger_key AltScrollLock = UndoScrollLock"

fun selected_config_value :: "selected_text_hotkey \<Rightarrow> rtext" where
  "selected_config_value ShiftPause = lit ''ShiftPause''"
| "selected_config_value CtrlPause = lit ''CtrlPause''"
| "selected_config_value AltPause = lit ''AltPause''"
| "selected_config_value ShiftF12 = lit ''ShiftF12''"
| "selected_config_value CtrlF12 = lit ''CtrlF12''"
| "selected_config_value AltF12 = lit ''AltF12''"
| "selected_config_value ShiftScrollLock = lit ''ShiftScrollLock''"
| "selected_config_value CtrlScrollLock = lit ''CtrlScrollLock''"
| "selected_config_value AltScrollLock = lit ''AltScrollLock''"

fun selected_short_label :: "selected_text_hotkey \<Rightarrow> rtext" where
  "selected_short_label ShiftPause = lit ''Shift+Pause''"
| "selected_short_label CtrlPause = lit ''Ctrl+Pause''"
| "selected_short_label AltPause = lit ''Alt+Pause''"
| "selected_short_label ShiftF12 = lit ''Shift+F12''"
| "selected_short_label CtrlF12 = lit ''Ctrl+F12''"
| "selected_short_label AltF12 = lit ''Alt+F12''"
| "selected_short_label ShiftScrollLock = lit ''Shift+ScrollLock''"
| "selected_short_label CtrlScrollLock = lit ''Ctrl+ScrollLock''"
| "selected_short_label AltScrollLock = lit ''Alt+ScrollLock''"

fun trigger_of_undo_key :: "undo_key \<Rightarrow> hotkey_trigger" where
  "trigger_of_undo_key UndoPause = Pause"
| "trigger_of_undo_key UndoF12 = F12"
| "trigger_of_undo_key UndoScrollLock = ScrollLock"

definition uses_shift :: "selected_text_hotkey \<Rightarrow> bool" where
  "uses_shift h \<longleftrightarrow> h \<in> {ShiftPause, ShiftF12, ShiftScrollLock}"

definition uses_ctrl :: "selected_text_hotkey \<Rightarrow> bool" where
  "uses_ctrl h \<longleftrightarrow> h \<in> {CtrlPause, CtrlF12, CtrlScrollLock}"

definition uses_alt :: "selected_text_hotkey \<Rightarrow> bool" where
  "uses_alt h \<longleftrightarrow> h \<in> {AltPause, AltF12, AltScrollLock}"

definition SELECTED_TEXT_HOTKEYS :: "selected_text_hotkey list" where
  "SELECTED_TEXT_HOTKEYS =
     [ShiftPause, CtrlPause, AltPause, ShiftF12, CtrlF12, AltF12, ShiftScrollLock, CtrlScrollLock,
      AltScrollLock]"

text \<open>The arms of \<open>from_str\<close>: each value under its configuration text and its label.\<close>

definition selected_from_str :: "rtext \<Rightarrow> selected_text_hotkey option" where
  "selected_from_str value =
     find (\<lambda>h. value = selected_config_value h \<or> value = selected_short_label h) SELECTED_TEXT_HOTKEYS"

definition spec_of_undo_key :: "undo_key \<Rightarrow> hotkey_spec" where
  "spec_of_undo_key k = spec_new (modifiers_new False False False) (trigger_of_undo_key k)"

definition spec_of_selected :: "selected_text_hotkey \<Rightarrow> hotkey_spec" where
  "spec_of_selected h =
     spec_new (modifiers_new (uses_shift h) (uses_ctrl h) (uses_alt h)) (trigger_of_undo_key (trigger_key h))"

subsection \<open>Layout-switch combinations\<close>

datatype layout_switch_combo =
    CtrlShift | AltShift | CapsLock | CtrlSpace | SuperSpace
  | LeftCtrlLeftShift | RightCtrlRightShift | LeftAltLeftShift | RightAltRightShift

definition WHITELIST :: "layout_switch_combo list" where
  "WHITELIST =
     [CtrlShift, AltShift, CapsLock, CtrlSpace, SuperSpace, LeftCtrlLeftShift, RightCtrlRightShift,
      LeftAltLeftShift, RightAltRightShift]"

fun combo_config_value :: "layout_switch_combo \<Rightarrow> rtext" where
  "combo_config_value CtrlShift = lit ''CtrlShift''"
| "combo_config_value AltShift = lit ''AltShift''"
| "combo_config_value CapsLock = lit ''CapsLock''"
| "combo_config_value CtrlSpace = lit ''CtrlSpace''"
| "combo_config_value SuperSpace = lit ''SuperSpace''"
| "combo_config_value LeftCtrlLeftShift = lit ''LeftCtrlLeftShift''"
| "combo_config_value RightCtrlRightShift = lit ''RightCtrlRightShift''"
| "combo_config_value LeftAltLeftShift = lit ''LeftAltLeftShift''"
| "combo_config_value RightAltRightShift = lit ''RightAltRightShift''"

fun combo_short_label :: "layout_switch_combo \<Rightarrow> rtext" where
  "combo_short_label CtrlShift = lit ''Ctrl+Shift''"
| "combo_short_label AltShift = lit ''Alt+Shift''"
| "combo_short_label CapsLock = lit ''CapsLock''"
| "combo_short_label CtrlSpace = lit ''Ctrl+Space''"
| "combo_short_label SuperSpace = lit ''Super+Space''"
| "combo_short_label LeftCtrlLeftShift = lit ''Left Ctrl+Left Shift''"
| "combo_short_label RightCtrlRightShift = lit ''Right Ctrl+Right Shift''"
| "combo_short_label LeftAltLeftShift = lit ''Left Alt+Left Shift''"
| "combo_short_label RightAltRightShift = lit ''Right Alt+Right Shift''"

fun xkb_option :: "layout_switch_combo \<Rightarrow> rtext" where
  "xkb_option CtrlShift = lit ''grp:ctrl_shift_toggle''"
| "xkb_option AltShift = lit ''grp:alt_shift_toggle''"
| "xkb_option CapsLock = lit ''grp:caps_toggle''"
| "xkb_option CtrlSpace = lit ''grp:ctrl_space_toggle''"
| "xkb_option SuperSpace = lit ''grp:win_space_toggle''"
| "xkb_option LeftCtrlLeftShift = lit ''grp:lctrl_lshift_toggle''"
| "xkb_option RightCtrlRightShift = lit ''grp:rctrl_rshift_toggle''"
| "xkb_option LeftAltLeftShift = lit ''grp:lalt_lshift_toggle''"
| "xkb_option RightAltRightShift = lit ''grp:ralt_rshift_toggle''"

definition combo_from_str :: "rtext \<Rightarrow> layout_switch_combo option" where
  "combo_from_str value =
     find (\<lambda>c. value = combo_config_value c \<or> value = combo_short_label c) WHITELIST"

definition has_layout_switch_prefix_conflict :: "hotkey_spec \<Rightarrow> layout_switch_combo \<Rightarrow> bool" where
  "has_layout_switch_prefix_conflict spec combo =
     (if combo \<in> {CtrlShift, LeftCtrlLeftShift, RightCtrlRightShift}
      then hm_ctrl (hs_modifiers spec) \<and> hm_shift (hs_modifiers spec)
      else if combo \<in> {AltShift, LeftAltLeftShift, RightAltRightShift}
      then hm_alt (hs_modifiers spec) \<and> hm_shift (hs_modifiers spec)
      else False)"

subsection \<open>The parser's language\<close>

text \<open>The compact form of a hotkey: modifiers in the order shift, ctrl, alt, then the trigger.\<close>

definition compact_prefix :: "hotkey_modifiers \<Rightarrow> rtext" where
  "compact_prefix m =
     (if hm_shift m then lit ''shift'' else []) @ (if hm_ctrl m then lit ''ctrl'' else []) @
     (if hm_alt m then lit ''alt'' else [])"

definition compact_spec :: "hotkey_spec \<Rightarrow> rtext" where
  "compact_spec spec = compact_prefix (hs_modifiers spec) @ compact_alias (hs_trigger spec)"

lemma modifiers_cases:
  fixes m :: hotkey_modifiers
  obtains a b c where "m = modifiers_new a b c"
  by (cases m) (simp add: modifiers_new_def)

lemma from_compact_prefix_iff: "from_compact_prefix p = Some m \<longleftrightarrow> p = compact_prefix m"
proof -
  have a: "from_compact_prefix (compact_prefix (modifiers_new a b c)) = Some (modifiers_new a b c)" for a b c
    by (cases a; cases b; cases c) (simp_all add: from_compact_prefix_def compact_prefix_def modifiers_new_def lit_def)
  have "from_compact_prefix p = Some m \<Longrightarrow> p = compact_prefix m"
    by (auto simp: from_compact_prefix_def compact_prefix_def modifiers_new_def lit_def split: if_splits)
  moreover have "from_compact_prefix (compact_prefix m) = Some m"
    using a by (metis modifiers_cases)
  ultimately show ?thesis by auto
qed

text \<open>No alias is the end of another one, so that the order of the search does not matter.\<close>

lemma alias_suffix_free:
  assumes "p @ compact_alias t = q @ compact_alias u"
  shows "t = u"
proof -
  have "t = u" if "ends_with (compact_alias t) (compact_alias u)" for t u
    using that by (cases t; cases u) (simp_all add: ends_with_def lit_def)
  moreover have "ends_with (compact_alias t) (compact_alias u) \<or> ends_with (compact_alias u) (compact_alias t)"
    using assms unfolding ends_with_iff append_eq_append_conv2 by metis
  ultimately show ?thesis by auto
qed

lemma first_suffix_sound: "first_suffix ts value = Some (t, prefix) \<Longrightarrow> value = prefix @ compact_alias t"
  by (induction ts) (auto simp: strip_suffix_Some_iff split: option.splits)

lemma first_suffix_complete:
  "t \<in> set ts \<Longrightarrow> value = prefix @ compact_alias t \<Longrightarrow> first_suffix ts value = Some (t, prefix)"
proof (induction ts)
  case (Cons u ts)
  show ?case
  proof (cases "strip_suffix value (compact_alias u)")
    case (Some q)
    then have "value = q @ compact_alias u" by (simp add: strip_suffix_Some_iff)
    with Some Cons.prems alias_suffix_free [of prefix t q u] show ?thesis by auto
  next
    case None
    then have "t \<noteq> u" using Cons.prems by (auto simp: strip_suffix_None_iff)
    with None Cons show ?thesis by simp
  qed
qed simp

lemma from_compact_suffix_iff: "from_compact_suffix value = Some (t, prefix) \<longleftrightarrow> value = prefix @ compact_alias t"
proof -
  have "t \<in> set SUFFIX_ORDER" by (cases t) (simp_all add: SUFFIX_ORDER_def)
  then show ?thesis
    unfolding from_compact_suffix_def using first_suffix_sound first_suffix_complete by blast
qed

text \<open>
  What the hotkey parser accepts.  A text is parsed to a hotkey exactly when, in small letters
  and without surrounding white space and separators, it is the modifiers of that hotkey in the
  order shift, ctrl, alt followed by the name of its trigger; no text has two readings.
\<close>

theorem hotkey_parse_exact: "spec_from_str value = Inr spec \<longleftrightarrow> compact value = compact_spec spec"
proof -
  have "compact_alias t \<noteq> []" for t by (cases t) (simp_all add: lit_def)
  then have "compact value = compact_spec spec \<Longrightarrow> trim value \<noteq> []"
    by (auto simp: compact_spec_def compact_def)
  moreover have "(\<exists>t p m. from_compact_suffix (compact value) = Some (t, p) \<and> from_compact_prefix p = Some m \<and>
      spec = spec_new m t) \<longleftrightarrow> compact value = compact_spec spec"
    unfolding from_compact_suffix_iff from_compact_prefix_iff
    by (cases spec) (auto simp: compact_spec_def spec_new_def)
  ultimately show ?thesis
    by (auto simp: spec_from_str_def split: option.splits)
qed

lemma all_specs_cases:
  assumes "list_all (\<lambda>(m, t). P (spec_new m t))
    (List.product [modifiers_new a b c. a \<leftarrow> [False, True], b \<leftarrow> [False, True], c \<leftarrow> [False, True]]
       [F9, F10, F12, Pause, ScrollLock, Insert, Menu])"
  shows "P spec"
proof -
  obtain m t where spec: "spec = spec_new m t" by (cases spec) (simp add: spec_new_def)
  obtain a b c where m: "m = modifiers_new a b c" by (rule modifiers_cases)
  have "(m, t) \<in> set (List.product [modifiers_new a b c. a \<leftarrow> [False, True], b \<leftarrow> [False, True], c \<leftarrow> [False, True]]
       [F9, F10, F12, Pause, ScrollLock, Insert, Menu])"
    unfolding m set_product by (cases t; cases a; cases b; cases c) simp_all
  with assms spec show ?thesis unfolding list_all_iff by auto
qed

text \<open>
  C39: hotkeys survive the configuration file.  The canonical text of every hotkey is parsed back
  to it.  The label of a hotkey is parsed back exactly when it does not combine Shift with another
  modifier: labels put Shift last, where the parser does not look for it.
\<close>

theorem hotkey_roundtrip:
  "spec_from_str (spec_config_value spec) = Inr spec \<and>
   (spec_from_str (spec_short_label spec) = Inr spec \<longleftrightarrow>
      \<not> (hm_shift (hs_modifiers spec) \<and> (hm_ctrl (hs_modifiers spec) \<or> hm_alt (hs_modifiers spec))))"
  by (rule all_specs_cases) code_simp

text \<open>Combinations and the earlier hotkeys are parsed back from both of their texts.\<close>

lemma combo_roundtrip:
  "combo_from_str (combo_config_value c) = Some c" "combo_from_str (combo_short_label c) = Some c"
  by (induction c) code_simp+

lemma selected_roundtrip:
  "selected_from_str (selected_config_value h) = Some h" "selected_from_str (selected_short_label h) = Some h"
  by (induction h) code_simp+

lemma undo_key_roundtrip: "undo_key_from_str (undo_key_as_str k) = Some k"
  by (induction k) code_simp+

text \<open>The earlier hotkeys translate to specifications that their own texts also name.\<close>

lemma selected_spec_parse:
  "spec_from_str (selected_config_value h) = Inr (spec_of_selected h)"
  by (induction h) code_simp+

lemma conflicts_exact_iff: "conflicts_exact a b \<longleftrightarrow> a = b"
  by (cases a; cases b; cases "hs_modifiers a"; cases "hs_modifiers b") (auto simp: conflicts_exact_def)

end
