(* ===== verification/Settings_Model.thy ===== *)
theory Settings_Model
  imports Hotkeys
begin

unbundle bit_operations_syntax

text \<open>
  Settings, patches, the configuration and the service that keeps it: the second half of
  src/src/model.rs, src/src/config.rs and \<open>ConfigService\<close> of src/src/daemon/runtime.rs.

  The file on disk is a value of any type \<open>'f\<close>; the TOML library is a pair of parameters between it
  and the structure serde maps it to, and every system call may fail as a \<open>store_io\<close> value tells.
  \<open>RwLock\<close> poisoning is left out; each operation is one critical section.
\<close>

subsection \<open>Settings\<close>

definition LAYOUT_DELAY_MIN_MS :: u32 where "LAYOUT_DELAY_MIN_MS = 0"
definition LAYOUT_DELAY_MAX_MS :: u32 where "LAYOUT_DELAY_MAX_MS = 500"
definition INPUT_KEY_DELAY_MAX_MS :: u32 where "INPUT_KEY_DELAY_MAX_MS = 10"
definition MAX_CORRECTION_KEYSTROKES :: nat where "MAX_CORRECTION_KEYSTROKES = 128"
definition MAX_CORRECTION_EXTRA_BACKSPACES :: nat where "MAX_CORRECTION_EXTRA_BACKSPACES = 1"
definition MAX_CORRECTION_SCHEDULE_MS :: u64 where "MAX_CORRECTION_SCHEDULE_MS = 4000"
definition CORRECTION_MODIFIER_SYNC_MS :: u64 where "CORRECTION_MODIFIER_SYNC_MS = 20"
definition CORRECTION_KEY_TAP_MS :: u64 where "CORRECTION_KEY_TAP_MS = 2"
definition CORRECTION_SHIFT_SETTLE_MS :: u64 where "CORRECTION_SHIFT_SETTLE_MS = 1"

definition checked_mul :: "u64 \<Rightarrow> u64 \<Rightarrow> u64 option" where
  "checked_mul a b = (if unat a * unat b < 2 ^ 64 then Some (a * b) else None)"

definition u64_try_from :: "nat \<Rightarrow> u64 option" where
  "u64_try_from n = (if n < 2 ^ 64 then Some (of_nat n) else None)"

definition estimated_correction_schedule_ms ::
  "nat \<Rightarrow> nat \<Rightarrow> u64 \<Rightarrow> u64 \<Rightarrow> u64 \<Rightarrow> bool \<Rightarrow> u64 option" where
  "estimated_correction_schedule_ms strokes extra_backspaces layout_delay_ms backspace_ms typing_ms switch_layout =
     Option.bind (u64_try_from strokes) (\<lambda>strokes.
     Option.bind (u64_try_from extra_backspaces) (\<lambda>extra.
     Option.bind (checked_add strokes extra) (\<lambda>backspaces.
     Option.bind (checked_add CORRECTION_KEY_TAP_MS backspace_ms) (\<lambda>backspace_each.
     Option.bind (checked_mul backspaces backspace_each) (\<lambda>backspace_work.
     Option.bind (checked_add CORRECTION_KEY_TAP_MS CORRECTION_SHIFT_SETTLE_MS) (\<lambda>tap.
     Option.bind (checked_add tap typing_ms) (\<lambda>typing_each.
     Option.bind (checked_mul strokes typing_each) (\<lambda>typing_work.
     Option.bind (if switch_layout then checked_mul layout_delay_ms 2 else Some 0) (\<lambda>layout_work.
     Option.bind (checked_add CORRECTION_MODIFIER_SYNC_MS backspace_work) (\<lambda>sum.
     Option.bind (checked_add sum typing_work) (\<lambda>sum.
     checked_add sum layout_work)))))))))))"

definition hotkeys_conflict_exact :: "hotkey_spec \<Rightarrow> hotkey_spec \<Rightarrow> bool" where
  "hotkeys_conflict_exact left right = conflicts_exact left right"

definition validate_hotkey_conflicts :: "hotkey_spec \<Rightarrow> hotkey_spec \<Rightarrow> validation_error + unit" where
  "validate_hotkey_conflicts manual selected =
     (if hotkeys_conflict_exact manual selected then Inl (DuplicateHotkey (spec_config_value manual))
      else Inr ())"

datatype session_type = X11 | Wayland | UnknownSession
datatype desktop_environment = Cinnamon | Gnome | Xfce | Kde | UnknownDesktop
datatype distro_kind = LinuxMint | Ubuntu | Debian | UnknownDistro

record system_context =
  ctx_session_type :: session_type
  ctx_desktop_environment :: desktop_environment
  ctx_distro :: distro_kind

datatype layout_switch_source = UnknownSource | Manual | AutoDetected | AutoFallback

datatype detection_strategy =
    NoSupportedStrategy
  | XfceX11XfconfKeyboardLayout
  | XfceX11SetXkbmapQuery
  | CinnamonX11GSettingsXkbOptions
  | GnomeWaylandGSettingsWmKeybindings

datatype detection_confidence = Unsupported | Low | High

record auto_detected_layout_switch =
  ad_strategy :: detection_strategy
  ad_confidence :: detection_confidence
  ad_context :: system_context

definition auto_detected_default :: auto_detected_layout_switch where
  "auto_detected_default =
     \<lparr>ad_strategy = NoSupportedStrategy, ad_confidence = Unsupported,
      ad_context = \<lparr>ctx_session_type = UnknownSession, ctx_desktop_environment = UnknownDesktop,
        ctx_distro = UnknownDistro\<rparr>\<rparr>"

record layout_switch_setting =
  lss_combo :: layout_switch_combo
  lss_source :: layout_switch_source
  lss_auto_detected :: auto_detected_layout_switch

definition is_locked_by_auto_detection :: "layout_switch_setting \<Rightarrow> bool" where
  "is_locked_by_auto_detection s \<longleftrightarrow>
     lss_source s = AutoDetected \<and> ad_confidence (lss_auto_detected s) = High"

definition is_fallback_for_unsupported_context :: "layout_switch_setting \<Rightarrow> bool" where
  "is_fallback_for_unsupported_context s \<longleftrightarrow>
     lss_source s = AutoFallback \<and> ad_strategy (lss_auto_detected s) = NoSupportedStrategy \<and>
     ad_confidence (lss_auto_detected s) = Unsupported"

record settings =
  auto_switch_enabled :: bool
  fix_two_capitals :: bool
  fix_accidental_caps_lock :: bool
  layout_delay_ms :: u32
  manual_correction_hotkey :: hotkey_spec
  selected_text_hotkey :: hotkey_spec
  layout_switch :: layout_switch_setting

definition layout_switch_default :: layout_switch_setting where
  "layout_switch_default =
     \<lparr>lss_combo = CtrlShift, lss_source = UnknownSource, lss_auto_detected = auto_detected_default\<rparr>"

definition settings_default :: settings where
  "settings_default =
     \<lparr>auto_switch_enabled = True, fix_two_capitals = False, fix_accidental_caps_lock = False,
      layout_delay_ms = 30, manual_correction_hotkey = default_manual_correction_hotkey,
      selected_text_hotkey = default_selected_text_hotkey, layout_switch = layout_switch_default\<rparr>"

definition settings_validate :: "settings \<Rightarrow> validation_error + settings" where
  "settings_validate s =
     (if \<not> (LAYOUT_DELAY_MIN_MS \<le> layout_delay_ms s \<and> layout_delay_ms s \<le> LAYOUT_DELAY_MAX_MS)
      then Inl (LayoutDelayOutOfRange LAYOUT_DELAY_MIN_MS LAYOUT_DELAY_MAX_MS (layout_delay_ms s))
      else and_then (validate_hotkey_conflicts (manual_correction_hotkey s) (selected_text_hotkey s)) (\<lambda>_.
        Inr s))"

subsection \<open>Patches\<close>

type_synonym settings_field_mask = u16

definition AUTO_SWITCH_ENABLED :: settings_field_mask where "AUTO_SWITCH_ENABLED = push_bit 0 1"
definition FIX_TWO_CAPITALS :: settings_field_mask where "FIX_TWO_CAPITALS = push_bit 1 1"
definition FIX_ACCIDENTAL_CAPS_LOCK :: settings_field_mask where "FIX_ACCIDENTAL_CAPS_LOCK = push_bit 2 1"
definition LAYOUT_DELAY_MS :: settings_field_mask where "LAYOUT_DELAY_MS = push_bit 3 1"
definition MANUAL_CORRECTION_HOTKEY :: settings_field_mask where "MANUAL_CORRECTION_HOTKEY = push_bit 4 1"
definition SELECTED_TEXT_HOTKEY :: settings_field_mask where "SELECTED_TEXT_HOTKEY = push_bit 5 1"
definition LAYOUT_SWITCH :: settings_field_mask where "LAYOUT_SWITCH = push_bit 6 1"
definition ALL_BITS :: settings_field_mask where "ALL_BITS = push_bit 7 1 - 1"

definition mask_contains :: "settings_field_mask \<Rightarrow> settings_field_mask \<Rightarrow> bool" where
  "mask_contains m field \<longleftrightarrow> m AND field \<noteq> 0"

definition mask_insert :: "settings_field_mask \<Rightarrow> settings_field_mask \<Rightarrow> settings_field_mask" where
  "mask_insert m field = m OR field"

definition mask_validate :: "settings_field_mask \<Rightarrow> validation_error + settings_field_mask" where
  "mask_validate m =
     (let unknown = m AND NOT ALL_BITS in
      if unknown = 0 then Inr m else Inl (UnknownSettingsPatchFields unknown))"

record settings_patch =
  sp_changed :: settings_field_mask
  sp_values :: settings

definition patch_between :: "settings \<Rightarrow> settings \<Rightarrow> settings_patch" where
  "patch_between base desired =
     (let changed = 0;
          changed = (if auto_switch_enabled base \<noteq> auto_switch_enabled desired
                     then mask_insert changed AUTO_SWITCH_ENABLED else changed);
          changed = (if fix_two_capitals base \<noteq> fix_two_capitals desired
                     then mask_insert changed FIX_TWO_CAPITALS else changed);
          changed = (if fix_accidental_caps_lock base \<noteq> fix_accidental_caps_lock desired
                     then mask_insert changed FIX_ACCIDENTAL_CAPS_LOCK else changed);
          changed = (if layout_delay_ms base \<noteq> layout_delay_ms desired
                     then mask_insert changed LAYOUT_DELAY_MS else changed);
          changed = (if manual_correction_hotkey base \<noteq> manual_correction_hotkey desired
                     then mask_insert changed MANUAL_CORRECTION_HOTKEY else changed);
          changed = (if selected_text_hotkey base \<noteq> selected_text_hotkey desired
                     then mask_insert changed SELECTED_TEXT_HOTKEY else changed);
          changed = (if layout_switch base \<noteq> layout_switch desired
                     then mask_insert changed LAYOUT_SWITCH else changed)
      in \<lparr>sp_changed = changed, sp_values = desired\<rparr>)"

definition patch_all :: "settings \<Rightarrow> settings_patch" where
  "patch_all values = \<lparr>sp_changed = ALL_BITS, sp_values = values\<rparr>"

definition patch_merge :: "settings_patch \<Rightarrow> settings \<Rightarrow> settings" where
  "patch_merge p s =
     (let changed = mask_contains (sp_changed p); v = sp_values p;
          s = (if changed AUTO_SWITCH_ENABLED then s\<lparr>auto_switch_enabled := auto_switch_enabled v\<rparr> else s);
          s = (if changed FIX_TWO_CAPITALS then s\<lparr>fix_two_capitals := fix_two_capitals v\<rparr> else s);
          s = (if changed FIX_ACCIDENTAL_CAPS_LOCK
               then s\<lparr>fix_accidental_caps_lock := fix_accidental_caps_lock v\<rparr> else s);
          s = (if changed LAYOUT_DELAY_MS then s\<lparr>layout_delay_ms := layout_delay_ms v\<rparr> else s);
          s = (if changed MANUAL_CORRECTION_HOTKEY
               then s\<lparr>manual_correction_hotkey := manual_correction_hotkey v\<rparr> else s);
          s = (if changed SELECTED_TEXT_HOTKEY then s\<lparr>selected_text_hotkey := selected_text_hotkey v\<rparr> else s);
          s = (if changed LAYOUT_SWITCH then s\<lparr>layout_switch := layout_switch v\<rparr> else s)
      in s)"

definition apply_to :: "settings_patch \<Rightarrow> settings \<Rightarrow> validation_error + settings" where
  "apply_to p current = settings_validate (patch_merge p current)"

text \<open>A patch as it is sent: its fields are not validated, the mask is.\<close>

definition patch_try_from :: "settings_field_mask \<Rightarrow> settings \<Rightarrow> validation_error + settings_patch" where
  "patch_try_from changed values =
     and_then (mask_validate changed) (\<lambda>changed. Inr \<lparr>sp_changed = changed, sp_values = values\<rparr>)"

subsection \<open>Configuration\<close>

record layout_config =
  lc_switch_combo :: layout_switch_combo
  lc_switch_source :: layout_switch_source
  lc_auto_detected :: auto_detected_layout_switch
  lc_delay_ms :: u32

record delays_config =
  backspace_ms :: u32
  typing_ms :: u32

record features_config =
  fc_auto_switch_enabled :: bool
  fc_fix_two_capitals :: bool
  fc_fix_accidental_caps_lock :: bool
  fc_manual_correction_hotkey :: hotkey_spec
  fc_selected_text_switch_hotkey :: hotkey_spec

record app_config =
  cfg_layout :: layout_config
  cfg_delays :: delays_config
  cfg_features :: features_config

definition app_config_default :: app_config where
  "app_config_default =
     \<lparr>cfg_layout = \<lparr>lc_switch_combo = CtrlShift, lc_switch_source = UnknownSource,
        lc_auto_detected = auto_detected_default, lc_delay_ms = 30\<rparr>,
      cfg_delays = \<lparr>backspace_ms = 0, typing_ms = 0\<rparr>,
      cfg_features = \<lparr>fc_auto_switch_enabled = True, fc_fix_two_capitals = False,
        fc_fix_accidental_caps_lock = False,
        fc_manual_correction_hotkey = default_manual_correction_hotkey,
        fc_selected_text_switch_hotkey = default_selected_text_hotkey\<rparr>\<rparr>"

definition config_settings :: "app_config \<Rightarrow> settings" where
  "config_settings c =
     \<lparr>auto_switch_enabled = fc_auto_switch_enabled (cfg_features c),
      fix_two_capitals = fc_fix_two_capitals (cfg_features c),
      fix_accidental_caps_lock = fc_fix_accidental_caps_lock (cfg_features c),
      layout_delay_ms = lc_delay_ms (cfg_layout c),
      manual_correction_hotkey = fc_manual_correction_hotkey (cfg_features c),
      selected_text_hotkey = fc_selected_text_switch_hotkey (cfg_features c),
      layout_switch = \<lparr>lss_combo = lc_switch_combo (cfg_layout c),
        lss_source = lc_switch_source (cfg_layout c),
        lss_auto_detected = lc_auto_detected (cfg_layout c)\<rparr>\<rparr>"

definition apply_settings :: "app_config \<Rightarrow> settings \<Rightarrow> app_config" where
  "apply_settings c s =
     c\<lparr>cfg_features := (cfg_features c)\<lparr>fc_auto_switch_enabled := auto_switch_enabled s,
         fc_fix_two_capitals := fix_two_capitals s,
         fc_fix_accidental_caps_lock := fix_accidental_caps_lock s,
         fc_manual_correction_hotkey := manual_correction_hotkey s,
         fc_selected_text_switch_hotkey := selected_text_hotkey s\<rparr>,
       cfg_layout := (cfg_layout c)\<lparr>lc_delay_ms := layout_delay_ms s,
         lc_switch_combo := lss_combo (layout_switch s),
         lc_switch_source := lss_source (layout_switch s),
         lc_auto_detected := lss_auto_detected (layout_switch s)\<rparr>\<rparr>"

fun check_delays :: "(string \<times> u32) list \<Rightarrow> validation_error + unit" where
  "check_delays [] = Inr ()"
| "check_delays ((field, found) # rest) =
     (if found > INPUT_KEY_DELAY_MAX_MS then Inl (InputDelayOutOfRange field INPUT_KEY_DELAY_MAX_MS found)
      else check_delays rest)"

definition schedule_or_max :: "u64 option \<Rightarrow> u64" where
  "schedule_or_max found = (case found of None \<Rightarrow> - 1 | Some ms \<Rightarrow> ms)"

definition config_validate :: "app_config \<Rightarrow> validation_error + unit" where
  "config_validate c =
     and_then (settings_validate (config_settings c)) (\<lambda>_.
     and_then (check_delays [(''backspace_ms'', backspace_ms (cfg_delays c)),
        (''typing_ms'', typing_ms (cfg_delays c))]) (\<lambda>_.
     let found_ms = schedule_or_max (estimated_correction_schedule_ms MAX_CORRECTION_KEYSTROKES
           MAX_CORRECTION_EXTRA_BACKSPACES (ucast (lc_delay_ms (cfg_layout c)))
           (ucast (backspace_ms (cfg_delays c))) (ucast (typing_ms (cfg_delays c))) True)
     in if found_ms > MAX_CORRECTION_SCHEDULE_MS
        then Inl (InputCorrectionScheduleTooLong MAX_CORRECTION_SCHEDULE_MS found_ms)
        else Inr ()))"

text \<open>The structure of the file.  \<open>keys\<close> is the field of an earlier format.\<close>

record config_file =
  file_switch_combo :: "layout_switch_combo option"
  file_switch_source :: layout_switch_source
  file_auto_detected :: "auto_detected_layout_switch option"
  file_keys :: "rtext list option"
  file_delay_ms :: u32
  file_delays :: delays_config
  file_features :: features_config

definition file_of_config :: "app_config \<Rightarrow> config_file" where
  "file_of_config c =
     \<lparr>file_switch_combo = Some (lc_switch_combo (cfg_layout c)),
      file_switch_source = lc_switch_source (cfg_layout c),
      file_auto_detected =
        (if lc_switch_source (cfg_layout c) = AutoDetected \<or> lc_switch_source (cfg_layout c) = AutoFallback
         then Some (lc_auto_detected (cfg_layout c)) else None),
      file_keys = None, file_delay_ms = lc_delay_ms (cfg_layout c), file_delays = cfg_delays c,
      file_features = cfg_features c\<rparr>"

type_synonym io_error = string

datatype config_error =
    ConfigIo io_error
  | ConfigParse string
  | ConfigSerialize string
  | ConfigValidation validation_error
  | LegacyFormatUnsupported
  | MissingRequiredField string

definition config_of_file :: "config_file \<Rightarrow> config_error + app_config" where
  "config_of_file f =
     (if file_keys f \<noteq> None \<and> file_switch_combo f = None then Inl LegacyFormatUnsupported
      else case file_switch_combo f of
        None \<Rightarrow> Inl (MissingRequiredField ''layout.switch_combo'')
      | Some switch_combo \<Rightarrow>
          let config = \<lparr>cfg_layout = \<lparr>lc_switch_combo = switch_combo, lc_switch_source = file_switch_source f,
                lc_auto_detected = (case file_auto_detected f of None \<Rightarrow> auto_detected_default | Some a \<Rightarrow> a),
                lc_delay_ms = file_delay_ms f\<rparr>,
              cfg_delays = file_delays f, cfg_features = file_features f\<rparr>
          in case config_validate config of Inl e \<Rightarrow> Inl (ConfigValidation e) | Inr _ \<Rightarrow> Inr config)"

subsection \<open>Snapshots for the input loop\<close>

record runtime_config_snapshot =
  rcs_auto_switch_enabled :: bool
  rcs_fix_two_capitals :: bool
  rcs_fix_accidental_caps_lock :: bool
  rcs_layout_switch_combo :: layout_switch_combo
  rcs_layout_delay_ms :: u64
  rcs_backspace_ms :: u64
  rcs_typing_ms :: u64
  rcs_manual_correction_hotkey :: hotkey_spec
  rcs_selected_text_hotkey :: hotkey_spec

definition snapshot_of_config :: "app_config \<Rightarrow> runtime_config_snapshot" where
  "snapshot_of_config c =
     \<lparr>rcs_auto_switch_enabled = fc_auto_switch_enabled (cfg_features c),
      rcs_fix_two_capitals = fc_fix_two_capitals (cfg_features c),
      rcs_fix_accidental_caps_lock = fc_fix_accidental_caps_lock (cfg_features c),
      rcs_layout_switch_combo = lc_switch_combo (cfg_layout c),
      rcs_layout_delay_ms = ucast (lc_delay_ms (cfg_layout c)),
      rcs_backspace_ms = ucast (backspace_ms (cfg_delays c)),
      rcs_typing_ms = ucast (typing_ms (cfg_delays c)),
      rcs_manual_correction_hotkey = fc_manual_correction_hotkey (cfg_features c),
      rcs_selected_text_hotkey = fc_selected_text_switch_hotkey (cfg_features c)\<rparr>"

text \<open>The duration is in milliseconds.\<close>

definition estimated_correction_schedule ::
  "runtime_config_snapshot \<Rightarrow> nat \<Rightarrow> nat \<Rightarrow> bool \<Rightarrow> validation_error + u64" where
  "estimated_correction_schedule s strokes extra switch_layout =
     (if strokes > MAX_CORRECTION_KEYSTROKES \<or> extra > MAX_CORRECTION_EXTRA_BACKSPACES
      then Inl (InputCorrectionPlanTooLarge MAX_CORRECTION_KEYSTROKES MAX_CORRECTION_EXTRA_BACKSPACES
             strokes extra)
      else
        let found_ms = schedule_or_max (estimated_correction_schedule_ms strokes extra
              (rcs_layout_delay_ms s) (rcs_backspace_ms s) (rcs_typing_ms s) switch_layout)
        in if found_ms > MAX_CORRECTION_SCHEDULE_MS
           then Inl (InputCorrectionScheduleTooLong MAX_CORRECTION_SCHEDULE_MS found_ms)
           else Inr found_ms)"

subsection \<open>The configuration service\<close>

datatype commit_outcome = Durable | CommittedDurabilityUncertain io_error

text \<open>How the system calls of one replacement of the file end; \<open>None\<close> is success.\<close>

record store_io =
  io_create_dir :: "io_error option"
  io_create_temporary :: "io_error option"
  io_write :: "io_error option"
  io_sync :: "io_error option"
  io_persist :: "io_error option"
  io_sync_parent :: "io_error option"

definition io_result :: "io_error option \<Rightarrow> io_error + unit" where
  "io_result call = (case call of None \<Rightarrow> Inr () | Some e \<Rightarrow> Inl e)"

text \<open>The temporary file is a file of its own until it is renamed, and is removed when that fails.\<close>

definition atomic_replace_with_parent_sync ::
  "store_io \<Rightarrow> 'f \<Rightarrow> 'f option \<Rightarrow> (io_error + commit_outcome) \<times> 'f option" where
  "atomic_replace_with_parent_sync io content disk =
     check (io_result (io_create_temporary io)) disk (\<lambda>_.
     check (io_result (io_write io)) disk (\<lambda>_.
     check (io_result (io_sync io)) disk (\<lambda>_.
     check (io_result (io_persist io)) disk (\<lambda>_.
     case io_sync_parent io of
       None \<Rightarrow> (Inr Durable, Some content)
     | Some e \<Rightarrow> (Inr (CommittedDurabilityUncertain e), Some content)))))"

type_synonym 'f serializer = "config_file \<Rightarrow> string + 'f"
type_synonym 'f parser = "'f \<Rightarrow> string + config_file"

definition save_to_path ::
  "'f serializer \<Rightarrow> app_config \<Rightarrow> store_io \<Rightarrow> 'f option \<Rightarrow> (config_error + commit_outcome) \<times> 'f option" where
  "save_to_path to_toml c io disk =
     check (map_err ConfigValidation (config_validate c)) disk (\<lambda>_.
     check (map_err ConfigSerialize (to_toml (file_of_config c))) disk (\<lambda>content.
     check (map_err ConfigIo (io_result (io_create_dir io))) disk (\<lambda>_.
     case atomic_replace_with_parent_sync io content disk of
       (replaced, disk) \<Rightarrow> (map_err ConfigIo replaced, disk))))"

definition load_or_create ::
  "'f serializer \<Rightarrow> 'f parser \<Rightarrow> store_io \<Rightarrow> io_error option \<Rightarrow> 'f option \<Rightarrow> (config_error + app_config) \<times> 'f option" where
  "load_or_create to_toml of_toml io read_to_string disk =
     (case disk of
        None \<Rightarrow>
          (case save_to_path to_toml app_config_default io disk of
             (Inl e, disk) \<Rightarrow> (Inl e, disk)
           | (Inr outcome, disk) \<Rightarrow> (Inr app_config_default, disk))
      | Some content \<Rightarrow>
          check (map_err ConfigIo (io_result read_to_string)) disk (\<lambda>_.
          check (map_err ConfigParse (of_toml content)) disk (\<lambda>file. (config_of_file file, disk))))"

datatype settings_error =
    SettingsValidation validation_error
  | SaveFailed config_error

record 'f config_service =
  svc_config :: app_config
  svc_file :: "'f option"

record settings_update =
  up_durability_uncertain :: bool
  up_settings :: settings
  up_committed_snapshot :: "runtime_config_snapshot option"

definition update_settings_patch ::
  "'f serializer \<Rightarrow> 'f config_service \<Rightarrow> settings_patch \<Rightarrow> store_io \<Rightarrow>
   (settings_error + settings_update) \<times> 'f config_service" where
  "update_settings_patch to_toml service patch io =
     (let current = config_settings (svc_config service) in
      check (map_err SettingsValidation (apply_to patch current)) service (\<lambda>merged.
      if merged = current
      then (Inr \<lparr>up_durability_uncertain = False, up_settings = current, up_committed_snapshot = None\<rparr>, service)
      else
        let updated = apply_settings (svc_config service) merged in
        case save_to_path to_toml updated io (svc_file service) of
          (Inl e, disk) \<Rightarrow> (Inl (SaveFailed e), service\<lparr>svc_file := disk\<rparr>)
        | (Inr outcome, disk) \<Rightarrow>
            (Inr \<lparr>up_durability_uncertain = (outcome \<noteq> Durable), up_settings = merged,
               up_committed_snapshot = Some (snapshot_of_config updated)\<rparr>,
             service\<lparr>svc_config := updated, svc_file := disk\<rparr>)))"

definition config_service_save ::
  "'f serializer \<Rightarrow> 'f config_service \<Rightarrow> store_io \<Rightarrow> (config_error + unit) \<times> 'f config_service" where
  "config_service_save to_toml service io =
     (case save_to_path to_toml (svc_config service) io (svc_file service) of
        (Inl e, disk) \<Rightarrow> (Inl e, service\<lparr>svc_file := disk\<rparr>)
      | (Inr outcome, disk) \<Rightarrow> (Inr (), service\<lparr>svc_file := disk\<rparr>))"

definition should_detect_layout_switch :: "app_config \<Rightarrow> bool" where
  "should_detect_layout_switch c \<longleftrightarrow> lc_switch_source (cfg_layout c) \<noteq> Manual"

definition should_redetect_layout_switch_after_context_upgrade :: "app_config \<Rightarrow> bool" where
  "should_redetect_layout_switch_after_context_upgrade c \<longleftrightarrow>
     lc_switch_source (cfg_layout c) \<in> {AutoDetected, AutoFallback}"

definition should_redetect_layout_switch_after_setup_recovery :: "app_config \<Rightarrow> bool" where
  "should_redetect_layout_switch_after_setup_recovery c \<longleftrightarrow> lc_switch_source (cfg_layout c) = AutoFallback"

definition runtime_layout_switch_redetect_would_downgrade ::
  "layout_switch_setting \<Rightarrow> layout_switch_setting \<Rightarrow> bool" where
  "runtime_layout_switch_redetect_would_downgrade current detected \<longleftrightarrow>
     is_locked_by_auto_detection current \<and> lss_source detected = AutoFallback \<and>
     ad_confidence (lss_auto_detected detected) \<noteq> High"

definition apply_detected_layout_switch_if_changed ::
  "app_config \<Rightarrow> layout_switch_setting \<Rightarrow> bool \<times> app_config" where
  "apply_detected_layout_switch_if_changed c detected =
     (if layout_switch (config_settings c) = detected then (False, c)
      else (True, c\<lparr>cfg_layout := (cfg_layout c)\<lparr>lc_switch_combo := lss_combo detected,
              lc_switch_source := lss_source detected, lc_auto_detected := lss_auto_detected detected\<rparr>\<rparr>))"

text \<open>
  Loading: \<open>detected\<close> is what the detector finds; \<open>create\<close> and \<open>save\<close> tell how the two possible writes
  end, \<open>read_to_string\<close> how reading does.
\<close>

definition load_with_context_and_detector ::
  "'f serializer \<Rightarrow> 'f parser \<Rightarrow> layout_switch_setting \<Rightarrow> store_io \<Rightarrow> io_error option \<Rightarrow> store_io \<Rightarrow> 'f option \<Rightarrow>
   (config_error + 'f config_service) \<times> 'f option" where
  "load_with_context_and_detector to_toml of_toml detected create read_to_string save disk =
     (case load_or_create to_toml of_toml create read_to_string disk of
        (Inl e, disk) \<Rightarrow> (Inl e, disk)
      | (Inr config, disk) \<Rightarrow>
          if should_detect_layout_switch config
          then case apply_detected_layout_switch_if_changed config detected of
              (False, config) \<Rightarrow> (Inr \<lparr>svc_config = config, svc_file = disk\<rparr>, disk)
            | (True, config) \<Rightarrow>
                (case save_to_path to_toml config save disk of
                   (Inl e, disk) \<Rightarrow> (Inl e, disk)
                 | (Inr outcome, disk) \<Rightarrow> (Inr \<lparr>svc_config = config, svc_file = disk\<rparr>, disk))
          else (Inr \<lparr>svc_config = config, svc_file = disk\<rparr>, disk))"

definition apply_detected_layout_switch_runtime ::
  "'f config_service \<Rightarrow> layout_switch_setting \<Rightarrow> runtime_config_snapshot option \<times> 'f config_service" where
  "apply_detected_layout_switch_runtime service detected =
     (if \<not> should_redetect_layout_switch_after_context_upgrade (svc_config service) then (None, service)
      else if runtime_layout_switch_redetect_would_downgrade
        (layout_switch (config_settings (svc_config service))) detected
      then (None, service)
      else case apply_detected_layout_switch_if_changed (svc_config service) detected of
          (False, config) \<Rightarrow> (None, service\<lparr>svc_config := config\<rparr>)
        | (True, config) \<Rightarrow> (Some (snapshot_of_config config), service\<lparr>svc_config := config\<rparr>))"

end
