(* ===== verification/Settings_Properties.thy ===== *)
theory Settings_Properties
  imports Settings_Model
begin

unbundle bit_operations_syntax

text \<open>
  Properties of settings, patches, the configuration file and the configuration service.
\<close>

subsection \<open>Field masks\<close>

lemmas field_masks = AUTO_SWITCH_ENABLED_def FIX_TWO_CAPITALS_def FIX_ACCIDENTAL_CAPS_LOCK_def
  LAYOUT_DELAY_MS_def MANUAL_CORRECTION_HOTKEY_def SELECTED_TEXT_HOTKEY_def LAYOUT_SWITCH_def

lemma mask_contains_bit: "mask_contains m (push_bit i 1) \<longleftrightarrow> bit m i"
  by (simp add: mask_contains_def bit_iff_and_push_bit_not_eq_0)

lemma mask_insert_bit: "bit (mask_insert m (push_bit i 1)) j \<longleftrightarrow> bit m j \<or> i = j \<and> j < 16"
  by (auto simp: mask_insert_def bit_or_iff bit_push_bit_iff bit_1_iff simp del: push_bit_of_1)

lemma patch_merge_fields:
  "auto_switch_enabled (patch_merge p s) = (if bit (sp_changed p) 0 then auto_switch_enabled (sp_values p) else auto_switch_enabled s)"
  "fix_two_capitals (patch_merge p s) = (if bit (sp_changed p) 1 then fix_two_capitals (sp_values p) else fix_two_capitals s)"
  "fix_accidental_caps_lock (patch_merge p s) = (if bit (sp_changed p) 2 then fix_accidental_caps_lock (sp_values p) else fix_accidental_caps_lock s)"
  "layout_delay_ms (patch_merge p s) = (if bit (sp_changed p) 3 then layout_delay_ms (sp_values p) else layout_delay_ms s)"
  "manual_correction_hotkey (patch_merge p s) = (if bit (sp_changed p) 4 then manual_correction_hotkey (sp_values p) else manual_correction_hotkey s)"
  "selected_text_hotkey (patch_merge p s) = (if bit (sp_changed p) 5 then selected_text_hotkey (sp_values p) else selected_text_hotkey s)"
  "layout_switch (patch_merge p s) = (if bit (sp_changed p) 6 then layout_switch (sp_values p) else layout_switch s)"
  unfolding patch_merge_def Let_def field_masks mask_contains_bit by simp_all

lemma patch_between_bits:
  "bit (sp_changed (patch_between base desired)) i \<longleftrightarrow>
     i = 0 \<and> auto_switch_enabled base \<noteq> auto_switch_enabled desired \<or>
     i = 1 \<and> fix_two_capitals base \<noteq> fix_two_capitals desired \<or>
     i = 2 \<and> fix_accidental_caps_lock base \<noteq> fix_accidental_caps_lock desired \<or>
     i = 3 \<and> layout_delay_ms base \<noteq> layout_delay_ms desired \<or>
     i = 4 \<and> manual_correction_hotkey base \<noteq> manual_correction_hotkey desired \<or>
     i = 5 \<and> selected_text_hotkey base \<noteq> selected_text_hotkey desired \<or>
     i = 6 \<and> layout_switch base \<noteq> layout_switch desired"
proof -
  have step: "bit (if c then mask_insert m (push_bit k 1) else m) i \<longleftrightarrow> bit m i \<or> c \<and> k = i \<and> i < 16" for c m k
    by (simp add: mask_insert_bit del: push_bit_of_1)
  show ?thesis
    unfolding patch_between_def Let_def field_masks settings_patch.simps step by (simp cong: conj_cong) blast
qed

lemma patch_between_values: "sp_values (patch_between base desired) = desired"
  by (simp add: patch_between_def Let_def)

lemma patch_between_mask_known: "mask_validate (sp_changed (patch_between base desired)) = Inr (sp_changed (patch_between base desired))"
proof -
  have "bit (sp_changed (patch_between base desired)) i \<Longrightarrow> bit ALL_BITS i" for i
    by (auto simp: patch_between_bits ALL_BITS_def bit_simps)
  then have "sp_changed (patch_between base desired) AND NOT ALL_BITS = 0"
    by (intro bit_eqI) (auto simp: bit_and_iff bit_not_iff)
  then show ?thesis by (simp add: mask_validate_def)
qed

text \<open>
  Concurrent edits are merged field by field.  A patch made between two settings changes, in
  any settings it is merged into later, exactly the fields in which the two differ, to the desired
  values, and its mask has no unknown fields; applied to its own base it gives the desired settings
  or their validation error.
\<close>

theorem patch_merges_fields:
  "let patch = patch_between base desired; merged = patch_merge patch current in
     auto_switch_enabled merged = (if auto_switch_enabled base = auto_switch_enabled desired
       then auto_switch_enabled current else auto_switch_enabled desired) \<and>
     fix_two_capitals merged = (if fix_two_capitals base = fix_two_capitals desired
       then fix_two_capitals current else fix_two_capitals desired) \<and>
     fix_accidental_caps_lock merged = (if fix_accidental_caps_lock base = fix_accidental_caps_lock desired
       then fix_accidental_caps_lock current else fix_accidental_caps_lock desired) \<and>
     layout_delay_ms merged = (if layout_delay_ms base = layout_delay_ms desired
       then layout_delay_ms current else layout_delay_ms desired) \<and>
     manual_correction_hotkey merged = (if manual_correction_hotkey base = manual_correction_hotkey desired
       then manual_correction_hotkey current else manual_correction_hotkey desired) \<and>
     selected_text_hotkey merged = (if selected_text_hotkey base = selected_text_hotkey desired
       then selected_text_hotkey current else selected_text_hotkey desired) \<and>
     layout_switch merged = (if layout_switch base = layout_switch desired
       then layout_switch current else layout_switch desired) \<and>
     mask_validate (sp_changed patch) = Inr (sp_changed patch) \<and>
     apply_to patch base = settings_validate desired"
proof -
  have "patch_merge (patch_between base desired) base = desired"
    by (rule settings.equality) (simp_all add: patch_merge_fields patch_between_bits patch_between_values)
  then have "apply_to (patch_between base desired) base = settings_validate desired"
    by (simp only: apply_to_def)
  then show ?thesis
    unfolding Let_def patch_merge_fields patch_between_bits patch_between_values
    using patch_between_mask_known by (intro conjI) simp_all
qed

subsection \<open>The correction schedule\<close>

text \<open>The estimate as a number: synchronization, backspaces, typing, and two layout delays.\<close>

definition schedule_ms :: "nat \<Rightarrow> nat \<Rightarrow> nat \<Rightarrow> nat \<Rightarrow> nat \<Rightarrow> bool \<Rightarrow> nat" where
  "schedule_ms strokes extra delay backspace typing switch_layout =
     20 + (strokes + extra) * (2 + backspace) + strokes * (3 + typing) + (if switch_layout then 2 * delay else 0)"

lemma checked_add_fits: "unat a + unat b < 2 ^ 64 \<Longrightarrow> \<exists>c. checked_add (a :: u64) b = Some c \<and> unat c = unat a + unat b"
  by (simp add: checked_add_def unat_word_ariths)

lemma checked_mul_fits: "unat a * unat b < 2 ^ 64 \<Longrightarrow> \<exists>c. checked_mul a b = Some c \<and> unat c = unat a * unat b"
  by (simp add: checked_mul_def unat_word_ariths)

lemma u64_try_from_fits: "n < 2 ^ 64 \<Longrightarrow> \<exists>c. u64_try_from n = Some c \<and> unat c = n"
  by (simp add: u64_try_from_def unat_of_nat_u64)

lemma schedule_exact:
  assumes "strokes < 2 ^ 16" and "extra < 2 ^ 16" and "unat delay < 2 ^ 32" and "unat backspace < 2 ^ 32"
    and "unat typing < 2 ^ 32"
  shows "\<exists>ms. estimated_correction_schedule_ms strokes extra delay backspace typing switch_layout = Some ms \<and>
    unat ms = schedule_ms strokes extra (unat delay) (unat backspace) (unat typing) switch_layout"
proof -
  obtain s where s: "u64_try_from strokes = Some s" "unat s = strokes"
    using u64_try_from_fits [of strokes] assms(1) by auto
  obtain x where x: "u64_try_from extra = Some x" "unat x = extra"
    using u64_try_from_fits [of extra] assms(2) by auto
  obtain b where b: "checked_add s x = Some b" "unat b = strokes + extra"
    using checked_add_fits [of s x] s x assms by auto
  obtain be where be: "checked_add CORRECTION_KEY_TAP_MS backspace = Some be" "unat be = 2 + unat backspace"
    using checked_add_fits [of 2 backspace] assms by (auto simp: CORRECTION_KEY_TAP_MS_def)
  have "(strokes + extra) * (2 + unat backspace) \<le> 2 ^ 17 * 2 ^ 33"
    by (rule mult_le_mono) (use assms in simp_all)
  then have bw_bound: "(strokes + extra) * (2 + unat backspace) \<le> 2 ^ 50" by simp
  obtain bw where bw: "checked_mul b be = Some bw" "unat bw = (strokes + extra) * (2 + unat backspace)"
    using checked_mul_fits [of b be] b be bw_bound by auto
  have tap: "checked_add CORRECTION_KEY_TAP_MS CORRECTION_SHIFT_SETTLE_MS = Some 3"
    by (simp add: checked_add_def CORRECTION_KEY_TAP_MS_def CORRECTION_SHIFT_SETTLE_MS_def)
  obtain te where te: "checked_add 3 typing = Some te" "unat te = 3 + unat typing"
    using checked_add_fits [of 3 typing] assms by auto
  have "strokes * (3 + unat typing) \<le> 2 ^ 16 * 2 ^ 33"
    by (rule mult_le_mono) (use assms in simp_all)
  then have tw_bound: "strokes * (3 + unat typing) \<le> 2 ^ 49" by simp
  obtain tw where tw: "checked_mul s te = Some tw" "unat tw = strokes * (3 + unat typing)"
    using checked_mul_fits [of s te] s te tw_bound by auto
  obtain lw where lw: "(if switch_layout then checked_mul delay 2 else Some 0) = Some lw"
    "unat lw = (if switch_layout then 2 * unat delay else 0)"
    using checked_mul_fits [of delay 2] assms by (cases switch_layout) auto
  have small: "unat bw \<le> 2 ^ 50" "unat tw \<le> 2 ^ 49" "unat lw \<le> 2 ^ 33"
    using bw(2) bw_bound tw(2) tw_bound lw(2) assms(3) by simp_all
  obtain s1 where s1: "checked_add CORRECTION_MODIFIER_SYNC_MS bw = Some s1" "unat s1 = 20 + unat bw"
    using checked_add_fits [of 20 bw] small by (auto simp: CORRECTION_MODIFIER_SYNC_MS_def)
  obtain s2 where s2: "checked_add s1 tw = Some s2" "unat s2 = unat s1 + unat tw"
    using checked_add_fits [of s1 tw] s1 small by auto
  obtain s3 where s3: "checked_add s2 lw = Some s3" "unat s3 = unat s2 + unat lw"
    using checked_add_fits [of s2 lw] s1 s2 small by auto
  show ?thesis
    unfolding estimated_correction_schedule_ms_def
    using s x b be bw tap te tw lw s1 s2 s3 by (simp add: schedule_ms_def)
qed

lemma schedule_ms_mono:
  assumes "strokes \<le> strokes'" and "extra \<le> extra'"
  shows "schedule_ms strokes extra d b t sw \<le> schedule_ms strokes' extra' d b t True"
proof -
  have "(strokes + extra) * (2 + b) \<le> (strokes' + extra') * (2 + b)" "strokes * (3 + t) \<le> strokes' * (3 + t)"
    using assms by (simp_all add: mult_le_mono1 add_mono)
  then show ?thesis unfolding schedule_ms_def by (intro add_mono) simp_all
qed

lemma unat_ucast_delay: "unat (ucast (x :: u32) :: u64) = unat x" "unat (x :: u32) < 4294967296"
proof -
  have "unat x < 2 ^ LENGTH(32)" by (rule unsigned_less)
  then show "unat (ucast (x :: u32) :: u64) = unat x" "unat x < 4294967296"
    by (simp_all add: unsigned_ucast_eq take_bit_nat_eq_self)
qed

lemma valid_config_schedule:
  assumes "config_validate c = Inr ()"
  shows "schedule_ms 128 1 (unat (lc_delay_ms (cfg_layout c))) (unat (backspace_ms (cfg_delays c)))
    (unat (typing_ms (cfg_delays c))) True \<le> 4000"
proof -
  let ?d = "ucast (lc_delay_ms (cfg_layout c)) :: u64"
  let ?b = "ucast (backspace_ms (cfg_delays c)) :: u64"
  let ?t = "ucast (typing_ms (cfg_delays c)) :: u64"
  obtain ms where ms: "estimated_correction_schedule_ms MAX_CORRECTION_KEYSTROKES MAX_CORRECTION_EXTRA_BACKSPACES
      ?d ?b ?t True = Some ms" "unat ms = schedule_ms 128 1 (unat ?d) (unat ?b) (unat ?t) True"
    using schedule_exact [of 128 1 ?d ?b ?t True]
    by (auto simp: MAX_CORRECTION_KEYSTROKES_def MAX_CORRECTION_EXTRA_BACKSPACES_def unat_ucast_delay)
  have "ms \<le> 4000"
    using assms ms(1) by (auto simp: config_validate_def schedule_or_max_def MAX_CORRECTION_SCHEDULE_MS_def Let_def
        split: if_splits)
  then have "unat ms \<le> 4000" by (simp add: word_le_nat_alt)
  with ms(2) show ?thesis by (simp add: unat_ucast_delay)
qed

lemma valid_config_every_plan:
  assumes valid: "config_validate c = Inr ()" and "strokes \<le> 128" and "extra \<le> 1"
  shows "\<exists>ms. estimated_correction_schedule (snapshot_of_config c) strokes extra switch_layout = Inr ms \<and>
    unat ms = schedule_ms strokes extra (unat (lc_delay_ms (cfg_layout c))) (unat (backspace_ms (cfg_delays c)))
      (unat (typing_ms (cfg_delays c))) switch_layout \<and> ms \<le> 4000"
proof -
  let ?d = "ucast (lc_delay_ms (cfg_layout c)) :: u64"
  let ?b = "ucast (backspace_ms (cfg_delays c)) :: u64"
  let ?t = "ucast (typing_ms (cfg_delays c)) :: u64"
  obtain ms where ms: "estimated_correction_schedule_ms strokes extra ?d ?b ?t switch_layout = Some ms"
    "unat ms = schedule_ms strokes extra (unat ?d) (unat ?b) (unat ?t) switch_layout"
    using schedule_exact [of strokes extra ?d ?b ?t switch_layout] assms by (auto simp: unat_ucast_delay)
  have "unat ms \<le> 4000"
    using ms(2) order_trans [OF schedule_ms_mono [OF assms(2,3)] valid_config_schedule [OF valid]]
    by (simp add: unat_ucast_delay)
  then have "ms \<le> 4000" by (simp add: word_le_nat_alt)
  with ms assms show ?thesis
    by (simp add: estimated_correction_schedule_def snapshot_of_config_def schedule_or_max_def Let_def
        MAX_CORRECTION_KEYSTROKES_def MAX_CORRECTION_EXTRA_BACKSPACES_def MAX_CORRECTION_SCHEDULE_MS_def
        unat_ucast_delay)
qed

subsection \<open>The configuration service\<close>

datatype service_call =
    UpdateSettings settings_patch store_io
  | SaveSettings store_io
  | Redetected layout_switch_setting

fun service_step :: "'f serializer \<Rightarrow> 'f config_service \<Rightarrow> service_call \<Rightarrow> 'f config_service" where
  "service_step to_toml s (UpdateSettings patch io) = snd (update_settings_patch to_toml s patch io)"
| "service_step to_toml s (SaveSettings io) = snd (config_service_save to_toml s io)"
| "service_step to_toml s (Redetected detected) = snd (apply_detected_layout_switch_runtime s detected)"

definition config_valid :: "app_config \<Rightarrow> bool" where
  "config_valid c \<longleftrightarrow> config_validate c = Inr ()"

lemma detected_config_valid:
  "config_valid (snd (apply_detected_layout_switch_if_changed c detected)) = config_valid c"
  by (simp add: apply_detected_layout_switch_if_changed_def config_valid_def config_validate_def
      config_settings_def settings_validate_def validate_hotkey_conflicts_def)

text \<open>A replacement of the file happens completely or not at all, and an error means it did not happen.\<close>

lemma io_result_Inr [simp]: "io_result call = Inr u \<longleftrightarrow> call = None"
  by (simp add: io_result_def split: option.splits)

lemma atomic_replace_cases:
  "atomic_replace_with_parent_sync io content disk = (r, disk') \<Longrightarrow>
     (case r of Inl e \<Rightarrow> disk' = disk | Inr outcome \<Rightarrow> disk' = Some content)"
  by (auto simp: atomic_replace_with_parent_sync_def io_result_def split: option.splits)

lemma save_to_path_cases:
  assumes "save_to_path to_toml c io disk = (r, disk')"
  shows "case r of
     Inl e \<Rightarrow> disk' = disk
   | Inr outcome \<Rightarrow> config_valid c \<and> (\<exists>content. to_toml (file_of_config c) = Inr content \<and> disk' = Some content)"
proof -
  show ?thesis
  proof (cases "to_toml (file_of_config c)")
    case (Inl e)
    with assms show ?thesis by (cases "config_validate c") (auto simp: save_to_path_def)
  next
    case (Inr content)
    obtain replaced d where replaced: "atomic_replace_with_parent_sync io content disk = (replaced, d)" by fastforce
    from assms Inr replaced atomic_replace_cases [OF replaced] show ?thesis
      by (cases "config_validate c"; cases "io_create_dir io"; cases replaced)
        (auto simp: save_to_path_def io_result_def config_valid_def)
  qed
qed

lemma update_settings_patch_cases:
  assumes "update_settings_patch to_toml s patch io = (r, s')"
  shows "case r of
     Inl e \<Rightarrow> s' = s
   | Inr update \<Rightarrow> apply_to patch (config_settings (svc_config s)) = Inr (up_settings update) \<and>
       (if up_settings update = config_settings (svc_config s)
        then s' = s \<and> up_committed_snapshot update = None
        else svc_config s' = apply_settings (svc_config s) (up_settings update) \<and> config_valid (svc_config s') \<and>
          up_committed_snapshot update = Some (snapshot_of_config (svc_config s')) \<and>
          (\<exists>content. to_toml (file_of_config (svc_config s')) = Inr content \<and> svc_file s' = Some content))"
proof (cases "apply_to patch (config_settings (svc_config s))")
  case (Inl e)
  with assms show ?thesis by (auto simp: update_settings_patch_def Let_def)
next
  case (Inr merged)
  obtain saved disk where saved: "save_to_path to_toml (apply_settings (svc_config s) merged) io (svc_file s) = (saved, disk)"
    by fastforce
  from assms Inr saved save_to_path_cases [OF saved] show ?thesis
    by (cases saved) (auto simp: update_settings_patch_def Let_def split: if_splits)
qed

lemma config_service_save_cases:
  assumes "config_service_save to_toml s io = (r, s')"
  shows "svc_config s' = svc_config s \<and>
     (case r of Inl e \<Rightarrow> s' = s
      | Inr _ \<Rightarrow> config_valid (svc_config s) \<and>
          (\<exists>content. to_toml (file_of_config (svc_config s)) = Inr content \<and> svc_file s' = Some content))"
  using assms save_to_path_cases [of to_toml "svc_config s" io "svc_file s"]
  by (auto simp: config_service_save_def split: prod.splits sum.splits)

lemma redetected_cases:
  assumes "apply_detected_layout_switch_runtime s detected = (r, s')"
  shows "s' = s \<or> s' = s\<lparr>svc_config := snd (apply_detected_layout_switch_if_changed (svc_config s) detected)\<rparr>"
  using assms by (auto simp: apply_detected_layout_switch_runtime_def split: prod.splits bool.splits if_splits)

lemma service_step_valid: "config_valid (svc_config s) \<Longrightarrow> config_valid (svc_config (service_step to_toml s call))"
proof (induction call)
  case (UpdateSettings patch io)
  obtain r s' where r: "update_settings_patch to_toml s patch io = (r, s')" by fastforce
  with UpdateSettings update_settings_patch_cases [OF r] show ?case by (auto split: sum.splits if_splits)
next
  case (SaveSettings io)
  obtain r s' where r: "config_service_save to_toml s io = (r, s')" by fastforce
  with SaveSettings config_service_save_cases [OF r] show ?case by simp
next
  case (Redetected detected)
  obtain r s' where r: "apply_detected_layout_switch_runtime s detected = (r, s')" by fastforce
  with Redetected redetected_cases [OF r] show ?case by (auto simp: detected_config_valid)
qed

interpretation config_service: step_invariant "service_step to_toml" "\<lambda>s. config_valid (svc_config s)" for to_toml
  by unfold_locales (rule service_step_valid)

text \<open>
  C20: a configured daemon can always correct.  Start from a configuration that validates and update
  it with any patches (also refused ones and ones whose file could not be written) and any detected
  layout switches.  For the snapshot of every configuration reached, every plan of up to 128 strokes
  and one extra backspace is accepted, with exactly the estimated duration, which is at most four
  seconds.
\<close>

theorem service_schedules_every_plan:
  assumes valid: "config_validate (svc_config s0) = Inr ()" and "strokes \<le> 128" and "extra \<le> 1"
  shows "let c = svc_config (foldl (service_step to_toml) s0 calls) in
    \<exists>ms. estimated_correction_schedule (snapshot_of_config c) strokes extra switch_layout = Inr ms \<and> ms \<le> 4000 \<and>
      unat ms = schedule_ms strokes extra (unat (lc_delay_ms (cfg_layout c))) (unat (backspace_ms (cfg_delays c)))
        (unat (typing_ms (cfg_delays c))) switch_layout"
proof -
  have "config_valid (svc_config (foldl (service_step to_toml) s0 calls))"
    by (rule config_service.inv_run) (simp add: config_valid_def valid)
  from valid_config_every_plan [OF this [unfolded config_valid_def] assms(2,3)] show ?thesis
    by (auto simp: Let_def)
qed

theorem service_schedules_every_plan_witness:
  "\<exists>ms. estimated_correction_schedule (snapshot_of_config app_config_default) 5 1 True = Inr ms \<and> ms \<le> 4000"
proof -
  have valid: "config_validate (svc_config \<lparr>svc_config = app_config_default, svc_file = None :: unit option\<rparr>) = Inr ()"
    by code_simp
  from service_schedules_every_plan [OF valid, of 5 1 _ "[]" True] show ?thesis by (auto simp: Let_def)
qed

text \<open>Whether a configuration validates does not depend on what was detected.\<close>

lemma settings_validate_cases:
  "settings_validate s =
     (if layout_delay_ms s \<le> 500
      then if manual_correction_hotkey s = selected_text_hotkey s
           then Inl (DuplicateHotkey (spec_config_value (manual_correction_hotkey s))) else Inr s
      else Inl (LayoutDelayOutOfRange 0 500 (layout_delay_ms s)))"
  by (simp add: settings_validate_def LAYOUT_DELAY_MIN_MS_def LAYOUT_DELAY_MAX_MS_def
      validate_hotkey_conflicts_def hotkeys_conflict_exact_def conflicts_exact_iff)

lemma validate_without_detection:
  "config_validate (c\<lparr>cfg_layout := (cfg_layout c)\<lparr>lc_auto_detected := a\<rparr>\<rparr>) = config_validate c"
  unfolding config_validate_def settings_validate_cases config_settings_def by simp

lemma config_settings_apply: "config_settings (apply_settings c s) = s"
  by (rule settings.equality) (simp_all add: config_settings_def apply_settings_def)


text \<open>What comes back from the file: the record of a detection is kept only for a detected source.\<close>

definition kept_in_file :: "app_config \<Rightarrow> app_config" where
  "kept_in_file c =
     (if lc_switch_source (cfg_layout c) \<in> {AutoDetected, AutoFallback} then c
      else c\<lparr>cfg_layout := (cfg_layout c)\<lparr>lc_auto_detected := auto_detected_default\<rparr>\<rparr>)"

lemma config_of_written_file:
  assumes "config_valid c"
  shows "config_of_file (file_of_config c) = Inr (kept_in_file c)"
proof -
  have "config_of_file (file_of_config c) =
      (case config_validate (kept_in_file c) of Inl e \<Rightarrow> Inl (ConfigValidation e) | Inr _ \<Rightarrow> Inr (kept_in_file c))"
    by (cases c; cases "cfg_layout c")
      (auto simp: config_of_file_def file_of_config_def kept_in_file_def Let_def split: sum.splits)
  moreover have "config_validate (kept_in_file c) = config_validate c"
    by (simp add: kept_in_file_def validate_without_detection)
  ultimately show ?thesis using assms by (simp add: config_valid_def)
qed

lemma config_of_file_valid: "config_of_file f = Inr c \<Longrightarrow> config_valid c"
  by (auto simp: config_of_file_def config_valid_def Let_def split: if_splits option.splits sum.splits)

subsection \<open>Restarting the daemon\<close>

text \<open>The TOML library reads back what it wrote.\<close>

definition toml_reads_back :: "'f serializer \<Rightarrow> 'f parser \<Rightarrow> bool" where
  "toml_reads_back to_toml of_toml \<longleftrightarrow> (\<forall>file content. to_toml file = Inr content \<longrightarrow> of_toml content = Inr file)"

text \<open>
  The configuration a restart would load agrees with the one in memory: in everything but the
  layout switch always, and in its combination and source too when \<open>switch\<close> is asked for.
\<close>

definition agrees :: "bool \<Rightarrow> app_config \<Rightarrow> app_config \<Rightarrow> bool" where
  "agrees switch c' c \<longleftrightarrow> cfg_delays c' = cfg_delays c \<and> cfg_features c' = cfg_features c \<and>
     lc_delay_ms (cfg_layout c') = lc_delay_ms (cfg_layout c) \<and>
     (switch \<longrightarrow> lc_switch_combo (cfg_layout c') = lc_switch_combo (cfg_layout c) \<and>
       lc_switch_source (cfg_layout c') = lc_switch_source (cfg_layout c))"

definition restarts_to :: "'f parser \<Rightarrow> bool \<Rightarrow> 'f config_service \<Rightarrow> bool" where
  "restarts_to of_toml switch s \<longleftrightarrow> config_valid (svc_config s) \<and> (\<exists>content file c'.
     svc_file s = Some content \<and> of_toml content = Inr file \<and> config_of_file file = Inr c' \<and>
     agrees switch c' (svc_config s))"

lemma agrees_kept [simp]: "agrees switch (kept_in_file c) c"
  by (simp add: agrees_def kept_in_file_def)

lemma restarts_to_written:
  assumes "toml_reads_back to_toml of_toml" and "config_valid (svc_config s)"
    and "to_toml (file_of_config (svc_config s)) = Inr content" and "svc_file s = Some content"
  shows "restarts_to of_toml switch s"
  using assms config_of_written_file [OF assms(2)] agrees_kept
  unfolding restarts_to_def toml_reads_back_def by blast

fun is_redetection :: "service_call \<Rightarrow> bool" where
  "is_redetection (Redetected detected) = True"
| "is_redetection _ = False"

lemma restarts_to_step:
  assumes toml: "toml_reads_back to_toml of_toml" and ok: "restarts_to of_toml switch s"
    and "switch \<longrightarrow> \<not> is_redetection call"
  shows "restarts_to of_toml switch (service_step to_toml s call)"
proof (cases call)
  case (UpdateSettings patch io)
  obtain r s' where r: "update_settings_patch to_toml s patch io = (r, s')" by fastforce
  from update_settings_patch_cases [OF r] have "s' = s \<or> restarts_to of_toml switch s'"
    by (auto intro: restarts_to_written [OF toml] split: sum.splits if_splits)
  with UpdateSettings r ok show ?thesis by auto
next
  case (SaveSettings io)
  obtain r s' where r: "config_service_save to_toml s io = (r, s')" by fastforce
  from config_service_save_cases [OF r] have "s' = s \<or> restarts_to of_toml switch s'"
    by (auto intro: restarts_to_written [OF toml] split: sum.splits)
  with SaveSettings r ok show ?thesis by auto
next
  case (Redetected detected)
  obtain r s' where r: "apply_detected_layout_switch_runtime s detected = (r, s')" by fastforce
  from redetected_cases [OF r] have "s' = s \<or> svc_file s' = svc_file s \<and> config_valid (svc_config s') = config_valid (svc_config s) \<and>
      (\<forall>c. agrees False c (svc_config s') = agrees False c (svc_config s))"
    by (auto simp: detected_config_valid agrees_def)
      (auto simp: apply_detected_layout_switch_if_changed_def split: if_splits)
  with Redetected r ok assms(3) show ?thesis by (auto simp: restarts_to_def)
qed

lemma restarts_to_run:
  assumes "toml_reads_back to_toml of_toml"
  shows "restarts_to of_toml switch s \<Longrightarrow> (switch \<longrightarrow> list_all (\<lambda>call. \<not> is_redetection call) calls) \<Longrightarrow>
     restarts_to of_toml switch (foldl (service_step to_toml) s calls)"
proof (induction calls arbitrary: s)
  case (Cons call calls)
  then have "switch \<longrightarrow> \<not> is_redetection call" by auto
  from restarts_to_step [OF assms Cons.prems(1) this] Cons.IH Cons.prems(2) show ?case by simp
qed simp

text \<open>A daemon that loaded its configuration has it in the file.\<close>

lemma default_config_valid: "config_valid app_config_default"
  unfolding config_valid_def by code_simp

lemma loaded_or_created:
  assumes toml: "toml_reads_back to_toml of_toml" and "load_or_create to_toml of_toml create r disk = (Inr c, disk')"
  shows "restarts_to of_toml switch \<lparr>svc_config = c, svc_file = disk'\<rparr>"
proof (cases disk)
  case None
  obtain saved d where saved: "save_to_path to_toml app_config_default create None = (saved, d)" by fastforce
  from assms(2) None saved save_to_path_cases [OF saved] show ?thesis
    by (cases saved) (auto simp: load_or_create_def intro: restarts_to_written [OF toml])
next
  case (Some content)
  with assms(2) show ?thesis
    by (cases r; cases "of_toml content")
      (auto simp: load_or_create_def io_result_def restarts_to_def agrees_def config_of_file_valid)
qed

lemma loaded_restarts:
  assumes toml: "toml_reads_back to_toml of_toml"
    and "load_with_context_and_detector to_toml of_toml detected create r save disk = (Inr s0, disk0)"
  shows "restarts_to of_toml switch s0"
proof -
  obtain c d where c: "load_or_create to_toml of_toml create r disk = (Inr c, d)"
    using assms(2) by (auto simp: load_with_context_and_detector_def split: prod.splits sum.splits)
  obtain changed c1 where c1: "apply_detected_layout_switch_if_changed c detected = (changed, c1)" by fastforce
  then have same: "\<not> changed \<Longrightarrow> c1 = c" by (auto simp: apply_detected_layout_switch_if_changed_def split: if_splits)
  obtain saved d1 where saved: "save_to_path to_toml c1 save d = (saved, d1)" by fastforce
  note loaded = loaded_or_created [OF toml c, of switch]
  show ?thesis
  proof (cases "should_detect_layout_switch c \<and> changed")
    case True
    with assms(2) c c1 saved save_to_path_cases [OF saved] show ?thesis
      by (cases saved) (auto simp: load_with_context_and_detector_def intro: restarts_to_written [OF toml])
  next
    case False
    with assms(2) c c1 same have "s0 = \<lparr>svc_config = c, svc_file = d\<rparr>"
      by (auto simp: load_with_context_and_detector_def split: if_splits)
    with loaded show ?thesis by simp
  qed
qed


text \<open>The identity stands for a library that represents a file by its structure.\<close>

definition io_ok :: store_io where
  "io_ok = \<lparr>io_create_dir = None, io_create_temporary = None, io_write = None, io_sync = None, io_persist = None,
     io_sync_parent = None\<rparr>"

definition sample_patch :: settings_patch where
  "sample_patch = patch_all (settings_default\<lparr>layout_delay_ms := 70, fix_two_capitals := True\<rparr>)"


text \<open>A manual choice is never replaced by detection, at start or later.\<close>

lemma manual_choice_kept:
  assumes "lc_switch_source (cfg_layout c) = Manual" and "load_or_create to_toml of_toml create r disk = (Inr c, disk')"
  shows "load_with_context_and_detector to_toml of_toml detected create r save disk = (Inr \<lparr>svc_config = c, svc_file = disk'\<rparr>, disk')"
    and "svc_config s = c \<Longrightarrow> apply_detected_layout_switch_runtime s detected' = (None, s)"
  using assms by (simp_all add: load_with_context_and_detector_def should_detect_layout_switch_def
      apply_detected_layout_switch_runtime_def should_redetect_layout_switch_after_context_upgrade_def)

end
