(* ===== verification/Capture.thy ===== *)
theory Capture
  imports Input_Keys Hotkeys
begin

text \<open>
  Recording a layout-switch combination: src/src/daemon/capture.rs, with its state type from
  src/src/model.rs.  A settings window owns the session under a lease; while it is active, the keys
  of the chord are kept from the applications, each together with its release.  An \<open>Instant\<close> is a
  number of milliseconds.  The debug log is left out.
\<close>

subsection \<open>State\<close>

definition UNSUPPORTED_MESSAGE :: rtext where
  "UNSUPPORTED_MESSAGE =
     [1069, 1090, 1072, 32, 1082, 1086, 1084, 1073, 1080, 1085, 1072, 1094, 1080, 1103, 32, 1089,
      1077, 1081, 1095, 1072, 1089, 32, 1085, 1077, 32, 1087, 1086, 1076, 1076, 1077, 1088, 1078,
      1080, 1074, 1072, 1077, 1090, 1089, 1103, 32, 79, 112, 101, 110, 83, 119, 105, 116, 99,
      104, 101, 114, 46]"

definition CAPTURE_SOFT_LEASE :: nat where "CAPTURE_SOFT_LEASE = 10 * 1000"
definition CAPTURE_ABSOLUTE_LEASE :: nat where "CAPTURE_ABSOLUTE_LEASE = 65 * 1000"

datatype capture_phase = Idle | Waiting | Candidate | UnsupportedChord | Cancelled | Finished

record capture_state =
  cs_phase :: capture_phase
  cs_candidate :: layout_switch_combo
  cs_has_candidate :: bool
  cs_message :: rtext

definition cs_idle :: capture_state where
  "cs_idle = \<lparr>cs_phase = Idle, cs_candidate = CtrlShift, cs_has_candidate = False, cs_message = []\<rparr>"

definition cs_waiting :: capture_state where
  "cs_waiting = \<lparr>cs_phase = Waiting, cs_candidate = CtrlShift, cs_has_candidate = False, cs_message = []\<rparr>"

definition cs_candidate_of :: "layout_switch_combo \<Rightarrow> capture_state" where
  "cs_candidate_of combo =
     \<lparr>cs_phase = Candidate, cs_candidate = combo, cs_has_candidate = True, cs_message = []\<rparr>"

definition cs_unsupported :: "rtext \<Rightarrow> capture_state" where
  "cs_unsupported message =
     \<lparr>cs_phase = UnsupportedChord, cs_candidate = CtrlShift, cs_has_candidate = False, cs_message = message\<rparr>"

definition cs_cancelled :: capture_state where
  "cs_cancelled = \<lparr>cs_phase = Cancelled, cs_candidate = CtrlShift, cs_has_candidate = False, cs_message = []\<rparr>"

definition cs_finished :: capture_state where
  "cs_finished = \<lparr>cs_phase = Finished, cs_candidate = CtrlShift, cs_has_candidate = False, cs_message = []\<rparr>"

definition cs_is_active :: "capture_state \<Rightarrow> bool" where
  "cs_is_active s \<longleftrightarrow> cs_phase s = Waiting \<or> cs_phase s = Candidate"

type_synonym capture_owner = rtext

record capture_lease =
  lease_owner :: capture_owner
  soft_deadline :: nat
  absolute_deadline :: nat

datatype physical_capture_key =
    LeftCtrl | RightCtrl | LeftAlt | RightAlt | LeftShift | RightShift | Super | Space | CapsLockKey

datatype capture_evaluation =
    EvalWaiting
  | EvalCandidate layout_switch_combo
  | EvalUnsupported

text \<open>The reason of an evaluation is for the debug log only.\<close>

definition evaluate :: "physical_capture_key set \<Rightarrow> capture_evaluation" where
  "evaluate ks =
     (let left_ctrl = (LeftCtrl \<in> ks); right_ctrl = (RightCtrl \<in> ks);
          left_alt = (LeftAlt \<in> ks); right_alt = (RightAlt \<in> ks);
          left_shift = (LeftShift \<in> ks); right_shift = (RightShift \<in> ks);
          super_key = (Super \<in> ks); space = (Space \<in> ks); caps_lock = (CapsLockKey \<in> ks);
          len = card ks
      in if ks = {} then EvalWaiting
         else if len = 1 \<and> caps_lock then EvalCandidate CapsLock
         else if len = 2 \<and> left_ctrl \<and> left_shift then EvalCandidate LeftCtrlLeftShift
         else if len = 2 \<and> right_ctrl \<and> right_shift then EvalCandidate RightCtrlRightShift
         else if len = 2 \<and> left_alt \<and> left_shift then EvalCandidate LeftAltLeftShift
         else if len = 2 \<and> right_alt \<and> right_shift then EvalCandidate RightAltRightShift
         else if len = 2 \<and> (left_ctrl \<or> right_ctrl) \<and> (left_shift \<or> right_shift) then EvalCandidate CtrlShift
         else if len = 2 \<and> (left_alt \<or> right_alt) \<and> (left_shift \<or> right_shift) then EvalCandidate AltShift
         else if len = 2 \<and> space \<and> (left_ctrl \<or> right_ctrl) then EvalCandidate CtrlSpace
         else if len = 2 \<and> space \<and> super_key then EvalCandidate SuperSpace
         else if caps_lock \<or> space then EvalUnsupported
         else if len = 1 \<and> (left_ctrl \<or> right_ctrl \<or> left_shift \<or> right_shift \<or> left_alt \<or> right_alt \<or> super_key)
         then EvalWaiting
         else EvalUnsupported)"

record capture_session =
  pressed_keys :: "physical_capture_key set"
  cap_state :: capture_state
  cap_lease :: "capture_lease option"
  suppressed_keys :: "key set"

definition capture_session_default :: capture_session where
  "capture_session_default =
     \<lparr>pressed_keys = {}, cap_state = cs_idle, cap_lease = None, suppressed_keys = {}\<rparr>"

datatype capture_disposition = PassThrough | ForwardDirect | Suppress

record capture_outcome =
  co_disposition :: capture_disposition
  co_state_change :: "capture_state option"

datatype capture_error = Busy | NotOwner | NotActive

subsection \<open>Operations\<close>

definition capture_is_active :: "capture_session \<Rightarrow> bool" where
  "capture_is_active s = cs_is_active (cap_state s)"

definition capture_cancel :: "capture_session \<Rightarrow> capture_state \<times> capture_session" where
  "capture_cancel s =
     (let s = s\<lparr>cap_lease := None, pressed_keys := {}, cap_state := cs_cancelled\<rparr> in (cap_state s, s))"

definition capture_finish :: "capture_session \<Rightarrow> capture_state \<times> capture_session" where
  "capture_finish s =
     (let s = s\<lparr>cap_lease := None, pressed_keys := {}, cap_state := cs_finished\<rparr> in (cap_state s, s))"

definition expire_at :: "capture_session \<Rightarrow> nat \<Rightarrow> capture_state option \<times> capture_session" where
  "expire_at s now =
     (let expired = (case cap_lease s of
            None \<Rightarrow> False
          | Some lease \<Rightarrow> now \<ge> soft_deadline lease \<or> now \<ge> absolute_deadline lease)
      in if expired then (case capture_cancel s of (state, s) \<Rightarrow> (Some state, s)) else (None, s))"

definition renewed :: "capture_lease \<Rightarrow> nat \<Rightarrow> capture_lease" where
  "renewed lease now =
     lease\<lparr>soft_deadline := min (now + CAPTURE_SOFT_LEASE) (absolute_deadline lease)\<rparr>"

definition start_owned ::
  "capture_session \<Rightarrow> capture_owner \<Rightarrow> nat \<Rightarrow> (capture_error + capture_state) \<times> capture_session" where
  "start_owned s owner now =
     (let s = snd (expire_at s now) in
      case cap_lease s of
        Some lease \<Rightarrow>
          if lease_owner lease \<noteq> owner then (Inl Busy, s)
          else (let s = s\<lparr>cap_lease := Some (renewed lease now)\<rparr> in (Inr (cap_state s), s))
      | None \<Rightarrow>
          (let s = s\<lparr>pressed_keys := {}, cap_state := cs_waiting,
                 cap_lease := Some \<lparr>lease_owner = owner, soft_deadline = now + CAPTURE_SOFT_LEASE,
                   absolute_deadline = now + CAPTURE_ABSOLUTE_LEASE\<rparr>\<rparr>
           in (Inr (cap_state s), s)))"

definition renew_owned ::
  "capture_session \<Rightarrow> capture_owner \<Rightarrow> nat \<Rightarrow> (capture_error + capture_state) \<times> capture_session" where
  "renew_owned s owner now =
     (let s = snd (expire_at s now) in
      case cap_lease s of
        None \<Rightarrow> (Inl NotActive, s)
      | Some lease \<Rightarrow>
          if lease_owner lease \<noteq> owner then (Inl NotOwner, s)
          else (let s = s\<lparr>cap_lease := Some (renewed lease now)\<rparr> in (Inr (cap_state s), s)))"

definition ensure_owner :: "capture_session \<Rightarrow> capture_owner \<Rightarrow> capture_error + unit" where
  "ensure_owner s owner =
     (case cap_lease s of
        None \<Rightarrow> Inl NotActive
      | Some lease \<Rightarrow> if lease_owner lease \<noteq> owner then Inl NotOwner else Inr ())"

definition cancel_owned ::
  "capture_session \<Rightarrow> capture_owner \<Rightarrow> nat \<Rightarrow> (capture_error + capture_state) \<times> capture_session" where
  "cancel_owned s owner now =
     (let s = snd (expire_at s now) in
      check (ensure_owner s owner) s (\<lambda>_. case capture_cancel s of (state, s) \<Rightarrow> (Inr state, s)))"

definition finish_owned ::
  "capture_session \<Rightarrow> capture_owner \<Rightarrow> nat \<Rightarrow> (capture_error + capture_state) \<times> capture_session" where
  "finish_owned s owner now =
     (let s = snd (expire_at s now) in
      check (ensure_owner s owner) s (\<lambda>_. case capture_finish s of (state, s) \<Rightarrow> (Inr state, s)))"

definition owner_disappeared ::
  "capture_session \<Rightarrow> capture_owner \<Rightarrow> nat \<Rightarrow> capture_state option \<times> capture_session" where
  "owner_disappeared s owner now =
     (case expire_at s now of
        (Some expired, s) \<Rightarrow> (Some expired, s)
      | (None, s) \<Rightarrow>
          let is_owner = (case cap_lease s of None \<Rightarrow> False | Some lease \<Rightarrow> lease_owner lease = owner)
          in if is_owner then (case capture_cancel s of (state, s) \<Rightarrow> (Some state, s)) else (None, s))"

definition physical_capture_key_from_evdev :: "key \<Rightarrow> physical_capture_key option" where
  "physical_capture_key_from_evdev key =
     (if key = KEY_LEFTCTRL then Some LeftCtrl
      else if key = KEY_RIGHTCTRL then Some RightCtrl
      else if key = KEY_LEFTALT then Some LeftAlt
      else if key = KEY_RIGHTALT then Some RightAlt
      else if key = KEY_LEFTSHIFT then Some LeftShift
      else if key = KEY_RIGHTSHIFT then Some RightShift
      else if key = KEY_LEFTMETA \<or> key = KEY_RIGHTMETA then Some Super
      else if key = KEY_SPACE then Some Space
      else if key = KEY_CAPSLOCK then Some CapsLockKey
      else None)"

definition replace_state :: "capture_session \<Rightarrow> capture_state \<Rightarrow> capture_state option \<times> capture_session" where
  "replace_state s next_state =
     (if cap_state s = next_state then (None, s)
      else
        let s = (if \<not> cs_is_active next_state then s\<lparr>cap_lease := None\<rparr> else s);
            s = s\<lparr>cap_state := next_state\<rparr>
        in (Some (cap_state s), s))"

text \<open>The part of \<open>route_event_at\<close> that handles the press of a key of the recognizer.\<close>

definition route_capture_key ::
  "capture_session \<Rightarrow> key \<Rightarrow> physical_capture_key \<Rightarrow> capture_outcome \<times> capture_session" where
  "route_capture_key s key capture_key =
     (let s = (if pressed_keys s = {} then s\<lparr>cap_state := cs_waiting\<rparr> else s);
          s = s\<lparr>pressed_keys := insert capture_key (pressed_keys s)\<rparr>
      in case evaluate (pressed_keys s) of
        EvalWaiting \<Rightarrow>
          (let s = s\<lparr>suppressed_keys := insert key (suppressed_keys s)\<rparr> in
           case replace_state s cs_waiting of
             (change, s) \<Rightarrow> (\<lparr>co_disposition = Suppress, co_state_change = change\<rparr>, s))
      | EvalCandidate combo \<Rightarrow>
          (let s = s\<lparr>suppressed_keys := insert key (suppressed_keys s)\<rparr> in
           case replace_state s (cs_candidate_of combo) of
             (change, s) \<Rightarrow> (\<lparr>co_disposition = Suppress, co_state_change = change\<rparr>, s))
      | EvalUnsupported \<Rightarrow>
          (let s = s\<lparr>pressed_keys := {}\<rparr> in
           case replace_state s (cs_unsupported UNSUPPORTED_MESSAGE) of
             (change, s) \<Rightarrow> (\<lparr>co_disposition = ForwardDirect, co_state_change = change\<rparr>, s)))"

definition route_event_at :: "capture_session \<Rightarrow> nat \<Rightarrow> key \<Rightarrow> int \<Rightarrow> capture_outcome \<times> capture_session" where
  "route_event_at s now key event =
     (case expire_at s now of (expiry_change, s) \<Rightarrow>
      if key \<in> suppressed_keys s
      then (\<lparr>co_disposition = Suppress, co_state_change = expiry_change\<rparr>,
            if event = 0
            then (let s = s\<lparr>suppressed_keys := suppressed_keys s - {key}\<rparr> in
                  case physical_capture_key_from_evdev key of
                    Some capture_key \<Rightarrow> s\<lparr>pressed_keys := pressed_keys s - {capture_key}\<rparr>
                  | None \<Rightarrow> s)
            else s)
      else if \<not> capture_is_active s
      then (\<lparr>co_disposition = PassThrough, co_state_change = expiry_change\<rparr>, s)
      else if event \<noteq> 1
      then (\<lparr>co_disposition = ForwardDirect, co_state_change = expiry_change\<rparr>, s)
      else if key = KEY_ESC
      then (case capture_cancel (s\<lparr>suppressed_keys := insert key (suppressed_keys s)\<rparr>) of
              (state, s) \<Rightarrow> (\<lparr>co_disposition = Suppress, co_state_change = Some state\<rparr>, s))
      else case physical_capture_key_from_evdev key of
        None \<Rightarrow>
          (case replace_state (s\<lparr>pressed_keys := {}\<rparr>) (cs_unsupported UNSUPPORTED_MESSAGE) of
             (change, s) \<Rightarrow> (\<lparr>co_disposition = ForwardDirect, co_state_change = change\<rparr>, s))
      | Some capture_key \<Rightarrow> route_capture_key s key capture_key)"

definition reset_input_epoch :: "capture_session \<Rightarrow> capture_state option \<times> capture_session" where
  "reset_input_epoch s =
     (case (if capture_is_active s then (case capture_cancel s of (state, s) \<Rightarrow> (Some state, s)) else (None, s)) of
        (change, s) \<Rightarrow> (change, s\<lparr>cap_lease := None, pressed_keys := {}, suppressed_keys := {}\<rparr>))"

text \<open>All calls on a session.\<close>

datatype capture_call =
    StartOwned capture_owner nat
  | RenewOwned capture_owner nat
  | CancelOwned capture_owner nat
  | FinishOwned capture_owner nat
  | OwnerDisappeared capture_owner nat
  | ExpireAt nat
  | RouteEvent nat key int
  | ResetInputEpoch

fun capture_step :: "capture_session \<Rightarrow> capture_call \<Rightarrow> capture_session" where
  "capture_step s (StartOwned owner now) = snd (start_owned s owner now)"
| "capture_step s (RenewOwned owner now) = snd (renew_owned s owner now)"
| "capture_step s (CancelOwned owner now) = snd (cancel_owned s owner now)"
| "capture_step s (FinishOwned owner now) = snd (finish_owned s owner now)"
| "capture_step s (OwnerDisappeared owner now) = snd (owner_disappeared s owner now)"
| "capture_step s (ExpireAt now) = snd (expire_at s now)"
| "capture_step s (RouteEvent now key event) = snd (route_event_at s now key event)"
| "capture_step s ResetInputEpoch = snd (reset_input_epoch s)"

end
