(* ===== verification/Capture_Properties.thy ===== *)
theory Capture_Properties
  imports Capture
begin

text \<open>
  Properties of the capture session: which chords it recognizes, that presses and releases stay
  paired, who may end it and when it ends by itself, and which state changes it reports.
\<close>

lemmas capture_defs = capture_cancel_def capture_finish_def renewed_def Let_def

lemmas capture_states = cs_idle_def cs_waiting_def cs_candidate_of_def cs_unsupported_def cs_cancelled_def
  cs_finished_def cs_is_active_def

subsection \<open>Recognized chords\<close>

fun chords :: "layout_switch_combo \<Rightarrow> physical_capture_key set list" where
  "chords CapsLock = [{CapsLockKey}]"
| "chords LeftCtrlLeftShift = [{LeftCtrl, LeftShift}]"
| "chords RightCtrlRightShift = [{RightCtrl, RightShift}]"
| "chords LeftAltLeftShift = [{LeftAlt, LeftShift}]"
| "chords RightAltRightShift = [{RightAlt, RightShift}]"
| "chords CtrlShift = [{LeftCtrl, RightShift}, {RightCtrl, LeftShift}]"
| "chords AltShift = [{LeftAlt, RightShift}, {RightAlt, LeftShift}]"
| "chords CtrlSpace = [{LeftCtrl, Space}, {RightCtrl, Space}]"
| "chords SuperSpace = [{Super, Space}]"

text \<open>Whether a chord fits a set of keys, decided for every combination of the nine keys.\<close>

definition key_set :: "bool list \<Rightarrow> physical_capture_key set" where
  "key_set bs = set (map fst (filter snd (zip
     [LeftCtrl, RightCtrl, LeftAlt, RightAlt, LeftShift, RightShift, Super, Space, CapsLockKey] bs)))"

lemma key_set_onto: "\<exists>bs. length bs = 9 \<and> ks = key_set bs"
proof -
  let ?all = "[LeftCtrl, RightCtrl, LeftAlt, RightAlt, LeftShift, RightShift, Super, Space, CapsLockKey]"
  have "k \<in> key_set (map (\<lambda>k. k \<in> ks) ?all) \<longleftrightarrow> k \<in> ks" for k
    by (cases k) (simp_all add: key_set_def)
  then show ?thesis by (intro exI [of _ "map (\<lambda>k. k \<in> ks) ?all"]) auto
qed

lemma all_key_sets:
  assumes "list_all (\<lambda>bs. P (key_set bs)) (List.n_lists 9 [False, True])"
  shows "P ks"
proof -
  from key_set_onto obtain bs where bs: "length bs = 9" "ks = key_set bs" by blast
  then have "bs \<in> set (List.n_lists 9 [False, True])" by (auto simp: set_n_lists)
  with assms bs(2) show ?thesis by (auto simp: list_all_iff)
qed

text \<open>
  Exactly the listed chords.  The pressed keys are taken for a combination exactly when they are
  one of its chords and nothing else; they may still become one exactly when there is none or a
  single modifier; every other set of keys is refused.
\<close>

theorem evaluate_exact:
  "evaluate ks =
     (case find (\<lambda>combo. ks \<in> set (chords combo)) WHITELIST of
        Some combo \<Rightarrow> EvalCandidate combo
      | None \<Rightarrow> if ks \<in> {{}, {LeftCtrl}, {RightCtrl}, {LeftAlt}, {RightAlt}, {LeftShift}, {RightShift}, {Super}}
                then EvalWaiting else EvalUnsupported)"
  by (rule all_key_sets) code_simp

subsection \<open>Presses and their releases\<close>

fun concerns_key :: "key \<Rightarrow> capture_call \<Rightarrow> bool" where
  "concerns_key k (RouteEvent now key event) = (key = k)"
| "concerns_key k ResetInputEpoch = True"
| "concerns_key k call = False"

lemma expire_suppressed [simp]: "suppressed_keys (snd (expire_at s now)) = suppressed_keys s"
  by (simp add: expire_at_def capture_defs split: option.splits)

lemma expire_suppressed_eq: "expire_at s now = (c, t) \<Longrightarrow> suppressed_keys t = suppressed_keys s"
  using expire_suppressed [of s now] by simp

lemma replace_state_suppressed_eq: "replace_state s st = (c, t) \<Longrightarrow> suppressed_keys t = suppressed_keys s"
  by (auto simp: replace_state_def Let_def split: if_splits)

lemma route_capture_key_suppressed:
  assumes "route_capture_key s key ck = (out, s')"
  shows "suppressed_keys s' = (if co_disposition out = Suppress then insert key (suppressed_keys s) else suppressed_keys s)"
  using assms
  by (auto simp: route_capture_key_def Let_def replace_state_def split: capture_evaluation.splits if_splits)

text \<open>The branches of \<open>route_event_at\<close>, after the expiry check has left the session \<open>t\<close>.\<close>

lemma route_event_branches:
  assumes "expire_at s now = (change, t)"
  obtains
    (held) "key \<in> suppressed_keys t"
      "route_event_at s now key event = (\<lparr>co_disposition = Suppress, co_state_change = change\<rparr>,
         if event = 0 then t\<lparr>suppressed_keys := suppressed_keys t - {key},
           pressed_keys := (case physical_capture_key_from_evdev key of
             None \<Rightarrow> pressed_keys t | Some ck \<Rightarrow> pressed_keys t - {ck})\<rparr> else t)"
  | (inactive) "key \<notin> suppressed_keys t" "\<not> capture_is_active t"
      "route_event_at s now key event = (\<lparr>co_disposition = PassThrough, co_state_change = change\<rparr>, t)"
  | (not_press) "key \<notin> suppressed_keys t" "capture_is_active t" "event \<noteq> 1"
      "route_event_at s now key event = (\<lparr>co_disposition = ForwardDirect, co_state_change = change\<rparr>, t)"
  | (escape) "key \<notin> suppressed_keys t" "capture_is_active t" "event = 1" "key = KEY_ESC"
      "route_event_at s now key event = (\<lparr>co_disposition = Suppress, co_state_change = Some cs_cancelled\<rparr>,
         t\<lparr>suppressed_keys := insert key (suppressed_keys t), cap_lease := None, pressed_keys := {},
           cap_state := cs_cancelled\<rparr>)"
  | (unknown) st u where "key \<notin> suppressed_keys t" "capture_is_active t" "event = 1"
      "replace_state (t\<lparr>pressed_keys := {}\<rparr>) (cs_unsupported UNSUPPORTED_MESSAGE) = (st, u)"
      "route_event_at s now key event = (\<lparr>co_disposition = ForwardDirect, co_state_change = st\<rparr>, u)"
  | (chord) ck where "key \<notin> suppressed_keys t" "capture_is_active t" "event = 1"
      "route_event_at s now key event = route_capture_key t key ck"
proof (cases "key \<in> suppressed_keys t")
  case True
  with assms show ?thesis by (intro held) (simp_all add: route_event_at_def Let_def split: option.split)
next
  case new: False
  consider "\<not> capture_is_active t" | "capture_is_active t" "event \<noteq> 1" | "capture_is_active t" "event = 1" by blast
  then show ?thesis
  proof cases
    case 1
    with assms new show ?thesis by (intro inactive) (simp_all add: route_event_at_def)
  next
    case 2
    with assms new show ?thesis by (intro not_press) (simp_all add: route_event_at_def)
  next
    case press: 3
    obtain st u where u: "replace_state (t\<lparr>pressed_keys := {}\<rparr>) (cs_unsupported UNSUPPORTED_MESSAGE) = (st, u)"
      by fastforce
    show ?thesis
    proof (cases "key = KEY_ESC")
      case True
      with assms new press show ?thesis by (intro escape) (simp_all add: route_event_at_def capture_defs)
    next
      case False
      with assms new press u show ?thesis
        by (cases "physical_capture_key_from_evdev key")
          (rule unknown [of st u] chord; simp add: route_event_at_def)+
    qed
  qed
qed

lemma route_suppressed:
  assumes "route_event_at s now key event = (out, s')"
  shows "suppressed_keys s' =
     (if event = 0 then suppressed_keys s - {key}
      else if co_disposition out = Suppress then insert key (suppressed_keys s) else suppressed_keys s) \<and>
     (key \<in> suppressed_keys s \<longrightarrow> co_disposition out = Suppress) \<and>
     (event = 0 \<longrightarrow> key \<notin> suppressed_keys s \<longrightarrow> co_disposition out \<noteq> Suppress)"
proof -
  obtain change t where t: "expire_at s now = (change, t)" by fastforce
  note same = expire_suppressed_eq [OF t]
  from t show ?thesis
  proof (cases rule: route_event_branches [where key = key and event = event])
    case held
    with assms have "out = \<lparr>co_disposition = Suppress, co_state_change = change\<rparr>"
      and "suppressed_keys s' = (if event = 0 then suppressed_keys t - {key} else suppressed_keys t)" by auto
    with held(1) same show ?thesis by (simp add: insert_absorb)
  next
    case escape
    with assms have "out = \<lparr>co_disposition = Suppress, co_state_change = Some cs_cancelled\<rparr>"
      and "suppressed_keys s' = insert key (suppressed_keys t)" by auto
    with escape(1,3) same show ?thesis by simp
  next
    case (unknown st u)
    with assms same replace_state_suppressed_eq [OF unknown(4)] show ?thesis by auto
  next
    case (chord ck)
    with assms same route_capture_key_suppressed [of t key ck out s'] show ?thesis by auto
  next
    case inactive
    with assms have "co_disposition out = PassThrough" "s' = t" by auto
    with inactive(1) same show ?thesis by simp
  next
    case not_press
    with assms have "co_disposition out = ForwardDirect" "s' = t" by auto
    with not_press(1) same show ?thesis by simp
  qed
qed

lemma owner_disappeared_suppressed: "suppressed_keys (snd (owner_disappeared s owner now)) = suppressed_keys s"
proof -
  obtain change t where t: "expire_at s now = (change, t)" by fastforce
  with expire_suppressed_eq [OF t] show ?thesis
    by (simp add: owner_disappeared_def capture_defs split: option.splits)
qed

lemma step_suppressed_other:
  assumes "\<not> concerns_key k call"
  shows "k \<in> suppressed_keys (capture_step s call) \<longleftrightarrow> k \<in> suppressed_keys s"
proof (cases call)
  case (RouteEvent now key event)
  with assms route_suppressed [of s now key event] show ?thesis
    by (cases "route_event_at s now key event") auto
next
  case (StartOwned owner now)
  then show ?thesis using expire_suppressed [of s now]
    by (auto simp: start_owned_def capture_defs split: option.splits)
next
  case (RenewOwned owner now)
  then show ?thesis using expire_suppressed [of s now]
    by (auto simp: renew_owned_def capture_defs split: option.splits)
next
  case (CancelOwned owner now)
  then show ?thesis using expire_suppressed [of s now]
    by (cases "ensure_owner (snd (expire_at s now)) owner") (auto simp: cancel_owned_def capture_defs)
next
  case (FinishOwned owner now)
  then show ?thesis using expire_suppressed [of s now]
    by (cases "ensure_owner (snd (expire_at s now)) owner") (auto simp: finish_owned_def capture_defs)
next
  case (OwnerDisappeared owner now)
  then show ?thesis by (simp add: owner_disappeared_suppressed)
qed (use assms in simp_all)

lemma run_suppressed_other:
  "list_all (\<lambda>call. \<not> concerns_key k call) calls \<Longrightarrow>
   k \<in> suppressed_keys (foldl capture_step s calls) \<longleftrightarrow> k \<in> suppressed_keys s"
  by (induction calls arbitrary: s) (simp_all add: step_suppressed_other)


definition sample_capture :: capture_session where
  "sample_capture = snd (start_owned capture_session_default [1] 0)"


subsection \<open>The lease\<close>

text \<open>A session records exactly while somebody holds the lease, and no renewal outlives its absolute deadline.\<close>

definition lease_ok :: "capture_session \<Rightarrow> bool" where
  "lease_ok s \<longleftrightarrow>
     (capture_is_active s \<longleftrightarrow> cap_lease s \<noteq> None) \<and>
     (\<forall>lease. cap_lease s = Some lease \<longrightarrow> soft_deadline lease \<le> absolute_deadline lease)"

lemma lease_ok_default [simp]: "lease_ok capture_session_default"
  by (simp add: lease_ok_def capture_session_default_def capture_is_active_def capture_states)

text \<open>What each operation does to the state and the lease, in terms of the session after the expiry check.\<close>

lemma expire_cases:
  obtains (dead) lease where "cap_lease s = Some lease" "now \<ge> soft_deadline lease \<or> now \<ge> absolute_deadline lease"
      "expire_at s now = (Some cs_cancelled, s\<lparr>cap_lease := None, pressed_keys := {}, cap_state := cs_cancelled\<rparr>)"
  | (alive) lease where "cap_lease s = Some lease" "now < soft_deadline lease" "now < absolute_deadline lease"
      "expire_at s now = (None, s)"
  | (free) "cap_lease s = None" "expire_at s now = (None, s)"
proof (cases "cap_lease s")
  case None
  then show ?thesis by (intro free) (simp_all add: expire_at_def)
next
  case (Some lease)
  show ?thesis
  proof (cases "now \<ge> soft_deadline lease \<or> now \<ge> absolute_deadline lease")
    case True
    with Some show ?thesis by (intro dead) (simp_all add: expire_at_def capture_defs)
  next
    case False
    with Some show ?thesis by (intro alive) (auto simp: expire_at_def)
  qed
qed

lemma cancelled_inactive [simp]:
  "capture_is_active (s\<lparr>cap_lease := l, pressed_keys := ks, cap_state := cs_cancelled\<rparr>) = False"
  by (simp add: capture_is_active_def capture_states)

text \<open>The lease after a call is the old one, unchanged or renewed by its owner, or a new one, or none.\<close>

definition lease_granted :: "capture_owner \<Rightarrow> nat \<Rightarrow> capture_lease" where
  "lease_granted owner now =
     \<lparr>lease_owner = owner, soft_deadline = now + CAPTURE_SOFT_LEASE, absolute_deadline = now + CAPTURE_ABSOLUTE_LEASE\<rparr>"

fun leases_after :: "capture_session \<Rightarrow> capture_call \<Rightarrow> capture_lease option set" where
  "leases_after s (StartOwned owner now) = {None, cap_lease s, map_option (\<lambda>l. renewed l now) (cap_lease s),
     Some (lease_granted owner now)}"
| "leases_after s (RenewOwned owner now) = {None, cap_lease s, map_option (\<lambda>l. renewed l now) (cap_lease s)}"
| "leases_after s call = {None, cap_lease s}"

lemma replace_state_lease: "replace_state s st = (c, t) \<Longrightarrow> cap_lease t \<in> {None, cap_lease s}"
  by (auto simp: replace_state_def Let_def split: if_splits)

lemma replace_state_active:
  "replace_state s st = (c, t) \<Longrightarrow> cap_lease s \<noteq> None \<Longrightarrow> capture_is_active s \<Longrightarrow>
   (capture_is_active t \<longleftrightarrow> cap_lease t \<noteq> None) \<and> cap_state t = st"
  by (auto simp: replace_state_def Let_def capture_is_active_def split: if_splits)

lemma route_capture_key_lease:
  assumes "route_capture_key s key ck = (out, s')" and "capture_is_active s" and "cap_lease s \<noteq> None"
  shows "cap_lease s' \<in> {None, cap_lease s} \<and> (capture_is_active s' \<longleftrightarrow> cap_lease s' \<noteq> None)"
proof -
  let ?s = "(if pressed_keys s = {} then s\<lparr>cap_state := cs_waiting\<rparr> else s)
    \<lparr>pressed_keys := insert ck (pressed_keys s)\<rparr>"
  obtain u st c where "replace_state u st = (c, s')" and "cap_lease u = cap_lease s" and "cap_state u = cap_state ?s"
    using assms(1)
    by (cases "evaluate (insert ck (pressed_keys s))")
      (force simp: route_capture_key_def Let_def split: prod.splits if_splits)+
  moreover from this(3) assms(2) have "capture_is_active u"
    by (auto simp: capture_is_active_def capture_states split: if_splits)
  ultimately show ?thesis using assms(3) replace_state_lease [of u st c s'] replace_state_active [of u st c s'] by auto
qed

lemma expire_lease_ok:
  assumes "lease_ok s" and "expire_at s now = (c, t)"
  shows "lease_ok t \<and> cap_lease t \<in> {None, cap_lease s}"
  using assms by (cases rule: expire_cases [of s now]) (auto simp: lease_ok_def)

lemma lease_ok_route:
  assumes "lease_ok s" and "route_event_at s now key event = (out, s')"
  shows "lease_ok s' \<and> cap_lease s' \<in> {None, cap_lease s}"
proof -
  obtain change t where t: "expire_at s now = (change, t)" by fastforce
  note ok = expire_lease_ok [OF assms(1) t]
  then have active: "capture_is_active t \<Longrightarrow> cap_lease t \<noteq> None" by (simp add: lease_ok_def)
  have frame: "lease_ok s' \<and> cap_lease s' \<in> {None, cap_lease s}"
    if "cap_lease s' \<in> {None, cap_lease t}" and "capture_is_active s' \<longleftrightarrow> cap_lease s' \<noteq> None"
    using that ok by (auto simp: lease_ok_def)
  from t show ?thesis
  proof (cases rule: route_event_branches [where key = key and event = event])
    case held
    with assms(2) have "cap_lease s' = cap_lease t" "cap_state s' = cap_state t" by auto
    with ok frame show ?thesis by (simp add: lease_ok_def capture_is_active_def)
  next
    case escape
    with assms(2) have "cap_lease s' = None" "cap_state s' = cs_cancelled" by auto
    with frame show ?thesis by (simp add: capture_is_active_def capture_states)
  next
    case (unknown st u)
    have "capture_is_active (t\<lparr>pressed_keys := {}\<rparr>)" using unknown(2) by (simp add: capture_is_active_def)
    with unknown assms(2) active frame replace_state_lease [OF unknown(4)] replace_state_active [OF unknown(4)]
    show ?thesis by simp
  next
    case (chord ck)
    with assms(2) active frame route_capture_key_lease [of t key ck out s'] show ?thesis by simp
  next
    case inactive
    with assms(2) ok show ?thesis by simp
  next
    case not_press
    with assms(2) ok show ?thesis by simp
  qed
qed

lemma renewed_props [simp]:
  "soft_deadline (renewed lease now) \<le> absolute_deadline (renewed lease now)"
  "absolute_deadline (renewed lease now) = absolute_deadline lease"
  "soft_deadline (renewed lease now) \<le> now + CAPTURE_SOFT_LEASE"
  by (simp_all add: renewed_def)

lemma lease_ok_granted [simp]: "soft_deadline (lease_granted owner now) \<le> absolute_deadline (lease_granted owner now)"
  by (simp add: lease_granted_def CAPTURE_SOFT_LEASE_def CAPTURE_ABSOLUTE_LEASE_def)

lemma owner_call_lease:
  assumes "lease_ok s" and t: "expire_at s now = (c, t)"
  shows "lease_ok (snd (start_owned s owner now)) \<and>
      cap_lease (snd (start_owned s owner now)) \<in> leases_after s (StartOwned owner now)"
    and "lease_ok (snd (renew_owned s owner now)) \<and>
      cap_lease (snd (renew_owned s owner now)) \<in> leases_after s (RenewOwned owner now)"
    and "lease_ok (snd (cancel_owned s owner now)) \<and> cap_lease (snd (cancel_owned s owner now)) \<in> {None, cap_lease s}"
    and "lease_ok (snd (finish_owned s owner now)) \<and> cap_lease (snd (finish_owned s owner now)) \<in> {None, cap_lease s}"
    and "lease_ok (snd (owner_disappeared s owner now)) \<and>
      cap_lease (snd (owner_disappeared s owner now)) \<in> {None, cap_lease s}"
  by (use expire_lease_ok [OF assms] t in
      \<open>cases "cap_lease s"; cases "cap_lease t"; auto simp: start_owned_def renew_owned_def cancel_owned_def finish_owned_def
        owner_disappeared_def ensure_owner_def capture_defs lease_ok_def lease_granted_def CAPTURE_SOFT_LEASE_def
        CAPTURE_ABSOLUTE_LEASE_def capture_is_active_def capture_states split: option.splits\<close>)+

lemma capture_step_lease:
  assumes "lease_ok s"
  shows "lease_ok (capture_step s call) \<and> cap_lease (capture_step s call) \<in> leases_after s call"
proof (cases call)
  case (RouteEvent now key event)
  then show ?thesis using lease_ok_route [OF assms, of now key event] by (cases "route_event_at s now key event") auto
next
  case (ExpireAt now)
  then show ?thesis using expire_lease_ok [OF assms, of now] by (cases "expire_at s now") auto
next
  case ResetInputEpoch
  then show ?thesis
    by (auto simp: reset_input_epoch_def lease_ok_def capture_defs capture_is_active_def capture_states)
next
  case (StartOwned owner now)
  then show ?thesis using owner_call_lease(1) [OF assms] by (cases "expire_at s now") auto
next
  case (RenewOwned owner now)
  then show ?thesis using owner_call_lease(2) [OF assms] by (cases "expire_at s now") auto
next
  case (CancelOwned owner now)
  then show ?thesis using owner_call_lease(3) [OF assms] by (cases "expire_at s now") auto
next
  case (FinishOwned owner now)
  then show ?thesis using owner_call_lease(4) [OF assms] by (cases "expire_at s now") auto
next
  case (OwnerDisappeared owner now)
  then show ?thesis using owner_call_lease(5) [OF assms] by (cases "expire_at s now") auto
qed

interpretation capture: step_invariant capture_step lease_ok
  by unfold_locales (simp add: capture_step_lease)

fun keeps_alive :: "nat \<Rightarrow> capture_call \<Rightarrow> bool" where
  "keeps_alive now (StartOwned owner t) \<longleftrightarrow> now < t + CAPTURE_SOFT_LEASE"
| "keeps_alive now (RenewOwned owner t) \<longleftrightarrow> now < t + CAPTURE_SOFT_LEASE"
| "keeps_alive now _ \<longleftrightarrow> False"

fun starts_within :: "nat \<Rightarrow> capture_call \<Rightarrow> bool" where
  "starts_within now (StartOwned owner t) \<longleftrightarrow> now < t + CAPTURE_ABSOLUTE_LEASE"
| "starts_within now _ \<longleftrightarrow> False"

definition soft_by :: "nat \<Rightarrow> capture_session \<Rightarrow> bool" where
  "soft_by now s \<longleftrightarrow> lease_ok s \<and> (\<forall>lease. cap_lease s = Some lease \<longrightarrow> soft_deadline lease \<le> now)"

definition absolute_by :: "nat \<Rightarrow> capture_session \<Rightarrow> bool" where
  "absolute_by now s \<longleftrightarrow> lease_ok s \<and> (\<forall>lease. cap_lease s = Some lease \<longrightarrow> absolute_deadline lease \<le> now)"

lemma step_soft_by:
  assumes "soft_by now s" and "\<not> keeps_alive now call"
  shows "soft_by now (capture_step s call)"
  using capture_step_lease [of s call] assms
  by (cases call) (auto simp: lease_granted_def renewed_def soft_by_def)

lemma step_absolute_by:
  assumes "absolute_by now s" and "\<not> starts_within now call"
  shows "absolute_by now (capture_step s call)"
  using capture_step_lease [of s call] assms by (cases call) (auto simp: lease_granted_def absolute_by_def)

lemma run_soft_by: "soft_by now s \<Longrightarrow> list_all (\<lambda>c. \<not> keeps_alive now c) calls \<Longrightarrow> soft_by now (foldl capture_step s calls)"
  by (induction calls arbitrary: s) (simp_all add: step_soft_by)

lemma run_absolute_by:
  "absolute_by now s \<Longrightarrow> list_all (\<lambda>c. \<not> starts_within now c) calls \<Longrightarrow> absolute_by now (foldl capture_step s calls)"
  by (induction calls arbitrary: s) (simp_all add: step_absolute_by)

lemma expired_inactive:
  assumes "lease_ok s" and "\<And>lease. cap_lease s = Some lease \<Longrightarrow> soft_deadline lease \<le> now \<or> absolute_deadline lease \<le> now"
  shows "\<not> capture_is_active (snd (expire_at s now))"
  using assms by (cases rule: expire_cases [of s now]) (auto simp: lease_ok_def)

lemma inactive_passes:
  assumes "\<not> capture_is_active (snd (expire_at s now))" and "key \<notin> suppressed_keys s"
  shows "co_disposition (fst (route_event_at s now key event)) = PassThrough"
  using assms expire_suppressed_eq by (cases "expire_at s now") (auto simp: route_event_at_def)



text \<open>
  Only the owner rules its session.  While a lease is alive, an attempt of anybody else to start,
  renew, cancel or finish is refused with the documented error, the disappearance of anybody else is
  ignored, and none of these calls changes the session; a call of the owner itself succeeds.
\<close>

theorem capture_owner_rules:
  assumes "cap_lease s = Some lease" and "now < soft_deadline lease" and "now < absolute_deadline lease"
  shows "if owner = lease_owner lease
     then start_owned s owner now = (Inr (cap_state s), s\<lparr>cap_lease := Some (renewed lease now)\<rparr>) \<and>
       renew_owned s owner now = (Inr (cap_state s), s\<lparr>cap_lease := Some (renewed lease now)\<rparr>) \<and>
       cancel_owned s owner now = (Inr cs_cancelled, s\<lparr>cap_lease := None, pressed_keys := {}, cap_state := cs_cancelled\<rparr>) \<and>
       finish_owned s owner now = (Inr cs_finished, s\<lparr>cap_lease := None, pressed_keys := {}, cap_state := cs_finished\<rparr>) \<and>
       owner_disappeared s owner now =
         (Some cs_cancelled, s\<lparr>cap_lease := None, pressed_keys := {}, cap_state := cs_cancelled\<rparr>)
     else start_owned s owner now = (Inl Busy, s) \<and> renew_owned s owner now = (Inl NotOwner, s) \<and>
       cancel_owned s owner now = (Inl NotOwner, s) \<and> finish_owned s owner now = (Inl NotOwner, s) \<and>
       owner_disappeared s owner now = (None, s)"
proof -
  have "expire_at s now = (None, s)" using assms by (simp add: expire_at_def)
  with assms(1) show ?thesis
    by (auto simp: start_owned_def renew_owned_def cancel_owned_def finish_owned_def owner_disappeared_def
        ensure_owner_def capture_defs)
qed

theorem capture_owner_rules_witness:
  "start_owned sample_capture [2] 9999 = (Inl Busy, sample_capture) \<and>
   cancel_owned sample_capture [2] 9999 = (Inl NotOwner, sample_capture)"
proof -
  let ?lease = "lease_granted [1] 0"
  have "cap_lease sample_capture = Some ?lease" "(9999 :: nat) < soft_deadline ?lease" "(9999 :: nat) < absolute_deadline ?lease"
    by (simp_all add: sample_capture_def start_owned_def expire_at_def capture_session_default_def lease_granted_def
        CAPTURE_SOFT_LEASE_def CAPTURE_ABSOLUTE_LEASE_def)
  from capture_owner_rules [OF this, of "[2]"] show ?thesis by (simp add: lease_granted_def)
qed

subsection \<open>Reported changes\<close>

lemma replace_state_change: "replace_state s st = (c, t) \<Longrightarrow>
   cap_state t = st \<and> (case c of Some x \<Rightarrow> x = st | None \<Rightarrow> cap_state s = st)"
  by (auto simp: replace_state_def Let_def split: if_splits)

lemma route_capture_key_change:
  assumes "route_capture_key s key ck = (out, s')"
  shows "case co_state_change out of
     Some state \<Rightarrow> cap_state s' = state
   | None \<Rightarrow> cap_state s' = (if pressed_keys s = {} then cs_waiting else cap_state s)"
proof -
  let ?s = "(if pressed_keys s = {} then s\<lparr>cap_state := cs_waiting\<rparr> else s)"
  obtain u st where "replace_state u st = (co_state_change out, s')" and "cap_state u = cap_state ?s"
    using assms
    by (cases "evaluate (insert ck (pressed_keys s))")
      (force simp: route_capture_key_def Let_def split: prod.splits if_splits)+
  with replace_state_change [OF this(1)] show ?thesis by (auto split: option.splits)
qed

text \<open>
  C38: changes of the recording are reported, with one exception.  When an event reports a change, the
  reported state is the new state; when it reports none, the state is as before, unless the event
  started a new chord after all keys of the last one were released: then a shown candidate is dropped
  and the session waits again without a report.
\<close>

theorem capture_changes_reported:
  assumes "route_event_at s now key event = (out, s')"
  shows "case co_state_change out of
     Some state \<Rightarrow> cap_state s' = state
   | None \<Rightarrow> cap_state s' = cap_state s \<or> (capture_is_active s \<and> pressed_keys s = {} \<and> event = 1 \<and> cap_state s' = cs_waiting)"
proof -
  obtain change t where t: "expire_at s now = (change, t)" by fastforce
  then have same: "case change of None \<Rightarrow> t = s | Some state \<Rightarrow> cap_state t = state \<and> \<not> capture_is_active t"
    by (cases rule: expire_cases [of s now]) auto
  from t show ?thesis
  proof (cases rule: route_event_branches [where key = key and event = event])
    case held
    with assms have "co_state_change out = change" "cap_state s' = cap_state t" by auto
    with same show ?thesis by (auto split: option.splits)
  next
    case inactive
    with assms have "co_state_change out = change" "cap_state s' = cap_state t" by auto
    with same show ?thesis by (auto split: option.splits)
  next
    case not_press
    with assms have "co_state_change out = change" "cap_state s' = cap_state t" by auto
    with same show ?thesis by (auto split: option.splits)
  next
    case escape
    with assms show ?thesis by auto
  next
    case (unknown st u)
    with same have "t = s" by (auto split: option.splits)
    with assms unknown(5) replace_state_change [OF unknown(4)] show ?thesis by (auto split: option.splits)
  next
    case (chord ck)
    with same have "t = s" by (auto split: option.splits)
    with assms chord route_capture_key_change [of t key ck out s'] show ?thesis
      by (auto split: option.splits if_splits)
  qed
qed

theorem capture_changes_reported_witness:
  "let s = foldl capture_step sample_capture [RouteEvent 5 KEY_CAPSLOCK 1, RouteEvent 6 KEY_CAPSLOCK 0];
       r = route_event_at s 7 KEY_LEFTCTRL 1
   in cap_state s = cs_candidate_of CapsLock \<and> co_state_change (fst r) = None \<and> cap_state (snd r) = cs_waiting"
proof -
  let ?s = "foldl capture_step sample_capture [RouteEvent 5 KEY_CAPSLOCK 1, RouteEvent 6 KEY_CAPSLOCK 0]"
  let ?r = "route_event_at ?s 7 KEY_LEFTCTRL 1"
  have "cap_state ?s = cs_candidate_of CapsLock" "co_state_change (fst ?r) = None" "cap_state (snd ?r) \<noteq> cap_state ?s"
    by code_simp+
  with capture_changes_reported [of ?s 7 KEY_LEFTCTRL 1 "fst ?r" "snd ?r"] show ?thesis by (auto simp: Let_def)
qed

end
