(* ===== verification/Selected_Text.thy ===== *)
theory Selected_Text
  imports Switch_Logic
begin

text \<open>
  Converting selected text between the layouts: src/src/daemon/selected_text/engine.rs.  The text is
  cut into words, white space and other characters; a word is converted to the other layout than the
  one most of its letters belong to, other characters as the word before them, or else the next word.
  The debug log is left out.
\<close>

subsection \<open>Characters\<close>

datatype conversion_direction = EnToRu | RuToEn | Mixed

record conversion_outcome =
  converted_text :: rtext
  co_direction :: conversion_direction

text \<open>The arms of the two tables, in their order; every other character is left alone.\<close>

definition EN_TO_RU :: "(rchar \<times> rchar) list" where
  "EN_TO_RU =
     [(96, 1105), (126, 1025), (113, 1081), (81, 1049), (119, 1094), (87, 1062), (101, 1091),
      (69, 1059), (114, 1082), (82, 1050), (116, 1077), (84, 1045), (121, 1085), (89, 1053),
      (117, 1075), (85, 1043), (105, 1096), (73, 1064), (111, 1097), (79, 1065), (112, 1079),
      (80, 1047), (91, 1093), (123, 1061), (93, 1098), (125, 1066), (97, 1092), (65, 1060),
      (115, 1099), (83, 1067), (100, 1074), (68, 1042), (102, 1072), (70, 1040), (103, 1087),
      (71, 1055), (104, 1088), (72, 1056), (106, 1086), (74, 1054), (107, 1083), (75, 1051),
      (108, 1076), (76, 1044), (59, 1078), (58, 1046), (39, 1101), (34, 1069), (92, 92),
      (124, 47), (122, 1103), (90, 1071), (120, 1095), (88, 1063), (99, 1089), (67, 1057),
      (118, 1084), (86, 1052), (98, 1080), (66, 1048), (110, 1090), (78, 1058), (109, 1100),
      (77, 1068), (44, 44), (60, 1041), (46, 46), (62, 1070), (47, 46), (63, 44), (64, 34),
      (35, 8470), (36, 59), (94, 58), (38, 63)]"

definition RU_TO_EN :: "(rchar \<times> rchar) list" where
  "RU_TO_EN =
     [(1105, 96), (1025, 126), (1081, 113), (1049, 81), (1094, 119), (1062, 87), (1091, 101),
      (1059, 69), (1082, 114), (1050, 82), (1077, 116), (1045, 84), (1085, 121), (1053, 89),
      (1075, 117), (1043, 85), (1096, 105), (1064, 73), (1097, 111), (1065, 79), (1079, 112),
      (1047, 80), (1093, 91), (1061, 123), (1098, 93), (1066, 125), (1092, 97), (1060, 65),
      (1099, 115), (1067, 83), (1074, 100), (1042, 68), (1072, 102), (1040, 70), (1087, 103),
      (1055, 71), (1088, 104), (1056, 72), (1086, 106), (1054, 74), (1083, 107), (1051, 75),
      (1076, 108), (1044, 76), (1078, 59), (1046, 58), (1101, 39), (1069, 34), (1103, 122),
      (1071, 90), (1095, 120), (1063, 88), (1089, 99), (1057, 67), (1084, 118), (1052, 86),
      (1080, 98), (1048, 66), (1090, 110), (1058, 78), (1100, 109), (1068, 77), (1073, 44),
      (1041, 60), (1102, 46), (1070, 62), (46, 47), (44, 63), (34, 64), (8470, 35), (59, 36),
      (58, 94), (63, 38)]"

definition lookup_char :: "(rchar \<times> rchar) list \<Rightarrow> rchar \<Rightarrow> rchar" where
  "lookup_char arms ch = (case map_of arms ch of Some c \<Rightarrow> c | None \<Rightarrow> ch)"

definition en_to_ru_char :: "rchar \<Rightarrow> rchar" where
  "en_to_ru_char ch = lookup_char EN_TO_RU ch"

definition ru_to_en_char :: "rchar \<Rightarrow> rchar" where
  "ru_to_en_char ch = lookup_char RU_TO_EN ch"

definition en_to_ru_separator_char :: "rchar \<Rightarrow> rchar" where
  "en_to_ru_separator_char ch =
     (case map_of [(44, 1073), (60, 1041), (46, 1102), (62, 1070)] ch of
        Some c \<Rightarrow> c
      | None \<Rightarrow> en_to_ru_char ch)"

definition ru_to_en_separator_char :: "rchar \<Rightarrow> rchar" where
  "ru_to_en_separator_char ch =
     (case map_of [(1073, 44), (1041, 60), (1102, 46), (1070, 62), (47, 124)] ch of
        Some c \<Rightarrow> c
      | None \<Rightarrow> ru_to_en_char ch)"

definition is_cyrillic_letter :: "rchar \<Rightarrow> bool" where
  "is_cyrillic_letter ch \<longleftrightarrow> 1040 \<le> ch \<and> ch \<le> 1071 \<or> 1072 \<le> ch \<and> ch \<le> 1103 \<or> ch = 1025 \<or> ch = 1105"

definition map_text :: "rtext \<Rightarrow> (rchar \<Rightarrow> rchar) \<Rightarrow> rtext" where
  "map_text t map_char = map map_char t"

fun convert_with_direction :: "rtext \<Rightarrow> conversion_direction \<Rightarrow> rtext" where
  "convert_with_direction t RuToEn = map_text t ru_to_en_char"
| "convert_with_direction t _ = map_text t en_to_ru_char"

fun convert_separator_with_direction :: "rtext \<Rightarrow> conversion_direction \<Rightarrow> rtext" where
  "convert_separator_with_direction t RuToEn = map_text t ru_to_en_separator_char"
| "convert_separator_with_direction t _ = map_text t en_to_ru_separator_char"

subsection \<open>Segments\<close>

datatype segment_kind = SegText | SegWhitespace | SegSeparator

record segment =
  seg_kind :: segment_kind
  seg_text :: rtext

definition is_segment_text_char :: "rchar \<Rightarrow> bool" where
  "is_segment_text_char ch \<longleftrightarrow> is_ascii_alphabetic ch \<or> is_cyrillic_letter ch"

definition classify_char :: "rchar \<Rightarrow> segment_kind" where
  "classify_char ch =
     (if is_whitespace ch then SegWhitespace else if is_segment_text_char ch then SegText else SegSeparator)"

text \<open>The loop: the kind of the current segment and the characters from \<open>current_start\<close> on.\<close>

fun segment_loop :: "segment_kind \<Rightarrow> rtext \<Rightarrow> rtext \<Rightarrow> segment list" where
  "segment_loop existing cur [] = [\<lparr>seg_kind = existing, seg_text = cur\<rparr>]"
| "segment_loop existing cur (ch # chs) =
     (if existing = classify_char ch then segment_loop existing (cur @ [ch]) chs
      else \<lparr>seg_kind = existing, seg_text = cur\<rparr> # segment_loop (classify_char ch) [ch] chs)"

fun segment_text :: "rtext \<Rightarrow> segment list" where
  "segment_text [] = []"
| "segment_text (ch # chs) = segment_loop (classify_char ch) [ch] chs"

subsection \<open>Conversion\<close>

record segment_evaluation =
  latin_letter_count :: nat
  cyrillic_letter_count :: nat
  ev_direction :: conversion_direction
  ev_converted_text :: rtext

definition evaluate_segment_conversion :: "rtext \<Rightarrow> segment_evaluation" where
  "evaluate_segment_conversion seg =
     (let latin = length (filter is_ascii_alphabetic seg);
          cyrillic = length (filter (\<lambda>ch. \<not> is_ascii_alphabetic ch \<and> is_cyrillic_letter ch) seg);
          direction = (if cyrillic > latin then RuToEn else if latin > cyrillic then EnToRu else EnToRu)
      in \<lparr>latin_letter_count = latin, cyrillic_letter_count = cyrillic, ev_direction = direction,
          ev_converted_text = convert_with_direction seg direction\<rparr>)"

fun next_text_direction :: "segment list \<Rightarrow> conversion_direction option" where
  "next_text_direction [] = None"
| "next_text_direction (seg # segs) =
     (if seg_kind seg = SegText then Some (ev_direction (evaluate_segment_conversion (seg_text seg)))
      else next_text_direction segs)"

text \<open>The loop over the segments: the direction of the last word, and the numbers of words in each direction.\<close>

fun convert_loop ::
  "conversion_direction option \<Rightarrow> rtext \<Rightarrow> nat \<Rightarrow> nat \<Rightarrow> segment list \<Rightarrow> rtext \<times> nat \<times> nat" where
  "convert_loop last_text_direction converted en_to_ru ru_to_en [] = (converted, en_to_ru, ru_to_en)"
| "convert_loop last_text_direction converted en_to_ru ru_to_en (seg # segs) =
     (case seg_kind seg of
        SegText \<Rightarrow>
          (let evaluation = evaluate_segment_conversion (seg_text seg); direction = ev_direction evaluation
           in convert_loop (Some direction) (converted @ ev_converted_text evaluation)
                (if direction = EnToRu then en_to_ru + 1 else en_to_ru)
                (if direction = RuToEn then ru_to_en + 1 else ru_to_en) segs)
      | kind \<Rightarrow>
          (let separator_direction = (case last_text_direction of
                 Some direction \<Rightarrow> Some direction
               | None \<Rightarrow> next_text_direction segs);
               piece = (if kind = SegSeparator
                 then (case separator_direction of
                         Some direction \<Rightarrow> convert_separator_with_direction (seg_text seg) direction
                       | None \<Rightarrow> seg_text seg)
                 else seg_text seg)
           in convert_loop last_text_direction (converted @ piece) en_to_ru ru_to_en segs))"

definition convert_selected_text :: "rtext \<Rightarrow> conversion_outcome" where
  "convert_selected_text t =
     (case convert_loop None [] 0 0 (segment_text t) of
        (converted, en_to_ru_segments, ru_to_en_segments) \<Rightarrow>
          \<lparr>converted_text = converted,
           co_direction = (case (en_to_ru_segments > 0, ru_to_en_segments > 0) of
               (True, True) \<Rightarrow> Mixed
             | (True, False) \<Rightarrow> EnToRu
             | (False, True) \<Rightarrow> RuToEn
             | (False, False) \<Rightarrow> EnToRu)\<rparr>)"

subsection \<open>Segmentation\<close>

definition segments_ok :: "segment list \<Rightarrow> bool" where
  "segments_ok segs \<longleftrightarrow>
     list_all (\<lambda>s. seg_text s \<noteq> [] \<and> list_all (\<lambda>c. classify_char c = seg_kind s) (seg_text s)) segs \<and>
     successively (\<lambda>a b. seg_kind a \<noteq> seg_kind b) segs"

lemma segment_loop_same:
  "list_all (\<lambda>c. classify_char c = k) xs \<Longrightarrow> segment_loop k cur (xs @ rest) = segment_loop k (cur @ xs) rest"
  by (induction xs arbitrary: cur) auto

lemma segment_loop_segments:
  "segments_ok (s # segs) \<Longrightarrow> segment_loop (seg_kind s) (seg_text s) (concat (map seg_text segs)) = s # segs"
proof (induction segs arbitrary: s)
  case (Cons t segs)
  then obtain c cs where t: "seg_text t = c # cs" by (cases "seg_text t") (auto simp: segments_ok_def)
  with Cons.prems have kinds: "classify_char c = seg_kind t" "list_all (\<lambda>c. classify_char c = seg_kind t) cs"
    and other: "seg_kind s \<noteq> seg_kind t" and rest: "segments_ok (t # segs)"
    by (auto simp: segments_ok_def)
  have "segment_loop (seg_kind t) [c] (cs @ concat (map seg_text segs)) = t # segs"
    using segment_loop_same [OF kinds(2), of "[c]"] Cons.IH [OF rest] t by simp
  with t kinds(1) other show ?case by (auto intro: segment.equality)
qed (simp add: segment.equality)

lemma segment_text_unique: "segments_ok segs \<Longrightarrow> segment_text (concat (map seg_text segs)) = segs"
proof (cases segs)
  case (Cons s rest)
  assume ok: "segments_ok segs"
  with Cons obtain c cs where s: "seg_text s = c # cs" by (cases "seg_text s") (auto simp: segments_ok_def)
  with ok Cons have kinds: "classify_char c = seg_kind s" "list_all (\<lambda>c. classify_char c = seg_kind s) cs"
    by (auto simp: segments_ok_def)
  with s Cons ok segment_loop_same [OF kinds(2), of "[c]"] segment_loop_segments [of s rest] show ?thesis by simp
qed simp

lemma segment_loop_ok:
  assumes "cur \<noteq> []" and "list_all (\<lambda>c. classify_char c = k) cur"
  shows "segments_ok (segment_loop k cur chs) \<and> concat (map seg_text (segment_loop k cur chs)) = cur @ chs \<and>
    (\<exists>s segs. segment_loop k cur chs = s # segs \<and> seg_kind s = k)"
  using assms
proof (induction k cur chs rule: segment_loop.induct)
  case (2 k cur c cs)
  show ?case
  proof (cases "k = classify_char c")
    case True
    with 2 show ?thesis by auto
  next
    case False
    then obtain s segs where s: "segment_loop (classify_char c) [c] cs = s # segs" "seg_kind s = classify_char c"
      using 2(2) by auto
    with False 2 show ?thesis by (auto simp: segments_ok_def)
  qed
qed (simp add: segments_ok_def)

lemma segments_of_text: "concat (map seg_text (segment_text t)) = t \<and> segments_ok (segment_text t)"
  using segment_loop_ok by (cases t) (auto simp: segments_ok_def)

text \<open>
  The segmentation is the one into words.  The segments of a text are together the text, none is
  empty, each has characters of its kind only, neighbours are of different kinds, and no other list of
  segments is like that.
\<close>

theorem segments_exact: "segment_text t = segs \<longleftrightarrow> concat (map seg_text segs) = t \<and> segments_ok segs"
  using segments_of_text segment_text_unique by auto

subsection \<open>What conversion keeps\<close>

text \<open>A fact about a table for all characters: its arms, and every character that has none.\<close>

lemma lookup_char_cases:
  assumes "\<And>a b. (a, b) \<in> set arms \<Longrightarrow> P a b" and "P ch ch"
  shows "P ch (lookup_char arms ch)"
  using assms by (auto simp: lookup_char_def split: option.split dest!: map_of_SomeD)

lemma no_new_whitespace:
  assumes "\<not> is_whitespace c"
  shows "\<not> is_whitespace (en_to_ru_char c)" and "\<not> is_whitespace (ru_to_en_char c)"
    and "\<not> is_whitespace (en_to_ru_separator_char c)" and "\<not> is_whitespace (ru_to_en_separator_char c)"
proof -
  have "list_all (\<lambda>(a, b). \<not> is_whitespace b) EN_TO_RU" "list_all (\<lambda>(a, b). \<not> is_whitespace b) RU_TO_EN"
    by code_simp+
  then show en: "\<not> is_whitespace (en_to_ru_char c)" and ru: "\<not> is_whitespace (ru_to_en_char c)"
    unfolding en_to_ru_char_def ru_to_en_char_def
    by (intro lookup_char_cases [where P = "\<lambda>_ b. \<not> is_whitespace b"]; use assms in \<open>auto simp: list_all_iff\<close>)+
  show "\<not> is_whitespace (en_to_ru_separator_char c)" "\<not> is_whitespace (ru_to_en_separator_char c)"
    using en ru by (simp_all add: en_to_ru_separator_char_def ru_to_en_separator_char_def is_whitespace_def)
qed

text \<open>The pieces the loop appends.\<close>

fun converted_pieces :: "conversion_direction option \<Rightarrow> segment list \<Rightarrow> rtext list" where
  "converted_pieces last_direction [] = []"
| "converted_pieces last_direction (seg # segs) =
     (case seg_kind seg of
        SegText \<Rightarrow>
          ev_converted_text (evaluate_segment_conversion (seg_text seg)) #
          converted_pieces (Some (ev_direction (evaluate_segment_conversion (seg_text seg)))) segs
      | SegWhitespace \<Rightarrow> seg_text seg # converted_pieces last_direction segs
      | SegSeparator \<Rightarrow>
          (case (case last_direction of Some d \<Rightarrow> Some d | None \<Rightarrow> next_text_direction segs) of
             Some d \<Rightarrow> convert_separator_with_direction (seg_text seg) d
           | None \<Rightarrow> seg_text seg) # converted_pieces last_direction segs)"

lemma convert_loop_pieces: "fst (convert_loop d acc e r segs) = acc @ concat (converted_pieces d segs)"
  by (induction segs arbitrary: d acc e r) (auto simp: Let_def split: segment_kind.split option.split)

lemma evaluation_text:
  "ev_converted_text (evaluate_segment_conversion seg) =
     convert_with_direction seg (ev_direction (evaluate_segment_conversion seg))"
  by (simp add: evaluate_segment_conversion_def Let_def)

lemma converted_text_pieces:
  "converted_text (convert_selected_text t) = concat (converted_pieces None (segment_text t))"
  using convert_loop_pieces [of None "[]" 0 0 "segment_text t"]
  by (cases "convert_loop None [] 0 0 (segment_text t)") (simp add: convert_selected_text_def split: prod.splits)

definition keeps_whitespace :: "rchar \<Rightarrow> rchar \<Rightarrow> bool" where
  "keeps_whitespace c d \<longleftrightarrow> (if is_whitespace c then d = c else \<not> is_whitespace d)"

lemma convert_keeps_whitespace:
  assumes "list_all (\<lambda>c. \<not> is_whitespace c) xs"
  shows "list_all2 keeps_whitespace xs (convert_with_direction xs d)"
    and "list_all2 keeps_whitespace xs (convert_separator_with_direction xs d)"
  using assms
  by (cases d; simp add: map_text_def list.rel_map list.pred_set keeps_whitespace_def no_new_whitespace
      list.rel_refl_strong)+

lemma pieces_keep_whitespace:
  "segments_ok segs \<Longrightarrow> list_all2 keeps_whitespace (concat (map seg_text segs)) (concat (converted_pieces d segs))"
proof (induction segs arbitrary: d)
  case (Cons s segs)
  then have rest: "segments_ok segs" by (cases segs) (auto simp: segments_ok_def)
  have kind: "list_all (\<lambda>c. classify_char c = seg_kind s) (seg_text s)" using Cons.prems by (simp add: segments_ok_def)
  have same: "list_all2 keeps_whitespace xs xs" if "list_all is_whitespace xs \<or> list_all (\<lambda>c. \<not> is_whitespace c) xs" for xs
    using that by (auto simp: keeps_whitespace_def list_all_iff intro!: list.rel_refl_strong)
  have "list_all (\<lambda>c. \<not> is_whitespace c) (seg_text s)" if "seg_kind s \<noteq> SegWhitespace"
    using kind that by (auto simp: list_all_iff classify_char_def split: if_splits)
  moreover have "list_all is_whitespace (seg_text s)" if "seg_kind s = SegWhitespace"
    using kind that by (auto simp: list_all_iff classify_char_def split: if_splits)
  ultimately show ?case using Cons.IH [OF rest] same convert_keeps_whitespace
    by (cases "seg_kind s")
      (auto simp: evaluation_text intro!: list_all2_appendI split: option.split)
qed simp

text \<open>
  Conversion changes characters only.  The converted text has as many characters as the selected
  one, white space stays where it is, and no other character becomes white space; so words, lines and
  their lengths are kept.
\<close>

theorem conversion_keeps_shape: "list_all2 keeps_whitespace t (converted_text (convert_selected_text t))"
  using pieces_keep_whitespace [of "segment_text t" None] segments_of_text [of t]
  by (simp add: converted_text_pieces)

subsection \<open>Converting back\<close>

text \<open>Words of one alphabet whose keys are letters in both layouts, and characters no layout changes.\<close>

definition paired_cyrillic :: "rchar \<Rightarrow> bool" where
  "paired_cyrillic c \<longleftrightarrow> is_cyrillic_letter c \<and> is_ascii_alphabetic (ru_to_en_char c)"

definition stable_segment :: "segment \<Rightarrow> bool" where
  "stable_segment s =
     (case seg_kind s of
        SegText \<Rightarrow> list_all is_ascii_alphabetic (seg_text s) \<or> list_all paired_cyrillic (seg_text s)
      | SegWhitespace \<Rightarrow> True
      | SegSeparator \<Rightarrow> list_all (\<lambda>c. en_to_ru_separator_char c = c \<and> ru_to_en_separator_char c = c) (seg_text s))"

lemma latin_letter_pair:
  assumes "is_ascii_alphabetic c"
  shows "paired_cyrillic (en_to_ru_char c) \<and> ru_to_en_char (en_to_ru_char c) = c"
proof -
  have "list_all (\<lambda>c. paired_cyrillic (en_to_ru_char c) \<and> ru_to_en_char (en_to_ru_char c) = c) ([65..<91] @ [97..<123])"
    by code_simp
  moreover have "c \<in> set ([65..<91] @ [97..<123])" using assms unfolding is_ascii_alphabetic_def set_append set_upt by (simp only: Un_iff atLeastLessThan_iff) linarith
  ultimately show ?thesis by (simp only: list_all_iff)
qed

lemma cyrillic_letter_pair:
  assumes "paired_cyrillic c"
  shows "is_ascii_alphabetic (ru_to_en_char c) \<and> en_to_ru_char (ru_to_en_char c) = c"
proof -
  have "list_all (\<lambda>c. paired_cyrillic c \<longrightarrow> en_to_ru_char (ru_to_en_char c) = c) (1025 # 1105 # [1040..<1104])"
    by code_simp
  moreover have "c \<in> set (1025 # 1105 # [1040..<1104])"
    using assms unfolding paired_cyrillic_def is_cyrillic_letter_def list.set set_upt
    by (simp only: insert_iff atLeastLessThan_iff) linarith
  ultimately show ?thesis using assms by (simp only: list_all_iff) (simp add: paired_cyrillic_def)
qed

lemma latin_not_cyrillic: "is_cyrillic_letter c \<Longrightarrow> \<not> is_ascii_alphabetic c"
  by (auto simp: is_cyrillic_letter_def is_ascii_alphabetic_def)

lemma latin_word_direction:
  assumes "list_all is_ascii_alphabetic w"
  shows "ev_direction (evaluate_segment_conversion w) = EnToRu"
proof -
  have "filter (\<lambda>ch. \<not> is_ascii_alphabetic ch \<and> is_cyrillic_letter ch) w = []"
    using assms by (auto simp: filter_empty_conv list_all_iff)
  then show ?thesis by (simp add: evaluate_segment_conversion_def Let_def)
qed

lemma cyrillic_word_direction:
  assumes "list_all paired_cyrillic w" and "w \<noteq> []"
  shows "ev_direction (evaluate_segment_conversion w) = RuToEn"
proof -
  have "filter is_ascii_alphabetic w = []" "filter (\<lambda>ch. \<not> is_ascii_alphabetic ch \<and> is_cyrillic_letter ch) w = w"
    using assms latin_not_cyrillic by (auto simp: filter_empty_conv filter_id_conv list_all_iff paired_cyrillic_def)
  with assms(2) show ?thesis by (simp add: evaluate_segment_conversion_def Let_def)
qed

text \<open>The piece of a stable segment, which does not depend on its neighbours.\<close>

definition flipped :: "segment \<Rightarrow> segment" where
  "flipped s = (if seg_kind s = SegText
     then s\<lparr>seg_text := ev_converted_text (evaluate_segment_conversion (seg_text s))\<rparr> else s)"

lemma flipped_kind [simp]: "seg_kind (flipped s) = seg_kind s"
  by (simp add: flipped_def)

lemma neutral_separator:
  "list_all (\<lambda>c. en_to_ru_separator_char c = c \<and> ru_to_en_separator_char c = c) xs \<Longrightarrow>
   convert_separator_with_direction xs d = xs"
  by (cases d) (simp_all add: map_text_def list_all_iff map_idI)

lemma stable_pieces: "list_all stable_segment segs \<Longrightarrow> converted_pieces d segs = map (\<lambda>s. seg_text (flipped s)) segs"
  by (induction segs arbitrary: d)
    (auto simp: stable_segment_def flipped_def neutral_separator split: segment_kind.splits option.splits)

lemma flipped_word:
  assumes "w \<noteq> []" and "list_all is_ascii_alphabetic w \<or> list_all paired_cyrillic w"
  defines "v \<equiv> ev_converted_text (evaluate_segment_conversion w)"
  shows "v \<noteq> [] \<and> (list_all is_ascii_alphabetic v \<or> list_all paired_cyrillic v) \<and>
    ev_converted_text (evaluate_segment_conversion v) = w"
  using assms(2)
proof
  assume latin: "list_all is_ascii_alphabetic w"
  then have v: "v = map en_to_ru_char w" by (simp add: v_def evaluation_text latin_word_direction map_text_def)
  with latin have "list_all paired_cyrillic v" by (simp add: list_all_iff latin_letter_pair)
  moreover from this v assms(1) have "ev_converted_text (evaluate_segment_conversion v) = map ru_to_en_char v"
    by (simp add: evaluation_text cyrillic_word_direction map_text_def)
  ultimately show ?thesis using v latin assms(1) by (simp add: list_all_iff latin_letter_pair map_idI)
next
  assume cyrillic: "list_all paired_cyrillic w"
  then have v: "v = map ru_to_en_char w"
    using assms(1) by (simp add: v_def evaluation_text cyrillic_word_direction map_text_def)
  with cyrillic have "list_all is_ascii_alphabetic v" by (simp add: list_all_iff cyrillic_letter_pair)
  moreover from this have "ev_converted_text (evaluate_segment_conversion v) = map en_to_ru_char v"
    by (simp add: evaluation_text latin_word_direction map_text_def)
  ultimately show ?thesis using v cyrillic assms(1) by (simp add: list_all_iff cyrillic_letter_pair map_idI)
qed

lemma word_chars_are_text:
  "list_all is_ascii_alphabetic w \<or> list_all paired_cyrillic w \<Longrightarrow> list_all (\<lambda>c. classify_char c = SegText) w"
proof -
  have "\<not> is_whitespace c" if "is_ascii_alphabetic c \<or> is_cyrillic_letter c" for c
    using that by (auto simp: is_whitespace_def is_ascii_alphabetic_def is_cyrillic_letter_def)
  then show "list_all is_ascii_alphabetic w \<or> list_all paired_cyrillic w \<Longrightarrow> list_all (\<lambda>c. classify_char c = SegText) w"
    by (auto simp: list_all_iff classify_char_def is_segment_text_char_def paired_cyrillic_def)
qed

lemma flipped_stable:
  assumes "stable_segment s" and "seg_text s \<noteq> []" and "list_all (\<lambda>c. classify_char c = seg_kind s) (seg_text s)"
  shows "stable_segment (flipped s) \<and> seg_text (flipped s) \<noteq> [] \<and>
    list_all (\<lambda>c. classify_char c = seg_kind s) (seg_text (flipped s)) \<and> flipped (flipped s) = s"
proof (cases "seg_kind s = SegText")
  case True
  with assms(1) have w: "list_all is_ascii_alphabetic (seg_text s) \<or> list_all paired_cyrillic (seg_text s)"
    by (simp add: stable_segment_def)
  from flipped_word [OF assms(2) w] True show ?thesis
    by (auto simp: stable_segment_def flipped_def intro!: word_chars_are_text)
next
  case False
  with assms show ?thesis by (simp add: flipped_def)
qed

lemma flipped_segments_ok:
  assumes "segments_ok segs" and "list_all stable_segment segs"
  shows "segments_ok (map flipped segs) \<and> list_all stable_segment (map flipped segs) \<and> map flipped (map flipped segs) = segs"
proof -
  have "stable_segment (flipped s) \<and> seg_text (flipped s) \<noteq> [] \<and>
      list_all (\<lambda>c. classify_char c = seg_kind s) (seg_text (flipped s)) \<and> flipped (flipped s) = s" if "s \<in> set segs" for s
    using assms that by (intro flipped_stable) (auto simp: segments_ok_def list_all_iff)
  with assms(1) show ?thesis
    by (auto simp: segments_ok_def list_all_iff successively_map intro!: map_idI)
qed

text \<open>
  Converting twice gives the text back.  When every word of the selected text is in one alphabet
  and on keys that are letters in both layouts, and its other characters are the same in both, then
  converting the text and converting the result returns the text.
\<close>

theorem selected_text_roundtrip:
  assumes "list_all stable_segment (segment_text t)"
  shows "converted_text (convert_selected_text (converted_text (convert_selected_text t))) = t"
proof -
  let ?segs = "segment_text t" and ?u = "converted_text (convert_selected_text t)"
  note t = segments_of_text [of t]
  have u: "?u = concat (map seg_text (map flipped ?segs))"
    by (simp add: converted_text_pieces stable_pieces [OF assms] comp_def)
  note flip = flipped_segments_ok [OF conjunct2 [OF t] assms]
  then have "segment_text ?u = map flipped ?segs" unfolding u by (intro segment_text_unique) simp
  then have "converted_text (convert_selected_text ?u) = concat (map (\<lambda>s. seg_text (flipped s)) (map flipped ?segs))"
    using flip by (simp only: converted_text_pieces stable_pieces)
  also have "map (\<lambda>s. seg_text (flipped s)) (map flipped ?segs) = map seg_text (map flipped (map flipped ?segs))"
    by (simp add: comp_def)
  finally show ?thesis using flip t by (simp only:)
qed

theorem selected_text_roundtrip_witness:
  "converted_text (convert_selected_text (lit ''Ghbdtn 2 vbh'')) =
     [1055, 1088, 1080, 1074, 1077, 1090, 32, 50, 32, 1084, 1080, 1088] \<and>
   converted_text (convert_selected_text (converted_text (convert_selected_text (lit ''Ghbdtn 2 vbh'')))) =
     lit ''Ghbdtn 2 vbh''"
proof -
  have "list_all stable_segment (segment_text (lit ''Ghbdtn 2 vbh''))" by code_simp
  from selected_text_roundtrip [OF this]
  have "converted_text (convert_selected_text (converted_text (convert_selected_text (lit ''Ghbdtn 2 vbh'')))) =
     lit ''Ghbdtn 2 vbh''" .
  moreover have "converted_text (convert_selected_text (lit ''Ghbdtn 2 vbh'')) =
     [1055, 1088, 1080, 1074, 1077, 1090, 32, 50, 32, 1084, 1080, 1088]" by code_simp
  ultimately show ?thesis by blast
qed

text \<open>
  One keyboard.  The table that shows typed keys in the Russian layout and the table that converts
  selected text agree on every character, except that the former leaves the shifted digits as they are.
\<close>

theorem keyboard_tables_agree:
  "russian_visible_char_for_keyboard_position ch =
     (if ch \<in> set (lit ''@#$^&'') then ch else en_to_ru_separator_char ch)"
proof (cases "ch \<in> set (map fst RUSSIAN_POSITIONS @ map fst EN_TO_RU)")
  case True
  have "list_all (\<lambda>ch. russian_visible_char_for_keyboard_position ch =
      (if ch \<in> set (lit ''@#$^&'') then ch else en_to_ru_separator_char ch)) (map fst RUSSIAN_POSITIONS @ map fst EN_TO_RU)"
    by code_simp
  with True show ?thesis by (simp only: list_all_iff)
next
  case False
  then have none: "map_of RUSSIAN_POSITIONS ch = None" "map_of EN_TO_RU ch = None"
    by (auto simp: map_of_eq_None_iff)
  have "list_all (\<lambda>c. c \<in> set (map fst EN_TO_RU)) [44, 60, 46, 62]" by code_simp
  with none(2) have "ch \<notin> {44, 60, 46, 62}" by (auto simp: map_of_eq_None_iff)
  with none show ?thesis
    by (simp add: russian_visible_char_for_keyboard_position_def en_to_ru_separator_char_def en_to_ru_char_def lookup_char_def)
qed

end
