(* ===== verification/Layout_Detection.thy ===== *)
theory Layout_Detection
  imports Switch_Logic Settings_Model
begin

text \<open>
  Which layouts are set up and which one is active: src/src/layout_backend (model.rs, detection.rs,
  policy.rs, registry.rs, compat.rs) and src/src/daemon/layout_setup_retry.rs.  The commands that print
  the desktop's settings are the fields of a reader; the texts of their errors are parameters.
\<close>

subsection \<open>Strings\<close>

fun split_on :: "rchar \<Rightarrow> rtext \<Rightarrow> rtext list" where
  "split_on sep [] = [[]]"
| "split_on sep (c # cs) =
     (if c = sep then [] # split_on sep cs
      else case split_on sep cs of [] \<Rightarrow> [[c]] | part # parts \<Rightarrow> (c # part) # parts)"

text \<open>\<open>str::lines\<close>: a final line break ends the last line, and a carriage return before it is dropped.\<close>

definition text_lines :: "rtext \<Rightarrow> rtext list" where
  "text_lines t =
     (let parts = split_on 10 t; parts = (if last parts = [] then butlast parts else parts)
      in map (\<lambda>l. if l \<noteq> [] \<and> last l = 13 then butlast l else l) parts)"

definition trim_start :: "rtext \<Rightarrow> rtext" where
  "trim_start word = dropWhile is_whitespace word"

definition strip_prefix :: "rtext \<Rightarrow> rtext \<Rightarrow> rtext option" where
  "strip_prefix word prefix =
     (if take (length prefix) word = prefix then Some (drop (length prefix) word) else None)"

fun decimal :: "nat \<Rightarrow> rtext" where
  "decimal n = (if n < 10 then [48 + n] else decimal (n div 10) @ [48 + n mod 10])"

declare decimal.simps [simp del]

subsection \<open>Layouts\<close>

type_synonym normalized_layout_code = rtext

definition is_valid_normalized_layout_code :: "rtext \<Rightarrow> bool" where
  "is_valid_normalized_layout_code value \<longleftrightarrow> value \<noteq> [] \<and>
     list_all (\<lambda>ch. 97 \<le> ch \<and> ch \<le> 122 \<or> 48 \<le> ch \<and> ch \<le> 57 \<or> ch \<in> set (lit ''-_'')) value"

definition normalized_layout_code_new :: "rtext \<Rightarrow> rtext + normalized_layout_code" where
  "normalized_layout_code_new value = (if \<not> is_valid_normalized_layout_code value then Inl value else Inr value)"

datatype layout_code = Us | Gb | Ru | OtherCode normalized_layout_code | UnknownCode

definition from_normalized :: "rtext \<Rightarrow> rtext + layout_code" where
  "from_normalized value =
     (if value = lit ''us'' then Inr Us
      else if value = lit ''gb'' then Inr Gb
      else if value = lit ''ru'' then Inr Ru
      else if value = lit ''unknown'' then Inr UnknownCode
      else and_then (normalized_layout_code_new value) (\<lambda>code. Inr (OtherCode code)))"

fun normalized_str :: "layout_code \<Rightarrow> rtext option" where
  "normalized_str Us = Some (lit ''us'')"
| "normalized_str Gb = Some (lit ''gb'')"
| "normalized_str Ru = Some (lit ''ru'')"
| "normalized_str (OtherCode value) = Some value"
| "normalized_str UnknownCode = None"

record system_layout =
  backend_key :: rtext
  normalized_code :: layout_code
  display_name :: rtext
  layout_kind :: app_layout_kind
  layout_index :: "u32 option"

datatype current_layout_state =
    KnownLayout system_layout bool
  | UnknownLayout rtext

datatype layout_setup =
    StrictPair system_layout system_layout
  | PairPlusOther system_layout system_layout "system_layout list"
  | UnsupportedSetup rtext

datatype layout_compatibility = FullStrictPair | PairPlusOtherCompatible | LimitedCompatibility | UnsupportedCompatibility

datatype layout_setup_detection =
    Confirmed layout_setup
  | TemporarilyUnavailable rtext
  | UnsupportedDetection rtext

fun effective_setup :: "layout_setup_detection \<Rightarrow> layout_setup" where
  "effective_setup (Confirmed setup) = setup"
| "effective_setup (TemporarilyUnavailable reason) = UnsupportedSetup (lit ''temporarily-unavailable:'' @ reason)"
| "effective_setup (UnsupportedDetection reason) = UnsupportedSetup (lit ''unsupported:'' @ reason)"

fun is_confirmed :: "layout_setup_detection \<Rightarrow> bool" where
  "is_confirmed (Confirmed setup) = True"
| "is_confirmed _ = False"

definition unsupported :: "string \<Rightarrow> layout_setup_detection" where
  "unsupported reason = UnsupportedDetection (lit reason)"

definition unknown_current_layout :: "string \<Rightarrow> current_layout_state" where
  "unknown_current_layout reason = UnknownLayout (lit reason)"

definition known_current_layout :: "system_layout \<Rightarrow> current_layout_state" where
  "known_current_layout layout = KnownLayout layout True"

subsection \<open>Classification\<close>

fun layout_name_and_kind :: "rtext \<Rightarrow> rtext \<Rightarrow> layout_code \<Rightarrow> rtext \<times> app_layout_kind" where
  "layout_name_and_kind source layout_id Us =
     (if source = lit ''gnome'' then lit ''English'' else lit ''English (US)'', English)"
| "layout_name_and_kind source layout_id Gb = (lit ''English (UK)'', English)"
| "layout_name_and_kind source layout_id Ru = (lit ''Russian'', Russian)"
| "layout_name_and_kind source layout_id (OtherCode _) = (layout_id, Other)"
| "layout_name_and_kind source layout_id UnknownCode = (lit ''Unknown'', Unknown)"

definition make_system_layout :: "rtext \<Rightarrow> rtext \<Rightarrow> layout_code \<Rightarrow> u32 \<Rightarrow> system_layout" where
  "make_system_layout source layout_id code index =
     (case layout_name_and_kind source layout_id code of (name, kind) \<Rightarrow>
      \<lparr>backend_key = (if source = lit ''gnome'' then layout_id
           else source @ lit '':'' @ layout_id @ lit '':'' @ decimal (unat index)),
       normalized_code = code, display_name = name, layout_kind = kind, layout_index = Some index\<rparr>)"

text \<open>The loop over the identifiers, with those seen and the layouts made so far.\<close>

fun collect_layouts ::
  "rtext \<Rightarrow> nat \<Rightarrow> rtext set \<Rightarrow> system_layout list \<Rightarrow> rtext list \<Rightarrow> string + system_layout list" where
  "collect_layouts source index seen layouts [] = Inr layouts"
| "collect_layouts source index seen layouts (layout_id # layout_ids) =
     (if layout_id \<in> seen then Inl ''layout-code-duplicated''
      else case from_normalized layout_id of
        Inl e \<Rightarrow> Inl ''layout-code-malformed''
      | Inr UnknownCode \<Rightarrow> Inl ''layout-code-malformed''
      | Inr code \<Rightarrow>
          collect_layouts source (index + 1) (insert layout_id seen)
            (layouts @ [make_system_layout source layout_id code (of_nat index)]) layout_ids)"

text \<open>The only layout of a kind; \<open>next\<close> twice on the filtered iterator.\<close>

definition only_of_kind :: "app_layout_kind \<Rightarrow> string \<Rightarrow> string \<Rightarrow> system_layout list \<Rightarrow> string + system_layout" where
  "only_of_kind kind missing duplicated layouts =
     (case filter (\<lambda>l. layout_kind l = kind) layouts of
        [] \<Rightarrow> Inl missing
      | [layout] \<Rightarrow> Inr layout
      | _ \<Rightarrow> Inl duplicated)"

definition classify_plain_layouts :: "rtext \<Rightarrow> rtext list \<Rightarrow> layout_setup_detection" where
  "classify_plain_layouts source layout_ids =
     (case collect_layouts source 0 {} [] layout_ids of
        Inl reason \<Rightarrow> unsupported reason
      | Inr layouts \<Rightarrow>
          (case only_of_kind English ''english-layout-missing'' ''english-layout-duplicated'' layouts of
             Inl reason \<Rightarrow> unsupported reason
           | Inr en \<Rightarrow>
               (case only_of_kind Russian ''russian-layout-missing'' ''russian-layout-duplicated'' layouts of
                  Inl reason \<Rightarrow> unsupported reason
                | Inr ru \<Rightarrow>
                    if length layouts = 2 then Confirmed (StrictPair en ru)
                    else Confirmed (PairPlusOther en ru (filter (\<lambda>l. layout_kind l = Other) layouts)))))"

subsection \<open>X11 and GNOME\<close>

definition single_query_field :: "rtext \<Rightarrow> rtext \<Rightarrow> string + rtext option" where
  "single_query_field query field =
     (case List.map_filter (\<lambda>line. map_option trim (strip_prefix (trim_start line) field)) (text_lines query) of
        [] \<Rightarrow> Inr None
      | [value] \<Rightarrow> Inr (Some value)
      | _ \<Rightarrow> Inl (if field = lit ''layout:'' then ''x11-layout-duplicated''
                  else if field = lit ''variant:'' then ''x11-variant-duplicated''
                  else ''x11-query-field-duplicated''))"

definition split_trimmed :: "rtext \<Rightarrow> rtext list" where
  "split_trimmed value = map trim (split_on 44 value)"

definition check_variants :: "rtext \<Rightarrow> rtext list \<Rightarrow> string + unit" where
  "check_variants query layout_ids =
     and_then (single_query_field query (lit ''variant:'')) (\<lambda>found.
       case found of
         None \<Rightarrow> Inr ()
       | Some value \<Rightarrow>
           if length (split_trimmed value) \<noteq> length layout_ids then Inl ''x11-variant-count-mismatch''
           else if list_ex (\<lambda>variant. variant \<noteq> []) (split_trimmed value) then Inl ''x11-variant-unsupported''
           else Inr ())"

definition detect_x11_setup_from_query :: "rtext \<Rightarrow> layout_setup_detection" where
  "detect_x11_setup_from_query query =
     (case single_query_field query (lit ''layout:'') of
        Inl reason \<Rightarrow> unsupported reason
      | Inr None \<Rightarrow> unsupported ''x11-layout-missing''
      | Inr (Some layout_value) \<Rightarrow>
          if layout_value = [] then unsupported ''x11-layout-missing''
          else
            let layout_ids = split_trimmed layout_value in
            if list_ex (\<lambda>value. value = []) layout_ids then unsupported ''x11-layout-malformed''
            else case check_variants query layout_ids of
              Inl reason \<Rightarrow> unsupported reason
            | Inr _ \<Rightarrow> classify_plain_layouts (lit ''x11'') layout_ids)"

record gnome_input_source =
  source_type :: rtext
  source_id :: rtext

fun chunk_sources :: "rtext list \<Rightarrow> gnome_input_source list" where
  "chunk_sources (t # i # values) = \<lparr>source_type = t, source_id = i\<rparr> # chunk_sources values"
| "chunk_sources _ = []"

definition parse_gnome_sources :: "rtext list \<Rightarrow> string + gnome_input_source list" where
  "parse_gnome_sources values =
     (if length values mod 2 \<noteq> 0 then Inl ''gnome-sources-malformed'' else Inr (chunk_sources values))"

definition detect_gnome_setup_from_sources :: "rtext list \<Rightarrow> layout_setup_detection" where
  "detect_gnome_setup_from_sources values =
     (case parse_gnome_sources values of
        Inl reason \<Rightarrow> unsupported reason
      | Inr sources \<Rightarrow>
          if sources = [] then unsupported ''gnome-sources-empty''
          else if list_ex (\<lambda>s. source_type s \<noteq> lit ''xkb'') sources then unsupported ''gnome-source-type-unsupported''
          else classify_plain_layouts (lit ''gnome'') (map source_id sources))"

record desktop_settings_reader =
  reader_setxkbmap_query :: "rtext + rtext"
  reader_gsettings_string_list :: "rtext \<Rightarrow> rtext \<Rightarrow> rtext + rtext list"

definition GNOME_INPUT_SOURCES_SCHEMA :: rtext where
  "GNOME_INPUT_SOURCES_SCHEMA = lit ''org.gnome.desktop.input-sources''"

definition GNOME_SOURCES_KEY :: rtext where
  "GNOME_SOURCES_KEY = lit ''sources''"

definition detect_layout_setup :: "system_context \<Rightarrow> desktop_settings_reader \<Rightarrow> layout_setup_detection" where
  "detect_layout_setup context reader =
     (if ctx_session_type context = X11
      then (case reader_setxkbmap_query reader of
              Inr query \<Rightarrow> detect_x11_setup_from_query query
            | Inl e \<Rightarrow> TemporarilyUnavailable (lit ''setxkbmap-query:'' @ e))
      else if ctx_session_type context = Wayland \<and> ctx_desktop_environment context = Gnome
      then (case reader_gsettings_string_list reader GNOME_INPUT_SOURCES_SCHEMA GNOME_SOURCES_KEY of
              Inr sources \<Rightarrow> detect_gnome_setup_from_sources sources
            | Inl e \<Rightarrow> TemporarilyUnavailable (lit ''gnome-sources:'' @ e))
      else unsupported ''unsupported-session-context'')"

subsection \<open>The active layout\<close>

fun layouts_from_confirmed_setup :: "layout_setup \<Rightarrow> system_layout list option" where
  "layouts_from_confirmed_setup (StrictPair en ru) = Some [en, ru]"
| "layouts_from_confirmed_setup (PairPlusOther en ru others) = Some (en # ru # others)"
| "layouts_from_confirmed_setup (UnsupportedSetup reason) = None"

text \<open>\<open>all\<close> stops at the first index that is too large or was seen before.\<close>

fun all_fresh_below :: "u32 \<Rightarrow> u32 set \<Rightarrow> system_layout list \<Rightarrow> bool" where
  "all_fresh_below bound indices [] = True"
| "all_fresh_below bound indices (l # ls) =
     (case layout_index l of
        None \<Rightarrow> False
      | Some index \<Rightarrow> index < bound \<and> index \<notin> indices \<and> all_fresh_below bound (insert index indices) ls)"

definition indices_match_group_count :: "system_layout list \<Rightarrow> u8 \<Rightarrow> bool" where
  "indices_match_group_count layouts actual_num_groups \<longleftrightarrow>
     unat actual_num_groups = length layouts \<and> all_fresh_below (ucast actual_num_groups) {} layouts"

definition current_layout_from_group :: "layout_setup \<Rightarrow> u8 \<Rightarrow> u8 \<Rightarrow> current_layout_state" where
  "current_layout_from_group setup current_group actual_num_groups =
     (case layouts_from_confirmed_setup setup of
        None \<Rightarrow> unknown_current_layout ''layout-setup-unconfirmed''
      | Some layouts \<Rightarrow>
          if \<not> indices_match_group_count layouts actual_num_groups
          then unknown_current_layout ''layout-group-count-mismatch''
          else case find (\<lambda>l. layout_index l = Some (ucast current_group)) layouts of
            Some layout \<Rightarrow> known_current_layout layout
          | None \<Rightarrow> unknown_current_layout ''layout-group-index-unknown'')"

definition current_layout_from_gnome_sources :: "rtext list \<Rightarrow> rtext list \<Rightarrow> current_layout_state" where
  "current_layout_from_gnome_sources configured_sources mru_values =
     (case detect_gnome_setup_from_sources configured_sources of
        Confirmed setup \<Rightarrow>
          (case parse_gnome_sources mru_values of
             Inl reason \<Rightarrow> unknown_current_layout reason
           | Inr [] \<Rightarrow> unknown_current_layout ''gnome-mru-empty''
           | Inr (current # _) \<Rightarrow>
               if source_type current \<noteq> lit ''xkb''
               then unknown_current_layout ''gnome-current-source-type-unsupported''
               else case Option.bind (layouts_from_confirmed_setup setup)
                   (find (\<lambda>l. normalized_str (normalized_code l) = Some (source_id current))) of
                 Some layout \<Rightarrow> known_current_layout layout
               | None \<Rightarrow> unknown_current_layout ''gnome-current-source-unknown'')
      | _ \<Rightarrow> unknown_current_layout ''gnome-layout-setup-unconfirmed'')"

subsection \<open>Features and backends\<close>

record backend_capabilities =
  can_list_layouts :: bool
  can_read_current_layout :: bool
  can_switch_to_target :: bool
  can_switch_next :: bool
  can_observe_layout_changes :: bool
  can_map_layouts_to_app_kinds :: bool

record feature_availability =
  fa_auto_switch :: bool
  fa_manual_word_fix :: bool
  fa_selected_text_switch :: bool
  fa_reason :: "string option"

fun compatibility_from_setup :: "layout_setup \<Rightarrow> layout_compatibility" where
  "compatibility_from_setup (StrictPair en ru) = FullStrictPair"
| "compatibility_from_setup (PairPlusOther en ru others) = PairPlusOtherCompatible"
| "compatibility_from_setup (UnsupportedSetup reason) = UnsupportedCompatibility"

fun feature_availability_for :: "layout_compatibility \<Rightarrow> backend_capabilities \<Rightarrow> feature_availability" where
  "feature_availability_for FullStrictPair cap =
     (let auto_switch = can_read_current_layout cap \<and> (can_switch_to_target cap \<or> can_switch_next cap) \<and>
            can_map_layouts_to_app_kinds cap;
          manual_word_fix = ((can_switch_to_target cap \<or> can_switch_next cap) \<and> can_map_layouts_to_app_kinds cap)
      in \<lparr>fa_auto_switch = auto_switch, fa_manual_word_fix = manual_word_fix, fa_selected_text_switch = True,
          fa_reason = (if \<not> auto_switch \<or> \<not> manual_word_fix
            then Some ''Backend does not provide enough capabilities for all EN/RU features.'' else None)\<rparr>)"
| "feature_availability_for PairPlusOtherCompatible cap =
     (let auto_switch = can_read_current_layout cap \<and> can_switch_to_target cap \<and> can_map_layouts_to_app_kinds cap
      in \<lparr>fa_auto_switch = auto_switch, fa_manual_word_fix = auto_switch, fa_selected_text_switch = True,
          fa_reason = Some ''Only EN/RU-specific features are available, extra layouts are treated as Other.''\<rparr>)"
| "feature_availability_for LimitedCompatibility cap =
     \<lparr>fa_auto_switch = False, fa_manual_word_fix = False, fa_selected_text_switch = True,
      fa_reason = Some ''Backend is limited: automatic and manual layout-dependent features are disabled.''\<rparr>"
| "feature_availability_for UnsupportedCompatibility cap =
     \<lparr>fa_auto_switch = False, fa_manual_word_fix = False, fa_selected_text_switch = True,
      fa_reason = Some ''Layout setup is unsupported for EN/RU automation on this backend.''\<rparr>"

definition LEGACY_LAYOUT_FALLBACK_IS_ENGLISH :: bool where "LEGACY_LAYOUT_FALLBACK_IS_ENGLISH = True"

definition legacy_layout_state_from_bool :: "bool \<Rightarrow> current_layout_state" where
  "legacy_layout_state_from_bool layout_is_english =
     KnownLayout
       \<lparr>backend_key = (if layout_is_english then lit ''legacy-compat:english'' else lit ''legacy-compat:russian''),
        normalized_code = (if layout_is_english then Us else Ru),
        display_name = (if layout_is_english then lit ''English'' else lit ''Russian''),
        layout_kind = (if layout_is_english then English else Russian), layout_index = None\<rparr> True"

fun legacy_current_layout_bool :: "current_layout_state \<Rightarrow> bool" where
  "legacy_current_layout_bool (KnownLayout layout trustworthy) =
     (case layout_kind layout of English \<Rightarrow> True | Russian \<Rightarrow> False | _ \<Rightarrow> LEGACY_LAYOUT_FALLBACK_IS_ENGLISH)"
| "legacy_current_layout_bool (UnknownLayout reason) = LEGACY_LAYOUT_FALLBACK_IS_ENGLISH"

text \<open>A factory makes a backend or fails, because it does not support the system or otherwise; the registry
  is the list of what its factories return.\<close>

datatype layout_backend_error = UnsupportedOperation | RuntimeFailure rtext

datatype 'b registry_result = Backend 'b | NoBackend rtext

definition register_factory :: "(layout_backend_error + 'b) list \<Rightarrow> layout_backend_error + 'b \<Rightarrow> (layout_backend_error + 'b) list" where
  "register_factory factories factory = factories @ [factory]"

fun pick_backend :: "(layout_backend_error + 'b) list \<Rightarrow> 'b registry_result" where
  "pick_backend [] = NoBackend (lit ''No compatible layout backend is registered.'')"
| "pick_backend (Inr backend # factories) = Backend backend"
| "pick_backend (Inl UnsupportedOperation # factories) = pick_backend factories"
| "pick_backend (Inl (RuntimeFailure reason) # factories) = NoBackend reason"

subsection \<open>Retrying\<close>

text \<open>Times are milliseconds; \<open>checked_add\<close> of an \<open>Instant\<close> fails beyond the last representable one.\<close>

definition RETRY_DELAYS :: "nat list" where
  "RETRY_DELAYS = [1000, 2000, 5000, 10000, 30000]"

record layout_setup_retry =
  lr_failures :: nat
  lr_next_due :: "nat option"

definition instant_checked_add :: "nat \<Rightarrow> nat \<Rightarrow> nat \<Rightarrow> nat option" where
  "instant_checked_add last_instant now delay = (if now + delay \<le> last_instant then Some (now + delay) else None)"

definition retry_confirmed :: layout_setup_retry where
  "retry_confirmed = \<lparr>lr_failures = 0, lr_next_due = None\<rparr>"

definition retry_pending_at :: "nat \<Rightarrow> nat \<Rightarrow> layout_setup_retry" where
  "retry_pending_at last_instant now =
     \<lparr>lr_failures = 0, lr_next_due = instant_checked_add last_instant now (RETRY_DELAYS ! 0)\<rparr>"

definition retry_from_detection :: "nat \<Rightarrow> layout_setup_detection \<Rightarrow> nat \<Rightarrow> layout_setup_retry" where
  "retry_from_detection last_instant detection now =
     (if is_confirmed detection then retry_confirmed else retry_pending_at last_instant now)"

definition record_failure :: "nat \<Rightarrow> layout_setup_retry \<Rightarrow> nat \<Rightarrow> layout_setup_retry" where
  "record_failure last_instant s now =
     (let failures = min (lr_failures s + 1) (2 ^ 64 - 1);
          index = min failures (length RETRY_DELAYS - 1)
      in \<lparr>lr_failures = failures, lr_next_due = instant_checked_add last_instant now (RETRY_DELAYS ! index)\<rparr>)"

definition record_confirmed :: "layout_setup_retry \<Rightarrow> layout_setup_retry" where
  "record_confirmed s = s\<lparr>lr_failures := 0, lr_next_due := None\<rparr>"

definition force_due :: "layout_setup_retry \<Rightarrow> nat \<Rightarrow> layout_setup_retry" where
  "force_due s now = s\<lparr>lr_next_due := Some now\<rparr>"

definition retry_is_due :: "layout_setup_retry \<Rightarrow> nat \<Rightarrow> bool" where
  "retry_is_due s now = (case lr_next_due s of None \<Rightarrow> False | Some due \<Rightarrow> now \<ge> due)"

end
