(* ===== verification/Layout_Properties.thy ===== *)
theory Layout_Properties
  imports Layout_Detection "HOL-Library.Multiset"
begin

text \<open>
  Properties of layout detection: which setups are confirmed, and that the active layout is then the
  one at its position in the settings or reported as unknown, never another one.
\<close>

subsection \<open>Classification\<close>

definition plain_code :: "rtext \<Rightarrow> layout_code" where
  "plain_code layout_id = (case from_normalized layout_id of Inl e \<Rightarrow> UnknownCode | Inr code \<Rightarrow> code)"

definition layout_at :: "rtext \<Rightarrow> nat \<times> rtext \<Rightarrow> system_layout" where
  "layout_at source = (\<lambda>(i, layout_id). make_system_layout source layout_id (plain_code layout_id) (of_nat i))"

lemma collect_layouts_Inr:
  "collect_layouts source i seen acc ids = Inr ls \<longleftrightarrow>
     distinct ids \<and> set ids \<inter> seen = {} \<and> list_all (\<lambda>d. plain_code d \<noteq> UnknownCode) ids \<and>
     ls = acc @ map (layout_at source) (enumerate i ids)"
  by (induction source i seen acc ids rule: collect_layouts.induct)
    (auto simp: plain_code_def layout_at_def enumerate_Suc_eq split: sum.splits layout_code.splits)

lemma make_system_layout_simps [simp]:
  "layout_index (make_system_layout source d code i) = Some i"
  "normalized_code (make_system_layout source d code i) = code"
  "layout_kind (make_system_layout source d code i) = snd (layout_name_and_kind source d code)"
  by (simp_all add: make_system_layout_def split: prod.split)

lemma plain_code_cases:
  "plain_code d = Us \<longleftrightarrow> d = lit ''us''" "plain_code d = Gb \<longleftrightarrow> d = lit ''gb''" "plain_code d = Ru \<longleftrightarrow> d = lit ''ru''"
  by (auto simp: plain_code_def from_normalized_def normalized_layout_code_new_def lit_def)

lemma layout_kind_at:
  "layout_kind (layout_at source (i, d)) = English \<longleftrightarrow> d \<in> {lit ''us'', lit ''gb''}"
  "layout_kind (layout_at source (i, d)) = Russian \<longleftrightarrow> d = lit ''ru''"
  "layout_kind (layout_at source (i, d)) = Other \<longleftrightarrow>
     plain_code d \<noteq> UnknownCode \<and> d \<notin> {lit ''us'', lit ''gb'', lit ''ru''}"
  using plain_code_cases [of d] by (cases "plain_code d"; auto simp: layout_at_def)+

lemma only_of_kind_Inr:
  "only_of_kind kind m d ls = Inr l \<longleftrightarrow> filter (\<lambda>l. layout_kind l = kind) ls = [l]"
  by (auto simp: only_of_kind_def split: list.splits)

text \<open>How often an identifier with a property occurs, counted on the layouts made from the list.\<close>

lemma filter_layouts:
  assumes "\<And>i d. layout_kind (layout_at source (i, d)) = kind \<longleftrightarrow> P d"
  shows "length (filter (\<lambda>l. layout_kind l = kind) (map (layout_at source) (enumerate i ids))) = length (filter P ids)"
  using assms by (induction ids arbitrary: i) auto

lemma length_filter_two:
  assumes "distinct xs" and "a \<noteq> b"
  shows "length (filter (\<lambda>x. x \<in> {a, b}) xs) = (if a \<in> set xs then 1 else 0) + (if b \<in> set xs then 1 else 0)"
  using assms by (induction xs) auto

lemma length_filter_one: "distinct xs \<Longrightarrow> length (filter (\<lambda>x. x = a) xs) = (if a \<in> set xs then 1 else 0)"
  by (induction xs) auto

lemma singleton_length: "(\<exists>x. xs = [x]) \<longleftrightarrow> length xs = 1"
  by (cases xs) auto

definition plain_pair :: "rtext list \<Rightarrow> bool" where
  "plain_pair ids \<longleftrightarrow> distinct ids \<and> list_all (\<lambda>d. plain_code d \<noteq> UnknownCode) ids \<and>
     (lit ''us'' \<in> set ids) \<noteq> (lit ''gb'' \<in> set ids) \<and> lit ''ru'' \<in> set ids"

lemma one_english:
  assumes "distinct ids"
  shows "(\<exists>l. filter (\<lambda>l. layout_kind l = English) (map (layout_at source) (enumerate 0 ids)) = [l]) \<longleftrightarrow>
     (lit ''us'' \<in> set ids) \<noteq> (lit ''gb'' \<in> set ids)"
proof -
  have "length (filter (\<lambda>l. layout_kind l = English) (map (layout_at source) (enumerate 0 ids))) =
      length (filter (\<lambda>d. d \<in> {lit ''us'', lit ''gb''}) ids)"
    by (rule filter_layouts) (rule layout_kind_at)
  also have "\<dots> = (if lit ''us'' \<in> set ids then 1 else 0) + (if lit ''gb'' \<in> set ids then 1 else 0)"
    by (rule length_filter_two [OF assms]) (simp add: lit_def)
  finally show ?thesis unfolding singleton_length by (simp only:) auto
qed

lemma one_russian:
  assumes "distinct ids"
  shows "(\<exists>l. filter (\<lambda>l. layout_kind l = Russian) (map (layout_at source) (enumerate 0 ids)) = [l]) \<longleftrightarrow> lit ''ru'' \<in> set ids"
proof -
  have "length (filter (\<lambda>l. layout_kind l = Russian) (map (layout_at source) (enumerate 0 ids))) =
      length (filter (\<lambda>d. d = lit ''ru'') ids)"
    by (rule filter_layouts) (rule layout_kind_at)
  with length_filter_one [OF assms, of "lit ''ru''"] show ?thesis unfolding singleton_length by (simp only:) auto
qed

lemma layouts_by_kind:
  assumes "list_all (\<lambda>d. plain_code d \<noteq> UnknownCode) ids"
  shows "mset (map (layout_at source) (enumerate i ids)) =
     mset (filter (\<lambda>l. layout_kind l = English) (map (layout_at source) (enumerate i ids))) +
     mset (filter (\<lambda>l. layout_kind l = Russian) (map (layout_at source) (enumerate i ids))) +
     mset (filter (\<lambda>l. layout_kind l = Other) (map (layout_at source) (enumerate i ids)))"
  using assms
proof (induction ids arbitrary: i)
  case (Cons d ids)
  have "layout_kind (layout_at source (i, d)) \<in> {English, Russian, Other}"
    using Cons.prems layout_kind_at [of source i d] by auto
  with Cons.IH [of "Suc i"] Cons.prems show ?case by auto
qed simp

text \<open>A confirmed setup contains exactly the layouts of the list, each with its position.\<close>

lemma classified_layouts:
  assumes "classify_plain_layouts source ids = Confirmed setup"
  shows "plain_pair ids \<and> (\<exists>layouts. layouts_from_confirmed_setup setup = Some layouts \<and>
     mset layouts = mset (map (layout_at source) (enumerate 0 ids)))"
proof -
  let ?ls = "map (layout_at source) (enumerate 0 ids)"
  obtain ls where ls: "collect_layouts source 0 {} [] ids = Inr ls"
    using assms by (auto simp: classify_plain_layouts_def unsupported_def split: sum.splits)
  then have ids: "distinct ids" "list_all (\<lambda>d. plain_code d \<noteq> UnknownCode) ids" "ls = ?ls"
    by (auto simp: collect_layouts_Inr)
  obtain en ru where en: "filter (\<lambda>l. layout_kind l = English) ?ls = [en]"
    and ru: "filter (\<lambda>l. layout_kind l = Russian) ?ls = [ru]"
    and built: "setup = (if length ?ls = 2 then StrictPair en ru
      else PairPlusOther en ru (filter (\<lambda>l. layout_kind l = Other) ?ls))"
    using assms ls ids(3)
    by (auto simp: classify_plain_layouts_def unsupported_def only_of_kind_Inr split: sum.splits if_splits)
  define os where "os = filter (\<lambda>l. layout_kind l = Other) ?ls"
  have parts: "mset ?ls = mset [en] + mset [ru] + mset os"
    unfolding os_def using layouts_by_kind [OF ids(2), of source 0] by (simp only: en ru)
  have "length ?ls = 2 + length os" using arg_cong [OF parts, of size] by (simp only: size_mset size_union list.size)
  then have "\<exists>layouts. layouts_from_confirmed_setup setup = Some layouts \<and> mset layouts = mset ?ls"
    unfolding built parts os_def [symmetric] by (cases "length ?ls = 2") simp_all
  moreover have "plain_pair ids"
    using ids one_english [OF ids(1), of source] one_russian [OF ids(1), of source] en ru by (auto simp: plain_pair_def)
  ultimately show ?thesis by blast
qed

text \<open>
  When a setup is confirmed.  A list of layouts is accepted exactly when no layout is listed twice,
  all have plain names, exactly one of the two English layouts is among them, and so is the Russian one.
\<close>

theorem layout_setup_exact:
  "is_confirmed (classify_plain_layouts source ids) \<longleftrightarrow>
     distinct ids \<and> list_all (\<lambda>d. plain_code d \<noteq> UnknownCode) ids \<and>
     (lit ''us'' \<in> set ids) \<noteq> (lit ''gb'' \<in> set ids) \<and> lit ''ru'' \<in> set ids"
proof
  assume "is_confirmed (classify_plain_layouts source ids)"
  then obtain st where "classify_plain_layouts source ids = Confirmed st"
    by (cases "classify_plain_layouts source ids") auto
  from classified_layouts [OF this] show "distinct ids \<and> list_all (\<lambda>d. plain_code d \<noteq> UnknownCode) ids \<and>
     (lit ''us'' \<in> set ids) \<noteq> (lit ''gb'' \<in> set ids) \<and> lit ''ru'' \<in> set ids"
    by (simp add: plain_pair_def)
next
  assume plain: "distinct ids \<and> list_all (\<lambda>d. plain_code d \<noteq> UnknownCode) ids \<and>
     (lit ''us'' \<in> set ids) \<noteq> (lit ''gb'' \<in> set ids) \<and> lit ''ru'' \<in> set ids"
  let ?ls = "map (layout_at source) (enumerate 0 ids)"
  have ls: "collect_layouts source 0 {} [] ids = Inr ?ls" using plain by (simp add: collect_layouts_Inr)
  obtain en ru where "filter (\<lambda>l. layout_kind l = English) ?ls = [en]" "filter (\<lambda>l. layout_kind l = Russian) ?ls = [ru]"
    using plain one_english [of ids source] one_russian [of ids source] by metis
  then have "only_of_kind English m d ?ls = Inr en" "only_of_kind Russian m d ?ls = Inr ru" for m d
    unfolding only_of_kind_Inr .
  then show "is_confirmed (classify_plain_layouts source ids)"
    by (simp add: classify_plain_layouts_def ls)
qed

subsection \<open>The active layout\<close>

lemma all_fresh_below_iff:
  "all_fresh_below bound seen ls \<longleftrightarrow> distinct (map layout_index ls) \<and>
     (\<forall>l \<in> set ls. \<exists>i. layout_index l = Some i \<and> i < bound \<and> i \<notin> seen)"
proof (induction ls arbitrary: seen)
  case (Cons l ls)
  show ?case
  proof (cases "layout_index l")
    case (Some i)
    have "(\<forall>l \<in> set ls. \<exists>j. layout_index l = Some j \<and> j < bound \<and> j \<notin> insert i seen) \<longleftrightarrow>
        (\<forall>l \<in> set ls. \<exists>j. layout_index l = Some j \<and> j < bound \<and> j \<notin> seen) \<and> Some i \<notin> layout_index ` set ls"
      by (simp add: image_iff) (metis option.inject)
    with Some Cons.IH [of "insert i seen"] show ?thesis by auto
  qed simp
qed simp

lemma index_of_layout_at [simp]: "layout_index (layout_at source (i, d)) = Some (of_nat i)"
  by (simp add: layout_at_def)

lemma layout_indices: "map layout_index (map (layout_at source) (enumerate 0 ids)) = map (\<lambda>i. Some (of_nat i)) [0..<length ids]"
  by (rule nth_equalityI) (simp_all add: nth_enumerate_eq)

lemma u32_of_nat_inject: "i < 256 \<Longrightarrow> j < 256 \<Longrightarrow> (of_nat i :: u32) = of_nat j \<longleftrightarrow> i = j"
  by (simp add: word_of_nat_eq_iff take_bit_nat_eq_self)

lemma u8_bound [simp]: "unat (n :: u8) < 256"
  using unsigned_less [of n] by simp

lemma distinct_map_mset: "mset xs = mset ys \<Longrightarrow> distinct (map f xs) = distinct (map f ys)"
  using mset_eq_imp_distinct_iff [of "map f xs" "map f ys"] by simp

lemma u32_of_nat_less: "i < 256 \<Longrightarrow> j < 256 \<Longrightarrow> (of_nat i :: u32) < of_nat j \<longleftrightarrow> i < j"
  by (simp add: word_of_nat_less_iff take_bit_nat_eq_self)

lemma u8_as_u32: "(ucast (g :: u8) :: u32) = of_nat (unat g)"
  by simp

lemma distinct_indices: "length ids < 256 \<Longrightarrow> distinct (map layout_index (map (layout_at source) (enumerate 0 ids)))"
  unfolding layout_indices by (auto simp: distinct_map inj_on_def u32_of_nat_inject)

lemma indices_match_iff:
  assumes "mset layouts = mset (map (layout_at source) (enumerate 0 ids))"
  shows "indices_match_group_count layouts n \<longleftrightarrow> unat n = length ids"
proof -
  let ?ls = "map (layout_at source) (enumerate 0 ids)"
  have len: "length layouts = length ids" using mset_eq_length [OF assms] by simp
  have "distinct (map layout_index layouts) = distinct (map layout_index ?ls)"
    by (rule distinct_map_mset [OF assms])
  moreover have "distinct (map layout_index ?ls)" if "unat n = length ids"
    by (rule distinct_indices) (simp flip: that)
  moreover have "\<forall>l \<in> set layouts. \<exists>i. layout_index l = Some i \<and> i < ucast n \<and> i \<notin> {}" if n: "unat n = length ids"
  proof
    fix l assume "l \<in> set layouts"
    then have "l \<in> set ?ls" using mset_eq_setD [OF assms] by simp
    then obtain i where "i < length ids" "layout_index l = Some (of_nat i)" by (auto simp: in_set_enumerate_eq)
    moreover from this(1) n u8_bound [of n] have "(of_nat i :: u32) < ucast n"
      unfolding u8_as_u32 by (subst u32_of_nat_less) simp_all
    ultimately show "\<exists>i. layout_index l = Some i \<and> i < ucast n \<and> i \<notin> {}" by blast
  qed
  ultimately show ?thesis by (auto simp: indices_match_group_count_def all_fresh_below_iff len)
qed

lemma find_layout_at:
  assumes "mset layouts = mset (map (layout_at source) (enumerate 0 ids))" and "length ids < 256"
  shows "find (\<lambda>l. layout_index l = Some (ucast (g :: u8))) layouts =
     (if unat g < length ids then Some (layout_at source (unat g, ids ! unat g)) else None)"
proof -
  let ?ls = "map (layout_at source) (enumerate 0 ids)"
  have set: "set layouts = set ?ls" using assms(1) by (rule mset_eq_setD)
  have "distinct (map layout_index layouts)"
    unfolding distinct_map_mset [OF assms(1)] by (rule distinct_indices [OF assms(2)])
  then show ?thesis
  proof (cases "unat g < length ids")
    case True
    then have "layout_at source (unat g, ids ! unat g) \<in> set layouts"
      unfolding set by (force simp: in_set_enumerate_eq)
    from find_unique_key [OF \<open>distinct (map layout_index layouts)\<close> this] True show ?thesis unfolding u8_as_u32 by simp
  next
    case False
    have "layout_index l \<noteq> Some (ucast g)" if l: "l \<in> set layouts" for l
    proof -
      from l obtain i where i: "i < length ids" "layout_index l = Some (of_nat i)"
        unfolding set by (auto simp: in_set_enumerate_eq)
      with False assms(2) have "(of_nat i :: u32) \<noteq> of_nat (unat g)" by (subst u32_of_nat_inject) auto
      with i(2) show ?thesis unfolding u8_as_u32 by simp
    qed
    with False show ?thesis by (auto simp: find_None_iff)
  qed
qed

text \<open>
  C40: the active layout is the one at its position.  For a setup confirmed from a list of layouts, and
  any group number and number of groups the X server reports: when the numbers of groups and layouts
  differ, or the group is out of range, the layout is unknown; otherwise it is the layout listed at the
  position of the group, with its kind.  It is never a different one.
\<close>

theorem current_layout_exact:
  assumes "classify_plain_layouts source ids = Confirmed st"
  shows "current_layout_from_group st g n =
     (if unat n \<noteq> length ids then UnknownLayout (lit ''layout-group-count-mismatch'')
      else if unat g \<ge> length ids then UnknownLayout (lit ''layout-group-index-unknown'')
      else KnownLayout (make_system_layout source (ids ! unat g) (plain_code (ids ! unat g)) (ucast g)) True)"
proof -
  obtain layouts where layouts: "layouts_from_confirmed_setup st = Some layouts"
    "mset layouts = mset (map (layout_at source) (enumerate 0 ids))"
    using classified_layouts [OF assms] by blast
  show ?thesis
  proof (cases "unat n = length ids")
    case True
    then have "length ids < 256" by (simp flip: True)
    with layouts True find_layout_at [OF layouts(2), of g] indices_match_iff [OF layouts(2), of n] show ?thesis
      by (simp add: current_layout_from_group_def known_current_layout_def unknown_current_layout_def layout_at_def)
  next
    case False
    with layouts indices_match_iff [OF layouts(2), of n] show ?thesis
      by (simp add: current_layout_from_group_def unknown_current_layout_def)
  qed
qed

theorem current_layout_exact_witness:
  "(case classify_plain_layouts (lit ''x11'') [lit ''us'', lit ''de'', lit ''ru''] of
      Confirmed st \<Rightarrow> (case current_layout_from_group st 2 3 of
         KnownLayout l t \<Rightarrow> layout_kind l = Russian \<and> t | _ \<Rightarrow> False)
    | _ \<Rightarrow> False)"
proof -
  let ?ids = "[lit ''us'', lit ''de'', lit ''ru'']"
  have "is_confirmed (classify_plain_layouts (lit ''x11'') ?ids)" by code_simp
  then obtain st where st: "classify_plain_layouts (lit ''x11'') ?ids = Confirmed st"
    by (cases "classify_plain_layouts (lit ''x11'') ?ids") auto
  have "plain_code (lit ''ru'') = Ru" by code_simp
  with current_layout_exact [OF st, of 2 3] st show ?thesis by simp
qed

text \<open>The list an X11 setup is confirmed from: the one layout line of the query, without variants.\<close>

lemma x11_setup_layouts:
  assumes "detect_x11_setup_from_query query = Confirmed st"
  obtains v where "single_query_field query (lit ''layout:'') = Inr (Some v)"
    "check_variants query (split_trimmed v) = Inr ()"
    "classify_plain_layouts (lit ''x11'') (split_trimmed v) = Confirmed st"
proof -
  obtain v where v: "single_query_field query (lit ''layout:'') = Inr (Some v)"
    using assms by (auto simp: detect_x11_setup_from_query_def unsupported_def split: sum.splits option.splits)
  with assms have "check_variants query (split_trimmed v) = Inr ()"
    "classify_plain_layouts (lit ''x11'') (split_trimmed v) = Confirmed st"
    by (auto simp: detect_x11_setup_from_query_def unsupported_def Let_def split: sum.splits if_splits)
  with v show ?thesis by (rule that)
qed

subsection \<open>Features\<close>

text \<open>
  Features fail closed.  Automatic switching is offered only for a confirmed setup on a backend that
  can read the layout and map it, and that can switch to a target; only with exactly two layouts the
  next layout will do.  The same holds for the manual correction with more than two layouts; an
  unconfirmed setup has neither.
\<close>

theorem features_fail_closed:
  "let f = feature_availability_for (compatibility_from_setup (effective_setup d)) cap;
       switch = can_map_layouts_to_app_kinds cap \<and> (case d of
         Confirmed (StrictPair en ru) \<Rightarrow> can_switch_to_target cap \<or> can_switch_next cap
       | Confirmed (PairPlusOther en ru others) \<Rightarrow> can_switch_to_target cap \<and> can_read_current_layout cap
       | _ \<Rightarrow> False)
   in fa_auto_switch f = (switch \<and> can_read_current_layout cap) \<and> fa_manual_word_fix f = switch \<and>
      fa_selected_text_switch f \<and>
      (fa_reason f = None) = (fa_auto_switch f \<and> fa_manual_word_fix f \<and> (case d of Confirmed (StrictPair _ _) \<Rightarrow> True | _ \<Rightarrow> False))"
  by (cases d; cases "effective_setup d")
    (auto simp: Let_def split: layout_setup.splits)

subsection \<open>Retries\<close>

text \<open>However often detection failed, the next attempt is due between one and thirty seconds later.\<close>

lemma retry_due_bounds:
  assumes "now + 30000 \<le> last_instant"
  shows "\<exists>due. lr_next_due (record_failure last_instant s now) = Some due \<and> now + 1000 < due \<and> due \<le> now + 30000 \<and>
     retry_is_due (record_failure last_instant s now) due \<and> \<not> retry_is_due (record_failure last_instant s now) now"
proof -
  define k where "k = min (min (lr_failures s + 1) (2 ^ 64 - 1)) (length RETRY_DELAYS - 1)"
  have "k \<in> {1, 2, 3, 4}" by (auto simp: k_def RETRY_DELAYS_def)
  then have "RETRY_DELAYS ! k \<in> {2000, 5000, 10000, 30000}" by (auto simp: RETRY_DELAYS_def)
  with assms show ?thesis
    unfolding record_failure_def Let_def k_def [symmetric]
    by (auto simp: retry_is_due_def instant_checked_add_def)
qed

end
