(* ===== verification/Switch_Detection.thy ===== *)
theory Switch_Detection
  imports Layout_Detection
begin

text \<open>
  Finding out which combination the desktop switches layouts with: src/src/layout_switch/mod.rs.  The
  commands that print settings are parameters: their outputs, or errors, which the code only logs.
\<close>

subsection \<open>Options and bindings\<close>

fun find_map :: "('a \<Rightarrow> 'b option) \<Rightarrow> 'a list \<Rightarrow> 'b option" where
  "find_map f [] = None"
| "find_map f (x # xs) = (case f x of None \<Rightarrow> find_map f xs | Some y \<Rightarrow> Some y)"

definition combo_from_xkb_option :: "rtext \<Rightarrow> layout_switch_combo option" where
  "combo_from_xkb_option option =
     (if option = lit ''grp:ctrl_shift_toggle'' then Some CtrlShift
      else if option = lit ''grp:alt_shift_toggle'' then Some AltShift
      else if option = lit ''grp:caps_toggle'' then Some CapsLock
      else if option = lit ''grp:ctrl_space_toggle'' then Some CtrlSpace
      else if option = lit ''grp:win_space_toggle'' then Some SuperSpace
      else if option = lit ''grp:lctrl_lshift_toggle'' then Some LeftCtrlLeftShift
      else if option = lit ''grp:rctrl_rshift_toggle'' then Some RightCtrlRightShift
      else if option = lit ''grp:lalt_lshift_toggle'' then Some LeftAltLeftShift
      else if option = lit ''grp:ralt_rshift_toggle'' then Some RightAltRightShift
      else None)"

definition combo_from_option_list :: "rtext \<Rightarrow> layout_switch_combo option" where
  "combo_from_option_list raw = find_map combo_from_xkb_option (map trim (split_on 44 raw))"

datatype accelerator_side = GenericSide | LeftSide | RightSide

datatype accelerator_token =
    ShiftToken accelerator_side
  | CtrlToken accelerator_side
  | AltToken accelerator_side
  | SuperToken accelerator_side

definition ACCELERATOR_NAMES :: "(string \<times> accelerator_token) list" where
  "ACCELERATOR_NAMES =
     [(''shift'', ShiftToken GenericSide), (''shift_l'', ShiftToken LeftSide), (''shift_r'', ShiftToken RightSide),
      (''control'', CtrlToken GenericSide), (''ctrl'', CtrlToken GenericSide), (''primary'', CtrlToken GenericSide),
      (''control_l'', CtrlToken LeftSide), (''ctrl_l'', CtrlToken LeftSide), (''primary_l'', CtrlToken LeftSide),
      (''control_r'', CtrlToken RightSide), (''ctrl_r'', CtrlToken RightSide), (''primary_r'', CtrlToken RightSide),
      (''alt'', AltToken GenericSide), (''alt_l'', AltToken LeftSide), (''alt_r'', AltToken RightSide),
      (''super'', SuperToken GenericSide), (''meta'', SuperToken GenericSide), (''win'', SuperToken GenericSide),
      (''super_l'', SuperToken LeftSide), (''meta_l'', SuperToken LeftSide), (''win_l'', SuperToken LeftSide),
      (''super_r'', SuperToken RightSide), (''meta_r'', SuperToken RightSide), (''win_r'', SuperToken RightSide)]"

definition normalize_gnome_key_token :: "rtext \<Rightarrow> accelerator_token option" where
  "normalize_gnome_key_token token =
     map_option snd (find (\<lambda>(name, t). map to_ascii_lowercase (trim token) = lit name) ACCELERATOR_NAMES)"

definition normalize_gnome_modifier_token :: "rtext \<Rightarrow> accelerator_token option" where
  "normalize_gnome_modifier_token token = normalize_gnome_key_token token"

definition normalize_gnome_key_name :: "rtext \<Rightarrow> rtext option" where
  "normalize_gnome_key_name key =
     (let normalized = map to_ascii_lowercase (trim key) in if normalized = [] then None else Some normalized)"

text \<open>The loop: while the rest starts with an opening bracket, the text up to the closing one is a modifier.\<close>

function parse_binding_loop :: "accelerator_token list \<Rightarrow> rtext \<Rightarrow> (accelerator_token list \<times> rtext) option" where
  "parse_binding_loop modifiers rest =
     (case strip_prefix rest (lit ''<'') of
        None \<Rightarrow> map_option (\<lambda>key. (modifiers, key)) (normalize_gnome_key_name rest)
      | Some stripped \<Rightarrow>
          (case position (\<lambda>c. c = 62) stripped of
             None \<Rightarrow> None
           | Some end_index \<Rightarrow>
               (case normalize_gnome_modifier_token (take end_index stripped) of
                  None \<Rightarrow> None
                | Some token \<Rightarrow> parse_binding_loop (modifiers @ [token]) (drop (end_index + 1) stripped))))"
  by pat_completeness auto

termination parse_binding_loop
proof (relation "measure (\<lambda>(modifiers, rest). length rest)")
  fix rest stripped end_index
  assume "strip_prefix rest (lit ''<'') = Some stripped"
  then have "length stripped < length rest"
    by (auto simp: strip_prefix_def lit_def split: if_splits dest: arg_cong [where f = length])
  then show "((modifiers, drop (end_index + 1) stripped), modifiers', rest) \<in> measure (\<lambda>(modifiers, rest). length rest)"
    for modifiers modifiers' by simp
qed simp

definition parse_gnome_binding :: "rtext \<Rightarrow> (accelerator_token list \<times> rtext) option" where
  "parse_gnome_binding binding = parse_binding_loop [] (trim binding)"

fun combo_from_gnome_space_binding :: "accelerator_token list \<Rightarrow> rtext \<Rightarrow> layout_switch_combo option" where
  "combo_from_gnome_space_binding [modifier] key =
     (if key \<noteq> lit ''space'' then None
      else if modifier \<in> {SuperToken GenericSide, SuperToken LeftSide} then Some SuperSpace
      else if modifier \<in> {CtrlToken GenericSide, CtrlToken LeftSide} then Some CtrlSpace
      else None)"
| "combo_from_gnome_space_binding _ key = None"

definition is_alt :: "accelerator_token \<Rightarrow> bool" where "is_alt t = (case t of AltToken _ \<Rightarrow> True | _ \<Rightarrow> False)"
definition is_ctrl :: "accelerator_token \<Rightarrow> bool" where "is_ctrl t = (case t of CtrlToken _ \<Rightarrow> True | _ \<Rightarrow> False)"

fun primary_token_side ::
  "accelerator_token \<Rightarrow> rtext \<Rightarrow> accelerator_token \<Rightarrow> accelerator_token \<Rightarrow> accelerator_side option" where
  "primary_token_side (AltToken side) key primary_generic secondary_generic =
     (case normalize_gnome_key_token key of
        Some (ShiftToken _) \<Rightarrow> if is_alt primary_generic then Some side else None
      | _ \<Rightarrow> None)"
| "primary_token_side (CtrlToken side) key primary_generic secondary_generic =
     (case normalize_gnome_key_token key of
        Some (ShiftToken _) \<Rightarrow> if is_ctrl primary_generic then Some side else None
      | _ \<Rightarrow> None)"
| "primary_token_side (ShiftToken _) key primary_generic secondary_generic =
     (case normalize_gnome_key_token key of
        Some (AltToken side) \<Rightarrow> if is_alt primary_generic then Some side else None
      | Some (CtrlToken side) \<Rightarrow> if is_ctrl primary_generic then Some side else None
      | _ \<Rightarrow> None)"
| "primary_token_side (SuperToken _) key primary_generic secondary_generic = None"

fun secondary_token_side ::
  "accelerator_token \<Rightarrow> rtext \<Rightarrow> accelerator_token \<Rightarrow> accelerator_token \<Rightarrow> accelerator_side option" where
  "secondary_token_side modifier key primary_generic secondary_generic =
     (if secondary_generic \<noteq> ShiftToken GenericSide then None
      else case modifier of
        ShiftToken side \<Rightarrow>
          (case normalize_gnome_key_token key of
             Some (AltToken _) \<Rightarrow> Some side
           | Some (CtrlToken _) \<Rightarrow> Some side
           | _ \<Rightarrow> None)
      | SuperToken _ \<Rightarrow> None
      | _ \<Rightarrow> (case normalize_gnome_key_token key of Some (ShiftToken side) \<Rightarrow> Some side | _ \<Rightarrow> None))"

definition side_pair_matches_generic_left :: "accelerator_side \<Rightarrow> accelerator_side \<Rightarrow> bool" where
  "side_pair_matches_generic_left primary secondary \<longleftrightarrow>
     primary \<in> {GenericSide, LeftSide} \<and> secondary \<in> {GenericSide, LeftSide}"

definition gnome_shift_combo ::
  "accelerator_token \<Rightarrow> rtext \<Rightarrow> accelerator_token \<Rightarrow> accelerator_token \<Rightarrow> layout_switch_combo option" where
  "gnome_shift_combo modifier key primary_generic secondary_generic =
     Option.bind (primary_token_side modifier key primary_generic secondary_generic) (\<lambda>primary.
     Option.bind (secondary_token_side modifier key primary_generic secondary_generic) (\<lambda>secondary.
     if primary_generic = AltToken GenericSide \<and> primary = LeftSide \<and> secondary = LeftSide then Some LeftAltLeftShift
     else if primary_generic = AltToken GenericSide \<and> primary = RightSide \<and> secondary = RightSide then Some RightAltRightShift
     else if primary_generic = AltToken GenericSide \<and> side_pair_matches_generic_left primary secondary then Some AltShift
     else if primary_generic = CtrlToken GenericSide \<and> primary = LeftSide \<and> secondary = LeftSide then Some LeftCtrlLeftShift
     else if primary_generic = CtrlToken GenericSide \<and> primary = RightSide \<and> secondary = RightSide then Some RightCtrlRightShift
     else if primary_generic = CtrlToken GenericSide \<and> side_pair_matches_generic_left primary secondary then Some CtrlShift
     else None))"

definition combo_from_gnome_shift_pair :: "accelerator_token \<Rightarrow> rtext \<Rightarrow> layout_switch_combo option" where
  "combo_from_gnome_shift_pair modifier key =
     (case gnome_shift_combo modifier key (AltToken GenericSide) (ShiftToken GenericSide) of
        Some combo \<Rightarrow> Some combo
      | None \<Rightarrow> gnome_shift_combo modifier key (CtrlToken GenericSide) (ShiftToken GenericSide))"

definition combo_from_gnome_binding :: "rtext \<Rightarrow> layout_switch_combo option" where
  "combo_from_gnome_binding binding =
     Option.bind (parse_gnome_binding binding) (\<lambda>(modifiers, key).
     if modifiers = [] then (if key = lit ''caps_lock'' then Some CapsLock else None)
     else case combo_from_gnome_space_binding modifiers key of
       Some combo \<Rightarrow> Some combo
     | None \<Rightarrow> (case modifiers of [modifier] \<Rightarrow> combo_from_gnome_shift_pair modifier key | _ \<Rightarrow> None))"

subsection \<open>Command output\<close>

text \<open>\<open>split_once\<close>: the text before and after the first occurrence of the pattern.\<close>

fun split_once :: "rtext \<Rightarrow> rtext \<Rightarrow> (rtext \<times> rtext) option" where
  "split_once pattern [] = (if pattern = [] then Some ([], []) else None)"
| "split_once pattern (c # cs) =
     (case strip_prefix (c # cs) pattern of
        Some rest \<Rightarrow> Some ([], rest)
      | None \<Rightarrow> map_option (\<lambda>(before, rest). (c # before, rest)) (split_once pattern cs))"

definition parse_setxkbmap_options_line :: "rtext \<Rightarrow> rtext option" where
  "parse_setxkbmap_options_line line =
     map_option (\<lambda>(_, options). trim options) (split_once (lit ''options:'') (trim line))"

text \<open>The loop over the characters, with the flag, the current string and the values so far.\<close>

fun gsettings_loop :: "bool \<Rightarrow> rtext \<Rightarrow> rtext list \<Rightarrow> rtext \<Rightarrow> rtext list" where
  "gsettings_loop in_string cur values [] = values"
| "gsettings_loop in_string cur values (ch # chs) =
     (if ch = 39 \<and> in_string then gsettings_loop False [] (values @ [cur]) chs
      else if ch = 39 then gsettings_loop True cur values chs
      else if in_string then gsettings_loop in_string (cur @ [ch]) values chs
      else gsettings_loop in_string cur values chs)"

definition parse_gsettings_string_list :: "rtext \<Rightarrow> rtext list" where
  "parse_gsettings_string_list output =
     (let trimmed = trim output in
      if trimmed = lit ''@as []'' \<or> trimmed = lit ''[]'' then [] else gsettings_loop False [] [] trimmed)"

text \<open>What the commands print, or how they fail.\<close>

record desktop_commands =
  cmd_gsettings :: "rtext \<Rightarrow> rtext \<Rightarrow> rtext + rtext"
  cmd_xfconf :: "rtext \<Rightarrow> rtext \<Rightarrow> rtext + rtext"
  cmd_setxkbmap :: "rtext + rtext"

definition gsettings_string_list :: "desktop_commands \<Rightarrow> rtext \<Rightarrow> rtext \<Rightarrow> rtext + rtext list" where
  "gsettings_string_list cmds schema key =
     and_then (cmd_gsettings cmds schema key) (\<lambda>stdout. Inr (parse_gsettings_string_list stdout))"

definition xfconf_string :: "desktop_commands \<Rightarrow> rtext \<Rightarrow> rtext \<Rightarrow> rtext + rtext" where
  "xfconf_string cmds channel property = and_then (cmd_xfconf cmds channel property) (\<lambda>stdout. Inr (trim stdout))"

definition xfconf_bool :: "desktop_commands \<Rightarrow> rtext \<Rightarrow> rtext \<Rightarrow> rtext + bool" where
  "xfconf_bool cmds channel property =
     and_then (xfconf_string cmds channel property) (\<lambda>value.
       Inr (value \<in> {lit ''true'', lit ''True'', lit ''TRUE'', lit ''1''}))"

definition setxkbmap_query :: "desktop_commands \<Rightarrow> rtext + rtext" where
  "setxkbmap_query cmds = cmd_setxkbmap cmds"

subsection \<open>Strategies\<close>

datatype switch_strategy = StrategyXfceX11 | StrategyCinnamonX11 | StrategyGnomeWayland | StrategyUnsupported

definition select_strategy :: "system_context \<Rightarrow> switch_strategy" where
  "select_strategy context =
     (case (ctx_desktop_environment context, ctx_session_type context) of
        (Xfce, X11) \<Rightarrow> StrategyXfceX11
      | (Cinnamon, X11) \<Rightarrow> StrategyCinnamonX11
      | (Gnome, Wayland) \<Rightarrow> StrategyGnomeWayland
      | _ \<Rightarrow> StrategyUnsupported)"

definition detected_setting :: "layout_switch_combo \<Rightarrow> detection_strategy \<Rightarrow> system_context \<Rightarrow> layout_switch_setting" where
  "detected_setting combo strategy context =
     \<lparr>lss_combo = combo, lss_source = AutoDetected,
      lss_auto_detected = \<lparr>ad_strategy = strategy, ad_confidence = High, ad_context = context\<rparr>\<rparr>"

definition fallback_setting ::
  "layout_switch_combo \<Rightarrow> detection_strategy \<Rightarrow> detection_confidence \<Rightarrow> system_context \<Rightarrow> layout_switch_setting" where
  "fallback_setting combo strategy confidence context =
     \<lparr>lss_combo = combo, lss_source = AutoFallback,
      lss_auto_detected = \<lparr>ad_strategy = strategy, ad_confidence = confidence, ad_context = context\<rparr>\<rparr>"

definition unsupported_context_fallback :: "system_context \<Rightarrow> layout_switch_setting" where
  "unsupported_context_fallback context = fallback_setting CtrlShift NoSupportedStrategy Unsupported context"

definition failed_detection_fallback :: "system_context \<Rightarrow> layout_switch_setting" where
  "failed_detection_fallback context =
     fallback_setting CtrlShift
       (case select_strategy context of
          StrategyXfceX11 \<Rightarrow> XfceX11XfconfKeyboardLayout
        | StrategyCinnamonX11 \<Rightarrow> CinnamonX11GSettingsXkbOptions
        | StrategyGnomeWayland \<Rightarrow> GnomeWaylandGSettingsWmKeybindings
        | StrategyUnsupported \<Rightarrow> NoSupportedStrategy)
       Low context"

text \<open>A combination that was found, or the fallback of the same strategy.\<close>

definition detected_or_fallback ::
  "layout_switch_combo option \<Rightarrow> detection_strategy \<Rightarrow> system_context \<Rightarrow> layout_switch_setting" where
  "detected_or_fallback found strategy context =
     (case found of
        Some combo \<Rightarrow> detected_setting combo strategy context
      | None \<Rightarrow> fallback_setting CtrlShift strategy Low context)"

definition query_combo :: "rtext \<Rightarrow> layout_switch_combo option" where
  "query_combo query =
     Option.bind (find_map parse_setxkbmap_options_line (text_lines query)) combo_from_option_list"

definition detect_xfce_x11_managed :: "desktop_commands \<Rightarrow> system_context \<Rightarrow> layout_switch_setting" where
  "detect_xfce_x11_managed cmds context =
     (case xfconf_string cmds (lit ''keyboard-layout'') (lit ''/Default/XkbOptions/Group'') of
        Inr option \<Rightarrow> detected_or_fallback (combo_from_option_list option) XfceX11XfconfKeyboardLayout context
      | Inl e \<Rightarrow> fallback_setting CtrlShift XfceX11XfconfKeyboardLayout Low context)"

definition detect_xfce_x11_system_defaults :: "desktop_commands \<Rightarrow> system_context \<Rightarrow> layout_switch_setting" where
  "detect_xfce_x11_system_defaults cmds context =
     (case setxkbmap_query cmds of
        Inr query \<Rightarrow> detected_or_fallback (query_combo query) XfceX11SetXkbmapQuery context
      | Inl e \<Rightarrow> fallback_setting CtrlShift XfceX11SetXkbmapQuery Low context)"

definition detect_xfce_x11 :: "desktop_commands \<Rightarrow> system_context \<Rightarrow> layout_switch_setting" where
  "detect_xfce_x11 cmds context =
     (case xfconf_bool cmds (lit ''keyboard-layout'') (lit ''/Default/XkbDisable'') of
        Inr False \<Rightarrow> detect_xfce_x11_managed cmds context
      | Inr True \<Rightarrow> detect_xfce_x11_system_defaults cmds context
      | Inl e \<Rightarrow> fallback_setting CtrlShift XfceX11XfconfKeyboardLayout Low context)"

definition detect_wm_input_source_binding :: "desktop_commands \<Rightarrow> rtext \<Rightarrow> layout_switch_combo option" where
  "detect_wm_input_source_binding cmds key =
     (case gsettings_string_list cmds (lit ''org.gnome.desktop.wm.keybindings'') key of
        Inr bindings \<Rightarrow> find_map combo_from_gnome_binding bindings
      | Inl e \<Rightarrow> None)"

definition GNOME_SWITCH_INPUT_SOURCE_KEY :: rtext where
  "GNOME_SWITCH_INPUT_SOURCE_KEY = lit ''switch-input-source''"

definition GNOME_SWITCH_INPUT_SOURCE_BACKWARD_KEY :: rtext where
  "GNOME_SWITCH_INPUT_SOURCE_BACKWARD_KEY = lit ''switch-input-source-backward''"

definition detect_cinnamon_x11_wm_keybindings_fallback ::
  "desktop_commands \<Rightarrow> system_context \<Rightarrow> layout_switch_setting option" where
  "detect_cinnamon_x11_wm_keybindings_fallback cmds context =
     (case detect_wm_input_source_binding cmds GNOME_SWITCH_INPUT_SOURCE_KEY of
        Some combo \<Rightarrow> Some (detected_setting combo CinnamonX11GSettingsXkbOptions context)
      | None \<Rightarrow>
          map_option (\<lambda>combo. detected_setting combo CinnamonX11GSettingsXkbOptions context)
            (detect_wm_input_source_binding cmds GNOME_SWITCH_INPUT_SOURCE_BACKWARD_KEY))"

definition detect_cinnamon_x11_setxkbmap_fallback :: "desktop_commands \<Rightarrow> system_context \<Rightarrow> layout_switch_setting" where
  "detect_cinnamon_x11_setxkbmap_fallback cmds context =
     (case setxkbmap_query cmds of
        Inr query \<Rightarrow> detected_or_fallback (query_combo query) CinnamonX11GSettingsXkbOptions context
      | Inl e \<Rightarrow> fallback_setting CtrlShift CinnamonX11GSettingsXkbOptions Low context)"

definition detect_cinnamon_x11 :: "desktop_commands \<Rightarrow> system_context \<Rightarrow> layout_switch_setting" where
  "detect_cinnamon_x11 cmds context =
     (case gsettings_string_list cmds (lit ''org.cinnamon.desktop.input-sources'') (lit ''xkb-options'') of
        Inr options \<Rightarrow>
          (case find_map combo_from_xkb_option options of
             Some combo \<Rightarrow> detected_setting combo CinnamonX11GSettingsXkbOptions context
           | None \<Rightarrow>
               (case detect_cinnamon_x11_wm_keybindings_fallback cmds context of
                  Some found \<Rightarrow> found
                | None \<Rightarrow> detect_cinnamon_x11_setxkbmap_fallback cmds context))
      | Inl e \<Rightarrow> fallback_setting CtrlShift CinnamonX11GSettingsXkbOptions Low context)"

definition detect_gnome_wayland :: "desktop_commands \<Rightarrow> system_context \<Rightarrow> layout_switch_setting" where
  "detect_gnome_wayland cmds context =
     (case detect_wm_input_source_binding cmds GNOME_SWITCH_INPUT_SOURCE_KEY of
        Some combo \<Rightarrow> detected_setting combo GnomeWaylandGSettingsWmKeybindings context
      | None \<Rightarrow>
          (case detect_wm_input_source_binding cmds GNOME_SWITCH_INPUT_SOURCE_BACKWARD_KEY of
             Some combo \<Rightarrow> detected_setting combo GnomeWaylandGSettingsWmKeybindings context
           | None \<Rightarrow> fallback_setting CtrlShift GnomeWaylandGSettingsWmKeybindings Low context))"

definition detect :: "desktop_commands \<Rightarrow> system_context \<Rightarrow> layout_switch_setting" where
  "detect cmds context =
     (case select_strategy context of
        StrategyXfceX11 \<Rightarrow> detect_xfce_x11 cmds context
      | StrategyCinnamonX11 \<Rightarrow> detect_cinnamon_x11 cmds context
      | StrategyGnomeWayland \<Rightarrow> detect_gnome_wayland cmds context
      | StrategyUnsupported \<Rightarrow> unsupported_context_fallback context)"

end
