(* ===== verification/Detection_Properties.thy ===== *)
theory Detection_Properties
  imports Switch_Detection
begin

text \<open>
  Properties of the detection of the switching combination: what the parsers accept, that a detected
  combination is named by the desktop's settings, and that detecting again never loses one.
\<close>

subsection \<open>Options\<close>

lemma combo_from_xkb_option_iff: "combo_from_xkb_option option = Some c \<longleftrightarrow> option = xkb_option c"
  by (cases c) (auto simp: combo_from_xkb_option_def lit_def split: if_splits)

lemma find_map_Some: "find_map f xs = Some y \<Longrightarrow> \<exists>x \<in> set xs. f x = Some y"
  by (induction xs) (auto split: option.splits)

definition option_named :: "rtext \<Rightarrow> layout_switch_combo \<Rightarrow> bool" where
  "option_named raw c = list_ex (\<lambda>part. trim part = xkb_option c) (split_on 44 raw)"

lemma combo_from_option_list_named: "combo_from_option_list raw = Some c \<Longrightarrow> option_named raw c"
  by (force simp: combo_from_option_list_def option_named_def list_ex_iff combo_from_xkb_option_iff dest!: find_map_Some)

subsection \<open>What a detection rests on\<close>

text \<open>The settings that may name the combination, for each desktop.\<close>

definition query_names :: "desktop_commands \<Rightarrow> layout_switch_combo \<Rightarrow> bool" where
  "query_names cmds c =
     (case cmd_setxkbmap cmds of
        Inl e \<Rightarrow> False
      | Inr query \<Rightarrow> list_ex (\<lambda>line. case parse_setxkbmap_options_line line of
            None \<Rightarrow> False | Some options \<Rightarrow> option_named options c) (text_lines query))"

definition binding_names :: "desktop_commands \<Rightarrow> layout_switch_combo \<Rightarrow> bool" where
  "binding_names cmds c =
     list_ex (\<lambda>key. case cmd_gsettings cmds (lit ''org.gnome.desktop.wm.keybindings'') key of
         Inl e \<Rightarrow> False
       | Inr stdout \<Rightarrow> list_ex (\<lambda>b. combo_from_gnome_binding b = Some c) (parse_gsettings_string_list stdout))
       [GNOME_SWITCH_INPUT_SOURCE_KEY, GNOME_SWITCH_INPUT_SOURCE_BACKWARD_KEY]"

definition settings_name :: "desktop_commands \<Rightarrow> system_context \<Rightarrow> layout_switch_combo \<Rightarrow> bool" where
  "settings_name cmds context c =
     (case select_strategy context of
        StrategyXfceX11 \<Rightarrow> query_names cmds c \<or>
          (case cmd_xfconf cmds (lit ''keyboard-layout'') (lit ''/Default/XkbOptions/Group'') of
             Inl e \<Rightarrow> False | Inr stdout \<Rightarrow> option_named (trim stdout) c)
      | StrategyCinnamonX11 \<Rightarrow> query_names cmds c \<or> binding_names cmds c \<or>
          (case cmd_gsettings cmds (lit ''org.cinnamon.desktop.input-sources'') (lit ''xkb-options'') of
             Inl e \<Rightarrow> False | Inr stdout \<Rightarrow> xkb_option c \<in> set (parse_gsettings_string_list stdout))
      | StrategyGnomeWayland \<Rightarrow> binding_names cmds c
      | StrategyUnsupported \<Rightarrow> False)"

definition honest :: "desktop_commands \<Rightarrow> system_context \<Rightarrow> layout_switch_setting \<Rightarrow> bool" where
  "honest cmds context s \<longleftrightarrow> ad_context (lss_auto_detected s) = context \<and>
     (if lss_source s = AutoDetected
      then ad_confidence (lss_auto_detected s) = High \<and> settings_name cmds context (lss_combo s)
      else lss_source s = AutoFallback \<and> lss_combo s = CtrlShift \<and>
        ad_confidence (lss_auto_detected s) =
          (if select_strategy context = StrategyUnsupported then Unsupported else Low))"

lemma honest_detected [intro]: "settings_name cmds context c \<Longrightarrow> honest cmds context (detected_setting c st context)"
  by (simp add: honest_def detected_setting_def)

lemma honest_fallback [intro]:
  "select_strategy context \<noteq> StrategyUnsupported \<Longrightarrow> honest cmds context (fallback_setting CtrlShift st Low context)"
  by (simp add: honest_def fallback_setting_def)

lemma honest_detected_or_fallback:
  assumes "\<And>c. found = Some c \<Longrightarrow> settings_name cmds context c" and "select_strategy context \<noteq> StrategyUnsupported"
  shows "honest cmds context (detected_or_fallback found st context)"
  using assms by (auto simp: detected_or_fallback_def split: option.split)

lemma query_combo_names: "cmd_setxkbmap cmds = Inr query \<Longrightarrow> query_combo query = Some c \<Longrightarrow> query_names cmds c"
  by (force simp: query_combo_def query_names_def list_ex_iff bind_eq_Some_conv
      dest!: find_map_Some combo_from_option_list_named)

lemma wm_binding_names:
  assumes "detect_wm_input_source_binding cmds key = Some c"
    and "key \<in> {GNOME_SWITCH_INPUT_SOURCE_KEY, GNOME_SWITCH_INPUT_SOURCE_BACKWARD_KEY}"
  shows "binding_names cmds c"
  using assms
  by (cases "cmd_gsettings cmds (lit ''org.gnome.desktop.wm.keybindings'') key")
    (auto simp: detect_wm_input_source_binding_def gsettings_string_list_def binding_names_def list_ex_iff
      dest!: find_map_Some)

lemma honest_xfce:
  assumes "select_strategy context = StrategyXfceX11"
  shows "honest cmds context (detect_xfce_x11 cmds context)"
proof -
  have "honest cmds context (detect_xfce_x11_managed cmds context)"
    using assms
    by (cases "cmd_xfconf cmds (lit ''keyboard-layout'') (lit ''/Default/XkbOptions/Group'')")
      (auto simp: detect_xfce_x11_managed_def xfconf_string_def settings_name_def
        intro!: honest_detected_or_fallback dest: combo_from_option_list_named)
  moreover have "honest cmds context (detect_xfce_x11_system_defaults cmds context)"
    using assms
    by (cases "cmd_setxkbmap cmds")
      (auto simp: detect_xfce_x11_system_defaults_def setxkbmap_query_def settings_name_def
        intro!: honest_detected_or_fallback dest: query_combo_names)
  ultimately show ?thesis
    using assms by (auto simp: detect_xfce_x11_def split: sum.split bool.split)
qed

lemma honest_cinnamon:
  assumes st: "select_strategy context = StrategyCinnamonX11"
  shows "honest cmds context (detect_cinnamon_x11 cmds context)"
proof -
  have query: "honest cmds context (detect_cinnamon_x11_setxkbmap_fallback cmds context)"
    using st
    by (cases "cmd_setxkbmap cmds")
      (auto simp: detect_cinnamon_x11_setxkbmap_fallback_def setxkbmap_query_def settings_name_def
        intro!: honest_detected_or_fallback dest: query_combo_names)
  have bindings: "honest cmds context found"
    if "detect_cinnamon_x11_wm_keybindings_fallback cmds context = Some found" for found
    using that st wm_binding_names [of cmds]
    by (auto simp: detect_cinnamon_x11_wm_keybindings_fallback_def settings_name_def split: option.splits)
  show ?thesis
  proof (cases "cmd_gsettings cmds (lit ''org.cinnamon.desktop.input-sources'') (lit ''xkb-options'')")
    case (Inr stdout)
    have "settings_name cmds context c" if "find_map combo_from_xkb_option (parse_gsettings_string_list stdout) = Some c" for c
      using find_map_Some [OF that] Inr st by (auto simp: settings_name_def combo_from_xkb_option_iff)
    with Inr query bindings show ?thesis
      by (auto simp: detect_cinnamon_x11_def gsettings_string_list_def split: option.split)
  qed (use st in \<open>auto simp: detect_cinnamon_x11_def gsettings_string_list_def\<close>)
qed

lemma honest_of_detect: "honest cmds context (detect cmds context)"
proof (cases "select_strategy context")
  case StrategyGnomeWayland
  then show ?thesis using wm_binding_names [of cmds]
    by (auto simp: detect_def detect_gnome_wayland_def settings_name_def split: option.split)
next
  case StrategyUnsupported
  then show ?thesis by (simp add: detect_def honest_def unsupported_context_fallback_def fallback_setting_def)
qed (simp_all add: detect_def honest_xfce honest_cinnamon)

text \<open>
  Detection does not guess.  Whatever the desktop's commands print and whichever of them fail, a
  combination reported as detected is named by a setting of that desktop; otherwise the result is the
  default combination, marked as a fallback and never with high confidence.
\<close>

theorem detection_honest: "honest cmds context (detect cmds context)"
  by (rule honest_of_detect)

text \<open>
  Detecting again never loses a detection.  When the configuration in force has a combination that
  was detected with high confidence, it still has one after any later detection, whatever the commands
  print then.
\<close>

theorem redetection_keeps_lock:
  assumes "is_locked_by_auto_detection (layout_switch (config_settings (svc_config s)))"
  shows "is_locked_by_auto_detection (layout_switch (config_settings (svc_config
     (snd (apply_detected_layout_switch_runtime s (detect cmds context))))))"
proof -
  let ?new = "detect cmds context"
  have "is_locked_by_auto_detection ?new \<or> runtime_layout_switch_redetect_would_downgrade (layout_switch (config_settings (svc_config s))) ?new"
  proof (cases "lss_source ?new = AutoDetected")
    case True
    then have "ad_confidence (lss_auto_detected ?new) = High"
      using honest_of_detect [of cmds "context"] by (simp add: honest_def)
    with True show ?thesis by (simp add: is_locked_by_auto_detection_def)
  next
    case False
    then have "lss_source ?new = AutoFallback \<and> ad_confidence (lss_auto_detected ?new) \<noteq> High"
      using honest_of_detect [of cmds "context"] by (auto simp: honest_def split: if_splits)
    with assms show ?thesis by (simp add: runtime_layout_switch_redetect_would_downgrade_def)
  qed
  moreover have "layout_switch (config_settings (snd (apply_detected_layout_switch_if_changed c d))) = d" for c d
    by (simp add: apply_detected_layout_switch_if_changed_def config_settings_def)
  ultimately show ?thesis using assms
    by (auto simp: apply_detected_layout_switch_runtime_def split: prod.splits bool.splits) (metis snd_conv)+
qed

theorem redetection_keeps_lock_witness:
  "let locked = \<lparr>svc_config = snd (apply_detected_layout_switch_if_changed app_config_default
         (detected_setting AltShift XfceX11SetXkbmapQuery (ad_context auto_detected_default))), svc_file = None :: unit option\<rparr>;
       failing = \<lparr>cmd_gsettings = \<lambda>_ _. Inl [], cmd_xfconf = \<lambda>_ _. Inl [], cmd_setxkbmap = Inl []\<rparr>;
       context = \<lparr>ctx_session_type = X11, ctx_desktop_environment = Xfce, ctx_distro = UnknownDistro\<rparr>
   in is_locked_by_auto_detection (layout_switch (config_settings (svc_config
        (snd (apply_detected_layout_switch_runtime locked (detect failing context))))))"
proof -
  let ?locked = "\<lparr>svc_config = snd (apply_detected_layout_switch_if_changed app_config_default
     (detected_setting AltShift XfceX11SetXkbmapQuery (ad_context auto_detected_default))), svc_file = None :: unit option\<rparr>"
  have "is_locked_by_auto_detection (layout_switch (config_settings (svc_config ?locked)))" by code_simp
  from redetection_keeps_lock [OF this] show ?thesis by (simp add: Let_def)
qed

subsection \<open>Key bindings\<close>

lemma accelerator_names_plain:
  "list_all (\<lambda>(name, t). lit name \<noteq> [] \<and> lit name \<noteq> lit ''space'' \<and> trim (lit name) = lit name \<and>
     map to_ascii_lowercase (lit name) = lit name \<and> list_all (\<lambda>c. c \<noteq> 60 \<and> c \<noteq> 62) (lit name) \<and>
     normalize_gnome_key_token (lit name) = Some t) ACCELERATOR_NAMES"
  by code_simp

text \<open>A text that is read as a modifier is the name of one but for capitals and surrounding white space.\<close>

lemma token_name:
  assumes "normalize_gnome_key_token a = Some t"
  obtains name where "map to_ascii_lowercase (trim a) = lit name" "lit name \<noteq> []" "lit name \<noteq> lit ''space''"
    "list_all (\<lambda>c. c \<noteq> 60 \<and> c \<noteq> 62) (trim a)" "normalize_gnome_key_token (lit name) = Some t"
proof -
  from assms obtain name where name: "(name, t) \<in> set ACCELERATOR_NAMES" "map to_ascii_lowercase (trim a) = lit name"
    unfolding normalize_gnome_key_token_def by (auto dest!: find_SomeD)
  with accelerator_names_plain have plain: "lit name \<noteq> [] \<and> lit name \<noteq> lit ''space'' \<and>
      list_all (\<lambda>c. c \<noteq> 60 \<and> c \<noteq> 62) (lit name) \<and> normalize_gnome_key_token (lit name) = Some t"
    by (force simp: list_all_iff)
  then have "list_all (\<lambda>c. c \<noteq> 60 \<and> c \<noteq> 62) (map to_ascii_lowercase (trim a))" using name(2) by simp
  then have "list_all (\<lambda>c. c \<noteq> 60 \<and> c \<noteq> 62) (trim a)" by (auto simp: list_all_iff to_ascii_lowercase_def split: if_splits)
  with name plain show ?thesis by (intro that) auto
qed

definition trim_end :: "rtext \<Rightarrow> rtext" where
  "trim_end word = rev (dropWhile is_whitespace (rev word))"

lemma trim_trim_end: "trim w = trim_end (dropWhile is_whitespace w)"
  by (simp add: trim_def trim_end_def)

lemma trim_end_split: "\<exists>v. w = trim_end w @ v \<and> list_all is_whitespace v"
proof -
  have "w = rev (takeWhile is_whitespace (rev w) @ dropWhile is_whitespace (rev w))" by simp
  then have "w = trim_end w @ rev (takeWhile is_whitespace (rev w))" by (simp only: rev_append trim_end_def)
  moreover have "list_all is_whitespace (rev (takeWhile is_whitespace (rev w)))"
    by (auto simp: list_all_iff dest: set_takeWhileD)
  ultimately show ?thesis by blast
qed

lemma trim_end_spaces:
  assumes "list_all is_whitespace v" and "w \<noteq> []" and "\<not> is_whitespace (last w)"
  shows "trim_end (u @ w @ v) = u @ w"
proof -
  have "dropWhile is_whitespace (rev v @ rev w @ rev u) = rev w @ rev u"
    using assms by (cases "rev w") (auto simp: dropWhile_append list_all_iff hd_rev [symmetric])
  then show ?thesis by (simp add: trim_end_def)
qed

lemma trim_parts:
  obtains u v where "w = u @ trim w @ v" "list_all is_whitespace u" "list_all is_whitespace v"
    "trim w \<noteq> [] \<Longrightarrow> \<not> is_whitespace (hd (trim w)) \<and> \<not> is_whitespace (last (trim w))"
proof -
  let ?d = "dropWhile is_whitespace w"
  obtain v where v: "?d = trim w @ v" "list_all is_whitespace v" unfolding trim_trim_end using trim_end_split by blast
  have w: "w = takeWhile is_whitespace w @ trim w @ v" using v(1) by (metis takeWhile_dropWhile_id)
  have u: "list_all is_whitespace (takeWhile is_whitespace w)" by (auto simp: list_all_iff dest: set_takeWhileD)
  have "\<not> is_whitespace (hd (trim w)) \<and> \<not> is_whitespace (last (trim w))" if "trim w \<noteq> []"
  proof
    have "hd ?d = hd (trim w)" "?d \<noteq> []" using v(1) that by simp_all
    then show "\<not> is_whitespace (hd (trim w))" using hd_dropWhile [of is_whitespace w] by simp
    have "dropWhile is_whitespace (rev ?d) \<noteq> []" using that by (simp add: trim_def)
    from hd_dropWhile [OF this] show "\<not> is_whitespace (last (trim w))" by (simp add: trim_def last_rev)
  qed
  with that [OF w u v(2)] show ?thesis by blast
qed

lemma trim_end_facts:
  assumes "trim b \<noteq> []"
  shows "trim_end b \<noteq> [] \<and> trim (trim_end b) = trim b \<and> set (trim_end b) \<subseteq> set b \<and> trim_end (x @ b) = x @ trim_end b"
proof -
  obtain u v where b: "b = u @ trim b @ v" "list_all is_whitespace u" "list_all is_whitespace v"
    "\<not> is_whitespace (hd (trim b))" "\<not> is_whitespace (last (trim b))"
    using trim_parts [of b] assms by metis
  then have trimmed: "trim_end b = u @ trim b" "trim_end (x @ b) = x @ u @ trim b"
    using trim_end_spaces [OF b(3) assms b(5), of u] trim_end_spaces [OF b(3) assms b(5), of "x @ u"] by simp_all
  have "dropWhile is_whitespace (u @ trim b) = trim b"
    using b(2,4) assms by (cases "trim b") (auto simp: dropWhile_append list_all_iff)
  then have "trim (u @ trim b) = trim b"
    using trim_end_spaces [of "[]" "trim b" "[]"] assms b(5) by (simp add: trim_trim_end)
  moreover have "set b = set (u @ trim b @ v)" using b(1) by simp
  ultimately show ?thesis using trimmed assms by auto
qed

lemma brackets_not_space [simp]: "\<not> is_whitespace 60" "\<not> is_whitespace 62"
  by (simp_all add: is_whitespace_def)

lemma no_brackets:
  assumes "normalize_gnome_key_token a = Some t"
  shows "60 \<notin> set a" "62 \<notin> set a"
proof -
  obtain u v where a: "a = u @ trim a @ v" "list_all is_whitespace u" "list_all is_whitespace v" using trim_parts [of a] by metis
  have "list_all (\<lambda>c. c \<noteq> 60 \<and> c \<noteq> 62) (trim a)" by (rule token_name [OF assms])
  with a(2,3) have "c \<noteq> 60 \<and> c \<noteq> 62" if "c \<in> set (u @ trim a @ v)" for c
    using that brackets_not_space unfolding list_all_iff by (cases "c \<in> set (trim a)") auto
  then show "60 \<notin> set a" "62 \<notin> set a" using a(1) by metis+
qed

lemma position_fresh: "x \<notin> set xs \<Longrightarrow> position (\<lambda>c. c = x) (xs @ x # ys) = Some (length xs)"
  by (induction xs) auto

lemma parse_pair:
  assumes a: "normalize_gnome_key_token a = Some s" and b: "normalize_gnome_key_token b = Some t"
  shows "\<exists>name. parse_gnome_binding (lit ''<'' @ a @ lit ''>'' @ b) = Some ([s], lit name) \<and> lit name \<noteq> lit ''space'' \<and>
    normalize_gnome_key_token (lit name) = Some t"
proof -
  obtain name where name: "map to_ascii_lowercase (trim b) = lit name" "lit name \<noteq> []" "lit name \<noteq> lit ''space''"
    "normalize_gnome_key_token (lit name) = Some t" using token_name [OF b] by metis
  let ?b = "trim_end b"
  have nonempty: "trim b \<noteq> []" using name(1,2) by auto
  have b_end: "?b \<noteq> [] \<and> trim ?b = trim b \<and> set ?b \<subseteq> set b" using nonempty trim_end_facts by blast
  have "trim (lit ''<'' @ a @ lit ''>'' @ b) = lit ''<'' @ a @ lit ''>'' @ ?b"
    using trim_end_facts [OF nonempty, of "60 # a @ [62]"] by (simp add: trim_trim_end lit_def)
  moreover have "strip_prefix (lit ''<'' @ a @ lit ''>'' @ ?b) (lit ''<'') = Some (a @ 62 # ?b)"
    by (simp add: strip_prefix_def lit_def)
  moreover have "strip_prefix ?b (lit ''<'') = None"
    using b_end no_brackets [OF b] by (cases ?b) (auto simp: strip_prefix_def lit_def)
  moreover have "normalize_gnome_key_name ?b = Some (lit name)"
    using b_end name by (simp add: normalize_gnome_key_name_def)
  ultimately have "parse_gnome_binding (lit ''<'' @ a @ lit ''>'' @ b) = Some ([s], lit name)"
    using position_fresh [OF no_brackets(2) [OF a], of ?b] a
    by (simp add: parse_gnome_binding_def parse_binding_loop.simps normalize_gnome_modifier_token_def)
  with name show ?thesis by blast
qed

text \<open>The combination of a pair of modifiers, in either order.\<close>

fun sides_combo ::
  "layout_switch_combo \<Rightarrow> layout_switch_combo \<Rightarrow> layout_switch_combo \<Rightarrow> accelerator_side \<Rightarrow> accelerator_side \<Rightarrow>
   layout_switch_combo option" where
  "sides_combo left right generic LeftSide LeftSide = Some left"
| "sides_combo left right generic RightSide RightSide = Some right"
| "sides_combo left right generic RightSide _ = None"
| "sides_combo left right generic _ RightSide = None"
| "sides_combo left right generic _ _ = Some generic"

fun pair_combo :: "accelerator_token \<Rightarrow> accelerator_token \<Rightarrow> layout_switch_combo option" where
  "pair_combo (AltToken x) (ShiftToken y) = sides_combo LeftAltLeftShift RightAltRightShift AltShift x y"
| "pair_combo (ShiftToken y) (AltToken x) = sides_combo LeftAltLeftShift RightAltRightShift AltShift x y"
| "pair_combo (CtrlToken x) (ShiftToken y) = sides_combo LeftCtrlLeftShift RightCtrlRightShift CtrlShift x y"
| "pair_combo (ShiftToken y) (CtrlToken x) = sides_combo LeftCtrlLeftShift RightCtrlRightShift CtrlShift x y"
| "pair_combo _ _ = None"

lemma shift_pair_combo:
  assumes "normalize_gnome_key_token key = Some t"
  shows "combo_from_gnome_shift_pair s key = pair_combo s t"
proof -
  have sides: "gnome_shift_combo s key g (ShiftToken GenericSide) =
      (case (s, t) of
         (AltToken x, ShiftToken y) \<Rightarrow> if g = AltToken GenericSide then pair_combo s t else None
       | (ShiftToken y, AltToken x) \<Rightarrow> if g = AltToken GenericSide then pair_combo s t else None
       | (CtrlToken x, ShiftToken y) \<Rightarrow> if g = CtrlToken GenericSide then pair_combo s t else None
       | (ShiftToken y, CtrlToken x) \<Rightarrow> if g = CtrlToken GenericSide then pair_combo s t else None
       | _ \<Rightarrow> None)" if "g = AltToken GenericSide \<or> g = CtrlToken GenericSide" for g
  proof (cases s; cases t)
    fix x y
    assume "s = AltToken x" "t = ShiftToken y"
    with that assms show ?thesis
      by (cases x; cases y) (auto simp: gnome_shift_combo_def is_alt_def side_pair_matches_generic_left_def)
  next
    fix x y
    assume "s = ShiftToken y" "t = AltToken x"
    with that assms show ?thesis
      by (cases x; cases y) (auto simp: gnome_shift_combo_def is_alt_def side_pair_matches_generic_left_def)
  next
    fix x y
    assume "s = CtrlToken x" "t = ShiftToken y"
    with that assms show ?thesis
      by (cases x; cases y) (auto simp: gnome_shift_combo_def is_ctrl_def side_pair_matches_generic_left_def)
  next
    fix x y
    assume "s = ShiftToken y" "t = CtrlToken x"
    with that assms show ?thesis
      by (cases x; cases y) (auto simp: gnome_shift_combo_def is_ctrl_def side_pair_matches_generic_left_def)
  qed (use that assms in \<open>auto simp: gnome_shift_combo_def\<close>)
  show ?thesis unfolding combo_from_gnome_shift_pair_def
    by (subst (1 2) sides) (auto split: accelerator_token.splits option.splits)
qed

text \<open>
  Bindings of two modifiers.  However two modifiers are spelled, and whichever of them is written
  as the key, the binding stands for the combination of the two: the left one for two left keys, the
  right one for two right keys, the general one otherwise unless a right key is asked for, and no
  combination for other pairs.
\<close>

theorem gnome_pair_exact:
  assumes "normalize_gnome_key_token a = Some s" and "normalize_gnome_key_token b = Some t"
  shows "combo_from_gnome_binding (lit ''<'' @ a @ lit ''>'' @ b) = pair_combo s t"
proof -
  obtain name where name: "parse_gnome_binding (lit ''<'' @ a @ lit ''>'' @ b) = Some ([s], lit name)"
    "lit name \<noteq> lit ''space''" "normalize_gnome_key_token (lit name) = Some t"
    using parse_pair [OF assms] by blast
  then show ?thesis by (simp add: combo_from_gnome_binding_def shift_pair_combo)
qed

theorem gnome_pair_exact_witness:
  "combo_from_gnome_binding (lit ''<Shift>Alt_L'') = Some AltShift \<and>
   combo_from_gnome_binding (lit ''< Alt_L >SHIFT_L '') = Some LeftAltLeftShift"
proof -
  have a: "normalize_gnome_key_token (lit ''Shift'') = Some (ShiftToken GenericSide)"
    and b: "normalize_gnome_key_token (lit ''Alt_L'') = Some (AltToken LeftSide)"
    and c: "normalize_gnome_key_token (lit '' Alt_L '') = Some (AltToken LeftSide)"
    and d: "normalize_gnome_key_token (lit ''SHIFT_L '') = Some (ShiftToken LeftSide)"
    by code_simp+
  show ?thesis using gnome_pair_exact [OF a b] gnome_pair_exact [OF c d] by (simp add: lit_def)
qed

subsection \<open>Lists of strings\<close>

text \<open>How the tool prints a nonempty list of strings without quotes in them.\<close>

definition print_string_list :: "rtext list \<Rightarrow> rtext" where
  "print_string_list xs = lit ''['' @ join (lit '', '') (map (\<lambda>x. [39] @ x @ [39]) xs) @ lit '']''"

lemma gsettings_loop_string:
  "39 \<notin> set x \<Longrightarrow> gsettings_loop True cur vs (x @ 39 # rest) = gsettings_loop False [] (vs @ [cur @ x]) rest"
  by (induction x arbitrary: cur) auto

lemma gsettings_loop_list:
  "list_all (\<lambda>x. 39 \<notin> set x) xs \<Longrightarrow>
   gsettings_loop False [] vs (join (lit '', '') (map (\<lambda>x. [39] @ x @ [39]) xs) @ lit '']'') = vs @ xs"
proof (induction "lit '', ''" "map (\<lambda>x. [39 :: rchar] @ x @ [39]) xs" arbitrary: xs vs rule: join.induct)
  case 1
  then show ?case by (simp add: lit_def)
next
  case (2 part)
  then obtain x where "xs = [x]" by auto
  with 2 show ?case by (simp add: gsettings_loop_string lit_def)
next
  case (3 part part' parts)
  then obtain x ys where xs: "xs = x # ys" "part' # parts = map (\<lambda>x. [39] @ x @ [39]) ys" by auto
  then obtain y zs where "ys = y # zs" by auto
  with xs 3(1) [OF xs(2), of "vs @ [x]"] 3(2-) show ?case by (simp add: gsettings_loop_string lit_def)
qed

text \<open>
  Printed lists are read back.  A list of strings without quotes, printed the way the settings
  tool prints it and followed by a line break, is parsed to the same list.
\<close>

theorem string_list_roundtrip:
  assumes "list_all (\<lambda>x. 39 \<notin> set x) xs" and "xs \<noteq> []"
  shows "parse_gsettings_string_list (print_string_list xs @ [10]) = xs"
proof -
  let ?t = "print_string_list xs"
  obtain x ys where xs: "xs = x # ys" using assms(2) by (cases xs) auto
  then have head: "\<exists>rest. ?t = 91 # 39 # rest" by (cases ys) (auto simp: print_string_list_def lit_def)
  have "trim (?t @ [10]) = ?t"
    using trim_end_spaces [of "[10]" ?t "[]"] head by (auto simp: trim_trim_end is_whitespace_def print_string_list_def lit_def)
  moreover have "?t \<noteq> lit ''@as []'' \<and> ?t \<noteq> lit ''[]''" using head by (auto simp: lit_def)
  moreover have "gsettings_loop False [] [] ?t = xs"
    using gsettings_loop_list [OF assms(1), of "[]"] by (simp add: print_string_list_def lit_def)
  ultimately show ?thesis by (simp add: parse_gsettings_string_list_def)
qed

theorem string_list_roundtrip_witness:
  "parse_gsettings_string_list (lit ''['' @ [39] @ lit ''<Super>space'' @ [39] @ lit '', '' @ [39, 39] @ lit '']'' @ [10]) =
     [lit ''<Super>space'', []]"
  using string_list_roundtrip [of "[lit ''<Super>space'', []]"] by (simp add: print_string_list_def lit_def)

end
