(* ===== verification/Interleaving.thy ===== *)
theory Interleaving
  imports OS_Prelude
begin

text \<open>
  Threads that share atomics are modelled by a relation of atomic steps.  The locale collects what
  the components need of such a relation: an invariant of every reachable configuration, and a
  preorder between two moments of a run (counters that only grow, decisions that stay), both
  proved for one step and used for any number of steps of any threads in between.
\<close>

locale interleaved =
  fixes step :: "'c \<Rightarrow> 'c \<Rightarrow> bool"
    and inv :: "'c \<Rightarrow> bool"
    and rel :: "'c \<Rightarrow> 'c \<Rightarrow> bool"
  assumes inv_step: "step c c' \<Longrightarrow> inv c \<Longrightarrow> inv c'"
    and rel_refl: "rel c c"
    and rel_trans: "rel c c' \<Longrightarrow> rel c' c'' \<Longrightarrow> rel c c''"
    and rel_step: "step c c' \<Longrightarrow> inv c \<Longrightarrow> rel c c'"
begin

lemma inv_steps: "step\<^sup>*\<^sup>* c c' \<Longrightarrow> inv c \<Longrightarrow> inv c'"
  by (induction rule: rtranclp_induct) (blast intro: inv_step)+

lemma rel_steps: "step\<^sup>*\<^sup>* c c' \<Longrightarrow> inv c \<Longrightarrow> rel c c'"
proof (induction rule: rtranclp_induct)
  case (step d e)
  then show ?case
    using inv_steps rel_step rel_trans by blast
qed (rule rel_refl)

end

end
