(* ===== verification/Session_Activity.thy ===== *)
theory Session_Activity
  imports Interleaving
begin

text \<open>
  The authorization of the input session, src/src/daemon/session_activity/mod.rs: which login
  session may be typed into, the publication that the monitor thread writes and every other thread
  reads, the leases handed to an input backend, and the monitor thread itself.

  The publication is read without a lock, one atomic load at a time, while the monitor changes it
  one atomic store at a time.  A publication is therefore modelled by the list of its stores
  (\<open>publish_writes\<close>), a reader by the list of the memories its loads see; the sequential operations
  are the case where nothing happens in between.  The source of sessions (logind) and the clock are
  parameters of the monitor.
\<close>

subsection \<open>Which session is authorized\<close>

record session_record =
  sr_id :: string
  sr_uid :: u32
  sr_seat :: string
  sr_session_type :: string
  sr_class :: string
  sr_active :: bool
  sr_remote :: bool

record authorized_session =
  as_session_id :: string
  as_seat :: string

datatype session_unavailable_reason = NoCandidate | Ambiguous | SourceUnavailable

datatype session_decision =
    Authorized authorized_session
  | Unauthorized session_unavailable_reason

definition session_candidate :: "u32 \<Rightarrow> session_record \<Rightarrow> bool" where
  "session_candidate uid r \<longleftrightarrow>
     sr_uid r = uid \<and> sr_active r \<and> \<not> sr_remote r \<and> sr_class r = ''user'' \<and>
     (sr_session_type r = ''x11'' \<or> sr_session_type r = ''wayland'') \<and> sr_seat r \<noteq> []"

definition decide_session :: "u32 \<Rightarrow> session_record list \<Rightarrow> session_decision" where
  "decide_session uid records =
     (case filter (session_candidate uid) records of
        [] \<Rightarrow> Unauthorized NoCandidate
      | [r] \<Rightarrow> Authorized \<lparr>as_session_id = sr_id r, as_seat = sr_seat r\<rparr>
      | _ \<Rightarrow> Unauthorized Ambiguous)"

subsection \<open>The publication\<close>

definition SESSION_LEASE_TTL_MS :: u64 where "SESSION_LEASE_TTL_MS = 3000"

record session_access =
  sa_authorized :: bool
  sa_generation :: u64
  sa_confirmed_at_ms :: u64
  sa_worker_alive :: bool
  sa_lease_ttl_ms :: u64
  sa_session :: "authorized_session option"

definition with_lease_ttl :: "u64 \<Rightarrow> session_access" where
  "with_lease_ttl ttl =
     \<lparr>sa_authorized = False, sa_generation = 1, sa_confirmed_at_ms = 0, sa_worker_alive = True,
      sa_lease_ttl_ms = ttl, sa_session = None\<rparr>"

definition session_access_new :: session_access where
  "session_access_new = with_lease_ttl SESSION_LEASE_TTL_MS"

text \<open>The stores of the publication's fields.\<close>

datatype access_write =
    StoreAuthorized bool
  | BumpGeneration
  | StoreConfirmed u64
  | StoreSession "authorized_session option"
  | StoreWorkerAlive bool

fun apply_write :: "access_write \<Rightarrow> session_access \<Rightarrow> session_access" where
  "apply_write (StoreAuthorized b) p = p\<lparr>sa_authorized := b\<rparr>"
| "apply_write BumpGeneration p = p\<lparr>sa_generation := sa_generation p + 1\<rparr>"
| "apply_write (StoreConfirmed t) p = p\<lparr>sa_confirmed_at_ms := t\<rparr>"
| "apply_write (StoreSession s) p = p\<lparr>sa_session := s\<rparr>"
| "apply_write (StoreWorkerAlive b) p = p\<lparr>sa_worker_alive := b\<rparr>"

text \<open>What a publisher stores, given the memory it found when it took the write lock.\<close>

definition publish_writes :: "session_decision \<Rightarrow> u64 \<Rightarrow> session_access \<Rightarrow> access_write list" where
  "publish_writes d t p =
     (if \<not> sa_worker_alive p then []
      else case d of
        Authorized s \<Rightarrow>
          if sa_authorized p \<and> sa_session p = Some s then [StoreConfirmed t]
          else [StoreAuthorized False, BumpGeneration, StoreSession (Some s), StoreConfirmed t,
                StoreAuthorized True]
      | Unauthorized _ \<Rightarrow>
          [StoreAuthorized False, BumpGeneration, StoreSession None, StoreConfirmed t])"

definition stop_writes :: "access_write list" where
  "stop_writes = [StoreAuthorized False, BumpGeneration, StoreSession None, StoreWorkerAlive False]"

definition publish :: "session_decision \<Rightarrow> u64 \<Rightarrow> session_access \<Rightarrow> session_access" where
  "publish d t p = fold apply_write (publish_writes d t p) p"

definition mark_worker_stopped :: "session_access \<Rightarrow> session_access" where
  "mark_worker_stopped p = fold apply_write stop_writes p"

subsection \<open>Readers\<close>

definition saturating_sub :: "u64 \<Rightarrow> u64 \<Rightarrow> u64" where
  "saturating_sub a b = (if b \<le> a then a - b else 0)"

definition is_fresh :: "session_access \<Rightarrow> u64 \<Rightarrow> bool" where
  "is_fresh p now_ms \<longleftrightarrow> saturating_sub now_ms (sa_confirmed_at_ms p) \<le> sa_lease_ttl_ms p"

text \<open>The three loads of \<open>ensure_available\<close>, each from the memory of its own moment.\<close>

definition ensure_available_at ::
  "session_access \<Rightarrow> session_access \<Rightarrow> session_access \<Rightarrow> u64 \<Rightarrow> unit res" where
  "ensure_available_at m1 m2 m3 now_ms =
     (if \<not> sa_worker_alive m1 then Inl SessionMonitorStopped
      else if \<not> sa_authorized m2 \<or> \<not> is_fresh m3 now_ms then Inl InputSessionInactive
      else Inr ())"

definition ensure_available :: "session_access \<Rightarrow> u64 \<Rightarrow> unit res" where
  "ensure_available p = ensure_available_at p p p"

definition health_error :: "session_access \<Rightarrow> u64 \<Rightarrow> switcher_error option" where
  "health_error p now_ms = err_of (ensure_available p now_ms)"

record session_lease =
  sl_generation :: u64
  sl_session :: authorized_session

text \<open>
  \<open>backend_lease\<close> loads the three fields of the check, the generation, the session under the read
  lock, the three fields again and the generation again.
\<close>

definition backend_lease_at ::
  "session_access \<Rightarrow> session_access \<Rightarrow> session_access \<Rightarrow> session_access \<Rightarrow> session_access \<Rightarrow>
   session_access \<Rightarrow> session_access \<Rightarrow> session_access \<Rightarrow> session_access \<Rightarrow> u64 \<Rightarrow> session_lease res" where
  "backend_lease_at m1 m2 m3 m4 m5 m6 m7 m8 m9 now_ms =
     and_then (ensure_available_at m1 m2 m3 now_ms) (\<lambda>_.
     let generation = sa_generation m4 in
     and_then (ok_or (sa_session m5) InputSessionInactive) (\<lambda>session.
     and_then (ensure_available_at m6 m7 m8 now_ms) (\<lambda>_.
     if sa_generation m9 \<noteq> generation then Inl InputSessionInactive
     else Inr \<lparr>sl_generation = generation, sl_session = session\<rparr>)))"

definition backend_lease :: "session_access \<Rightarrow> u64 \<Rightarrow> session_lease res" where
  "backend_lease p = backend_lease_at p p p p p p p p p"

definition ensure_current_at ::
  "session_lease \<Rightarrow> session_access \<Rightarrow> session_access \<Rightarrow> session_access \<Rightarrow> session_access \<Rightarrow> u64 \<Rightarrow> unit res" where
  "ensure_current_at l m1 m2 m3 m4 now_ms =
     and_then (ensure_available_at m1 m2 m3 now_ms) (\<lambda>_.
     if sa_generation m4 \<noteq> sl_generation l then Inl InputSessionInactive else Inr ())"

definition ensure_current :: "session_lease \<Rightarrow> session_access \<Rightarrow> u64 \<Rightarrow> unit res" where
  "ensure_current l p = ensure_current_at l p p p p"

definition lease_seat :: "session_lease \<Rightarrow> string" where
  "lease_seat l = as_seat (sl_session l)"

subsection \<open>Interleaved execution\<close>

text \<open>
  The memory, the stores that the holder of the write lock has still to make, and a count of the
  generations so far (the counter itself has 64 bits).  A reader gets the read lock only when no
  stores are pending.
\<close>

record access_config =
  ac_memory :: session_access
  ac_pending :: "access_write list"
  ac_bumps :: nat

inductive access_step :: "access_config \<Rightarrow> access_config \<Rightarrow> bool" where
  begin_publish: "ac_pending c = [] \<Longrightarrow>
     access_step c (c\<lparr>ac_pending := publish_writes d t (ac_memory c)\<rparr>)"
| begin_stop: "ac_pending c = [] \<Longrightarrow> access_step c (c\<lparr>ac_pending := stop_writes\<rparr>)"
| store: "ac_pending c = w # ws \<Longrightarrow>
     access_step c (c\<lparr>ac_memory := apply_write w (ac_memory c), ac_pending := ws,
        ac_bumps := ac_bumps c + (if w = BumpGeneration then 1 else 0)\<rparr>)"

inductive_cases access_stepE: "access_step c c'"

definition access_start :: "u64 \<Rightarrow> access_config" where
  "access_start ttl = \<lparr>ac_memory = with_lease_ttl ttl, ac_pending = [], ac_bumps = 0\<rparr>"

abbreviation access_steps :: "access_config \<Rightarrow> access_config \<Rightarrow> bool" where
  "access_steps \<equiv> access_step\<^sup>*\<^sup>*"

subsection \<open>What an interleaved reader may conclude\<close>

text \<open>A store of the session is pending only behind the next change of the generation.\<close>

definition settled :: "access_config \<Rightarrow> bool" where
  "settled c \<longleftrightarrow> (\<forall>s. StoreSession s \<notin> set (takeWhile (\<lambda>w. w \<noteq> BumpGeneration) (ac_pending c)))"

lemma settled_no_pending: "ac_pending c = [] \<Longrightarrow> settled c"
  by (simp add: settled_def)

lemma settled_publish: "settled (c\<lparr>ac_pending := publish_writes d t p\<rparr>)"
  by (auto simp: settled_def publish_writes_def split: session_decision.splits)

lemma settled_stop: "settled (c\<lparr>ac_pending := stop_writes\<rparr>)"
  by (simp add: settled_def stop_writes_def)

definition generation_counted :: "access_config \<Rightarrow> bool" where
  "generation_counted c \<longleftrightarrow> sa_generation (ac_memory c) = of_nat (Suc (ac_bumps c))"

lemma apply_write_generation:
  "sa_generation (apply_write w p) = sa_generation p + (if w = BumpGeneration then 1 else 0)"
  by (cases w) simp_all

lemma apply_write_session:
  "(\<forall>s. w \<noteq> StoreSession s) \<Longrightarrow> sa_session (apply_write w p) = sa_session p"
  by (cases w) simp_all

text \<open>One step: the count grows, and while it stays the session of a settled memory stays.\<close>

definition same_generation_same_session :: "access_config \<Rightarrow> access_config \<Rightarrow> bool" where
  "same_generation_same_session c c' \<longleftrightarrow>
     ac_bumps c \<le> ac_bumps c' \<and>
     (ac_bumps c' = ac_bumps c \<longrightarrow> settled c \<longrightarrow>
        settled c' \<and> sa_session (ac_memory c') = sa_session (ac_memory c))"

lemma access_step_generation_counted:
  "access_step c c' \<Longrightarrow> generation_counted c \<Longrightarrow> generation_counted c'"
  by (induction rule: access_step.induct)
    (simp_all add: generation_counted_def apply_write_generation)

lemma access_step_session: "access_step c c' \<Longrightarrow> same_generation_same_session c c'"
proof (induction rule: access_step.induct)
  case (store c w ws)
  have "sa_session (apply_write w (ac_memory c)) = sa_session (ac_memory c)"
    if "w \<noteq> BumpGeneration" "settled c"
    using that store by (intro apply_write_session) (auto simp: settled_def)
  with store show ?case
    by (auto simp: same_generation_same_session_def settled_def)
qed (simp_all add: same_generation_same_session_def settled_publish settled_stop)

interpretation access: interleaved access_step generation_counted same_generation_same_session
proof unfold_locales
  show "generation_counted c'" if "access_step c c'" "generation_counted c" for c c'
    using that by (rule access_step_generation_counted)
  show "same_generation_same_session c c" for c
    by (simp add: same_generation_same_session_def)
  show "same_generation_same_session c c''"
    if "same_generation_same_session c c'" "same_generation_same_session c' c''" for c c' c''
    using that unfolding same_generation_same_session_def by (metis le_antisym le_trans)
  show "same_generation_same_session c c'" if "access_step c c'" for c c'
    using that by (rule access_step_session)
qed

lemma access_start_counted: "generation_counted (access_start ttl)"
  by (simp add: generation_counted_def access_start_def with_lease_ttl_def)

lemma reachable_counted: "access_steps (access_start ttl) c \<Longrightarrow> generation_counted c"
  using access.inv_steps access_start_counted by blast

text \<open>Fewer than \<open>2\<^sup>64\<close> generations: equal counters are equal generations.\<close>

lemma generation_counted_inj:
  assumes "generation_counted c" "generation_counted c'"
    and "ac_bumps c < 2 ^ 64 - 1" "ac_bumps c' < 2 ^ 64 - 1"
    and "sa_generation (ac_memory c) = sa_generation (ac_memory c')"
  shows "ac_bumps c = ac_bumps c'"
proof -
  have "of_nat (Suc (ac_bumps c)) = (of_nat (Suc (ac_bumps c')) :: u64)"
    using assms by (simp add: generation_counted_def)
  then have "unat (of_nat (Suc (ac_bumps c)) :: u64) = unat (of_nat (Suc (ac_bumps c')) :: u64)"
    by simp
  with assms(3,4) show ?thesis
    by (simp only: unat_of_nat_u64)
qed

text \<open>A generation seen at two moments is the generation of every moment in between.\<close>

lemma generation_between:
  assumes "generation_counted c" "access_steps c d" "access_steps d e"
    and "sa_generation (ac_memory e) = sa_generation (ac_memory c)" "ac_bumps e < 2 ^ 64 - 1"
  shows "sa_generation (ac_memory d) = sa_generation (ac_memory c)" "ac_bumps d < 2 ^ 64 - 1"
proof -
  have inv: "generation_counted d" "generation_counted e"
    using assms access.inv_steps by blast+
  have le: "ac_bumps c \<le> ac_bumps d" "ac_bumps d \<le> ac_bumps e"
    using assms inv access.rel_steps unfolding same_generation_same_session_def by blast+
  then have "ac_bumps e = ac_bumps c"
    using assms inv generation_counted_inj [of e c] by simp
  with le have "ac_bumps d = ac_bumps c" by simp
  then show "sa_generation (ac_memory d) = sa_generation (ac_memory c)" "ac_bumps d < 2 ^ 64 - 1"
    using assms inv le by (simp_all add: generation_counted_def)
qed

lemma ensure_available_at_Inr:
  "ensure_available_at m1 m2 m3 now = Inr () \<longleftrightarrow> sa_worker_alive m1 \<and> sa_authorized m2 \<and> is_fresh m3 now"
  by (auto simp: ensure_available_at_def)

lemma backend_lease_at_Inr:
  "backend_lease_at m1 m2 m3 m4 m5 m6 m7 m8 m9 now = Inr l \<longleftrightarrow>
     ensure_available_at m1 m2 m3 now = Inr () \<and> ensure_available_at m6 m7 m8 now = Inr () \<and>
     sa_generation m9 = sa_generation m4 \<and> sl_generation l = sa_generation m4 \<and>
     sa_session m5 = Some (sl_session l)"
  by (cases "sa_session m5"; cases l) (auto simp: backend_lease_at_def Let_def)

lemma ensure_current_at_Inr:
  "ensure_current_at l m1 m2 m3 m4 now = Inr () \<longleftrightarrow>
     ensure_available_at m1 m2 m3 now = Inr () \<and> sa_generation m4 = sl_generation l"
  by (auto simp: ensure_current_at_def)

text \<open>
  The session of a lease belongs to its generation: from the read of the session on, every
  memory with that generation holds that session.
\<close>

lemma lease_session_of_generation:
  assumes "generation_counted c4" "access_steps c4 c5" "ac_pending c5 = []" "access_steps c5 c9"
    and "sa_generation (ac_memory c9) = sa_generation (ac_memory c4)"
    and "access_steps c9 c" "sa_generation (ac_memory c) = sa_generation (ac_memory c4)"
    and "ac_bumps c < 2 ^ 64 - 1"
  shows "sa_session (ac_memory c) = sa_session (ac_memory c5)"
proof -
  have inv: "generation_counted c5" "generation_counted c9" "generation_counted c"
    using assms access.inv_steps by blast+
  have rel: "same_generation_same_session c4 c5" "same_generation_same_session c5 c"
    using assms inv access.rel_steps rtranclp_trans [of access_step c5 c9 c] by blast+
  then have "ac_bumps c4 \<le> ac_bumps c5" "ac_bumps c5 \<le> ac_bumps c"
    by (simp_all add: same_generation_same_session_def)
  moreover from this have "ac_bumps c4 = ac_bumps c"
    using assms(1,7,8) inv generation_counted_inj [of c4 c] by simp
  ultimately show ?thesis
    using rel(2) settled_no_pending [OF assms(3)] by (simp add: same_generation_same_session_def)
qed

text \<open>The stores of the lock's holder, undisturbed, are the sequential operation.\<close>

definition drained :: "access_config \<Rightarrow> access_config" where
  "drained c = c\<lparr>ac_memory := fold apply_write (ac_pending c) (ac_memory c), ac_pending := [],
     ac_bumps := ac_bumps c + count_list (ac_pending c) BumpGeneration\<rparr>"

lemma drained_steps: "access_steps c (drained c)"
proof (induction "ac_pending c" arbitrary: c)
  case Nil
  then show ?case by (cases c) (simp add: drained_def)
next
  case (Cons w ws)
  let ?d = "c\<lparr>ac_memory := apply_write w (ac_memory c), ac_pending := ws,
     ac_bumps := ac_bumps c + (if w = BumpGeneration then 1 else 0)\<rparr>"
  have "access_step c ?d"
    using Cons.hyps by (intro store) simp
  moreover have "access_steps ?d (drained ?d)"
    by (rule Cons.hyps) simp
  moreover have "drained ?d = drained c"
    by (simp add: drained_def Cons.hyps(2) [symmetric])
  ultimately show ?case by (metis converse_rtranclp_into_rtranclp)
qed

lemma publish_steps:
  assumes "ac_pending c = []"
  shows "access_steps c (c\<lparr>ac_memory := publish d t (ac_memory c),
     ac_bumps := ac_bumps c + count_list (publish_writes d t (ac_memory c)) BumpGeneration\<rparr>)"
proof -
  have "access_step c (c\<lparr>ac_pending := publish_writes d t (ac_memory c)\<rparr>)"
    using assms by (rule begin_publish)
  then have "access_steps c (drained (c\<lparr>ac_pending := publish_writes d t (ac_memory c)\<rparr>))"
    using drained_steps converse_rtranclp_into_rtranclp by metis
  with assms show ?thesis by (cases c) (simp add: drained_def publish_def)
qed

subsection \<open>The monitor thread\<close>

text \<open>
  The source of sessions and the thread's surroundings: the outcome of each call and the world
  after it.  Times and durations of the loop are milliseconds.
\<close>

datatype session_source_event = Changed | Timeout

record 'w monitor_env =
  env_subscribe :: "'w \<Rightarrow> unit res \<times> 'w"
  env_snapshot :: "u32 \<Rightarrow> 'w \<Rightarrow> session_record list res \<times> 'w"
  env_wait_for_change :: "nat \<Rightarrow> 'w \<Rightarrow> session_source_event res \<times> 'w"
  env_now :: "'w \<Rightarrow> nat \<times> 'w"
  env_monotonic_ms :: "'w \<Rightarrow> u64 \<times> 'w"
  env_stop :: "'w \<Rightarrow> bool \<times> 'w"
  env_sleep :: "nat \<Rightarrow> 'w \<Rightarrow> 'w"

record monitor_timing =
  refresh_interval :: nat
  wait_slice :: nat
  reconnect_initial :: nat
  reconnect_max :: nat

definition monitor_timing_default :: monitor_timing where
  "monitor_timing_default =
     \<lparr>refresh_interval = 1000, wait_slice = 50, reconnect_initial = 100, reconnect_max = 1000\<rparr>"

definition publish_now ::
  "'w monitor_env \<Rightarrow> session_decision \<Rightarrow> 'w \<Rightarrow> session_access \<Rightarrow> 'w \<times> session_access" where
  "publish_now e d w p = (let (t, w) = env_monotonic_ms e w in (w, publish d t p))"

definition publish_unavailable ::
  "'w monitor_env \<Rightarrow> 'w \<Rightarrow> session_access \<Rightarrow> 'w \<times> session_access" where
  "publish_unavailable e = publish_now e (Unauthorized SourceUnavailable)"

definition refresh_decision ::
  "'w monitor_env \<Rightarrow> u32 \<Rightarrow> 'w \<Rightarrow> session_access \<Rightarrow> unit res \<times> 'w \<times> session_access" where
  "refresh_decision e uid w p =
     (case env_snapshot e uid w of
        (Inl err, w) \<Rightarrow> (Inl err, w, p)
      | (Inr records, w) \<Rightarrow> (Inr (), publish_now e (decide_session uid records) w p))"

definition subscribe_and_refresh ::
  "'w monitor_env \<Rightarrow> u32 \<Rightarrow> 'w \<Rightarrow> session_access \<Rightarrow> unit res \<times> 'w \<times> session_access" where
  "subscribe_and_refresh e uid w p =
     (case env_subscribe e w of
        (Inl err, w) \<Rightarrow> (Inl err, w, p)
      | (Inr _, w) \<Rightarrow> refresh_decision e uid w p)"

text \<open>The loops carry fuel, one unit per round; running out of it is \<open>None\<close>.\<close>

fun wait_for_stop_loop ::
  "nat \<Rightarrow> 'w monitor_env \<Rightarrow> nat \<Rightarrow> nat \<Rightarrow> nat \<Rightarrow> 'w \<Rightarrow> (bool \<times> 'w) option" where
  "wait_for_stop_loop 0 e started duration quantum w = None"
| "wait_for_stop_loop (Suc fuel) e started duration quantum w =
     (let (stop, w) = env_stop e w in
      if stop then Some (True, w)
      else
        let (now, w) = env_now e w; remaining = duration - (now - started) in
        if remaining = 0 then Some (False, w)
        else wait_for_stop_loop fuel e started duration quantum (env_sleep e (min quantum remaining) w))"

definition wait_for_stop ::
  "nat \<Rightarrow> 'w monitor_env \<Rightarrow> nat \<Rightarrow> nat \<Rightarrow> 'w \<Rightarrow> (bool \<times> 'w) option" where
  "wait_for_stop fuel e duration quantum w =
     (let (started, w) = env_now e w in wait_for_stop_loop fuel e started duration quantum w)"

fun reconnect_loop ::
  "nat \<Rightarrow> nat \<Rightarrow> 'w monitor_env \<Rightarrow> u32 \<Rightarrow> monitor_timing \<Rightarrow> nat \<Rightarrow> 'w \<Rightarrow> session_access \<Rightarrow>
   (bool \<times> 'w \<times> session_access) option" where
  "reconnect_loop 0 waits e uid timing backoff w p = None"
| "reconnect_loop (Suc fuel) waits e uid timing backoff w p =
     (case wait_for_stop waits e backoff (wait_slice timing) w of
        None \<Rightarrow> None
      | Some (True, w) \<Rightarrow> Some (False, w, p)
      | Some (False, w) \<Rightarrow>
          (case subscribe_and_refresh e uid w p of
             (Inr _, w, p) \<Rightarrow> Some (True, w, p)
           | (Inl _, w, p) \<Rightarrow>
               let (w, p) = publish_unavailable e w p in
               reconnect_loop fuel waits e uid timing (min (2 * backoff) (reconnect_max timing)) w p))"

definition reconnect_source ::
  "nat \<Rightarrow> nat \<Rightarrow> 'w monitor_env \<Rightarrow> u32 \<Rightarrow> monitor_timing \<Rightarrow> 'w \<Rightarrow> session_access \<Rightarrow>
   (bool \<times> 'w \<times> session_access) option" where
  "reconnect_source fuel waits e uid timing = reconnect_loop fuel waits e uid timing (reconnect_initial timing)"

text \<open>
  A failure of the source in the loop: withdraw the authorization, then reconnect.  The result is
  the loop's next \<open>last_refresh\<close>, or the end of the thread.
\<close>

definition source_lost ::
  "nat \<Rightarrow> nat \<Rightarrow> 'w monitor_env \<Rightarrow> u32 \<Rightarrow> monitor_timing \<Rightarrow> 'w \<Rightarrow> session_access \<Rightarrow>
   (nat option \<times> 'w \<times> session_access) option" where
  "source_lost fuel waits e uid timing w p =
     (let (w, p) = publish_unavailable e w p in
      case reconnect_source fuel waits e uid timing w p of
        None \<Rightarrow> None
      | Some (False, w, p) \<Rightarrow> Some (None, w, p)
      | Some (True, w, p) \<Rightarrow> let (now, w) = env_now e w in Some (Some now, w, p))"

text \<open>One round of the loop: \<open>Some (None, \<dots>)\<close> ends the thread.\<close>

definition monitor_round ::
  "nat \<Rightarrow> nat \<Rightarrow> 'w monitor_env \<Rightarrow> u32 \<Rightarrow> monitor_timing \<Rightarrow> nat \<Rightarrow> 'w \<Rightarrow> session_access \<Rightarrow>
   (nat option \<times> 'w \<times> session_access) option" where
  "monitor_round fuel waits e uid timing last_refresh w p =
     (let (stop, w) = env_stop e w in
      if stop then Some (None, w, p)
      else
        let (now, w) = env_now e w; elapsed = now - last_refresh in
        if elapsed \<ge> refresh_interval timing then
          (case refresh_decision e uid w p of
             (Inr _, w, p) \<Rightarrow> let (now, w) = env_now e w in Some (Some now, w, p)
           | (Inl _, w, p) \<Rightarrow> source_lost fuel waits e uid timing w p)
        else
          (case env_wait_for_change e (min (wait_slice timing) (refresh_interval timing - elapsed)) w of
             (Inr Changed, w) \<Rightarrow>
               (case refresh_decision e uid w p of
                  (Inr _, w, p) \<Rightarrow> let (now, w) = env_now e w in Some (Some now, w, p)
                | (Inl _, w, p) \<Rightarrow> source_lost fuel waits e uid timing w p)
           | (Inr Timeout, w) \<Rightarrow> Some (Some last_refresh, w, p)
           | (Inl _, w) \<Rightarrow> source_lost fuel waits e uid timing w p))"

fun monitor_loop ::
  "nat \<Rightarrow> nat \<Rightarrow> 'w monitor_env \<Rightarrow> u32 \<Rightarrow> monitor_timing \<Rightarrow> nat \<Rightarrow> 'w \<Rightarrow> session_access \<Rightarrow>
   ('w \<times> session_access) option" where
  "monitor_loop 0 waits e uid timing last_refresh w p = None"
| "monitor_loop (Suc fuel) waits e uid timing last_refresh w p =
     (case monitor_round fuel waits e uid timing last_refresh w p of
        None \<Rightarrow> None
      | Some (None, w, p) \<Rightarrow> Some (w, p)
      | Some (Some last_refresh, w, p) \<Rightarrow> monitor_loop fuel waits e uid timing last_refresh w p)"

text \<open>
  \<open>ready_listening\<close> is whether the starting thread still waits for the message that the monitor
  runs.  The guard of the thread marks the worker stopped on every way out.
\<close>

definition run_session_monitor ::
  "nat \<Rightarrow> nat \<Rightarrow> 'w monitor_env \<Rightarrow> u32 \<Rightarrow> monitor_timing \<Rightarrow> bool \<Rightarrow> 'w \<Rightarrow> session_access \<Rightarrow>
   ('w \<times> session_access) option" where
  "run_session_monitor fuel waits e uid timing ready_listening w p =
     map_option (map_prod id mark_worker_stopped)
       (let (connected, w, p) =
          (case subscribe_and_refresh e uid w p of
             (Inr _, w, p) \<Rightarrow> (True, w, p)
           | (Inl _, w, p) \<Rightarrow> (False, publish_unavailable e w p))
        in if \<not> ready_listening then Some (w, p)
           else
             case (if connected then Some (True, w, p) else reconnect_source fuel waits e uid timing w p) of
               None \<Rightarrow> None
             | Some (False, w, p) \<Rightarrow> Some (w, p)
             | Some (True, w, p) \<Rightarrow>
                 let (now, w) = env_now e w in monitor_loop fuel waits e uid timing now w p)"

end
