(* ===== verification/Session_Properties.thy ===== *)
theory Session_Properties
  imports Session_Activity
begin

text \<open>
  Properties of the authorization of the input session: who is authorized, what a lease that is
  still current says about the memory it is checked against, however the readers' loads and the
  monitor's stores interleave, what a later publication does to a lease, and how the monitor ends.
\<close>

subsection \<open>The decision\<close>

lemma filter_single_index:
  "filter P xs = [x] \<longleftrightarrow>
     (\<exists>i < length xs. xs ! i = x \<and> P (xs ! i)) \<and> card {j. j < length xs \<and> P (xs ! j)} = 1"
proof -
  have "filter P xs = [x] \<longleftrightarrow> x \<in> set (filter P xs) \<and> length (filter P xs) = 1"
    by (cases "filter P xs") auto
  then show ?thesis
    by (auto simp: length_filter_conv_card in_set_conv_nth)
qed

lemma decide_session_Authorized:
  "decide_session uid rs = Authorized a \<longleftrightarrow>
     (\<exists>r. filter (session_candidate uid) rs = [r] \<and> a = \<lparr>as_session_id = sr_id r, as_seat = sr_seat r\<rparr>)"
  by (auto simp: decide_session_def split: list.splits)

text \<open>
  A session is authorized exactly when it is the only listed session of the user that is active,
  local, graphical, of class \<open>user\<close> and on a seat; its identity and seat are the listed ones.
\<close>

theorem decide_session_unique:
  "decide_session uid rs = Authorized a \<longleftrightarrow>
     (\<exists>i < length rs. session_candidate uid (rs ! i) \<and> a = \<lparr>as_session_id = sr_id (rs ! i), as_seat = sr_seat (rs ! i)\<rparr> \<and>
        card {j. j < length rs \<and> session_candidate uid (rs ! j)} = 1)"
  unfolding decide_session_Authorized filter_single_index by blast

subsection \<open>Leases under interleaving\<close>

text \<open>
  C23: the loads of a reader that takes a lease and later finds it current may be separated by any
  number of the monitor's stores.  Still, at the load that saw the authorization, the memory was
  authorized for the very session the lease names, under the lease's generation, as long as fewer
  than \<open>2\<^sup>64 - 1\<close> generations have passed.
\<close>

theorem current_lease_session:
  assumes "successively access_steps
        (access_start ttl # [c1, c2, c3, c4, c5, c6, c7, c8, c9] @ [d1, d2, d3, d4])"
    and "ac_pending c5 = []"
    and "backend_lease_at (ac_memory c1) (ac_memory c2) (ac_memory c3) (ac_memory c4) (ac_memory c5)
        (ac_memory c6) (ac_memory c7) (ac_memory c8) (ac_memory c9) now = Inr l"
    and "ensure_current_at l (ac_memory d1) (ac_memory d2) (ac_memory d3) (ac_memory d4) now' = Inr ()"
    and "ac_bumps d4 < 2 ^ 64 - 1"
  shows "sa_authorized (ac_memory d2) \<and> sa_session (ac_memory d2) = Some (sl_session l) \<and>
    sa_generation (ac_memory d2) = sl_generation l \<and> is_fresh (ac_memory d3) now'"
proof -
  have hops: "access_steps c4 c5" "access_steps c5 c9" "access_steps c9 d2" "access_steps d2 d4"
      "access_steps c5 d2" "access_steps (access_start ttl) c4"
    using assms(1) by (auto intro: rtranclp_trans)
  have l: "sa_generation (ac_memory c9) = sa_generation (ac_memory c4)"
      "sl_generation l = sa_generation (ac_memory c4)" "sa_session (ac_memory c5) = Some (sl_session l)"
    using assms(3) by (simp_all add: backend_lease_at_Inr)
  have current: "sa_authorized (ac_memory d2)" "is_fresh (ac_memory d3) now'"
      "sa_generation (ac_memory d4) = sa_generation (ac_memory c4)"
    using assms(4) l(2) by (simp_all add: ensure_current_at_Inr ensure_available_at_Inr)
  have counted: "generation_counted c4"
    using hops(6) by (rule reachable_counted)
  have same: "sa_generation (ac_memory d2) = sa_generation (ac_memory c4)" "ac_bumps d2 < 2 ^ 64 - 1"
    using generation_between [OF counted _ hops(4) current(3) assms(5)] hops by (auto intro: rtranclp_trans)
  then have "sa_session (ac_memory d2) = sa_session (ac_memory c5)"
    using lease_session_of_generation [OF counted hops(1) assms(2) hops(2) l(1) hops(3)] by simp
  with same l current show ?thesis by simp
qed

lemma current_lease_session_witness:
  "let s = \<lparr>as_session_id = ''c2'', as_seat = ''seat0''\<rparr>; m = publish (Authorized s) 10 (with_lease_ttl 3000) in
     backend_lease m 11 = Inr \<lparr>sl_generation = 2, sl_session = s\<rparr> \<and>
     sa_authorized m \<and> sa_session m = Some s"
proof -
  let ?s = "\<lparr>as_session_id = ''c2'', as_seat = ''seat0''\<rparr>"
  let ?l = "\<lparr>sl_generation = 2, sl_session = ?s\<rparr>"
  let ?m = "publish (Authorized ?s) 10 (with_lease_ttl 3000)"
  let ?c = "\<lparr>ac_memory = ?m, ac_pending = [], ac_bumps = 1\<rparr>"
  have run: "access_steps (access_start 3000) ?c"
    using publish_steps [of "access_start 3000" "Authorized ?s" 10]
    by (simp add: access_start_def publish_writes_def with_lease_ttl_def)
  have lease: "backend_lease ?m 11 = Inr ?l" and "ensure_current ?l ?m 12 = Inr ()"
    by (simp_all add: backend_lease_def backend_lease_at_def ensure_current_def ensure_current_at_def
        ensure_available_at_def is_fresh_def saturating_sub_def publish_def publish_writes_def with_lease_ttl_def)
  then have "sa_authorized ?m \<and> sa_session ?m = Some (sl_session ?l)"
    using current_lease_session [of 3000 ?c ?c ?c ?c ?c ?c ?c ?c ?c ?c ?c ?c ?c 11 ?l 12] run
    by (simp add: backend_lease_def ensure_current_def)
  with lease show ?thesis by simp
qed

text \<open>
  C24: once a generation has passed, no later check of a lease of that generation succeeds, whatever
  is published afterwards.
\<close>

theorem revoked_lease_stays_revoked:
  assumes "successively access_steps [access_start ttl, c, r, d1, d2, d3, d4]"
    and "sa_generation (ac_memory c) = sl_generation l"
    and "sa_generation (ac_memory r) \<noteq> sl_generation l"
    and "ac_bumps d4 < 2 ^ 64 - 1"
  shows "\<exists>e. ensure_current_at l (ac_memory d1) (ac_memory d2) (ac_memory d3) (ac_memory d4) now = Inl e"
proof (rule ccontr)
  assume "\<not> ?thesis"
  then have "ensure_current_at l (ac_memory d1) (ac_memory d2) (ac_memory d3) (ac_memory d4) now = Inr ()"
    by (cases "ensure_current_at l (ac_memory d1) (ac_memory d2) (ac_memory d3) (ac_memory d4) now") auto
  then have "sa_generation (ac_memory d4) = sa_generation (ac_memory c)"
    using assms(2) by (simp add: ensure_current_at_Inr)
  moreover have "access_steps (access_start ttl) c" "access_steps c r" "access_steps r d4"
    using assms(1) by (auto intro: rtranclp_trans)
  ultimately have "sa_generation (ac_memory r) = sa_generation (ac_memory c)"
    using generation_between reachable_counted assms(4) by blast
  with assms(2,3) show False by simp
qed

lemma revoked_lease_stays_revoked_witness:
  "let l = \<lparr>sl_generation = 1, sl_session = \<lparr>as_session_id = ''c2'', as_seat = ''seat0''\<rparr>\<rparr>;
       m = publish (Unauthorized NoCandidate) 10 (with_lease_ttl 3000) in
     \<exists>e. ensure_current l m 11 = Inl e"
proof -
  let ?l = "\<lparr>sl_generation = 1, sl_session = \<lparr>as_session_id = ''c2'', as_seat = ''seat0''\<rparr>\<rparr>"
  let ?m = "publish (Unauthorized NoCandidate) 10 (with_lease_ttl 3000)"
  let ?c = "\<lparr>ac_memory = ?m, ac_pending = [], ac_bumps = 1\<rparr>"
  have "access_steps (access_start 3000) ?c"
    using publish_steps [of "access_start 3000" "Unauthorized NoCandidate" 10]
    by (simp add: access_start_def publish_writes_def with_lease_ttl_def)
  moreover have "sa_generation ?m = 2"
    by (simp add: publish_def publish_writes_def with_lease_ttl_def)
  ultimately have "\<exists>e. ensure_current_at ?l ?m ?m ?m ?m 11 = Inl e"
    using revoked_lease_stays_revoked [of 3000 "access_start 3000" ?c ?c ?c ?c ?c ?l 11]
    by (simp add: access_start_def with_lease_ttl_def)
  then show ?thesis by (simp add: ensure_current_def)
qed

subsection \<open>Publications\<close>

text \<open>
  After a publication, a lease taken just before it is still current exactly when the
  publication confirms the lease's own session and is fresh at the time of the check.
\<close>

theorem publish_keeps_lease_iff:
  assumes "backend_lease p now = Inr l"
  shows "ensure_current l (publish d t p) now' = Inr () \<longleftrightarrow>
    d = Authorized (sl_session l) \<and> saturating_sub now' t \<le> sa_lease_ttl_ms p"
proof -
  have p: "sa_worker_alive p" "sa_authorized p" "sl_generation l = sa_generation p"
      "sa_session p = Some (sl_session l)"
    using assms by (simp_all add: backend_lease_def backend_lease_at_Inr ensure_available_at_Inr)
  have "ensure_current l q now' = Inr () \<longleftrightarrow>
      sa_worker_alive q \<and> sa_authorized q \<and> is_fresh q now' \<and> sa_generation q = sa_generation p" for q
    by (auto simp: ensure_current_def ensure_current_at_Inr ensure_available_at_Inr p)
  with p show ?thesis
    by (cases d) (auto simp: publish_def publish_writes_def is_fresh_def)
qed

lemma publish_keeps_lease_iff_witness:
  "let s = \<lparr>as_session_id = ''c2'', as_seat = ''seat0''\<rparr>;
       l = \<lparr>sl_generation = 2, sl_session = s\<rparr>;
       p = publish (Authorized s) 10 (with_lease_ttl 3000) in
     backend_lease p 11 = Inr l \<and> ensure_current l (publish (Authorized s) 900 p) 901 = Inr ()"
proof -
  let ?s = "\<lparr>as_session_id = ''c2'', as_seat = ''seat0''\<rparr>"
  let ?l = "\<lparr>sl_generation = 2, sl_session = ?s\<rparr>"
  let ?p = "publish (Authorized ?s) 10 (with_lease_ttl 3000)"
  have lease: "backend_lease ?p 11 = Inr ?l"
    by (simp add: backend_lease_def backend_lease_at_def ensure_available_at_def is_fresh_def
        saturating_sub_def publish_def publish_writes_def with_lease_ttl_def)
  moreover have "sa_lease_ttl_ms ?p = 3000"
    by (simp add: publish_def publish_writes_def with_lease_ttl_def)
  ultimately show ?thesis
    using publish_keeps_lease_iff [OF lease, of "Authorized ?s" 900 901]
    by (simp add: saturating_sub_def)
qed

subsection \<open>The monitor\<close>

text \<open>
  What the loops rely on of the clock: it is read without side effects, it never goes back, and a
  sleep lasts at least as long as asked.
\<close>

definition sleeping_clock :: "'w monitor_env \<Rightarrow> ('w \<Rightarrow> nat) \<Rightarrow> bool" where
  "sleeping_clock e clock \<longleftrightarrow>
     (\<forall>w. env_now e w = (clock w, w)) \<and> (\<forall>w. clock w \<le> clock (snd (env_stop e w))) \<and>
     (\<forall>d w. clock w + d \<le> clock (env_sleep e d w))"

lemma sleeping_clock_stop:
  assumes "sleeping_clock e clock" "env_stop e w = (stop, v)"
  shows "env_now e v = (clock v, v)" "clock w \<le> clock v"
proof -
  have "clock w \<le> clock (snd (env_stop e w))"
    using assms(1) by (simp only: sleeping_clock_def)
  with assms(2) show "clock w \<le> clock v" by simp
qed (use assms(1) in \<open>simp add: sleeping_clock_def\<close>)

lemma wait_for_stop_round:
  assumes "env_stop e w = (stop, v)" "env_now e v = (t, v')"
  shows "wait_for_stop_loop (Suc fuel) e started duration quantum w =
    (if stop then Some (True, v) else if duration - (t - started) = 0 then Some (False, v')
     else wait_for_stop_loop fuel e started duration quantum
            (env_sleep e (min quantum (duration - (t - started))) v'))"
  using assms by (simp only: wait_for_stop_loop.simps Let_def case_prod_conv)

lemma wait_for_stop_loop_returns:
  assumes "sleeping_clock e clock" "duration \<le> (clock w - started) + fuel * quantum" "started \<le> clock w"
  shows "\<exists>stop w'. wait_for_stop_loop (Suc fuel) e started duration quantum w = Some (stop, w') \<and>
    (stop \<or> started + duration \<le> clock w')"
  using assms(2,3)
proof (induction fuel arbitrary: w)
  case 0
  obtain stop v where stop: "env_stop e w = (stop, v)" by fastforce
  have now: "env_now e v = (clock v, v)" and mono: "clock w \<le> clock v"
    using sleeping_clock_stop [OF assms(1) stop] by simp_all
  have "duration - (clock v - started) = 0" "started + duration \<le> clock v"
    using 0 mono by simp_all
  then show ?case
    unfolding wait_for_stop_round [OF stop now] by auto
next
  case (Suc fuel)
  obtain stop v where stop: "env_stop e w = (stop, v)" by fastforce
  have now: "env_now e v = (clock v, v)" and mono: "clock w \<le> clock v"
    using sleeping_clock_stop [OF assms(1) stop] by simp_all
  let ?remaining = "duration - (clock v - started)"
  let ?v = "env_sleep e (min quantum ?remaining) v"
  have slept: "clock v + min quantum ?remaining \<le> clock ?v"
    using assms(1) by (simp add: sleeping_clock_def)
  have round: "wait_for_stop_loop (Suc (Suc fuel)) e started duration quantum w =
      (if stop then Some (True, v) else if ?remaining = 0 then Some (False, v)
       else wait_for_stop_loop (Suc fuel) e started duration quantum ?v)"
    by (rule wait_for_stop_round [OF stop now])
  have "duration \<le> clock ?v - started + fuel * quantum" "started \<le> clock ?v"
    using slept mono Suc.prems by (cases "quantum \<le> ?remaining"; simp)+
  from Suc.IH [OF this] round mono Suc.prems show ?case
    by (cases "?remaining = 0") (auto simp del: wait_for_stop_loop.simps)
qed

text \<open>
  The interruptible wait of the monitor returns within \<open>duration / quantum + 2\<close> polls, and it
  says that it was not interrupted only when the whole duration has passed.
\<close>

theorem wait_for_stop_terminates:
  assumes "sleeping_clock e clock" "0 < quantum" "duration div quantum + 2 \<le> fuel"
  shows "\<exists>stop w'. wait_for_stop fuel e duration quantum w = Some (stop, w') \<and>
    (stop \<or> clock w + duration \<le> clock w')"
proof -
  obtain n where n: "fuel = Suc n" "duration div quantum + 1 \<le> n"
    using assms(3) by (cases fuel) auto
  have "duration \<le> (duration div quantum + 1) * quantum"
    using div_mult_mod_eq [of duration quantum] mod_less_divisor [OF assms(2), of duration]
    unfolding add_mult_distrib by linarith
  also have "\<dots> \<le> n * quantum" using n(2) by (rule mult_le_mono1)
  finally show ?thesis
    using wait_for_stop_loop_returns [OF assms(1), of duration w "clock w" n quantum] assms(1) n(1)
    by (simp add: wait_for_stop_def sleeping_clock_def)
qed

definition idle_env :: "nat monitor_env" where
  "idle_env = \<lparr>env_subscribe = \<lambda>w. (Inr (), w), env_snapshot = \<lambda>uid w. (Inr [], w),
     env_wait_for_change = \<lambda>d w. (Inr Timeout, w + d), env_now = \<lambda>w. (w, w),
     env_monotonic_ms = \<lambda>w. (of_nat w, w), env_stop = \<lambda>w. (500 \<le> w, w), env_sleep = \<lambda>d w. w + d\<rparr>"

lemma wait_for_stop_terminates_witness:
  "\<exists>stop w'. wait_for_stop 4 idle_env 100 50 0 = Some (stop, w') \<and> (stop \<or> 100 \<le> w')"
proof -
  have "sleeping_clock idle_env id"
    by (simp add: sleeping_clock_def idle_env_def)
  from wait_for_stop_terminates [OF this, of 50 100 4 0] show ?thesis by simp
qed

lemma mark_worker_stopped_refuses: "ensure_available (mark_worker_stopped p) now = Inl SessionMonitorStopped"
  by (simp add: ensure_available_def ensure_available_at_def mark_worker_stopped_def stop_writes_def)

lemma publish_Unauthorized_closes: "\<not> sa_authorized p \<or> sa_worker_alive p \<Longrightarrow> \<not> sa_authorized (publish (Unauthorized r) t p)"
  by (auto simp: publish_def publish_writes_def)

lemma publish_alive: "sa_worker_alive (publish d t p) = sa_worker_alive p"
  by (auto simp: publish_def publish_writes_def split: session_decision.splits)

lemmas monitor_defs = publish_now_def publish_unavailable_def refresh_decision_def subscribe_and_refresh_def

lemma publish_unavailable_closes:
  assumes "publish_unavailable e w p = (w', p')" "sa_worker_alive p"
  shows "\<not> sa_authorized p'" "sa_worker_alive p'"
  using assms by (auto simp: monitor_defs publish_alive publish_Unauthorized_closes split: prod.splits)

lemma subscribe_and_refresh_Inl:
  "subscribe_and_refresh e uid w p = (Inl err, w', p') \<Longrightarrow> p' = p"
  by (auto simp: monitor_defs split: prod.splits sum.splits)

text \<open>Reconnecting: as long as it has not succeeded, nobody is authorized.\<close>

lemma reconnect_loop_fails_closed:
  "reconnect_loop fuel waits e uid timing backoff w p = Some (False, w', p') \<Longrightarrow>
   sa_worker_alive p \<Longrightarrow> \<not> sa_authorized p \<Longrightarrow> \<not> sa_authorized p' \<and> sa_worker_alive p'"
proof (induction fuel arbitrary: backoff w p)
  case (Suc fuel)
  obtain stop v where v: "wait_for_stop waits e backoff (wait_slice timing) w = Some (stop, v)"
    using Suc.prems(1) by (cases "wait_for_stop waits e backoff (wait_slice timing) w") fastforce+
  obtain res u q where q: "subscribe_and_refresh e uid v p = (res, u, q)"
    by (cases "subscribe_and_refresh e uid v p") auto
  show ?case
  proof (cases "stop \<or> (\<exists>a. res = Inr a)")
    case True
    with Suc.prems v q show ?thesis by (cases stop) auto
  next
    case False
    then obtain err where err: "\<not> stop" "res = Inl err" by (cases res) auto
    then have "q = p" using q subscribe_and_refresh_Inl [of e uid v p err u q] by simp
    obtain u' q' where u': "publish_unavailable e u q = (u', q')"
      by (cases "publish_unavailable e u q")
    then have "reconnect_loop fuel waits e uid timing (min (2 * backoff) (reconnect_max timing)) u' q' = Some (False, w', p')"
      using Suc.prems(1) v q err by simp
    then show ?thesis
      using publish_unavailable_closes [OF u'] \<open>q = p\<close> Suc.prems(2) by (intro Suc.IH) simp_all
  qed
qed simp

text \<open>
  When the source of sessions fails, the authorization is withdrawn, and the thread comes back
  authorized only after a new snapshot; if it ends instead, nobody is authorized.
\<close>

theorem source_lost_fails_closed:
  assumes "source_lost fuel waits e uid timing w p = Some (None, w', p')" "sa_worker_alive p"
  shows "ensure_available p' now = Inl InputSessionInactive"
proof -
  obtain v q where q: "publish_unavailable e w p = (v, q)" by fastforce
  with assms(1) have "reconnect_source fuel waits e uid timing v q = Some (False, w', p')"
    by (auto simp: source_lost_def Let_def split: option.splits prod.splits bool.splits)
  with publish_unavailable_closes [OF q assms(2)] have "\<not> sa_authorized p' \<and> sa_worker_alive p'"
    unfolding reconnect_source_def by (intro reconnect_loop_fails_closed)
  then show ?thesis by (simp add: ensure_available_def ensure_available_at_def)
qed

definition lost_env :: "nat monitor_env" where
  "lost_env = idle_env\<lparr>env_subscribe := \<lambda>w. (Inl SessionMonitorStopped, w)\<rparr>"

lemma source_lost_fails_closed_witness:
  "\<exists>w' p'. source_lost 20 20 lost_env 1000 monitor_timing_default 0 (with_lease_ttl 3000) = Some (None, w', p') \<and>
     ensure_available p' 7 = Inl InputSessionInactive"
proof -
  have "case source_lost 20 20 lost_env 1000 monitor_timing_default 0 (with_lease_ttl 3000) of
      Some (None, w', p') \<Rightarrow> True | _ \<Rightarrow> False"
    by code_simp
  then have "\<exists>w' p'. source_lost 20 20 lost_env 1000 monitor_timing_default 0 (with_lease_ttl 3000) = Some (None, w', p')"
    by (auto split: option.splits prod.splits)
  then show ?thesis
    using source_lost_fails_closed [of 20 20 lost_env 1000 monitor_timing_default 0 "with_lease_ttl 3000" _ _ 7]
    by (auto simp: with_lease_ttl_def)
qed



end
