(* ===== verification/Input_Backend.thy ===== *)
theory Input_Backend
  imports Session_Activity
begin

text \<open>
  The life of the input backend, src/src/daemon/input_backend.rs, with the parts of
  src/src/error/mod.rs and src/src/daemon/keyboard.rs it rests on: which errors can be waited out,
  how the writer's shutdown changes an error, the order of the shutdown's phases, and the state
  machine that opens the backend, retries with a growing delay, and latches a writer that did not
  stop.  The opener of the backend and its shutdown are parameters; times are milliseconds.
\<close>

subsection \<open>Errors that can be waited out (src/src/error/mod.rs)\<close>

definition no_such_device :: "os_error \<Rightarrow> bool" where
  "no_such_device e \<longleftrightarrow> raw_os_error e = Some 19 \<or> str_contains ''No such device'' (os_error_text e)"

fun is_recoverable_input_error :: "switcher_error \<Rightarrow> bool" where
  "is_recoverable_input_error KeyboardNotFound = True"
| "is_recoverable_input_error (KeyboardAccessDenied _ _) = True"
| "is_recoverable_input_error (UinputAccessDenied _ _) = True"
| "is_recoverable_input_error InputSessionInactive = True"
| "is_recoverable_input_error InputDeviceSeatMismatch = True"
| "is_recoverable_input_error InputDeviceIdentityUnverified = True"
| "is_recoverable_input_error (PhysicalKeyboardDeviceLost _ _) = True"
| "is_recoverable_input_error (PhysicalKeyboardHandoffBusy _) = True"
| "is_recoverable_input_error (InputWorkerDisconnected _) = True"
| "is_recoverable_input_error (SwitcherIo e) = no_such_device e"
| "is_recoverable_input_error _ = False"

subsection \<open>Readiness and shutdown (src/src/daemon/keyboard.rs)\<close>

record input_backend_readiness =
  keyboard_open :: bool
  writer_ready :: bool
  watchers_ready :: bool
  event_processing_ready :: bool

definition readiness_is_ready :: "input_backend_readiness \<Rightarrow> bool" where
  "readiness_is_ready r \<longleftrightarrow>
     keyboard_open r \<and> writer_ready r \<and> watchers_ready r \<and> event_processing_ready r"

definition controller_readiness :: "bool \<Rightarrow> bool \<Rightarrow> bool \<Rightarrow> bool \<Rightarrow> input_backend_readiness" where
  "controller_readiness device_ready alive pointer_ready target_ready =
     (let watchers = pointer_ready \<and> target_ready in
      \<lparr>keyboard_open = device_ready, writer_ready = alive, watchers_ready = watchers,
       event_processing_ready = device_ready \<and> alive \<and> watchers\<rparr>)"

datatype writer_shutdown_outcome = Stopped | Unresponsive u64

datatype keyboard_shutdown_phase =
    RequestWriterStop
  | ReleaseGrab
  | StartPendingEmergencyRelease
  | FinishWriterStop
  | StopAndJoinWatchers
  | DetachWatchers

text \<open>
  \<open>None\<close> stands for the panic of a phase that has to return an outcome and does not.
\<close>

definition run_keyboard_shutdown_sequence ::
  "(keyboard_shutdown_phase \<Rightarrow> 'w \<Rightarrow> writer_shutdown_outcome option \<times> 'w) \<Rightarrow> 'w \<Rightarrow>
   writer_shutdown_outcome option \<times> 'w" where
  "run_keyboard_shutdown_sequence run_phase w =
     (let (_, w) = run_phase RequestWriterStop w;
          (_, w) = run_phase ReleaseGrab w;
          (_, w) = run_phase StartPendingEmergencyRelease w;
          (result, w) = run_phase FinishWriterStop w in
      case result of
        None \<Rightarrow> (None, w)
      | Some Stopped \<Rightarrow> (Some Stopped, snd (run_phase StopAndJoinWatchers w))
      | Some (Unresponsive t) \<Rightarrow> (Some (Unresponsive t), snd (run_phase DetachWatchers w)))"

text \<open>\<open>display\<close> renders an error as text.\<close>

definition resolve_error_after_writer_shutdown ::
  "(switcher_error \<Rightarrow> string) \<Rightarrow> switcher_error \<Rightarrow> string \<Rightarrow> writer_shutdown_outcome \<Rightarrow> switcher_error" where
  "resolve_error_after_writer_shutdown display trigger phase outcome =
     (case outcome of
        Stopped \<Rightarrow> trigger
      | Unresponsive timeout_ms \<Rightarrow>
          VirtualKeyboardWriterShutdownUnresponsive timeout_ms phase (display trigger))"

subsection \<open>The state machine\<close>

datatype input_backend_state = WaitingForInputAccess | Recovering | Ready

fun runtime_failure_recovery_state :: "switcher_error \<Rightarrow> input_backend_state option" where
  "runtime_failure_recovery_state KeyboardNotFound = Some WaitingForInputAccess"
| "runtime_failure_recovery_state (KeyboardAccessDenied _ _) = Some WaitingForInputAccess"
| "runtime_failure_recovery_state (UinputAccessDenied _ _) = Some WaitingForInputAccess"
| "runtime_failure_recovery_state InputSessionInactive = Some WaitingForInputAccess"
| "runtime_failure_recovery_state InputDeviceSeatMismatch = Some WaitingForInputAccess"
| "runtime_failure_recovery_state InputDeviceIdentityUnverified = Some WaitingForInputAccess"
| "runtime_failure_recovery_state (PhysicalKeyboardDeviceLost _ _) = Some Recovering"
| "runtime_failure_recovery_state (InputWorkerDisconnected _) = Some Recovering"
| "runtime_failure_recovery_state (SwitcherIo e) = (if no_such_device e then Some Recovering else None)"
| "runtime_failure_recovery_state _ = None"

record latched_writer_shutdown_failure =
  lf_timeout_ms :: u64
  lf_phase :: string
  lf_trigger :: string

definition latched_to_error :: "latched_writer_shutdown_failure \<Rightarrow> switcher_error" where
  "latched_to_error f = VirtualKeyboardWriterShutdownUnresponsive (lf_timeout_ms f) (lf_phase f) (lf_trigger f)"

record lifecycle =
  lc_state :: input_backend_state
  lc_retry_attempt :: nat
  lc_retry_deadline :: "nat option"
  lc_last_error :: "string option"
  lc_writer_fail_stop :: "latched_writer_shutdown_failure option"

definition lifecycle_new :: "nat \<Rightarrow> lifecycle" where
  "lifecycle_new now =
     \<lparr>lc_state = WaitingForInputAccess, lc_retry_attempt = 0, lc_retry_deadline = Some now,
      lc_last_error = None, lc_writer_fail_stop = None\<rparr>"

definition INITIAL_RETRY_DELAYS :: "nat list" where "INITIAL_RETRY_DELAYS = [500, 1000, 2000]"
definition STEADY_RETRY_DELAY :: nat where "STEADY_RETRY_DELAY = 3000"

definition retry_delay_for_attempt :: "nat \<Rightarrow> nat" where
  "retry_delay_for_attempt n =
     (if n < length INITIAL_RETRY_DELAYS then INITIAL_RETRY_DELAYS ! n else STEADY_RETRY_DELAY)"

definition transition_to_ready :: "lifecycle \<Rightarrow> lifecycle" where
  "transition_to_ready c =
     c\<lparr>lc_state := Ready, lc_retry_attempt := 0, lc_retry_deadline := None, lc_last_error := None\<rparr>"

definition schedule_retry_with_reason :: "string \<Rightarrow> nat \<Rightarrow> lifecycle \<Rightarrow> lifecycle" where
  "schedule_retry_with_reason reason now c =
     c\<lparr>lc_last_error := Some reason,
       lc_retry_deadline := Some (now + retry_delay_for_attempt (lc_retry_attempt c)),
       lc_retry_attempt := lc_retry_attempt c + 1\<rparr>"

definition transition_with_retry ::
  "(switcher_error \<Rightarrow> string) \<Rightarrow> input_backend_state \<Rightarrow> switcher_error \<Rightarrow> nat \<Rightarrow> lifecycle \<Rightarrow> lifecycle" where
  "transition_with_retry display next error now c =
     schedule_retry_with_reason (display error) now (c\<lparr>lc_state := next\<rparr>)"

definition latch_writer_fail_stop ::
  "(switcher_error \<Rightarrow> string) \<Rightarrow> u64 \<Rightarrow> string \<Rightarrow> string \<Rightarrow> lifecycle \<Rightarrow> switcher_error \<times> lifecycle" where
  "latch_writer_fail_stop display timeout_ms phase trigger c =
     (let failure = \<lparr>lf_timeout_ms = timeout_ms, lf_phase = phase, lf_trigger = trigger\<rparr>;
          error = latched_to_error failure in
      (error, c\<lparr>lc_retry_deadline := None, lc_last_error := Some (display error),
                lc_writer_fail_stop := Some failure\<rparr>))"

definition mark_backend_ready :: "input_backend_readiness \<Rightarrow> lifecycle \<Rightarrow> lifecycle" where
  "mark_backend_ready r c =
     (if lc_writer_fail_stop c = None \<and> readiness_is_ready r then transition_to_ready c else c)"

definition retry_due :: "nat \<Rightarrow> lifecycle \<Rightarrow> bool" where
  "retry_due now c \<longleftrightarrow>
     lc_writer_fail_stop c = None \<and> (case lc_retry_deadline c of None \<Rightarrow> False | Some d \<Rightarrow> d \<le> now)"

text \<open>
  What the lifecycle calls: opening a backend, and shutting down one that is not complete.
\<close>

record ('b, 'w) backend_opener =
  reopen_backend :: "'w \<Rightarrow> ('b \<times> input_backend_readiness) res \<times> 'w"
  backend_shutdown :: "'b \<Rightarrow> 'w \<Rightarrow> writer_shutdown_outcome \<times> 'w"

definition try_reopen ::
  "(switcher_error \<Rightarrow> string) \<Rightarrow> ('b, 'w) backend_opener \<Rightarrow> nat \<Rightarrow> lifecycle \<Rightarrow> 'w \<Rightarrow>
   'b option res \<times> lifecycle \<times> 'w" where
  "try_reopen display opener now c w =
     (case lc_writer_fail_stop c of
        Some failure \<Rightarrow> (Inl (latched_to_error failure), c, w)
      | None \<Rightarrow>
        (case reopen_backend opener w of
           (Inr (backend, readiness), w) \<Rightarrow>
             if readiness_is_ready readiness then (Inr (Some backend), transition_to_ready c, w)
             else
               let (outcome, w) = backend_shutdown opener backend w;
                   trigger = ''input backend readiness incomplete'' in
               (case outcome of
                  Stopped \<Rightarrow> (Inr None, schedule_retry_with_reason trigger now c, w)
                | Unresponsive timeout_ms \<Rightarrow>
                    let (error, c) = latch_writer_fail_stop display timeout_ms ''backend-readiness'' trigger c in
                    (Inl error, c, w))
         | (Inl (VirtualKeyboardWriterShutdownUnresponsive timeout_ms phase trigger), w) \<Rightarrow>
             let (error, c) = latch_writer_fail_stop display timeout_ms phase trigger c in (Inl error, c, w)
         | (Inl error, w) \<Rightarrow>
             if is_recoverable_input_error error
             then (Inr None, schedule_retry_with_reason (display error) now c, w)
             else (Inl error, c, w)))"

definition lifecycle_initialize ::
  "(switcher_error \<Rightarrow> string) \<Rightarrow> ('b, 'w) backend_opener \<Rightarrow> nat \<Rightarrow> lifecycle \<Rightarrow> 'w \<Rightarrow>
   'b option res \<times> lifecycle \<times> 'w" where
  "lifecycle_initialize = try_reopen"

definition try_recover ::
  "(switcher_error \<Rightarrow> string) \<Rightarrow> ('b, 'w) backend_opener \<Rightarrow> nat \<Rightarrow> lifecycle \<Rightarrow> 'w \<Rightarrow>
   'b option res \<times> lifecycle \<times> 'w" where
  "try_recover display opener now c w =
     (case lc_writer_fail_stop c of
        Some failure \<Rightarrow> (Inl (latched_to_error failure), c, w)
      | None \<Rightarrow>
          if lc_state c = Ready \<or> \<not> retry_due now c then (Inr None, c, w)
          else try_reopen display opener now c w)"

definition record_startup_failure ::
  "(switcher_error \<Rightarrow> string) \<Rightarrow> switcher_error \<Rightarrow> nat \<Rightarrow> lifecycle \<Rightarrow> lifecycle" where
  "record_startup_failure display error now c =
     (if lc_writer_fail_stop c = None \<and> is_recoverable_input_error error
      then transition_with_retry display WaitingForInputAccess error now c else c)"

definition can_recover_runtime_failure :: "switcher_error \<Rightarrow> lifecycle \<Rightarrow> bool" where
  "can_recover_runtime_failure error c \<longleftrightarrow>
     lc_writer_fail_stop c = None \<and> runtime_failure_recovery_state error \<noteq> None"

definition record_runtime_failure ::
  "(switcher_error \<Rightarrow> string) \<Rightarrow> switcher_error \<Rightarrow> nat \<Rightarrow> lifecycle \<Rightarrow> bool \<times> lifecycle" where
  "record_runtime_failure display error now c =
     (if lc_writer_fail_stop c \<noteq> None then (False, c)
      else case runtime_failure_recovery_state error of
        Some next \<Rightarrow> (True, transition_with_retry display next error now c)
      | None \<Rightarrow> (False, c))"

subsection \<open>Runs of the lifecycle\<close>

text \<open>The calls the daemon makes after the first attempt to open a backend.\<close>

datatype lifecycle_call =
    CallTryRecover nat
  | CallRecordStartupFailure switcher_error nat
  | CallRecordRuntimeFailure switcher_error nat
  | CallMarkBackendReady input_backend_readiness

fun lifecycle_step ::
  "(switcher_error \<Rightarrow> string) \<Rightarrow> ('b, 'w) backend_opener \<Rightarrow> lifecycle \<times> 'w \<Rightarrow> lifecycle_call \<Rightarrow> lifecycle \<times> 'w" where
  "lifecycle_step display opener (c, w) (CallTryRecover now) = snd (try_recover display opener now c w)"
| "lifecycle_step display opener (c, w) (CallRecordStartupFailure e now) = (record_startup_failure display e now c, w)"
| "lifecycle_step display opener (c, w) (CallRecordRuntimeFailure e now) = (snd (record_runtime_failure display e now c), w)"
| "lifecycle_step display opener (c, w) (CallMarkBackendReady r) = (mark_backend_ready r c, w)"

definition daemon_run ::
  "(switcher_error \<Rightarrow> string) \<Rightarrow> ('b, 'w) backend_opener \<Rightarrow> nat \<Rightarrow> 'w \<Rightarrow> lifecycle_call list \<Rightarrow> lifecycle \<times> 'w" where
  "daemon_run display opener start w calls =
     foldl (lifecycle_step display opener)
       (snd (lifecycle_initialize display opener start (lifecycle_new start) w)) calls"

definition lifecycle_ok :: "lifecycle \<Rightarrow> bool" where
  "lifecycle_ok c \<longleftrightarrow>
     (if lc_writer_fail_stop c = None then lc_state c = Ready \<longleftrightarrow> lc_retry_deadline c = None
      else lc_retry_deadline c = None) \<and>
     (lc_state c = Ready \<longrightarrow> lc_retry_attempt c = 0)"

lemmas lifecycle_defs = transition_to_ready_def schedule_retry_with_reason_def transition_with_retry_def
  latch_writer_fail_stop_def mark_backend_ready_def record_startup_failure_def record_runtime_failure_def

text \<open>How an attempt to open a backend can change the lifecycle.\<close>

lemma try_reopen_cases:
  obtains (unchanged) "fst (snd (try_reopen display opener now c w)) = c"
  | (ready) "lc_writer_fail_stop c = None" "fst (snd (try_reopen display opener now c w)) = transition_to_ready c"
  | (retry) reason where "lc_writer_fail_stop c = None"
      "fst (snd (try_reopen display opener now c w)) = schedule_retry_with_reason reason now c"
  | (latch) t phase trigger where "lc_writer_fail_stop c = None"
      "fst (snd (try_reopen display opener now c w)) = snd (latch_writer_fail_stop display t phase trigger c)"
proof (cases "lc_writer_fail_stop c")
  case (Some f)
  then show ?thesis by (intro unchanged) (simp add: try_reopen_def)
next
  case None
  obtain result v where opened: "reopen_backend opener w = (result, v)" by fastforce
  show ?thesis
  proof (cases result)
    case (Inr br)
    obtain b r where br: "br = (b, r)" by fastforce
    obtain outcome u where "backend_shutdown opener b v = (outcome, u)" by fastforce
    note eqs = this None opened Inr br
    show ?thesis
    proof (cases "readiness_is_ready r")
      case True
      with eqs show ?thesis by (intro ready) (simp_all add: try_reopen_def)
    next
      case False
      show ?thesis
      proof (cases outcome)
        case Stopped
        with eqs False show ?thesis
          by (intro retry [of "''input backend readiness incomplete''"]) (simp_all add: try_reopen_def)
      next
        case (Unresponsive t)
        with eqs False show ?thesis
          by (intro latch [of t "''backend-readiness''" "''input backend readiness incomplete''"])
            (simp_all add: try_reopen_def split: prod.splits)
      qed
    qed
  next
    case (Inl error)
    then show ?thesis
    proof (cases "\<exists>t phase trigger. error = VirtualKeyboardWriterShutdownUnresponsive t phase trigger")
      case True
      then obtain t phase trigger where "error = VirtualKeyboardWriterShutdownUnresponsive t phase trigger" by blast
      with None opened Inl show ?thesis
        by (intro latch [of t phase trigger]) (simp_all add: try_reopen_def split: prod.splits)
    next
      case False
      then have "try_reopen display opener now c w =
          (if is_recoverable_input_error error
           then (Inr None, schedule_retry_with_reason (display error) now c, v) else (Inl error, c, v))"
        using None opened Inl by (cases error) (simp_all add: try_reopen_def)
      with None show ?thesis
        using unchanged retry [of "display error"] by (cases "is_recoverable_input_error error") simp_all
    qed
  qed
qed

lemma try_reopen_ok:
  assumes "lifecycle_ok c" "lc_state c \<noteq> Ready"
  shows "lifecycle_ok (fst (snd (try_reopen display opener now c w)))"
  by (cases rule: try_reopen_cases [of display opener now c w])
    (use assms in \<open>simp_all add: lifecycle_ok_def lifecycle_defs Let_def\<close>)

lemma try_recover_ok: "lifecycle_ok c \<Longrightarrow> lifecycle_ok (fst (snd (try_recover display opener now c w)))"
  by (simp add: try_recover_def try_reopen_ok split: option.splits)

lemma lifecycle_step_ok: "lifecycle_ok (fst s) \<Longrightarrow> lifecycle_ok (fst (lifecycle_step display opener s call))"
proof (cases s; cases call)
  fix c w e now
  assume "lifecycle_ok (fst s)" "s = (c, w)" "call = CallRecordRuntimeFailure e now"
  moreover have "runtime_failure_recovery_state e \<noteq> Some Ready"
    by (cases e rule: runtime_failure_recovery_state.cases) (simp_all split: if_splits)
  ultimately show ?thesis
    by (auto simp: lifecycle_ok_def lifecycle_defs split: option.splits)
next
  fix c w now
  assume "lifecycle_ok (fst s)" "s = (c, w)" "call = CallTryRecover now"
  then show ?thesis using try_recover_ok by simp
qed (auto simp: lifecycle_ok_def lifecycle_defs)

interpretation lifecycle: step_invariant "lifecycle_step display opener" "\<lambda>s. lifecycle_ok (fst s)"
  for display opener
  by unfold_locales (rule lifecycle_step_ok)

lemma daemon_run_ok: "lifecycle_ok (fst (daemon_run display opener start w calls))"
proof -
  have "lifecycle_ok (lifecycle_new start)"
    by (simp add: lifecycle_ok_def lifecycle_new_def)
  then have "lifecycle_ok (fst (snd (lifecycle_initialize display opener start (lifecycle_new start) w)))"
    unfolding lifecycle_initialize_def by (rule try_reopen_ok) (simp add: lifecycle_new_def)
  then show ?thesis
    unfolding daemon_run_def by (rule lifecycle.inv_run)
qed

text \<open>
  C29: in every run of the daemon, a backend that is not ready and not latched has a time at which it
  is retried, and a call at or after that time does open a backend again.
\<close>

theorem waiting_backend_is_retried:
  assumes "daemon_run display opener start w calls = (c, v)"
    and "lc_writer_fail_stop c = None" "lc_state c \<noteq> Ready"
  shows "\<exists>d. lc_retry_deadline c = Some d \<and>
    (\<forall>now. try_recover display opener now c v = (if d \<le> now then try_reopen display opener now c v else (Inr None, c, v)))"
proof -
  have "lifecycle_ok c"
    using daemon_run_ok [of display opener start w calls] assms(1) by simp
  with assms(2,3) obtain d where "lc_retry_deadline c = Some d"
    by (auto simp: lifecycle_ok_def)
  with assms(2,3) show ?thesis
    by (auto simp: try_recover_def retry_due_def)
qed

lemma waiting_backend_is_retried_witness:
  "let c = fst (daemon_run (\<lambda>_. []) \<lparr>reopen_backend = \<lambda>w :: unit. (Inl KeyboardNotFound :: (nat \<times> input_backend_readiness) res, w),
        backend_shutdown = \<lambda>b w. (Stopped, w)\<rparr> 0 () [CallTryRecover 500]) in
     lc_state c \<noteq> Ready \<and> (\<exists>d. lc_retry_deadline c = Some d)"
proof -
  let ?o = "\<lparr>reopen_backend = \<lambda>w :: unit. (Inl KeyboardNotFound :: (nat \<times> input_backend_readiness) res, w),
        backend_shutdown = \<lambda>b w. (Stopped, w)\<rparr>"
  obtain c where c: "daemon_run (\<lambda>_. []) ?o 0 () [CallTryRecover 500] = (c, ())"
    by (cases "daemon_run (\<lambda>_. []) ?o 0 () [CallTryRecover 500]") simp
  then have "lc_writer_fail_stop c = None" "lc_state c \<noteq> Ready"
    by (auto simp: daemon_run_def lifecycle_initialize_def try_reopen_def try_recover_def lifecycle_new_def
        schedule_retry_with_reason_def retry_due_def retry_delay_for_attempt_def INITIAL_RETRY_DELAYS_def)
  with waiting_backend_is_retried [OF c] c show ?thesis by auto
qed

text \<open>
  C30: a writer that did not stop is latched for good.  After that no call opens a backend again or
  changes anything, and every attempt to recover reports the latched failure.
\<close>

theorem writer_fail_stop_is_final:
  assumes "lc_writer_fail_stop c = Some f"
  shows "foldl (lifecycle_step display opener) (c, w) calls = (c, w) \<and>
    fst (try_recover display opener now c w) = Inl (latched_to_error f)"
proof -
  have "lifecycle_step display opener (c, w) call = (c, w)" for call
    using assms by (cases call) (simp_all add: try_recover_def lifecycle_defs)
  then have "foldl (lifecycle_step display opener) (c, w) calls = (c, w)"
    by (induction calls) simp_all
  with assms show ?thesis by (simp add: try_recover_def)
qed

definition counting_opener :: "(unit, nat) backend_opener" where
  "counting_opener = \<lparr>reopen_backend = \<lambda>w. (Inl KeyboardNotFound, w + 1), backend_shutdown = \<lambda>b w. (Stopped, w + 1)\<rparr>"

lemma writer_fail_stop_is_final_witness:
  "let f = \<lparr>lf_timeout_ms = 1000, lf_phase = ''backend-open'', lf_trigger = ''x''\<rparr>;
       c = (lifecycle_new 0)\<lparr>lc_writer_fail_stop := Some f\<rparr> in
     foldl (lifecycle_step (\<lambda>_. []) counting_opener) (c, 7)
       [CallTryRecover 900, CallRecordRuntimeFailure KeyboardNotFound 1000] = (c, 7)"
proof -
  let ?f = "\<lparr>lf_timeout_ms = 1000, lf_phase = ''backend-open'', lf_trigger = ''x''\<rparr>"
  let ?c = "(lifecycle_new 0)\<lparr>lc_writer_fail_stop := Some ?f\<rparr>"
  have "lc_writer_fail_stop ?c = Some ?f" by simp
  from writer_fail_stop_is_final [OF this, of "\<lambda>_. []" counting_opener 7] show ?thesis
    unfolding Let_def by blast
qed

text \<open>The delay before a retry: half a second at first, three seconds at most.\<close>

lemma retry_delay_bounds: "500 \<le> retry_delay_for_attempt n \<and> retry_delay_for_attempt n \<le> 3000"
proof -
  have "n < 3 \<Longrightarrow> n = 0 \<or> n = 1 \<or> n = 2" by arith
  then show ?thesis
    by (auto simp: retry_delay_for_attempt_def INITIAL_RETRY_DELAYS_def STEADY_RETRY_DELAY_def)
qed

lemma runtime_recoverable_is_recoverable:
  "runtime_failure_recovery_state e = Some s \<Longrightarrow> is_recoverable_input_error e"
  by (cases e rule: runtime_failure_recovery_state.cases) (simp_all split: if_splits)

text \<open>
  The shutdown stops the writer's intake and releases the physical keyboard before it waits for
  the writer, and waits for the watchers only when the writer has stopped.
\<close>

theorem shutdown_phases_in_order:
  assumes "snd (run_keyboard_shutdown_sequence
      (\<lambda>phase (v, log). let (r, v) = run_phase phase v in (r, v, log @ [phase])) (w, [])) = (v, log)"
    and "fst (run_keyboard_shutdown_sequence
      (\<lambda>phase (v, log). let (r, v) = run_phase phase v in (r, v, log @ [phase])) (w, [])) = Some outcome"
  shows "log = [RequestWriterStop, ReleaseGrab, StartPendingEmergencyRelease, FinishWriterStop,
      (case outcome of Stopped \<Rightarrow> StopAndJoinWatchers | Unresponsive _ \<Rightarrow> DetachWatchers)]"
  using assms unfolding run_keyboard_shutdown_sequence_def
  by (auto simp: Let_def split: prod.splits option.splits writer_shutdown_outcome.splits)

lemma shutdown_phases_in_order_witness:
  "snd (snd (run_keyboard_shutdown_sequence
      (\<lambda>phase (v, log). let (r, v) = (Some (Unresponsive 1000), v) in (r, v, log @ [phase])) ((), []))) =
    [RequestWriterStop, ReleaseGrab, StartPendingEmergencyRelease, FinishWriterStop, DetachWatchers]"
  using shutdown_phases_in_order [of "\<lambda>phase v. (Some (Unresponsive 1000), v)" "()" "()" _ "Unresponsive 1000"]
  by (simp add: run_keyboard_shutdown_sequence_def)

end
