(* ===== verification/Input_Devices.thy ===== *)
theory Input_Devices
  imports Input_Keys Input_Backend "HOL-Library.Char_ord" "HOL-Library.List_Lexorder"
begin

text \<open>
  Finding the physical devices, src/src/daemon/input_device_identity.rs and the discovery functions
  of src/src/daemon/keyboard.rs: a path is accepted only if it is the character device that udev
  lists as initialized on the authorized seat, and only the device that was verified may be opened.
  The file system, udev and the opened devices are parameters (one snapshot per search).
\<close>

subsection \<open>What the system says about devices\<close>

record observed_device_identity =
  oi_character :: bool
  oi_devnum :: u64

record udev_device =
  ud_devnum :: "u64 option"
  ud_initialized :: bool
  ud_devnode :: "string option"
  ud_id_seat :: "string option option"

text \<open>
  The seat property is absent, or present with a value that may not be readable as text.
  An opened device has a name, the keys it reports, and the identity its descriptor shows.
\<close>

record opened_device =
  od_name :: "string option"
  od_supported_keys :: "key set option"
  od_fstat :: "os_error + observed_device_identity"

record device_system =
  sys_canonicalize :: "string \<Rightarrow> os_error + string"
  sys_metadata :: "string \<Rightarrow> os_error + observed_device_identity"
  sys_udev_input :: "os_error + udev_device list"
  sys_open :: "string \<Rightarrow> os_error + opened_device"
  sys_read_dir :: "string \<Rightarrow> string list option"
  sys_keyboard_path_env :: "string option"

subsection \<open>Identity (src/src/daemon/input_device_identity.rs)\<close>

definition identity_matches :: "u64 \<Rightarrow> observed_device_identity \<Rightarrow> bool" where
  "identity_matches expected observed \<longleftrightarrow> oi_character observed \<and> oi_devnum observed = expected"

definition normalized_device_seat :: "string option \<Rightarrow> string" where
  "normalized_device_seat seat =
     (case seat of Some s \<Rightarrow> if s \<noteq> [] then s else ''seat0'' | None \<Rightarrow> ''seat0'')"

definition verify_authorized_seat :: "string \<Rightarrow> string \<Rightarrow> unit res" where
  "verify_authorized_seat observed authorized =
     (if observed = authorized then Inr () else Inl InputDeviceSeatMismatch)"

record verified_input_device =
  vd_canonical_path :: string
  vd_devnum :: u64
  vd_seat :: string

definition udev_seat :: "udev_device \<Rightarrow> string res" where
  "udev_seat d =
     (case ud_id_seat d of
        None \<Rightarrow> Inr (normalized_device_seat None)
      | Some (Some s) \<Rightarrow> if s \<noteq> [] then Inr s else Inl InputDeviceIdentityUnverified
      | Some None \<Rightarrow> Inl InputDeviceIdentityUnverified)"

definition verify_input_device :: "device_system \<Rightarrow> string \<Rightarrow> string \<Rightarrow> verified_input_device res" where
  "verify_input_device sys path authorized_seat =
     and_then (map_err SwitcherIo (sys_canonicalize sys path)) (\<lambda>canonical.
     and_then (map_err SwitcherIo (sys_metadata sys canonical)) (\<lambda>meta.
     if \<not> oi_character meta then Inl InputDeviceIdentityUnverified
     else
       and_then (map_err SwitcherIo (sys_udev_input sys)) (\<lambda>devices.
       and_then (ok_or (find (\<lambda>d. ud_devnum d = Some (oi_devnum meta)) devices) InputDeviceIdentityUnverified) (\<lambda>device.
       if \<not> ud_initialized device then Inl InputDeviceIdentityUnverified
       else
         and_then (ok_or (ud_devnode device) InputDeviceIdentityUnverified) (\<lambda>node.
         and_then (map_err SwitcherIo (sys_canonicalize sys node)) (\<lambda>canonical_node.
         if canonical_node \<noteq> canonical then Inl InputDeviceIdentityUnverified
         else
           and_then (udev_seat device) (\<lambda>seat.
           and_then (verify_authorized_seat seat authorized_seat) (\<lambda>_.
           Inr \<lparr>vd_canonical_path = canonical, vd_devnum = oi_devnum meta, vd_seat = seat\<rparr>))))))))"

definition verify_open_device_identity :: "opened_device \<Rightarrow> verified_input_device \<Rightarrow> unit res" where
  "verify_open_device_identity device expected =
     and_then (map_err SwitcherIo (od_fstat device)) (\<lambda>observed.
     if identity_matches (vd_devnum expected) observed then Inr ()
     else Inl InputDeviceIdentityUnverified)"

subsection \<open>Candidates (src/src/daemon/keyboard.rs)\<close>

definition KEYBOARD_SYMLINK_SUFFIX :: string where "KEYBOARD_SYMLINK_SUFFIX = ''-event-kbd''"
definition KEYBOARD_SYMLINK_DIRS :: "string list" where
  "KEYBOARD_SYMLINK_DIRS = [''/dev/input/by-path'', ''/dev/input/by-id'']"

definition str_ends_with :: "string \<Rightarrow> string \<Rightarrow> bool" where
  "str_ends_with s suffix \<longleftrightarrow> take (length suffix) (rev s) = rev suffix"

definition path_join :: "string \<Rightarrow> string \<Rightarrow> string" where
  "path_join dir name = dir @ ''/'' @ name"

definition configured_keyboard_path :: "device_system \<Rightarrow> string option" where
  "configured_keyboard_path sys =
     (case sys_keyboard_path_env sys of Some raw \<Rightarrow> if raw = [] then None else Some raw | None \<Rightarrow> None)"

definition collect_keyboard_symlink_candidates_from_dirs :: "device_system \<Rightarrow> string list \<Rightarrow> string list" where
  "collect_keyboard_symlink_candidates_from_dirs sys dirs =
     concat (map (\<lambda>dir. case sys_read_dir sys dir of
        None \<Rightarrow> []
      | Some names \<Rightarrow> sort (map (path_join dir) (filter (\<lambda>n. str_ends_with n KEYBOARD_SYMLINK_SUFFIX) names))) dirs)"

definition ascii_digit :: "char \<Rightarrow> bool" where
  "ascii_digit c \<longleftrightarrow> 48 \<le> (of_char c :: nat) \<and> (of_char c :: nat) \<le> 57"

definition is_event_name :: "string \<Rightarrow> bool" where
  "is_event_name name \<longleftrightarrow>
     take 5 name = ''event'' \<and> drop 5 name \<noteq> [] \<and> list_all ascii_digit (drop 5 name)"

definition input_event_candidates :: "device_system \<Rightarrow> string list" where
  "input_event_candidates sys =
     (case sys_read_dir sys ''/dev/input'' of
        None \<Rightarrow> []
      | Some names \<Rightarrow> sort (map (path_join ''/dev/input'') (filter is_event_name names)))"

definition map_keyboard_open_error :: "string \<Rightarrow> os_error \<Rightarrow> switcher_error" where
  "map_keyboard_open_error path error =
     (if os_error_kind error = IoPermissionDenied then KeyboardAccessDenied path error else SwitcherIo error)"

text \<open>A path that is not acceptable is skipped; any other error of the verification ends the search.\<close>

definition skipped_device_error :: "switcher_error \<Rightarrow> bool" where
  "skipped_device_error e \<longleftrightarrow>
     (case e of
        InputDeviceSeatMismatch \<Rightarrow> True
      | InputDeviceIdentityUnverified \<Rightarrow> True
      | SwitcherIo io \<Rightarrow> os_error_kind io = IoNotFound \<or> os_error_kind io = IoNotConnected
      | _ \<Rightarrow> False)"

text \<open>
  Both searches for a keyboard walk the candidates in order and remember the first that could not be
  opened for lack of rights; \<open>suitable\<close> says whether an opened device is taken.
\<close>

definition denied_result :: "(string \<times> os_error) option \<Rightarrow> verified_input_device option res" where
  "denied_result denied =
     (case denied of Some (path, error) \<Rightarrow> Inl (map_keyboard_open_error path error) | None \<Rightarrow> Inr None)"

fun search_keyboard ::
  "device_system \<Rightarrow> string \<Rightarrow> (opened_device \<Rightarrow> bool) \<Rightarrow> string list \<Rightarrow> (string \<times> os_error) option \<Rightarrow>
   verified_input_device option res" where
  "search_keyboard sys seat suitable [] denied = denied_result denied"
| "search_keyboard sys seat suitable (path # paths) denied =
     (case verify_input_device sys path seat of
        Inl e \<Rightarrow> if skipped_device_error e then search_keyboard sys seat suitable paths denied else Inl e
      | Inr verified \<Rightarrow>
          (case sys_open sys (vd_canonical_path verified) of
             Inr device \<Rightarrow>
               (case verify_open_device_identity device verified of
                  Inl e \<Rightarrow> Inl e
                | Inr _ \<Rightarrow> if suitable device then Inr (Some verified)
                           else search_keyboard sys seat suitable paths denied)
           | Inl error \<Rightarrow>
               search_keyboard sys seat suitable paths
                 (if os_error_kind error = IoPermissionDenied \<and> denied = None
                  then Some (vd_canonical_path verified, error) else denied)))"

definition find_keyboard_via_symlinks :: "device_system \<Rightarrow> string \<Rightarrow> verified_input_device option res" where
  "find_keyboard_via_symlinks sys seat =
     search_keyboard sys seat (\<lambda>_. True)
       (collect_keyboard_symlink_candidates_from_dirs sys KEYBOARD_SYMLINK_DIRS) None"

definition device_name :: "opened_device \<Rightarrow> string" where
  "device_name d = (case od_name d of Some n \<Rightarrow> n | None \<Rightarrow> [])"


definition is_typing_keyboard :: "opened_device \<Rightarrow> bool" where
  "is_typing_keyboard d \<longleftrightarrow>
     (let name = device_name d in
      \<not> str_contains ''Virtual'' name \<and> \<not> str_contains ''Button'' name \<and> \<not> str_contains ''Camera'' name \<and>
      (case od_supported_keys d of
         None \<Rightarrow> False
       | Some keys \<Rightarrow> KEY_ENTER \<in> keys \<and> KEY_SPACE \<in> keys \<and> KEY_A \<in> keys))"

definition find_keyboard :: "device_system \<Rightarrow> string \<Rightarrow> verified_input_device option res" where
  "find_keyboard sys seat = search_keyboard sys seat is_typing_keyboard (input_event_candidates sys) None"

definition resolve_keyboard_device :: "device_system \<Rightarrow> string \<Rightarrow> verified_input_device res" where
  "resolve_keyboard_device sys seat =
     (case configured_keyboard_path sys of
        Some path \<Rightarrow> verify_input_device sys path seat
      | None \<Rightarrow>
          and_then (find_keyboard_via_symlinks sys seat) (\<lambda>found.
          case found of
            Some device \<Rightarrow> Inr device
          | None \<Rightarrow>
              and_then (find_keyboard sys seat) (\<lambda>found.
              case found of Some device \<Rightarrow> Inr device | None \<Rightarrow> Inl KeyboardNotFound)))"

definition POINTER_BUTTONS :: "key set" where
  "POINTER_BUTTONS = {0x110, 0x111, 0x112, 0x113, 0x114, 0x14a, 0x145, 0x14d}"

definition is_pointer_device :: "opened_device \<Rightarrow> bool" where
  "is_pointer_device d \<longleftrightarrow>
     \<not> str_contains ''Camera'' (device_name d) \<and>
     (case od_supported_keys d of None \<Rightarrow> False | Some keys \<Rightarrow> keys \<inter> POINTER_BUTTONS \<noteq> {})"

fun search_pointers ::
  "device_system \<Rightarrow> string \<Rightarrow> string \<Rightarrow> string list \<Rightarrow> verified_input_device list res" where
  "search_pointers sys excluded seat [] = Inr []"
| "search_pointers sys excluded seat (path # paths) =
     (case verify_input_device sys path seat of
        Inl e \<Rightarrow> if skipped_device_error e then search_pointers sys excluded seat paths else Inl e
      | Inr verified \<Rightarrow>
          if vd_canonical_path verified = excluded then search_pointers sys excluded seat paths
          else
            (case sys_open sys (vd_canonical_path verified) of
               Inl _ \<Rightarrow> search_pointers sys excluded seat paths
             | Inr device \<Rightarrow>
                 (case verify_open_device_identity device verified of
                    Inl e \<Rightarrow> Inl e
                  | Inr _ \<Rightarrow>
                      and_then (search_pointers sys excluded seat paths) (\<lambda>rest.
                      Inr (if is_pointer_device device then verified # rest else rest)))))"

definition find_pointer_devices :: "device_system \<Rightarrow> string \<Rightarrow> string \<Rightarrow> verified_input_device list res" where
  "find_pointer_devices sys excluded seat = search_pointers sys excluded seat (input_event_candidates sys)"

end
