(* ===== verification/Input_Handoff.thy ===== *)
theory Input_Handoff
  imports Input_Devices
begin

text \<open>
  Taking the physical keyboard over, src/src/daemon/keyboard.rs: the device that may be grabbed, the
  wait until the keyboard is quiet, the grab with its checks, and the activation of a prepared
  controller, which gives everything back when a step fails.

  The code reads and polls devices in loops that end only when the device does what is awaited, so
  a program here is a function to an optional result: \<open>None\<close> is a loop that used up its fuel, an
  error is a value with the state it leaves.  The system calls are parameters; instants and
  durations are nanoseconds.
\<close>

subsection \<open>Programs that may fail or not end\<close>

type_synonym ('s, 'a) procedure = "'s \<Rightarrow> ('a res \<times> 's) option"

definition prog_return :: "'a \<Rightarrow> ('s, 'a) procedure" where
  "prog_return a s = Some (Inr a, s)"

definition prog_fail :: "switcher_error \<Rightarrow> ('s, 'a) procedure" where
  "prog_fail e s = Some (Inl e, s)"

definition prog_bind :: "('s, 'a) procedure \<Rightarrow> ('a \<Rightarrow> ('s, 'b) procedure) \<Rightarrow> ('s, 'b) procedure" where
  "prog_bind m f s =
     (case m s of
        None \<Rightarrow> None
      | Some (Inl e, s) \<Rightarrow> Some (Inl e, s)
      | Some (Inr a, s) \<Rightarrow> f a s)"

definition prog_guard :: "unit res \<Rightarrow> ('s, unit) procedure" where
  "prog_guard r s = Some (r, s)"

subsection \<open>Waiting for a quiet keyboard\<close>

datatype input_wait_outcome = WaitTimedOut | WaitReadable

datatype quiescent_handoff_outcome = HandoffReady nat | HandoffBusy nat

text \<open>\<open>usize\<close> addition that stops at the largest value.\<close>

definition usize_saturating_add :: "nat \<Rightarrow> nat \<Rightarrow> nat" where
  "usize_saturating_add a b = min (a + b) (2 ^ 64 - 1)"

fun wait_for_quiescent_loop ::
  "nat \<Rightarrow> nat \<Rightarrow> nat \<Rightarrow> ('s, nat) procedure \<Rightarrow> ('s, nat) procedure \<Rightarrow> ('s, bool) procedure \<Rightarrow>
   (nat \<Rightarrow> ('s, input_wait_outcome) procedure) \<Rightarrow> nat \<Rightarrow> ('s, quiescent_handoff_outcome) procedure" where
  "wait_for_quiescent_loop 0 quiet deadline now discard pressed wait_once discarded s = None"
| "wait_for_quiescent_loop (Suc fuel) quiet deadline now discard pressed wait_once discarded s =
     (let again = wait_for_quiescent_loop fuel quiet deadline now discard pressed wait_once in
      prog_bind discard (\<lambda>n. let discarded = usize_saturating_add discarded n in
      prog_bind now (\<lambda>observed.
      if deadline \<le> observed then prog_return (HandoffBusy discarded)
      else
        prog_bind pressed (\<lambda>down.
        if down then prog_bind (wait_once (min (deadline - observed) quiet)) (\<lambda>_. again discarded)
        else if deadline - observed < quiet then prog_return (HandoffBusy discarded)
        else
          prog_bind (wait_once quiet) (\<lambda>outcome.
          case outcome of
            WaitReadable \<Rightarrow> again discarded
          | WaitTimedOut \<Rightarrow>
              prog_bind discard (\<lambda>late. let discarded = usize_saturating_add discarded late in
              if 0 < late then again discarded
              else
                prog_bind pressed (\<lambda>down.
                if down then again discarded
                else
                  prog_bind (wait_once 0) (\<lambda>outcome.
                  case outcome of
                    WaitTimedOut \<Rightarrow> prog_return (HandoffReady discarded)
                  | WaitReadable \<Rightarrow> again discarded))))))) s)"

definition wait_for_quiescent_input ::
  "nat \<Rightarrow> nat \<Rightarrow> nat \<Rightarrow> ('s, nat) procedure \<Rightarrow> ('s, nat) procedure \<Rightarrow> ('s, bool) procedure \<Rightarrow>
   (nat \<Rightarrow> ('s, input_wait_outcome) procedure) \<Rightarrow> ('s, quiescent_handoff_outcome) procedure" where
  "wait_for_quiescent_input fuel quiet deadline now discard pressed wait_once =
     wait_for_quiescent_loop fuel quiet deadline now discard pressed wait_once 0"

subsection \<open>The grab with its checks\<close>

definition acquire_grab_then_snapshot ::
  "('s, unit) procedure \<Rightarrow> ('s, unit) procedure \<Rightarrow> ('s, unit) procedure \<Rightarrow> ('s, unit) procedure \<Rightarrow> ('s, 'a) procedure \<Rightarrow>
   ('s, unit) procedure \<Rightarrow> ('s, 'a) procedure" where
  "acquire_grab_then_snapshot precheck acquire postcheck validate snapshot release =
     prog_bind precheck (\<lambda>_.
     prog_bind acquire (\<lambda>_ s.
       case prog_bind postcheck (\<lambda>_. prog_bind validate (\<lambda>_. snapshot)) s of
         None \<Rightarrow> None
       | Some (Inr a, s) \<Rightarrow> Some (Inr a, s)
       | Some (Inl e, s) \<Rightarrow>
           (case release s of
              None \<Rightarrow> None
            | Some (Inr _, s) \<Rightarrow> Some (Inl e, s)
            | Some (Inl release_error, s) \<Rightarrow> Some (Inl release_error, s))))"

subsection \<open>Polling a device\<close>

datatype device_poll_outcome = PollTimedOut | PollReadable | PollDeviceLost u16

definition POLLIN :: u16 where "POLLIN = 0x0001"
definition POLLERR :: u16 where "POLLERR = 0x0008"
definition POLLHUP :: u16 where "POLLHUP = 0x0010"
definition POLLNVAL :: u16 where "POLLNVAL = 0x0020"

definition classify_device_poll_result :: "int \<Rightarrow> u16 \<Rightarrow> device_poll_outcome" where
  "classify_device_poll_result result revents =
     (if result = 0 then PollTimedOut
      else if and revents (or POLLHUP (or POLLERR POLLNVAL)) \<noteq> 0 \<or> and revents POLLIN = 0
      then PollDeviceLost revents
      else PollReadable)"

text \<open>
  What the controller asks of the system.  The session is the published memory and the monotonic
  time at the moment of a check; \<open>ev_other_phase\<close> is what the phases of a shutdown do besides
  releasing the keyboard.
\<close>

record ('d, 'w) evdev_io =
  ev_open :: "string \<Rightarrow> 'w \<Rightarrow> (os_error + 'd) \<times> 'w"
  ev_fstat :: "'d \<Rightarrow> 'w \<Rightarrow> (os_error + observed_device_identity) \<times> 'w"
  ev_grab :: "'d \<Rightarrow> 'w \<Rightarrow> (os_error + unit) \<times> 'w"
  ev_ungrab :: "'d \<Rightarrow> 'w \<Rightarrow> (os_error + unit) \<times> 'w"
  ev_close :: "'d \<Rightarrow> 'w \<Rightarrow> 'w"
  ev_poll :: "'d \<Rightarrow> nat \<Rightarrow> 'w \<Rightarrow> (os_error + int \<times> u16) \<times> 'w"
  ev_fetch :: "'d \<Rightarrow> 'w \<Rightarrow> (os_error + nat) \<times> 'w"
  ev_key_state :: "'d \<Rightarrow> 'w \<Rightarrow> (os_error + key list) \<times> 'w"
  ev_caps_led :: "'d \<Rightarrow> 'w \<Rightarrow> (os_error + bool) \<times> 'w"
  ev_now :: "'w \<Rightarrow> nat \<times> 'w"
  ev_session :: "'w \<Rightarrow> (session_access \<times> u64) \<times> 'w"
  ev_writer_alive :: "'w \<Rightarrow> bool"
  ev_pointer_ready :: "'w \<Rightarrow> bool"
  ev_target_ready :: "'w \<Rightarrow> bool"
  ev_other_phase :: "keyboard_shutdown_phase \<Rightarrow> 'w \<Rightarrow> 'w"
  ev_finish_writer_stop :: "'w \<Rightarrow> writer_shutdown_outcome \<times> 'w"

record 'd grabbed_keyboard =
  gk_verified :: verified_input_device
  gk_path :: string
  gk_device :: "'d option"
  gk_grabbed :: bool

definition grabbed_keyboard_pending :: "verified_input_device \<Rightarrow> 'd grabbed_keyboard" where
  "grabbed_keyboard_pending v =
     \<lparr>gk_verified = v, gk_path = vd_canonical_path v, gk_device = None, gk_grabbed = False\<rparr>"

type_synonym ('d, 'w, 'a) kbd = "('d grabbed_keyboard \<times> 'w, 'a) procedure"

definition keyboard_device_missing :: switcher_error where
  "keyboard_device_missing = InputWorkerDisconnected ''keyboard-device''"

text \<open>A call on the open device, with its error mapped.\<close>

definition on_device ::
  "('d \<Rightarrow> 'w \<Rightarrow> (os_error + 'a) \<times> 'w) \<Rightarrow> (string \<Rightarrow> os_error \<Rightarrow> switcher_error) \<Rightarrow> ('d, 'w, 'a) kbd" where
  "on_device call err s =
     (case s of (k, w) \<Rightarrow>
        (case gk_device k of
           None \<Rightarrow> Some (Inl keyboard_device_missing, k, w)
         | Some d \<Rightarrow> (case call d w of (r, w) \<Rightarrow> Some (map_err (err (gk_path k)) r, k, w))))"

text \<open>The poll is repeated while a signal interrupts it.\<close>

fun poll_loop ::
  "nat \<Rightarrow> ('d, 'w) evdev_io \<Rightarrow> 'd \<Rightarrow> nat \<Rightarrow> 'w \<Rightarrow> ((os_error + device_poll_outcome) \<times> 'w) option" where
  "poll_loop 0 io d timeout_ms w = None"
| "poll_loop (Suc fuel) io d timeout_ms w =
     (case ev_poll io d timeout_ms w of
        (Inr (result, revents), w) \<Rightarrow> Some (Inr (classify_device_poll_result result revents), w)
      | (Inl e, w) \<Rightarrow> if os_error_kind e = IoInterrupted then poll_loop fuel io d timeout_ms w
                      else Some (Inl e, w))"

definition wait_for_device_input ::
  "nat \<Rightarrow> ('d, 'w) evdev_io \<Rightarrow> 'd \<Rightarrow> nat \<Rightarrow> 'w \<Rightarrow> ((os_error + device_poll_outcome) \<times> 'w) option" where
  "wait_for_device_input fuel io d timeout =
     poll_loop fuel io d (min (timeout div 1000000) (2 ^ 31 - 1))"

definition wait_for_input ::
  "nat \<Rightarrow> ('d, 'w) evdev_io \<Rightarrow> nat \<Rightarrow> ('d, 'w, input_wait_outcome) kbd" where
  "wait_for_input fuel io timeout s =
     (case s of (k, w) \<Rightarrow>
        (case gk_device k of
           None \<Rightarrow> Some (Inl keyboard_device_missing, k, w)
         | Some d \<Rightarrow>
             (case wait_for_device_input fuel io d timeout w of
                None \<Rightarrow> None
              | Some (Inl e, w) \<Rightarrow> Some (Inl (SwitcherIo e), k, w)
              | Some (Inr PollTimedOut, w) \<Rightarrow> Some (Inr WaitTimedOut, k, w)
              | Some (Inr PollReadable, w) \<Rightarrow> Some (Inr WaitReadable, k, w)
              | Some (Inr (PollDeviceLost revents), w) \<Rightarrow>
                  Some (Inl (PhysicalKeyboardDeviceLost (gk_path k) revents), k, w))))"

definition fetch_events :: "('d, 'w) evdev_io \<Rightarrow> ('d, 'w, nat) kbd" where
  "fetch_events io = on_device (ev_fetch io) map_keyboard_open_error"

definition fetch_events_timeout :: "nat \<Rightarrow> ('d, 'w) evdev_io \<Rightarrow> nat \<Rightarrow> ('d, 'w, nat) kbd" where
  "fetch_events_timeout fuel io timeout =
     prog_bind (wait_for_input fuel io timeout) (\<lambda>outcome.
       case outcome of WaitTimedOut \<Rightarrow> prog_return 0 | WaitReadable \<Rightarrow> fetch_events io)"

definition any_key_pressed :: "('d, 'w) evdev_io \<Rightarrow> ('d, 'w, bool) kbd" where
  "any_key_pressed io =
     prog_bind (on_device (ev_key_state io) map_keyboard_open_error) (\<lambda>keys. prog_return (keys \<noteq> []))"

definition caps_lock_led :: "('d, 'w) evdev_io \<Rightarrow> ('d, 'w, bool) kbd" where
  "caps_lock_led io = on_device (ev_caps_led io) map_keyboard_open_error"

fun discard_loop :: "nat \<Rightarrow> ('d, 'w) evdev_io \<Rightarrow> nat \<Rightarrow> ('d, 'w, nat) kbd" where
  "discard_loop 0 io discarded s = None"
| "discard_loop (Suc fuel) io discarded s =
     prog_bind (wait_for_input fuel io 0) (\<lambda>outcome.
       case outcome of
         WaitTimedOut \<Rightarrow> prog_return discarded
       | WaitReadable \<Rightarrow> prog_bind (fetch_events io) (\<lambda>n. discard_loop fuel io (usize_saturating_add discarded n))) s"

definition discard_ready_events :: "nat \<Rightarrow> ('d, 'w) evdev_io \<Rightarrow> ('d, 'w, nat) kbd" where
  "discard_ready_events fuel io = discard_loop fuel io 0"

subsection \<open>Opening, grabbing and releasing\<close>

definition open_for_handoff :: "('d, 'w) evdev_io \<Rightarrow> ('d, 'w, unit) kbd" where
  "open_for_handoff io s =
     (case s of (k, w) \<Rightarrow>
        if gk_device k \<noteq> None \<or> gk_grabbed k
        then Some (Inl (input_safety ''physical keyboard opened twice during handoff''), k, w)
        else
          (case ev_open io (gk_path k) w of
             (Inl e, w) \<Rightarrow> Some (Inl (map_keyboard_open_error (gk_path k) e), k, w)
           | (Inr d, w) \<Rightarrow>
               (case ev_fstat io d w of
                  (Inl e, w) \<Rightarrow> Some (Inl (SwitcherIo e), k, ev_close io d w)
                | (Inr observed, w) \<Rightarrow>
                    if identity_matches (vd_devnum (gk_verified k)) observed
                    then Some (Inr (), k\<lparr>gk_device := Some d\<rparr>, w)
                    else Some (Inl InputDeviceIdentityUnverified, k, ev_close io d w))))"

definition close_ungrabbed :: "('d, 'w) evdev_io \<Rightarrow> ('d, 'w, unit) kbd" where
  "close_ungrabbed io s =
     (case s of (k, w) \<Rightarrow>
        Some (Inr (), k\<lparr>gk_device := None\<rparr>, case gk_device k of None \<Rightarrow> w | Some d \<Rightarrow> ev_close io d w))"

definition grab :: "('d, 'w) evdev_io \<Rightarrow> ('d, 'w, unit) kbd" where
  "grab io s =
     (if gk_grabbed (fst s) then Some (Inr (), s)
      else prog_bind (on_device (ev_grab io) map_keyboard_open_error)
             (\<lambda>_ (k, w). Some (Inr (), k\<lparr>gk_grabbed := True\<rparr>, w)) s)"

text \<open>A device that cannot be released is closed, which releases it.\<close>

definition release_grab_or_close_device ::
  "('d \<Rightarrow> 'w \<Rightarrow> unit res \<times> 'w) \<Rightarrow> ('d \<Rightarrow> 'w \<Rightarrow> 'w) \<Rightarrow> 'd option \<times> bool \<times> 'w \<Rightarrow>
   unit res \<times> 'd option \<times> bool \<times> 'w" where
  "release_grab_or_close_device release close s =
     (case s of (device, grabbed, w) \<Rightarrow>
        if \<not> grabbed then (Inr (), device, grabbed, w)
        else
          (case device of
             None \<Rightarrow> (Inr (), None, False, w)
           | Some d \<Rightarrow>
               (case release d w of
                  (Inr _, w) \<Rightarrow> (Inr (), Some d, False, w)
                | (Inl e, w) \<Rightarrow> (Inl e, None, False, close d w))))"

definition release_grab :: "('d, 'w) evdev_io \<Rightarrow> ('d, 'w, unit) kbd" where
  "release_grab io s =
     (case s of (k, w) \<Rightarrow>
        if \<not> gk_grabbed k then Some (Inr (), k, w)
        else
          (case release_grab_or_close_device
                  (\<lambda>d w. map_prod (map_err (map_keyboard_open_error (gk_path k))) id (ev_ungrab io d w))
                  (ev_close io) (gk_device k, gk_grabbed k, w) of
             (r, device, grabbed, w) \<Rightarrow> Some (r, k\<lparr>gk_device := device, gk_grabbed := grabbed\<rparr>, w)))"

definition device_is_ready :: "'d grabbed_keyboard \<Rightarrow> bool" where
  "device_is_ready k \<longleftrightarrow> gk_grabbed k \<and> gk_device k \<noteq> None"

definition release_grab_best_effort ::
  "('d, 'w) evdev_io \<Rightarrow> 'd grabbed_keyboard \<times> 'w \<Rightarrow> 'd grabbed_keyboard \<times> 'w" where
  "release_grab_best_effort io s =
     (if \<not> device_is_ready (fst s) then s
      else case release_grab io s of Some (_, s) \<Rightarrow> s | None \<Rightarrow> s)"

subsection \<open>Shutdown and activation\<close>

definition controller_phase ::
  "('d, 'w) evdev_io \<Rightarrow> keyboard_shutdown_phase \<Rightarrow> 'd grabbed_keyboard \<times> 'w \<Rightarrow>
   writer_shutdown_outcome option \<times> 'd grabbed_keyboard \<times> 'w" where
  "controller_phase io phase s =
     (case phase of
        ReleaseGrab \<Rightarrow> (None, release_grab_best_effort io s)
      | FinishWriterStop \<Rightarrow>
          (case ev_finish_writer_stop io (snd s) of (outcome, w) \<Rightarrow> (Some outcome, fst s, w))
      | _ \<Rightarrow> (None, fst s, ev_other_phase io phase (snd s)))"

definition controller_shutdown ::
  "('d, 'w) evdev_io \<Rightarrow> 'd grabbed_keyboard \<times> 'w \<Rightarrow>
   writer_shutdown_outcome option \<times> 'd grabbed_keyboard \<times> 'w" where
  "controller_shutdown io = run_keyboard_shutdown_sequence (controller_phase io)"

definition lease_check :: "('d, 'w) evdev_io \<Rightarrow> session_lease \<Rightarrow> ('d, 'w, unit) kbd" where
  "lease_check io lease s =
     (case s of (k, w) \<Rightarrow> (case ev_session io w of ((p, now), w) \<Rightarrow> Some (ensure_current lease p now, k, w)))"

definition ensure_input_watchers_ready :: "bool \<Rightarrow> bool \<Rightarrow> unit res" where
  "ensure_input_watchers_ready pointer target =
     (if \<not> pointer then Inl (InputWorkerDisconnected ''pointer-watcher'')
      else if \<not> target then Inl (InputWorkerDisconnected ''input-target-watcher'')
      else Inr ())"

definition ensure_input_dependencies_ready :: "bool \<Rightarrow> bool \<Rightarrow> bool \<Rightarrow> unit res" where
  "ensure_input_dependencies_ready writer pointer target =
     (if \<not> writer then Inl VirtualKeyboardWriterDisconnected else ensure_input_watchers_ready pointer target)"

definition dependencies_check :: "('d, 'w) evdev_io \<Rightarrow> ('d, 'w, unit) kbd" where
  "dependencies_check io s =
     Some (ensure_input_dependencies_ready (ev_writer_alive io (snd s)) (ev_pointer_ready io (snd s))
       (ev_target_ready io (snd s)), s)"

definition read_clock :: "('d, 'w) evdev_io \<Rightarrow> ('d, 'w, nat) kbd" where
  "read_clock io s = (case ev_now io (snd s) of (t, w) \<Rightarrow> Some (Inr t, fst s, w))"

definition INPUT_HANDOFF_QUIET_WINDOW :: nat where "INPUT_HANDOFF_QUIET_WINDOW = 20000000"
definition INPUT_HANDOFF_MAX_WAIT :: nat where "INPUT_HANDOFF_MAX_WAIT = 100000000"

definition refuse_pressed :: "('d, 'w) evdev_io \<Rightarrow> ('d, 'w, unit) kbd" where
  "refuse_pressed io =
     prog_bind (any_key_pressed io) (\<lambda>down (k, w).
       if down then Some (Inl (PhysicalKeyboardHandoffBusy (gk_path k)), k, w) else Some (Inr (), k, w))"

definition caps_lock_snapshot :: "('d, 'w) evdev_io \<Rightarrow> ('d, 'w, bool) kbd" where
  "caps_lock_snapshot io s =
     (case caps_lock_led io s of
        None \<Rightarrow> None
      | Some (Inr led, s) \<Rightarrow> Some (Inr led, s)
      | Some (Inl _, s) \<Rightarrow> Some (Inr False, s))"

definition activation :: "nat \<Rightarrow> ('d, 'w) evdev_io \<Rightarrow> session_lease \<Rightarrow> ('d, 'w, bool) kbd" where
  "activation fuel io lease =
     prog_bind (lease_check io lease) (\<lambda>_.
     prog_bind (dependencies_check io) (\<lambda>_.
     prog_bind (open_for_handoff io) (\<lambda>_.
     prog_bind (read_clock io) (\<lambda>start.
     prog_bind (wait_for_quiescent_input fuel INPUT_HANDOFF_QUIET_WINDOW (start + INPUT_HANDOFF_MAX_WAIT)
        (read_clock io) (discard_ready_events fuel io) (any_key_pressed io) (wait_for_input fuel io)) (\<lambda>handoff.
     prog_bind (case handoff of
          HandoffReady _ \<Rightarrow> prog_return ()
        | HandoffBusy _ \<Rightarrow> prog_bind (close_ungrabbed io)
            (\<lambda>_ (k, w). Some (Inl (PhysicalKeyboardHandoffBusy (gk_path k)), k, w))) (\<lambda>_.
     prog_bind (dependencies_check io) (\<lambda>_.
     acquire_grab_then_snapshot (lease_check io lease) (grab io) (lease_check io lease)
       (refuse_pressed io) (caps_lock_snapshot io) (release_grab io))))))))"

definition activate ::
  "(switcher_error \<Rightarrow> string) \<Rightarrow> nat \<Rightarrow> ('d, 'w) evdev_io \<Rightarrow> session_lease \<Rightarrow> ('d, 'w, bool) kbd" where
  "activate display fuel io lease s =
     (case activation fuel io lease s of
        None \<Rightarrow> None
      | Some (Inr caps, s) \<Rightarrow> Some (Inr caps, s)
      | Some (Inl error, s) \<Rightarrow>
          (case controller_shutdown io s of
             (None, s) \<Rightarrow> None
           | (Some outcome, s) \<Rightarrow>
               Some (Inl (resolve_error_after_writer_shutdown display error ''keyboard-activate-handoff'' outcome), s)))"

end
