(* ===== verification/Handoff_Properties.thy ===== *)
theory Handoff_Properties
  imports Input_Handoff
begin

text \<open>
  Properties of finding and taking over the physical keyboard: only a device of the authorized seat
  whose identity was verified is used, the takeover waits for a quiet keyboard and ends, and it
  either holds the keyboard or has given it back.
\<close>

subsection \<open>Devices\<close>

lemma verify_input_device_Inr:
  assumes "verify_input_device sys path seat = Inr v"
  shows "vd_seat v = seat \<and> sys_canonicalize sys path = Inr (vd_canonical_path v) \<and>
    sys_metadata sys (vd_canonical_path v) = Inr \<lparr>oi_character = True, oi_devnum = vd_devnum v\<rparr> \<and>
    (\<exists>devices d node. sys_udev_input sys = Inr devices \<and> d \<in> set devices \<and>
       ud_devnum d = Some (vd_devnum v) \<and> ud_initialized d \<and> ud_devnode d = Some node \<and>
       sys_canonicalize sys node = Inr (vd_canonical_path v) \<and> udev_seat d = Inr seat)"
proof -
  have ok: "ok_or x e = Inr y \<longleftrightarrow> x = Some y" for x :: "'x option" and e :: 'e and y
    by (cases x) auto
  have found: "find P xs = Some x \<Longrightarrow> x \<in> set xs \<and> P x" for P and xs :: "udev_device list" and x
    by (meson find_SomeD)
  show ?thesis
    using assms unfolding verify_input_device_def
    by (fastforce simp: ok verify_authorized_seat_def dest!: found split: if_splits)
qed

lemma search_keyboard_Some:
  "search_keyboard sys seat suitable paths denied = Inr (Some v) \<Longrightarrow>
   \<exists>path \<in> set paths. \<exists>d. verify_input_device sys path seat = Inr v \<and>
     sys_open sys (vd_canonical_path v) = Inr d \<and> verify_open_device_identity d v = Inr () \<and> suitable d"
proof (induction paths arbitrary: denied)
  case Nil
  then show ?case by (auto simp: denied_result_def split: option.splits prod.splits)
next
  case (Cons path paths)
  show ?case
  proof (cases "\<exists>denied. search_keyboard sys seat suitable paths denied = Inr (Some v)")
    case True
    with Cons.IH show ?thesis by (metis list.set_intros(2))
  next
    case False
    with Cons.prems show ?thesis
      by (auto split: sum.splits if_splits)
  qed
qed

text \<open>
  C25: the keyboard that is chosen, whether configured, linked or enumerated, lies on the authorized
  seat and is the initialized character device that udev lists at that very path.
\<close>

theorem resolved_keyboard_is_verified:
  assumes "resolve_keyboard_device sys seat = Inr v"
  shows "vd_seat v = seat \<and>
    sys_metadata sys (vd_canonical_path v) = Inr \<lparr>oi_character = True, oi_devnum = vd_devnum v\<rparr> \<and>
    (\<exists>devices d node. sys_udev_input sys = Inr devices \<and> d \<in> set devices \<and>
       ud_devnum d = Some (vd_devnum v) \<and> ud_initialized d \<and> ud_devnode d = Some node \<and>
       sys_canonicalize sys node = Inr (vd_canonical_path v) \<and> udev_seat d = Inr seat)"
proof -
  have "\<exists>path. verify_input_device sys path seat = Inr v"
    using assms unfolding resolve_keyboard_device_def find_keyboard_via_symlinks_def find_keyboard_def
    by (auto dest!: search_keyboard_Some split: option.splits)
  then show ?thesis
    using verify_input_device_Inr by blast
qed

definition one_keyboard :: device_system where
  "one_keyboard =
     \<lparr>sys_canonicalize = \<lambda>p. Inr ''/dev/input/event3'',
      sys_metadata = \<lambda>p. Inr \<lparr>oi_character = True, oi_devnum = 3331\<rparr>,
      sys_udev_input = Inr [\<lparr>ud_devnum = Some 3331, ud_initialized = True, ud_devnode = Some ''/dev/input/event3'',
         ud_id_seat = None\<rparr>],
      sys_open = \<lambda>p. Inr \<lparr>od_name = Some ''AT keyboard'', od_supported_keys = Some {KEY_ENTER, KEY_SPACE, KEY_A},
         od_fstat = Inr \<lparr>oi_character = True, oi_devnum = 3331\<rparr>\<rparr>,
      sys_read_dir = \<lambda>d. if d = ''/dev/input'' then Some [''event3'', ''mice''] else None,
      sys_keyboard_path_env = None\<rparr>"

lemma resolved_keyboard_is_verified_witness:
  "let v = \<lparr>vd_canonical_path = ''/dev/input/event3'', vd_devnum = 3331, vd_seat = ''seat0''\<rparr> in
     resolve_keyboard_device one_keyboard ''seat0'' = Inr v \<and> udev_seat \<lparr>ud_devnum = Some 3331,
       ud_initialized = True, ud_devnode = Some ''/dev/input/event3'', ud_id_seat = None\<rparr> = Inr ''seat0''"
proof -
  let ?v = "\<lparr>vd_canonical_path = ''/dev/input/event3'', vd_devnum = 3331, vd_seat = ''seat0''\<rparr>"
  have v: "resolve_keyboard_device one_keyboard ''seat0'' = Inr ?v"
    by code_simp
  from resolved_keyboard_is_verified [OF this] show ?thesis
    using v by (auto simp: one_keyboard_def)
qed

subsection \<open>Programs\<close>

text \<open>A program keeps a predicate if it holds after it, whether it succeeds or fails.\<close>

definition keeps :: "('s \<Rightarrow> bool) \<Rightarrow> ('s, 'a) procedure \<Rightarrow> bool" where
  "keeps P m \<longleftrightarrow> (\<forall>s r s'. P s \<longrightarrow> m s = Some (r, s') \<longrightarrow> P s')"

named_theorems keeps_intros \<open>programs that keep the predicate of the takeover\<close>

lemma keepsI: "(\<And>s r s'. P s \<Longrightarrow> m s = Some (r, s') \<Longrightarrow> P s') \<Longrightarrow> keeps P m"
  by (auto simp: keeps_def)

lemma keepsD: "keeps P m \<Longrightarrow> P s \<Longrightarrow> m s = Some (r, s') \<Longrightarrow> P s'"
  by (auto simp: keeps_def)

lemma keeps_return [keeps_intros]: "keeps P (prog_return a)"
  by (simp add: keeps_def prog_return_def)

lemma prog_bind_Some:
  "prog_bind m f s = Some (r, s') \<longleftrightarrow>
     (\<exists>e. m s = Some (Inl e, s') \<and> r = Inl e) \<or> (\<exists>a t. m s = Some (Inr a, t) \<and> f a t = Some (r, s'))"
  by (auto simp: prog_bind_def split: option.splits sum.splits prod.splits)

lemma keeps_bind [keeps_intros]:
  assumes "keeps P m" "\<And>a. keeps P (f a)"
  shows "keeps P (prog_bind m f)"
proof (rule keepsI)
  fix s r s' assume "P s" "prog_bind m f s = Some (r, s')"
  then show "P s'"
    unfolding prog_bind_Some using keepsD [OF assms(1)] keepsD [OF assms(2)] by blast
qed

lemma keeps_if [keeps_intros]: "keeps P m \<Longrightarrow> keeps P n \<Longrightarrow> keeps P (if b then m else n)"
  by simp

lemma keeps_wait_case [keeps_intros]:
  "keeps P m \<Longrightarrow> keeps P n \<Longrightarrow> keeps P (case x of WaitTimedOut \<Rightarrow> m | WaitReadable \<Rightarrow> n)"
  by (cases x) simp_all

lemma keeps_quiescent_loop:
  assumes "keeps P now" "keeps P discard" "keeps P pressed" "\<And>d. keeps P (wait_once d)"
  shows "keeps P (wait_for_quiescent_loop fuel quiet deadline now discard pressed wait_once n)"
proof (induction fuel arbitrary: n)
  case 0
  then show ?case by (simp add: keeps_def)
next
  case (Suc fuel)
  show ?case
    unfolding wait_for_quiescent_loop.simps [abs_def] Let_def
    by (intro keeps_intros assms Suc.IH)
qed

lemma keeps_acquire:
  assumes "keeps P precheck" "keeps P acquire" "keeps P postcheck" "keeps P validate" "keeps P snapshot" "keeps P release"
  shows "keeps P (acquire_grab_then_snapshot precheck acquire postcheck validate snapshot release)"
proof -
  have checks: "keeps P (prog_bind postcheck (\<lambda>_. prog_bind validate (\<lambda>_. snapshot)))"
    by (intro keeps_intros assms)
  have "keeps P (\<lambda>s. case prog_bind postcheck (\<lambda>_. prog_bind validate (\<lambda>_. snapshot)) s of
      None \<Rightarrow> None | Some (Inr a, s) \<Rightarrow> Some (Inr a, s)
    | Some (Inl e, s) \<Rightarrow> (case release s of None \<Rightarrow> None | Some (Inr _, s) \<Rightarrow> Some (Inl e, s)
         | Some (Inl release_error, s) \<Rightarrow> Some (Inl release_error, s)))"
    by (rule keepsI) (auto dest: keepsD [OF checks] keepsD [OF assms(6)] split: option.splits sum.splits prod.splits)
  then show ?thesis
    unfolding acquire_grab_then_snapshot_def by (intro keeps_bind assms)
qed

subsection \<open>The takeover\<close>

text \<open>
  What the takeover relies on of the kernel.  \<open>held\<close> says that this process holds the keyboard
  exclusively: a failed grab does not change it, a successful release and the closing of the
  descriptor end it, and nothing else touches it.
\<close>

definition evdev_kernel :: "('d, 'w) evdev_io \<Rightarrow> ('w \<Rightarrow> bool) \<Rightarrow> bool" where
  "evdev_kernel io held \<longleftrightarrow>
     (\<forall>p w. held (snd (ev_open io p w)) = held w) \<and>
     (\<forall>d w. held (snd (ev_fstat io d w)) = held w) \<and>
     (\<forall>d t w. held (snd (ev_poll io d t w)) = held w) \<and>
     (\<forall>d w. held (snd (ev_fetch io d w)) = held w) \<and>
     (\<forall>d w. held (snd (ev_key_state io d w)) = held w) \<and>
     (\<forall>d w. held (snd (ev_caps_led io d w)) = held w) \<and>
     (\<forall>w. held (snd (ev_now io w)) = held w) \<and>
     (\<forall>w. held (snd (ev_session io w)) = held w) \<and>
     (\<forall>phase w. held (ev_other_phase io phase w) = held w) \<and>
     (\<forall>w. held (snd (ev_finish_writer_stop io w)) = held w) \<and>
     (\<forall>d w e w'. ev_grab io d w = (Inl e, w') \<longrightarrow> held w' = held w) \<and>
     (\<forall>d w w'. ev_ungrab io d w = (Inr (), w') \<longrightarrow> \<not> held w') \<and>
     (\<forall>d w. \<not> held (ev_close io d w))"

text \<open>A held keyboard is recorded as grabbed, and its device is open.\<close>

definition grab_tracked :: "('w \<Rightarrow> bool) \<Rightarrow> 'd grabbed_keyboard \<times> 'w \<Rightarrow> bool" where
  "grab_tracked held s \<longleftrightarrow>
     (held (snd s) \<longrightarrow> gk_grabbed (fst s)) \<and> (gk_grabbed (fst s) \<longrightarrow> gk_device (fst s) \<noteq> None)"

lemma kernel_calls:
  assumes "evdev_kernel io held"
  shows "ev_open io p w = (r1, w') \<Longrightarrow> held w' = held w"
    and "ev_fstat io d w = (r2, w') \<Longrightarrow> held w' = held w"
    and "ev_poll io d t w = (r3, w') \<Longrightarrow> held w' = held w"
    and "ev_fetch io d w = (r4, w') \<Longrightarrow> held w' = held w"
    and "ev_key_state io d w = (r5, w') \<Longrightarrow> held w' = held w"
    and "ev_caps_led io d w = (r6, w') \<Longrightarrow> held w' = held w"
    and "ev_now io w = (r7, w') \<Longrightarrow> held w' = held w"
    and "ev_session io w = (r8, w') \<Longrightarrow> held w' = held w"
    and "ev_finish_writer_stop io w = (r9, w') \<Longrightarrow> held w' = held w"
    and "held (ev_other_phase io phase w) = held w"
    and "ev_grab io d w = (Inl e, w') \<Longrightarrow> held w' = held w"
    and "ev_ungrab io d w = (Inr (), w') \<Longrightarrow> \<not> held w'"
    and "\<not> held (ev_close io d w)"
  using assms unfolding evdev_kernel_def by (metis snd_conv)+

text \<open>
  An observation leaves the keyboard's record and \<open>held\<close> as they are, so it keeps whatever is said
  of them.
\<close>

definition seen :: "('w \<Rightarrow> bool) \<Rightarrow> 'd grabbed_keyboard \<Rightarrow> bool \<Rightarrow> 'd grabbed_keyboard \<times> 'w \<Rightarrow> bool" where
  "seen held k b s \<longleftrightarrow> fst s = k \<and> held (snd s) = b"

lemma keeps_observed:
  assumes "\<And>k b. keeps (seen held k b) m"
  shows "keeps (\<lambda>s. P (fst s) (held (snd s))) m"
proof (rule keepsI)
  fix s r s' assume h: "P (fst s) (held (snd s))" "m s = Some (r, s')"
  have "seen held (fst s) (held (snd s)) s'"
    using keepsD [OF assms _ h(2)] by (simp add: seen_def)
  with h(1) show "P (fst s') (held (snd s'))" by (simp add: seen_def)
qed

definition ungrabbed :: "('w \<Rightarrow> bool) \<Rightarrow> 'd grabbed_keyboard \<times> 'w \<Rightarrow> bool" where
  "ungrabbed held s \<longleftrightarrow> \<not> gk_grabbed (fst s) \<and> \<not> held (snd s)"

lemma keeps_tracked: "(\<And>k b. keeps (seen held k b) m) \<Longrightarrow> keeps (grab_tracked held) m"
  using keeps_observed [where P = "\<lambda>k b. (b \<longrightarrow> gk_grabbed k) \<and> (gk_grabbed k \<longrightarrow> gk_device k \<noteq> None)"]
  unfolding grab_tracked_def [abs_def] by blast

lemma keeps_ungrabbed: "(\<And>k b. keeps (seen held k b) m) \<Longrightarrow> keeps (ungrabbed held) m"
  using keeps_observed [where P = "\<lambda>k b. \<not> gk_grabbed k \<and> \<not> b"]
  unfolding ungrabbed_def [abs_def] by blast

lemma keeps_on_device:
  assumes "\<And>d w r w'. call d w = (r, w') \<Longrightarrow> held w' = held w"
  shows "keeps (seen held k b) (on_device call err)"
  by (rule keepsI) (auto simp: on_device_def seen_def dest: assms split: option.splits prod.splits)

lemma poll_loop_held:
  "evdev_kernel io held \<Longrightarrow> poll_loop fuel io d t w = Some (r, w') \<Longrightarrow> held w' = held w"
proof (induction fuel arbitrary: w)
  case (Suc fuel)
  obtain res v where poll: "ev_poll io d t w = (res, v)" by fastforce
  with kernel_calls(3) [OF Suc.prems(1)] have "held v = held w" by blast
  with Suc poll show ?case
    by (auto split: sum.splits if_splits)
qed simp

lemma keeps_wait_for_input:
  assumes "evdev_kernel io held"
  shows "keeps (seen held k b) (wait_for_input fuel io t)"
proof (rule keepsI)
  fix s r s'
  assume h: "seen held k b s" "wait_for_input fuel io t s = Some (r, s')"
  obtain w where s: "s = (k, w)" "held w = b" using h(1) by (cases s) (auto simp: seen_def)
  from h(2) have "\<exists>w'. s' = (k, w') \<and> (w' = w \<or> (\<exists>d res. wait_for_device_input fuel io d t w = Some (res, w')))"
    unfolding wait_for_input_def s(1)
    by (auto split: option.splits sum.splits device_poll_outcome.splits)
  then obtain w' where "s' = (k, w')" "held w' = held w"
    using poll_loop_held [OF assms] unfolding wait_for_device_input_def by blast
  with h(1) s show "seen held k b s'"
    by (simp add: seen_def)
qed

lemma keeps_discard_loop:
  assumes "evdev_kernel io held"
  shows "keeps (seen held k b) (discard_loop fuel io n)"
proof (induction fuel arbitrary: n)
  case 0
  then show ?case by (simp add: keeps_def)
next
  case (Suc fuel)
  have "keeps (seen held k b) (fetch_events io)"
    unfolding fetch_events_def using kernel_calls(4) [OF assms] by (rule keeps_on_device)
  then show ?case
    unfolding discard_loop.simps [abs_def]
    by (intro keeps_intros keeps_wait_for_input [OF assms] Suc.IH)
qed

lemma keeps_any_key_pressed: "evdev_kernel io held \<Longrightarrow> keeps (seen held k b) (any_key_pressed io)"
  unfolding any_key_pressed_def
  by (intro keeps_bind keeps_return keeps_on_device) (rule kernel_calls(5))

lemma keeps_read_clock: "evdev_kernel io held \<Longrightarrow> keeps (seen held k b) (read_clock io)"
  by (rule keepsI) (auto simp: read_clock_def seen_def dest: kernel_calls(7) split: prod.splits)

lemma keeps_lease_check: "evdev_kernel io held \<Longrightarrow> keeps (seen held k b) (lease_check io l)"
  by (rule keepsI) (auto simp: lease_check_def seen_def dest: kernel_calls(8) split: prod.splits)

lemma keeps_dependencies_check: "keeps P (dependencies_check io)"
  by (auto simp: keeps_def dependencies_check_def)

lemma keeps_open_for_handoff: "evdev_kernel io held \<Longrightarrow> keeps (ungrabbed held) (open_for_handoff io)"
  by (rule keepsI)
    (auto simp: open_for_handoff_def ungrabbed_def dest: kernel_calls(1,2,13) split: prod.splits sum.splits if_splits)

lemma keeps_close_ungrabbed: "evdev_kernel io held \<Longrightarrow> keeps (ungrabbed held) (close_ungrabbed io)"
  by (rule keepsI) (auto simp: close_ungrabbed_def ungrabbed_def dest: kernel_calls(13) split: option.splits)

lemma map_err_Inl_iff: "map_err f r = Inl e \<longleftrightarrow> (\<exists>e'. r = Inl e' \<and> e = f e')"
  by (cases r) auto

lemma Inr_map_err_iff: "Inr a = map_err f r \<longleftrightarrow> r = Inr a"
  by (cases r) auto

lemma Inl_map_err_iff: "Inl e = map_err f r \<longleftrightarrow> (\<exists>e'. r = Inl e' \<and> e = f e')"
  by (cases r) auto

lemma keeps_grab:
  assumes "evdev_kernel io held"
  shows "keeps (grab_tracked held) (grab io)"
proof (rule keepsI)
  fix s r s'
  assume "grab_tracked held s" "grab io s = Some (r, s')"
  then show "grab_tracked held s'"
    using kernel_calls(11) [OF assms]
    by (auto simp: grab_def prog_bind_Some on_device_def grab_tracked_def map_err_Inl_iff
        split: if_splits option.splits prod.splits)
qed

lemma release_grab_releases:
  assumes "evdev_kernel io held" "grab_tracked held s" "release_grab io s = Some (r, s')"
  shows "grab_tracked held s'" "\<not> gk_grabbed (fst s')" "\<not> held (snd s')"
  using assms kernel_calls(12,13) [OF assms(1)]
  by (auto simp: release_grab_def release_grab_or_close_device_def grab_tracked_def map_prod_def
      Inr_map_err_iff Inl_map_err_iff split: if_splits option.splits prod.splits sum.splits)

lemma keeps_refuse_pressed: "evdev_kernel io held \<Longrightarrow> keeps (seen held k b) (refuse_pressed io)"
  unfolding refuse_pressed_def
  by (intro keeps_bind keeps_any_key_pressed) (auto simp: keeps_def split: if_splits)

lemma keeps_caps_lock_snapshot:
  assumes "evdev_kernel io held"
  shows "keeps (seen held k b) (caps_lock_snapshot io)"
proof -
  have led: "keeps (seen held k b) (caps_lock_led io)"
    unfolding caps_lock_led_def using kernel_calls(6) [OF assms] by (rule keeps_on_device)
  show ?thesis
    by (rule keepsI) (auto simp: caps_lock_snapshot_def dest: keepsD [OF led] split: option.splits sum.splits prod.splits)
qed

text \<open>Programs that start ungrabbed and end tracked.\<close>

definition leads :: "('s \<Rightarrow> bool) \<Rightarrow> ('s \<Rightarrow> bool) \<Rightarrow> ('s, 'a) procedure \<Rightarrow> bool" where
  "leads P Q m \<longleftrightarrow> (\<forall>s r s'. P s \<longrightarrow> m s = Some (r, s') \<longrightarrow> Q s')"

lemma leads_bind:
  assumes "keeps P m" "\<And>s. P s \<Longrightarrow> Q s" "\<And>a. leads P Q (f a)"
  shows "leads P Q (prog_bind m f)"
  unfolding leads_def prog_bind_Some
  using keepsD [OF assms(1)] assms(2) assms(3) unfolding leads_def by blast

lemma leads_keeps: "keeps Q m \<Longrightarrow> (\<And>s. P s \<Longrightarrow> Q s) \<Longrightarrow> leads P Q m"
  unfolding leads_def keeps_def by blast

lemma ungrabbed_tracked: "ungrabbed held s \<Longrightarrow> grab_tracked held s"
  by (simp add: ungrabbed_def grab_tracked_def)

lemma keeps_handoff_case:
  assumes "evdev_kernel io held"
  shows "keeps (ungrabbed held) (case handoff of HandoffReady _ \<Rightarrow> prog_return ()
    | HandoffBusy _ \<Rightarrow> prog_bind (close_ungrabbed io)
        (\<lambda>_ (k, w). Some (Inl (PhysicalKeyboardHandoffBusy (gk_path k)), k, w)))"
proof -
  have "keeps (ungrabbed held) (prog_bind (close_ungrabbed io)
        (\<lambda>_ (k, w). Some (Inl (PhysicalKeyboardHandoffBusy (gk_path k)) :: unit res, k, w)))"
    by (intro keeps_bind keeps_close_ungrabbed [OF assms]) (auto simp: keeps_def)
  then show ?thesis by (cases handoff) (simp_all add: keeps_return)
qed

lemma keeps_quiescent_wait:
  assumes "evdev_kernel io held"
  shows "keeps (seen held k b) (wait_for_quiescent_input fuel quiet deadline (read_clock io)
      (discard_ready_events fuel io) (any_key_pressed io) (wait_for_input fuel io))"
  unfolding wait_for_quiescent_input_def discard_ready_events_def
  by (intro keeps_quiescent_loop keeps_read_clock [OF assms] keeps_any_key_pressed [OF assms]
      keeps_wait_for_input [OF assms] keeps_discard_loop [OF assms])

lemmas activation_steps = keeps_ungrabbed [OF keeps_lease_check] keeps_open_for_handoff
  keeps_ungrabbed [OF keeps_read_clock] keeps_ungrabbed [OF keeps_quiescent_wait] keeps_handoff_case

lemma activation_tracked:
  assumes kernel: "evdev_kernel io held"
  shows "leads (ungrabbed held) (grab_tracked held) (activation fuel io lease)"
proof -
  have release: "keeps (grab_tracked held) (release_grab io)"
    using release_grab_releases(1) [OF kernel] by (intro keepsI)
  have last: "keeps (grab_tracked held) (acquire_grab_then_snapshot (lease_check io lease) (grab io)
      (lease_check io lease) (refuse_pressed io) (caps_lock_snapshot io) (release_grab io))"
    by (intro keeps_acquire keeps_tracked [OF keeps_lease_check [OF kernel]] keeps_grab [OF kernel]
        keeps_tracked [OF keeps_refuse_pressed [OF kernel]] keeps_tracked [OF keeps_caps_lock_snapshot [OF kernel]] release)
  show ?thesis
    unfolding activation_def
    by (intro leads_bind ungrabbed_tracked leads_keeps [OF last] keeps_dependencies_check
        activation_steps [OF kernel])
qed

lemma release_grab_best_effort_releases:
  assumes "evdev_kernel io held" "grab_tracked held s"
  shows "\<not> gk_grabbed (fst (release_grab_best_effort io s)) \<and> \<not> held (snd (release_grab_best_effort io s))"
proof (cases "device_is_ready (fst s)")
  case True
  obtain r s' where r: "release_grab io s = Some (r, s')"
    by (cases "release_grab io s") (auto simp: release_grab_def split: prod.splits if_splits)
  with True show ?thesis
    using release_grab_releases [OF assms r] by (simp add: release_grab_best_effort_def)
qed (use assms(2) in \<open>auto simp: release_grab_best_effort_def device_is_ready_def grab_tracked_def\<close>)

lemma controller_shutdown_releases:
  assumes "evdev_kernel io held" "grab_tracked held s" "controller_shutdown io s = (outcome, s')"
  shows "outcome \<noteq> None \<and> \<not> gk_grabbed (fst s') \<and> \<not> held (snd s')"
proof -
  let ?s1 = "(fst s, ev_other_phase io RequestWriterStop (snd s))"
  have other: "held (ev_other_phase io phase w) = held w" for phase w
    using assms(1) by (rule kernel_calls(10))
  then have "grab_tracked held ?s1"
    using assms(2) by (simp add: grab_tracked_def)
  from release_grab_best_effort_releases [OF assms(1) this] show ?thesis
    using assms(3) other kernel_calls(9) [OF assms(1)]
    by (auto simp: controller_shutdown_def run_keyboard_shutdown_sequence_def controller_phase_def
        split: prod.splits writer_shutdown_outcome.splits)
qed

text \<open>A successful program ends in its last step, started from a state of the predicate its other steps keep.\<close>

definition succeeds_with :: "('s \<Rightarrow> bool) \<Rightarrow> ('a \<Rightarrow> 's \<Rightarrow> bool) \<Rightarrow> ('s, 'a) procedure \<Rightarrow> bool" where
  "succeeds_with P R m \<longleftrightarrow> (\<forall>s a s'. P s \<longrightarrow> m s = Some (Inr a, s') \<longrightarrow> R a s')"

lemma succeeds_with_bind:
  assumes "keeps P m" "\<And>a. succeeds_with P R (f a)"
  shows "succeeds_with P R (prog_bind m f)"
  unfolding succeeds_with_def prog_bind_Some
  using keepsD [OF assms(1)] assms(2) unfolding succeeds_with_def by blast

lemma acquire_grab_then_snapshot_Inr:
  "acquire_grab_then_snapshot precheck acquire postcheck validate snapshot release s = Some (Inr a, s') \<longleftrightarrow>
     (\<exists>s1 s2 s3 s4. precheck s = Some (Inr (), s1) \<and> acquire s1 = Some (Inr (), s2) \<and>
        postcheck s2 = Some (Inr (), s3) \<and> validate s3 = Some (Inr (), s4) \<and> snapshot s4 = Some (Inr a, s'))"
proof -
  have "(case x of None \<Rightarrow> None | Some (Inr a, s) \<Rightarrow> Some (Inr a, s)
      | Some (Inl e, s) \<Rightarrow> (case release s of None \<Rightarrow> None | Some (Inr _, s) \<Rightarrow> Some (Inl e, s)
           | Some (Inl release_error, s) \<Rightarrow> Some (Inl release_error, s))) = Some (Inr a, s') \<longleftrightarrow> x = Some (Inr a, s')" for x
    by (auto split: option.splits sum.splits prod.splits)
  then show ?thesis
    unfolding acquire_grab_then_snapshot_def by (simp add: prog_bind_Some)
qed

text \<open>What a completed takeover has seen, in this order, and nothing after it but the Caps Lock light.\<close>

definition taken_over :: "('d, 'w) evdev_io \<Rightarrow> session_lease \<Rightarrow> 'd grabbed_keyboard \<Rightarrow> 'w \<Rightarrow> bool" where
  "taken_over io lease k w \<longleftrightarrow>
     gk_grabbed k \<and>
     (\<exists>d w1 w2 p now w3 w4. gk_device k = Some d \<and> ev_grab io d w1 = (Inr (), w2) \<and>
        ev_session io w2 = ((p, now), w3) \<and> ensure_current lease p now = Inr () \<and>
        ev_key_state io d w3 = (Inr [], w4) \<and> w = snd (ev_caps_led io d w4))"

lemma acquire_taken_over:
  "succeeds_with (ungrabbed held) (\<lambda>_ s. taken_over io lease (fst s) (snd s))
     (acquire_grab_then_snapshot (lease_check io lease) (grab io) (lease_check io lease)
       (refuse_pressed io) (caps_lock_snapshot io) (release_grab io))"
  unfolding succeeds_with_def acquire_grab_then_snapshot_Inr
proof (intro allI impI, elim exE conjE)
  fix s caps s' s1 s2 s3 s4
  assume "ungrabbed held s" and lease1: "lease_check io lease s = Some (Inr (), s1)"
    and grabbed: "grab io s1 = Some (Inr (), s2)" and lease2: "lease_check io lease s2 = Some (Inr (), s3)"
    and idle: "refuse_pressed io s3 = Some (Inr (), s4)" and led: "caps_lock_snapshot io s4 = Some (Inr caps, s')"
  then have "\<not> gk_grabbed (fst s1)"
    by (auto simp: lease_check_def ungrabbed_def split: prod.splits)
  with grabbed obtain k w1 d w2 where s2: "s2 = (k, w2)" "gk_device k = Some d" "gk_grabbed k" "ev_grab io d w1 = (Inr (), w2)"
    by (cases s1) (auto simp: grab_def prog_bind_Some on_device_def split: option.splits prod.splits)
  with lease2 obtain p now w3 where s3: "s3 = (k, w3)" "ev_session io w2 = ((p, now), w3)" "ensure_current lease p now = Inr ()"
    by (auto simp: lease_check_def split: prod.splits)
  with idle s2(2) obtain w4 where s4: "s4 = (k, w4)" "ev_key_state io d w3 = (Inr [], w4)"
    by (auto simp: refuse_pressed_def any_key_pressed_def prog_bind_Some prog_return_def on_device_def
        split: prod.splits if_splits)
  with led s2(2) have "s' = (k, snd (ev_caps_led io d w4))"
    by (auto simp: caps_lock_snapshot_def caps_lock_led_def on_device_def split: prod.splits sum.splits)
  then show "taken_over io lease (fst s') (snd s')"
    unfolding taken_over_def using s2(2-4) s3(2,3) s4(2) by (metis fst_conv snd_conv)
qed

lemma activation_taken_over:
  assumes "evdev_kernel io held"
  shows "succeeds_with (ungrabbed held) (\<lambda>_ s. taken_over io lease (fst s) (snd s)) (activation fuel io lease)"
  unfolding activation_def
  by (intro succeeds_with_bind keeps_dependencies_check activation_steps [OF assms] acquire_taken_over)

text \<open>
  C13: taking the keyboard over is all or nothing.  If activation fails at any step, the keyboard is
  no longer held when it returns, however the release itself went; if it succeeds, the keyboard was
  grabbed, then the session lease was still current, and then no key was down.
\<close>

theorem activate_all_or_nothing:
  assumes "evdev_kernel io held" "\<not> held w"
    and "activate display fuel io lease (grabbed_keyboard_pending v, w) = Some (r, k', w')"
  shows "case r of Inl _ \<Rightarrow> \<not> gk_grabbed k' \<and> \<not> held w' | Inr _ \<Rightarrow> taken_over io lease k' w'"
proof -
  let ?s = "(grabbed_keyboard_pending v, w)"
  have start: "ungrabbed held ?s"
    using assms(2) by (simp add: ungrabbed_def grabbed_keyboard_pending_def)
  obtain r1 s1 where s1: "activation fuel io lease ?s = Some (r1, s1)"
    using assms(3) by (auto simp: activate_def split: option.splits)
  show ?thesis
  proof (cases r1)
    case (Inr caps)
    with s1 assms(3) have "r = Inr caps" "s1 = (k', w')" by (simp_all add: activate_def)
    with s1 Inr start show ?thesis
      using activation_taken_over [OF assms(1)] unfolding succeeds_with_def by fastforce
  next
    case (Inl e)
    have "grab_tracked held s1"
      using activation_tracked [OF assms(1)] start s1 unfolding leads_def by blast
    with s1 Inl assms(3) show ?thesis
      using controller_shutdown_releases [OF assms(1)]
      by (fastforce simp: activate_def split: prod.splits option.splits)
  qed
qed

text \<open>
  A small system: a keyboard that can be grabbed, polled and read; the world counts the time.  The
  keys \<open>tw_late\<close> are pressed at the moment of the grab.
\<close>

record tiny_world =
  tw_time :: nat
  tw_held :: bool
  tw_late :: "key list"

definition tiny_lease :: session_lease where
  "tiny_lease = \<lparr>sl_generation = 2, sl_session = \<lparr>as_session_id = ''c2'', as_seat = ''seat0''\<rparr>\<rparr>"

definition tiny_io :: "(unit, tiny_world) evdev_io" where
  "tiny_io =
     \<lparr>ev_open = \<lambda>p w. (Inr (), w),
      ev_fstat = \<lambda>d w. (Inr \<lparr>oi_character = True, oi_devnum = 3331\<rparr>, w),
      ev_grab = \<lambda>d w. (Inr (), w\<lparr>tw_held := True\<rparr>),
      ev_ungrab = \<lambda>d w. (Inr (), w\<lparr>tw_held := False\<rparr>),
      ev_close = \<lambda>d w. w\<lparr>tw_held := False\<rparr>,
      ev_poll = \<lambda>d t w. (Inr (0, 0), w\<lparr>tw_time := tw_time w + 1 + t * 1000000\<rparr>),
      ev_fetch = \<lambda>d w. (Inr 0, w),
      ev_key_state = \<lambda>d w. (Inr (if tw_held w then tw_late w else []), w),
      ev_caps_led = \<lambda>d w. (Inr True, w),
      ev_now = \<lambda>w. (tw_time w, w),
      ev_session = \<lambda>w. ((publish (Authorized (sl_session tiny_lease)) 10 session_access_new, 11), w),
      ev_writer_alive = \<lambda>w. True, ev_pointer_ready = \<lambda>w. True, ev_target_ready = \<lambda>w. True,
      ev_other_phase = \<lambda>phase w. w,
      ev_finish_writer_stop = \<lambda>w. (Stopped, w)\<rparr>"

definition tiny_device :: verified_input_device where
  "tiny_device = \<lparr>vd_canonical_path = ''/dev/input/event3'', vd_devnum = 3331, vd_seat = ''seat0''\<rparr>"

definition tiny_start :: "key list \<Rightarrow> tiny_world" where
  "tiny_start late = \<lparr>tw_time = 0, tw_held = False, tw_late = late\<rparr>"

lemma tiny_kernel: "evdev_kernel tiny_io tw_held"
  by (simp add: evdev_kernel_def tiny_io_def)

lemma activate_all_or_nothing_witness:
  "(\<exists>k w. activate (\<lambda>_. []) 50 tiny_io tiny_lease (grabbed_keyboard_pending tiny_device, tiny_start []) = Some (Inr True, k, w) \<and>
      taken_over tiny_io tiny_lease k w) \<and>
   (\<exists>e k w. activate (\<lambda>_. []) 50 tiny_io tiny_lease (grabbed_keyboard_pending tiny_device, tiny_start [30]) = Some (Inl e, k, w) \<and>
      \<not> tw_held w)"
proof -
  let ?run = "\<lambda>down. activate (\<lambda>_. []) 50 tiny_io tiny_lease (grabbed_keyboard_pending tiny_device, tiny_start down)"
  have "case ?run [] of Some (Inr True, k, w) \<Rightarrow> True | _ \<Rightarrow> False"
    by code_simp
  then obtain k w where run: "?run [] = Some (Inr True, k, w)"
    by (auto split: option.splits prod.splits sum.splits bool.splits)
  have "case ?run [30] of Some (Inl e, k, w) \<Rightarrow> True | _ \<Rightarrow> False"
    by code_simp
  then obtain e k' w' where run': "?run [30] = Some (Inl e, k', w')"
    by (auto split: option.splits prod.splits sum.splits)
  have idle: "\<not> tw_held (tiny_start down)" for down by (simp add: tiny_start_def)
  have "taken_over tiny_io tiny_lease k w" "\<not> tw_held w'"
    using activate_all_or_nothing [OF tiny_kernel idle run] activate_all_or_nothing [OF tiny_kernel idle run'] by simp_all
  with run run' show ?thesis by blast
qed

subsection \<open>The wait for a quiet keyboard\<close>

text \<open>
  C31: the keyboard counts as quiet only when a whole quiet window passed without input, nothing was
  left to read after it, no key was down, and a last poll found nothing.
\<close>

theorem handoff_ready_means_quiet:
  assumes "wait_for_quiescent_input fuel quiet deadline now discard pressed wait_once s = Some (Inr (HandoffReady n), s')"
  shows "\<exists>s1 s2 s3 s4. wait_once quiet s1 = Some (Inr WaitTimedOut, s2) \<and> discard s2 = Some (Inr 0, s3) \<and>
    pressed s3 = Some (Inr False, s4) \<and> wait_once 0 s4 = Some (Inr WaitTimedOut, s')"
proof -
  have "wait_for_quiescent_loop fuel quiet deadline now discard pressed wait_once m s = Some (Inr (HandoffReady n), s') \<Longrightarrow> ?thesis" for m s
  proof (induction fuel arbitrary: m s)
    case (Suc fuel)
    show ?case
    proof (rule ccontr)
      assume none: "\<not> ?thesis"
      then have IH: "wait_for_quiescent_loop fuel quiet deadline now discard pressed wait_once m s \<noteq> Some (Inr (HandoffReady n), s')" for m s
        using Suc.IH by blast
      from Suc.prems none show False
        by (auto simp: prog_bind_Some prog_return_def Let_def IH split: if_splits input_wait_outcome.splits)
          (metis input_wait_outcome.exhaust)+
    qed
  qed simp
  with assms show ?thesis
    unfolding wait_for_quiescent_input_def by blast
qed

lemma handoff_ready_means_quiet_witness:
  "\<exists>s1 s2 s3 s4 s'. wait_for_input 50 tiny_io 20000000 s1 = Some (Inr WaitTimedOut, s2) \<and>
     discard_ready_events 50 tiny_io s2 = Some (Inr 0, s3) \<and> any_key_pressed tiny_io s3 = Some (Inr False, s4) \<and>
     wait_for_input 50 tiny_io 0 s4 = Some (Inr WaitTimedOut, s')"
proof -
  let ?run = "wait_for_quiescent_input 50 20000000 100000000 (read_clock tiny_io) (discard_ready_events 50 tiny_io)
     (any_key_pressed tiny_io) (wait_for_input 50 tiny_io)
     ((grabbed_keyboard_pending tiny_device)\<lparr>gk_device := Some ()\<rparr>, tiny_start [])"
  have "case ?run of Some (Inr (HandoffReady 0), s') \<Rightarrow> True | _ \<Rightarrow> False"
    by code_simp
  then obtain s' where "?run = Some (Inr (HandoffReady 0), s')"
    by (auto split: option.splits prod.splits sum.splits quiescent_handoff_outcome.splits nat.splits)
  from handoff_ready_means_quiet [OF this] show ?thesis by blast
qed

text \<open>
  What the wait relies on: the calls return, time does not go back, and every wait takes time.
\<close>

definition timed_handoff ::
  "('s \<Rightarrow> nat) \<Rightarrow> ('s, nat) procedure \<Rightarrow> ('s, nat) procedure \<Rightarrow> ('s, bool) procedure \<Rightarrow> (nat \<Rightarrow> ('s, input_wait_outcome) procedure) \<Rightarrow> bool" where
  "timed_handoff time now discard pressed wait_once \<longleftrightarrow>
     (\<forall>s. now s = Some (Inr (time s), s)) \<and>
     (\<forall>s. \<exists>r s'. discard s = Some (r, s') \<and> time s \<le> time s') \<and>
     (\<forall>s. \<exists>r s'. pressed s = Some (r, s') \<and> time s \<le> time s') \<and>
     (\<forall>d s. \<exists>r s'. wait_once d s = Some (r, s') \<and> time s < time s')"

definition total_on :: "('s \<Rightarrow> bool) \<Rightarrow> ('s, 'a) procedure \<Rightarrow> bool" where
  "total_on P m \<longleftrightarrow> (\<forall>s. P s \<longrightarrow> (\<exists>r s'. m s = Some (r, s')))"

definition moves :: "('s \<Rightarrow> bool) \<Rightarrow> ('s \<Rightarrow> bool) \<Rightarrow> ('s, 'a) procedure \<Rightarrow> bool" where
  "moves P Q m \<longleftrightarrow> (\<forall>s. P s \<longrightarrow> (\<exists>r s'. m s = Some (r, s') \<and> Q s'))"

named_theorems total_intros \<open>programs that return\<close>

lemma total_return [total_intros]: "total_on P (prog_return a)"
  by (simp add: total_on_def prog_return_def)

lemma total_if [total_intros]: "total_on P m \<Longrightarrow> total_on P n \<Longrightarrow> total_on P (if b then m else n)"
  by simp

lemma total_wait_case [total_intros]:
  "total_on P m \<Longrightarrow> total_on P n \<Longrightarrow> total_on P (case x of WaitTimedOut \<Rightarrow> m | WaitReadable \<Rightarrow> n)"
  by (cases x) simp_all

lemma total_bind:
  assumes "moves P Q m" "\<And>a. total_on Q (f a)"
  shows "total_on P (prog_bind m f)"
  unfolding total_on_def
proof (intro allI impI)
  fix s assume "P s"
  then obtain r s' where r: "m s = Some (r, s')" "Q s'"
    using assms(1) unfolding moves_def by blast
  then show "\<exists>r s'. prog_bind m f s = Some (r, s')"
    using assms(2) by (cases r) (auto simp: prog_bind_def total_on_def)
qed

lemma quiescent_loop_total:
  assumes "timed_handoff time now discard pressed wait_once"
  shows "total_on (\<lambda>s. deadline - time s < fuel)
    (wait_for_quiescent_loop fuel quiet deadline now discard pressed wait_once m)"
proof (induction fuel arbitrary: m)
  case 0
  then show ?case by (simp add: total_on_def)
next
  case (Suc fuel)
  let ?loop = "wait_for_quiescent_loop fuel quiet deadline now discard pressed wait_once"
  let ?T = "\<lambda>t s. t \<le> time s"
  have calls: "\<And>s. now s = Some (Inr (time s), s)"
      "\<And>s. \<exists>r s'. discard s = Some (r, s') \<and> time s \<le> time s'"
      "\<And>s. \<exists>r s'. pressed s = Some (r, s') \<and> time s \<le> time s'"
      "\<And>d s. \<exists>r s'. wait_once d s = Some (r, s') \<and> time s < time s'"
    using assms by (simp_all add: timed_handoff_def)
  have discard: "moves (?T t) (?T t) discard" for t
    unfolding moves_def using calls(2) le_trans by blast
  have pressed: "moves (?T t) (?T t) pressed" for t
    unfolding moves_def using calls(3) le_trans by blast
  have wait: "moves (?T t) (?T (Suc t)) (wait_once d)" for t d
    unfolding moves_def using calls(4) by (metis Suc_leI le_less_trans)
  have wait': "moves (?T t) (?T t) (wait_once d)" for t d
    using wait [of t d] unfolding moves_def by (meson Suc_leD)
  show ?case
    unfolding total_on_def
  proof (intro allI impI)
    fix s assume fuel: "deadline - time s < Suc fuel"
    have again: "total_on (?T (Suc t)) (?loop k)" if "t < deadline" "time s \<le> t" for t k
      unfolding total_on_def
    proof (intro allI impI)
      fix s' assume "Suc t \<le> time s'"
      then have "deadline - time s' < fuel" using that fuel by linarith
      then show "\<exists>r s''. ?loop k s' = Some (r, s'')"
        using Suc.IH [of k] unfolding total_on_def by blast
    qed
    have rest: "total_on (?T t) (prog_bind pressed (\<lambda>down.
        if down then prog_bind (wait_once (min (deadline - t) quiet)) (\<lambda>_. ?loop k)
        else if deadline - t < quiet then prog_return (HandoffBusy k)
        else prog_bind (wait_once quiet) (\<lambda>outcome. case outcome of WaitReadable \<Rightarrow> ?loop k
          | WaitTimedOut \<Rightarrow> prog_bind discard (\<lambda>late.
              if 0 < late then ?loop (usize_saturating_add k late)
              else prog_bind pressed (\<lambda>down. if down then ?loop (usize_saturating_add k late)
                else prog_bind (wait_once 0) (\<lambda>outcome. case outcome of
                    WaitTimedOut \<Rightarrow> prog_return (HandoffReady (usize_saturating_add k late))
                  | WaitReadable \<Rightarrow> ?loop (usize_saturating_add k late)))))))"
      if "t < deadline" "time s \<le> t" for t k
      by (intro total_bind [OF pressed] total_bind [OF wait] total_bind [OF discard] total_bind [OF wait']
          total_intros again that)
    have clock: "total_on (?T (time s)) (prog_bind now (\<lambda>t. if deadline \<le> t then prog_return (HandoffBusy k) else g t))"
      if "\<And>t. t < deadline \<Longrightarrow> time s \<le> t \<Longrightarrow> total_on (?T t) (g t)" for k g
      using that calls(1) by (auto simp: total_on_def prog_bind_def prog_return_def not_le)
    have "total_on (?T (time s)) (wait_for_quiescent_loop (Suc fuel) quiet deadline now discard pressed wait_once m)"
      unfolding wait_for_quiescent_loop.simps [abs_def] Let_def
      by (rule total_bind [OF discard], rule clock, rule rest)
    then show "\<exists>r s'. wait_for_quiescent_loop (Suc fuel) quiet deadline now discard pressed wait_once m s = Some (r, s')"
      unfolding total_on_def by blast
  qed
qed

text \<open>
  The wait for a quiet keyboard ends, whatever the user types: after at most one round per unit
  of time that is left until the deadline.
\<close>

theorem quiescent_wait_terminates:
  assumes "timed_handoff time now discard pressed wait_once" "deadline - time s < fuel"
  shows "\<exists>r s'. wait_for_quiescent_input fuel quiet deadline now discard pressed wait_once s = Some (r, s')"
  using quiescent_loop_total [OF assms(1)] assms(2) unfolding total_on_def wait_for_quiescent_input_def by blast

lemma quiescent_wait_terminates_witness:
  "\<exists>r s'. wait_for_quiescent_input 6 2 5 (\<lambda>s :: nat. Some (Inr s, s)) (\<lambda>s. Some (Inr 1, s))
     (\<lambda>s. Some (Inr True, s)) (\<lambda>d s. Some (Inr WaitReadable, s + 1)) 0 = Some (r, s')"
proof -
  have "timed_handoff id (\<lambda>s :: nat. Some (Inr s, s)) (\<lambda>s. Some (Inr 1, s))
      (\<lambda>s. Some (Inr True, s)) (\<lambda>d s. Some (Inr WaitReadable, s + 1))"
    by (simp add: timed_handoff_def)
  from quiescent_wait_terminates [OF this, of 5 0 6 2] show ?thesis by simp
qed

end
