(* ===== verification/Writer_Transaction.thy ===== *)
theory Writer_Transaction
  imports Session_Activity Settings_Model Switch_Logic
begin

text \<open>
  Transactions of the virtual keyboard's writer, src/src/daemon/keyboard.rs.  The thread that asks
  for a correction and the writer thread share, per transaction, a state, a wish to cancel and the
  permission to mutate, and, for the whole writer, the identifier of the transaction that failed it
  and the request to stop.  Every change is made under one lock, the terminal gate, so the system is
  a relation of gated operations on any number of transactions.

  Instants are nanoseconds; the published session and the monotonic time seen by a check of the
  session are arguments.
\<close>

subsection \<open>Request identifiers\<close>

text \<open>
  The counter skips zero when it wraps, which takes at most two rounds of the loop.  The global
  counter (\<open>next_writer_transaction_request_id\<close>) and the one of the manual corrections work alike.
\<close>

definition take_next_nonzero_request_id :: "u64 \<Rightarrow> u64 \<times> u64" where
  "take_next_nonzero_request_id next = (if next \<noteq> 0 then (next, next + 1) else (next + 1, next + 1 + 1))"

subsection \<open>The control of a transaction\<close>

datatype writer_transaction_state = TxPending | TxCompleted | TxTimedOut

datatype writer_completion_publication = PubCompleted | PubCancelled | PubReceiverDisconnected

datatype writer_soft_cancel_request = CancelRequested | CancelAlreadyRequested | CancelAlreadyCompleted | CancelTerminal

fun state_as_u8 :: "writer_transaction_state \<Rightarrow> u8" where
  "state_as_u8 TxPending = 0"
| "state_as_u8 TxCompleted = 1"
| "state_as_u8 TxTimedOut = 2"

definition state_from_raw :: "u8 \<Rightarrow> writer_transaction_state" where
  "state_from_raw raw = (if raw = 1 then TxCompleted else if raw = 2 then TxTimedOut else TxPending)"

text \<open>The state is kept as a byte; the model keeps the value the byte stands for.\<close>

lemma state_from_raw_as_u8 [simp]: "state_from_raw (state_as_u8 s) = s"
  by (cases s) (simp_all add: state_from_raw_def)

record writer_shared =
  ws_failure_request_id :: u64
  ws_stop_requested :: bool

record writer_control =
  wt_request_id :: u64
  wt_deadline :: nat
  wt_state :: writer_transaction_state
  wt_soft_cancel :: bool
  wt_mutation_authorized :: bool

text \<open>The deadline that \<open>checked_add\<close> cannot represent is the present instant.\<close>

definition new_with_writer_state :: "u64 \<Rightarrow> nat option \<Rightarrow> nat \<Rightarrow> writer_control" where
  "new_with_writer_state request_id limit now =
     \<lparr>wt_request_id = request_id, wt_deadline = (case limit of Some d \<Rightarrow> d | None \<Rightarrow> now), wt_state = TxPending,
      wt_soft_cancel = False, wt_mutation_authorized = False\<rparr>"

definition is_cancelled :: "writer_shared \<Rightarrow> writer_control \<Rightarrow> bool" where
  "is_cancelled sh c \<longleftrightarrow>
     wt_state c = TxTimedOut \<or> wt_soft_cancel c \<or> ws_stop_requested sh \<or> ws_failure_request_id sh \<noteq> 0"

definition timed_out_error :: "writer_shared \<Rightarrow> writer_control \<Rightarrow> switcher_error" where
  "timed_out_error sh c =
     VirtualKeyboardWriterTransactionTimedOut
       (if ws_failure_request_id sh = 0 then wt_request_id c else ws_failure_request_id sh)"

definition cancellation_error :: "writer_shared \<Rightarrow> writer_control \<Rightarrow> switcher_error" where
  "cancellation_error sh c =
     (if wt_state c = TxTimedOut \<or> ws_failure_request_id sh \<noteq> 0 then timed_out_error sh c
      else if ws_stop_requested sh then VirtualKeyboardWriterDisconnected
      else if wt_soft_cancel c then VirtualKeyboardWriterTransactionCancelled (wt_request_id c)
      else timed_out_error sh c)"

text \<open>\<open>compare_exchange\<close> from pending to timed out, then the writer's failure if it has none yet.\<close>

definition try_mark_timed_out ::
  "writer_shared \<times> writer_control \<Rightarrow> bool \<times> writer_shared \<times> writer_control" where
  "try_mark_timed_out s =
     (case s of (sh, c) \<Rightarrow>
        if ws_stop_requested sh then (False, sh, c)
        else if wt_state c \<noteq> TxPending then (False, sh, c)
        else (True,
          (if ws_failure_request_id sh = 0 then sh\<lparr>ws_failure_request_id := wt_request_id c\<rparr> else sh),
          c\<lparr>wt_state := TxTimedOut\<rparr>))"

definition mark_timed_out ::
  "writer_shared \<times> writer_control \<Rightarrow> switcher_error \<times> writer_shared \<times> writer_control" where
  "mark_timed_out s =
     (case try_mark_timed_out s of (_, sh, c) \<Rightarrow> (cancellation_error sh c, sh, c))"

definition request_soft_cancel ::
  "nat \<Rightarrow> writer_shared \<times> writer_control \<Rightarrow> writer_soft_cancel_request \<times> writer_shared \<times> writer_control" where
  "request_soft_cancel now s =
     (case s of (sh, c) \<Rightarrow>
        if ws_stop_requested sh \<or> ws_failure_request_id sh \<noteq> 0 then (CancelTerminal, sh, c)
        else
          (case wt_state c of
             TxCompleted \<Rightarrow> (CancelAlreadyCompleted, sh, c)
           | TxTimedOut \<Rightarrow> (CancelTerminal, sh, c)
           | TxPending \<Rightarrow>
               if wt_deadline c \<le> now then (CancelTerminal, snd (try_mark_timed_out (sh, c)))
               else (if wt_soft_cancel c then CancelAlreadyRequested else CancelRequested,
                     sh, c\<lparr>wt_soft_cancel := True\<rparr>)))"

text \<open>
  Publishing an answer: \<open>allowed\<close> is the condition on the wish to cancel, \<open>send\<close> hands the answer to
  the receiver and says whether there still was one.
\<close>

definition publish_with ::
  "(bool \<Rightarrow> bool) \<Rightarrow> nat \<Rightarrow> ('q \<Rightarrow> bool \<times> 'q) \<Rightarrow> writer_shared \<times> writer_control \<Rightarrow> 'q \<Rightarrow>
   writer_completion_publication \<times> (writer_shared \<times> writer_control) \<times> 'q" where
  "publish_with allowed now send s q =
     (case s of (sh, c) \<Rightarrow>
        if ws_stop_requested sh \<or> ws_failure_request_id sh \<noteq> 0 \<or> wt_state c \<noteq> TxPending
        then (PubCancelled, (sh, c), q)
        else if wt_deadline c \<le> now then (PubCancelled, snd (try_mark_timed_out (sh, c)), q)
        else if \<not> allowed (wt_soft_cancel c) then (PubCancelled, (sh, c), q)
        else
          (case send q of
             (False, q) \<Rightarrow> (PubReceiverDisconnected, (sh, c), q)
           | (True, q) \<Rightarrow>
               if wt_state c = TxPending then (PubCompleted, (sh, c\<lparr>wt_state := TxCompleted\<rparr>), q)
               else (PubCancelled, (sh, c), q)))"

definition publish_completed_with ::
  "nat \<Rightarrow> ('q \<Rightarrow> bool \<times> 'q) \<Rightarrow> writer_shared \<times> writer_control \<Rightarrow> 'q \<Rightarrow>
   writer_completion_publication \<times> (writer_shared \<times> writer_control) \<times> 'q" where
  "publish_completed_with = publish_with (\<lambda>soft. \<not> soft)"

definition publish_soft_cancelled_with ::
  "nat \<Rightarrow> ('q \<Rightarrow> bool \<times> 'q) \<Rightarrow> writer_shared \<times> writer_control \<Rightarrow> 'q \<Rightarrow>
   writer_completion_publication \<times> (writer_shared \<times> writer_control) \<times> 'q" where
  "publish_soft_cancelled_with = publish_with (\<lambda>soft. soft)"

definition publish_failed_with ::
  "nat \<Rightarrow> ('q \<Rightarrow> bool \<times> 'q) \<Rightarrow> writer_shared \<times> writer_control \<Rightarrow> 'q \<Rightarrow>
   writer_completion_publication \<times> (writer_shared \<times> writer_control) \<times> 'q" where
  "publish_failed_with = publish_with (\<lambda>_. True)"

text \<open>The checks that mutating and cleaning up have in common, after the session and the stop.\<close>

definition already_completed_error :: "writer_control \<Rightarrow> switcher_error" where
  "already_completed_error c = VirtualKeyboardWriterTransactionFailed (wt_request_id c) ''transaction is already completed''"

definition ensure_running ::
  "nat \<Rightarrow> writer_shared \<times> writer_control \<Rightarrow> unit res \<times> writer_shared \<times> writer_control" where
  "ensure_running now s =
     (case s of (sh, c) \<Rightarrow>
        if ws_stop_requested sh then (Inl VirtualKeyboardWriterDisconnected, sh, c)
        else if ws_failure_request_id sh \<noteq> 0
        then (case try_mark_timed_out (sh, c) of (_, sh, c) \<Rightarrow> (Inl (timed_out_error sh c), sh, c))
        else
          (case wt_state c of
             TxTimedOut \<Rightarrow> (Inl (timed_out_error sh c), sh, c)
           | TxCompleted \<Rightarrow> (Inl (already_completed_error c), sh, c)
           | TxPending \<Rightarrow>
               if wt_deadline c \<le> now
               then (case try_mark_timed_out (sh, c) of (_, sh, c) \<Rightarrow> (Inl (timed_out_error sh c), sh, c))
               else (Inr (), sh, c)))"

text \<open>The session as a check sees it.\<close>

type_synonym session_view = "session_access \<times> u64"

definition session_current :: "session_lease \<Rightarrow> session_view \<Rightarrow> unit res" where
  "session_current lease view = ensure_current lease (fst view) (snd view)"

definition ensure_active ::
  "session_lease \<Rightarrow> session_view \<Rightarrow> session_view \<Rightarrow> nat \<Rightarrow> writer_shared \<times> writer_control \<Rightarrow>
   unit res \<times> writer_shared \<times> writer_control" where
  "ensure_active lease before after now s =
     check (session_current lease before) s (\<lambda>_.
     then_st (ensure_running now s) (\<lambda>_ s.
       if wt_soft_cancel (snd s)
       then (Inl (VirtualKeyboardWriterTransactionCancelled (wt_request_id (snd s))), s)
       else check (session_current lease after) s (\<lambda>_. (Inr (), s))))"

definition authorize_mutation_start ::
  "session_lease \<Rightarrow> session_view \<Rightarrow> session_view \<Rightarrow> nat \<Rightarrow> writer_shared \<times> writer_control \<Rightarrow>
   unit res \<times> writer_shared \<times> writer_control" where
  "authorize_mutation_start lease before after now s =
     then_st (ensure_active lease before after now s) (\<lambda>_ (sh, c).
       (Inr (), sh, c\<lparr>wt_mutation_authorized := True\<rparr>))"

definition authorize_cleanup_mutation_start ::
  "nat \<Rightarrow> writer_shared \<times> writer_control \<Rightarrow> unit res \<times> writer_shared \<times> writer_control" where
  "authorize_cleanup_mutation_start = ensure_running"

definition try_request_stop_for_input_worker_loss ::
  "nat \<Rightarrow> writer_shared \<times> writer_control \<Rightarrow> bool \<times> writer_shared \<times> writer_control" where
  "try_request_stop_for_input_worker_loss now s =
     (case s of (sh, c) \<Rightarrow>
        if ws_stop_requested sh \<or> ws_failure_request_id sh \<noteq> 0 \<or> wt_state c \<noteq> TxPending then (False, sh, c)
        else if wt_deadline c \<le> now then (False, snd (try_mark_timed_out (sh, c)))
        else (True, sh\<lparr>ws_stop_requested := True\<rparr>, c))"

subsection \<open>Timeouts\<close>

definition TRANSACTION_BACKEND_GRACE_MS :: u64 where "TRANSACTION_BACKEND_GRACE_MS = 1000"
definition MAX_TRANSACTION_TIMEOUT_MS :: u64 where "MAX_TRANSACTION_TIMEOUT_MS = 5000"
definition SHORTCUT_TRANSACTION_TIMEOUT_MS :: u64 where "SHORTCUT_TRANSACTION_TIMEOUT_MS = 1000"
definition DEFERRED_FORWARD_TRANSACTION_TIMEOUT_MS :: u64 where "DEFERRED_FORWARD_TRANSACTION_TIMEOUT_MS = 1000"

definition correction_transaction_timeout ::
  "correction_plan \<Rightarrow> runtime_config_snapshot \<Rightarrow> bool \<Rightarrow> u64 res" where
  "correction_transaction_timeout plan config switch_layout =
     and_then (map_err InputWorkValidation
         (estimated_correction_schedule config (length (cp_buffer plan)) (extra_backspaces plan) switch_layout)) (\<lambda>ms.
     Inr (saturating_add ms TRANSACTION_BACKEND_GRACE_MS))"

datatype 'm writer_transaction_kind =
    ForwardDeferredEvent u64 u16 int
  | ApplyCorrection correction_plan runtime_config_snapshot 'm
  | ApplySameLayoutCorrection correction_plan runtime_config_snapshot 'm
  | CopyShortcut 'm
  | PasteShortcut 'm

fun execution_timeout :: "'m writer_transaction_kind \<Rightarrow> u64 res" where
  "execution_timeout (ForwardDeferredEvent _ _ _) = Inr DEFERRED_FORWARD_TRANSACTION_TIMEOUT_MS"
| "execution_timeout (ApplyCorrection plan config _) = correction_transaction_timeout plan config True"
| "execution_timeout (ApplySameLayoutCorrection plan config _) = correction_transaction_timeout plan config False"
| "execution_timeout (CopyShortcut _) = Inr SHORTCUT_TRANSACTION_TIMEOUT_MS"
| "execution_timeout (PasteShortcut _) = Inr SHORTCUT_TRANSACTION_TIMEOUT_MS"

subsection \<open>Waiting for the answer\<close>

text \<open>
  What the waiting thread sees: the shared state and its transaction, the time, the channel of the
  answer (what is queued, and whether the sender exists), and the health of the input workers.  Other
  threads and the clock run between any two accesses (\<open>others\<close>) and during a wait (\<open>waits\<close>); both
  are parameters.
\<close>

record 'o wait_world =
  ww_shared :: writer_shared
  ww_control :: writer_control
  ww_time :: nat
  ww_queue :: "'o res list"
  ww_sender :: bool
  ww_health :: "switcher_error option"

datatype 'o received = Received "'o res" | ChannelEmpty | ChannelDisconnected

definition try_recv :: "'o wait_world \<Rightarrow> 'o received \<times> 'o wait_world" where
  "try_recv w =
     (case ww_queue w of
        r # rs \<Rightarrow> (Received r, w\<lparr>ww_queue := rs\<rparr>)
      | [] \<Rightarrow> (if ww_sender w then ChannelEmpty else ChannelDisconnected, w))"

definition TRANSACTION_SLEEP_QUANTUM :: nat where "TRANSACTION_SLEEP_QUANTUM = 5000000"

text \<open>A disconnected channel is an error unless the outcome is decided or about to be.\<close>

definition disconnected_is_error :: "('o wait_world \<Rightarrow> 'o wait_world) \<Rightarrow> 'o wait_world \<Rightarrow> bool \<times> 'o wait_world" where
  "disconnected_is_error others w =
     (let w = others w in
      if wt_state (ww_control w) = TxPending
      then let w = others w in (ws_failure_request_id (ww_shared w) = 0, w)
      else (False, w))"

definition on_control ::
  "(writer_shared \<times> writer_control \<Rightarrow> 'a \<times> writer_shared \<times> writer_control) \<Rightarrow> 'o wait_world \<Rightarrow> 'a \<times> 'o wait_world" where
  "on_control f w =
     (case f (ww_shared w, ww_control w) of (a, sh, c) \<Rightarrow> (a, w\<lparr>ww_shared := sh, ww_control := c\<rparr>))"

text \<open>
  One round of the loop: a result, or the answer received so far.  A round reads the state, the
  stop, the failure and the clock; then it looks for an answer, asks for the health of the input
  workers, and waits a little.
\<close>

datatype 'o round = Return "'o res" | Continue "'o res option"

definition receive_pending ::
  "('o wait_world \<Rightarrow> 'o wait_world) \<Rightarrow> 'o res option \<Rightarrow> 'o wait_world \<Rightarrow> bool \<times> 'o res option \<times> 'o wait_world" where
  "receive_pending others received w =
     (if received \<noteq> None then (False, received, w)
      else case try_recv w of
          (Received r, w) \<Rightarrow> (False, Some r, w)
        | (ChannelEmpty, w) \<Rightarrow> (False, None, w)
        | (ChannelDisconnected, w) \<Rightarrow> (case disconnected_is_error others w of (err, w) \<Rightarrow> (err, None, w)))"

definition wait_and_receive ::
  "('o wait_world \<Rightarrow> 'o wait_world) \<Rightarrow> (nat \<Rightarrow> 'o wait_world \<Rightarrow> 'o wait_world) \<Rightarrow> 'o res option \<Rightarrow>
   'o wait_world \<Rightarrow> 'o round \<times> 'o wait_world" where
  "wait_and_receive others waits received w =
     (case try_recv (waits (min (wt_deadline (ww_control w) - ww_time w) TRANSACTION_SLEEP_QUANTUM) w) of
        (Received r, w) \<Rightarrow> (Continue (Some r), w)
      | (ChannelEmpty, w) \<Rightarrow> (Continue received, w)
      | (ChannelDisconnected, w) \<Rightarrow>
          (case disconnected_is_error others w of (err, w) \<Rightarrow>
             (if err then Return (Inl VirtualKeyboardWriterDisconnected) else Continue received, w)))"

definition stop_for_worker_loss ::
  "switcher_error \<Rightarrow> 'o res option \<Rightarrow> 'o wait_world \<Rightarrow> 'o round \<times> 'o wait_world" where
  "stop_for_worker_loss e received w =
     (case on_control (try_request_stop_for_input_worker_loss (ww_time w)) w of (stopped, w) \<Rightarrow>
        (if stopped then Return (Inl e) else Continue received, w))"

definition health_and_wait ::
  "('o wait_world \<Rightarrow> 'o wait_world) \<Rightarrow> (nat \<Rightarrow> 'o wait_world \<Rightarrow> 'o wait_world) \<Rightarrow> 'o res option \<Rightarrow>
   'o wait_world \<Rightarrow> 'o round \<times> 'o wait_world" where
  "health_and_wait others waits received w =
     (case ww_health w of
        Some e \<Rightarrow>
          (case received of
             Some (Inl reply) \<Rightarrow> (Return (Inl reply), w)
           | _ \<Rightarrow> stop_for_worker_loss e received (others w))
      | None \<Rightarrow> wait_and_receive others waits received (others w))"

definition receive_round ::
  "('o wait_world \<Rightarrow> 'o wait_world) \<Rightarrow> (nat \<Rightarrow> 'o wait_world \<Rightarrow> 'o wait_world) \<Rightarrow> 'o res option \<Rightarrow>
   'o wait_world \<Rightarrow> 'o round \<times> 'o wait_world" where
  "receive_round others waits received w =
     (case receive_pending others received (others w) of (failed, received, w) \<Rightarrow>
        if failed then (Return (Inl VirtualKeyboardWriterDisconnected), w)
        else health_and_wait others waits received (others w))"

definition time_out_round ::
  "('o wait_world \<Rightarrow> 'o wait_world) \<Rightarrow> 'o res option \<Rightarrow> 'o wait_world \<Rightarrow> 'o round \<times> 'o wait_world" where
  "time_out_round others received w =
     (case on_control try_mark_timed_out w of (marked, w) \<Rightarrow>
        if marked then let w = others w in (Return (Inl (timed_out_error (ww_shared w) (ww_control w))), w)
        else (Continue received, w))"

definition wait_round ::
  "('o wait_world \<Rightarrow> 'o wait_world) \<Rightarrow> (nat \<Rightarrow> 'o wait_world \<Rightarrow> 'o wait_world) \<Rightarrow> 'o res option \<Rightarrow>
   'o wait_world \<Rightarrow> 'o round \<times> 'o wait_world" where
  "wait_round others waits received w =
     (let w = others w in
      case wt_state (ww_control w) of
        TxCompleted \<Rightarrow>
          (case received of
             Some reply \<Rightarrow> (Return reply, w)
           | None \<Rightarrow>
               (case try_recv (others w) of
                  (Received r, w) \<Rightarrow> (Return r, w)
                | (_, w) \<Rightarrow> (Return (Inl VirtualKeyboardWriterDisconnected), w)))
      | TxTimedOut \<Rightarrow> let w = others w in (Return (Inl (timed_out_error (ww_shared w) (ww_control w))), w)
      | TxPending \<Rightarrow>
          let w = others w in
          if ws_stop_requested (ww_shared w) then (Return (Inl VirtualKeyboardWriterDisconnected), w)
          else
            let w = others w; failed = (ws_failure_request_id (ww_shared w) \<noteq> 0); w = others w in
            if failed \<or> wt_deadline (ww_control w) \<le> ww_time w
            then time_out_round others received (others w)
            else receive_round others waits received w)"

fun wait_for_reply_loop ::
  "nat \<Rightarrow> ('o wait_world \<Rightarrow> 'o wait_world) \<Rightarrow> (nat \<Rightarrow> 'o wait_world \<Rightarrow> 'o wait_world) \<Rightarrow> 'o res option \<Rightarrow>
   'o wait_world \<Rightarrow> ('o res \<times> 'o wait_world) option" where
  "wait_for_reply_loop 0 others waits received w = None"
| "wait_for_reply_loop (Suc fuel) others waits received w =
     (case wait_round others waits received w of
        (Return r, w) \<Rightarrow> Some (r, w)
      | (Continue received, w) \<Rightarrow> wait_for_reply_loop fuel others waits received w)"

definition wait_for_reply_with_input_health ::
  "nat \<Rightarrow> ('o wait_world \<Rightarrow> 'o wait_world) \<Rightarrow> (nat \<Rightarrow> 'o wait_world \<Rightarrow> 'o wait_world) \<Rightarrow>
   'o wait_world \<Rightarrow> ('o res \<times> 'o wait_world) option" where
  "wait_for_reply_with_input_health fuel others waits = wait_for_reply_loop fuel others waits None"

end
