(* ===== verification/Writer_Properties.thy ===== *)
theory Writer_Properties
  imports Writer_Transaction
begin

text \<open>
  Any number of transactions of one writer, used by any number of threads: each step is one gated
  operation on one transaction, the start of a new one, the request to stop, or the loss of the
  thread that waits for an answer.
\<close>

subsection \<open>The system\<close>

record 'r writer_tx =
  tx_control :: writer_control
  tx_replies :: "'r list"
  tx_receiver :: bool

record 'r writer_system =
  sys_shared :: writer_shared
  sys_txs :: "'r writer_tx list"

text \<open>The channel of the answers: a send succeeds while the receiver exists.\<close>

definition send_reply :: "'r \<Rightarrow> 'r list \<times> bool \<Rightarrow> bool \<times> 'r list \<times> bool" where
  "send_reply r q = (case q of (replies, receiver) \<Rightarrow>
     if receiver then (True, replies @ [r], receiver) else (False, replies, receiver))"

datatype 'r gated_op =
    GatedTimeOut
  | GatedSoftCancel nat
  | GatedPublishCompleted nat 'r
  | GatedPublishSoftCancelled nat 'r
  | GatedPublishFailed nat 'r
  | GatedEnsureActive session_lease session_view session_view nat
  | GatedAuthorize session_lease session_view session_view nat
  | GatedCleanup nat
  | GatedWorkerLoss nat

fun gated_control ::
  "'r gated_op \<Rightarrow> writer_shared \<times> writer_control \<Rightarrow> 'r list \<times> bool \<Rightarrow>
   (writer_shared \<times> writer_control) \<times> 'r list \<times> bool" where
  "gated_control GatedTimeOut s q = (snd (try_mark_timed_out s), q)"
| "gated_control (GatedSoftCancel now) s q = (snd (request_soft_cancel now s), q)"
| "gated_control (GatedPublishCompleted now r) s q = snd (publish_completed_with now (send_reply r) s q)"
| "gated_control (GatedPublishSoftCancelled now r) s q = snd (publish_soft_cancelled_with now (send_reply r) s q)"
| "gated_control (GatedPublishFailed now r) s q = snd (publish_failed_with now (send_reply r) s q)"
| "gated_control (GatedEnsureActive l a b now) s q = (snd (ensure_active l a b now s), q)"
| "gated_control (GatedAuthorize l a b now) s q = (snd (authorize_mutation_start l a b now s), q)"
| "gated_control (GatedCleanup now) s q = (snd (authorize_cleanup_mutation_start now s), q)"
| "gated_control (GatedWorkerLoss now) s q = (snd (try_request_stop_for_input_worker_loss now s), q)"

definition gated :: "'r gated_op \<Rightarrow> writer_shared \<Rightarrow> 'r writer_tx \<Rightarrow> writer_shared \<times> 'r writer_tx" where
  "gated op sh tx =
     (case gated_control op (sh, tx_control tx) (tx_replies tx, tx_receiver tx) of
        ((sh, c), replies, receiver) \<Rightarrow> (sh, \<lparr>tx_control = c, tx_replies = replies, tx_receiver = receiver\<rparr>))"

inductive writer_step :: "'r writer_system \<Rightarrow> 'r writer_system \<Rightarrow> bool" where
  gated_step: "i < length (sys_txs y) \<Longrightarrow> gated op (sys_shared y) (sys_txs y ! i) = (sh, tx) \<Longrightarrow>
     writer_step y \<lparr>sys_shared = sh, sys_txs = (sys_txs y)[i := tx]\<rparr>"
| start_step: "request_id \<noteq> 0 \<Longrightarrow>
     writer_step y (y\<lparr>sys_txs := sys_txs y @
       [\<lparr>tx_control = new_with_writer_state request_id limit now, tx_replies = [], tx_receiver = True\<rparr>]\<rparr>)"
| stop_step: "writer_step y (y\<lparr>sys_shared := (sys_shared y)\<lparr>ws_stop_requested := True\<rparr>\<rparr>)"
| lost_step: "i < length (sys_txs y) \<Longrightarrow>
     writer_step y (y\<lparr>sys_txs := (sys_txs y)[i := (sys_txs y ! i)\<lparr>tx_receiver := False\<rparr>]\<rparr>)"

definition writer_start :: "'r writer_system" where
  "writer_start = \<lparr>sys_shared = \<lparr>ws_failure_request_id = 0, ws_stop_requested = False\<rparr>, sys_txs = []\<rparr>"

subsection \<open>One gated operation\<close>

text \<open>Whether the writer still works: nothing failed it and nobody asked it to stop.\<close>

definition writer_running :: "writer_shared \<Rightarrow> bool" where
  "writer_running sh \<longleftrightarrow> ws_failure_request_id sh = 0 \<and> \<not> ws_stop_requested sh"

text \<open>
  All that a gated operation can do: nothing, time the transaction out, record the wish to cancel,
  complete the transaction with an answer, permit its mutations, or stop the writer.
\<close>

inductive tx_effect :: "writer_shared \<Rightarrow> 'r writer_tx \<Rightarrow> writer_shared \<Rightarrow> 'r writer_tx \<Rightarrow> bool" where
  no_effect: "tx_effect sh tx sh tx"
| times_out: "\<not> ws_stop_requested sh \<Longrightarrow> wt_state (tx_control tx) = TxPending \<Longrightarrow>
    sh' = (if ws_failure_request_id sh = 0 then sh\<lparr>ws_failure_request_id := wt_request_id (tx_control tx)\<rparr> else sh) \<Longrightarrow>
    tx_effect sh tx sh' (tx\<lparr>tx_control := (tx_control tx)\<lparr>wt_state := TxTimedOut\<rparr>\<rparr>)"
| cancels: "writer_running sh \<Longrightarrow> wt_state (tx_control tx) = TxPending \<Longrightarrow>
    tx_effect sh tx sh (tx\<lparr>tx_control := (tx_control tx)\<lparr>wt_soft_cancel := True\<rparr>\<rparr>)"
| completes: "writer_running sh \<Longrightarrow> wt_state (tx_control tx) = TxPending \<Longrightarrow> tx_receiver tx \<Longrightarrow>
    tx_effect sh tx sh (tx\<lparr>tx_control := (tx_control tx)\<lparr>wt_state := TxCompleted\<rparr>, tx_replies := tx_replies tx @ [r]\<rparr>)"
| authorizes: "writer_running sh \<Longrightarrow> wt_state (tx_control tx) = TxPending \<Longrightarrow> \<not> wt_soft_cancel (tx_control tx) \<Longrightarrow>
    tx_effect sh tx sh (tx\<lparr>tx_control := (tx_control tx)\<lparr>wt_mutation_authorized := True\<rparr>\<rparr>)"
| stops: "writer_running sh \<Longrightarrow> wt_state (tx_control tx) = TxPending \<Longrightarrow>
    tx_effect sh tx (sh\<lparr>ws_stop_requested := True\<rparr>) tx"

lemma ensure_running_cases:
  obtains (running) "ensure_running now (sh, c) = (Inr (), sh, c)" "writer_running sh" "wt_state c = TxPending" "now < wt_deadline c"
  | (not_running) e where "ensure_running now (sh, c) = (Inl e, sh, c)"
  | (expired) e where "ensure_running now (sh, c) = (Inl e, snd (try_mark_timed_out (sh, c)))"
proof -
  have "ensure_running now (sh, c) = (Inr (), sh, c) \<and> writer_running sh \<and> wt_state c = TxPending \<and> now < wt_deadline c \<or>
      (\<exists>e. ensure_running now (sh, c) = (Inl e, sh, c)) \<or>
      (\<exists>e. ensure_running now (sh, c) = (Inl e, snd (try_mark_timed_out (sh, c))))"
    by (cases "wt_state c"; cases "wt_deadline c \<le> now")
      (simp_all add: ensure_running_def writer_running_def try_mark_timed_out_def)
  then show ?thesis using running not_running expired by blast
qed

lemma ensure_active_cases:
  obtains (active) "ensure_active l a b now (sh, c) = (Inr (), sh, c)" "writer_running sh" "wt_state c = TxPending"
      "now < wt_deadline c" "\<not> wt_soft_cancel c" "session_current l a = Inr ()" "session_current l b = Inr ()"
  | (error) e where "ensure_active l a b now (sh, c) = (Inl e, sh, c)"
  | (timed_out) e where "ensure_active l a b now (sh, c) = (Inl e, snd (try_mark_timed_out (sh, c)))"
proof (cases "session_current l a")
  case (Inl e)
  then show ?thesis by (intro error [of e]) (simp add: ensure_active_def)
next
  case (Inr u)
  show ?thesis
  proof (cases rule: ensure_running_cases [of now sh c])
    case running
    show ?thesis
    proof (cases "wt_soft_cancel c")
      case True
      with Inr running show ?thesis by (intro error) (simp add: ensure_active_def)
    next
      case False
      with Inr running show ?thesis
        by (cases "session_current l b") (rule error active; simp add: ensure_active_def)+
    qed
  next
    case (not_running e')
    with Inr show ?thesis by (intro error [of e']) (simp add: ensure_active_def)
  next
    case (expired e')
    obtain s' where "snd (try_mark_timed_out (sh, c)) = s'" by blast
    with Inr expired show ?thesis
      by (intro timed_out [of e']) (cases s'; simp add: ensure_active_def)
  qed
qed

text \<open>The effect on the control alone; the channel stays as it is.\<close>

abbreviation with_control :: "'r writer_tx \<Rightarrow> writer_shared \<times> writer_control \<Rightarrow> writer_shared \<times> 'r writer_tx" where
  "with_control tx s \<equiv> (fst s, tx\<lparr>tx_control := snd s\<rparr>)"

lemma tx_rebuild [simp]:
  "\<lparr>tx_control = c, tx_replies = tx_replies tx, tx_receiver = tx_receiver tx\<rparr> = tx\<lparr>tx_control := c\<rparr>"
  "\<lparr>tx_control = c, tx_replies = replies, tx_receiver = tx_receiver tx\<rparr> = tx\<lparr>tx_control := c, tx_replies := replies\<rparr>"
  by (cases tx; simp)+

lemma timed_out_effect:
  "with_control tx (snd (try_mark_timed_out (sh, tx_control tx))) = (sh', tx') \<Longrightarrow> tx_effect sh tx sh' tx'"
  by (auto simp: try_mark_timed_out_def intro: no_effect times_out split: if_splits)

lemma publish_effect:
  assumes "snd (publish_with allowed now (send_reply r) (sh, tx_control tx) (tx_replies tx, tx_receiver tx)) =
      ((sh', c'), replies, receiver)"
  shows "tx_effect sh tx sh' \<lparr>tx_control = c', tx_replies = replies, tx_receiver = receiver\<rparr>"
proof (cases "writer_running sh \<and> wt_state (tx_control tx) = TxPending")
  case False
  with assms have "sh' = sh \<and> c' = tx_control tx \<and> replies = tx_replies tx \<and> receiver = tx_receiver tx"
    by (auto simp: publish_with_def writer_running_def split: if_splits)
  then show ?thesis using no_effect [of sh tx] by simp
next
  case True
  show ?thesis
  proof (cases "wt_deadline (tx_control tx) \<le> now")
    case late: True
    with True assms have "snd (try_mark_timed_out (sh, tx_control tx)) = (sh', c')" "replies = tx_replies tx" "receiver = tx_receiver tx"
      by (auto simp: publish_with_def writer_running_def split: if_splits)
    then show ?thesis using timed_out_effect [where sh' = sh' and tx' = "tx\<lparr>tx_control := c'\<rparr>"] by simp
  next
    case False
    with True assms show ?thesis
      using no_effect [of sh tx] completes [of sh tx r]
      by (cases tx) (auto simp: publish_with_def send_reply_def writer_running_def split: if_splits)
  qed
qed

lemma gated_control_only:
  assumes "gated op sh tx = (sh', tx')" "gated_control op (sh, tx_control tx) (tx_replies tx, tx_receiver tx) = (s, tx_replies tx, tx_receiver tx)"
  shows "with_control tx s = (sh', tx')"
  using assms by (cases s) (simp add: gated_def)

lemma soft_cancel_effect:
  "with_control tx (snd (request_soft_cancel now (sh, tx_control tx))) = (sh', tx') \<Longrightarrow> tx_effect sh tx sh' tx'"
  by (cases "wt_state (tx_control tx)"; cases "wt_deadline (tx_control tx) \<le> now"; cases "writer_running sh")
    (auto simp: request_soft_cancel_def writer_running_def intro: no_effect cancels timed_out_effect)

lemma worker_loss_effect:
  "with_control tx (snd (try_request_stop_for_input_worker_loss now (sh, tx_control tx))) = (sh', tx') \<Longrightarrow> tx_effect sh tx sh' tx'"
  by (cases "wt_state (tx_control tx)"; cases "wt_deadline (tx_control tx) \<le> now"; cases "writer_running sh")
    (auto simp: try_request_stop_for_input_worker_loss_def writer_running_def intro: no_effect stops timed_out_effect)

lemma running_effect:
  "with_control tx (snd (ensure_running now (sh, tx_control tx))) = (sh', tx') \<Longrightarrow> tx_effect sh tx sh' tx'"
  by (cases rule: ensure_running_cases [of now sh "tx_control tx"])
    (auto intro: no_effect timed_out_effect)

lemma active_effect:
  "with_control tx (snd (ensure_active l a b now (sh, tx_control tx))) = (sh', tx') \<Longrightarrow> tx_effect sh tx sh' tx'"
  by (cases rule: ensure_active_cases [of l a b now sh "tx_control tx"])
    (auto intro: no_effect timed_out_effect)

lemma authorize_effect:
  "with_control tx (snd (authorize_mutation_start l a b now (sh, tx_control tx))) = (sh', tx') \<Longrightarrow> tx_effect sh tx sh' tx'"
proof (cases rule: ensure_active_cases [of l a b now sh "tx_control tx"])
  case (timed_out e)
  moreover obtain sh1 c1 where "snd (try_mark_timed_out (sh, tx_control tx)) = (sh1, c1)" by fastforce
  moreover assume "with_control tx (snd (authorize_mutation_start l a b now (sh, tx_control tx))) = (sh', tx')"
  ultimately show ?thesis
    by (intro timed_out_effect) (simp add: authorize_mutation_start_def)
qed (auto simp: authorize_mutation_start_def intro: no_effect authorizes)

lemma gated_effect:
  assumes "gated op sh tx = (sh', tx')"
  shows "tx_effect sh tx sh' tx'"
proof (cases op)
  case GatedTimeOut
  then show ?thesis using gated_control_only [OF assms] timed_out_effect by simp
next
  case (GatedSoftCancel now)
  then show ?thesis using gated_control_only [OF assms] soft_cancel_effect by simp
next
  case (GatedEnsureActive l a b now)
  then show ?thesis using gated_control_only [OF assms] active_effect by simp
next
  case (GatedAuthorize l a b now)
  then show ?thesis using gated_control_only [OF assms] authorize_effect by simp
next
  case (GatedCleanup now)
  then show ?thesis
    using gated_control_only [OF assms] running_effect by (simp add: authorize_cleanup_mutation_start_def)
next
  case (GatedWorkerLoss now)
  then show ?thesis using gated_control_only [OF assms] worker_loss_effect by simp
next
  case (GatedPublishCompleted now r)
  then show ?thesis
    using assms by (auto simp: gated_def publish_completed_with_def intro: publish_effect split: prod.splits)
next
  case (GatedPublishSoftCancelled now r)
  then show ?thesis
    using assms by (auto simp: gated_def publish_soft_cancelled_with_def intro: publish_effect split: prod.splits)
next
  case (GatedPublishFailed now r)
  then show ?thesis
    using assms by (auto simp: gated_def publish_failed_with_def intro: publish_effect split: prod.splits)
qed

subsection \<open>The invariant of the system\<close>

text \<open>
  A transaction has one answer if it completed and none otherwise; if it timed out, the writer has
  failed, and a failed writer names a transaction that timed out.
\<close>

definition tx_ok :: "writer_shared \<Rightarrow> 'r writer_tx \<Rightarrow> bool" where
  "tx_ok sh tx \<longleftrightarrow>
     wt_request_id (tx_control tx) \<noteq> 0 \<and>
     length (tx_replies tx) = (if wt_state (tx_control tx) = TxCompleted then 1 else 0) \<and>
     (wt_state (tx_control tx) = TxTimedOut \<longrightarrow> ws_failure_request_id sh \<noteq> 0)"

definition failure_named :: "'r writer_system \<Rightarrow> bool" where
  "failure_named y \<longleftrightarrow>
     (ws_failure_request_id (sys_shared y) \<noteq> 0 \<longrightarrow>
        (\<exists>tx \<in> set (sys_txs y). wt_request_id (tx_control tx) = ws_failure_request_id (sys_shared y) \<and>
           wt_state (tx_control tx) = TxTimedOut))"

definition writer_ok :: "'r writer_system \<Rightarrow> bool" where
  "writer_ok y \<longleftrightarrow> (\<forall>tx \<in> set (sys_txs y). tx_ok (sys_shared y) tx) \<and> failure_named y"

text \<open>Two moments: the failure and the stop stay, and what is decided for a transaction stays.\<close>

definition shared_forward :: "writer_shared \<Rightarrow> writer_shared \<Rightarrow> bool" where
  "shared_forward sh sh' \<longleftrightarrow>
     (ws_stop_requested sh \<longrightarrow> ws_stop_requested sh') \<and>
     (ws_failure_request_id sh \<noteq> 0 \<longrightarrow> ws_failure_request_id sh' = ws_failure_request_id sh)"

definition tx_forward :: "bool \<Rightarrow> 'r writer_tx \<Rightarrow> 'r writer_tx \<Rightarrow> bool" where
  "tx_forward running tx tx' \<longleftrightarrow>
     (wt_state (tx_control tx) \<noteq> TxPending \<longrightarrow>
        wt_state (tx_control tx') = wt_state (tx_control tx) \<and> tx_replies tx' = tx_replies tx) \<and>
     (wt_mutation_authorized (tx_control tx) \<longrightarrow> wt_mutation_authorized (tx_control tx')) \<and>
     (\<not> running \<longrightarrow> tx_replies tx' = tx_replies tx \<and>
        wt_mutation_authorized (tx_control tx') = wt_mutation_authorized (tx_control tx))"

lemma effect_shared_forward: "tx_effect sh tx sh' tx' \<Longrightarrow> shared_forward sh sh'"
  by (cases rule: tx_effect.cases) (auto simp: shared_forward_def)

lemma effect_tx_forward: "tx_effect sh tx sh' tx' \<Longrightarrow> tx_forward (writer_running sh) tx tx'"
  by (cases rule: tx_effect.cases) (auto simp: tx_forward_def)

lemma effect_tx_ok: "tx_effect sh tx sh' tx' \<Longrightarrow> tx_ok sh tx \<Longrightarrow> tx_ok sh' tx'"
  by (cases rule: tx_effect.cases) (auto simp: tx_ok_def split: if_splits)

lemma shared_forward_tx_ok: "shared_forward sh sh' \<Longrightarrow> tx_ok sh tx \<Longrightarrow> tx_ok sh' tx"
  by (auto simp: tx_ok_def shared_forward_def)

lemma effect_new_failure:
  "tx_effect sh tx sh' tx' \<Longrightarrow> ws_failure_request_id sh = 0 \<Longrightarrow> ws_failure_request_id sh' \<noteq> 0 \<Longrightarrow>
   ws_failure_request_id sh' = wt_request_id (tx_control tx') \<and> wt_state (tx_control tx') = TxTimedOut"
  by (cases rule: tx_effect.cases) auto

lemma effect_request_id: "tx_effect sh tx sh' tx' \<Longrightarrow> wt_request_id (tx_control tx') = wt_request_id (tx_control tx)"
  by (cases rule: tx_effect.cases) auto

lemma set_list_update: "i < length xs \<Longrightarrow> x \<in> set (xs[i := v]) \<Longrightarrow> x = v \<or> x \<in> set xs"
  by (metis insert_iff set_update_subset_insert subsetD)

lemma writer_ok_effect:
  assumes "writer_ok y" "i < length (sys_txs y)" "tx_effect (sys_shared y) (sys_txs y ! i) sh tx"
  shows "writer_ok \<lparr>sys_shared = sh, sys_txs = (sys_txs y)[i := tx]\<rparr>"
proof -
  let ?old = "sys_txs y ! i"
  have fwd: "shared_forward (sys_shared y) sh"
    using assms(3) by (rule effect_shared_forward)
  have "tx_ok sh tx"
    using assms effect_tx_ok by (fastforce simp: writer_ok_def)
  then have all: "\<forall>t \<in> set ((sys_txs y)[i := tx]). tx_ok sh t"
    using assms(1,2) fwd shared_forward_tx_ok unfolding writer_ok_def by (metis set_list_update)
  have "failure_named \<lparr>sys_shared = sh, sys_txs = (sys_txs y)[i := tx]\<rparr>"
    unfolding failure_named_def
  proof (intro impI)
    assume failed: "ws_failure_request_id (sys_shared \<lparr>sys_shared = sh, sys_txs = (sys_txs y)[i := tx]\<rparr>) \<noteq> 0"
    have new: "tx \<in> set ((sys_txs y)[i := tx])"
      using assms(2) by (simp add: set_update_memI)
    show "\<exists>t \<in> set (sys_txs \<lparr>sys_shared = sh, sys_txs = (sys_txs y)[i := tx]\<rparr>).
        wt_request_id (tx_control t) = ws_failure_request_id (sys_shared \<lparr>sys_shared = sh, sys_txs = (sys_txs y)[i := tx]\<rparr>) \<and>
        wt_state (tx_control t) = TxTimedOut"
    proof (cases "ws_failure_request_id (sys_shared y) = 0")
      case True
      then show ?thesis
        using effect_new_failure [OF assms(3)] failed new by auto
    next
      case False
      then obtain t where t: "t \<in> set (sys_txs y)" "wt_request_id (tx_control t) = ws_failure_request_id (sys_shared y)"
          "wt_state (tx_control t) = TxTimedOut"
        using assms(1) by (auto simp: writer_ok_def failure_named_def)
      have same: "ws_failure_request_id sh = ws_failure_request_id (sys_shared y)"
        using fwd False by (simp add: shared_forward_def)
      obtain j where j: "j < length (sys_txs y)" "t = sys_txs y ! j"
        using t(1) by (auto simp: in_set_conv_nth)
      show ?thesis
      proof (cases "j = i")
        case True
        with t j have "wt_state (tx_control tx) = TxTimedOut" "wt_request_id (tx_control tx) = wt_request_id (tx_control t)"
          using effect_tx_forward [OF assms(3)] effect_request_id [OF assms(3)] by (simp_all add: tx_forward_def)
        with t same new show ?thesis by auto
      next
        case False
        with j have "t \<in> set ((sys_txs y)[i := tx])"
          by (metis length_list_update nth_list_update_neq nth_mem)
        with t same show ?thesis by auto
      qed
    qed
  qed
  with all show ?thesis by (simp add: writer_ok_def)
qed

lemma writer_step_ok: "writer_step y y' \<Longrightarrow> writer_ok y \<Longrightarrow> writer_ok y'"
proof (induction rule: writer_step.induct)
  case (gated_step i y op sh tx)
  then show ?case using writer_ok_effect gated_effect by blast
next
  case (start_step request_id y limit now)
  then show ?case
    by (auto simp: writer_ok_def tx_ok_def failure_named_def new_with_writer_state_def)
next
  case (stop_step y)
  then show ?case by (simp add: writer_ok_def tx_ok_def failure_named_def)
next
  case (lost_step i y)
  let ?lost = "(sys_txs y ! i)\<lparr>tx_receiver := False\<rparr>"
  have "tx_ok (sys_shared y) ?lost"
    using lost_step by (auto simp: writer_ok_def tx_ok_def)
  moreover have "failure_named (y\<lparr>sys_txs := (sys_txs y)[i := ?lost]\<rparr>)"
    unfolding failure_named_def
  proof (intro impI)
    assume "ws_failure_request_id (sys_shared (y\<lparr>sys_txs := (sys_txs y)[i := ?lost]\<rparr>)) \<noteq> 0"
    then obtain j where j: "j < length (sys_txs y)" "wt_state (tx_control (sys_txs y ! j)) = TxTimedOut"
        "wt_request_id (tx_control (sys_txs y ! j)) = ws_failure_request_id (sys_shared y)"
      using lost_step.prems by (fastforce simp: writer_ok_def failure_named_def in_set_conv_nth)
    then have "tx_control ((sys_txs y)[i := ?lost] ! j) = tx_control (sys_txs y ! j)"
      by (cases "i = j") simp_all
    with j show "\<exists>t \<in> set (sys_txs (y\<lparr>sys_txs := (sys_txs y)[i := ?lost]\<rparr>)).
        wt_request_id (tx_control t) = ws_failure_request_id (sys_shared (y\<lparr>sys_txs := (sys_txs y)[i := ?lost]\<rparr>)) \<and>
        wt_state (tx_control t) = TxTimedOut"
      by (intro bexI [of _ "(sys_txs y)[i := ?lost] ! j"]) simp_all
  qed
  ultimately show ?case
    using lost_step by (auto simp: writer_ok_def dest!: set_list_update [OF lost_step.hyps])
qed

text \<open>Between two moments of a run.\<close>

definition system_forward :: "'r writer_system \<Rightarrow> 'r writer_system \<Rightarrow> bool" where
  "system_forward y y' \<longleftrightarrow>
     shared_forward (sys_shared y) (sys_shared y') \<and> length (sys_txs y) \<le> length (sys_txs y') \<and>
     (\<forall>i < length (sys_txs y). tx_forward (writer_running (sys_shared y)) (sys_txs y ! i) (sys_txs y' ! i)) \<and>
     (\<not> writer_running (sys_shared y) \<longrightarrow>
        (\<forall>i < length (sys_txs y'). length (sys_txs y) \<le> i \<longrightarrow>
           tx_replies (sys_txs y' ! i) = [] \<and> \<not> wt_mutation_authorized (tx_control (sys_txs y' ! i))))"

lemma tx_forward_refl: "tx_forward b tx tx"
  by (simp add: tx_forward_def)

lemma shared_forward_running: "shared_forward sh sh' \<Longrightarrow> writer_running sh' \<Longrightarrow> writer_running sh"
  by (auto simp: shared_forward_def writer_running_def)

lemma tx_forward_trans:
  "tx_forward b tx tx' \<Longrightarrow> tx_forward b' tx' tx'' \<Longrightarrow> (b' \<Longrightarrow> b) \<Longrightarrow> tx_forward b tx tx''"
  by (auto simp: tx_forward_def)

lemma writer_step_forward: "writer_step y y' \<Longrightarrow> system_forward y y'"
proof (induction rule: writer_step.induct)
  case (gated_step i y op sh tx)
  have effect: "tx_effect (sys_shared y) (sys_txs y ! i) sh tx"
    using gated_step.hyps(2) by (rule gated_effect)
  have "tx_forward (writer_running (sys_shared y)) (sys_txs y ! j) ((sys_txs y)[i := tx] ! j)" if "j < length (sys_txs y)" for j
    using effect_tx_forward [OF effect] that by (cases "i = j") (simp_all add: tx_forward_refl)
  then show ?case
    using effect_shared_forward [OF effect] by (simp add: system_forward_def)
next
  case (start_step request_id y limit now)
  then show ?case
    by (auto simp: system_forward_def shared_forward_def tx_forward_refl nth_append new_with_writer_state_def)
next
  case (stop_step y)
  then show ?case by (auto simp: system_forward_def shared_forward_def tx_forward_refl)
next
  case (lost_step i y)
  have "tx_forward b (sys_txs y ! j) ((sys_txs y)[i := (sys_txs y ! i)\<lparr>tx_receiver := False\<rparr>] ! j)" if "j < length (sys_txs y)" for j b
    using that by (cases "i = j") (simp_all add: tx_forward_def)
  then show ?case by (simp add: system_forward_def shared_forward_def)
qed

lemma system_forward_trans:
  assumes "system_forward x y" "system_forward y z"
  shows "system_forward x z"
proof -
  have sh: "shared_forward (sys_shared x) (sys_shared z)"
    using assms by (auto simp: system_forward_def shared_forward_def)
  have down: "writer_running (sys_shared y) \<Longrightarrow> writer_running (sys_shared x)"
    using assms(1) shared_forward_running by (auto simp: system_forward_def)
  have "tx_forward (writer_running (sys_shared x)) (sys_txs x ! i) (sys_txs z ! i)" if "i < length (sys_txs x)" for i
    using assms that tx_forward_trans [OF _ _ down] unfolding system_forward_def by (meson less_le_trans)
  moreover have "tx_replies (sys_txs z ! i) = [] \<and> \<not> wt_mutation_authorized (tx_control (sys_txs z ! i))"
    if "\<not> writer_running (sys_shared x)" "i < length (sys_txs z)" "length (sys_txs x) \<le> i" for i
  proof (cases "i < length (sys_txs y)")
    case True
    with that down assms show ?thesis by (auto simp: system_forward_def tx_forward_def)
  next
    case False
    with that down assms show ?thesis by (auto simp: system_forward_def)
  qed
  ultimately show ?thesis
    using sh assms by (auto simp: system_forward_def)
qed

interpretation writer: interleaved writer_step writer_ok system_forward
proof unfold_locales
  show "writer_ok y'" if "writer_step y y'" "writer_ok y" for y y' :: "'a writer_system"
    using that by (rule writer_step_ok)
  show "system_forward y y" for y :: "'a writer_system"
    by (auto simp: system_forward_def shared_forward_def tx_forward_refl)
  show "system_forward x z" if "system_forward x y" "system_forward y z" for x y z :: "'a writer_system"
    using that by (rule system_forward_trans)
  show "system_forward y y'" if "writer_step y y'" for y y' :: "'a writer_system"
    using that by (rule writer_step_forward)
qed

subsection \<open>Properties of the system\<close>

lemma writer_start_ok: "writer_ok writer_start"
  by (simp add: writer_ok_def writer_start_def failure_named_def)

text \<open>
  C11: whatever the threads do and in whatever order, a transaction is answered exactly once if it
  completed and never otherwise, so it cannot both complete and time out; and if the writer failed,
  the transaction it names did time out.
\<close>

theorem transaction_answered_once:
  assumes "writer_step\<^sup>*\<^sup>* writer_start y" "tx \<in> set (sys_txs y)"
  shows "length (tx_replies tx) = (if wt_state (tx_control tx) = TxCompleted then 1 else 0) \<and>
    (wt_state (tx_control tx) = TxTimedOut \<longrightarrow>
      (\<exists>tx' \<in> set (sys_txs y). wt_request_id (tx_control tx') = ws_failure_request_id (sys_shared y) \<and>
         wt_state (tx_control tx') = TxTimedOut))"
  using writer.inv_steps [OF assms(1) writer_start_ok] assms(2)
  by (auto simp: writer_ok_def tx_ok_def failure_named_def)

text \<open>
  C12: once a transaction has failed the writer, or it was asked to stop, nothing more happens: from
  then on no transaction, old or new, gets an answer or the permission to mutate, and the failed
  transaction stays the one that is named.
\<close>

theorem failed_writer_is_inert:
  assumes "writer_step\<^sup>*\<^sup>* writer_start y" "writer_step\<^sup>*\<^sup>* y y'"
    and "ws_failure_request_id (sys_shared y) \<noteq> 0 \<or> ws_stop_requested (sys_shared y)"
    and "i < length (sys_txs y')"
  shows "tx_replies (sys_txs y' ! i) = (if i < length (sys_txs y) then tx_replies (sys_txs y ! i) else []) \<and>
    (wt_mutation_authorized (tx_control (sys_txs y' ! i)) \<longrightarrow>
       i < length (sys_txs y) \<and> wt_mutation_authorized (tx_control (sys_txs y ! i))) \<and>
    (ws_failure_request_id (sys_shared y) \<noteq> 0 \<longrightarrow>
       ws_failure_request_id (sys_shared y') = ws_failure_request_id (sys_shared y))"
proof -
  have "writer_ok y"
    using writer.inv_steps [OF assms(1) writer_start_ok] .
  with assms(2) have fwd: "system_forward y y'"
    by (rule writer.rel_steps)
  have stopped: "\<not> writer_running (sys_shared y)"
    using assms(3) by (auto simp: writer_running_def)
  show ?thesis
    using fwd stopped assms(4) unfolding system_forward_def tx_forward_def shared_forward_def by (auto simp: not_less)
qed

text \<open>A short run: one transaction is started, permitted to mutate, and times out.\<close>

definition demo_lease :: session_lease where
  "demo_lease = \<lparr>sl_generation = 2, sl_session = \<lparr>as_session_id = ''c2'', as_seat = ''seat0''\<rparr>\<rparr>"

definition demo_view :: session_view where
  "demo_view = (publish (Authorized (sl_session demo_lease)) 10 session_access_new, 11)"

definition demo_tx :: "nat writer_tx" where
  "demo_tx = \<lparr>tx_control = \<lparr>wt_request_id = 7, wt_deadline = 100, wt_state = TxTimedOut, wt_soft_cancel = False,
     wt_mutation_authorized = True\<rparr>, tx_replies = [], tx_receiver = True\<rparr>"

definition demo_system :: "nat writer_system" where
  "demo_system = \<lparr>sys_shared = \<lparr>ws_failure_request_id = 7, ws_stop_requested = False\<rparr>, sys_txs = [demo_tx]\<rparr>"

lemma demo_run: "writer_step\<^sup>*\<^sup>* writer_start demo_system"
proof -
  let ?c = "new_with_writer_state 7 (Some 100) 0"
  let ?y1 = "\<lparr>sys_shared = \<lparr>ws_failure_request_id = 0, ws_stop_requested = False\<rparr>,
     sys_txs = [\<lparr>tx_control = ?c, tx_replies = [] :: nat list, tx_receiver = True\<rparr>]\<rparr>"
  let ?y2 = "?y1\<lparr>sys_txs := [\<lparr>tx_control = ?c\<lparr>wt_mutation_authorized := True\<rparr>, tx_replies = [], tx_receiver = True\<rparr>]\<rparr>"
  have "writer_step writer_start ?y1"
    using start_step [of 7 writer_start "Some 100" 0] by (simp add: writer_start_def)
  moreover have "writer_step ?y1 ?y2"
  proof -
    have "gated (GatedAuthorize demo_lease demo_view demo_view 50) (sys_shared ?y1) (sys_txs ?y1 ! 0) =
        (sys_shared ?y2, sys_txs ?y2 ! 0)"
      by code_simp
    from gated_step [OF _ this] show ?thesis by simp
  qed
  moreover have "writer_step ?y2 demo_system"
  proof -
    have "gated GatedTimeOut (sys_shared ?y2) (sys_txs ?y2 ! 0) = (sys_shared demo_system, demo_tx)"
      by code_simp
    from gated_step [OF _ this] show ?thesis by (simp add: demo_system_def)
  qed
  ultimately show ?thesis
    by (meson converse_rtranclp_into_rtranclp r_into_rtranclp)
qed

lemma transaction_answered_once_witness: "length (tx_replies demo_tx) = 0 \<and> (\<exists>tx' \<in> set (sys_txs demo_system). wt_state (tx_control tx') = TxTimedOut)"
proof -
  have "demo_tx \<in> set (sys_txs demo_system)" "wt_state (tx_control demo_tx) = TxTimedOut"
    by (simp_all add: demo_system_def demo_tx_def)
  with transaction_answered_once [OF demo_run, of demo_tx] show ?thesis by auto
qed

lemma failed_writer_is_inert_witness:
  "tx_replies (sys_txs demo_system ! 0) = [] \<and> ws_failure_request_id (sys_shared demo_system) = 7"
  using failed_writer_is_inert [OF demo_run rtranclp.rtrancl_refl, of 0]
  by (simp add: demo_system_def demo_tx_def)

text \<open>
  The permission to mutate is given exactly when the session is current before and after, the
  writer neither failed nor stops, the transaction is pending and not yet due, and nobody wished to
  cancel it; otherwise it is not given.
\<close>

theorem authorize_mutation_exact:
  "authorize_mutation_start l a b now (sh, c) = (Inr (), sh', c') \<longleftrightarrow>
     session_current l a = Inr () \<and> session_current l b = Inr () \<and> ws_failure_request_id sh = 0 \<and>
     \<not> ws_stop_requested sh \<and> wt_state c = TxPending \<and> now < wt_deadline c \<and> \<not> wt_soft_cancel c \<and>
     sh' = sh \<and> c' = c\<lparr>wt_mutation_authorized := True\<rparr>"
proof (cases rule: ensure_active_cases [of l a b now sh c])
  case active
  then show ?thesis by (auto simp: authorize_mutation_start_def writer_running_def)
next
  case (error e)
  moreover have "ensure_active l a b now (sh, c) = (Inr (), sh, c)"
    if "session_current l a = Inr ()" "session_current l b = Inr ()" "ws_failure_request_id sh = 0"
      "\<not> ws_stop_requested sh" "wt_state c = TxPending" "now < wt_deadline c" "\<not> wt_soft_cancel c"
    using that by (simp add: ensure_active_def ensure_running_def)
  ultimately show ?thesis by (auto simp: authorize_mutation_start_def)
next
  case (timed_out e)
  moreover have "ensure_active l a b now (sh, c) = (Inr (), sh, c)"
    if "session_current l a = Inr ()" "session_current l b = Inr ()" "ws_failure_request_id sh = 0"
      "\<not> ws_stop_requested sh" "wt_state c = TxPending" "now < wt_deadline c" "\<not> wt_soft_cancel c"
    using that by (simp add: ensure_active_def ensure_running_def)
  moreover obtain sh1 c1 where "snd (try_mark_timed_out (sh, c)) = (sh1, c1)" by fastforce
  ultimately show ?thesis by (auto simp: authorize_mutation_start_def)
qed

subsection \<open>Waiting for the answer\<close>

text \<open>What other threads and the clock may do while the caller waits.\<close>

definition world_forward :: "'o wait_world \<Rightarrow> 'o wait_world \<Rightarrow> bool" where
  "world_forward w w' \<longleftrightarrow>
     (ws_stop_requested (ww_shared w) \<longrightarrow> ws_stop_requested (ww_shared w')) \<and>
     wt_deadline (ww_control w') = wt_deadline (ww_control w) \<and>
     (wt_state (ww_control w) \<noteq> TxPending \<longrightarrow> wt_state (ww_control w') = wt_state (ww_control w)) \<and>
     ww_time w \<le> ww_time w'"

definition fair_surroundings ::
  "('o wait_world \<Rightarrow> 'o wait_world) \<Rightarrow> (nat \<Rightarrow> 'o wait_world \<Rightarrow> 'o wait_world) \<Rightarrow> bool" where
  "fair_surroundings others waits \<longleftrightarrow>
     (\<forall>w. world_forward w (others w) \<and> ww_time w < ww_time (others w)) \<and> (\<forall>d w. world_forward w (waits d w))"

lemma world_forward_refl: "world_forward w w"
  by (simp add: world_forward_def)

lemma world_forward_trans: "world_forward u v \<Longrightarrow> world_forward v w \<Longrightarrow> world_forward u w"
  by (auto simp: world_forward_def)

text \<open>A property of worlds that every access keeps.\<close>

definition stable :: "('o wait_world \<Rightarrow> bool) \<Rightarrow> bool" where
  "stable P \<longleftrightarrow> (\<forall>w w'. P w \<longrightarrow> world_forward w w' \<longrightarrow> P w')"

lemma stableD: "stable P \<Longrightarrow> P w \<Longrightarrow> world_forward w w' \<Longrightarrow> P w'"
  by (auto simp: stable_def)

lemma try_recv_forward: "try_recv w = (r, w') \<Longrightarrow> world_forward w w'"
  by (auto simp: try_recv_def world_forward_def split: list.splits)

lemma try_mark_forward: "on_control try_mark_timed_out w = (b, w') \<Longrightarrow> world_forward w w'"
  by (auto simp: on_control_def try_mark_timed_out_def world_forward_def split: if_splits prod.splits)

lemma worker_loss_forward: "on_control (try_request_stop_for_input_worker_loss t) w = (b, w') \<Longrightarrow> world_forward w w'"
  by (auto simp: on_control_def try_request_stop_for_input_worker_loss_def try_mark_timed_out_def world_forward_def
      split: if_splits prod.splits)

lemma disconnected_forward:
  assumes "fair_surroundings others waits" "disconnected_is_error others w = (b, w')"
  shows "world_forward w w'"
proof -
  have "world_forward w (others w)" "world_forward (others w) (others (others w))"
    using assms(1) by (simp_all add: fair_surroundings_def)
  with assms(2) show ?thesis
    by (auto simp: disconnected_is_error_def Let_def intro: world_forward_trans split: if_splits)
qed

lemmas round_defs = receive_pending_def wait_and_receive_def stop_for_worker_loss_def health_and_wait_def
  receive_round_def time_out_round_def wait_round_def

lemma fair_others: "fair_surroundings others waits \<Longrightarrow> world_forward w (others w)"
  by (simp add: fair_surroundings_def)

lemma fair_waits: "fair_surroundings others waits \<Longrightarrow> world_forward w (waits d w)"
  by (simp add: fair_surroundings_def)

lemma receive_pending_forward:
  assumes "fair_surroundings others waits" "receive_pending others received w = (failed, got, w')"
  shows "world_forward w w'"
proof -
  obtain x u where x: "try_recv w = (x, u)" by fastforce
  obtain err v where v: "disconnected_is_error others u = (err, v)" by fastforce
  have "world_forward w v"
    using try_recv_forward [OF x] disconnected_forward [OF assms(1) v] world_forward_trans by blast
  with assms(2) x v try_recv_forward [OF x] show ?thesis
    by (cases x) (auto simp: receive_pending_def world_forward_refl split: if_splits)
qed

lemma wait_and_receive_forward:
  assumes "fair_surroundings others waits" "wait_and_receive others waits received w = (r, w')"
  shows "world_forward w w'"
proof -
  let ?u = "waits (min (wt_deadline (ww_control w) - ww_time w) TRANSACTION_SLEEP_QUANTUM) w"
  obtain x u where x: "try_recv ?u = (x, u)" by fastforce
  have u: "world_forward w u"
    using fair_waits [OF assms(1)] try_recv_forward [OF x] world_forward_trans by blast
  obtain err v where v: "disconnected_is_error others u = (err, v)" by fastforce
  have "world_forward w v"
    using u disconnected_forward [OF assms(1) v] world_forward_trans by blast
  with assms(2) x v u show ?thesis
    by (cases x) (auto simp: wait_and_receive_def)
qed

lemma health_and_wait_forward:
  assumes "fair_surroundings others waits" "health_and_wait others waits received w = (r, w')"
  shows "world_forward w w'"
proof -
  have loss: "world_forward w u" if "stop_for_worker_loss e received (others w) = (r, u)" for e u
    using that worker_loss_forward fair_others [OF assms(1)] world_forward_trans
    by (fastforce simp: stop_for_worker_loss_def split: prod.splits)
  have wait: "world_forward w u" if "wait_and_receive others waits received (others w) = (r, u)" for u
    using wait_and_receive_forward [OF assms(1) that] fair_others [OF assms(1)] world_forward_trans by blast
  show ?thesis
    using assms(2) loss wait
    by (auto simp: health_and_wait_def world_forward_refl split: option.splits sum.splits)
qed

lemma receive_round_forward:
  assumes "fair_surroundings others waits" "receive_round others waits received w = (r, w')"
  shows "world_forward w w'"
proof -
  obtain failed got u where u: "receive_pending others received (others w) = (failed, got, u)"
    by (cases "receive_pending others received (others w)") auto
  have "world_forward w u"
    using receive_pending_forward [OF assms(1) u] fair_others [OF assms(1)] world_forward_trans by blast
  moreover have "world_forward u w'"
    using assms(2) u health_and_wait_forward [OF assms(1)] fair_others [OF assms(1)] world_forward_trans world_forward_refl
    by (fastforce simp: receive_round_def split: if_splits)
  ultimately show ?thesis by (rule world_forward_trans)
qed

lemma time_out_round_forward:
  assumes "fair_surroundings others waits" "time_out_round others received w = (r, w')"
  shows "world_forward w w'"
proof -
  obtain b u where u: "on_control try_mark_timed_out w = (b, u)" by fastforce
  then show ?thesis
    using assms(2) try_mark_forward [OF u] fair_others [OF assms(1)] world_forward_trans
    by (auto simp: time_out_round_def Let_def split: if_splits)
qed

text \<open>A round in which the transaction is pending and the writer goes on.\<close>

lemma wait_round_cases:
  assumes "fair_surroundings others waits" "wait_round others waits received w = (r, w')"
  obtains (returned) x where "r = Return x"
      "wt_state (ww_control (others w)) \<noteq> TxPending \<or> ws_stop_requested (ww_shared (others (others w)))"
  | (expired) u where "world_forward (others w) u" "time_out_round others received u = (r, w')"
  | (received) u where "world_forward (others w) u" "receive_round others waits received u = (r, w')"
      "ww_time u < wt_deadline (ww_control u)"
proof (cases "wt_state (ww_control (others w))")
  case TxPending
  let ?u2 = "others (others w)" and ?u4 = "others (others (others (others w)))"
  have forward: "world_forward (others w) ?u4" "world_forward (others w) (others ?u4)"
    using fair_others [OF assms(1)] world_forward_trans by blast+
  show ?thesis
  proof (cases "ws_stop_requested (ww_shared ?u2)")
    case True
    with assms(2) TxPending show ?thesis by (intro returned) (auto simp: wait_round_def Let_def)
  next
    case False
    show ?thesis
    proof (cases "ws_failure_request_id (ww_shared (others ?u2)) \<noteq> 0 \<or> wt_deadline (ww_control ?u4) \<le> ww_time ?u4")
      case True
      with assms(2) TxPending False forward show ?thesis
        by (intro expired [of "others ?u4"]) (simp_all add: wait_round_def Let_def)
    next
      case not_due: False
      with assms(2) TxPending False forward show ?thesis
        by (intro received [of ?u4]) (simp_all add: wait_round_def Let_def)
    qed
  qed
next
  case TxCompleted
  with assms(2) have "\<exists>x. r = Return x"
    by (auto simp: wait_round_def Let_def split: option.splits prod.splits received.splits)
  with TxCompleted show ?thesis using returned by auto
next
  case TxTimedOut
  with assms(2) show ?thesis using returned by (auto simp: wait_round_def Let_def)
qed

definition decided :: "'o wait_world \<Rightarrow> bool" where
  "decided w \<longleftrightarrow> wt_state (ww_control w) \<noteq> TxPending \<or> ws_stop_requested (ww_shared w)"

lemma decided_forward: "decided w \<Longrightarrow> world_forward w w' \<Longrightarrow> decided w'"
  by (auto simp: decided_def world_forward_def)

lemma decided_round_returns:
  assumes "fair_surroundings others waits" "decided w"
  shows "\<exists>x w'. wait_round others waits received w = (Return x, w')"
proof -
  have "decided (others w)" "decided (others (others w))"
    using assms decided_forward fair_others [OF assms(1)] by blast+
  then show ?thesis
    by (cases "wt_state (ww_control (others w))"; cases "wt_state (ww_control (others (others w)))"; cases received;
        cases "try_recv (others (others w))"; cases "fst (try_recv (others (others w)))")
      (use fair_others [OF assms(1), of "others w"] in \<open>simp_all add: wait_round_def Let_def decided_def world_forward_def\<close>)
qed

lemma late_round_decides:
  assumes "fair_surroundings others waits" "wt_deadline (ww_control w) \<le> ww_time w"
    and "wait_round others waits received w = (Continue got, w')"
  shows "decided w'"
  using assms(1,3)
proof (cases rule: wait_round_cases)
  case (expired u)
  then show ?thesis
    by (auto simp: time_out_round_def on_control_def try_mark_timed_out_def decided_def Let_def split: if_splits prod.splits)
next
  case (received u)
  have "world_forward w u"
    using received(1) fair_others [OF assms(1)] world_forward_trans by blast
  with received(3) assms(2) show ?thesis by (auto simp: world_forward_def)
qed auto

lemma continued_round_forward:
  assumes "fair_surroundings others waits" "wait_round others waits received w = (Continue got, w')"
  shows "world_forward w w' \<and> ww_time w < ww_time w'"
proof -
  have "world_forward (others w) w'"
    using assms by (cases rule: wait_round_cases)
      (use time_out_round_forward [OF assms(1)] receive_round_forward [OF assms(1)] world_forward_trans in blast)+
  moreover have "world_forward w (others w)" "ww_time w < ww_time (others w)"
    using assms(1) by (simp_all add: fair_surroundings_def)
  ultimately show ?thesis
    using world_forward_trans by (fastforce simp: world_forward_def)
qed

text \<open>
  C27: the thread that waits for the answer of a transaction always comes back: at the latest two
  rounds after the deadline, however the writer and the other threads behave.
\<close>

theorem wait_for_reply_terminates:
  assumes "fair_surroundings others waits"
    and "wt_deadline (ww_control w) - ww_time w + 2 < fuel"
  shows "\<exists>r w'. wait_for_reply_with_input_health fuel others waits w = Some (r, w')"
proof -
  have "wt_deadline (ww_control w) - ww_time w + 2 < fuel \<or> decided w \<and> 0 < fuel \<Longrightarrow>
      \<exists>r w'. wait_for_reply_loop fuel others waits received w = Some (r, w')" for received
  proof (induction fuel arbitrary: w received)
    case (Suc fuel)
    obtain x v where round: "wait_round others waits received w = (x, v)" by fastforce
    show ?case
    proof (cases x)
      case (Return r)
      with round show ?thesis by simp
    next
      case (Continue got)
      then have undecided: "\<not> decided w"
        using decided_round_returns [OF assms(1), of w received] round by auto
      have fwd: "world_forward w v" "ww_time w < ww_time v"
        using continued_round_forward [OF assms(1)] round Continue by blast+
      have "wt_deadline (ww_control v) - ww_time v + 2 < fuel \<or> decided v \<and> 0 < fuel"
      proof (cases "wt_deadline (ww_control w) \<le> ww_time w")
        case True
        then show ?thesis
          using late_round_decides [OF assms(1) True] round Continue Suc.prems undecided by auto
      next
        case False
        then show ?thesis
          using fwd Suc.prems undecided by (auto simp: world_forward_def)
      qed
      from Suc.IH [OF this] round Continue show ?thesis by simp
    qed
  qed simp
  then show ?thesis
    using assms(2) by (simp add: wait_for_reply_with_input_health_def)
qed

definition idle_wait_world :: "nat wait_world" where
  "idle_wait_world = \<lparr>ww_shared = \<lparr>ws_failure_request_id = 0, ws_stop_requested = False\<rparr>,
     ww_control = new_with_writer_state 7 (Some 3) 0, ww_time = 0, ww_queue = [], ww_sender = True, ww_health = None\<rparr>"

lemma wait_for_reply_terminates_witness:
  "\<exists>r w'. wait_for_reply_with_input_health 6 (\<lambda>w. w\<lparr>ww_time := ww_time w + 1\<rparr>) (\<lambda>d w. w) idle_wait_world = Some (r, w')"
proof -
  have "fair_surroundings (\<lambda>w :: nat wait_world. w\<lparr>ww_time := ww_time w + 1\<rparr>) (\<lambda>d w. w)"
    by (simp add: fair_surroundings_def world_forward_def)
  from wait_for_reply_terminates [OF this, of idle_wait_world 6] show ?thesis
    by (simp add: idle_wait_world_def new_with_writer_state_def)
qed

lemma receive_round_error: "receive_round others waits received w = (Return x, w') \<Longrightarrow> \<exists>e. x = Inl e"
  by (auto simp: receive_round_def health_and_wait_def stop_for_worker_loss_def wait_and_receive_def
      split: prod.splits if_splits option.splits sum.splits received.splits)

lemma time_out_round_error: "time_out_round others received w = (Return x, w') \<Longrightarrow> \<exists>e. x = Inl e"
  by (auto simp: time_out_round_def Let_def split: prod.splits if_splits)

lemma successful_round_completed:
  assumes "fair_surroundings others waits" "wait_round others waits received w = (Return (Inr v), w')"
  shows "wt_state (ww_control w') = TxCompleted"
proof (cases "wt_state (ww_control (others w))")
  case TxCompleted
  have "world_forward (others w) w'"
  proof (cases received)
    case (Some reply)
    with assms(2) TxCompleted show ?thesis by (simp add: wait_round_def world_forward_refl)
  next
    case None
    obtain x u where x: "try_recv (others (others w)) = (x, u)" by fastforce
    have "world_forward (others w) u"
      using try_recv_forward [OF x] fair_others [OF assms(1)] world_forward_trans by blast
    with None x assms(2) TxCompleted show ?thesis
      by (cases x) (simp_all add: wait_round_def)
  qed
  with TxCompleted show ?thesis by (simp add: world_forward_def)
next
  case TxPending
  with assms(2) show ?thesis
    by (auto simp: wait_round_def Let_def dest: receive_round_error time_out_round_error split: if_splits)
next
  case TxTimedOut
  with assms(2) show ?thesis by (simp add: wait_round_def Let_def)
qed

text \<open>
  C26: the caller of a transaction is told that it succeeded only if the transaction is completed,
  never for one that timed out or was given up, even if an answer was already in the channel.
\<close>

theorem success_means_completed:
  assumes "fair_surroundings others waits"
    and "wait_for_reply_with_input_health fuel others waits w = Some (Inr v, w')"
  shows "wt_state (ww_control w') = TxCompleted"
proof -
  have "wait_for_reply_loop fuel others waits received w = Some (Inr v, w') \<Longrightarrow> ?thesis" for received
  proof (induction fuel arbitrary: received w)
    case (Suc fuel)
    obtain x u where round: "wait_round others waits received w = (x, u)" by fastforce
    show ?case
    proof (cases x)
      case (Return r)
      with round Suc.prems have "wait_round others waits received w = (Return (Inr v), w')" by simp
      then show ?thesis by (rule successful_round_completed [OF assms(1)])
    next
      case (Continue got)
      with round Suc.prems Suc.IH show ?thesis by simp
    qed
  qed simp
  with assms(2) show ?thesis
    by (simp add: wait_for_reply_with_input_health_def)
qed

definition answered_wait_world :: "nat wait_world" where
  "answered_wait_world = idle_wait_world\<lparr>ww_control := (new_with_writer_state 7 (Some 3) 0)\<lparr>wt_state := TxCompleted\<rparr>,
     ww_queue := [Inr 5]\<rparr>"

lemma success_means_completed_witness:
  "\<exists>w'. wait_for_reply_with_input_health 6 (\<lambda>w. w\<lparr>ww_time := ww_time w + 1\<rparr>) (\<lambda>d w. w) answered_wait_world = Some (Inr 5, w') \<and>
     wt_state (ww_control w') = TxCompleted"
proof -
  let ?run = "wait_for_reply_with_input_health 6 (\<lambda>w. w\<lparr>ww_time := ww_time w + 1\<rparr>) (\<lambda>d w. w) answered_wait_world"
  have fair: "fair_surroundings (\<lambda>w :: nat wait_world. w\<lparr>ww_time := ww_time w + 1\<rparr>) (\<lambda>d w. w)"
    by (simp add: fair_surroundings_def world_forward_def)
  have "map_option fst ?run = Some (Inr 5)"
    by code_simp
  then obtain w' where "?run = Some (Inr 5, w')" by auto
  with success_means_completed [OF fair this] show ?thesis by blast
qed

subsection \<open>Timeouts\<close>

text \<open>
  No transaction is given more than five seconds: a correction whose schedule the settings
  accept gets its schedule and one second of grace, every other kind one second.
\<close>

theorem execution_timeout_bounded:
  assumes "execution_timeout kind = Inr t"
  shows "t \<le> MAX_TRANSACTION_TIMEOUT_MS \<and> TRANSACTION_BACKEND_GRACE_MS \<le> t"
proof -
  have correction: "t \<le> MAX_TRANSACTION_TIMEOUT_MS \<and> TRANSACTION_BACKEND_GRACE_MS \<le> t"
    if timeout: "correction_transaction_timeout plan config switch = Inr t" for plan config switch
  proof -
    obtain ms where ms: "t = saturating_add ms TRANSACTION_BACKEND_GRACE_MS" "ms \<le> MAX_CORRECTION_SCHEDULE_MS"
      using timeout by (auto simp: correction_transaction_timeout_def estimated_correction_schedule_def Let_def
          not_less split: if_splits)
    have "unat ms \<le> 4000"
      using ms(2) by (simp add: MAX_CORRECTION_SCHEDULE_MS_def word_le_nat_alt)
    then have "unat t = unat ms + 1000"
      using ms(1) unat_saturating_add [of ms TRANSACTION_BACKEND_GRACE_MS] by (simp add: TRANSACTION_BACKEND_GRACE_MS_def)
    with \<open>unat ms \<le> 4000\<close> show ?thesis
      by (simp add: word_le_nat_alt MAX_TRANSACTION_TIMEOUT_MS_def TRANSACTION_BACKEND_GRACE_MS_def)
  qed
  show ?thesis
    using assms correction
    by (cases kind) (auto simp: MAX_TRANSACTION_TIMEOUT_MS_def TRANSACTION_BACKEND_GRACE_MS_def
        DEFERRED_FORWARD_TRANSACTION_TIMEOUT_MS_def SHORTCUT_TRANSACTION_TIMEOUT_MS_def)
qed

lemma execution_timeout_bounded_witness:
  "execution_timeout (CopyShortcut ()) = Inr 1000 \<and> (1000 :: u64) \<le> MAX_TRANSACTION_TIMEOUT_MS"
proof -
  have "execution_timeout (CopyShortcut ()) = Inr 1000"
    by (simp add: SHORTCUT_TRANSACTION_TIMEOUT_MS_def)
  with execution_timeout_bounded [OF this] show ?thesis by simp
qed

text \<open>Identifiers are never zero, so a failed writer can be told from a running one.\<close>

lemma next_request_id_nonzero: "fst (take_next_nonzero_request_id next) \<noteq> 0"
  by (simp add: take_next_nonzero_request_id_def)

end
