(* ===== verification/Modifier_State.thy ===== *)
theory Modifier_State
  imports Input_Keys Hotkeys Switch_Logic Synthetic_Ledgers
begin

text \<open>
  The modifiers the user holds, as src/src/daemon/keyboard.rs follows them from the physical events:
  \<open>ModifierState\<close> with its encoding in the one byte that the threads share, the recognition of the
  layout-switch combination and of focus switches, the classification of keys, and what of the
  modifiers a synthetic operation freezes.
\<close>

unbundle bit_operations_syntax

subsection \<open>State\<close>

record modifier_state =
  left_ctrl :: bool
  right_ctrl :: bool
  left_shift :: bool
  right_shift :: bool
  left_alt :: bool
  right_alt :: bool
  left_meta :: bool
  right_meta :: bool
  ms_caps_lock_active :: bool

definition modifier_state_default :: modifier_state where
  "modifier_state_default =
     \<lparr>left_ctrl = False, right_ctrl = False, left_shift = False, right_shift = False, left_alt = False,
      right_alt = False, left_meta = False, right_meta = False, ms_caps_lock_active = False\<rparr>"

definition modifier_update :: "key \<Rightarrow> int \<Rightarrow> modifier_state \<Rightarrow> modifier_state" where
  "modifier_update key value m =
     (let pressed = (value = 1 \<or> value = 2) in
      if key = KEY_LEFTCTRL then m\<lparr>left_ctrl := pressed\<rparr>
      else if key = KEY_RIGHTCTRL then m\<lparr>right_ctrl := pressed\<rparr>
      else if key = KEY_LEFTSHIFT then m\<lparr>left_shift := pressed\<rparr>
      else if key = KEY_RIGHTSHIFT then m\<lparr>right_shift := pressed\<rparr>
      else if key = KEY_LEFTALT then m\<lparr>left_alt := pressed\<rparr>
      else if key = KEY_RIGHTALT then m\<lparr>right_alt := pressed\<rparr>
      else if key = KEY_LEFTMETA then m\<lparr>left_meta := pressed\<rparr>
      else if key = KEY_RIGHTMETA then m\<lparr>right_meta := pressed\<rparr>
      else if key = KEY_CAPSLOCK \<and> value = 1 then m\<lparr>ms_caps_lock_active := \<not> ms_caps_lock_active m\<rparr>
      else m)"

definition set_caps_lock_active :: "bool \<Rightarrow> modifier_state \<Rightarrow> modifier_state" where
  "set_caps_lock_active active m = m\<lparr>ms_caps_lock_active := active\<rparr>"

definition is_shift_pressed :: "modifier_state \<Rightarrow> bool" where
  "is_shift_pressed m \<longleftrightarrow> left_shift m \<or> right_shift m"

definition is_ctrl_pressed :: "modifier_state \<Rightarrow> bool" where
  "is_ctrl_pressed m \<longleftrightarrow> left_ctrl m \<or> right_ctrl m"

definition is_alt_pressed :: "modifier_state \<Rightarrow> bool" where
  "is_alt_pressed m \<longleftrightarrow> left_alt m \<or> right_alt m"

definition is_meta_pressed :: "modifier_state \<Rightarrow> bool" where
  "is_meta_pressed m \<longleftrightarrow> left_meta m \<or> right_meta m"

subsection \<open>Combinations\<close>

fun combo_pressed :: "modifier_state \<Rightarrow> key \<Rightarrow> layout_switch_combo \<Rightarrow> bool" where
  "combo_pressed m key CtrlShift \<longleftrightarrow>
     key \<in> {KEY_LEFTCTRL, KEY_RIGHTCTRL, KEY_LEFTSHIFT, KEY_RIGHTSHIFT} \<and> is_ctrl_pressed m \<and> is_shift_pressed m"
| "combo_pressed m key AltShift \<longleftrightarrow>
     key \<in> {KEY_LEFTALT, KEY_RIGHTALT, KEY_LEFTSHIFT, KEY_RIGHTSHIFT} \<and> is_alt_pressed m \<and> is_shift_pressed m"
| "combo_pressed m key CapsLock \<longleftrightarrow> key = KEY_CAPSLOCK"
| "combo_pressed m key CtrlSpace \<longleftrightarrow> key = KEY_SPACE \<and> is_ctrl_pressed m"
| "combo_pressed m key SuperSpace \<longleftrightarrow> key = KEY_SPACE \<and> is_meta_pressed m"
| "combo_pressed m key LeftCtrlLeftShift \<longleftrightarrow>
     key \<in> {KEY_LEFTCTRL, KEY_LEFTSHIFT} \<and> left_ctrl m \<and> left_shift m"
| "combo_pressed m key RightCtrlRightShift \<longleftrightarrow>
     key \<in> {KEY_RIGHTCTRL, KEY_RIGHTSHIFT} \<and> right_ctrl m \<and> right_shift m"
| "combo_pressed m key LeftAltLeftShift \<longleftrightarrow>
     key \<in> {KEY_LEFTALT, KEY_LEFTSHIFT} \<and> left_alt m \<and> left_shift m"
| "combo_pressed m key RightAltRightShift \<longleftrightarrow>
     key \<in> {KEY_RIGHTALT, KEY_RIGHTSHIFT} \<and> right_alt m \<and> right_shift m"

definition matches_layout_switch_combo ::
  "modifier_state \<Rightarrow> layout_switch_combo \<Rightarrow> key \<Rightarrow> int \<Rightarrow> bool" where
  "matches_layout_switch_combo m combo key value \<longleftrightarrow> value = 1 \<and> combo_pressed m key combo"

fun keeps_layout_switch_combo_active :: "modifier_state \<Rightarrow> layout_switch_combo \<Rightarrow> bool" where
  "keeps_layout_switch_combo_active m CtrlShift \<longleftrightarrow> is_ctrl_pressed m \<and> is_shift_pressed m"
| "keeps_layout_switch_combo_active m AltShift \<longleftrightarrow> is_alt_pressed m \<and> is_shift_pressed m"
| "keeps_layout_switch_combo_active m CapsLock \<longleftrightarrow> False"
| "keeps_layout_switch_combo_active m CtrlSpace \<longleftrightarrow> is_ctrl_pressed m"
| "keeps_layout_switch_combo_active m SuperSpace \<longleftrightarrow> is_meta_pressed m"
| "keeps_layout_switch_combo_active m LeftCtrlLeftShift \<longleftrightarrow> left_ctrl m \<and> left_shift m"
| "keeps_layout_switch_combo_active m RightCtrlRightShift \<longleftrightarrow> right_ctrl m \<and> right_shift m"
| "keeps_layout_switch_combo_active m LeftAltLeftShift \<longleftrightarrow> left_alt m \<and> left_shift m"
| "keeps_layout_switch_combo_active m RightAltRightShift \<longleftrightarrow> right_alt m \<and> right_shift m"

definition synthetic_layout_combo_sequence :: "layout_switch_combo \<Rightarrow> key list \<times> key option" where
  "synthetic_layout_combo_sequence combo =
     (case combo of
        CtrlShift \<Rightarrow> ([KEY_LEFTCTRL, KEY_LEFTSHIFT], None)
      | AltShift \<Rightarrow> ([KEY_LEFTALT, KEY_LEFTSHIFT], None)
      | CtrlSpace \<Rightarrow> ([KEY_LEFTCTRL], Some KEY_SPACE)
      | SuperSpace \<Rightarrow> ([KEY_LEFTMETA], Some KEY_SPACE)
      | LeftCtrlLeftShift \<Rightarrow> ([KEY_LEFTCTRL, KEY_LEFTSHIFT], None)
      | RightCtrlRightShift \<Rightarrow> ([KEY_RIGHTCTRL, KEY_RIGHTSHIFT], None)
      | LeftAltLeftShift \<Rightarrow> ([KEY_LEFTALT, KEY_LEFTSHIFT], None)
      | RightAltRightShift \<Rightarrow> ([KEY_RIGHTALT, KEY_RIGHTSHIFT], None)
      | CapsLock \<Rightarrow> ([KEY_CAPSLOCK], None))"

definition is_focus_switch_shortcut :: "modifier_state \<Rightarrow> key \<Rightarrow> int \<Rightarrow> bool" where
  "is_focus_switch_shortcut m key value \<longleftrightarrow>
     \<not> (value \<noteq> 1 \<or> key \<noteq> KEY_TAB \<or> is_ctrl_pressed m) \<and>
     (is_alt_pressed m \<and> \<not> is_meta_pressed m \<or> is_meta_pressed m \<and> \<not> is_alt_pressed m)"

subsection \<open>The shared byte\<close>

definition bit_at :: "bool \<Rightarrow> nat \<Rightarrow> u8" where
  "bit_at b n = push_bit n (if b then 1 else 0)"

definition to_bits :: "modifier_state \<Rightarrow> u8" where
  "to_bits m =
     bit_at (left_ctrl m) 0 OR bit_at (right_ctrl m) 1 OR bit_at (left_shift m) 2 OR
     bit_at (right_shift m) 3 OR bit_at (left_alt m) 4 OR bit_at (right_alt m) 5 OR
     bit_at (left_meta m) 6 OR bit_at (right_meta m) 7"

definition from_bits :: "u8 \<Rightarrow> modifier_state" where
  "from_bits bits =
     \<lparr>left_ctrl = (bits AND 1 \<noteq> 0), right_ctrl = (bits AND 2 \<noteq> 0), left_shift = (bits AND 4 \<noteq> 0),
      right_shift = (bits AND 8 \<noteq> 0), left_alt = (bits AND 16 \<noteq> 0), right_alt = (bits AND 32 \<noteq> 0),
      left_meta = (bits AND 64 \<noteq> 0), right_meta = (bits AND 128 \<noteq> 0), ms_caps_lock_active = False\<rparr>"

text \<open>\<open>SharedModifierState\<close> is one atomic byte.\<close>

type_synonym shared_modifier_state = u8

definition shared_store :: "modifier_state \<Rightarrow> shared_modifier_state \<Rightarrow> shared_modifier_state" where
  "shared_store m bits = to_bits m"

definition shared_snapshot :: "shared_modifier_state \<Rightarrow> modifier_state" where
  "shared_snapshot bits = from_bits bits"

subsection \<open>Kinds of keys\<close>

definition is_modifier :: "key \<Rightarrow> bool" where
  "is_modifier key \<longleftrightarrow>
     key \<in> {KEY_LEFTCTRL, KEY_RIGHTCTRL, KEY_LEFTSHIFT, KEY_RIGHTSHIFT, KEY_LEFTALT, KEY_RIGHTALT,
       KEY_LEFTMETA, KEY_RIGHTMETA, KEY_CAPSLOCK}"

definition is_character :: "key \<Rightarrow> bool" where
  "is_character key \<longleftrightarrow>
     KEY_1 \<le> key \<and> key \<le> KEY_EQUAL \<or> KEY_Q \<le> key \<and> key \<le> KEY_RIGHTBRACE \<or>
     KEY_A \<le> key \<and> key \<le> KEY_GRAVE \<or> KEY_BACKSLASH \<le> key \<and> key \<le> KEY_SLASH"

fun hotkey_trigger_to_evdev_key :: "hotkey_trigger \<Rightarrow> key" where
  "hotkey_trigger_to_evdev_key F9 = KEY_F9"
| "hotkey_trigger_to_evdev_key F10 = KEY_F10"
| "hotkey_trigger_to_evdev_key F12 = KEY_F12"
| "hotkey_trigger_to_evdev_key Pause = KEY_PAUSE"
| "hotkey_trigger_to_evdev_key ScrollLock = KEY_SCROLLLOCK"
| "hotkey_trigger_to_evdev_key Insert = KEY_INSERT"
| "hotkey_trigger_to_evdev_key Menu = KEY_MENU"

definition CASE_SENSITIVE_LETTER_KEYS :: "key list" where
  "CASE_SENSITIVE_LETTER_KEYS =
     [KEY_A, KEY_B, KEY_C, KEY_D, KEY_E, KEY_F, KEY_G, KEY_H, KEY_I, KEY_J, KEY_K, KEY_L, KEY_M, KEY_N,
      KEY_O, KEY_P, KEY_Q, KEY_R, KEY_S, KEY_T, KEY_U, KEY_V, KEY_W, KEY_X, KEY_Y, KEY_Z, KEY_GRAVE,
      KEY_LEFTBRACE, KEY_RIGHTBRACE, KEY_SEMICOLON, KEY_APOSTROPHE, KEY_COMMA, KEY_DOT]"

definition is_case_sensitive_letter_key :: "key \<Rightarrow> bool" where
  "is_case_sensitive_letter_key key \<longleftrightarrow> key \<in> set CASE_SENSITIVE_LETTER_KEYS"

definition replay_shift_for_stroke :: "keystroke \<Rightarrow> bool \<Rightarrow> bool" where
  "replay_shift_for_stroke stroke caps_lock \<longleftrightarrow>
     (if is_case_sensitive_letter_key (ks_key stroke) then ks_shift stroke \<noteq> caps_lock else ks_shift stroke)"

definition pressed_uinput_modifier_evdev_keys :: "modifier_state \<Rightarrow> key list" where
  "pressed_uinput_modifier_evdev_keys m =
     (if left_shift m then [KEY_LEFTSHIFT] else []) @ (if right_shift m then [KEY_RIGHTSHIFT] else []) @
     (if left_ctrl m then [KEY_LEFTCTRL] else []) @ (if right_ctrl m then [KEY_RIGHTCTRL] else []) @
     (if left_alt m then [KEY_LEFTALT] else []) @ (if right_alt m then [KEY_RIGHTALT] else []) @
     (if left_meta m then [KEY_LEFTMETA] else []) @ (if right_meta m then [KEY_RIGHTMETA] else [])"

subsection \<open>Properties\<close>

lemma to_bits_bit:
  "bit (to_bits m) n \<longleftrightarrow> n < 8 \<and>
     [left_ctrl m, right_ctrl m, left_shift m, right_shift m, left_alt m, right_alt m, left_meta m, right_meta m] ! n"
proof -
  have b: "bit (bit_at b k) n \<longleftrightarrow> n = k \<and> k < 8 \<and> b" for b k
    by (cases b) (auto simp: bit_at_def bit_exp_iff)
  show ?thesis
    unfolding to_bits_def bit_or_iff b by (auto simp: nth_Cons split: nat.splits)
qed

lemma and_power_iff: "bits AND 2 ^ n \<noteq> 0 \<longleftrightarrow> bit bits n" if "n < 8" for bits :: u8
proof -
  have "bits AND 2 ^ n = (if bit bits n then 2 ^ n else 0)"
    by (rule bit_eqI) (auto simp: bit_and_iff bit_exp_iff)
  moreover have "(2 :: u8) ^ n \<noteq> 0" using that by (simp add: exp_eq_zero_iff)
  ultimately show ?thesis by simp
qed

lemma from_bits_bit:
  "from_bits bits =
     \<lparr>left_ctrl = bit bits 0, right_ctrl = bit bits 1, left_shift = bit bits 2, right_shift = bit bits 3,
      left_alt = bit bits 4, right_alt = bit bits 5, left_meta = bit bits 6, right_meta = bit bits 7,
      ms_caps_lock_active = False\<rparr>"
  using and_power_iff [of 0 bits] and_power_iff [of 1 bits] and_power_iff [of 2 bits] and_power_iff [of 3 bits]
    and_power_iff [of 4 bits] and_power_iff [of 5 bits] and_power_iff [of 6 bits] and_power_iff [of 7 bits]
  by (simp add: from_bits_def)

text \<open>
  The byte that the threads share carries the eight modifiers and nothing else: what is stored is
  read back except for the Caps Lock state, and every byte is the encoding of the state read from it.
\<close>

theorem shared_modifiers_roundtrip:
  "shared_snapshot (shared_store m bits) = m\<lparr>ms_caps_lock_active := False\<rparr> \<and>
   shared_store (shared_snapshot byte) bits = byte"
proof
  show "shared_snapshot (shared_store m bits) = m\<lparr>ms_caps_lock_active := False\<rparr>"
    by (cases m) (simp add: shared_snapshot_def shared_store_def from_bits_bit to_bits_bit)
  show "shared_store (shared_snapshot byte) bits = byte"
  proof (rule bit_eqI)
    fix n
    assume n: "possible_bit TYPE(u8) n"
    then have "n \<in> {0, 1, 2, 3, 4, 5, 6, 7}" by (auto simp: possible_bit_def)
    then show "bit (shared_store (shared_snapshot byte) bits) n = bit byte n"
      by (auto simp: shared_snapshot_def shared_store_def from_bits_bit to_bits_bit)
  qed
qed

text \<open>The keys that are down after a sequence of events, by their last event.\<close>

fun keys_down :: "key set \<Rightarrow> (key \<times> int) list \<Rightarrow> key set" where
  "keys_down S [] = S"
| "keys_down S ((key, value) # events) =
     keys_down (if value = 1 \<or> value = 2 then insert key S else S - {key}) events"

abbreviation follow :: "modifier_state \<Rightarrow> (key \<times> int) list \<Rightarrow> modifier_state" where
  "follow \<equiv> foldl (\<lambda>m (key, value). modifier_update key value m)"

lemma pressed_keys_update:
  "set (pressed_uinput_modifier_evdev_keys (modifier_update key value m)) =
     (if key \<in> set MODIFIER_KEYS
      then if value = 1 \<or> value = 2 then insert key (set (pressed_uinput_modifier_evdev_keys m))
           else set (pressed_uinput_modifier_evdev_keys m) - {key}
      else set (pressed_uinput_modifier_evdev_keys m))"
  by (auto simp: modifier_update_def Let_def pressed_uinput_modifier_evdev_keys_def MODIFIER_KEYS_def)

lemma pressed_keys_follow:
  "set (pressed_uinput_modifier_evdev_keys m) = S \<inter> set MODIFIER_KEYS \<Longrightarrow>
   set (pressed_uinput_modifier_evdev_keys (follow m events)) = keys_down S events \<inter> set MODIFIER_KEYS"
proof (induction events arbitrary: m S)
  case (Cons e events)
  obtain key v where e: "e = (key, v)" by force
  let ?S = "if v = 1 \<or> v = 2 then insert key S else S - {key}"
  have "set (pressed_uinput_modifier_evdev_keys (modifier_update key v m)) = ?S \<inter> set MODIFIER_KEYS"
    unfolding pressed_keys_update Cons.prems by auto
  from Cons.IH [OF this] show ?case by (simp add: e)
qed simp

lemma pressed_keys_modifiers: "set (pressed_uinput_modifier_evdev_keys m) \<subseteq> set MODIFIER_KEYS"
  by (auto simp: pressed_uinput_modifier_evdev_keys_def MODIFIER_KEYS_def)

lemma pressed_keys_distinct: "distinct (pressed_uinput_modifier_evdev_keys m)"
  by (simp add: pressed_uinput_modifier_evdev_keys_def)

text \<open>
  C33: the modifiers are well typed for freezing.  After any physical events, the keys listed as
  pressed are distinct and are exactly the modifiers whose last event was a press, so that the frozen
  snapshot of an operation can always be taken and holds precisely these keys.
\<close>

theorem followed_modifiers_freeze:
  "distinct (pressed_uinput_modifier_evdev_keys (follow modifier_state_default events)) \<and>
   (\<exists>frozen. from_pressed_modifiers (pressed_uinput_modifier_evdev_keys (follow modifier_state_default events)) caps = Inr frozen \<and>
      caps_lock_active frozen = caps \<and>
      (\<forall>k. holds_modifier frozen k \<longleftrightarrow> k \<in> keys_down {} events \<inter> set MODIFIER_KEYS))"
proof
  let ?keys = "pressed_uinput_modifier_evdev_keys (follow modifier_state_default events)"
  have keys: "set ?keys = keys_down {} events \<inter> set MODIFIER_KEYS"
    by (rule pressed_keys_follow) (simp add: pressed_uinput_modifier_evdev_keys_def modifier_state_default_def)
  show "distinct ?keys" by (rule pressed_keys_distinct)
  show "\<exists>frozen. from_pressed_modifiers ?keys caps = Inr frozen \<and> caps_lock_active frozen = caps \<and>
      (\<forall>k. holds_modifier frozen k \<longleftrightarrow> k \<in> keys_down {} events \<inter> set MODIFIER_KEYS)"
    using frozen_snapshot_exact [of ?keys caps] pressed_keys_modifiers keys by (auto split: sum.splits)
qed

text \<open>
  The combination the daemon presses is one it would recognise: typed from a state without modifiers,
  it matches at its last key and at no key before.
\<close>

lemma replayed_combo_recognised:
  "case synthetic_layout_combo_sequence combo of (mods, trigger) \<Rightarrow>
   let keys = mods @ (case trigger of None \<Rightarrow> [] | Some k \<Rightarrow> [k]) in
   map (\<lambda>i. matches_layout_switch_combo
          (follow modifier_state_default (map (\<lambda>k. (k, 1)) (take (Suc i) keys))) combo (keys ! i) 1)
     [0 ..< length keys] = replicate (length keys - 1) False @ [True]"
  by (cases combo)
    (simp_all add: synthetic_layout_combo_sequence_def matches_layout_switch_combo_def modifier_update_def Let_def
      modifier_state_default_def is_ctrl_pressed_def is_shift_pressed_def is_alt_pressed_def is_meta_pressed_def upt_rec)

end
