(* ===== verification/Correction_Replay.thy ===== *)
theory Correction_Replay
  imports Modifier_State Writer_Transaction Uinput_Synthetic
begin

text \<open>
  Replaying a correction on the uinput device: the part of src/src/daemon/keyboard.rs that turns a
  correction plan into key events (\<open>run_correction\<close> and what it calls), the shortcuts it sends, and
  the layout switchers of src/src/daemon/layout_switcher.rs.

  A replay works on the synthetic operation, on the transaction that asked for it, if any, and on the
  X server (\<open>'x\<close>).  The transaction lives in memory that other threads change: before each look the
  other threads do something and time passes, both given by a sequence of moments.  A sleep lasts at
  least as long as it was asked to, as the standard library promises.  Time is in nanoseconds.  The
  debug log is left out.
\<close>

subsection \<open>The transaction as the writer thread sees it\<close>

record tx_moment =
  tm_others :: "writer_shared \<times> writer_control \<Rightarrow> writer_shared \<times> writer_control"
  tm_before :: session_view
  tm_after :: session_view
  tm_delay :: nat

text \<open>\<open>tx_reads\<close> is what the loads of the operation's own control see, in their order.\<close>

record tx_world =
  tx_lease :: session_lease
  tx_memory :: "writer_shared \<times> writer_control"
  tx_time :: nat
  tx_moments :: "nat \<Rightarrow> tx_moment"
  tx_looks :: nat
  tx_reads :: "nat \<Rightarrow> (writer_shared \<times> writer_control) \<times> nat"

definition next_moment :: "tx_world \<Rightarrow> tx_moment" where
  "next_moment w = tx_moments w (tx_looks w)"

definition pass :: "tx_world \<Rightarrow> tx_world" where
  "pass w = w\<lparr>tx_memory := tm_others (next_moment w) (tx_memory w), tx_time := tx_time w + tm_delay (next_moment w),
     tx_looks := Suc (tx_looks w)\<rparr>"

definition look ::
  "(session_view \<Rightarrow> session_view \<Rightarrow> nat \<Rightarrow> writer_shared \<times> writer_control \<Rightarrow> 'a \<times> writer_shared \<times> writer_control) \<Rightarrow>
   tx_world \<Rightarrow> 'a \<times> tx_world" where
  "look f w =
     (case f (tm_before (next_moment w)) (tm_after (next_moment w)) (tx_time (pass w)) (tx_memory (pass w)) of
        (r, memory) \<Rightarrow> (r, (pass w)\<lparr>tx_memory := memory\<rparr>))"

definition on_transaction ::
  "(tx_world \<Rightarrow> unit res \<times> tx_world) \<Rightarrow> tx_world option \<Rightarrow> unit res \<times> tx_world option" where
  "on_transaction f control =
     (case control of
        Some w \<Rightarrow> (case f w of (r, w) \<Rightarrow> (r, Some w))
      | None \<Rightarrow> (Inr (), None))"

definition ensure_transaction_active :: "tx_world option \<Rightarrow> unit res \<times> tx_world option" where
  "ensure_transaction_active =
     on_transaction (\<lambda>w. look (Writer_Transaction.ensure_active (tx_lease w)) w)"

definition authorize_transaction_mutation :: "tx_world option \<Rightarrow> unit res \<times> tx_world option" where
  "authorize_transaction_mutation =
     on_transaction (\<lambda>w. look (authorize_mutation_start (tx_lease w)) w)"

lemma look_time: "look f w = (r, w') \<Longrightarrow> tx_time w' = tx_time (pass w)"
  by (auto simp: look_def split: prod.splits)

lemma pass_time: "tx_time w \<le> tx_time (pass w)"
  by (simp add: pass_def)

function sleep_loop :: "nat \<Rightarrow> tx_world \<Rightarrow> unit res \<times> tx_world" where
  "sleep_loop sleep_deadline w =
     (case look (Writer_Transaction.ensure_active (tx_lease w)) w of
        (Inl e, w) \<Rightarrow> (Inl e, w)
      | (Inr _, w1) \<Rightarrow>
          let w2 = pass w1; now = tx_time w2 in
          if sleep_deadline \<le> now then (Inr (), w2)
          else
            let step = min (min (sleep_deadline - now) (wt_deadline (snd (tx_memory w2)) - now))
                         TRANSACTION_SLEEP_QUANTUM in
            if step = 0
            then (case look (\<lambda>_ _ _. mark_timed_out) w2 of (e, w) \<Rightarrow> (Inl e, w))
            else sleep_loop sleep_deadline (w2\<lparr>tx_time := now + step\<rparr>))"
  by pat_completeness auto
termination
proof (relation "measure (\<lambda>(d, w). d - tx_time w)", simp, goal_cases)
  case (1 d w x w1 u w2 now step)
  then have "look (Writer_Transaction.ensure_active (tx_lease w)) w = (Inr u, w1)" by simp
  from look_time [OF this] pass_time [of w] pass_time [of w1] have "tx_time w \<le> now" using 1 by simp
  moreover have "0 < step" "\<not> d \<le> now" using 1 by simp_all
  ultimately have "d - (now + step) < d - tx_time w" by linarith
  then show ?case by simp
qed

declare sleep_loop.simps [simp del]

definition sleep_interruptibly :: "nat \<Rightarrow> tx_world \<Rightarrow> unit res \<times> tx_world" where
  "sleep_interruptibly duration w = (let w = pass w in sleep_loop (tx_time w + duration) w)"

definition sleep_for_transaction :: "nat \<Rightarrow> tx_world option \<Rightarrow> unit res \<times> tx_world option" where
  "sleep_for_transaction duration = on_transaction (sleep_interruptibly duration)"

definition from_millis :: "nat \<Rightarrow> nat" where
  "from_millis ms = ms * 1000000"

definition MODIFIER_SYNC_DELAY_MS :: nat where "MODIFIER_SYNC_DELAY_MS = 20"
definition LAYOUT_SWITCH_DELAY_MS :: nat where "LAYOUT_SWITCH_DELAY_MS = 20"

text \<open>
  The control of the operation reads the same memory.  A run without a transaction has a deadline of
  its own and is cancelled by nobody.
\<close>

definition synthetic_operation_control :: "nat \<Rightarrow> (nat \<Rightarrow> nat) \<Rightarrow> tx_world option \<Rightarrow> operation_control" where
  "synthetic_operation_control now clock control =
     (case control of
        Some w \<Rightarrow>
          \<lparr>ctl_deadline = wt_deadline (snd (tx_memory w)),
           ctl_observe = (\<lambda>n. case tx_reads w n of ((sh, c), t) \<Rightarrow>
             \<lparr>obs_cancelled = wt_soft_cancel c, obs_additional = [ws_stop_requested sh],
              obs_failures = [ws_failure_request_id sh], obs_now = t\<rparr>),
           ctl_reads = 0,
           restore_down_authorizer = (\<lambda>n _. case tx_reads w n of (memory, t) \<Rightarrow>
             fst (authorize_cleanup_mutation_start t memory))\<rparr>
      | None \<Rightarrow>
          \<lparr>ctl_deadline = now + from_millis (unat SHORTCUT_TRANSACTION_TIMEOUT_MS),
           ctl_observe = (\<lambda>n. \<lparr>obs_cancelled = False, obs_additional = [], obs_failures = [], obs_now = clock n\<rparr>),
           ctl_reads = 0, restore_down_authorizer = (\<lambda>_ _. Inr ())\<rparr>)"

subsection \<open>The state of a replay\<close>

type_synonym ('w, 't, 'x) replay_state = "('w, 't) operation \<times> tx_world option \<times> 'x"

definition on_operation ::
  "(('w, 't) operation \<Rightarrow> 'a \<times> ('w, 't) operation) \<Rightarrow> ('w, 't, 'x) replay_state \<Rightarrow> 'a \<times> ('w, 't, 'x) replay_state" where
  "on_operation f s = (case s of (op, rest) \<Rightarrow> case f op of (r, op) \<Rightarrow> (r, op, rest))"

definition on_tx ::
  "(tx_world option \<Rightarrow> 'a \<times> tx_world option) \<Rightarrow> ('w, 't, 'x) replay_state \<Rightarrow> 'a \<times> ('w, 't, 'x) replay_state" where
  "on_tx f s = (case s of (op, control, x) \<Rightarrow> case f control of (r, control) \<Rightarrow> (r, op, control, x))"

definition on_x11 :: "('x \<Rightarrow> 'a \<times> 'x) \<Rightarrow> ('w, 't, 'x) replay_state \<Rightarrow> 'a \<times> ('w, 't, 'x) replay_state" where
  "on_x11 f s = (case s of (op, control, x) \<Rightarrow> case f x of (r, x) \<Rightarrow> (r, op, control, x))"

abbreviation authorize :: "('w, 't, 'x) replay_state \<Rightarrow> unit res \<times> ('w, 't, 'x) replay_state" where
  "authorize \<equiv> on_tx authorize_transaction_mutation"

abbreviation active :: "('w, 't, 'x) replay_state \<Rightarrow> unit res \<times> ('w, 't, 'x) replay_state" where
  "active \<equiv> on_tx ensure_transaction_active"

abbreviation sleep :: "nat \<Rightarrow> ('w, 't, 'x) replay_state \<Rightarrow> unit res \<times> ('w, 't, 'x) replay_state" where
  "sleep duration \<equiv> on_tx (sleep_for_transaction duration)"

subsection \<open>Strokes\<close>

fun release_presses_loop ::
  "('w, 't) key_sink \<Rightarrow> u64 list \<Rightarrow> switcher_error option \<Rightarrow> ('w, 't) operation \<Rightarrow>
   switcher_error option \<times> ('w, 't) operation" where
  "release_presses_loop sink [] first_error op = (first_error, op)"
| "release_presses_loop sink (pid # pids) first_error op =
     (case release sink op pid of (r, op) \<Rightarrow>
      release_presses_loop sink pids (keep_first_error first_error r) op)"

definition release_synthetic_presses ::
  "('w, 't) key_sink \<Rightarrow> u64 list \<Rightarrow> ('w, 't) operation \<Rightarrow> unit res \<times> ('w, 't) operation" where
  "release_synthetic_presses sink pressed op =
     (case release_presses_loop sink (rev pressed) None op of (first_error, op) \<Rightarrow>
      (first_error_result first_error, op))"

text \<open>On an error what is pressed is released, and the error of the release is ignored.\<close>

definition or_release ::
  "('w, 't) key_sink \<Rightarrow> u64 list \<Rightarrow> 'a res \<times> ('w, 't, 'x) replay_state \<Rightarrow> 'a res \<times> ('w, 't, 'x) replay_state" where
  "or_release sink pressed rs =
     (case rs of
        (Inl e, s) \<Rightarrow> (Inl e, snd (on_operation (release_synthetic_presses sink pressed) s))
      | (Inr a, s) \<Rightarrow> (Inr a, s))"

text \<open>The two halves of a stroke: Shift, if it is needed, and the key with all releases.\<close>

definition press_shift ::
  "('w, 't) key_sink \<Rightarrow> bool \<Rightarrow> ('w, 't, 'x) replay_state \<Rightarrow> u64 list res \<times> ('w, 't, 'x) replay_state" where
  "press_shift sink effective_shift s =
     (if effective_shift
      then then_st (authorize s) (\<lambda>_ s.
           then_st (on_operation (\<lambda>op. press sink op KEY_LEFTSHIFT) s) (\<lambda>shift s.
           then_st (or_release sink [shift] (sleep (from_millis 1) s)) (\<lambda>_ s. (Inr [shift], s))))
      else (Inr [], s))"

definition tap_key ::
  "('w, 't) key_sink \<Rightarrow> key \<Rightarrow> nat \<Rightarrow> u64 list \<Rightarrow> ('w, 't, 'x) replay_state \<Rightarrow> unit res \<times> ('w, 't, 'x) replay_state" where
  "tap_key sink key typing_delay pressed s =
     then_st (or_release sink pressed (authorize s)) (\<lambda>_ s.
     then_st (or_release sink pressed (on_operation (\<lambda>op. press sink op key) s)) (\<lambda>key_press s.
     case sleep (from_millis 2) s of (transition_wait, s) \<Rightarrow>
     case on_operation (release_synthetic_presses sink (pressed @ [key_press])) s of (release_result, s) \<Rightarrow>
     check transition_wait s (\<lambda>_.
     check release_result s (\<lambda>_.
     sleep typing_delay s))))"

definition replay_synthetic_stroke ::
  "('w, 't) key_sink \<Rightarrow> key \<Rightarrow> bool \<Rightarrow> nat \<Rightarrow> ('w, 't, 'x) replay_state \<Rightarrow> unit res \<times> ('w, 't, 'x) replay_state" where
  "replay_synthetic_stroke sink key effective_shift typing_delay s =
     then_st (press_shift sink effective_shift s) (\<lambda>pressed s. tap_key sink key typing_delay pressed s)"

fun replay_synthetic_backspaces ::
  "('w, 't) key_sink \<Rightarrow> nat \<Rightarrow> nat \<Rightarrow> ('w, 't, 'x) replay_state \<Rightarrow> unit res \<times> ('w, 't, 'x) replay_state" where
  "replay_synthetic_backspaces sink 0 backspace_delay s = (Inr (), s)"
| "replay_synthetic_backspaces sink (Suc count) backspace_delay s =
     then_st (replay_synthetic_stroke sink KEY_BACKSPACE False backspace_delay s) (\<lambda>_ s.
     replay_synthetic_backspaces sink count backspace_delay s)"

fun replay_buffer ::
  "('w, 't) key_sink \<Rightarrow> bool \<Rightarrow> nat \<Rightarrow> keystroke list \<Rightarrow> ('w, 't, 'x) replay_state \<Rightarrow>
   unit res \<times> ('w, 't, 'x) replay_state" where
  "replay_buffer sink caps_lock typing_delay [] s = (Inr (), s)"
| "replay_buffer sink caps_lock typing_delay (stroke # strokes) s =
     then_st (replay_synthetic_stroke sink (ks_key stroke) (replay_shift_for_stroke stroke caps_lock) typing_delay s) (\<lambda>_ s.
     replay_buffer sink caps_lock typing_delay strokes s)"

subsection \<open>Switching the layout\<close>

fun press_combo ::
  "('w, 't) key_sink \<Rightarrow> key list \<Rightarrow> u64 list \<Rightarrow> ('w, 't, 'x) replay_state \<Rightarrow>
   u64 list res \<times> ('w, 't, 'x) replay_state" where
  "press_combo sink [] pressed s = (Inr pressed, s)"
| "press_combo sink (key # keys) pressed s =
     then_st (or_release sink pressed (authorize s)) (\<lambda>_ s.
     then_st (or_release sink pressed (on_operation (\<lambda>op. press sink op key) s)) (\<lambda>pid s.
     press_combo sink keys (pressed @ [pid]) s))"

definition combo_keys :: "layout_switch_combo \<Rightarrow> key list" where
  "combo_keys combo =
     (case synthetic_layout_combo_sequence combo of (modifiers, trigger) \<Rightarrow>
      modifiers @ (case trigger of None \<Rightarrow> [] | Some key \<Rightarrow> [key]))"

definition replay_synthetic_layout_combo ::
  "('w, 't) key_sink \<Rightarrow> layout_switch_combo \<Rightarrow> nat \<Rightarrow> ('w, 't, 'x) replay_state \<Rightarrow>
   unit res \<times> ('w, 't, 'x) replay_state" where
  "replay_synthetic_layout_combo sink combo delay_ms s =
     then_st (press_combo sink (combo_keys combo) [] s) (\<lambda>pressed s.
     case sleep (from_millis delay_ms) s of (wait_result, s) \<Rightarrow>
     case on_operation (release_synthetic_presses sink pressed) s of (release_result, s) \<Rightarrow>
     check wait_result s (\<lambda>_. (release_result, s)))"

text \<open>\<open>switch_layout_with_hooks\<close> of a switcher that does not override it.\<close>

definition switch_uinput_with_hooks ::
  "('w, 't) key_sink \<Rightarrow> layout_switch_combo \<Rightarrow> nat \<Rightarrow> ('w, 't, 'x) replay_state \<Rightarrow>
   unit res \<times> ('w, 't, 'x) replay_state" where
  "switch_uinput_with_hooks sink combo delay_ms s =
     then_st (active s) (\<lambda>_ s.
     case replay_synthetic_layout_combo sink combo delay_ms s of (result, s) \<Rightarrow>
     case active s of (checkpoint_result, s) \<Rightarrow>
     check result s (\<lambda>_. (checkpoint_result, s)))"

record 'x xkb_calls =
  read_num_groups :: "'x \<Rightarrow> u8 res \<times> 'x"
  read_current_group :: "'x \<Rightarrow> u8 res \<times> 'x"
  latch_group :: "u8 \<Rightarrow> 'x \<Rightarrow> unit res \<times> 'x"

definition read_groups ::
  "'x xkb_calls \<Rightarrow> ('w, 't, 'x) replay_state \<Rightarrow> (u8 \<times> u8) res \<times> ('w, 't, 'x) replay_state" where
  "read_groups xkb s =
     then_st (active s) (\<lambda>_ s.
     then_st (on_x11 (read_num_groups xkb) s) (\<lambda>num_groups s.
     then_st (active s) (\<lambda>_ s.
     then_st (active s) (\<lambda>_ s.
     then_st (on_x11 (read_current_group xkb) s) (\<lambda>current_group s.
     then_st (active s) (\<lambda>_ s. (Inr (num_groups, current_group), s)))))))"

definition latch_and_check ::
  "'x xkb_calls \<Rightarrow> u8 \<Rightarrow> ('w, 't, 'x) replay_state \<Rightarrow> unit res \<times> ('w, 't, 'x) replay_state" where
  "latch_and_check xkb next_group s =
     (case on_x11 (latch_group xkb next_group) s of (result, s) \<Rightarrow>
      case active s of (checkpoint_result, s) \<Rightarrow>
      check result s (\<lambda>_. (checkpoint_result, s)))"

text \<open>The first result says whether the hooks authorized a mutation.\<close>

definition execute_x11_layout_switch ::
  "'x xkb_calls \<Rightarrow> ('w, 't, 'x) replay_state \<Rightarrow> bool \<times> unit res \<times> ('w, 't, 'x) replay_state" where
  "execute_x11_layout_switch xkb s =
     (case read_groups xkb s of
        (Inl e, s) \<Rightarrow> (False, Inl e, s)
      | (Inr (num_groups, current_group), s) \<Rightarrow>
          if num_groups \<le> 1 then (False, Inr (), s)
          else
            (case authorize s of
               (Inl e, s) \<Rightarrow> (False, Inl e, s)
             | (Inr _, s) \<Rightarrow> (True, latch_and_check xkb ((current_group + 1) mod num_groups) s)))"

datatype correction_layout_switch_outcome =
  NotNeeded | AppliedX11 | AppliedUinput | AppliedCinnamonXkbXtest

definition switch_layout_with_fallback ::
  "('w, 't) key_sink \<Rightarrow> 'x xkb_calls option \<Rightarrow> layout_switch_combo \<Rightarrow> nat \<Rightarrow> ('w, 't, 'x) replay_state \<Rightarrow>
   correction_layout_switch_outcome res \<times> ('w, 't, 'x) replay_state" where
  "switch_layout_with_fallback sink x11_switcher combo delay_ms s =
     then_st (active s) (\<lambda>_ s.
     let uinput = (\<lambda>s. then_st (active s) (\<lambda>_ s.
           then_st (switch_uinput_with_hooks sink combo delay_ms s) (\<lambda>_ s. (Inr AppliedUinput, s))))
     in case x11_switcher of
          None \<Rightarrow> uinput s
        | Some xkb \<Rightarrow>
            (case execute_x11_layout_switch xkb s of
               (_, Inr _, s) \<Rightarrow> (Inr AppliedX11, s)
             | (authorized, Inl e, s) \<Rightarrow> if authorized then (Inl e, s) else uinput s))"

subsection \<open>One synthetic operation on the device\<close>

fun temporarily_release_loop ::
  "'d raw_sink \<Rightarrow> key list \<Rightarrow> ('d uinput_runtime, uinput_token, 'x) replay_state \<Rightarrow>
   unit res \<times> ('d uinput_runtime, uinput_token, 'x) replay_state" where
  "temporarily_release_loop raw [] s = (Inr (), s)"
| "temporarily_release_loop raw (key # keys) s =
     then_st (authorize s) (\<lambda>_ s.
     let had_session_debt = session_contains (session_modifiers (op_sink (fst s))) key in
     case on_operation (\<lambda>op. temporarily_release_physical_modifier (uinput_sink raw) op key) s of (release_result, s) \<Rightarrow>
     then_st
       (if had_session_debt \<and> has_planned_modifier_restore (fst s) key
        then on_operation (on_sink (on_session (\<lambda>l. mark_temporarily_released l key))) s
        else (Inr (), s)) (\<lambda>_ s.
     check release_result s (\<lambda>_.
     temporarily_release_loop raw keys s)))"

definition temporarily_release_uinput_modifiers ::
  "'d raw_sink \<Rightarrow> key list \<Rightarrow> ('d uinput_runtime, uinput_token, 'x) replay_state \<Rightarrow>
   unit res \<times> ('d uinput_runtime, uinput_token, 'x) replay_state" where
  "temporarily_release_uinput_modifiers raw frozen_keys s =
     then_st (temporarily_release_loop raw (rev frozen_keys) s) (\<lambda>_ s.
     sleep (from_millis MODIFIER_SYNC_DELAY_MS) s)"

definition is_control_error :: "switcher_error \<Rightarrow> bool" where
  "is_control_error e =
     (case e of
        InputSafety (OperationCancelled _) \<Rightarrow> True
      | InputSafety (OperationTimedOut _) \<Rightarrow> True
      | _ \<Rightarrow> False)"

definition map_synthetic_control_error ::
  "switcher_error \<Rightarrow> tx_world option \<Rightarrow> switcher_error \<times> tx_world option" where
  "map_synthetic_control_error e control =
     (if is_control_error e
      then (case ensure_transaction_active control of
              (Inl writer_error, control) \<Rightarrow> (writer_error, control)
            | (Inr _, control) \<Rightarrow> (e, control))
      else (e, control))"

definition terminal_report_error :: "u64 \<Rightarrow> terminal_report \<Rightarrow> switcher_error" where
  "terminal_report_error operation_id report =
     (case tr_primary report of
        Some primary \<Rightarrow> primary
      | None \<Rightarrow>
          (case tr_cleanup report of
             Some cleanup \<Rightarrow> cleanup
           | None \<Rightarrow>
               (case tr_proof report of
                  Unreconciled remaining \<Rightarrow> InputSafety (Reconciliation operation_id remaining)
                | _ \<Rightarrow> input_safety ''synthetic operation published an invalid terminal report'')))"

definition is_matching_soft_cancel :: "switcher_error \<Rightarrow> tx_world option \<Rightarrow> bool" where
  "is_matching_soft_cancel e control =
     (case (e, control) of
        (VirtualKeyboardWriterTransactionCancelled request_id, Some w) \<Rightarrow>
          request_id = wt_request_id (snd (tx_memory w))
      | _ \<Rightarrow> False)"

text \<open>The end of an operation: the report, and the device as the operation leaves it.\<close>

definition release_device ::
  "('d uinput_runtime, uinput_token) operation \<Rightarrow> 'd uinput_runtime" where
  "release_device op = (op_sink op)\<lparr>ur_latch := op_latch op\<rparr>"

definition finish_execution ::
  "'d raw_sink \<Rightarrow> u64 \<Rightarrow> 'a res \<Rightarrow> ('d uinput_runtime, uinput_token, 'x) replay_state \<Rightarrow>
   'a res \<times> 'd uinput_runtime \<times> tx_world option \<times> 'x" where
  "finish_execution raw operation_id execution s =
     (case s of (op, control, x) \<Rightarrow>
      case execution of
        Inr value \<Rightarrow>
          (case finish_success (uinput_sink raw) uinput_target op of (report, op) \<Rightarrow>
           if tr_proof report = Reconciled \<and> tr_outcome report = Success
           then (Inr value, release_device op, control, x)
           else if tr_proof report = Reconciled \<and> tr_outcome report = SoftCancelled
           then (case map_synthetic_control_error (InputSafety (OperationCancelled operation_id)) control of
                   (e, control) \<Rightarrow> (Inl e, release_device op, control, x))
           else (Inl (terminal_report_error operation_id report), release_device op, control, x))
      | Inl e \<Rightarrow>
          if is_matching_soft_cancel e control
          then (case finish_soft_cancel (uinput_sink raw) uinput_target op of (report, op) \<Rightarrow>
                (Inl (if tr_outcome report = SoftCancelled \<and> tr_proof report = Reconciled then e
                      else terminal_report_error operation_id report), release_device op, control, x))
          else (case finish_hard_failure (uinput_sink raw) op e of (report, op) \<Rightarrow>
                (Inl (terminal_report_error operation_id report), release_device op, control, x)))"

definition run_uinput_synthetic_operation ::
  "'d raw_sink \<Rightarrow> u64 \<Rightarrow> operation_control \<Rightarrow> modifier_state \<Rightarrow> bool \<Rightarrow>
   (('d uinput_runtime, uinput_token, 'x) replay_state \<Rightarrow> 'a res \<times> ('d uinput_runtime, uinput_token, 'x) replay_state) \<Rightarrow>
   'd uinput_runtime \<times> tx_world option \<times> 'x \<Rightarrow> 'a res \<times> 'd uinput_runtime \<times> tx_world option \<times> 'x" where
  "run_uinput_synthetic_operation raw operation_id operation_control modifiers release_physical_modifiers execute s =
     (let frozen_keys = pressed_uinput_modifier_evdev_keys modifiers in
      check (from_pressed_modifiers frozen_keys (ms_caps_lock_active modifiers)) s (\<lambda>frozen_physical.
      case s of (rt, control, x) \<Rightarrow>
      let s = (operation_new operation_id rt operation_control frozen_physical (ur_latch rt), control, x) in
      case (if release_physical_modifiers
            then then_st (temporarily_release_uinput_modifiers raw frozen_keys s) (\<lambda>_ s. execute s)
            else execute s) of (execution, op, control, x) \<Rightarrow>
      case (case execution of
              Inl e \<Rightarrow> (case map_synthetic_control_error e control of (e, control) \<Rightarrow> (Inl e, control))
            | Inr v \<Rightarrow> (Inr v, control)) of (execution, control) \<Rightarrow>
      finish_execution raw operation_id execution (op, control, x)))"

subsection \<open>Shortcuts and corrections\<close>

fun press_keys ::
  "('w, 't) key_sink \<Rightarrow> key list \<Rightarrow> u64 list \<Rightarrow> ('w, 't, 'x) replay_state \<Rightarrow>
   u64 list res \<times> ('w, 't, 'x) replay_state" where
  "press_keys sink [] pressed s = (Inr pressed, s)"
| "press_keys sink (key # keys) pressed s =
     then_st (authorize s) (\<lambda>_ s.
     then_st (on_operation (\<lambda>op. press sink op key) s) (\<lambda>pid s.
     press_keys sink keys (pressed @ [pid]) s))"

definition shortcut_body ::
  "('w, 't) key_sink \<Rightarrow> key list \<Rightarrow> ('w, 't, 'x) replay_state \<Rightarrow> unit res \<times> ('w, 't, 'x) replay_state" where
  "shortcut_body sink keys s =
     then_st (press_keys sink keys [] s) (\<lambda>pressed s.
     case sleep (from_millis LAYOUT_SWITCH_DELAY_MS) s of (wait_result, s) \<Rightarrow>
     case on_operation (release_synthetic_presses sink pressed) s of (release_result, s) \<Rightarrow>
     check wait_result s (\<lambda>_. (release_result, s)))"

text \<open>A run without a transaction takes a fresh identifier.\<close>

definition operation_id_of :: "u64 \<Rightarrow> tx_world option \<Rightarrow> u64" where
  "operation_id_of fresh control = (case control of Some w \<Rightarrow> wt_request_id (snd (tx_memory w)) | None \<Rightarrow> fresh)"

definition run_uinput_shortcut ::
  "'d raw_sink \<Rightarrow> u64 \<Rightarrow> nat \<Rightarrow> (nat \<Rightarrow> nat) \<Rightarrow> modifier_state \<Rightarrow> key list \<Rightarrow> key option \<Rightarrow>
   'd uinput_runtime \<times> tx_world option \<times> 'x \<Rightarrow> unit res \<times> 'd uinput_runtime \<times> tx_world option \<times> 'x" where
  "run_uinput_shortcut raw fresh now clock modifiers shortcut_modifiers trigger s =
     (let control = fst (snd s) in
      run_uinput_synthetic_operation raw (operation_id_of fresh control)
        (synthetic_operation_control now clock control) modifiers True
        (shortcut_body (uinput_sink raw)
           (shortcut_modifiers @ (case trigger of None \<Rightarrow> [] | Some key \<Rightarrow> [key]))) s)"

definition switch_if_needed ::
  "('w, 't) key_sink \<Rightarrow> 'x xkb_calls option \<Rightarrow> runtime_config_snapshot \<Rightarrow> bool \<Rightarrow>
   ('w, 't, 'x) replay_state \<Rightarrow> correction_layout_switch_outcome res \<times> ('w, 't, 'x) replay_state" where
  "switch_if_needed sink x11_switcher config switch_layout s =
     (if switch_layout
      then then_st (active s) (\<lambda>_ s.
           then_st (switch_layout_with_fallback sink x11_switcher (rcs_layout_switch_combo config)
                      (unat (rcs_layout_delay_ms config)) s) (\<lambda>outcome s.
           then_st (active s) (\<lambda>_ s.
           then_st (sleep (from_millis (unat (rcs_layout_delay_ms config))) s) (\<lambda>_ s.
           (Inr outcome, s)))))
      else (Inr NotNeeded, s))"

definition correction_body ::
  "('w, 't) key_sink \<Rightarrow> 'x xkb_calls option \<Rightarrow> correction_plan \<Rightarrow> runtime_config_snapshot \<Rightarrow> bool \<Rightarrow> bool \<Rightarrow>
   ('w, 't, 'x) replay_state \<Rightarrow> correction_layout_switch_outcome res \<times> ('w, 't, 'x) replay_state" where
  "correction_body sink x11_switcher plan config caps_lock switch_layout s =
     then_st (replay_synthetic_backspaces sink (length (cp_buffer plan) + extra_backspaces plan)
                (from_millis (unat (rcs_backspace_ms config))) s) (\<lambda>_ s.
     then_st (switch_if_needed sink x11_switcher config switch_layout s) (\<lambda>layout_switch s.
     then_st (replay_buffer sink caps_lock (from_millis (unat (rcs_typing_ms config))) (cp_buffer plan) s) (\<lambda>_ s.
     (Inr layout_switch, s))))"

text \<open>
  The replay through the guardian is a part of its own; it is an argument here, with the X server and
  the connection to the guardian in \<open>'x\<close>.
\<close>

type_synonym 'x guardian_replay =
  "correction_plan \<Rightarrow> runtime_config_snapshot \<Rightarrow> modifier_state \<Rightarrow> tx_world option \<times> 'x \<Rightarrow>
   correction_layout_switch_outcome res \<times> tx_world option \<times> 'x"

definition run_correction ::
  "'d raw_sink \<Rightarrow> u64 \<Rightarrow> nat \<Rightarrow> (nat \<Rightarrow> nat) \<Rightarrow> 'x xkb_calls option \<Rightarrow> 'x guardian_replay option \<Rightarrow>
   correction_plan \<Rightarrow> runtime_config_snapshot \<Rightarrow> modifier_state \<Rightarrow> bool \<Rightarrow>
   'd uinput_runtime \<times> tx_world option \<times> 'x \<Rightarrow>
   correction_layout_switch_outcome res \<times> 'd uinput_runtime \<times> tx_world option \<times> 'x" where
  "run_correction raw fresh now clock x11_switcher cinnamon plan config modifiers switch_layout s =
     (case s of (rt, control, x) \<Rightarrow>
      case ensure_transaction_active control of
        (Inl e, control) \<Rightarrow> (Inl e, rt, control, x)
      | (Inr _, control) \<Rightarrow>
          (case if switch_layout then cinnamon else None of
             Some replay \<Rightarrow>
               (case replay plan config modifiers (control, x) of (r, control, x) \<Rightarrow> (r, rt, control, x))
           | None \<Rightarrow>
               run_uinput_synthetic_operation raw (operation_id_of fresh control)
                 (synthetic_operation_control now clock control) modifiers True
                 (correction_body (uinput_sink raw) x11_switcher plan config (ms_caps_lock_active modifiers) switch_layout)
                 (rt, control, x)))"

end
