(* ===== verification/Correction_Trace.thy ===== *)
theory Correction_Trace
  imports Correction_Replay
begin

text \<open>
  What a successful correction writes to the device, event by event.

  \<open>trace\<close> reads the key events off the state of a device that records what it was given; nothing is
  assumed about calls that fail.
\<close>

subsection \<open>Single steps\<close>

definition traced :: "'d raw_sink \<Rightarrow> ('d \<Rightarrow> (key \<times> int) list) \<Rightarrow> bool" where
  "traced raw trace \<longleftrightarrow>
     (\<forall>d k v d'. write_key raw d k v = (Inr (), d') \<longrightarrow> trace d' = trace d @ [(k, v)]) \<and>
     (\<forall>d d'. synchronize_keys raw d = (Inr (), d') \<longrightarrow> trace d' = trace d)"

text \<open>
  An operation with the history \<open>h\<close> on its device, the presses \<open>ds\<close> it still owes a release, nothing in
  the fallback, and the modifiers \<open>plan\<close> to be pressed again.
\<close>

definition op_at ::
  "('d \<Rightarrow> (key \<times> int) list) \<Rightarrow> (key \<times> int) list \<Rightarrow> (u64 \<times> key) list \<Rightarrow> key list \<Rightarrow>
   ('d uinput_runtime, uinput_token) operation \<Rightarrow> bool" where
  "op_at trace h ds plan op \<longleftrightarrow>
     trace (ur_raw (op_sink op)) = h \<and>
     map (\<lambda>d. (press_id d, ut_key (debt_token d))) (kl_debts (op_ledger op)) = ds \<and>
     key_ledger_inv (op_ledger op) \<and> release_only_fallback op = [] \<and> restore_plan op = plan"

named_theorems at_rules

lemma bind_iff: "(case p of (r, s) \<Rightarrow> f r s) = y \<longleftrightarrow> (\<exists>r s. p = (r, s) \<and> f r s = y)"
  by (cases p) simp

lemma sum_iff: "(case r of Inl e \<Rightarrow> f e | Inr a \<Rightarrow> g a) = y \<longleftrightarrow> (\<exists>e. r = Inl e \<and> f e = y) \<or> (\<exists>a. r = Inr a \<and> g a = y)"
  by (cases r) simp_all

lemma at_active [at_rules]:
  "Synthetic_Operation.ensure_active op = (r, op') \<Longrightarrow> op_at trace h ds plan op \<Longrightarrow> op_at trace h ds plan op'"
  "ensure_cleanup_active op = (r, op') \<Longrightarrow> op_at trace h ds plan op \<Longrightarrow> op_at trace h ds plan op'"
  by (auto simp: Synthetic_Operation.ensure_active_def ensure_cleanup_active_def op_at_def split: prod.splits)

lemma at_prepare [at_rules]:
  "on_sink (\<lambda>w. prepare_down (uinput_sink raw) w k) op = (Inr token, op') \<Longrightarrow> op_at trace h ds plan op \<Longrightarrow>
   op_at trace h ds plan op' \<and> ut_key token = k"
  by (auto simp: on_sink_def uinput_sink_def uinput_prepare_down_def Let_def op_at_def
      split: prod.splits if_splits option.splits)

lemma at_begin_down [at_rules]:
  "on_ledger (\<lambda>l. begin_down l token) op = (Inr pid, op') \<Longrightarrow> op_at trace h ds plan op \<Longrightarrow>
   op_at trace h (ds @ [(pid, ut_key token)]) plan op'"
  using begin_down_inv [of "op_ledger op" token]
  by (auto simp: on_ledger_def op_at_def begin_down_Inr split: prod.splits)

lemma at_mark [at_rules]:
  assumes "on_ledger (\<lambda>l. mark_possibly_down l pid) op = (Inr u, op')" "op_at trace h ds plan op"
  shows "op_at trace h ds plan op'"
proof -
  obtain i where i: "position (\<lambda>d. press_id d = pid) (kl_debts (op_ledger op)) = Some i"
    and op': "op' = op\<lparr>op_ledger := (op_ledger op)\<lparr>kl_debts := (kl_debts (op_ledger op))
      [i := (kl_debts (op_ledger op) ! i)\<lparr>debt_state := DownPossibly\<rparr>]\<rparr>\<rparr>"
    using assms(1) by (auto simp: on_ledger_def mark_possibly_down_def split: prod.splits option.splits)
  have "map (\<lambda>d. (press_id d, ut_key (debt_token d))) (kl_debts (op_ledger op')) =
      map (\<lambda>d. (press_id d, ut_key (debt_token d))) (kl_debts (op_ledger op))"
    using op' position_SomeD [OF i] by (intro nth_equalityI) (auto simp: nth_list_update)
  moreover have "key_ledger_inv (op_ledger op')"
    using mark_possibly_down_inv [of "op_ledger op" pid] assms(2) i op' by (simp add: op_at_def mark_possibly_down_def)
  ultimately show ?thesis using assms(2) op' by (simp add: op_at_def)
qed

lemma at_down [at_rules]:
  "on_sink (\<lambda>w. attempt_down (uinput_sink raw) w token) op = (Inr (), op') \<Longrightarrow> op_at trace h ds plan op \<Longrightarrow>
   traced raw trace \<Longrightarrow> op_at trace (h @ [(ut_key token, 1)]) ds plan op'"
  by (auto simp: traced_def on_sink_def uinput_sink_def uinput_attempt_down_def on_raw_def op_at_def split: prod.splits)

lemma at_up [at_rules]:
  "on_sink (\<lambda>w. attempt_up (uinput_sink raw) w token) op = (Inr (), op') \<Longrightarrow> op_at trace h ds plan op \<Longrightarrow>
   traced raw trace \<Longrightarrow> op_at trace (h @ [(ut_key token, 0)]) ds plan op'"
  by (auto simp: traced_def on_sink_def uinput_sink_def uinput_attempt_up_def on_raw_def op_at_def split: prod.splits)

lemma at_sync [at_rules]:
  "on_sink (sink_synchronize (uinput_sink raw)) op = (Inr (), op') \<Longrightarrow> op_at trace h ds plan op \<Longrightarrow>
   traced raw trace \<Longrightarrow> op_at trace h ds plan op'"
  by (auto simp: traced_def on_sink_def uinput_sink_def on_raw_def op_at_def split: prod.splits)

lemma at_acknowledge [at_rules]:
  assumes "on_ledger (\<lambda>l. acknowledge_up l pid) op = (Inr u, op')" "op_at trace h ds plan op"
  shows "op_at trace h (filter (\<lambda>d. fst d \<noteq> pid) ds) plan op'"
proof -
  obtain i where i: "position (\<lambda>d. press_id d = pid) (kl_debts (op_ledger op)) = Some i"
    and op': "op' = op\<lparr>op_ledger := (op_ledger op)\<lparr>kl_debts := remove_at i (kl_debts (op_ledger op))\<rparr>\<rparr>"
    using assms(1)
    by (cases "position (\<lambda>d. press_id d = pid) (kl_debts (op_ledger op))")
      (auto simp: on_ledger_def acknowledge_up_def split: prod.splits)
  have inv: "key_ledger_inv (op_ledger op)" using assms(2) by (simp add: op_at_def)
  then have "remove_at i (kl_debts (op_ledger op)) = filter (\<lambda>d. press_id d \<noteq> pid) (kl_debts (op_ledger op))"
    by (intro remove_at_filter i) (simp add: key_ledger_inv_def)
  then show ?thesis
    using assms(2) op' key_ledger_inv_remove [OF inv, of i] by (auto simp: op_at_def filter_map comp_def)
qed

lemma at_distinct: "op_at trace h ds plan op \<Longrightarrow> distinct (map fst ds)"
  by (auto simp: op_at_def key_ledger_inv_def comp_def)

lemma at_gone:
  assumes "op_at trace h (ds @ [(pid, k)]) plan op"
  shows "filter (\<lambda>d. fst d \<noteq> pid) (ds @ [(pid, k)]) = ds"
proof -
  have "pid \<notin> fst ` set ds" using at_distinct [OF assms] by simp
  then show ?thesis by (auto simp: filter_id_conv)
qed

subsection \<open>Presses and releases\<close>

lemma press_at:
  assumes "press (uinput_sink raw) op k = (Inr pid, op')" "op_at trace h ds plan op" "traced raw trace"
  shows "op_at trace (h @ [(k, 1)]) (ds @ [(pid, k)]) plan op'"
proof -
  from assms(1) obtain token op1 op2 op3 op4 op5 op6 op7 op8 where
    "Synthetic_Operation.ensure_active op = (Inr (), op1)"
    "on_sink (\<lambda>w. prepare_down (uinput_sink raw) w k) op1 = (Inr token, op2)"
    "Synthetic_Operation.ensure_active op2 = (Inr (), op3)"
    and begun: "on_ledger (\<lambda>l. begin_down l token) op3 = (Inr pid, op4)"
    "on_sink (\<lambda>w. attempt_down (uinput_sink raw) w token) op4 = (Inr (), op5)"
    "on_ledger (\<lambda>l. mark_possibly_down l pid) op5 = (Inr (), op6)"
    "Synthetic_Operation.ensure_active op6 = (Inr (), op7)"
    "on_sink (sink_synchronize (uinput_sink raw)) op7 = (Inr (), op8)"
    "Synthetic_Operation.ensure_active op8 = (Inr (), op')"
    unfolding press_def by (auto simp: bind_iff)
  with assms(2) have "op_at trace h ds plan op3" and key: "ut_key token = k"
    by (blast dest: at_active at_prepare)+
  with begun(1,2,3) assms(3) have "op_at trace (h @ [(k, 1)]) (ds @ [(pid, k)]) plan op6"
    by (metis at_begin_down at_down at_mark)
  with begun(4-6) assms(3) show ?thesis by (blast dest: at_active at_sync)
qed

lemma at_recheck [at_rules]:
  "recheck_active e op = (e', op') \<Longrightarrow> op_at trace h ds plan op \<Longrightarrow> op_at trace h ds plan op'"
  by (cases e) (auto simp: recheck_active_def split: prod.splits elim: at_active(1))

lemma at_token:
  assumes "ledger_token (op_ledger op) pid = Inr token" "op_at trace h (ds @ [(pid, k)]) plan op"
  shows "ut_key token = k"
proof -
  obtain d where "find (\<lambda>d. press_id d = pid) (kl_debts (op_ledger op)) = Some d" and token: "token = debt_token d"
    using assms(1)
    by (cases "find (\<lambda>d. press_id d = pid) (kl_debts (op_ledger op))") (auto simp: ledger_token_def)
  then have d: "d \<in> set (kl_debts (op_ledger op))" "press_id d = pid" using find_SomeD by force+
  have "(press_id d, ut_key (debt_token d)) \<in> set (ds @ [(pid, k)])"
    using d(1) assms(2) unfolding op_at_def by (metis (no_types, lifting) image_eqI set_map)
  moreover have "pid \<notin> fst ` set ds" using at_distinct [OF assms(2)] by simp
  ultimately show ?thesis using d(2) token by force
qed

lemma release_at:
  assumes "release (uinput_sink raw) op pid = (Inr u, op')" "op_at trace h (ds @ [(pid, k)]) plan op" "traced raw trace"
  shows "op_at trace (h @ [(k, 0)]) ds plan op'"
proof -
  obtain token where token: "ledger_token (op_ledger op) pid = Inr token"
    using assms(1) by (auto simp: release_def)
  have key: "ut_key token = k" by (rule at_token [OF token assms(2)])
  show ?thesis
    using assms token
    by (auto simp: release_def bind_iff is_ok_def key at_gone [OF assms(2)] simp del: filter_append dest!: at_rules)
qed

subsection \<open>Strokes and combinations\<close>

lemma surroundings_same:
  "on_tx f s = (r, s') \<Longrightarrow> fst s' = fst s" "on_x11 g s = (q, s') \<Longrightarrow> fst s' = fst s"
  by (auto simp: on_tx_def on_x11_def split: prod.splits)

lemma on_operation_iff: "on_operation f s = (r, s') \<longleftrightarrow> (\<exists>op'. f (fst s) = (r, op') \<and> s' = (op', snd s))"
  by (cases s) (auto simp: on_operation_def split: prod.splits)

lemma or_release_Inr [simp]: "or_release sink pressed rs = (Inr a, s') \<longleftrightarrow> rs = (Inr a, s')"
  by (auto simp: or_release_def split: prod.splits sum.splits)

lemma keep_first_error_None: "keep_first_error e r = None \<longleftrightarrow> e = None \<and> (\<exists>a. r = Inr a)"
  by (auto simp: keep_first_error_def split: sum.splits)

lemma release_loop_None: "release_presses_loop sink pids e op = (None, op') \<Longrightarrow> e = None"
  by (induction pids arbitrary: e op) (auto split: prod.splits dest!: keep_first_error_None [THEN iffD1])

lemma release_loop_at:
  assumes "release_presses_loop (uinput_sink raw) (rev (map fst ps)) None op = (None, op')"
    "op_at trace h (ds @ ps) plan op" "traced raw trace"
  shows "op_at trace (h @ map (\<lambda>p. (snd p, 0)) (rev ps)) ds plan op'"
  using assms
proof (induction ps arbitrary: h op rule: rev_induct)
  case (snoc p ps)
  obtain r op1 where r: "release (uinput_sink raw) op (fst p) = (r, op1)" by fastforce
  with snoc.prems(1) have loop: "release_presses_loop (uinput_sink raw) (rev (map fst ps)) (keep_first_error None r) op1 = (None, op')"
    by simp
  from release_loop_None [OF this] obtain u where ok: "r = Inr u" by (auto simp: keep_first_error_None)
  have "op_at trace h ((ds @ ps) @ [(fst p, snd p)]) plan op" using snoc.prems(2) by simp
  note one = release_at [OF r [unfolded ok] this assms(3)]
  have "release_presses_loop (uinput_sink raw) (rev (map fst ps)) None op1 = (None, op')"
    using loop ok by (simp add: keep_first_error_def)
  from snoc.IH [OF this one assms(3)] show ?case by simp
qed simp

lemma releases_at:
  assumes "release_synthetic_presses (uinput_sink raw) (map fst ps) op = (Inr u, op')"
    "op_at trace h (ds @ ps) plan op" "traced raw trace"
  shows "op_at trace (h @ map (\<lambda>p. (snd p, 0)) (rev ps)) ds plan op'"
proof -
  have "release_presses_loop (uinput_sink raw) (rev (map fst ps)) None op = (None, op')"
    using assms(1) by (auto simp: release_synthetic_presses_def first_error_result_def split: prod.splits option.splits)
  then show ?thesis by (rule release_loop_at [OF _ assms(2,3)])
qed

definition stroke_events :: "key \<Rightarrow> bool \<Rightarrow> (key \<times> int) list" where
  "stroke_events key shift =
     (if shift then [(KEY_LEFTSHIFT, 1), (key, 1), (key, 0), (KEY_LEFTSHIFT, 0)] else [(key, 1), (key, 0)])"

lemma press_shift_at:
  assumes "press_shift (uinput_sink raw) shift s = (Inr pressed, s')" "op_at trace h ds plan (fst s)" "traced raw trace"
  shows "\<exists>ps. pressed = map fst ps \<and> map snd ps = (if shift then [KEY_LEFTSHIFT] else []) \<and>
    op_at trace (h @ (if shift then [(KEY_LEFTSHIFT, 1)] else [])) (ds @ ps) plan (fst s')"
proof (cases shift)
  case True
  with assms(1) obtain sa sb pid where
    run: "authorize s = (Inr (), sa)" "on_operation (\<lambda>op. press (uinput_sink raw) op KEY_LEFTSHIFT) sa = (Inr pid, sb)"
      "sleep (from_millis 1) sb = (Inr (), s')" and pressed: "pressed = [pid]"
    unfolding press_shift_def by auto
  then have "op_at trace (h @ [(KEY_LEFTSHIFT, 1)]) (ds @ [(pid, KEY_LEFTSHIFT)]) plan (fst s')"
    using assms(2,3) by (auto simp: on_operation_iff surroundings_same dest: press_at)
  with True pressed show ?thesis by (intro exI [of _ "[(pid, KEY_LEFTSHIFT)]"]) simp
next
  case False
  with assms(1,2) show ?thesis by (auto simp: press_shift_def)
qed

lemma tap_key_at:
  assumes "tap_key (uinput_sink raw) key delay (map fst ps) s = (Inr u, s')"
    "op_at trace h (ds @ ps) plan (fst s)" "traced raw trace"
  shows "op_at trace (h @ [(key, 1), (key, 0)] @ map (\<lambda>p. (snd p, 0)) (rev ps)) ds plan (fst s')"
proof -
  from assms(1) obtain sa sb sc pid op' where
    run: "authorize s = (Inr (), sa)" "on_operation (\<lambda>op. press (uinput_sink raw) op key) sa = (Inr pid, sb)"
      "sleep (from_millis 2) sb = (Inr (), sc)"
    and released: "release_synthetic_presses (uinput_sink raw) (map fst (ps @ [(pid, key)])) (fst sc) = (Inr (), op')"
    and rest: "sleep delay (op', snd sc) = (Inr u, s')"
    unfolding tap_key_def by (auto simp: bind_iff on_operation_iff)
  have "op_at trace (h @ [(key, 1)]) (ds @ (ps @ [(pid, key)])) plan (fst sc)"
    using run assms(2,3) by (auto simp: on_operation_iff surroundings_same dest: press_at)
  from releases_at [OF released this assms(3)] rest show ?thesis by (simp add: surroundings_same)
qed

lemma stroke_at:
  assumes "replay_synthetic_stroke (uinput_sink raw) key shift delay s = (Inr u, s')"
    "op_at trace h ds plan (fst s)" "traced raw trace"
  shows "op_at trace (h @ stroke_events key shift) ds plan (fst s')"
proof -
  from assms(1) obtain pressed s1 where "press_shift (uinput_sink raw) shift s = (Inr pressed, s1)"
    and tap: "tap_key (uinput_sink raw) key delay pressed s1 = (Inr u, s')"
    by (auto simp: replay_synthetic_stroke_def)
  from press_shift_at [OF this(1) assms(2,3)] obtain ps where ps: "pressed = map fst ps"
    "map snd ps = (if shift then [KEY_LEFTSHIFT] else [])"
    "op_at trace (h @ (if shift then [(KEY_LEFTSHIFT, 1)] else [])) (ds @ ps) plan (fst s1)" by blast
  from tap_key_at [OF tap [unfolded ps(1)] ps(3) assms(3)] ps(2) show ?thesis
    by (cases shift) (auto simp: stroke_events_def)
qed

fun strokes_events :: "bool \<Rightarrow> keystroke list \<Rightarrow> (key \<times> int) list" where
  "strokes_events caps [] = []"
| "strokes_events caps (stroke # strokes) =
     stroke_events (ks_key stroke) (replay_shift_for_stroke stroke caps) @ strokes_events caps strokes"

fun backspace_events :: "nat \<Rightarrow> (key \<times> int) list" where
  "backspace_events 0 = []"
| "backspace_events (Suc n) = stroke_events KEY_BACKSPACE False @ backspace_events n"

lemma backspaces_at:
  assumes "replay_synthetic_backspaces (uinput_sink raw) n delay s = (Inr u, s')"
    "op_at trace h ds plan (fst s)" "traced raw trace"
  shows "op_at trace (h @ backspace_events n) ds plan (fst s')"
  using assms(1,2)
proof (induction n arbitrary: s h)
  case (Suc n)
  then obtain s1 where "replay_synthetic_stroke (uinput_sink raw) KEY_BACKSPACE False delay s = (Inr (), s1)"
    "replay_synthetic_backspaces (uinput_sink raw) n delay s1 = (Inr u, s')" by auto
  from Suc.IH [OF this(2) stroke_at [OF this(1) Suc.prems(2) assms(3)]] show ?case by simp
qed simp

lemma buffer_at:
  assumes "replay_buffer (uinput_sink raw) caps delay strokes s = (Inr u, s')"
    "op_at trace h ds plan (fst s)" "traced raw trace"
  shows "op_at trace (h @ strokes_events caps strokes) ds plan (fst s')"
  using assms(1,2)
proof (induction strokes arbitrary: s h)
  case (Cons stroke strokes)
  then obtain s1 where
    "replay_synthetic_stroke (uinput_sink raw) (ks_key stroke) (replay_shift_for_stroke stroke caps) delay s = (Inr (), s1)"
    "replay_buffer (uinput_sink raw) caps delay strokes s1 = (Inr u, s')" by auto
  from Cons.IH [OF this(2) stroke_at [OF this(1) Cons.prems(2) assms(3)]] show ?case by simp
qed simp

text \<open>Pressing keys in order and releasing them in the opposite order.\<close>

definition chord_events :: "key list \<Rightarrow> (key \<times> int) list" where
  "chord_events keys = map (\<lambda>k. (k, 1)) keys @ map (\<lambda>k. (k, 0)) (rev keys)"

lemma press_combo_at:
  assumes "press_combo (uinput_sink raw) keys (map fst ps) s = (Inr pressed, s')"
    "op_at trace h (ds @ ps) plan (fst s)" "traced raw trace"
  shows "\<exists>qs. pressed = map fst (ps @ qs) \<and> map snd qs = keys \<and>
    op_at trace (h @ map (\<lambda>k. (k, 1)) keys) (ds @ ps @ qs) plan (fst s')"
  using assms(1,2)
proof (induction keys arbitrary: ps s h)
  case (Cons key keys)
  then obtain sa sb pid where
    run: "authorize s = (Inr (), sa)" "on_operation (\<lambda>op. press (uinput_sink raw) op key) sa = (Inr pid, sb)"
    and rest: "press_combo (uinput_sink raw) keys (map fst (ps @ [(pid, key)])) sb = (Inr pressed, s')"
    by auto
  have "op_at trace (h @ [(key, 1)]) (ds @ ps @ [(pid, key)]) plan (fst sb)"
    using run Cons.prems(2) assms(3) by (auto simp: on_operation_iff surroundings_same dest: press_at)
  from Cons.IH [OF rest this] obtain qs where "pressed = map fst (ps @ (pid, key) # qs)" "map snd qs = keys"
    "op_at trace (h @ map (\<lambda>k. (k, 1)) (key # keys)) (ds @ ps @ (pid, key) # qs) plan (fst s')"
    by auto
  then show ?case by (intro exI [of _ "(pid, key) # qs"]) simp
qed simp

lemma combo_at:
  assumes "replay_synthetic_layout_combo (uinput_sink raw) combo delay s = (Inr u, s')"
    "op_at trace h ds plan (fst s)" "traced raw trace"
  shows "op_at trace (h @ chord_events (combo_keys combo)) ds plan (fst s')"
proof -
  from assms(1) obtain pressed sa sb op' where
    press: "press_combo (uinput_sink raw) (combo_keys combo) (map fst ([] :: (u64 \<times> key) list)) s = (Inr pressed, sa)"
    and "sleep (from_millis delay) sa = (Inr (), sb)"
    and released: "release_synthetic_presses (uinput_sink raw) pressed (fst sb) = (Inr u, op')" "s' = (op', snd sb)"
    by (auto simp: replay_synthetic_layout_combo_def bind_iff on_operation_iff)
  moreover from press_combo_at [OF press, of trace h ds plan] assms(2,3) obtain qs where
    qs: "pressed = map fst qs" "map snd qs = combo_keys combo"
      "op_at trace (h @ map (\<lambda>k. (k, 1)) (combo_keys combo)) (ds @ qs) plan (fst sa)" by auto
  ultimately have "op_at trace ((h @ map (\<lambda>k. (k, 1)) (combo_keys combo)) @ map (\<lambda>p. (snd p, 0)) (rev qs)) ds plan op'"
    by (intro releases_at [OF _ _ assms(3)]) (simp_all add: surroundings_same)
  moreover have "map (\<lambda>p. (snd p, 0 :: int)) (rev qs) = map (\<lambda>k. (k, 0)) (rev (combo_keys combo))"
    by (simp add: qs(2) [symmetric] rev_map [symmetric])
  ultimately show ?thesis using released(2) by (simp add: chord_events_def)
qed

subsection \<open>The whole correction\<close>

text \<open>The layout is switched by the device exactly when the outcome says so.\<close>

definition switch_events :: "layout_switch_combo \<Rightarrow> correction_layout_switch_outcome \<Rightarrow> (key \<times> int) list" where
  "switch_events combo outcome = (if outcome = AppliedUinput then chord_events (combo_keys combo) else [])"

lemma read_groups_same: "read_groups xkb s = (r, s') \<Longrightarrow> fst s' = fst s"
  by (cases r) (auto simp: read_groups_def then_st_Inl_iff dest!: surroundings_same)

lemma latch_and_check_same: "latch_and_check xkb g s = (r, s') \<Longrightarrow> fst s' = fst s"
  by (cases r) (auto simp: latch_and_check_def bind_iff check_Inl_iff dest!: surroundings_same)

lemma x11_switch_same: "execute_x11_layout_switch xkb s = (b, r, s') \<Longrightarrow> fst s' = fst s"
  by (auto simp: execute_x11_layout_switch_def split: prod.splits sum.splits if_splits
      dest!: read_groups_same latch_and_check_same surroundings_same)

lemma uinput_switch_at:
  assumes "then_st (active s) (\<lambda>_ s. then_st (switch_uinput_with_hooks (uinput_sink raw) combo delay s)
      (\<lambda>_ s. (Inr AppliedUinput, s))) = (Inr outcome, s')"
    "op_at trace h ds plan (fst s)" "traced raw trace"
  shows "op_at trace (h @ switch_events combo outcome) ds plan (fst s')"
proof -
  from assms(1) obtain sa sb sc u where "active s = (Inr (), sa)" "active sa = (Inr (), sb)"
    and combo: "replay_synthetic_layout_combo (uinput_sink raw) combo delay sb = (Inr u, sc)"
    and "active sc = (Inr (), s')" "outcome = AppliedUinput"
    by (auto simp: switch_uinput_with_hooks_def bind_iff)
  moreover from this have "op_at trace h ds plan (fst sb)" using assms(2) by (simp add: surroundings_same)
  ultimately show ?thesis
    using combo_at [OF combo _ assms(3)] by (simp add: switch_events_def surroundings_same)
qed

lemma switch_at:
  assumes "switch_layout_with_fallback (uinput_sink raw) x11 combo delay s = (Inr outcome, s')"
    "op_at trace h ds plan (fst s)" "traced raw trace"
  shows "op_at trace (h @ switch_events combo outcome) ds plan (fst s') \<and> outcome \<in> {AppliedX11, AppliedUinput}"
proof -
  from assms(1) obtain s1 where s1: "active s = (Inr (), s1)" by (auto simp: switch_layout_with_fallback_def)
  then have at: "op_at trace h ds plan (fst s1)" using assms(2) by (simp add: surroundings_same)
  let ?uinput = "\<lambda>s. then_st (active s) (\<lambda>_ s. then_st (switch_uinput_with_hooks (uinput_sink raw) combo delay s)
      (\<lambda>_ s. (Inr AppliedUinput, s)))"
  have run: "?uinput t = (Inr outcome, s') \<Longrightarrow> fst t = fst s1 \<Longrightarrow> ?thesis" for t
    using uinput_switch_at [of t raw combo delay outcome s' trace h ds plan] at assms(3) by auto
  show ?thesis
  proof (cases x11)
    case None
    with assms(1) s1 run [of s1] show ?thesis by (simp add: switch_layout_with_fallback_def Let_def)
  next
    case (Some xkb)
    obtain b r t where t: "execute_x11_layout_switch xkb s1 = (b, r, t)" by (metis prod_cases3)
    note same = x11_switch_same [OF t]
    show ?thesis
    proof (cases r)
      case (Inl e)
      with Some t s1 assms(1) run [OF _ same] show ?thesis
        by (simp add: switch_layout_with_fallback_def Let_def split: if_splits)
    next
      case (Inr u)
      with Some t s1 assms(1) at same show ?thesis
        by (auto simp: switch_layout_with_fallback_def Let_def switch_events_def)
    qed
  qed
qed

text \<open>The modifiers the user holds are released before and pressed again at the end.\<close>

lemma at_plan: "op_at trace h ds plan op \<Longrightarrow> op_at trace h ds plan' (op\<lparr>restore_plan := plan'\<rparr>)"
  by (simp add: op_at_def)

lemma plan_record_Inr: "plan_record oid frozen plan key = (Inr u, plan') \<Longrightarrow> plan' = plan @ [key]"
  by (auto simp: plan_record_def split: if_splits)

lemma temporarily_release_at:
  assumes "temporarily_release_physical_modifier (uinput_sink raw) op key = (Inr u, op')"
    "op_at trace h ds plan op" "traced raw trace"
  shows "op_at trace (h @ [(key, 0)]) ds (plan @ [key]) op'"
proof -
  from assms(1) obtain token op1 op2 op3 op5 op6 op7 plan' where
    begun: "Synthetic_Operation.ensure_active op = (Inr (), op1)"
    "on_sink (\<lambda>w. prepare_down (uinput_sink raw) w key) op1 = (Inr token, op2)"
    "Synthetic_Operation.ensure_active op2 = (Inr (), op3)"
    and recorded: "plan_record (op_id op3) (frozen_physical op3) (restore_plan op3) key = (Inr (), plan')"
    and rest: "on_sink (\<lambda>w. attempt_up (uinput_sink raw) w token) (op3\<lparr>restore_plan := plan'\<rparr>) = (Inr (), op5)"
    "Synthetic_Operation.ensure_active op5 = (Inr (), op6)"
    "on_sink (sink_synchronize (uinput_sink raw)) op6 = (Inr (), op7)" "Synthetic_Operation.ensure_active op7 = (Inr u, op')"
    unfolding temporarily_release_physical_modifier_def Let_def by (auto simp: bind_iff)
  from begun assms(2) have op3: "op_at trace h ds plan op3" and key: "ut_key token = key"
    by (blast dest: at_active at_prepare)+
  have "plan' = plan @ [key]" using plan_record_Inr [OF recorded] op3 by (simp add: op_at_def)
  with at_plan [OF op3, of plan'] have "op_at trace h ds (plan @ [key]) (op3\<lparr>restore_plan := plan'\<rparr>)" by simp
  with rest key assms(3) show ?thesis by (blast dest: at_active at_sync at_up)
qed

lemma mark_released_at:
  "on_sink (on_session (\<lambda>l. mark_temporarily_released l key)) op = (r, op') \<Longrightarrow> op_at trace h ds plan op \<Longrightarrow>
   op_at trace h ds plan op'"
  by (auto simp: on_sink_def on_session_def op_at_def split: prod.splits)

lemma temporarily_release_loop_at:
  assumes "temporarily_release_loop raw keys s = (Inr u, s')" "op_at trace h ds plan (fst s)" "traced raw trace"
  shows "op_at trace (h @ map (\<lambda>k. (k, 0)) keys) ds (plan @ keys) (fst s')"
  using assms(1,2)
proof (induction keys arbitrary: s h plan)
  case (Cons key keys)
  from Cons.prems(1) obtain s1 s2 s3 v where s1: "authorize s = (Inr (), s1)"
    and s2: "on_operation (\<lambda>op. temporarily_release_physical_modifier (uinput_sink raw) op key) s1 = (Inr v, s2)"
    and s3: "(if session_contains (session_modifiers (op_sink (fst s1))) key \<and> has_planned_modifier_restore (fst s2) key
        then on_operation (on_sink (on_session (\<lambda>l. mark_temporarily_released l key))) s2 else (Inr (), s2)) = (Inr (), s3)"
    and rest: "temporarily_release_loop raw keys s3 = (Inr u, s')"
    by (auto simp: Let_def bind_iff)
  have "op_at trace (h @ [(key, 0)]) ds (plan @ [key]) (fst s2)"
    using s1 s2 Cons.prems(2) temporarily_release_at [OF _ _ assms(3)]
    by (auto simp: on_operation_iff surroundings_same)
  with s3 have "op_at trace (h @ [(key, 0)]) ds (plan @ [key]) (fst s3)"
    by (auto simp: on_operation_iff split: if_splits dest: mark_released_at)
  from Cons.IH [OF rest this] show ?case by simp
qed simp

lemma at_transfer:
  assumes "on_ledger (\<lambda>l. ledger_transfer l pid) op = (Inr token, op')" "op_at trace h (ds @ [(pid, k)]) plan op"
  shows "op_at trace h ds plan op'"
proof -
  obtain i where i: "position (\<lambda>d. press_id d = pid) (kl_debts (op_ledger op)) = Some i"
    and op': "op' = op\<lparr>op_ledger := (op_ledger op)\<lparr>kl_debts := remove_at i (kl_debts (op_ledger op))\<rparr>\<rparr>"
    using assms(1)
    by (cases "position (\<lambda>d. press_id d = pid) (kl_debts (op_ledger op))")
      (auto simp: on_ledger_def ledger_transfer_def split: prod.splits)
  then have "on_ledger (\<lambda>l. acknowledge_up l pid) op = (Inr (), op')"
    by (simp add: on_ledger_def acknowledge_up_def)
  from at_acknowledge [OF this assms(2)] show ?thesis unfolding at_gone [OF assms(2)] .
qed

lemma at_target:
  "on_sink (\<lambda>w. target_begin_restore uinput_target w key) op = (r, op') \<Longrightarrow> op_at trace h ds plan op \<Longrightarrow>
   op_at trace h ds plan op'"
  "pending_transfer_commit uinput_target key token op = (Inr u, op') \<Longrightarrow> op_at trace h ds plan op \<Longrightarrow>
   op_at trace h ds plan op'"
  by (auto simp: pending_transfer_commit_def on_sink_def uinput_target_def on_session_def op_at_def is_ok_def
      split: prod.splits if_splits)

lemma restore_one_at:
  assumes "restore_one_modifier (uinput_sink raw) uinput_target mode op key = (Inr u, op')"
    "op_at trace h ds plan op" "traced raw trace"
  shows "op_at trace (h @ [(key, 1)]) ds plan op'"
proof -
  from assms(1) obtain token pid op1 op2 op3 op4 op5 op6 op7 op8 op9 op10 op11 token' where
    begun: "ensure_cleanup_active op = (Inr (), op1)"
    "on_sink (\<lambda>w. prepare_down (uinput_sink raw) w key) op1 = (Inr token, op2)"
    "ensure_cleanup_active op2 = (Inr (), op3)"
    and down: "on_ledger (\<lambda>l. begin_down l token) op3 = (Inr pid, op4)"
    "on_sink (\<lambda>w. target_begin_restore uinput_target w key) op4 = (Inr (), op5)"
    "on_sink (\<lambda>w. attempt_down (uinput_sink raw) w token) op5 = (Inr (), op6)"
    "on_ledger (\<lambda>l. mark_possibly_down l pid) op6 = (Inr (), op7)"
    and synced: "ensure_cleanup_active op7 = (Inr (), op8)"
    "on_sink (sink_synchronize (uinput_sink raw)) op8 = (Inr (), op9)"
    "ensure_cleanup_active op9 = (Inr (), op10)"
    and handed: "on_ledger (\<lambda>l. ledger_transfer l pid) op10 = (Inr token', op11)"
    "pending_transfer_commit uinput_target key token' op11 = (Inr u, op')"
    unfolding restore_one_modifier_def by (auto simp: bind_iff sum_iff)
  from begun assms(2) have op3: "op_at trace h ds plan op3" and key: "ut_key token = key"
    by (blast dest: at_active at_prepare)+
  have "op_at trace (h @ [(key, 1)]) (ds @ [(pid, key)]) plan op7"
    using at_mark [OF down(4) at_down [OF down(3) at_target(1) [OF down(2) at_begin_down [OF down(1) op3]] assms(3)]] key by simp
  with synced assms(3) have "op_at trace (h @ [(key, 1)]) (ds @ [(pid, key)]) plan op10"
    by (blast dest: at_active at_sync)
  from at_target(2) [OF handed(2) at_transfer [OF handed(1) this]] show ?thesis .
qed

lemma restore_loop_at:
  assumes "restore_loop (uinput_sink raw) uinput_target mode keys op = (None, op')"
    "op_at trace h ds plan op" "traced raw trace"
  shows "op_at trace (h @ map (\<lambda>k. (k, 1)) keys) ds plan op'"
  using assms(1,2)
proof (induction keys arbitrary: op h)
  case (Cons key keys)
  then obtain u op1 where "restore_one_modifier (uinput_sink raw) uinput_target mode op key = (Inr u, op1)"
    "restore_loop (uinput_sink raw) uinput_target mode keys op1 = (None, op')"
    by (auto split: prod.splits sum.splits)
  from Cons.IH [OF this(2) restore_one_at [OF this(1) Cons.prems(2) assms(3)]] show ?case by simp
qed simp

text \<open>An operation without debts has nothing to clean up.\<close>

lemma terminal_cleanup_at:
  assumes "terminal_cleanup (uinput_sink raw) e op = (None, tproof, op')"
    "op_at trace h [] plan op" "traced raw trace"
  shows "e = None \<and> op_at trace h [] plan op'"
proof -
  let ?op = "op\<lparr>op_ledger := ledger_begin_terminal (op_ledger op)\<rparr>"
  have op: "kl_debts (op_ledger ?op) = []" "release_only_fallback ?op = []" "op_at trace h [] plan ?op"
    using assms(2) by (auto simp: op_at_def ledger_begin_terminal_def key_ledger_inv_def)
  then have "release_all (uinput_sink raw) ?op = (Inr (), ?op)" "drain_release_only_fallback (uinput_sink raw) ?op = (Inr (), ?op)"
    by (simp_all add: release_all_def reverse_snapshot_def first_error_result_def drain_release_only_fallback_def)
  with assms(1) have "on_sink (sink_synchronize (uinput_sink raw)) ?op = (Inr (), op')" "e = None"
    by (auto simp: terminal_cleanup_def Let_def keep_first_error_None split: prod.splits)
  with at_sync [OF this(1) op(3) assms(3)] show ?thesis by simp
qed

lemma finish_success_at:
  assumes "finish_success (uinput_sink raw) uinput_target op = (report, op')" "tr_outcome report = Success"
    "op_at trace h [] plan op" "traced raw trace"
  shows "trace (ur_raw (op_sink op')) = h @ map (\<lambda>k. (k, 1)) (rev plan)"
proof -
  obtain e op1 where op1: "restore_planned_modifiers (uinput_sink raw) uinput_target SuccessCleanup op = (e, op1)" by fastforce
  obtain e' tproof op2 where op2: "terminal_cleanup (uinput_sink raw) e op1 = (e', tproof, op2)" by (metis prod_cases3)
  have e': "e' = None" and op': "op_sink op' = op_sink op2"
    using assms(1,2) op1 op2
    by (auto simp: finish_success_def finish_with_restore_def Let_def record_reconciliation_failure_def split: if_splits)
  have e: "e = None"
    using op2 e' by (auto simp: terminal_cleanup_def Let_def keep_first_error_None split: prod.splits)
  have "op_at trace (h @ map (\<lambda>k. (k, 1)) (rev plan)) [] plan op1"
    using restore_loop_at [of raw SuccessCleanup "rev plan" op op1 trace h "[]" plan] op1 e assms(3,4)
    by (simp add: restore_planned_modifiers_def plan_snapshot_def op_at_def)
  from terminal_cleanup_at [OF op2 [unfolded e'] this assms(4)] op' show ?thesis by (simp add: op_at_def)
qed

subsection \<open>The events of a correction\<close>

definition correction_events ::
  "correction_plan \<Rightarrow> layout_switch_combo \<Rightarrow> modifier_state \<Rightarrow> correction_layout_switch_outcome \<Rightarrow> (key \<times> int) list" where
  "correction_events plan combo modifiers outcome =
     map (\<lambda>k. (k, 0)) (rev (pressed_uinput_modifier_evdev_keys modifiers)) @
     backspace_events (length (cp_buffer plan) + extra_backspaces plan) @
     switch_events combo outcome @
     strokes_events (ms_caps_lock_active modifiers) (cp_buffer plan) @
     map (\<lambda>k. (k, 1)) (pressed_uinput_modifier_evdev_keys modifiers)"

lemma switch_if_needed_at:
  assumes "switch_if_needed (uinput_sink raw) x11 config switch s = (Inr outcome, s')"
    "op_at trace h ds plan (fst s)" "traced raw trace"
  shows "op_at trace (h @ switch_events (rcs_layout_switch_combo config) outcome) ds plan (fst s') \<and>
    (outcome = NotNeeded \<longleftrightarrow> \<not> switch)"
proof (cases switch)
  case True
  with assms(1) obtain sa sb sc where "active s = (Inr (), sa)"
    and sw: "switch_layout_with_fallback (uinput_sink raw) x11 (rcs_layout_switch_combo config)
      (unat (rcs_layout_delay_ms config)) sa = (Inr outcome, sb)"
    and "active sb = (Inr (), sc)" "sleep (from_millis (unat (rcs_layout_delay_ms config))) sc = (Inr (), s')"
    by (auto simp: switch_if_needed_def)
  then show ?thesis
    using switch_at [OF sw _ assms(3)] assms(2) True by (auto simp: surroundings_same)
next
  case False
  with assms show ?thesis by (auto simp: switch_if_needed_def switch_events_def)
qed

lemma correction_body_at:
  assumes "correction_body (uinput_sink raw) x11 plan config caps switch s = (Inr outcome, s')"
    "op_at trace h ds mods (fst s)" "traced raw trace"
  shows "op_at trace (h @ backspace_events (length (cp_buffer plan) + extra_backspaces plan) @
      switch_events (rcs_layout_switch_combo config) outcome @ strokes_events caps (cp_buffer plan)) ds mods (fst s') \<and>
    (outcome = NotNeeded \<longleftrightarrow> \<not> switch)"
proof -
  from assms(1) obtain s1 s2 u v where
    s1: "replay_synthetic_backspaces (uinput_sink raw) (length (cp_buffer plan) + extra_backspaces plan)
      (from_millis (unat (rcs_backspace_ms config))) s = (Inr u, s1)"
    and s2: "switch_if_needed (uinput_sink raw) x11 config switch s1 = (Inr outcome, s2)"
    and s3: "replay_buffer (uinput_sink raw) caps (from_millis (unat (rcs_typing_ms config))) (cp_buffer plan) s2 = (Inr v, s')"
    unfolding correction_body_def by auto
  note at2 = switch_if_needed_at [OF s2 backspaces_at [OF s1 assms(2,3)] assms(3)]
  from buffer_at [OF s3 conjunct1 [OF at2] assms(3)] at2 show ?thesis by simp
qed

lemma operation_new_at:
  "op_at trace (trace (ur_raw rt)) [] [] (operation_new oid rt ctl frozen latch)"
  by (simp add: op_at_def operation_new_def key_ledger_new_def key_ledger_inv_def)

lemma finish_execution_Inr:
  assumes "finish_execution raw oid execution (op, control, x) = (Inr v, rt', control', x')"
  shows "execution = Inr v \<and> (\<exists>report op'. finish_success (uinput_sink raw) uinput_target op = (report, op') \<and>
    tr_outcome report = Success \<and> rt' = release_device op')"
proof (cases execution)
  case (Inl e)
  obtain p op' where "(if is_matching_soft_cancel e control then finish_soft_cancel (uinput_sink raw) uinput_target op
      else finish_hard_failure (uinput_sink raw) op e) = (p, op')" by fastforce
  with Inl assms show ?thesis by (auto simp: finish_execution_def split: if_splits)
next
  case (Inr a)
  obtain report op' where "finish_success (uinput_sink raw) uinput_target op = (report, op')" by fastforce
  with Inr assms show ?thesis by (auto simp: finish_execution_def split: if_splits prod.splits)
qed

lemma run_operation_events:
  assumes "run_uinput_synthetic_operation raw oid octl modifiers True execute (rt, control, x) = (Inr v, rt', control', x')"
    and "\<And>s s' h mods. execute s = (Inr v, s') \<Longrightarrow> op_at trace h [] mods (fst s) \<Longrightarrow> op_at trace (h @ es) [] mods (fst s') \<and> P"
    and "traced raw trace"
  shows "trace (ur_raw rt') = trace (ur_raw rt) @ map (\<lambda>k. (k, 0)) (rev (pressed_uinput_modifier_evdev_keys modifiers)) @
    es @ map (\<lambda>k. (k, 1)) (pressed_uinput_modifier_evdev_keys modifiers) \<and> P"
proof -
  let ?keys = "pressed_uinput_modifier_evdev_keys modifiers"
  obtain frozen where frozen: "from_pressed_modifiers ?keys (ms_caps_lock_active modifiers) = Inr frozen"
    using assms(1) by (auto simp: run_uinput_synthetic_operation_def Let_def)
  let ?s = "(operation_new oid rt octl frozen (ur_latch rt), control, x)"
  obtain execution op control1 x1 where
    run: "then_st (temporarily_release_uinput_modifiers raw ?keys ?s) (\<lambda>_ s. execute s) = (execution, op, control1, x1)"
    by (metis prod_cases4)
  obtain execution' control2 where "finish_execution raw oid execution' (op, control2, x1) = (Inr v, rt', control', x')"
    and mapped: "execution' = Inr v \<Longrightarrow> execution = Inr v"
    using assms(1) frozen run
    by (cases execution) (auto simp: run_uinput_synthetic_operation_def Let_def bind_iff)
  note fin = finish_execution_Inr [OF this(1)]
  have fin1: "execution = Inr v" using mapped fin by blast
  from run fin1 obtain s1 s2 u where s1: "temporarily_release_loop raw (rev ?keys) ?s = (Inr u, s1)"
    and s2: "sleep (from_millis MODIFIER_SYNC_DELAY_MS) s1 = (Inr (), s2)" "execute s2 = (Inr v, op, control1, x1)"
    by (auto simp: temporarily_release_uinput_modifiers_def)
  have "op_at trace (trace (ur_raw rt) @ map (\<lambda>k. (k, 0)) (rev ?keys)) [] (rev ?keys) (fst s1)"
    using temporarily_release_loop_at [OF s1 _ assms(3), of "trace (ur_raw rt)" "[]" "[]"]
    by (simp add: operation_new_at)
  then have "op_at trace (trace (ur_raw rt) @ map (\<lambda>k. (k, 0)) (rev ?keys)) [] (rev ?keys) (fst s2)"
    using s2(1) by (simp add: surroundings_same)
  from assms(2) [OF s2(2) this]
  have at: "op_at trace ((trace (ur_raw rt) @ map (\<lambda>k. (k, 0)) (rev ?keys)) @ es) [] (rev ?keys) op" and P by simp_all
  obtain report op' where "finish_success (uinput_sink raw) uinput_target op = (report, op')"
    "tr_outcome report = Success" "rt' = release_device op'"
    using fin by blast
  with finish_success_at [OF this(1,2) at assms(3)] \<open>P\<close> show ?thesis by (simp add: release_device_def)
qed

lemma correction_events_written:
  assumes "traced raw trace" "switch \<Longrightarrow> cinnamon = None"
    and "run_correction raw fresh now clock x11 cinnamon plan config modifiers switch (rt, control, x) =
      (Inr outcome, rt', control', x')"
  shows "trace (ur_raw rt') = trace (ur_raw rt) @
      correction_events plan (rcs_layout_switch_combo config) modifiers outcome \<and>
    (outcome = NotNeeded \<longleftrightarrow> \<not> switch)"
proof -
  obtain control1 oid octl where run: "run_uinput_synthetic_operation raw oid octl modifiers True
      (correction_body (uinput_sink raw) x11 plan config (ms_caps_lock_active modifiers) switch) (rt, control1, x) =
      (Inr outcome, rt', control', x')"
    using assms(2,3) by (cases switch) (auto simp: run_correction_def bind_iff sum_iff)
  show ?thesis
    using run_operation_events [OF run correction_body_at assms(1)] assms(1) by (simp add: correction_events_def)
qed

end
