(* ===== verification/Correction_Properties.thy ===== *)
theory Correction_Properties
  imports Correction_Trace Switch_Properties "HOL-Library.Code_Target_Nat"
begin

text \<open>
  What a correction does to the keyboard: whatever fails, no synthetic key is left behind unnoticed;
  and when it succeeds, the device was given exactly the key events of the plan.
\<close>

subsection \<open>Properties kept by a replay\<close>

text \<open>
  A replay only presses and releases keys, so it keeps every property of operations that single
  presses and releases keep.  The rules follow the combinators of the model.
\<close>

lemma keep_then:
  "P (snd r) \<Longrightarrow> (\<And>a s. P s \<Longrightarrow> P (snd (k a s))) \<Longrightarrow> P (snd (then_st r k))"
  by (cases "(r, k)" rule: then_st.cases) simp_all

lemma keep_check: "P s \<Longrightarrow> (\<And>a. P (snd (k a))) \<Longrightarrow> P (snd (check r s k))"
  by (cases r) simp_all

lemma keep_bind:
  "P (snd p) \<Longrightarrow> (\<And>r s. P s \<Longrightarrow> P (snd (body r s))) \<Longrightarrow> P (snd (case p of (r, s) \<Rightarrow> body r s))"
  by (cases p) simp

locale replay_steps =
  fixes sink :: "('w, 't) key_sink" and I :: "('w, 't) operation \<Rightarrow> bool"
  assumes press_kept: "I op \<Longrightarrow> I (snd (press sink op key))"
    and release_kept: "I op \<Longrightarrow> I (snd (release sink op pid))"
begin

lemma inv_surroundings: "I (fst s) \<Longrightarrow> I (fst (snd (on_tx f s)))" "I (fst s) \<Longrightarrow> I (fst (snd (on_x11 g s)))"
  by (auto simp: on_tx_def on_x11_def split: prod.splits)

lemma inv_on_operation:
  assumes "I (fst s)" "\<And>op. I op \<Longrightarrow> I (snd (f op))"
  shows "I (fst (snd (on_operation f s)))"
  using assms(1) assms(2) [of "fst s"] by (auto simp: on_operation_def split: prod.splits)

lemma release_presses_inv: "I op \<Longrightarrow> I (snd (release_presses_loop sink pids e op))"
proof (induction pids arbitrary: e op)
  case (Cons pid pids)
  then show ?case using release_kept [OF Cons.prems, of pid] by (auto split: prod.splits)
qed simp

lemma release_synthetic_inv: "I op \<Longrightarrow> I (snd (release_synthetic_presses sink pressed op))"
  using release_presses_inv [of op "rev pressed" None]
  by (auto simp: release_synthetic_presses_def split: prod.splits)

lemma inv_or_release: "I (fst (snd rs)) \<Longrightarrow> I (fst (snd (or_release sink pressed rs)))"
  using inv_on_operation [OF _ release_synthetic_inv, of "snd rs"]
  by (auto simp: or_release_def split: prod.splits sum.splits)

lemmas inv_rules = keep_then [where P = "\<lambda>s. I (fst s)"] keep_check [where P = "\<lambda>s. I (fst s)"]
  keep_bind [where P = "\<lambda>s. I (fst s)"] inv_surroundings inv_or_release
  inv_on_operation [OF _ press_kept] inv_on_operation [OF _ release_synthetic_inv]

lemma stroke_inv: "I (fst s) \<Longrightarrow> I (fst (snd (replay_synthetic_stroke sink key shift delay s)))"
  unfolding replay_synthetic_stroke_def press_shift_def tap_key_def by (auto intro!: inv_rules)

lemma backspaces_inv: "I (fst s) \<Longrightarrow> I (fst (snd (replay_synthetic_backspaces sink n delay s)))"
  by (induction n arbitrary: s) (auto intro!: inv_rules stroke_inv)

lemma buffer_inv: "I (fst s) \<Longrightarrow> I (fst (snd (replay_buffer sink caps delay strokes s)))"
  by (induction strokes arbitrary: s) (auto intro!: inv_rules stroke_inv)

lemma press_combo_inv: "I (fst s) \<Longrightarrow> I (fst (snd (press_combo sink keys pressed s)))"
  by (induction keys arbitrary: pressed s) (auto intro!: inv_rules)

lemma press_keys_inv: "I (fst s) \<Longrightarrow> I (fst (snd (press_keys sink keys pressed s)))"
  by (induction keys arbitrary: pressed s) (auto intro!: inv_rules)

lemma combo_inv: "I (fst s) \<Longrightarrow> I (fst (snd (replay_synthetic_layout_combo sink combo delay s)))"
  unfolding replay_synthetic_layout_combo_def by (auto intro!: inv_rules press_combo_inv)

lemma shortcut_inv: "I (fst s) \<Longrightarrow> I (fst (snd (shortcut_body sink keys s)))"
  unfolding shortcut_body_def by (auto intro!: inv_rules press_keys_inv)

lemma x11_parts_inv:
  "I (fst s) \<Longrightarrow> I (fst (snd (read_groups xkb s)))"
  "I (fst s) \<Longrightarrow> I (fst (snd (latch_and_check xkb g s)))"
  by (auto simp: read_groups_def latch_and_check_def intro!: inv_rules)

lemma x11_switch_inv:
  assumes "I (fst s)"
  shows "I (fst (snd (snd (execute_x11_layout_switch xkb s))))"
proof -
  have read: "I (fst (snd (read_groups xkb s)))" by (rule x11_parts_inv [OF assms])
  show ?thesis
    using read inv_surroundings(1) [OF read, of authorize_transaction_mutation]
      x11_parts_inv(2) [of "snd (authorize (snd (read_groups xkb s)))" xkb]
    by (auto simp: execute_x11_layout_switch_def split: sum.splits prod.splits)
qed

lemma uinput_switch_inv: "I (fst s) \<Longrightarrow> I (fst (snd (switch_uinput_with_hooks sink combo delay s)))"
  unfolding switch_uinput_with_hooks_def by (auto intro!: inv_rules combo_inv)

lemma switch_layout_inv:
  assumes "I (fst s)"
  shows "I (fst (snd (switch_layout_with_fallback sink x11 combo delay s)))"
  unfolding switch_layout_with_fallback_def Let_def
proof (rule inv_rules(1), rule inv_surroundings [OF assms])
  fix u and t :: "('w, 't, 'a) replay_state"
  let ?uinput = "\<lambda>t. then_st (active t) (\<lambda>_ s. then_st (switch_uinput_with_hooks sink combo delay s)
    (\<lambda>_ s. (Inr AppliedUinput, s)))"
  assume t: "I (fst t)"
  have uinput: "I (fst s) \<Longrightarrow> I (fst (snd (?uinput s)))" for s :: "('w, 't, 'a) replay_state"
    by (auto intro!: inv_rules uinput_switch_inv)
  show "I (fst (snd (case x11 of None \<Rightarrow> ?uinput t
    | Some xkb \<Rightarrow> (case execute_x11_layout_switch xkb t of
        (_, Inr _, s) \<Rightarrow> (Inr AppliedX11, s)
      | (authorized, Inl e, s) \<Rightarrow> if authorized then (Inl e, s) else ?uinput s))))"
  proof (cases x11)
    case (Some xkb)
    obtain authorized r s1 where run: "execute_x11_layout_switch xkb t = (authorized, r, s1)"
      by (metis prod_cases3)
    with x11_switch_inv [OF t, of xkb] have "I (fst s1)" by simp
    with Some run uinput show ?thesis by (cases r) simp_all
  qed (simp add: uinput t)
qed

lemma correction_body_inv:
  "I (fst s) \<Longrightarrow> I (fst (snd (correction_body sink x11 plan config caps switch s)))"
  unfolding correction_body_def switch_if_needed_def
  by (auto intro!: inv_rules backspaces_inv buffer_inv switch_layout_inv)

end

text \<open>On the device, the temporary releases have to keep the property, too.\<close>

locale uinput_replay = replay_steps "uinput_sink raw" I
  for raw :: "'d raw_sink" and I :: "('d uinput_runtime, uinput_token) operation \<Rightarrow> bool" +
  assumes temporarily_release_kept: "I op \<Longrightarrow> I (snd (temporarily_release_physical_modifier (uinput_sink raw) op key))"
    and mark_released_kept: "I op \<Longrightarrow> I (snd (on_sink (on_session (\<lambda>l. mark_temporarily_released l key)) op))"
begin

lemma temporarily_release_loop_inv: "I (fst s) \<Longrightarrow> I (fst (snd (temporarily_release_loop raw keys s)))"
  by (induction keys arbitrary: s)
    (auto simp: Let_def intro!: inv_rules inv_on_operation [OF _ temporarily_release_kept]
      inv_on_operation [OF _ mark_released_kept])

lemma temporarily_release_modifiers_inv:
  "I (fst s) \<Longrightarrow> I (fst (snd (temporarily_release_uinput_modifiers raw keys s)))"
  unfolding temporarily_release_uinput_modifiers_def
  by (auto intro!: inv_rules temporarily_release_loop_inv)

text \<open>A run either does not start or ends with \<open>finish_execution\<close> on an operation with the property.\<close>

lemma run_operation_cases:
  assumes "run_uinput_synthetic_operation raw oid octl modifiers temporarily execute (rt, control, x) = (r, rt', control', x')"
    and "\<And>s. I (fst s) \<Longrightarrow> I (fst (snd (execute s)))" "\<And>frozen. I (operation_new oid rt octl frozen (ur_latch rt))"
  shows "rt' = rt \<or> (\<exists>op execution control1 x1. I op \<and>
    finish_execution raw oid execution (op, control1, x1) = (r, rt', control', x'))"
proof (cases "from_pressed_modifiers (pressed_uinput_modifier_evdev_keys modifiers) (ms_caps_lock_active modifiers)")
  case (Inl e)
  with assms show ?thesis by (auto simp: run_uinput_synthetic_operation_def Let_def)
next
  case (Inr frozen)
  let ?keys = "pressed_uinput_modifier_evdev_keys modifiers"
  let ?s = "(operation_new oid rt octl frozen (ur_latch rt), control, x)"
  let ?run = "if temporarily then then_st (temporarily_release_uinput_modifiers raw ?keys ?s) (\<lambda>_ s. execute s) else execute ?s"
  obtain execution op control1 x1 where run: "?run = (execution, op, control1, x1)" by (metis prod_cases4)
  have "I (fst (snd ?run))"
    using assms(3) by (auto intro!: inv_rules temporarily_release_modifiers_inv assms(2))
  then have "I op" using run by simp
  moreover obtain execution' control2 where "finish_execution raw oid execution' (op, control2, x1) = (r, rt', control', x')"
    using assms(1) Inr run
    by (auto simp: run_uinput_synthetic_operation_def Let_def split: sum.splits prod.splits if_splits)
  ultimately show ?thesis by blast
qed

end

subsection \<open>No key is left behind\<close>

sublocale sink_keys \<subseteq> replayed: replay_steps sink "op_inv B" for B
  by unfold_locales (rule press_inv, assumption, rule release_inv, assumption)

lemma finish_with_restore_latch:
  "finish_with_restore sink target requested op = (report, op') \<Longrightarrow> op_latch op' = None \<Longrightarrow>
   tr_proof report = Reconciled"
  by (auto simp: finish_with_restore_def Let_def record_reconciliation_failure_def latch_fail_def
      split: prod.splits if_splits option.splits)

lemma uinput_hard_failure_latch:
  "finish_hard_failure (uinput_sink raw) op e = (report, op') \<Longrightarrow> op_latch op' = None \<Longrightarrow>
   tr_proof report = Reconciled"
  by (auto simp: finish_hard_failure_def terminal_cleanup_def Let_def record_reconciliation_failure_def
      latch_fail_def is_unreconciled_def uinput_sink_def uinput_terminal_proof_def
      split: prod.splits if_splits option.splits)

lemma mark_released_keys:
  assumes "on_session (\<lambda>l. mark_temporarily_released l key) rt = (r, rt')"
  shows "ur_raw rt' = ur_raw rt \<and> session_keys rt' = session_keys rt"
proof -
  obtain l where "mark_temporarily_released (session_modifiers rt) key = (r, l)" "rt' = rt\<lparr>session_modifiers := l\<rparr>"
    using assms by (auto simp: on_session_def split: prod.splits)
  then show ?thesis
    using session_transition_keys [of "session_modifiers rt" key] by (simp add: mark_temporarily_released_def session_keys_def)
qed

context uinput_device
begin

lemma mark_released_inv:
  "op_inv B op \<Longrightarrow> op_inv B (snd (on_sink (on_session (\<lambda>l. mark_temporarily_released l key)) op))"
  by (erule on_sink_inv) (simp add: mark_released_keys)

end

sublocale uinput_device \<subseteq> replayed: uinput_replay raw "op_inv B" for B
  by unfold_locales (rule temporarily_release_inv, assumption, rule mark_released_inv, assumption)

context uinput_device
begin

lemma finish_execution_keys:
  assumes "op_inv B (fst s)" "finish_execution raw oid execution s = (r, rt', control', x')" "ur_latch rt' = None"
  shows "down (ur_raw rt') \<subseteq> session_keys rt' \<union> B"
proof -
  obtain op control x where s: "s = (op, control, x)" by (cases s)
  have op: "op_inv B op" using assms(1) s by simp
  have same: "ur_raw (release_device op') = ur_raw (op_sink op')" "session_keys (release_device op') = session_keys (op_sink op')"
    "ur_latch (release_device op') = op_latch op'" for op' :: "('d uinput_runtime, uinput_token) operation"
    by (simp_all add: release_device_def session_keys_def)
  consider (restored) requested report op' where
      "finish_with_restore (uinput_sink raw) uinput_target requested op = (report, op')" "rt' = release_device op'"
    | (failed) e report op' where "finish_hard_failure (uinput_sink raw) op e = (report, op')" "rt' = release_device op'"
    using assms(2) s
    by (auto simp: finish_execution_def finish_success_def finish_soft_cancel_def
        split: sum.splits prod.splits if_splits)
  then show ?thesis
  proof cases
    case restored
    with assms(3) have "tr_proof report = Reconciled" by (simp add: same finish_with_restore_latch)
    from finish_with_restore_reconciled [OF op restored(1) this] restored(2) show ?thesis by (simp add: same)
  next
    case failed
    with assms(3) have "tr_proof report = Reconciled" by (simp add: same uinput_hard_failure_latch)
    from finish_hard_failure_reconciled [OF op failed(1) this] failed(2) show ?thesis by (simp add: same)
  qed
qed

lemma synthetic_operation_keys:
  assumes "\<And>s. op_inv B (fst s) \<Longrightarrow> op_inv B (fst (snd (execute s)))" "down (ur_raw rt) \<subseteq> B"
    and "run_uinput_synthetic_operation raw oid octl modifiers temporarily execute (rt, control, x) = (r, rt', control', x')"
    and "ur_latch rt' = None"
  shows "down (ur_raw rt') \<subseteq> session_keys rt' \<union> B"
  using replayed.run_operation_cases [OF assms(3,1) operation_new_inv [OF assms(2)]] assms(2,4)
    finish_execution_keys [of B] by fastforce

lemma correction_keys:
  assumes "run_correction raw fresh now clock x11 cinnamon plan config modifiers switch (rt, control, x) = (r, rt', control', x')"
    and "ur_latch rt' = None"
  shows "down (ur_raw rt') \<subseteq> session_keys rt' \<union> down (ur_raw rt)"
proof (cases "if switch then cinnamon else None")
  case (Some replay)
  with assms(1) show ?thesis by (auto simp: run_correction_def split: sum.splits prod.splits)
next
  case None
  then consider "rt' = rt"
    | oid octl control1 where "run_uinput_synthetic_operation raw oid octl modifiers True
        (correction_body (uinput_sink raw) x11 plan config (ms_caps_lock_active modifiers) switch) (rt, control1, x) =
        (r, rt', control', x')"
    using assms(1) by (auto simp: run_correction_def split: sum.splits prod.splits)
  then show ?thesis
  proof cases
    case 2
    from synthetic_operation_keys [OF replayed.correction_body_inv order_refl this assms(2)] show ?thesis .
  qed simp
qed

lemma shortcut_keys:
  assumes "run_uinput_shortcut raw fresh now clock modifiers keys trigger (rt, control, x) = (r, rt', control', x')"
    and "ur_latch rt' = None"
  shows "down (ur_raw rt') \<subseteq> session_keys rt' \<union> down (ur_raw rt)"
  using synthetic_operation_keys [OF replayed.shortcut_inv order_refl _ assms(2)] assms(1)
  by (simp add: run_uinput_shortcut_def Let_def)

end

text \<open>
  C7: a correction leaves no key behind unnoticed.  Whatever the device answers, whatever other
  threads do to the transaction and however the correction ends: unless the failure latch is set, the
  device holds only keys it held before and modifiers recorded in the session's ledger.
\<close>

theorem correction_leaves_no_key:
  assumes "uinput_device raw down"
    and "run_correction raw fresh now clock x11 cinnamon plan config modifiers switch (rt, control, x) = (r, rt', control', x')"
    and "ur_latch rt' = None"
  shows "down (ur_raw rt') \<subseteq> session_keys rt' \<union> down (ur_raw rt)"
  by (rule uinput_device.correction_keys [OF assms])

subsection \<open>A device and a transaction\<close>

definition rec_raw :: "(key \<times> int) list raw_sink" where
  "rec_raw = \<lparr>write_key = (\<lambda>d k v. (Inr (), d @ [(k, v)])), synchronize_keys = (\<lambda>d. (Inr (), d))\<rparr>"

definition fresh_runtime :: "'d \<Rightarrow> 'd uinput_runtime" where
  "fresh_runtime d = \<lparr>ur_raw = d, ur_generation = 1, ur_next_token_id = 1, session_modifiers = session_ledger_new 1,
     ur_latch = None\<rparr>"

definition calm_lease :: session_lease where
  "calm_lease = \<lparr>sl_generation = 2, sl_session = \<lparr>as_session_id = ''c2'', as_seat = ''seat0''\<rparr>\<rparr>"

definition calm_view :: session_view where
  "calm_view = (publish (Authorized (sl_session calm_lease)) 10 session_access_new, 11)"

definition calm_memory :: "writer_shared \<times> writer_control" where
  "calm_memory = (\<lparr>ws_failure_request_id = 0, ws_stop_requested = False\<rparr>,
     \<lparr>wt_request_id = 7, wt_deadline = 5000000000, wt_state = TxPending, wt_soft_cancel = False, wt_mutation_authorized = False\<rparr>)"

definition calm_world :: tx_world where
  "calm_world = \<lparr>tx_lease = calm_lease, tx_memory = calm_memory, tx_time = 0,
     tx_moments = (\<lambda>_. \<lparr>tm_others = (\<lambda>m. m), tm_before = calm_view, tm_after = calm_view, tm_delay = 1\<rparr>),
     tx_looks = 0, tx_reads = (\<lambda>_. (calm_memory, 5))\<rparr>"

definition held_ctrl :: modifier_state where
  "held_ctrl = modifier_state_default\<lparr>left_ctrl := True, ms_caps_lock_active := True\<rparr>"

definition typed_word :: "keystroke list" where
  "typed_word = [\<lparr>ks_key = KEY_G, ks_shift = True, ks_caps_lock = True\<rparr>, \<lparr>ks_key = KEY_COMMA, ks_shift = False, ks_caps_lock = True\<rparr>]"

definition quick_config :: runtime_config_snapshot where
  "quick_config = (snapshot_of_config app_config_default)\<lparr>rcs_layout_delay_ms := 0, rcs_backspace_ms := 0, rcs_typing_ms := 0\<rparr>"

abbreviation "calm_run \<equiv> run_correction rec_raw 1 0 (\<lambda>_. 0) None None \<lparr>cp_buffer = [], extra_backspaces = 1\<rparr>
  quick_config held_ctrl False (fresh_runtime [(KEY_LEFTCTRL, 1)], Some calm_world, ())"

lemma keys_down_snoc:
  "keys_down S (d @ [(k, v)]) = (if v = 1 \<or> v = 2 then insert k (keys_down S d) else keys_down S d - {k})"
  by (induction S d rule: keys_down.induct) simp_all

interpretation recorder: uinput_device rec_raw "keys_down {}"
  by unfold_locales (auto simp: rec_raw_def keys_down_snoc)

theorem correction_leaves_no_key_witness:
  "case calm_run of (r, rt', _) \<Rightarrow> ur_latch rt' = None \<and> keys_down {} (ur_raw rt') \<subseteq> session_keys rt' \<union> {KEY_LEFTCTRL}"
proof -
  have ok: "case calm_run of (r, rt', c, x) \<Rightarrow> ur_latch rt' = None" by code_simp
  obtain r rt' c x where run: "calm_run = (r, rt', c, x)" by (metis prod_cases4)
  have latch: "ur_latch rt' = None" using ok unfolding run by simp
  from correction_leaves_no_key [OF recorder.uinput_device_axioms run latch]
  show ?thesis unfolding run using latch by (simp add: fresh_runtime_def)
qed

subsection \<open>What is typed\<close>

text \<open>
  C32: what a correction types.  A correction that succeeds on the uinput device has written exactly
  these key events: the releases of the modifiers the user holds, one backspace for every key of the
  plan and every extra one, the combination that switches the layout unless the X server switched it
  or no switch was asked for, every stroke of the plan with Shift as the Caps Lock state requires it,
  and the modifiers again, in the order opposite to their release.
\<close>

theorem correction_types_plan:
  assumes "traced raw trace" "switch \<Longrightarrow> cinnamon = None"
    and "run_correction raw fresh now clock x11 cinnamon plan config modifiers switch (rt, control, x) =
      (Inr outcome, rt', control', x')"
  shows "trace (ur_raw rt') = trace (ur_raw rt) @
      correction_events plan (rcs_layout_switch_combo config) modifiers outcome \<and>
    (outcome = NotNeeded \<longleftrightarrow> \<not> switch)"
  using correction_events_written [OF assms] .

abbreviation "plain_run \<equiv> run_correction rec_raw 1 0 (\<lambda>_. 0) None None
  \<lparr>cp_buffer = map normalize_stroke typed_word, extra_backspaces = 1\<rparr> quick_config held_ctrl True (fresh_runtime [], None, ())"

lemma plain_run_ok: "\<exists>rt'. plain_run = (Inr AppliedUinput, rt', None, ())"
proof -
  have ok: "case plain_run of (Inr outcome, rt', c, x) \<Rightarrow> outcome = AppliedUinput \<and> c = None | _ \<Rightarrow> False" by code_simp
  obtain r rt' c x where run: "plain_run = (r, rt', c, x)" by (metis prod_cases4)
  from ok show ?thesis unfolding run by (cases r) simp_all
qed

lemma rec_raw_traced: "traced rec_raw (\<lambda>d. d)"
  by (simp add: traced_def rec_raw_def)

lemma quick_config_combo: "rcs_layout_switch_combo quick_config = CtrlShift"
  by code_simp

theorem correction_types_plan_witness:
  "ur_raw (fst (snd plain_run)) = correction_events \<lparr>cp_buffer = map normalize_stroke typed_word, extra_backspaces = 1\<rparr>
     CtrlShift held_ctrl AppliedUinput"
proof -
  obtain rt' where run: "plain_run = (Inr AppliedUinput, rt', None, ())" using plain_run_ok by blast
  from correction_types_plan [OF rec_raw_traced _ run] show ?thesis
    unfolding run by (simp add: fresh_runtime_def quick_config_combo)
qed

subsection \<open>The word of the user\<close>

text \<open>The strokes an application receives while a buffer is replayed.\<close>

definition replayed :: "bool \<Rightarrow> keystroke list \<Rightarrow> keystroke list" where
  "replayed caps buf =
     map (\<lambda>s. \<lparr>ks_key = ks_key s, ks_shift = replay_shift_for_stroke s caps, ks_caps_lock = caps\<rparr>) buf"

lemma letter_key_lists: "is_case_sensitive_letter_key key \<longleftrightarrow> is_case_fix_letter_key key"
  by (auto simp: is_case_sensitive_letter_key_def is_case_fix_letter_key_def CASE_SENSITIVE_LETTER_KEYS_def
      CASE_FIX_LETTER_KEYS_def)

lemma replayed_normalized:
  "\<forall>s \<in> set buf. ks_caps_lock s = caps \<Longrightarrow> replayed caps (map normalize_stroke buf) = buf"
  by (induction buf) (auto simp: replayed_def replay_shift_for_stroke_def letter_key_lists)

lemma strokes_events_replayed:
  "strokes_events caps buf = concat (map (\<lambda>s. stroke_events (ks_key s) (ks_shift s)) (replayed caps buf))"
  by (induction buf) (simp_all add: replayed_def)



end
