(* ===== verification/Writer_Loop.thy ===== *)
theory Writer_Loop
  imports Correction_Replay
begin

text \<open>
  The writer thread of src/src/daemon/keyboard.rs: the only owner of the virtual device.  It takes
  commands from a queue, checks before each that the writer still runs, executes it, and publishes the
  answer.

  The end of the list of commands stands for a closed queue.  A command carries what the thread will
  see of its transaction (\<open>tx_env\<close>); the flags all transactions share are part of the thread's state.
  The replay through the guardian is a record of calls on \<open>'x\<close>.
\<close>

subsection \<open>Commands and state\<close>

record tx_env =
  env_lease :: session_lease
  env_control :: writer_control
  env_time :: nat
  env_moments :: "nat \<Rightarrow> tx_moment"
  env_reads :: "nat \<Rightarrow> (writer_shared \<times> writer_control) \<times> nat"

datatype writer_fast_command =
    ForwardEvent u64 key int
  | TypeSeparator key

datatype writer_command =
    Shutdown
  | FastCommand writer_fast_command tx_env
  | ExecuteTransaction tx_env "modifier_state writer_transaction_kind" bool
  | DeferredManualCurrentWordCorrection tx_env correction_plan runtime_config_snapshot modifier_state

datatype manual_current_word_outcome =
    ManualSucceeded correction_plan
  | ManualCancelled
  | ManualFailedAfterMutation string

record manual_current_word_completion =
  mc_request_id :: u64
  mc_outcome :: manual_current_word_outcome

text \<open>
  \<open>wl_replies\<close> are the answers that were sent, with the identifier of their transaction;
  \<open>wl_completion_receiver\<close> says whether somebody still listens for manual corrections.
\<close>

record ('d, 'x) writer_thread =
  wl_device :: "'d uinput_runtime"
  wl_x11 :: 'x
  wl_shared :: writer_shared
  wl_replies :: "(u64 \<times> correction_layout_switch_outcome res) list"
  wl_completions :: "manual_current_word_completion list"
  wl_completion_receiver :: bool

record 'x guardian_runtime =
  gr_run_correction :: "'x guardian_replay"
  gr_commit_physical_release :: "u64 \<Rightarrow> key \<Rightarrow> 'x \<Rightarrow> unit res \<times> 'x"
  gr_type_key :: "key \<Rightarrow> writer_shared \<Rightarrow> 'x \<Rightarrow> unit res \<times> writer_shared \<times> 'x"

record 'x writer_setup =
  su_x11_switcher :: "'x xkb_calls option"
  su_cinnamon :: "'x guardian_runtime option"
  su_display :: "switcher_error \<Rightarrow> string"
  su_fresh_id :: u64
  su_clock :: "nat \<Rightarrow> nat"

definition world_of :: "writer_shared \<Rightarrow> tx_env \<Rightarrow> tx_world" where
  "world_of sh env =
     \<lparr>tx_lease = env_lease env, tx_memory = (sh, env_control env), tx_time = env_time env,
      tx_moments = env_moments env, tx_looks = 0, tx_reads = env_reads env\<rparr>"

subsection \<open>Checks of the writer\<close>

definition ensure_writer_not_failed :: "writer_shared \<Rightarrow> unit res" where
  "ensure_writer_not_failed sh =
     (if ws_failure_request_id sh = 0 then Inr ()
      else Inl (VirtualKeyboardWriterTransactionTimedOut (ws_failure_request_id sh)))"

definition ensure_writer_running :: "writer_shared \<Rightarrow> unit res" where
  "ensure_writer_running sh =
     (if ws_stop_requested sh then Inl VirtualKeyboardWriterDisconnected else ensure_writer_not_failed sh)"

definition authorize_writer_mutation_start :: "tx_world \<Rightarrow> unit res \<times> tx_world" where
  "authorize_writer_mutation_start w =
     look (\<lambda>before after now memory.
       (and_then (session_current (tx_lease w) before) (\<lambda>_.
        and_then (ensure_writer_running (fst memory)) (\<lambda>_.
        session_current (tx_lease w) after)), memory)) w"

subsection \<open>Forwarding\<close>

definition forward_physical_event_with_commit ::
  "'d raw_sink \<Rightarrow> 'x guardian_runtime option \<Rightarrow> u64 \<Rightarrow> key \<Rightarrow> int \<Rightarrow> 'd uinput_runtime \<times> 'x \<Rightarrow>
   unit res \<times> 'd uinput_runtime \<times> 'x" where
  "forward_physical_event_with_commit raw cinnamon sequence key value s =
     (case s of (rt, x) \<Rightarrow>
      case forward_physical raw rt sequence key value of
        (Inl e, rt) \<Rightarrow> (Inl e, rt, x)
      | (Inr _, rt) \<Rightarrow>
          if value = 0
          then (case cinnamon of
                  Some replay \<Rightarrow> (case gr_commit_physical_release replay sequence key x of (r, x) \<Rightarrow> (r, rt, x))
                | None \<Rightarrow> (Inr (), rt, x))
          else (Inr (), rt, x))"

subsection \<open>Publishing\<close>

definition publish_writer_transaction_result ::
  "(switcher_error \<Rightarrow> string) \<Rightarrow> bool \<Rightarrow> correction_layout_switch_outcome res \<Rightarrow> tx_world \<Rightarrow>
   unit res \<times> bool \<times> tx_world" where
  "publish_writer_transaction_result display receiver result w =
     (case look (\<lambda>_ _ now memory.
        case publish_completed_with now (\<lambda>sent. (receiver, receiver)) memory False of
          (publication, memory, sent) \<Rightarrow> ((publication, sent), memory)) w of
        ((publication, sent), w) \<Rightarrow>
        (case publication of
           PubCompleted \<Rightarrow>
             (case result of
                Inl e \<Rightarrow> (Inl (VirtualKeyboardWriterTransactionFailed (wt_request_id (snd (tx_memory w))) (display e)), sent, w)
              | Inr _ \<Rightarrow> (Inr (), sent, w))
         | PubCancelled \<Rightarrow> (Inl (cancellation_error (fst (tx_memory w)) (snd (tx_memory w))), sent, w)
         | PubReceiverDisconnected \<Rightarrow> (Inl VirtualKeyboardWriterDisconnected, sent, w)))"

definition classify_manual_current_word_result ::
  "(switcher_error \<Rightarrow> string) \<Rightarrow> u64 \<Rightarrow> correction_plan \<Rightarrow> correction_layout_switch_outcome res \<Rightarrow>
   manual_current_word_outcome \<times> string option" where
  "classify_manual_current_word_result display request_id plan result =
     (case result of
        Inr _ \<Rightarrow> (ManualSucceeded plan, None)
      | Inl e \<Rightarrow>
          if e = VirtualKeyboardWriterTransactionCancelled request_id then (ManualCancelled, None)
          else (ManualFailedAfterMutation (display e), Some (display e)))"

text \<open>A publication that sends the completion \<open>c\<close> when it is allowed to.\<close>

definition send_completion ::
  "(nat \<Rightarrow> (manual_current_word_completion list \<Rightarrow> bool \<times> manual_current_word_completion list) \<Rightarrow>
     writer_shared \<times> writer_control \<Rightarrow> manual_current_word_completion list \<Rightarrow>
     writer_completion_publication \<times> (writer_shared \<times> writer_control) \<times> manual_current_word_completion list) \<Rightarrow>
   bool \<Rightarrow> manual_current_word_completion \<Rightarrow> manual_current_word_completion list \<times> tx_world \<Rightarrow>
   writer_completion_publication \<times> manual_current_word_completion list \<times> tx_world" where
  "send_completion pub receiver c s =
     (case s of (q, w) \<Rightarrow>
      case look (\<lambda>_ _ now memory.
        case pub now (\<lambda>q. (receiver, if receiver then q @ [c] else q)) memory q of
          (publication, memory, q) \<Rightarrow> ((publication, q), memory)) w of
        ((publication, q), w) \<Rightarrow> (publication, q, w))"

definition publish_deferred_manual_completion ::
  "bool \<Rightarrow> manual_current_word_completion \<Rightarrow> string option \<Rightarrow> manual_current_word_completion list \<times> tx_world \<Rightarrow>
   unit res \<times> manual_current_word_completion list \<times> tx_world" where
  "publish_deferred_manual_completion receiver completion failure_reason s =
     (case (if mc_outcome completion = ManualCancelled
            then send_completion publish_soft_cancelled_with receiver completion s
            else if failure_reason \<noteq> None then send_completion publish_failed_with receiver completion s
            else
              (case send_completion publish_completed_with receiver completion s of (publication, q, w) \<Rightarrow>
               let w' = pass w; id = wt_request_id (snd (tx_memory w')) in
               if publication = PubCancelled
               then if cancellation_error (fst (tx_memory w')) (snd (tx_memory w')) =
                       VirtualKeyboardWriterTransactionCancelled id
                    then send_completion publish_soft_cancelled_with receiver
                           \<lparr>mc_request_id = id, mc_outcome = ManualCancelled\<rparr> (q, w')
                    else (publication, q, w')
               else (publication, q, w))) of
        (publication, q, w) \<Rightarrow>
        (case publication of
           PubCompleted \<Rightarrow>
             (case failure_reason of
                Some reason \<Rightarrow> (Inl (VirtualKeyboardWriterTransactionFailed (wt_request_id (snd (tx_memory w))) reason), q, w)
              | None \<Rightarrow> (Inr (), q, w))
         | PubCancelled \<Rightarrow> (Inl (cancellation_error (fst (tx_memory w)) (snd (tx_memory w))), q, w)
         | PubReceiverDisconnected \<Rightarrow> (Inl VirtualKeyboardWriterDisconnected, q, w)))"

subsection \<open>Execution\<close>

text \<open>The control of a separator: only a stop or a failure of the writer cancels it.\<close>

definition separator_control :: "nat \<Rightarrow> (nat \<Rightarrow> (writer_shared \<times> writer_control) \<times> nat) \<Rightarrow> operation_control" where
  "separator_control now reads =
     \<lparr>ctl_deadline = now + from_millis (unat SHORTCUT_TRANSACTION_TIMEOUT_MS),
      ctl_observe = (\<lambda>n. case reads n of ((sh, _), t) \<Rightarrow>
        \<lparr>obs_cancelled = False, obs_additional = [ws_stop_requested sh],
         obs_failures = [ws_failure_request_id sh], obs_now = t\<rparr>),
      ctl_reads = 0, restore_down_authorizer = (\<lambda>_ _. Inr ())\<rparr>"

definition run_fast ::
  "'d raw_sink \<Rightarrow> 'x writer_setup \<Rightarrow> tx_env \<Rightarrow> writer_fast_command \<Rightarrow> ('d, 'x) writer_thread \<Rightarrow>
   unit res \<times> ('d, 'x) writer_thread" where
  "run_fast raw setting env command t =
     (let authorized = (\<lambda>t. case authorize_writer_mutation_start (world_of (wl_shared t) env) of
            (r, w) \<Rightarrow> (r, t\<lparr>wl_shared := fst (tx_memory w)\<rparr>))
      in case command of
        ForwardEvent sequence key value \<Rightarrow>
          then_st (authorized t) (\<lambda>_ t.
          case forward_physical_event_with_commit raw (su_cinnamon setting) sequence key value (wl_device t, wl_x11 t) of
            (r, rt, x) \<Rightarrow> (r, t\<lparr>wl_device := rt, wl_x11 := x\<rparr>))
      | TypeSeparator key \<Rightarrow>
          (case su_cinnamon setting of
             Some replay \<Rightarrow>
               (case gr_type_key replay key (wl_shared t) (wl_x11 t) of
                  (r, sh, x) \<Rightarrow> (r, t\<lparr>wl_shared := sh, wl_x11 := x\<rparr>))
           | None \<Rightarrow>
               then_st (authorized t) (\<lambda>_ t.
               case run_uinput_synthetic_operation raw (su_fresh_id setting)
                      (separator_control (env_time env) (env_reads env)) modifier_state_default False
                      (replay_synthetic_stroke (uinput_sink raw) key False 0)
                      (wl_device t, None, wl_x11 t) of
                 (r, rt, _, x) \<Rightarrow> (r, t\<lparr>wl_device := rt, wl_x11 := x\<rparr>))))"

text \<open>What the kinds of a transaction do, with the transaction active at the start.\<close>

definition execute_kind ::
  "'d raw_sink \<Rightarrow> 'x writer_setup \<Rightarrow> modifier_state writer_transaction_kind \<Rightarrow>
   'd uinput_runtime \<times> tx_world option \<times> 'x \<Rightarrow>
   correction_layout_switch_outcome res \<times> 'd uinput_runtime \<times> tx_world option \<times> 'x" where
  "execute_kind raw setting kind s =
     (let correct = (\<lambda>plan config modifiers switch_layout.
            run_correction raw (su_fresh_id setting) (su_clock setting 0) (su_clock setting) (su_x11_switcher setting)
              (map_option gr_run_correction (su_cinnamon setting)) plan config modifiers switch_layout s);
          shortcut = (\<lambda>modifiers key.
            then_st (run_uinput_shortcut raw (su_fresh_id setting) (su_clock setting 0) (su_clock setting) modifiers
              [KEY_LEFTCTRL] (Some key) s) (\<lambda>_ s. (Inr NotNeeded, s)))
      in case kind of
        ForwardDeferredEvent sequence key value \<Rightarrow>
          (case s of (rt, control, x) \<Rightarrow>
           case authorize_transaction_mutation control of
             (Inl e, control) \<Rightarrow> (Inl e, rt, control, x)
           | (Inr _, control) \<Rightarrow>
               (case forward_physical_event_with_commit raw (su_cinnamon setting) sequence key value (rt, x) of
                  (Inl e, rt, x) \<Rightarrow> (Inl e, rt, control, x)
                | (Inr _, rt, x) \<Rightarrow> (Inr NotNeeded, rt, control, x)))
      | ApplyCorrection plan config modifiers \<Rightarrow> correct plan config modifiers True
      | ApplySameLayoutCorrection plan config modifiers \<Rightarrow> correct plan config modifiers False
      | CopyShortcut modifiers \<Rightarrow> shortcut modifiers KEY_C
      | PasteShortcut modifiers \<Rightarrow> shortcut modifiers KEY_V)"

text \<open>Both kinds of transactions are checked before and, if they succeeded, after the execution.\<close>

definition execute_checked ::
  "('d uinput_runtime \<times> tx_world option \<times> 'x \<Rightarrow>
     correction_layout_switch_outcome res \<times> 'd uinput_runtime \<times> tx_world option \<times> 'x) \<Rightarrow>
   tx_env \<Rightarrow> ('d, 'x) writer_thread \<Rightarrow>
   correction_layout_switch_outcome res \<times> 'd uinput_runtime \<times> tx_world option \<times> 'x" where
  "execute_checked execute env t =
     (case ensure_transaction_active (Some (world_of (wl_shared t) env)) of
        (Inl e, control) \<Rightarrow> (Inl e, wl_device t, control, wl_x11 t)
      | (Inr _, control) \<Rightarrow>
          (case execute (wl_device t, control, wl_x11 t) of
             (Inl e, s) \<Rightarrow> (Inl e, s)
           | (Inr outcome, rt, control, x) \<Rightarrow>
               (case ensure_transaction_active control of
                  (Inl e, control) \<Rightarrow> (Inl e, rt, control, x)
                | (Inr _, control) \<Rightarrow> (Inr outcome, rt, control, x))))"

definition dispatch ::
  "'d raw_sink \<Rightarrow> 'x writer_setup \<Rightarrow> writer_command \<Rightarrow> ('d, 'x) writer_thread \<Rightarrow>
   unit res \<times> ('d, 'x) writer_thread" where
  "dispatch raw setting command t =
     (case command of
        Shutdown \<Rightarrow> (Inr (), t)
      | FastCommand fast env \<Rightarrow> run_fast raw setting env fast t
      | ExecuteTransaction env kind receiver \<Rightarrow>
          (case execute_checked (execute_kind raw setting kind) env t of
             (result, rt, control, x) \<Rightarrow>
             let w = (case control of Some w \<Rightarrow> w | None \<Rightarrow> world_of (wl_shared t) env) in
             case publish_writer_transaction_result (su_display setting) receiver result w of
               (r, sent, w) \<Rightarrow>
               (r, t\<lparr>wl_device := rt, wl_x11 := x, wl_shared := fst (tx_memory w),
                     wl_replies := (if sent then wl_replies t @ [(wt_request_id (snd (tx_memory w)), result)]
                                    else wl_replies t)\<rparr>))
      | DeferredManualCurrentWordCorrection env plan config modifiers \<Rightarrow>
          (case execute_checked
                  (run_correction raw (su_fresh_id setting) (su_clock setting 0) (su_clock setting) (su_x11_switcher setting)
                     (map_option gr_run_correction (su_cinnamon setting)) plan config modifiers True) env t of
             (result, rt, control, x) \<Rightarrow>
             let w = (case control of Some w \<Rightarrow> w | None \<Rightarrow> world_of (wl_shared t) env);
                 request_id = wt_request_id (env_control env) in
             case classify_manual_current_word_result (su_display setting) request_id plan result of
               (outcome, failure_reason) \<Rightarrow>
               (case publish_deferred_manual_completion (wl_completion_receiver t)
                       \<lparr>mc_request_id = request_id, mc_outcome = outcome\<rparr> failure_reason (wl_completions t, w) of
                  (r, completions, w) \<Rightarrow>
                  (r, t\<lparr>wl_device := rt, wl_x11 := x, wl_shared := fst (tx_memory w), wl_completions := completions\<rparr>))))"

text \<open>
  \<open>others\<close> is what other threads do to the shared flags before the loop looks at them again, one
  function for each look.
\<close>

definition is_shutdown :: "writer_command \<Rightarrow> bool" where
  "is_shutdown command = (case command of Shutdown \<Rightarrow> True | _ \<Rightarrow> False)"

fun command_loop ::
  "'d raw_sink \<Rightarrow> 'x writer_setup \<Rightarrow> ((writer_shared \<Rightarrow> writer_shared) \<times> writer_command) list \<Rightarrow>
   ('d, 'x) writer_thread \<Rightarrow> unit res \<times> ('d, 'x) writer_thread" where
  "command_loop raw setting [] t = (Inr (), t)"
| "command_loop raw setting ((others, command) # commands) t =
     (if is_shutdown command then (Inr (), t)
      else let t = t\<lparr>wl_shared := others (wl_shared t)\<rparr> in
        check (ensure_writer_running (wl_shared t)) t (\<lambda>_.
        then_st (dispatch raw setting command t) (\<lambda>_ t.
        command_loop raw setting commands t)))"

definition run_writer_command_loop_with_stop ::
  "'d raw_sink \<Rightarrow> 'x writer_setup \<Rightarrow> bool \<Rightarrow> ((writer_shared \<Rightarrow> writer_shared) \<times> writer_command) list \<Rightarrow>
   ('d, 'x) writer_thread \<Rightarrow> unit res \<times> ('d, 'x) writer_thread" where
  "run_writer_command_loop_with_stop raw setting starter commands t =
     check (ensure_writer_running (wl_shared t)) t (\<lambda>_.
     check (if starter then Inr () else Inl VirtualKeyboardWriterDisconnected) t (\<lambda>_.
     command_loop raw setting commands t))"

end
