(* ===== verification/Writer_Loop_Properties.thy ===== *)
theory Writer_Loop_Properties
  imports Writer_Loop Correction_Properties
begin

text \<open>
  What the writer thread guarantees over all commands it takes: the keys its device holds, and what a
  caller may conclude from an answer.
\<close>

subsection \<open>What every part of an operation keeps\<close>

lemma keep_sum:
  "(\<And>e. P (snd (f e))) \<Longrightarrow> (\<And>a. P (snd (g a))) \<Longrightarrow> P (snd (case r of Inl e \<Rightarrow> f e | Inr a \<Rightarrow> g a))"
  by (cases r) simp_all

text \<open>
  A property of the sink's state that its calls and those of the target keep, together with a latch
  that stays set, is kept by whole operations.
\<close>

locale sink_property =
  fixes sink :: "('w, 't) key_sink" and target :: "('w, 't) restored_target" and Q :: "'w \<Rightarrow> bool"
  assumes prepare_kept: "Q w \<Longrightarrow> Q (snd (prepare_down sink w k))"
    and down_kept: "Q w \<Longrightarrow> Q (snd (attempt_down sink w token))"
    and up_kept: "Q w \<Longrightarrow> Q (snd (attempt_up sink w token))"
    and sync_kept: "Q w \<Longrightarrow> Q (snd (sink_synchronize sink w))"
    and begin_kept: "Q w \<Longrightarrow> Q (snd (target_begin_restore target w k))"
    and adopt_kept: "Q w \<Longrightarrow> Q (snd (target_adopt target w k token))"
begin

definition kept :: "bool \<Rightarrow> ('w, 't) operation \<Rightarrow> bool" where
  "kept failed op \<longleftrightarrow> Q (op_sink op) \<and> (failed \<longrightarrow> op_latch op \<noteq> None)"

lemma kept_fields [simp]:
  "kept failed (op\<lparr>op_control := c\<rparr>) = kept failed op" "kept failed (op\<lparr>restore_plan := p\<rparr>) = kept failed op"
  "kept failed (op\<lparr>finalized := b\<rparr>) = kept failed op" "kept failed (op\<lparr>op_ledger := l\<rparr>) = kept failed op"
  "kept failed (op\<lparr>release_only_fallback := f\<rparr>) = kept failed op"
  by (simp_all add: kept_def)

lemma kept_on_sink: "kept failed op \<Longrightarrow> (\<And>w. Q w \<Longrightarrow> Q (snd (f w))) \<Longrightarrow> kept failed (snd (on_sink f op))"
  by (simp add: on_sink_def kept_def split_beta)

lemma kept_calls:
  assumes "kept failed op"
  shows "kept failed (snd (on_sink (\<lambda>w. prepare_down sink w key) op))"
    "kept failed (snd (on_sink (\<lambda>w. attempt_down sink w token) op))"
    "kept failed (snd (on_sink (\<lambda>w. attempt_up sink w token) op))"
    "kept failed (snd (on_sink (sink_synchronize sink) op))"
    "kept failed (snd (on_sink (\<lambda>w. target_begin_restore target w key) op))"
    "kept failed (snd (on_sink (\<lambda>w. target_adopt target w key token) op))"
  by (rule kept_on_sink [OF assms], simp add: prepare_kept down_kept up_kept sync_kept begin_kept adopt_kept)+

lemma kept_on_ledger: "kept failed op \<Longrightarrow> kept failed (snd (on_ledger f op))"
  by (simp add: on_ledger_def split: prod.splits)

lemma kept_active:
  "kept failed op \<Longrightarrow> kept failed (snd (ensure_active op))"
  "kept failed op \<Longrightarrow> kept failed (snd (ensure_cleanup_active op))"
  "kept failed op \<Longrightarrow> kept failed (snd (recheck_active e op))"
  by (simp_all add: Synthetic_Operation.ensure_active_def ensure_cleanup_active_def recheck_active_def
      split: prod.splits option.splits)

lemma kept_failure: "kept failed op \<Longrightarrow> kept failed (record_reconciliation_failure p op)"
  by (auto simp: kept_def record_reconciliation_failure_def latch_fail_def split: option.splits)

lemmas kt = keep_then [where P = "kept failed" for failed]
lemmas kc = keep_check [where P = "kept failed" for failed]
lemmas kb = keep_bind [where P = "kept failed" for failed]
lemmas kept_rules = kt kc kb kept_active kept_on_ledger kept_calls

lemma press_kept: "kept failed op \<Longrightarrow> kept failed (snd (press sink op key))"
  unfolding press_def by (auto intro!: kept_rules)

lemma release_kept: "kept failed op \<Longrightarrow> kept failed (snd (release sink op pid))"
  unfolding release_def by (auto intro!: kept_rules)

lemma temporarily_release_kept:
  "kept failed op \<Longrightarrow> kept failed (snd (temporarily_release_physical_modifier sink op key))"
  unfolding temporarily_release_physical_modifier_def Let_def
  by (auto intro!: kept_rules split: prod.splits)

lemma release_one_kept: "kept failed op \<Longrightarrow> kept failed (snd (snd (release_one sink token e op)))"
  using kept_calls(4) [OF kept_calls(3), of failed op token] by (simp add: release_one_def split_beta)

lemma release_loop_kept: "kept failed op \<Longrightarrow> kept failed (snd (release_loop sink ds e op))"
proof (induction ds arbitrary: e op)
  case (Cons d ds)
  obtain gone e1 op1 where "release_one sink (debt_token d) e op = (gone, e1, op1)" by (metis prod_cases3)
  with release_one_kept [OF Cons.prems, of "debt_token d" e] Cons.IH show ?case by simp
qed simp

lemma drain_loop_kept: "kept failed op \<Longrightarrow> kept failed (snd (snd (drain_loop sink ts retained e op)))"
proof (induction ts arbitrary: retained e op)
  case (Cons t ts)
  obtain gone e1 op1 where "release_one sink t e op = (gone, e1, op1)" by (metis prod_cases3)
  with release_one_kept [OF Cons.prems, of t e] Cons.IH show ?case by simp
qed simp

lemma cleanup_kept: "kept failed op \<Longrightarrow> kept failed (snd (snd (terminal_cleanup sink c op)))"
proof -
  assume op: "kept failed op"
  let ?op = "op\<lparr>op_ledger := ledger_begin_terminal (op_ledger op)\<rparr>"
  have r: "kept failed (snd (release_all sink ?op))"
    using op release_loop_kept [of failed ?op] by (simp add: release_all_def split_beta)
  have "kept failed (snd (drain_release_only_fallback sink (snd (release_all sink ?op))))"
    using drain_loop_kept [of failed "(snd (release_all sink ?op))\<lparr>release_only_fallback := []\<rparr>"] r
    by (simp add: drain_release_only_fallback_def split_beta)
  from kept_calls(4) [OF this] show ?thesis
    by (simp add: terminal_cleanup_def Let_def split_beta)
qed

lemma transfer_kept: "kept failed op \<Longrightarrow> kept failed (snd (pending_transfer_commit target key token op))"
  using kept_calls(6) [of failed op key token] by (simp add: pending_transfer_commit_def split_beta)

lemma restore_one_kept: "kept failed op \<Longrightarrow> kept failed (snd (restore_one_modifier sink target mode op key))"
  unfolding restore_one_modifier_def
  by (rule kt, erule kept_active(2), rule kt, erule kept_calls(1), rule kt, erule kept_active(2), rule kc, assumption,
      rule kt, erule kept_on_ledger, rule kb, erule kept_calls(5), rule keep_sum,
      rule kt, erule kept_on_ledger, simp,
      rule kb, erule kept_calls(2), rule kt, erule kept_on_ledger, rule kc, assumption,
      rule kt, erule kept_active(2), rule kt, erule kept_calls(4), rule kt, erule kept_active(2),
      rule kt, erule kept_on_ledger, erule transfer_kept)

lemma restore_loop_kept: "kept failed op \<Longrightarrow> kept failed (snd (restore_loop sink target mode keys op))"
proof (induction keys arbitrary: op)
  case (Cons k keys)
  then show ?case using restore_one_kept [OF Cons.prems, of mode k] by (auto split: prod.splits sum.splits)
qed simp

lemma finish_kept:
  "kept failed op \<Longrightarrow> kept failed (snd (finish_with_restore sink target requested op))"
  "kept failed op \<Longrightarrow> kept failed (snd (finish_hard_failure sink op e))"
proof -
  assume op: "kept failed op"
  obtain c op1 where r: "restore_planned_modifiers sink target (if requested = SoftCancelled then SoftCancelCleanup else SuccessCleanup) op =
      (c, op1)" by fastforce
  have op1: "kept failed op1" using restore_loop_kept [OF op] r by (metis restore_planned_modifiers_def snd_conv)
  obtain c2 p op2 where t: "terminal_cleanup sink c op1 = (c2, p, op2)" by (metis prod_cases3)
  have "kept failed op2" using cleanup_kept [OF op1, of c] t by simp
  then show "kept failed (snd (finish_with_restore sink target requested op))"
    using r t kept_failure by (simp add: finish_with_restore_def Let_def)
  obtain c3 p3 op3 where t3: "terminal_cleanup sink None op = (c3, p3, op3)" by (metis prod_cases3)
  have "kept failed op3" using cleanup_kept [OF op, of None] t3 by simp
  then show "kept failed (snd (finish_hard_failure sink op e))"
    using t3 kept_failure by (simp add: finish_hard_failure_def Let_def)
qed

end

sublocale sink_property \<subseteq> replayed: replay_steps sink "kept failed" for failed
  by unfold_locales (erule press_kept, erule release_kept)

subsection \<open>The session's ledger during an operation\<close>

text \<open>No operation takes a key out of the session's ledger; only a physical release does.\<close>

definition ledger_grows :: "key set \<Rightarrow> 'd uinput_runtime \<Rightarrow> bool" where
  "ledger_grows K rt \<longleftrightarrow> K \<subseteq> session_keys rt \<and> session_ledger_inv (session_modifiers rt)"

lemma ledger_grows_fields [simp]:
  "ledger_grows K (rt\<lparr>ur_raw := d\<rparr>) = ledger_grows K rt" "ledger_grows K (rt\<lparr>ur_next_token_id := n\<rparr>) = ledger_grows K rt"
  "ledger_grows K (rt\<lparr>ur_latch := t\<rparr>) = ledger_grows K rt"
  by (simp_all add: ledger_grows_def session_keys_def)

lemma ledger_grows_session:
  assumes "ledger_grows K rt"
    and "\<And>l. session_ledger_inv l \<Longrightarrow> session_ledger_inv (snd (f l))"
    and "\<And>l r l'. f l = (r, l') \<Longrightarrow> sd_key ` set (sl_entries l) \<subseteq> sd_key ` set (sl_entries l')"
  shows "ledger_grows K (snd (on_session f rt))"
  using assms(1) assms(2) [of "session_modifiers rt"] assms(3) [of "session_modifiers rt"]
  by (cases "f (session_modifiers rt)") (auto simp: ledger_grows_def on_session_def session_keys_def)

interpretation ledger: sink_property "uinput_sink raw" uinput_target "ledger_grows K" for raw :: "'d raw_sink" and K
proof unfold_locales
  fix w :: "'d uinput_runtime" and k token
  assume w: "ledger_grows K w"
  then show "ledger_grows K (snd (prepare_down (uinput_sink raw) w k))"
    by (auto simp: uinput_sink_def uinput_prepare_down_def Let_def split: option.splits)
  from w show "ledger_grows K (snd (attempt_down (uinput_sink raw) w token))"
    by (cases "authorize_synthetic_down (session_modifiers w) (ut_key token)")
      (simp_all add: uinput_sink_def uinput_attempt_down_def on_raw_def split_beta)
  from w show "ledger_grows K (snd (attempt_up (uinput_sink raw) w token))"
    by (simp add: uinput_sink_def uinput_attempt_up_def on_raw_def split_beta)
  from w show "ledger_grows K (snd (sink_synchronize (uinput_sink raw) w))"
    by (simp add: uinput_sink_def on_raw_def split_beta)
  have "session_ledger_inv l \<Longrightarrow> session_ledger_inv (snd (begin_restore l k))" for l :: "uinput_token session_ledger"
    by (simp add: begin_restore_def mark_restoring_def session_transition_inv)
  with w show "ledger_grows K (snd (target_begin_restore uinput_target w k))"
    using begin_restore_keys by (fastforce simp: uinput_target_def intro!: ledger_grows_session)
  from w show "ledger_grows K (snd (target_adopt uinput_target w k token))"
    using adopt_restored_keys by (fastforce simp: uinput_target_def intro!: ledger_grows_session adopt_restored_inv)
qed

interpretation ledger_replay: uinput_replay raw "sink_property.kept (ledger_grows K) failed" for raw :: "'d raw_sink" and K failed
proof unfold_locales
  fix op :: "('d uinput_runtime, uinput_token) operation" and key
  assume op: "sink_property.kept (ledger_grows K) failed op"
  then show "sink_property.kept (ledger_grows K) failed (snd (temporarily_release_physical_modifier (uinput_sink raw) op key))"
    by (rule ledger.temporarily_release_kept)
  from op show "sink_property.kept (ledger_grows K) failed (snd (on_sink (on_session (\<lambda>l. mark_temporarily_released l key)) op))"
    by (rule ledger.kept_on_sink)
      (auto intro!: ledger_grows_session simp: mark_temporarily_released_def session_transition_inv dest: session_transition_keys)
qed

abbreviation grown :: "'d uinput_runtime \<Rightarrow> 'd uinput_runtime \<Rightarrow> bool" where
  "grown rt rt' \<equiv> ledger_grows (session_keys rt) rt' \<and> (ur_latch rt' = None \<longrightarrow> ur_latch rt = None)"

lemma finish_execution_grown:
  assumes "sink_property.kept (ledger_grows K) failed op"
    and "finish_execution raw oid execution (op, control, x) = (r, rt', control', x')"
  shows "ledger_grows K rt' \<and> (failed \<longrightarrow> ur_latch rt' \<noteq> None)"
proof -
  have released: "ledger_grows K (release_device op') \<and> (failed \<longrightarrow> ur_latch (release_device op') \<noteq> None)"
    if "sink_property.kept (ledger_grows K) failed op'" for op' :: "('d uinput_runtime, uinput_token) operation"
    using that by (simp add: ledger.kept_def release_device_def)
  obtain op' where "rt' = release_device op'" "sink_property.kept (ledger_grows K) failed op'"
    using assms(2) ledger.finish_kept [OF assms(1), of raw]
    by (auto simp: finish_execution_def finish_success_def finish_soft_cancel_def
        split: sum.splits prod.splits if_splits) (metis snd_conv)+
  with released show ?thesis by simp
qed

lemma synthetic_operation_grown:
  fixes rt :: "'d uinput_runtime"
  assumes "run_uinput_synthetic_operation raw oid octl modifiers temporarily execute (rt, control, x) = (r, rt', control', x')"
    and "\<And>s. sink_property.kept (ledger_grows (session_keys rt)) (ur_latch rt \<noteq> None) (fst s) \<Longrightarrow>
      sink_property.kept (ledger_grows (session_keys rt)) (ur_latch rt \<noteq> None) (fst (snd (execute s)))"
    and "session_ledger_inv (session_modifiers rt)"
  shows "grown rt rt'"
proof -
  have self: "ledger_grows (session_keys rt) rt" using assms(3) by (simp add: ledger_grows_def)
  have new: "sink_property.kept (ledger_grows (session_keys rt)) (ur_latch rt \<noteq> None)
      (operation_new oid rt octl frozen (ur_latch rt) :: ('d uinput_runtime, uinput_token) operation)" for frozen
    using self by (simp add: ledger.kept_def operation_new_def)
  from ledger_replay.run_operation_cases [OF assms(1,2) new] show ?thesis
    using self finish_execution_grown by fastforce
qed

lemma correction_grown:
  assumes "run_correction raw fresh now clock x11 cinnamon plan config modifiers switch (rt, control, x) = (r, rt', control', x')"
    and "session_ledger_inv (session_modifiers rt)"
  shows "grown rt rt'"
proof -
  consider "rt' = rt"
    | oid octl control1 where "run_uinput_synthetic_operation raw oid octl modifiers True
        (correction_body (uinput_sink raw) x11 plan config (ms_caps_lock_active modifiers) switch) (rt, control1, x) =
        (r, rt', control', x')"
    using assms(1) by (auto simp: run_correction_def split: sum.splits prod.splits option.splits if_splits)
  then show ?thesis
  proof cases
    case 1
    with assms(2) show ?thesis by (simp add: ledger_grows_def)
  next
    case 2
    from synthetic_operation_grown [OF this ledger.replayed.correction_body_inv assms(2)] show ?thesis .
  qed
qed

lemma shortcut_grown:
  assumes "run_uinput_shortcut raw fresh now clock modifiers keys trigger (rt, control, x) = (r, rt', control', x')"
    and "session_ledger_inv (session_modifiers rt)"
  shows "grown rt rt'"
  using synthetic_operation_grown [OF _ ledger.replayed.shortcut_inv assms(2)] assms(1)
  by (simp add: run_uinput_shortcut_def Let_def)

subsection \<open>The keys the writer's device holds\<close>

text \<open>The physical events a command forwards, and the keys they leave pressed.\<close>

fun forwarded :: "writer_command \<Rightarrow> (key \<times> int) list" where
  "forwarded (FastCommand (ForwardEvent sequence key v) env) = [(key, v)]"
| "forwarded (ExecuteTransaction env (ForwardDeferredEvent sequence key v) receiver) = [(key, v)]"
| "forwarded _ = []"

definition forwarded_until_shutdown :: "writer_command list \<Rightarrow> (key \<times> int) list" where
  "forwarded_until_shutdown commands = concat (map forwarded (takeWhile (\<lambda>c. \<not> is_shutdown c) commands))"

fun held_after :: "key set \<Rightarrow> (key \<times> int) list \<Rightarrow> key set" where
  "held_after P [] = P"
| "held_after P ((key, v) # events) = held_after (if v = 0 then P - {key} else insert key P) events"

lemma held_after_append [simp]: "held_after P (xs @ ys) = held_after (held_after P xs) ys"
  by (induction P xs rule: held_after.induct) simp_all

text \<open>A device on which an event of any value presses at most its own key.\<close>

locale forwarding_device = uinput_device raw down
  for raw :: "'d raw_sink" and down :: "'d \<Rightarrow> key set" +
  assumes any_written: "write_key raw d k v = (r, d') \<Longrightarrow> down d' \<subseteq> insert k (down d)"
begin

definition answered :: "key set \<Rightarrow> 'd uinput_runtime \<Rightarrow> bool" where
  "answered P rt \<longleftrightarrow> session_ledger_inv (session_modifiers rt) \<and>
     (ur_latch rt = None \<longrightarrow> down (ur_raw rt) \<subseteq> session_keys rt \<union> P)"

lemma operation_answered:
  assumes "answered P rt" "grown rt rt'" "ur_latch rt' = None \<Longrightarrow> down (ur_raw rt') \<subseteq> session_keys rt' \<union> down (ur_raw rt)"
  shows "answered P rt'"
proof -
  have "session_ledger_inv (session_modifiers rt')" "session_keys rt \<subseteq> session_keys rt'"
    using assms(2) by (simp_all add: ledger_grows_def)
  moreover have "down (ur_raw rt') \<subseteq> session_keys rt' \<union> P" if "ur_latch rt' = None"
  proof -
    have "down (ur_raw rt) \<subseteq> session_keys rt \<union> P" using assms(1,2) that by (simp add: answered_def)
    with assms(3) [OF that] \<open>session_keys rt \<subseteq> session_keys rt'\<close> show ?thesis by blast
  qed
  ultimately show ?thesis by (simp add: answered_def)
qed

lemma forward_answered:
  assumes "answered P rt" and fwd: "forward_physical raw rt sequence key v = (Inr token, rt')"
  shows "answered (held_after P [(key, v)]) rt'"
proof -
  have inv: "session_ledger_inv (session_modifiers rt)" using assms(1) by (simp add: answered_def)
  note effect = forward_physical_effect [OF fwd inv, of down, OF release_synchronized]
  obtain u1 d1 u2 d2 where w: "write_key raw (ur_raw rt) key v = (Inr u1, d1)" "synchronize_keys raw d1 = (Inr u2, d2)"
    and rt': "ur_raw rt' = d2" "ur_latch rt' = ur_latch rt"
    using fwd by (auto simp: forward_physical_def on_raw_def on_session_def check_Inr_iff split: prod.splits if_splits)
  show ?thesis
  proof (cases "v = 0")
    case True
    have "session_ledger_inv (session_modifiers rt')"
      using fwd True commit_release_inv [OF inv]
      by (auto simp: forward_physical_def on_raw_def on_session_def split: prod.splits) (metis snd_conv)
    moreover have "session_keys rt' = session_keys rt - {key}" "key \<notin> down (ur_raw rt')"
      using effect True by simp_all
    moreover have "down (ur_raw rt') \<subseteq> down (ur_raw rt)"
      using release_written [OF w(1) [unfolded True]] synchronized [OF w(2)] rt' by blast
    ultimately show ?thesis using assms(1) rt' True by (auto simp: answered_def)
  next
    case False
    then have "session_modifiers rt' = session_modifiers rt" using effect by simp
    moreover have "down (ur_raw rt') \<subseteq> insert key (down (ur_raw rt))"
      using any_written [OF w(1)] synchronized [OF w(2)] rt' by blast
    ultimately show ?thesis using assms(1) rt' False by (auto simp: answered_def session_keys_def)
  qed
qed

lemma forward_commit_answered:
  assumes "answered P rt" "forward_physical_event_with_commit raw cinnamon sequence key v (rt, x) = (Inr u, rt', x')"
  shows "answered (held_after P [(key, v)]) rt'"
proof -
  obtain token where "forward_physical raw rt sequence key v = (Inr token, rt')"
    using assms(2) by (auto simp: forward_physical_event_with_commit_def bind_iff sum_iff split: if_splits option.splits prod.splits sum.splits)
  from forward_answered [OF assms(1) this] show ?thesis .
qed

lemma execute_kind_answered:
  assumes "answered P rt" "execute_kind raw setting kind (rt, control, x) = (Inr outcome, rt', control', x')"
  shows "answered (held_after P (forwarded (ExecuteTransaction env kind receiver))) rt'"
proof -
  have inv: "session_ledger_inv (session_modifiers rt)" using assms(1) by (simp add: answered_def)
  note correction = operation_answered [OF assms(1) correction_grown [OF _ inv] correction_keys]
  note shortcut = operation_answered [OF assms(1) shortcut_grown [OF _ inv] shortcut_keys]
  show ?thesis
  proof (cases kind)
    case (ForwardDeferredEvent sequence key v)
    with assms(2) obtain u x1 where "forward_physical_event_with_commit raw (su_cinnamon setting) sequence key v (rt, x) = (Inr u, rt', x1)"
      by (auto simp: execute_kind_def bind_iff sum_iff split: prod.splits sum.splits)
    from forward_commit_answered [OF assms(1) this] ForwardDeferredEvent show ?thesis by simp
  next
    case (ApplyCorrection plan config modifiers)
    with assms(2) show ?thesis by (auto simp: execute_kind_def intro: correction)
  next
    case (ApplySameLayoutCorrection plan config modifiers)
    with assms(2) show ?thesis by (auto simp: execute_kind_def intro: correction)
  next
    case (CopyShortcut modifiers)
    with assms(2) show ?thesis by (auto simp: execute_kind_def intro: shortcut)
  next
    case (PasteShortcut modifiers)
    with assms(2) show ?thesis by (auto simp: execute_kind_def intro: shortcut)
  qed
qed

lemma run_fast_answered:
  assumes "answered P (wl_device t)" "run_fast raw setting env fast t = (Inr u, t')"
  shows "answered (held_after P (forwarded (FastCommand fast env))) (wl_device t')"
proof (cases fast)
  case (ForwardEvent sequence key v)
  with assms(2) obtain x u x1 where "forward_physical_event_with_commit raw (su_cinnamon setting) sequence key v (wl_device t, x) =
      (Inr u, wl_device t', x1)"
    by (auto simp: run_fast_def Let_def bind_iff split: prod.splits)
  from forward_commit_answered [OF assms(1) this] ForwardEvent show ?thesis by simp
next
  case (TypeSeparator key)
  have inv: "session_ledger_inv (session_modifiers (wl_device t))" using assms(1) by (simp add: answered_def)
  consider "wl_device t' = wl_device t"
    | r octl c' x' where "run_uinput_synthetic_operation raw (su_fresh_id setting) octl modifier_state_default False
        (replay_synthetic_stroke (uinput_sink raw) key False 0) (wl_device t, None, wl_x11 t) = (r, wl_device t', c', x')"
  proof (cases "su_cinnamon setting")
    case None
    with assms(2) TypeSeparator obtain r c' x' where "run_uinput_synthetic_operation raw (su_fresh_id setting)
        (separator_control (env_time env) (env_reads env)) modifier_state_default False
        (replay_synthetic_stroke (uinput_sink raw) key False 0) (wl_device t, None, wl_x11 t) = (r, wl_device t', c', x')"
      by (auto simp: run_fast_def Let_def bind_iff split: prod.splits)
    with that(2) show ?thesis by blast
  next
    case (Some replay)
    with assms(2) TypeSeparator that(1) show ?thesis by (auto simp: run_fast_def Let_def split: prod.splits)
  qed
  then show ?thesis
  proof cases
    case 1
    with assms(1) TypeSeparator show ?thesis by simp
  next
    case 2
    from operation_answered [OF assms(1) synthetic_operation_grown [OF 2 ledger.replayed.stroke_inv inv]
        synthetic_operation_keys [OF replayed.stroke_inv order_refl 2]] TypeSeparator
    show ?thesis by simp
  qed
qed

end

lemma publish_ok: "publish_writer_transaction_result display receiver result w = (Inr u, sent, w') \<Longrightarrow> \<exists>outcome. result = Inr outcome"
  by (auto simp: publish_writer_transaction_result_def split: prod.splits writer_completion_publication.splits sum.splits)

lemma dispatch_transaction:
  assumes "execute_checked (execute_kind raw setting kind) env t = (result, rt, control, x)"
    and "publish_writer_transaction_result (su_display setting) receiver result
      (case control of Some w \<Rightarrow> w | None \<Rightarrow> world_of (wl_shared t) env) = (r, sent, w')"
  shows "dispatch raw setting (ExecuteTransaction env kind receiver) t =
    (r, t\<lparr>wl_device := rt, wl_x11 := x, wl_shared := fst (tx_memory w'),
       wl_replies := (if sent then wl_replies t @ [(wt_request_id (snd (tx_memory w')), result)] else wl_replies t)\<rparr>)"
  by (simp only: dispatch_def writer_command.case assms prod.case Let_def)

lemma execute_checked_ok:
  assumes "execute_checked execute env t = (Inr outcome, rt, control, x)"
  shows "\<exists>c1 c2. execute (wl_device t, c1, wl_x11 t) = (Inr outcome, rt, c2, x)"
  using assms by (cases "ensure_transaction_active (Some (world_of (wl_shared t) env))")
    (fastforce simp: execute_checked_def split: prod.splits sum.splits)

lemma execute_checked_device:
  assumes "execute_checked execute env t = (result, rt, control, x)"
  shows "rt = wl_device t \<or> (\<exists>c1 r c2. execute (wl_device t, c1, wl_x11 t) = (r, rt, c2, x))"
  using assms by (cases "ensure_transaction_active (Some (world_of (wl_shared t) env))")
    (fastforce simp: execute_checked_def split: prod.splits sum.splits)

context forwarding_device
begin

lemma dispatch_answered:
  assumes "answered P (wl_device t)" "dispatch raw setting command t = (Inr u, t')"
  shows "answered (held_after P (forwarded command)) (wl_device t')"
proof (cases command)
  case Shutdown
  with assms show ?thesis by (simp add: dispatch_def)
next
  case (FastCommand fast env)
  with assms run_fast_answered show ?thesis by (simp add: dispatch_def)
next
  case (ExecuteTransaction env kind receiver)
  obtain result rt control x where run: "execute_checked (execute_kind raw setting kind) env t = (result, rt, control, x)"
    by (metis prod_cases4)
  obtain r sent w' where publication: "publish_writer_transaction_result (su_display setting) receiver result
      (case control of Some w \<Rightarrow> w | None \<Rightarrow> world_of (wl_shared t) env) = (r, sent, w')" by (metis prod_cases3)
  from trans [OF dispatch_transaction [OF run publication, symmetric] assms(2) [unfolded ExecuteTransaction]]
  have "r = Inr u" and t': "wl_device t' = rt" by clarsimp+
  from publish_ok [OF publication [unfolded this(1)]] obtain outcome where "result = Inr outcome" by blast
  from execute_checked_ok [OF run [unfolded this]] obtain c1 c2 where "execute_kind raw setting kind (wl_device t, c1, wl_x11 t) = (Inr outcome, rt, c2, x)"
    by blast
  from execute_kind_answered [OF assms(1) this] t' ExecuteTransaction show ?thesis by simp
next
  case (DeferredManualCurrentWordCorrection env plan config modifiers)
  have inv: "session_ledger_inv (session_modifiers (wl_device t))" using assms(1) by (simp add: answered_def)
  let ?execute = "run_correction raw (su_fresh_id setting) (su_clock setting 0) (su_clock setting) (su_x11_switcher setting)
      (map_option gr_run_correction (su_cinnamon setting)) plan config modifiers True"
  obtain result rt control x where run: "execute_checked ?execute env t = (result, rt, control, x)"
    by (metis prod_cases4)
  have t': "wl_device t' = rt"
    using assms(2) by (simp add: dispatch_def DeferredManualCurrentWordCorrection run split_beta Let_def) auto
  from execute_checked_device [OF run] have "answered P rt"
  proof
    assume "\<exists>c1 r c2. ?execute (wl_device t, c1, wl_x11 t) = (r, rt, c2, x)"
    then obtain c1 r c2 where "?execute (wl_device t, c1, wl_x11 t) = (r, rt, c2, x)" by blast
    from operation_answered [OF assms(1) correction_grown [OF this inv] correction_keys [OF this]] show ?thesis .
  qed (simp add: assms(1))
  with t' DeferredManualCurrentWordCorrection show ?thesis by simp
qed

lemma command_loop_answered:
  assumes "answered P (wl_device t)" "command_loop raw setting commands t = (Inr u, t')"
  shows "answered (held_after P (forwarded_until_shutdown (map snd commands))) (wl_device t')"
  using assms
proof (induction commands arbitrary: P t)
  case Nil
  then show ?case by (simp add: forwarded_until_shutdown_def)
next
  case (Cons c commands)
  obtain others command where c: "c = (others, command)" by fastforce
  let ?t = "t\<lparr>wl_shared := others (wl_shared t)\<rparr>"
  show ?case
  proof (cases "is_shutdown command")
    case True
    with Cons.prems c show ?thesis by (simp add: forwarded_until_shutdown_def)
  next
    case False
    with Cons.prems(2) c obtain v t1 where run: "dispatch raw setting command ?t = (Inr v, t1)"
      "command_loop raw setting commands t1 = (Inr u, t')"
      by (auto simp: Let_def)
    have "answered P (wl_device ?t)" using Cons.prems(1) by simp
    from Cons.IH [OF dispatch_answered [OF this run(1)] run(2)] c False show ?thesis
      by (simp add: forwarded_until_shutdown_def)
  qed
qed

end


text \<open>A run on the recording device: Ctrl is pressed, a separator typed, a letter forwarded late.\<close>

definition calm_env :: tx_env where
  "calm_env = \<lparr>env_lease = calm_lease, env_control = snd calm_memory, env_time = 0, env_moments = tx_moments calm_world,
     env_reads = tx_reads calm_world\<rparr>"

definition plain_setup :: "unit writer_setup" where
  "plain_setup = \<lparr>su_x11_switcher = None, su_cinnamon = None, su_display = (\<lambda>_. ''failed''), su_fresh_id = 1, su_clock = (\<lambda>_. 0)\<rparr>"

definition calm_thread :: "((key \<times> int) list, unit) writer_thread" where
  "calm_thread = \<lparr>wl_device = fresh_runtime [], wl_x11 = (), wl_shared = fst calm_memory, wl_replies = [],
     wl_completions = [], wl_completion_receiver = True\<rparr>"

definition calm_commands :: "((writer_shared \<Rightarrow> writer_shared) \<times> writer_command) list" where
  "calm_commands = map (\<lambda>c. (\<lambda>sh. sh, c))
     [FastCommand (ForwardEvent 1 KEY_LEFTCTRL 1) calm_env, FastCommand (TypeSeparator KEY_SPACE) calm_env,
      ExecuteTransaction calm_env (ForwardDeferredEvent 2 KEY_G 1) True, FastCommand (ForwardEvent 3 KEY_LEFTCTRL 0) calm_env,
      Shutdown, FastCommand (ForwardEvent 4 KEY_A 1) calm_env]"

abbreviation "calm_writer \<equiv> run_writer_command_loop_with_stop rec_raw plain_setup True calm_commands calm_thread"

interpretation recorder: forwarding_device rec_raw "keys_down {}"
  by unfold_locales (auto simp: rec_raw_def keys_down_snoc)


subsection \<open>What an answer means\<close>

lemma nested_pair: "\<exists>a b c. p = ((a, b), c)"
  by (metis surj_pair)

lemma publish_sent:
  assumes "publish_writer_transaction_result display receiver result w = (r, True, w')"
  shows "receiver \<and> (case result of Inl e \<Rightarrow> r = Inl (VirtualKeyboardWriterTransactionFailed (wt_request_id (snd (tx_memory w'))) (display e))
    | Inr _ \<Rightarrow> r = Inr ())"
proof -
  let ?look = "look (\<lambda>_ _ now memory.
      case publish_completed_with now (\<lambda>sent. (receiver, receiver)) memory False of
        (publication, memory, sent) \<Rightarrow> ((publication, sent), memory)) w"
  obtain publication sent w1 where look: "?look = ((publication, sent), w1)"
    using nested_pair [of ?look] by blast
  obtain p memory q where given: "publish_completed_with (tx_time (pass w)) (\<lambda>sent. (receiver, receiver)) (tx_memory (pass w)) False =
      (p, memory, q)" by (metis prod_cases3)
  have "q \<longrightarrow> receiver \<and> p = PubCompleted"
    using given by (cases receiver) (auto simp: publish_completed_with_def publish_with_def split: prod.splits if_splits)
  moreover have "publication = p" "sent = q" using look given by (simp_all add: look_def)
  ultimately have sent: "sent \<longrightarrow> receiver \<and> publication = PubCompleted" by simp
  note run = assms [unfolded publish_writer_transaction_result_def look prod.case]
  show ?thesis
  proof (cases "publication = PubCompleted")
    case True
    with run sent show ?thesis by (cases result) auto
  next
    case False
    then have "\<not> sent" using sent by simp
    with run False show ?thesis by (cases publication) auto
  qed
qed


abbreviation "answered_run \<equiv> dispatch rec_raw plain_setup
  (ExecuteTransaction calm_env (ApplySameLayoutCorrection \<lparr>cp_buffer = [], extra_backspaces = 1\<rparr> quick_config held_ctrl) True) calm_thread"


end
