(* ===== verification/Word_Tracking.thy ===== *)
theory Word_Tracking
  imports Modifier_State Layout_Detection
begin

text \<open>
  What the event loop remembers of the word being typed: src/src/daemon/input_snapshot.rs, the
  settings and the layout as one consistent picture, and the first half of src/src/daemon/service.rs,
  the word before the cursor, the correction that waits for its separator, and the keys whose events
  are held back.  Instants are nanoseconds; the debug log is left out.
\<close>

subsection \<open>The snapshot (src/src/daemon/input_snapshot.rs)\<close>

definition INPUT_LAYOUT_FRESHNESS :: nat where "INPUT_LAYOUT_FRESHNESS = 1000000000"

datatype input_layout_status = Fresh | AwaitingConfirmation | Stale | UnknownStatus

record snapshot_authorization =
  auth_config_generation :: u64
  auth_layout_generation :: u64
  auth_layout_epoch :: u64

record input_runtime_snapshot =
  is_config :: runtime_config_snapshot
  is_enabled :: bool
  is_features :: feature_availability
  is_session_type :: session_type
  is_layout_state :: current_layout_state
  config_generation :: u64
  layout_generation :: u64
  confirmed_layout_epoch :: u64
  confirmed_at :: "nat option"

fun current_layout_kind :: "current_layout_state \<Rightarrow> app_layout_kind" where
  "current_layout_kind (KnownLayout layout trustworthy) = layout_kind layout"
| "current_layout_kind (UnknownLayout reason) = Unknown"

text \<open>A clock that runs backwards counts as no time at all.\<close>

definition layout_status_at :: "input_runtime_snapshot \<Rightarrow> nat \<Rightarrow> u64 \<Rightarrow> input_layout_status" where
  "layout_status_at snap now epoch =
     (if confirmed_layout_epoch snap \<noteq> epoch then AwaitingConfirmation
      else
        (case is_layout_state snap of
           UnknownLayout reason \<Rightarrow> UnknownStatus
         | KnownLayout layout trustworthy \<Rightarrow>
             (case confirmed_at snap of
                None \<Rightarrow> UnknownStatus
              | Some confirmed \<Rightarrow> if now - confirmed \<ge> INPUT_LAYOUT_FRESHNESS then Stale else Fresh)))"

definition layout_kind_for_decision_at :: "input_runtime_snapshot \<Rightarrow> nat \<Rightarrow> u64 \<Rightarrow> app_layout_kind option" where
  "layout_kind_for_decision_at snap now epoch =
     (if layout_status_at snap now epoch = Fresh then Some (current_layout_kind (is_layout_state snap)) else None)"

definition authorization_at :: "input_runtime_snapshot \<Rightarrow> nat \<Rightarrow> u64 \<Rightarrow> snapshot_authorization option" where
  "authorization_at snap now epoch =
     (case layout_kind_for_decision_at snap now epoch of
        None \<Rightarrow> None
      | Some _ \<Rightarrow> Some \<lparr>auth_config_generation = config_generation snap, auth_layout_generation = layout_generation snap,
                     auth_layout_epoch = epoch\<rparr>)"

definition authorizes_at :: "input_runtime_snapshot \<Rightarrow> snapshot_authorization \<Rightarrow> nat \<Rightarrow> u64 \<Rightarrow> bool" where
  "authorizes_at snap authorization now epoch \<longleftrightarrow> authorization_at snap now epoch = Some authorization"

datatype snapshot_try_load = Loaded input_runtime_snapshot | Contended | Poisoned

text \<open>The channel of refresh requests holds one request.\<close>

datatype refresh_request_outcome = RefreshQueued | RefreshAlreadyPending | RefreshUnavailable

record refresh_requests =
  refresh_pending :: bool
  refresh_receiver :: bool

definition refresh_request :: "refresh_requests \<Rightarrow> refresh_request_outcome \<times> refresh_requests" where
  "refresh_request r =
     (if \<not> refresh_receiver r then (RefreshUnavailable, r)
      else if refresh_pending r then (RefreshAlreadyPending, r)
      else (RefreshQueued, r\<lparr>refresh_pending := True\<rparr>))"

subsection \<open>Decisions\<close>

datatype layout_correction_availability = Available app_layout_kind | Unavailable input_layout_status

datatype word_boundary_action = Evaluate app_layout_kind snapshot_authorization | ForwardUncorrected key

definition layout_correction_decision :: "input_runtime_snapshot \<Rightarrow> nat \<Rightarrow> u64 \<Rightarrow> layout_correction_availability" where
  "layout_correction_decision snap now epoch =
     (case layout_kind_for_decision_at snap now epoch of
        Some kind \<Rightarrow> Available kind
      | None \<Rightarrow> Unavailable (layout_status_at snap now epoch))"

definition auto_layout_correction_supported_for_layout :: "app_layout_kind \<Rightarrow> bool" where
  "auto_layout_correction_supported_for_layout kind \<longleftrightarrow> kind = English \<or> kind = Russian"

definition same_layout_fixes_allowed :: "input_runtime_snapshot \<Rightarrow> nat \<Rightarrow> u64 \<Rightarrow> bool" where
  "same_layout_fixes_allowed snap now epoch \<longleftrightarrow>
     (rcs_fix_two_capitals (is_config snap) \<or> rcs_fix_accidental_caps_lock (is_config snap)) \<and>
     (case layout_correction_decision snap now epoch of Available kind \<Rightarrow> kind = English \<or> kind = Russian | _ \<Rightarrow> False)"

definition manual_correction_allowed :: "input_runtime_snapshot \<Rightarrow> nat \<Rightarrow> u64 \<Rightarrow> bool" where
  "manual_correction_allowed snap now epoch \<longleftrightarrow>
     fa_manual_word_fix (is_features snap) \<and>
     (case layout_correction_decision snap now epoch of Available kind \<Rightarrow> kind = English \<or> kind = Russian | _ \<Rightarrow> False)"

definition word_boundary_action :: "input_runtime_snapshot \<Rightarrow> nat \<Rightarrow> u64 \<Rightarrow> key \<Rightarrow> word_boundary_action" where
  "word_boundary_action snap now epoch key =
     (case (layout_kind_for_decision_at snap now epoch, authorization_at snap now epoch) of
        (Some kind, Some authorization) \<Rightarrow> Evaluate kind authorization
      | _ \<Rightarrow> ForwardUncorrected key)"

definition status_snapshot_is_publishable :: "input_layout_status \<Rightarrow> bool" where
  "status_snapshot_is_publishable status \<longleftrightarrow> status = Fresh"

subsection \<open>Events that are held back\<close>

datatype input_origin = Physical | DeferredReplay | DeferredRetry

datatype input_forwarding_mode = Fast | AcknowledgedDeferred

fun forwarding_mode_for_origin :: "input_origin \<Rightarrow> input_forwarding_mode" where
  "forwarding_mode_for_origin DeferredReplay = AcknowledgedDeferred"
| "forwarding_mode_for_origin Physical = Fast"
| "forwarding_mode_for_origin DeferredRetry = Fast"

definition should_route_capture_before_manual_current_word :: "input_origin \<Rightarrow> bool" where
  "should_route_capture_before_manual_current_word origin \<longleftrightarrow> origin = Physical"

definition should_request_manual_hotkey_retry_after_drain :: "input_origin \<Rightarrow> bool \<Rightarrow> bool" where
  "should_request_manual_hotkey_retry_after_drain origin flow_active \<longleftrightarrow> flow_active \<and> origin = DeferredReplay"

datatype suppressed_undo_event_routing = Swallow | ClearedStalePress | PassOn

type_synonym suppressed_undo_keys = "key list"

definition suppressed_arm :: "suppressed_undo_keys \<Rightarrow> key \<Rightarrow> suppressed_undo_keys" where
  "suppressed_arm keys key = (if key \<in> set keys then keys else keys @ [key])"

definition suppressed_route_event ::
  "suppressed_undo_keys \<Rightarrow> key \<Rightarrow> int \<Rightarrow> suppressed_undo_event_routing \<times> suppressed_undo_keys" where
  "suppressed_route_event keys key value =
     (case position (\<lambda>suppressed. suppressed = key) keys of
        Some i \<Rightarrow>
          if value = 0 then (Swallow, remove_at i keys)
          else if value = 1 then (ClearedStalePress, remove_at i keys)
          else (Swallow, keys)
      | None \<Rightarrow> (PassOn, keys))"

definition register_suppressed_manual_hotkey_press ::
  "suppressed_undo_keys \<Rightarrow> key \<Rightarrow> input_origin \<Rightarrow> bool \<Rightarrow> bool \<times> suppressed_undo_keys" where
  "register_suppressed_manual_hotkey_press keys key origin flow_active =
     (should_request_manual_hotkey_retry_after_drain origin flow_active, suppressed_arm keys key)"

definition should_swallow_suppressed_separator_release :: "key option \<Rightarrow> key \<Rightarrow> int \<Rightarrow> bool" where
  "should_swallow_suppressed_separator_release suppressed key value \<longleftrightarrow> suppressed = Some key \<and> value = 0"

definition should_clear_stale_suppressed_selected_hotkey_on_press :: "key option \<Rightarrow> key \<Rightarrow> int \<Rightarrow> bool" where
  "should_clear_stale_suppressed_selected_hotkey_on_press suppressed key value \<longleftrightarrow> suppressed = Some key \<and> value = 1"

definition selected_text_hotkey_runs_on_press :: "key \<Rightarrow> bool" where
  "selected_text_hotkey_runs_on_press key \<longleftrightarrow> key = KEY_PAUSE"

definition hotkey_modifiers_from_state :: "modifier_state \<Rightarrow> hotkey_modifiers" where
  "hotkey_modifiers_from_state m = modifiers_new (is_shift_pressed m) (is_ctrl_pressed m) (is_alt_pressed m)"

definition manual_correction_hotkey_matches :: "hotkey_spec \<Rightarrow> modifier_state \<Rightarrow> key \<Rightarrow> int \<Rightarrow> bool" where
  "manual_correction_hotkey_matches hotkey m key value \<longleftrightarrow>
     value = 1 \<and> key = hotkey_trigger_to_evdev_key (hs_trigger hotkey) \<and>
     spec_matches hotkey (hs_trigger hotkey) (hotkey_modifiers_from_state m)"

definition manual_correction_hotkey_matches_when_allowed ::
  "hotkey_spec \<Rightarrow> modifier_state \<Rightarrow> key \<Rightarrow> int \<Rightarrow> bool \<Rightarrow> bool" where
  "manual_correction_hotkey_matches_when_allowed hotkey m key value inhibited \<longleftrightarrow>
     \<not> inhibited \<and> manual_correction_hotkey_matches hotkey m key value"

definition selected_text_hotkey_matches :: "hotkey_spec \<Rightarrow> modifier_state \<Rightarrow> key \<Rightarrow> int \<Rightarrow> bool" where
  "selected_text_hotkey_matches hotkey m key value \<longleftrightarrow>
     \<not> (value \<noteq> 1 \<or> key \<noteq> hotkey_trigger_to_evdev_key (hs_trigger hotkey)) \<and>
     spec_matches hotkey (hs_trigger hotkey) (hotkey_modifiers_from_state m)"

definition selected_text_hotkey_matches_when_allowed ::
  "hotkey_spec \<Rightarrow> modifier_state \<Rightarrow> key \<Rightarrow> int \<Rightarrow> bool \<Rightarrow> bool" where
  "selected_text_hotkey_matches_when_allowed hotkey m key value inhibited \<longleftrightarrow>
     \<not> inhibited \<and> selected_text_hotkey_matches hotkey m key value"

definition should_invalidate_for_wayland_focus_switch_shortcut ::
  "session_type \<Rightarrow> modifier_state \<Rightarrow> key \<Rightarrow> int \<Rightarrow> bool" where
  "should_invalidate_for_wayland_focus_switch_shortcut session m key value \<longleftrightarrow>
     session = Wayland \<and> is_focus_switch_shortcut m key value"

subsection \<open>The word\<close>

record word_context =
  wc_valid :: bool
  word_before_cursor :: "keystroke list"
  followed_by_separator :: bool

definition word_context_default :: word_context where
  "word_context_default = \<lparr>wc_valid = False, word_before_cursor = [], followed_by_separator = False\<rparr>"

datatype current_word_correction_state = Raw | ManuallyCorrected

record manual_hotkey_latch =
  latch_key :: key
  armed_at :: nat

text \<open>The fields of the service that follow the word; the service extends this record.\<close>

record word_state =
  word_buffer :: "keystroke list"
  word_buffer_overflowed :: bool
  word_context :: word_context
  correction_state :: current_word_correction_state
  hotkey_latch :: "manual_hotkey_latch option"

definition clear_word_context_state :: "'a word_state_scheme \<Rightarrow> 'a word_state_scheme" where
  "clear_word_context_state s =
     s\<lparr>word_buffer := [], correction_state := Raw, hotkey_latch := None, word_context := word_context_default\<rparr>"

datatype word_tracking_event = PlainCharacter keystroke | Backspace | Boundary

record word_tracking_update =
  correction_tracking_enabled :: bool
  overflow_started :: bool

text \<open>The source forwards the event after this; so does the model, in the handler.\<close>

definition no_word_context :: "bool \<Rightarrow> word_context" where
  "no_word_context valid = \<lparr>wc_valid = valid, word_before_cursor = [], followed_by_separator = False\<rparr>"

definition track_character ::
  "keystroke \<Rightarrow> 'a word_state_scheme \<Rightarrow> word_tracking_update \<times> 'a word_state_scheme" where
  "track_character stroke s =
     (let started = (\<not> word_buffer_overflowed s \<and> length (word_buffer s) \<ge> MAX_CORRECTION_KEYSTROKES);
          s = (if started then s\<lparr>word_buffer := [], word_buffer_overflowed := True\<rparr> else s)
      in if word_buffer_overflowed s
         then (\<lparr>correction_tracking_enabled = False, overflow_started = started\<rparr>,
               s\<lparr>correction_state := Raw, hotkey_latch := None, word_context := no_word_context False\<rparr>)
         else (\<lparr>correction_tracking_enabled = True, overflow_started = False\<rparr>,
               s\<lparr>word_buffer := word_buffer s @ [stroke], word_context := no_word_context True\<rparr>))"

definition track_backspace :: "'a word_state_scheme \<Rightarrow> word_tracking_update \<times> 'a word_state_scheme" where
  "track_backspace s =
     (let s = s\<lparr>correction_state := Raw\<rparr>;
          s = (if word_buffer_overflowed s then s
               else if word_buffer s \<noteq> [] then s\<lparr>word_buffer := butlast (word_buffer s)\<rparr>
               else if wc_valid (word_context s) \<and> followed_by_separator (word_context s)
               then s\<lparr>word_buffer := word_before_cursor (word_context s),
                      word_context := (word_context s)\<lparr>followed_by_separator := False\<rparr>\<rparr>
               else s)
      in (\<lparr>correction_tracking_enabled = (\<not> word_buffer_overflowed s \<and> word_buffer s \<noteq> []), overflow_started = False\<rparr>, s))"

definition track_boundary :: "'a word_state_scheme \<Rightarrow> word_tracking_update \<times> 'a word_state_scheme" where
  "track_boundary s =
     (\<lparr>correction_tracking_enabled = False, overflow_started = False\<rparr>,
      (clear_word_context_state s)\<lparr>word_buffer_overflowed := False\<rparr>)"

definition apply_word_tracking_event ::
  "word_tracking_event \<Rightarrow> 'a word_state_scheme \<Rightarrow> word_tracking_update \<times> 'a word_state_scheme" where
  "apply_word_tracking_event event s =
     (case event of
        PlainCharacter stroke \<Rightarrow> track_character stroke s
      | Backspace \<Rightarrow> track_backspace s
      | Boundary \<Rightarrow> track_boundary s)"

definition invalidate_word_context :: "'a word_state_scheme \<Rightarrow> 'a word_state_scheme" where
  "invalidate_word_context s = (clear_word_context_state s)\<lparr>word_buffer_overflowed := False\<rparr>"

text \<open>The word moves behind the cursor: what the handler of the space key does in three places.\<close>

definition word_behind_separator :: "'a word_state_scheme \<Rightarrow> 'a word_state_scheme" where
  "word_behind_separator s =
     s\<lparr>word_context := \<lparr>wc_valid = (word_buffer s \<noteq> []), word_before_cursor = word_buffer s, followed_by_separator = True\<rparr>,
       word_buffer := []\<rparr>"

definition can_correct_word_before_cursor :: "'a word_state_scheme \<Rightarrow> bool" where
  "can_correct_word_before_cursor s \<longleftrightarrow>
     wc_valid (word_context s) \<and> word_buffer s = [] \<and> followed_by_separator (word_context s) \<and>
     word_before_cursor (word_context s) \<noteq> []"

subsection \<open>A correction that waits for its separator\<close>

datatype pending_word_commit_action = LayoutCorrection | SameLayoutCaseCorrection "keystroke list"

record pending_word_commit =
  pw_separator_key :: key
  pw_action :: pending_word_commit_action
  pw_authorization :: snapshot_authorization

definition pending_commit_authorized_after_adoption ::
  "bool \<Rightarrow> input_runtime_snapshot \<Rightarrow> snapshot_authorization \<Rightarrow> nat \<Rightarrow> u64 \<Rightarrow> bool" where
  "pending_commit_authorized_after_adoption snapshot_adopted snap authorization now epoch \<longleftrightarrow>
     snapshot_adopted \<and> authorizes_at snap authorization now epoch"

definition take_suppressed_separator_release_state ::
  "key option \<Rightarrow> pending_word_commit option \<Rightarrow> key \<Rightarrow> int \<Rightarrow>
   pending_word_commit option option \<times> pending_word_commit option" where
  "take_suppressed_separator_release_state suppressed pending key value =
     (if \<not> should_swallow_suppressed_separator_release suppressed key value then (None, pending)
      else
        (case pending of
           Some p \<Rightarrow> if pw_separator_key p = key then (Some (Some p), None) else (Some None, pending)
         | None \<Rightarrow> (Some None, None)))"

definition preserved_separator_after_early_finish :: "pending_word_commit option \<Rightarrow> key \<Rightarrow> int \<Rightarrow> key option" where
  "preserved_separator_after_early_finish pending key value =
     (if value = 1 \<and> \<not> is_modifier key then map_option pw_separator_key pending else None)"

definition take_pending_word_commit_for_early_finish ::
  "pending_word_commit option \<Rightarrow> key \<Rightarrow> int \<Rightarrow>
   (pending_word_commit \<times> key option) option \<times> pending_word_commit option" where
  "take_pending_word_commit_for_early_finish pending key value =
     (if value \<noteq> 1 \<or> is_modifier key then (None, pending)
      else
        (case pending of
           None \<Rightarrow> (None, None)
         | Some p \<Rightarrow> (Some (p, preserved_separator_after_early_finish (Some p) key value), None)))"

definition apply_corrected_word_commit_state ::
  "key \<Rightarrow> keystroke list \<Rightarrow> 'a word_state_scheme \<Rightarrow> key \<times> 'a word_state_scheme" where
  "apply_corrected_word_commit_state separator_key corrected s =
     (separator_key,
      if separator_key = KEY_SPACE
      then s\<lparr>word_context := \<lparr>wc_valid = (corrected \<noteq> []), word_before_cursor = corrected, followed_by_separator = True\<rparr>,
             word_buffer := []\<rparr>
      else clear_word_context_state s)"

subsection \<open>Manual corrections\<close>

datatype correction_path = AutoWordCommit | ManualHotkey

record applied_manual_correction =
  am_corrected_buffer :: "keystroke list"
  am_used_current_buffer :: bool
  am_extra_backspaces :: nat

record prepared_manual_correction =
  pm_plan :: correction_plan
  pm_used_current_buffer :: bool

definition should_commit_manually_corrected_current_word ::
  "current_word_correction_state \<Rightarrow> key \<Rightarrow> nat \<Rightarrow> bool" where
  "should_commit_manually_corrected_current_word state key len \<longleftrightarrow>
     state = ManuallyCorrected \<and> len > 0 \<and> key \<in> {KEY_SPACE, KEY_TAB, KEY_ENTER}"

definition should_swallow_manual_hotkey_latched_event :: "manual_hotkey_latch option \<Rightarrow> key \<Rightarrow> int \<Rightarrow> bool" where
  "should_swallow_manual_hotkey_latched_event latch key value \<longleftrightarrow>
     (case latch of Some l \<Rightarrow> latch_key l = key | None \<Rightarrow> False) \<and> 0 \<le> value \<and> value \<le> 2"

definition should_clear_manual_hotkey_latch_on_key_press ::
  "manual_hotkey_latch option \<Rightarrow> key \<Rightarrow> key \<Rightarrow> int \<Rightarrow> nat \<Rightarrow> bool" where
  "should_clear_manual_hotkey_latch_on_key_press latch undo_key key value event_timestamp \<longleftrightarrow>
     (case latch of
        Some l \<Rightarrow> value = 1 \<and> key \<noteq> undo_key \<and> \<not> is_modifier key \<and> event_timestamp > armed_at l
      | None \<Rightarrow> False)"

definition next_manual_hotkey_latch_after_manual_correction ::
  "key \<Rightarrow> correction_path \<Rightarrow> bool \<Rightarrow> nat \<Rightarrow> manual_hotkey_latch option" where
  "next_manual_hotkey_latch_after_manual_correction undo_key path used_current_buffer now =
     (if path = ManualHotkey \<and> used_current_buffer then Some \<lparr>latch_key = undo_key, armed_at = now\<rparr> else None)"

definition manual_separator_replay_key :: "bool \<Rightarrow> nat \<Rightarrow> key option" where
  "manual_separator_replay_key used_current_buffer extra =
     (if \<not> used_current_buffer \<and> extra > 0 then Some KEY_SPACE else None)"

definition update_word_context_after_manual_correction :: "applied_manual_correction \<Rightarrow> word_context" where
  "update_word_context_after_manual_correction applied =
     \<lparr>wc_valid = (am_corrected_buffer applied \<noteq> []), word_before_cursor = am_corrected_buffer applied,
      followed_by_separator = (if am_used_current_buffer applied then False else am_extra_backspaces applied > 0)\<rparr>"

definition finalize_manual_correction ::
  "applied_manual_correction \<Rightarrow> 'a word_state_scheme \<Rightarrow> key option \<times> 'a word_state_scheme" where
  "finalize_manual_correction applied s =
     (manual_separator_replay_key (am_used_current_buffer applied) (am_extra_backspaces applied),
      s\<lparr>word_buffer := (if am_used_current_buffer applied then am_corrected_buffer applied else []),
        word_context := update_word_context_after_manual_correction applied\<rparr>)"

datatype manual_current_word_physical_event_action =
    ProcessImmediately
  | SwallowEvent
  | RequestRetryAfterDrain
  | EnqueueEvent bool

definition manual_current_word_physical_event_action ::
  "bool \<Rightarrow> key \<Rightarrow> bool \<Rightarrow> key \<Rightarrow> int \<Rightarrow> input_origin \<Rightarrow> manual_current_word_physical_event_action" where
  "manual_current_word_physical_event_action flow_active undo_key seen_real_next_step key value origin =
     (if \<not> flow_active \<or> origin \<noteq> Physical then ProcessImmediately
      else if key = undo_key \<and> 0 \<le> value \<and> value \<le> 2
      then (if value = 1 \<and> seen_real_next_step then RequestRetryAfterDrain else SwallowEvent)
      else EnqueueEvent (value = 1 \<and> key \<noteq> undo_key \<and> \<not> is_modifier key))"

end
