(* ===== verification/Manual_Flow.thy ===== *)
theory Manual_Flow
  imports Word_Tracking Deferred_Input Writer_Loop Input_Backend
begin

text \<open>
  The manual correction of the current word as the event loop follows it, the middle part of
  src/src/daemon/service.rs.  The correction runs in the writer thread; while it does, physical events
  wait in the deferred queue, and they are replayed when it has ended.  On X11 a focus switch among
  them is a barrier: what follows it waits until the target window has changed.
\<close>

subsection \<open>Focus barriers\<close>

definition X11_DEFERRED_FOCUS_BARRIER_TIMEOUT :: nat where "X11_DEFERRED_FOCUS_BARRIER_TIMEOUT = from_millis 300"
definition X11_DEFERRED_FOCUS_BARRIER_POLL :: nat where "X11_DEFERRED_FOCUS_BARRIER_POLL = from_millis 5"

datatype deferred_focus_modifier = FocusAlt | FocusMeta

fun focus_modifier_is_pressed :: "deferred_focus_modifier \<Rightarrow> modifier_state \<Rightarrow> bool" where
  "focus_modifier_is_pressed FocusAlt m = is_alt_pressed m"
| "focus_modifier_is_pressed FocusMeta m = is_meta_pressed m"

record deferred_focus_shortcut =
  fs_trigger_sequence_id :: u64
  fs_modifier :: deferred_focus_modifier

record focus_barrier_marker =
  fm_trigger_sequence_id :: u64
  after_sequence_id :: u64
  target_generation :: "u64 option"
  fm_deadline :: "nat option"

datatype focus_barrier_decision =
    Ready
  | ReleaseAllowed
  | Waiting nat
  | BarrierTimedOut focus_barrier_marker

record focus_barrier_state =
  active_shortcut :: "deferred_focus_shortcut option"
  markers :: "focus_barrier_marker list"

definition focus_barrier_default :: focus_barrier_state where
  "focus_barrier_default = \<lparr>active_shortcut = None, markers = []\<rparr>"

text \<open>The two halves of \<open>observe_physical_event\<close>: a shortcut begins, and its modifier is released.\<close>

definition begin_focus_shortcut ::
  "modifier_state \<Rightarrow> deferred_event \<Rightarrow> focus_barrier_state \<Rightarrow> focus_barrier_state" where
  "begin_focus_shortcut m event b =
     (if is_focus_switch_shortcut m (ev_key event) (ev_value event)
      then b\<lparr>active_shortcut := Some \<lparr>fs_trigger_sequence_id = sequence_id event,
             fs_modifier = (if is_alt_pressed m then FocusAlt else FocusMeta)\<rparr>\<rparr>
      else b)"

definition complete_focus_shortcut ::
  "modifier_state \<Rightarrow> deferred_event \<Rightarrow> focus_barrier_state \<Rightarrow> focus_barrier_state" where
  "complete_focus_shortcut m event b =
     (case active_shortcut b of
        Some shortcut \<Rightarrow>
          if focus_modifier_is_pressed (fs_modifier shortcut) m then b
          else b\<lparr>active_shortcut := None,
                 markers := markers b @ [\<lparr>fm_trigger_sequence_id = fs_trigger_sequence_id shortcut,
                   after_sequence_id = sequence_id event, target_generation = None, fm_deadline = None\<rparr>]\<rparr>
      | None \<Rightarrow> b)"

definition observe_physical_event ::
  "session_type \<Rightarrow> modifier_state \<Rightarrow> deferred_event \<Rightarrow> focus_barrier_state \<Rightarrow> focus_barrier_state" where
  "observe_physical_event session m event b =
     (if session \<noteq> X11 then b else complete_focus_shortcut m event (begin_focus_shortcut m event b))"

definition barrier_after_ack :: "u64 \<Rightarrow> u64 \<Rightarrow> nat \<Rightarrow> focus_barrier_state \<Rightarrow> focus_barrier_state" where
  "barrier_after_ack sid generation now b =
     (case markers b of
        [] \<Rightarrow> b
      | marker # ms \<Rightarrow>
          if after_sequence_id marker \<noteq> sid then b
          else b\<lparr>markers := marker\<lparr>target_generation := Some generation,
                   fm_deadline := Some (now + X11_DEFERRED_FOCUS_BARRIER_TIMEOUT)\<rparr> # ms\<rparr>)"

text \<open>An armed barrier: the front marker has a deadline.\<close>

definition armed_barrier :: "focus_barrier_state \<Rightarrow> (focus_barrier_marker \<times> nat) option" where
  "armed_barrier b =
     (case markers b of
        [] \<Rightarrow> None
      | marker # _ \<Rightarrow> map_option (\<lambda>limit. (marker, limit)) (fm_deadline marker))"

definition head_is_release :: "deferred_event option \<Rightarrow> bool" where
  "head_is_release ledger_head = (case ledger_head of Some event \<Rightarrow> ev_value event = 0 | None \<Rightarrow> False)"

definition barrier_before_next_event ::
  "u64 \<Rightarrow> nat \<Rightarrow> deferred_event option \<Rightarrow> focus_barrier_state \<Rightarrow> focus_barrier_decision \<times> focus_barrier_state" where
  "barrier_before_next_event generation now ledger_head b =
     (case armed_barrier b of
        Some (marker, limit) \<Rightarrow>
          if target_generation marker \<noteq> Some generation then (Ready, b\<lparr>markers := tl (markers b)\<rparr>)
          else if limit \<le> now then (BarrierTimedOut marker, b\<lparr>markers := tl (markers b)\<rparr>)
          else if head_is_release ledger_head then (ReleaseAllowed, b)
          else (Waiting (limit - now), b)
      | None \<Rightarrow>
          if ledger_head = None \<and> (active_shortcut b \<noteq> None \<or> markers b \<noteq> [])
          then (Waiting X11_DEFERRED_FOCUS_BARRIER_POLL, b)
          else (Ready, b))"

definition barrier_event_fetch_timeout :: "u64 \<Rightarrow> nat \<Rightarrow> deferred_event option \<Rightarrow> focus_barrier_state \<Rightarrow> nat" where
  "barrier_event_fetch_timeout generation now ledger_head b =
     (if ledger_head = None \<and> active_shortcut b \<noteq> None then X11_DEFERRED_FOCUS_BARRIER_POLL
      else
        (case markers b of
           [] \<Rightarrow> 0
         | marker # _ \<Rightarrow>
             (case fm_deadline marker of
                None \<Rightarrow> if ledger_head = None then X11_DEFERRED_FOCUS_BARRIER_POLL else 0
              | Some limit \<Rightarrow>
                  if target_generation marker \<noteq> Some generation \<or> limit \<le> now \<or> head_is_release ledger_head
                  then 0 else min (limit - now) X11_DEFERRED_FOCUS_BARRIER_POLL)))"

definition barrier_has_pending :: "focus_barrier_state \<Rightarrow> bool" where
  "barrier_has_pending b \<longleftrightarrow> active_shortcut b \<noteq> None \<or> markers b \<noteq> []"

subsection \<open>The flow\<close>

text \<open>The frozen modifiers are kept by the source for their name only, as the underscore says.\<close>

record manual_session =
  ms_request_id :: u64
  ms_undo_key :: key
  ms_frozen_modifiers :: modifier_state
  observed_physical_modifiers :: modifier_state
  deferred_focus_barriers :: focus_barrier_state
  context_invalidated :: bool
  seen_real_next_step :: bool
  retry_after_drain_requested :: bool
  ms_started_at :: nat
  drained_events :: nat

datatype manual_current_word_flow =
    IdleFlow
  | InFlight manual_session
  | CancelRequested manual_session
  | DrainingDeferredInput manual_session

fun flow_session :: "manual_current_word_flow \<Rightarrow> manual_session option" where
  "flow_session IdleFlow = None"
| "flow_session (InFlight session) = Some session"
| "flow_session (CancelRequested session) = Some session"
| "flow_session (DrainingDeferredInput session) = Some session"

text \<open>An update of the session inside the flow, as the \<open>match &mut flow\<close> of the source does it.\<close>

fun map_session :: "(manual_session \<Rightarrow> manual_session) \<Rightarrow> manual_current_word_flow \<Rightarrow> manual_current_word_flow" where
  "map_session f IdleFlow = IdleFlow"
| "map_session f (InFlight session) = InFlight (f session)"
| "map_session f (CancelRequested session) = CancelRequested (f session)"
| "map_session f (DrainingDeferredInput session) = DrainingDeferredInput (f session)"

datatype manual_flow_invalidation = FlowIdle | RequestCancellationOf u64 | ContextOnly

fun promote_in_flight_to_cancel_requested ::
  "manual_current_word_flow \<Rightarrow> u64 option \<times> manual_current_word_flow" where
  "promote_in_flight_to_cancel_requested (InFlight session) =
     (Some (ms_request_id session), CancelRequested (session\<lparr>context_invalidated := True\<rparr>))"
| "promote_in_flight_to_cancel_requested flow = (None, flow)"

fun invalidate_manual_flow_context ::
  "manual_current_word_flow \<Rightarrow> manual_flow_invalidation \<times> manual_current_word_flow" where
  "invalidate_manual_flow_context IdleFlow = (FlowIdle, IdleFlow)"
| "invalidate_manual_flow_context (InFlight session) =
     (RequestCancellationOf (ms_request_id session), CancelRequested (session\<lparr>context_invalidated := True\<rparr>))"
| "invalidate_manual_flow_context (CancelRequested session) =
     (ContextOnly, CancelRequested (session\<lparr>context_invalidated := True\<rparr>))"
| "invalidate_manual_flow_context (DrainingDeferredInput session) =
     (ContextOnly, DrainingDeferredInput (session\<lparr>context_invalidated := True\<rparr>))"

fun take_matching_session ::
  "u64 \<Rightarrow> manual_current_word_flow \<Rightarrow> manual_session option \<times> manual_current_word_flow" where
  "take_matching_session request_id (InFlight session) =
     (if ms_request_id session = request_id then (Some session, IdleFlow) else (None, InFlight session))"
| "take_matching_session request_id (CancelRequested session) =
     (if ms_request_id session = request_id then (Some session, IdleFlow) else (None, CancelRequested session))"
| "take_matching_session request_id flow = (None, flow)"

definition observe_deferred_physical_focus_invalidation ::
  "session_type \<Rightarrow> deferred_event \<Rightarrow> manual_current_word_flow \<Rightarrow> bool \<times> manual_current_word_flow" where
  "observe_deferred_physical_focus_invalidation session_kind event flow =
     (case flow_session flow of
        None \<Rightarrow> (False, flow)
      | Some session \<Rightarrow>
          let m = modifier_update (ev_key event) (ev_value event) (observed_physical_modifiers session) in
          (should_invalidate_for_wayland_focus_switch_shortcut session_kind m (ev_key event) (ev_value event),
           map_session (\<lambda>session. session\<lparr>observed_physical_modifiers := m,
             deferred_focus_barriers := observe_physical_event session_kind m event (deferred_focus_barriers session)\<rparr>) flow))"

definition flow_barrier_before_next_event ::
  "u64 \<Rightarrow> nat \<Rightarrow> deferred_event option \<Rightarrow> manual_current_word_flow \<Rightarrow>
   focus_barrier_decision \<times> manual_current_word_flow" where
  "flow_barrier_before_next_event generation now ledger_head flow =
     (case flow of
        DrainingDeferredInput session \<Rightarrow>
          (case barrier_before_next_event generation now ledger_head (deferred_focus_barriers session) of
             (decision, b) \<Rightarrow> (decision, DrainingDeferredInput (session\<lparr>deferred_focus_barriers := b\<rparr>)))
      | _ \<Rightarrow> (Ready, flow))"

definition acknowledge_focus_barrier ::
  "u64 \<Rightarrow> u64 \<Rightarrow> nat \<Rightarrow> manual_current_word_flow \<Rightarrow> manual_current_word_flow" where
  "acknowledge_focus_barrier sid generation now flow =
     (case flow of
        DrainingDeferredInput session \<Rightarrow>
          DrainingDeferredInput
            (session\<lparr>deferred_focus_barriers := barrier_after_ack sid generation now (deferred_focus_barriers session)\<rparr>)
      | _ \<Rightarrow> flow)"

datatype completion_transition =
    CompletionSucceeded manual_session correction_plan
  | CompletionCancelled manual_session
  | CompletionFailed manual_session string

text \<open>The layout is invalidated for every matching completion; the service does it with this.\<close>

definition transition_manual_completion ::
  "manual_current_word_completion \<Rightarrow> manual_current_word_flow \<Rightarrow>
   completion_transition option \<times> manual_current_word_flow" where
  "transition_manual_completion completion flow =
     (case take_matching_session (mc_request_id completion) flow of
        (None, flow) \<Rightarrow> (None, flow)
      | (Some session, flow) \<Rightarrow>
          (case mc_outcome completion of
             ManualSucceeded plan \<Rightarrow> (Some (CompletionSucceeded session plan), DrainingDeferredInput session)
           | ManualCancelled \<Rightarrow> (Some (CompletionCancelled session), DrainingDeferredInput session)
           | ManualFailedAfterMutation e \<Rightarrow> (Some (CompletionFailed session e), flow)))"

definition should_restart_after_drain :: "nat \<Rightarrow> bool \<Rightarrow> bool" where
  "should_restart_after_drain deferred_len retry_requested \<longleftrightarrow> deferred_len = 0 \<and> retry_requested"

definition failed_manual_completion_error :: "u64 \<Rightarrow> string \<Rightarrow> switcher_error" where
  "failed_manual_completion_error request_id reason = VirtualKeyboardWriterTransactionFailed request_id reason"

subsection \<open>Sequence numbers of physical events\<close>

definition take_next_nonzero_physical_sequence_id :: "u64 \<Rightarrow> u64 \<times> u64" where
  "take_next_nonzero_physical_sequence_id next =
     (let sid = max next 1; after = sid + 1 in (sid, if after = 0 then 1 else after))"

text \<open>A raw event: the key if it is a key event, its value, its time.\<close>

fun sequence_fetched_events ::
  "(key option \<times> int \<times> nat) list \<Rightarrow> u64 \<Rightarrow> deferred_event list \<times> u64" where
  "sequence_fetched_events [] next = ([], next)"
| "sequence_fetched_events ((key, value, timestamp) # events) next =
     (case key of
        None \<Rightarrow> sequence_fetched_events events next
      | Some key \<Rightarrow>
          (case take_next_nonzero_physical_sequence_id next of (sid, next) \<Rightarrow>
           case sequence_fetched_events events next of (sequenced, next) \<Rightarrow>
           (\<lparr>sequence_id = sid, ev_key = key, ev_value = value, ev_timestamp = timestamp\<rparr> # sequenced, next)))"

subsection \<open>Shutting the backend down\<close>

record tail_reconciliation =
  tail_reconciled :: nat
  tail_reason :: string

definition retain_fetched_tail ::
  "tail_reconciliation option \<Rightarrow> tail_reconciliation \<Rightarrow> tail_reconciliation option" where
  "retain_fetched_tail pending report =
     (if tail_reconciled report = 0 then pending
      else
        (case pending of
           Some p \<Rightarrow> Some \<lparr>tail_reconciled = tail_reconciled p + tail_reconciled report,
                        tail_reason = ''multiple-terminal-input-tails''\<rparr>
         | None \<Rightarrow> Some report))"

definition reconcile_and_retain_fetched_tail ::
  "deferred_event list \<Rightarrow> tail_reconciliation option \<Rightarrow> string \<Rightarrow> deferred_event list \<times> tail_reconciliation option" where
  "reconcile_and_retain_fetched_tail events pending reason =
     ([], retain_fetched_tail pending \<lparr>tail_reconciled = length events, tail_reason = reason\<rparr>)"

definition reconcile_deferred_after_shutdown ::
  "deferred_ledger \<Rightarrow> manual_current_word_flow \<Rightarrow> deferred_report \<times> deferred_ledger \<times> manual_current_word_flow" where
  "reconcile_deferred_after_shutdown ledger flow =
     (case reconcile_all ledger of (report, ledger) \<Rightarrow> (report, ledger, IdleFlow))"

text \<open>An unresponsive writer stays unresponsive, whatever a later shutdown says.\<close>

type_synonym writer_shutdown_latch = "writer_shutdown_outcome option"

definition latch_observe ::
  "writer_shutdown_latch \<Rightarrow> writer_shutdown_outcome \<Rightarrow> writer_shutdown_outcome \<times> writer_shutdown_latch" where
  "latch_observe latch outcome =
     (case latch of
        Some latched \<Rightarrow> (latched, latch)
      | None \<Rightarrow> (outcome, case outcome of Unresponsive ms \<Rightarrow> Some outcome | Stopped \<Rightarrow> None))"

definition latch_observe_error :: "writer_shutdown_latch \<Rightarrow> switcher_error \<Rightarrow> writer_shutdown_latch" where
  "latch_observe_error latch e =
     (case e of
        VirtualKeyboardWriterShutdownUnresponsive ms phase trigger \<Rightarrow> snd (latch_observe latch (Unresponsive ms))
      | _ \<Rightarrow> latch)"

end
