(* ===== verification/Flow_Properties.thy ===== *)
theory Flow_Properties
  imports Manual_Flow "HOL-Library.Code_Target_Nat"
begin

text \<open>
  The numbers of the physical events, and how long a focus barrier holds the replay of deferred events
  back.
\<close>

subsection \<open>Numbers\<close>

text \<open>The numbers run through the non-zero values of 64 bits in a circle.\<close>

definition nth_number :: "u64 \<Rightarrow> nat \<Rightarrow> u64" where
  "nth_number start i = of_nat ((unat start - 1 + i) mod (2 ^ 64 - 1) + 1)"

lemma unat_nth_number: "unat (nth_number start i) = (unat start - 1 + i) mod (2 ^ 64 - 1) + 1"
proof -
  have "(unat start - 1 + i) mod (2 ^ 64 - 1) < 2 ^ 64 - (1::nat)" by (rule mod_less_divisor) simp
  then show ?thesis unfolding nth_number_def by (subst unat_of_nat_u64) simp_all
qed

lemma unat_below: "unat (x :: u64) < 2 ^ 64"
  using unsigned_less [of x] by simp

lemma max_1_nonzero: "x \<noteq> 0 \<Longrightarrow> max x 1 = (x :: u64)"
proof -
  assume "x \<noteq> 0"
  then have "0 < unat x" by (simp add: unat_gt_0)
  then have "1 \<le> x" by (simp add: word_le_nat_alt)
  then show ?thesis by (simp add: max_def)
qed

lemma nth_number_0: "start \<noteq> 0 \<Longrightarrow> nth_number start 0 = start"
proof -
  assume "start \<noteq> 0"
  then have "0 < unat start" by (simp add: unat_gt_0)
  moreover have "unat start - 1 < 2 ^ 64 - 1" using unat_below [of start] calculation by simp
  ultimately have "unat (nth_number start 0) = unat start" by (simp add: unat_nth_number)
  then show ?thesis by (simp only: word_unat_eq_iff)
qed

lemma nth_number_Suc:
  assumes "start \<noteq> 0"
  shows "nth_number (if start + 1 = 0 then 1 else start + 1) i = nth_number start (Suc i)"
proof -
  have pos: "0 < unat start" using assms by (simp add: unat_gt_0)
  show ?thesis
  proof (cases "start + 1 = 0")
    case True
    from arg_cong [OF True, of unat] have "(unat start + 1) mod 2 ^ 64 = 0" by (simp add: unat_word_ariths)
    then have "2 ^ 64 dvd unat start + 1" by (simp add: mod_eq_0_iff_dvd)
    then have "unat start = 2 ^ 64 - 1" using unat_below [of start] dvd_imp_le [of "2 ^ 64" "unat start + 1"] by simp
    then have "unat start - 1 + Suc i = i + (2 ^ 64 - 1)" by simp
    then have "(unat start - 1 + Suc i) mod (2 ^ 64 - 1) = i mod (2 ^ 64 - 1)" by (metis mod_add_self2)
    with True show ?thesis by (simp add: nth_number_def)
  next
    case False
    then have "unat (start + 1) = unat start + 1" by (metis Suc_eq_plus1 unatSuc add.commute)
    then have "unat (start + 1) - 1 + i = unat start - 1 + Suc i" using pos by simp
    with False show ?thesis by (simp add: nth_number_def)
  qed
qed

lemma sequenced_numbers:
  assumes "sequence_fetched_events events n0 = (sequenced, n1)"
  shows "map sequence_id sequenced = map (nth_number (max n0 1)) [0..<length sequenced]"
  using assms
proof (induction events arbitrary: n0 n1 sequenced)
  case Nil
  then show ?case by simp
next
  case (Cons event events)
  obtain key v timestamp where event: "event = (key, v, timestamp)" by (cases event)
  show ?case
  proof (cases key)
    case None
    with Cons event show ?thesis by simp
  next
    case (Some k)
    define start where "start = max n0 1"
    define follower where "follower = (if start + 1 = 0 then 1 else start + 1)"
    have start: "start \<noteq> 0" by (auto simp: start_def max_def)
    have follower: "max follower 1 = follower" "nth_number follower i = nth_number start (Suc i)" for i
      using nth_number_Suc [OF start] by (simp_all add: follower_def max_1_nonzero)
    obtain rest n2 where rest: "sequence_fetched_events events follower = (rest, n2)" by (meson surj_pair)
    have sequenced: "sequenced = \<lparr>sequence_id = start, ev_key = k, ev_value = v, ev_timestamp = timestamp\<rparr> # rest"
      using Cons.prems event Some rest
      by (simp add: take_next_nonzero_physical_sequence_id_def Let_def start_def [symmetric] follower_def [symmetric])
    have "map sequence_id rest = map (nth_number follower) [0..<length rest]"
      using Cons.IH [OF rest] by (simp add: follower(1))
    then have "map sequence_id sequenced = nth_number start 0 # map (\<lambda>i. nth_number start (Suc i)) [0..<length rest]"
      by (simp add: sequenced nth_number_0 [OF start] follower(2) [abs_def])
    also have "\<dots> = map (nth_number start) [0..<length sequenced]"
      by (simp add: sequenced map_upt_Suc del: upt_Suc)
    finally show ?thesis unfolding start_def .
  qed
qed

text \<open>
  C35: no two events share a number.  Whatever batch of events is fetched, with whatever counter, each
  key event gets a number other than zero, and fewer than two to the power of 64 events get different
  ones, also when the counter wraps around.
\<close>

theorem event_numbers_distinct:
  assumes "sequence_fetched_events events n0 = (sequenced, n1)" "length sequenced < 2 ^ 64"
  shows "distinct (map sequence_id sequenced) \<and> 0 \<notin> set (map sequence_id sequenced)"
proof -
  let ?n = "nth_number (max n0 1)"
  have different: "?n i \<noteq> ?n j" if "i < j" "j < length sequenced" for i j
  proof
    assume "?n i = ?n j"
    from arg_cong [OF this, of unat]
    have "(unat (max n0 1) - 1 + j) mod (2 ^ 64 - 1) = (unat (max n0 1) - 1 + i) mod (2 ^ 64 - 1)"
      by (simp add: unat_nth_number)
    then have "2 ^ 64 - 1 dvd j - i"
      using that(1) mod_eq_dvd_iff_nat [of "unat (max n0 1) - 1 + i" "unat (max n0 1) - 1 + j" "2 ^ 64 - 1"] by simp
    then have "2 ^ 64 - 1 \<le> j - i" using that(1) by (intro dvd_imp_le) simp_all
    with that assms(2) show False by simp
  qed
  have "inj_on ?n {0..<length sequenced}"
    by (rule linorder_inj_onI') (use different in simp)
  moreover have "?n i \<noteq> 0" for i using unat_nth_number [of "max n0 1" i] by (metis add_eq_0_iff_both_eq_0 unat_0 zero_neq_one)
  ultimately show ?thesis
    unfolding sequenced_numbers [OF assms(1)] by (auto simp: distinct_map)
qed

text \<open>The counter wraps around after the second of these events.\<close>

theorem event_numbers_distinct_witness:
  "case sequence_fetched_events [(Some KEY_A, 1, 0), (None, 0, 0), (Some KEY_A, 0, 0), (Some KEY_B, 1, 0)] (- 2) of
     (sequenced, n1) \<Rightarrow> map sequence_id sequenced = [- 2, - 1, 1] \<and>
       distinct (map sequence_id sequenced) \<and> 0 \<notin> set (map sequence_id sequenced)"
proof -
  let ?run = "sequence_fetched_events [(Some KEY_A, 1, 0), (None, 0, 0), (Some KEY_A, 0, 0), (Some KEY_B, 1, 0)] (- 2)"
  obtain sequenced n1 where run: "?run = (sequenced, n1)" by (meson surj_pair)
  have ids: "map sequence_id (fst ?run) = [- 2, - 1, 1]" by code_simp
  have "map sequence_id sequenced = [- 2, - 1, 1]" using ids unfolding run fst_conv .
  from arg_cong [OF this, of length] have "length sequenced < 2 ^ 64" by simp
  from event_numbers_distinct [OF run this] ids show ?thesis unfolding run by simp
qed

subsection \<open>Focus barriers\<close>

text \<open>
  C34: a focus barrier ends.  From the moment the release of its shortcut has been replayed, it holds
  events back only while the target window is the same and three tenths of a second have not passed,
  and then says exactly how long it has left; releases of keys pass; and whenever the window has
  changed or the time is up, whatever the next event is, the barrier is taken down.
\<close>

theorem focus_barrier_ends:
  assumes "markers b = marker # rest" "after_sequence_id marker = sid"
  shows "let b1 = barrier_after_ack sid generation armed b;
             limit = armed + X11_DEFERRED_FOCUS_BARRIER_TIMEOUT
         in case barrier_before_next_event generation' now ledger_head b1 of
              (Waiting left, b2) \<Rightarrow>
                generation' = generation \<and> now < limit \<and> left = limit - now \<and> \<not> head_is_release ledger_head \<and> b2 = b1
            | (ReleaseAllowed, b2) \<Rightarrow>
                generation' = generation \<and> now < limit \<and> head_is_release ledger_head \<and> b2 = b1
            | (Ready, b2) \<Rightarrow> generation' \<noteq> generation \<and> markers b2 = rest
            | (BarrierTimedOut m, b2) \<Rightarrow>
                generation' = generation \<and> limit \<le> now \<and> fm_trigger_sequence_id m = fm_trigger_sequence_id marker \<and> markers b2 = rest"
  using assms by (auto simp: barrier_after_ack_def barrier_before_next_event_def armed_barrier_def Let_def)

theorem focus_barrier_ends_witness:
  "case barrier_before_next_event 7 (from_millis 100) None
     (barrier_after_ack 5 7 0 \<lparr>active_shortcut = None, markers = [\<lparr>fm_trigger_sequence_id = 4, after_sequence_id = 5,
        target_generation = None, fm_deadline = None\<rparr>]\<rparr>) of
     (Waiting left, b) \<Rightarrow> left = from_millis 200 \<and> markers b \<noteq> []
   | _ \<Rightarrow> False"
  using focus_barrier_ends [of "\<lparr>active_shortcut = None, markers = [\<lparr>fm_trigger_sequence_id = 4, after_sequence_id = 5,
        target_generation = None, fm_deadline = None\<rparr>]\<rparr>" _ "[]" 5 7 0 7 "from_millis 100" None]
  by (simp add: barrier_after_ack_def barrier_before_next_event_def armed_barrier_def X11_DEFERRED_FOCUS_BARRIER_TIMEOUT_def
      from_millis_def head_is_release_def Let_def)

end
