(* ===== verification/Daemon_Service.thy ===== *)
theory Daemon_Service
  imports Manual_Flow Capture
begin

text \<open>
  The event loop's handling of a physical key, src/src/daemon/service.rs: \<open>DaemonService\<close> with
  \<open>handle_key_event\<close>, the corrections it starts and finishes, the completion of a manual correction, the
  replay of deferred events and the reset of the transient state.

  What the service calls outside of itself (the keyboard and its writer, the runtime with its locks,
  the worker for selected text, the clock) is a record of calls on a state \<open>'w\<close>.  The debug log and the
  counters of dropped D-Bus signals are left out.
\<close>

subsection \<open>State and calls\<close>

datatype manual_start_outcome = Started u64 | RejectedBeforeMutation string

datatype capture_routing_control = ContinueRouting | ReturnRouting

record service = word_state +
  input_snapshot :: input_runtime_snapshot
  writer_latch :: writer_shutdown_latch
  keyboard_attached :: bool
  runner_attached :: bool
  modifiers :: modifier_state
  shared_modifiers :: shared_modifier_state
  suppressed_hotkey_key :: "key option"
  suppressed_undo :: suppressed_undo_keys
  manual_flow :: manual_current_word_flow
  deferred_input :: deferred_ledger
  pending_tail :: "tail_reconciliation option"
  next_physical_sequence_id :: u64
  suppressed_separator_key :: "key option"
  layout_shortcut_latched :: bool
  pending_commit :: "pending_word_commit option"
  pending_selected_text_switch :: bool

record 'w daemon_calls =
  dc_forward_event :: "u64 \<Rightarrow> key \<Rightarrow> int \<Rightarrow> 'w \<Rightarrow> unit res \<times> 'w"
  dc_forward_deferred_event :: "u64 \<Rightarrow> key \<Rightarrow> int \<Rightarrow> 'w \<Rightarrow> unit res \<times> 'w"
  dc_type_separator :: "key \<Rightarrow> 'w \<Rightarrow> unit res \<times> 'w"
  dc_apply_correction ::
    "correction_plan \<Rightarrow> runtime_config_snapshot \<Rightarrow> modifier_state \<Rightarrow> 'w \<Rightarrow> correction_layout_switch_outcome res \<times> 'w"
  dc_apply_same_layout_correction ::
    "correction_plan \<Rightarrow> runtime_config_snapshot \<Rightarrow> modifier_state \<Rightarrow> 'w \<Rightarrow> unit res \<times> 'w"
  dc_begin_manual_correction ::
    "correction_plan \<Rightarrow> runtime_config_snapshot \<Rightarrow> modifier_state \<Rightarrow> 'w \<Rightarrow> manual_start_outcome res \<times> 'w"
  dc_request_manual_cancel :: "u64 \<Rightarrow> 'w \<Rightarrow> unit \<times> 'w"
  dc_poll_manual_completion :: "'w \<Rightarrow> manual_current_word_completion option res \<times> 'w"
  dc_target_generation :: "'w \<Rightarrow> u64 \<times> 'w"
  dc_try_snapshot :: "'w \<Rightarrow> snapshot_try_load \<times> 'w"
  dc_layout_epoch :: "'w \<Rightarrow> u64 \<times> 'w"
  dc_request_layout_refresh :: "'w \<Rightarrow> refresh_request_outcome \<times> 'w"
  dc_invalidate_layout :: "'w \<Rightarrow> unit \<times> 'w"
  dc_hotkey_capture_inhibited :: "'w \<Rightarrow> bool \<times> 'w"
  dc_route_capture_event :: "nat \<Rightarrow> key \<Rightarrow> int \<Rightarrow> 'w \<Rightarrow> capture_outcome res \<times> 'w"
  dc_publish_capture_state :: "capture_state \<Rightarrow> 'w \<Rightarrow> unit \<times> 'w"
  dc_start_selected_text :: "'w \<Rightarrow> bool res \<times> 'w"
  dc_instant_now :: "'w \<Rightarrow> nat \<times> 'w"
  dc_system_now :: "'w \<Rightarrow> nat \<times> 'w"

type_synonym 'w daemon = "service \<times> 'w"

definition call :: "('w \<Rightarrow> 'a \<times> 'w) \<Rightarrow> 'w daemon \<Rightarrow> 'a \<times> 'w daemon" where
  "call f d = (case d of (s, w) \<Rightarrow> case f w of (a, w) \<Rightarrow> (a, s, w))"

definition update :: "(service \<Rightarrow> service) \<Rightarrow> 'w daemon \<Rightarrow> 'w daemon" where
  "update f d = (case d of (s, w) \<Rightarrow> (f s, w))"

text \<open>\<open>keyboard_mut()?\<close> and a call on the keyboard.\<close>

definition on_keyboard :: "('w \<Rightarrow> 'a res \<times> 'w) \<Rightarrow> 'w daemon \<Rightarrow> 'a res \<times> 'w daemon" where
  "on_keyboard f d = check (ensure (keyboard_attached (fst d)) KeyboardNotFound) d (\<lambda>_. call f d)"

definition forward_event_for_origin ::
  "'w daemon_calls \<Rightarrow> input_origin \<Rightarrow> u64 \<Rightarrow> key \<Rightarrow> int \<Rightarrow> 'w daemon \<Rightarrow> unit res \<times> 'w daemon" where
  "forward_event_for_origin C origin sequence key value =
     on_keyboard
       (case forwarding_mode_for_origin origin of
          Fast \<Rightarrow> dc_forward_event C sequence key value
        | AcknowledgedDeferred \<Rightarrow> dc_forward_deferred_event C sequence key value)"

text \<open>A stage of the handler answers whether it has dealt with the event.\<close>

definition unless_done ::
  "bool res \<times> 'w daemon \<Rightarrow> ('w daemon \<Rightarrow> unit res \<times> 'w daemon) \<Rightarrow> unit res \<times> 'w daemon" where
  "unless_done r k = then_st r (\<lambda>done d. if done then (Inr (), d) else k d)"

abbreviation finished :: "unit res \<times> 'w daemon \<Rightarrow> bool res \<times> 'w daemon" where
  "finished r \<equiv> then_st r (\<lambda>_ d. (Inr True, d))"

subsection \<open>Snapshot and layout\<close>

definition adopt_input_snapshot_nonblocking :: "'w daemon_calls \<Rightarrow> 'w daemon \<Rightarrow> bool \<times> 'w daemon" where
  "adopt_input_snapshot_nonblocking C d =
     (case call (dc_try_snapshot C) d of
        (Loaded snap, d) \<Rightarrow> (True, update (\<lambda>s. s\<lparr>input_snapshot := snap\<rparr>) d)
      | (_, d) \<Rightarrow> (False, d))"

definition now_and_epoch :: "'w daemon_calls \<Rightarrow> 'w daemon \<Rightarrow> (nat \<times> u64) \<times> 'w daemon" where
  "now_and_epoch C d =
     (case call (dc_instant_now C) d of (now, d) \<Rightarrow>
      case call (dc_layout_epoch C) d of (epoch, d) \<Rightarrow> ((now, epoch), d))"

definition layout_kind_for_current_decision :: "'w daemon_calls \<Rightarrow> 'w daemon \<Rightarrow> app_layout_kind option \<times> 'w daemon" where
  "layout_kind_for_current_decision C d =
     (case now_and_epoch C d of ((now, epoch), d) \<Rightarrow>
      case layout_kind_for_decision_at (input_snapshot (fst d)) now epoch of
        Some kind \<Rightarrow> (Some kind, d)
      | None \<Rightarrow> (None, snd (call (dc_request_layout_refresh C) d)))"

subsection \<open>Selected text\<close>

definition apply_selected_text_switch :: "'w daemon_calls \<Rightarrow> 'w daemon \<Rightarrow> unit res \<times> 'w daemon" where
  "apply_selected_text_switch C d =
     (if \<not> fa_selected_text_switch (is_features (input_snapshot (fst d))) \<or> \<not> runner_attached (fst d) then (Inr (), d)
      else then_st (call (dc_start_selected_text C) d) (\<lambda>started d.
           (Inr (), if started then update invalidate_word_context d else d)))"

definition maybe_run_pending_selected_text_switch :: "'w daemon_calls \<Rightarrow> 'w daemon \<Rightarrow> unit res \<times> 'w daemon" where
  "maybe_run_pending_selected_text_switch C d =
     (if \<not> pending_selected_text_switch (fst d) \<or> suppressed_hotkey_key (fst d) \<noteq> None then (Inr (), d)
      else apply_selected_text_switch C (update (\<lambda>s. s\<lparr>pending_selected_text_switch := False\<rparr>) d))"

subsection \<open>Corrections\<close>

definition case_fixed :: "runtime_config_snapshot \<Rightarrow> correction_plan \<Rightarrow> correction_plan" where
  "case_fixed config plan =
     plan\<lparr>cp_buffer := apply_case_fixes_to_strokes (cp_buffer plan) (rcs_fix_two_capitals config)
            (rcs_fix_accidental_caps_lock config)\<rparr>"

definition prepare_manual_correction ::
  "'w daemon_calls \<Rightarrow> runtime_config_snapshot \<Rightarrow> keystroke list \<Rightarrow> 'w daemon \<Rightarrow>
   prepared_manual_correction option \<times> 'w daemon" where
  "prepare_manual_correction C config fallback d =
     (case now_and_epoch C d of ((now, epoch), d) \<Rightarrow>
      if \<not> manual_correction_allowed (input_snapshot (fst d)) now epoch
      then (None, if fa_manual_word_fix (is_features (input_snapshot (fst d)))
                  then snd (layout_kind_for_current_decision C d) else d)
      else
        (case layout_kind_for_current_decision C d of
           (None, d) \<Rightarrow> (None, d)
         | (Some kind, d) \<Rightarrow>
             (if kind \<noteq> English \<and> kind \<noteq> Russian then None
              else map_option (\<lambda>plan. \<lparr>pm_plan = case_fixed config plan, pm_used_current_buffer = (word_buffer (fst d) \<noteq> [])\<rparr>)
                     (manual_correction_plan (word_buffer (fst d)) fallback
                        (followed_by_separator (word_context (fst d))) kind), d)))"

definition apply_manual_correction ::
  "'w daemon_calls \<Rightarrow> runtime_config_snapshot \<Rightarrow> keystroke list \<Rightarrow> 'w daemon \<Rightarrow>
   applied_manual_correction option res \<times> 'w daemon" where
  "apply_manual_correction C config fallback d =
     (case prepare_manual_correction C config fallback d of
        (None, d) \<Rightarrow> (Inr None, d)
      | (Some prepared, d) \<Rightarrow>
          then_st (on_keyboard (dc_apply_correction C (pm_plan prepared) config (modifiers (fst d))) d) (\<lambda>outcome d.
          (Inr (Some \<lparr>am_corrected_buffer = cp_buffer (pm_plan prepared),
                      am_used_current_buffer = pm_used_current_buffer prepared,
                      am_extra_backspaces = extra_backspaces (pm_plan prepared)\<rparr>),
           if outcome = NotNeeded then d else snd (call (dc_invalidate_layout C) d))))"

definition commit_corrected_word ::
  "'w daemon_calls \<Rightarrow> key \<Rightarrow> keystroke list \<Rightarrow> 'w daemon \<Rightarrow> unit res \<times> 'w daemon" where
  "commit_corrected_word C separator_key corrected d =
     (let separator = fst (apply_corrected_word_commit_state separator_key corrected (fst d)) in
      on_keyboard (dc_type_separator C separator)
        (update (\<lambda>s. (snd (apply_corrected_word_commit_state separator_key corrected s))\<lparr>word_buffer_overflowed := False\<rparr>) d))"

definition finish_pending_auto_correction ::
  "'w daemon_calls \<Rightarrow> key \<Rightarrow> runtime_config_snapshot \<Rightarrow> 'w daemon \<Rightarrow> unit res \<times> 'w daemon" where
  "finish_pending_auto_correction C separator_key config d =
     then_st (apply_manual_correction C config [] d) (\<lambda>applied d.
     commit_corrected_word C separator_key
       (case applied of Some a \<Rightarrow> am_corrected_buffer a | None \<Rightarrow> word_buffer (fst d)) d)"

definition finish_pending_same_layout_case_correction ::
  "'w daemon_calls \<Rightarrow> key \<Rightarrow> keystroke list \<Rightarrow> runtime_config_snapshot \<Rightarrow> 'w daemon \<Rightarrow> unit res \<times> 'w daemon" where
  "finish_pending_same_layout_case_correction C separator_key corrected config d =
     then_st (on_keyboard (dc_apply_same_layout_correction C \<lparr>cp_buffer = corrected, extra_backspaces = 0\<rparr> config
                (modifiers (fst d))) d) (\<lambda>_ d.
     commit_corrected_word C separator_key corrected d)"

definition pending_commit_is_authorized_after_adoption ::
  "'w daemon_calls \<Rightarrow> bool \<Rightarrow> pending_word_commit \<Rightarrow> 'w daemon \<Rightarrow> bool \<times> 'w daemon" where
  "pending_commit_is_authorized_after_adoption C adopted pending d =
     (case now_and_epoch C d of ((now, epoch), d) \<Rightarrow>
      (pending_commit_authorized_after_adoption adopted (input_snapshot (fst d)) (pw_authorization pending) now epoch, d))"

definition finish_pending_word_commit ::
  "'w daemon_calls \<Rightarrow> pending_word_commit \<Rightarrow> runtime_config_snapshot \<Rightarrow> 'w daemon \<Rightarrow> unit res \<times> 'w daemon" where
  "finish_pending_word_commit C pending config d =
     (case adopt_input_snapshot_nonblocking C d of (adopted, d) \<Rightarrow>
      case pending_commit_is_authorized_after_adoption C adopted pending d of (authorized, d) \<Rightarrow>
      if \<not> authorized then commit_corrected_word C (pw_separator_key pending) (word_buffer (fst d)) d
      else
        (case pw_action pending of
           LayoutCorrection \<Rightarrow> finish_pending_auto_correction C (pw_separator_key pending) config d
         | SameLayoutCaseCorrection corrected \<Rightarrow>
             finish_pending_same_layout_case_correction C (pw_separator_key pending) corrected config d))"

subsection \<open>Manual correction of the current word\<close>

definition has_active_manual_current_word_flow :: "service \<Rightarrow> bool" where
  "has_active_manual_current_word_flow s \<longleftrightarrow> manual_flow s \<noteq> IdleFlow"

definition flow_seen_real_next_step :: "service \<Rightarrow> bool" where
  "flow_seen_real_next_step s =
     (case flow_session (manual_flow s) of Some session \<Rightarrow> seen_real_next_step session | None \<Rightarrow> False)"

definition request_manual_current_word_cancel :: "'w daemon_calls \<Rightarrow> u64 \<Rightarrow> 'w daemon \<Rightarrow> 'w daemon" where
  "request_manual_current_word_cancel C request_id d =
     (if keyboard_attached (fst d) then snd (call (dc_request_manual_cancel C request_id) d) else d)"

definition request_retry_after_drain :: "service \<Rightarrow> service" where
  "request_retry_after_drain s =
     s\<lparr>manual_flow := map_session (\<lambda>session. session\<lparr>retry_after_drain_requested := True\<rparr>) (manual_flow s)\<rparr>"

definition start_session :: "u64 \<Rightarrow> key \<Rightarrow> modifier_state \<Rightarrow> nat \<Rightarrow> manual_session" where
  "start_session request_id undo_key frozen now =
     \<lparr>ms_request_id = request_id, ms_undo_key = undo_key, ms_frozen_modifiers = frozen,
      observed_physical_modifiers = frozen, deferred_focus_barriers = focus_barrier_default,
      context_invalidated = False, seen_real_next_step = False, retry_after_drain_requested = False,
      ms_started_at = now, drained_events = 0\<rparr>"

definition begin_deferred_manual_correction ::
  "'w daemon_calls \<Rightarrow> key \<Rightarrow> runtime_config_snapshot \<Rightarrow> 'w daemon \<Rightarrow> bool res \<times> 'w daemon" where
  "begin_deferred_manual_correction C undo_key config d =
     (if dl_queue (deferred_input (fst d)) \<noteq> [] then (Inr True, d)
      else
        (case prepare_manual_correction C config [] d of
           (None, d) \<Rightarrow> (Inr False, d)
         | (Some prepared, d) \<Rightarrow>
             if \<not> pm_used_current_buffer prepared then (Inr False, d)
             else
               let frozen = modifiers (fst d) in
               then_st (on_keyboard (dc_begin_manual_correction C (pm_plan prepared) config frozen) d) (\<lambda>outcome d.
               case outcome of
                 RejectedBeforeMutation reason \<Rightarrow> (Inr True, d)
               | Started request_id \<Rightarrow>
                   (case call (dc_instant_now C) d of (now, d) \<Rightarrow>
                    (Inr True, update (\<lambda>s. s\<lparr>manual_flow := InFlight (start_session request_id undo_key frozen now)\<rparr>) d)))))"

text \<open>A manual correction that needs no deferred flow: of the word before the cursor.\<close>

definition correct_word_before_cursor ::
  "'w daemon_calls \<Rightarrow> key \<Rightarrow> runtime_config_snapshot \<Rightarrow> 'w daemon \<Rightarrow> unit res \<times> 'w daemon" where
  "correct_word_before_cursor C undo_key config d =
     then_st (apply_manual_correction C config
                (if can_correct_word_before_cursor (fst d) then word_before_cursor (word_context (fst d)) else []) d)
       (\<lambda>applied d.
          case applied of
            None \<Rightarrow> (Inr (), d)
          | Some a \<Rightarrow>
              let separator = fst (finalize_manual_correction a (fst d));
                  d = update (\<lambda>s. snd (finalize_manual_correction a s)) d in
              then_st (case separator of
                         Some key \<Rightarrow> on_keyboard (dc_type_separator C key) d
                       | None \<Rightarrow> (Inr (), d)) (\<lambda>_ d.
              case call (dc_system_now C) d of (now, d) \<Rightarrow>
              (Inr (), update (\<lambda>s. s\<lparr>correction_state := (if am_used_current_buffer a then ManuallyCorrected else Raw),
                 hotkey_latch := next_manual_hotkey_latch_after_manual_correction undo_key ManualHotkey
                   (am_used_current_buffer a) now\<rparr>) d)))"

definition handle_manual_hotkey ::
  "'w daemon_calls \<Rightarrow> runtime_config_snapshot \<Rightarrow> key \<Rightarrow> input_origin \<Rightarrow> 'w daemon \<Rightarrow> unit res \<times> 'w daemon" where
  "handle_manual_hotkey C config key origin d =
     (let undo_key = hotkey_trigger_to_evdev_key (hs_trigger (rcs_manual_correction_hotkey config));
          (retry, keys) = register_suppressed_manual_hotkey_press (suppressed_undo (fst d)) key origin
            (has_active_manual_current_word_flow (fst d));
          d = update (\<lambda>s. s\<lparr>suppressed_undo := keys\<rparr>) d
      in if retry then (Inr (), update request_retry_after_drain d)
         else unless_done (begin_deferred_manual_correction C undo_key config d)
                (correct_word_before_cursor C undo_key config))"

subsection \<open>Stages of the handler\<close>

definition route_suppressed_hotkey :: "'w daemon_calls \<Rightarrow> key \<Rightarrow> int \<Rightarrow> 'w daemon \<Rightarrow> bool res \<times> 'w daemon" where
  "route_suppressed_hotkey C key value d =
     (if suppressed_hotkey_key (fst d) \<noteq> Some key then (Inr False, d)
      else if value = 0
      then finished (maybe_run_pending_selected_text_switch C (update (\<lambda>s. s\<lparr>suppressed_hotkey_key := None\<rparr>) d))
      else if should_clear_stale_suppressed_selected_hotkey_on_press (suppressed_hotkey_key (fst d)) key value
      then (let d = update (\<lambda>s. s\<lparr>suppressed_hotkey_key := None\<rparr>) d in
            if pending_selected_text_switch (fst d) then finished (maybe_run_pending_selected_text_switch C d)
            else (Inr False, d))
      else finished (maybe_run_pending_selected_text_switch C d))"

definition route_suppressed_undo :: "key \<Rightarrow> int \<Rightarrow> 'w daemon \<Rightarrow> bool \<times> 'w daemon" where
  "route_suppressed_undo key value d =
     (case suppressed_route_event (suppressed_undo (fst d)) key value of
        (routing, keys) \<Rightarrow> (routing = Swallow, update (\<lambda>s. s\<lparr>suppressed_undo := keys\<rparr>) d))"

definition route_suppressed_separator :: "'w daemon_calls \<Rightarrow> key \<Rightarrow> int \<Rightarrow> 'w daemon \<Rightarrow> bool res \<times> 'w daemon" where
  "route_suppressed_separator C key value d =
     (case take_suppressed_separator_release_state (suppressed_separator_key (fst d)) (pending_commit (fst d)) key value of
        (None, _) \<Rightarrow> (Inr False, d)
      | (Some to_finish, pending) \<Rightarrow>
          let d = update (\<lambda>s. s\<lparr>pending_commit := pending\<rparr>) d in
          then_st (case to_finish of
                     Some p \<Rightarrow> finish_pending_word_commit C p (is_config (input_snapshot (fst d))) d
                   | None \<Rightarrow> (Inr (), d)) (\<lambda>_ d.
          (Inr True, update (\<lambda>s. s\<lparr>suppressed_separator_key := None\<rparr>) d)))"

definition observe_capture_state_change ::
  "'w daemon_calls \<Rightarrow> capture_state option \<Rightarrow> 'w daemon \<Rightarrow> 'w daemon" where
  "observe_capture_state_change C change d =
     (case change of
        None \<Rightarrow> d
      | Some state \<Rightarrow>
          let d = snd (call (dc_publish_capture_state C state) d) in
          if cs_is_active state then d else update invalidate_word_context d)"

definition store_modifiers :: "key \<Rightarrow> int \<Rightarrow> service \<Rightarrow> service" where
  "store_modifiers key value s =
     (let m = modifier_update key value (modifiers s) in
      s\<lparr>modifiers := m, shared_modifiers := shared_store m (shared_modifiers s)\<rparr>)"

definition apply_capture_routing_disposition ::
  "'w daemon_calls \<Rightarrow> capture_disposition \<Rightarrow> u64 \<Rightarrow> key \<Rightarrow> int \<Rightarrow> 'w daemon \<Rightarrow> capture_routing_control res \<times> 'w daemon" where
  "apply_capture_routing_disposition C disposition sequence key value d =
     (case disposition of
        Suppress \<Rightarrow> (Inr ReturnRouting, d)
      | ForwardDirect \<Rightarrow>
          then_st (on_keyboard (dc_forward_event C sequence key value) (update (store_modifiers key value) d)) (\<lambda>_ d.
          (Inr ReturnRouting, d))
      | PassThrough \<Rightarrow> (Inr ContinueRouting, d))"

definition route_layout_switch_capture_event ::
  "'w daemon_calls \<Rightarrow> u64 \<Rightarrow> key \<Rightarrow> int \<Rightarrow> 'w daemon \<Rightarrow> capture_routing_control res \<times> 'w daemon" where
  "route_layout_switch_capture_event C sequence key value d =
     (case call (dc_instant_now C) d of (now, d) \<Rightarrow>
      then_st (call (dc_route_capture_event C now key value) d) (\<lambda>outcome d.
      apply_capture_routing_disposition C (co_disposition outcome) sequence key value
        (observe_capture_state_change C (co_state_change outcome) d)))"

definition route_capture ::
  "'w daemon_calls \<Rightarrow> input_origin \<Rightarrow> u64 \<Rightarrow> key \<Rightarrow> int \<Rightarrow> 'w daemon \<Rightarrow> bool res \<times> 'w daemon" where
  "route_capture C origin sequence key value d =
     (if should_route_capture_before_manual_current_word origin
      then then_st (route_layout_switch_capture_event C sequence key value d) (\<lambda>control d.
           (Inr (control = ReturnRouting), d))
      else (Inr False, d))"

definition handle_non_key_invalidation :: "'w daemon_calls \<Rightarrow> 'w daemon \<Rightarrow> 'w daemon" where
  "handle_non_key_invalidation C d =
     (case invalidate_manual_flow_context (manual_flow (fst d)) of (invalidation, flow) \<Rightarrow>
      let d = update (\<lambda>s. invalidate_word_context (s\<lparr>manual_flow := flow\<rparr>)) d in
      case invalidation of
        RequestCancellationOf request_id \<Rightarrow> request_manual_current_word_cancel C request_id d
      | _ \<Rightarrow> d)"

definition enqueue_deferred_physical_event ::
  "'w daemon_calls \<Rightarrow> deferred_event \<Rightarrow> bool \<Rightarrow> 'w daemon \<Rightarrow> unit res \<times> 'w daemon" where
  "enqueue_deferred_physical_event C event marks_real_next_step d =
     (if manual_flow (fst d) = IdleFlow then (Inr (), d)
      else
        (case admit (deferred_input (fst d)) event of
           (CapacityExceeded limit, ledger) \<Rightarrow>
             (Inl (DeferredInputCapacityExceeded limit), update (\<lambda>s. s\<lparr>deferred_input := ledger\<rparr>) d)
         | (admission, ledger) \<Rightarrow>
             let flow = (if marks_real_next_step
                   then map_session (\<lambda>session. session\<lparr>seen_real_next_step := True\<rparr>) (manual_flow (fst d))
                   else manual_flow (fst d)) in
             case observe_deferred_physical_focus_invalidation (is_session_type (input_snapshot (fst d))) event flow of
               (focus_invalidated, flow) \<Rightarrow>
               let d = update (\<lambda>s. s\<lparr>deferred_input := ledger, manual_flow := flow\<rparr>) d in
               if focus_invalidated then (Inr (), handle_non_key_invalidation C d)
               else if admission = RequestCancellation
               then (case promote_in_flight_to_cancel_requested flow of
                       (Some request_id, flow) \<Rightarrow>
                         (Inr (), request_manual_current_word_cancel C request_id
                            (update (\<lambda>s. invalidate_word_context (s\<lparr>manual_flow := flow\<rparr>)) d))
                     | (None, _) \<Rightarrow> (Inr (), d))
               else (Inr (), d)))"

definition route_manual_flow ::
  "'w daemon_calls \<Rightarrow> deferred_event \<Rightarrow> input_origin \<Rightarrow> 'w daemon \<Rightarrow> bool res \<times> 'w daemon" where
  "route_manual_flow C event origin d =
     (let key = ev_key event; value = ev_value event in
      case manual_current_word_physical_event_action (has_active_manual_current_word_flow (fst d))
             (hotkey_trigger_to_evdev_key (hs_trigger (rcs_manual_correction_hotkey (is_config (input_snapshot (fst d))))))
             (flow_seen_real_next_step (fst d)) key value origin of
        ProcessImmediately \<Rightarrow> (Inr False, d)
      | SwallowEvent \<Rightarrow>
          (Inr True, if value = 1 then update (\<lambda>s. s\<lparr>suppressed_undo := suppressed_arm (suppressed_undo s) key\<rparr>) d else d)
      | RequestRetryAfterDrain \<Rightarrow>
          (Inr True, update (\<lambda>s. request_retry_after_drain
             (s\<lparr>suppressed_undo := suppressed_arm (suppressed_undo s) key\<rparr>)) d)
      | EnqueueEvent marks_real_next_step \<Rightarrow> finished (enqueue_deferred_physical_event C event marks_real_next_step d))"

text \<open>From here on the event counts as typed: modifiers, focus switches and the two latches.\<close>

definition unlatch :: "runtime_config_snapshot \<Rightarrow> deferred_event \<Rightarrow> service \<Rightarrow> service" where
  "unlatch config event s =
     (let s = (if layout_shortcut_latched s \<and>
                  \<not> keeps_layout_switch_combo_active (modifiers s) (rcs_layout_switch_combo config)
               then s\<lparr>layout_shortcut_latched := False\<rparr> else s)
      in if should_clear_manual_hotkey_latch_on_key_press (hotkey_latch s)
              (hotkey_trigger_to_evdev_key (hs_trigger (rcs_manual_correction_hotkey config)))
              (ev_key event) (ev_value event) (ev_timestamp event)
         then s\<lparr>hotkey_latch := None\<rparr> else s)"

definition follow_modifiers :: "'w daemon_calls \<Rightarrow> runtime_config_snapshot \<Rightarrow> deferred_event \<Rightarrow> 'w daemon \<Rightarrow> 'w daemon" where
  "follow_modifiers C config event d =
     (let d = update (store_modifiers (ev_key event) (ev_value event)) d;
          d = (if should_invalidate_for_wayland_focus_switch_shortcut (is_session_type (input_snapshot (fst d)))
                    (modifiers (fst d)) (ev_key event) (ev_value event)
               then handle_non_key_invalidation C d else d)
      in update (unlatch config event) d)"

definition finish_early ::
  "'w daemon_calls \<Rightarrow> runtime_config_snapshot \<Rightarrow> key \<Rightarrow> int \<Rightarrow> 'w daemon \<Rightarrow> bool res \<times> 'w daemon" where
  "finish_early C config key value d =
     (case take_pending_word_commit_for_early_finish (pending_commit (fst d)) key value of
        (None, _) \<Rightarrow> (Inr False, d)
      | (Some (p, preserved), pending) \<Rightarrow>
          then_st (finish_pending_word_commit C p config
                     (update (\<lambda>s. s\<lparr>pending_commit := pending, suppressed_separator_key := preserved\<rparr>) d)) (\<lambda>_ d.
          (Inr (manual_correction_hotkey_matches (rcs_manual_correction_hotkey config) (modifiers (fst d)) key value), d)))"

definition handle_layout_shortcut_if_matched ::
  "'w daemon_calls \<Rightarrow> runtime_config_snapshot \<Rightarrow> key \<Rightarrow> int \<Rightarrow> 'w daemon \<Rightarrow> bool \<times> 'w daemon" where
  "handle_layout_shortcut_if_matched C config key value d =
     (if \<not> matches_layout_switch_combo (modifiers (fst d)) (rcs_layout_switch_combo config) key value then (False, d)
      else if layout_shortcut_latched (fst d) then (True, d)
      else (False, update invalidate_word_context
              (snd (call (dc_invalidate_layout C) (update (\<lambda>s. s\<lparr>layout_shortcut_latched := True\<rparr>) d)))))"

definition handle_selected_text_hotkey ::
  "'w daemon_calls \<Rightarrow> runtime_config_snapshot \<Rightarrow> key \<Rightarrow> int \<Rightarrow> bool \<Rightarrow> 'w daemon \<Rightarrow> bool res \<times> 'w daemon" where
  "handle_selected_text_hotkey C config key value inhibited d =
     (if \<not> selected_text_hotkey_matches_when_allowed (rcs_selected_text_hotkey config) (modifiers (fst d)) key value inhibited
      then (Inr False, d)
      else
        let d = update (\<lambda>s. s\<lparr>suppressed_hotkey_key := Some key, pending_selected_text_switch := True\<rparr>) d in
        if selected_text_hotkey_runs_on_press key
        then then_st (maybe_run_pending_selected_text_switch C (update (\<lambda>s. s\<lparr>suppressed_hotkey_key := None\<rparr>) d)) (\<lambda>_ d.
             (Inr True, update (\<lambda>s. s\<lparr>suppressed_hotkey_key := Some key\<rparr>) d))
        else (Inr True, d))"

text \<open>Forwarding, and then a selected-text job that has been waiting.\<close>

definition forward_and_maybe_run ::
  "'w daemon_calls \<Rightarrow> input_origin \<Rightarrow> deferred_event \<Rightarrow> 'w daemon \<Rightarrow> unit res \<times> 'w daemon" where
  "forward_and_maybe_run C origin event d =
     then_st (forward_event_for_origin C origin (sequence_id event) (ev_key event) (ev_value event) d) (\<lambda>_ d.
     maybe_run_pending_selected_text_switch C d)"

subsection \<open>Keys\<close>

abbreviation forward ::
  "'w daemon_calls \<Rightarrow> input_origin \<Rightarrow> deferred_event \<Rightarrow> 'w daemon \<Rightarrow> unit res \<times> 'w daemon" where
  "forward C origin event \<equiv> forward_event_for_origin C origin (sequence_id event) (ev_key event) (ev_value event)"

definition track_and_forward ::
  "'w daemon_calls \<Rightarrow> input_origin \<Rightarrow> deferred_event \<Rightarrow> word_tracking_event \<Rightarrow> 'w daemon \<Rightarrow> unit res \<times> 'w daemon" where
  "track_and_forward C origin event tracking d =
     check (ensure (keyboard_attached (fst d)) KeyboardNotFound) d (\<lambda>_.
     forward C origin event (update (\<lambda>s. snd (apply_word_tracking_event tracking s)) d))"

definition set_pending :: "key \<Rightarrow> pending_word_commit_action \<Rightarrow> snapshot_authorization \<Rightarrow> service \<Rightarrow> service" where
  "set_pending key action authorization s =
     s\<lparr>suppressed_separator_key := Some key,
       pending_commit := Some \<lparr>pw_separator_key = key, pw_action = action, pw_authorization = authorization\<rparr>\<rparr>"

definition same_layout_plan_for ::
  "runtime_config_snapshot \<Rightarrow> app_layout_kind \<Rightarrow> nat \<Rightarrow> u64 \<Rightarrow> service \<Rightarrow> correction_plan option" where
  "same_layout_plan_for config kind now epoch s =
     (if same_layout_fixes_allowed (input_snapshot s) now epoch
      then same_layout_case_correction_plan (word_buffer s) kind (rcs_fix_two_capitals config) (rcs_fix_accidental_caps_lock config)
      else None)"

definition auto_correction_wanted :: "runtime_config_snapshot \<Rightarrow> app_layout_kind \<Rightarrow> service \<Rightarrow> bool" where
  "auto_correction_wanted config kind s \<longleftrightarrow>
     is_enabled (input_snapshot s) \<and> rcs_auto_switch_enabled config \<and> fa_auto_switch (is_features (input_snapshot s)) \<and>
     auto_layout_correction_supported_for_layout kind \<and> should_switch (word_buffer s) kind"

definition space_decision ::
  "'w daemon_calls \<Rightarrow> runtime_config_snapshot \<Rightarrow> input_origin \<Rightarrow> deferred_event \<Rightarrow> 'w daemon \<Rightarrow> unit res \<times> 'w daemon" where
  "space_decision C config origin event d =
     (case now_and_epoch C d of ((now, epoch), d) \<Rightarrow>
      let behind = (\<lambda>s. (word_behind_separator s)\<lparr>word_buffer_overflowed := False\<rparr>) in
      case word_boundary_action (input_snapshot (fst d)) now epoch (ev_key event) of
        ForwardUncorrected _ \<Rightarrow>
          forward C origin event (update behind (snd (call (dc_request_layout_refresh C) d)))
      | Evaluate kind authorization \<Rightarrow>
          if auto_correction_wanted config kind (fst d)
          then (Inr (), update (set_pending (ev_key event) LayoutCorrection authorization) d)
          else
            (case same_layout_plan_for config kind now epoch (fst d) of
               Some plan \<Rightarrow>
                 (Inr (), update (set_pending (ev_key event) (SameLayoutCaseCorrection (cp_buffer plan)) authorization) d)
             | None \<Rightarrow> forward C origin event (update behind d)))"

definition handle_space ::
  "'w daemon_calls \<Rightarrow> runtime_config_snapshot \<Rightarrow> input_origin \<Rightarrow> deferred_event \<Rightarrow> 'w daemon \<Rightarrow> unit res \<times> 'w daemon" where
  "handle_space C config origin event d =
     (if word_buffer_overflowed (fst d) then track_and_forward C origin event Boundary d
      else if should_commit_manually_corrected_current_word (correction_state (fst d)) (ev_key event) (length (word_buffer (fst d)))
      then forward C origin event (update (\<lambda>s. word_behind_separator (s\<lparr>correction_state := Raw\<rparr>)) d)
      else space_decision C config origin event d)"

definition boundary_decision ::
  "'w daemon_calls \<Rightarrow> runtime_config_snapshot \<Rightarrow> input_origin \<Rightarrow> deferred_event \<Rightarrow> 'w daemon \<Rightarrow> unit res \<times> 'w daemon" where
  "boundary_decision C config origin event d =
     (case now_and_epoch C d of ((now, epoch), d) \<Rightarrow>
      case word_boundary_action (input_snapshot (fst d)) now epoch (ev_key event) of
        ForwardUncorrected _ \<Rightarrow>
          forward C origin event (update invalidate_word_context (snd (call (dc_request_layout_refresh C) d)))
      | Evaluate kind authorization \<Rightarrow>
          (case same_layout_plan_for config kind now epoch (fst d) of
             Some plan \<Rightarrow>
               (Inr (), update (set_pending (ev_key event) (SameLayoutCaseCorrection (cp_buffer plan)) authorization) d)
           | None \<Rightarrow> forward C origin event (update invalidate_word_context d)))"

definition handle_enter_or_tab ::
  "'w daemon_calls \<Rightarrow> runtime_config_snapshot \<Rightarrow> input_origin \<Rightarrow> deferred_event \<Rightarrow> 'w daemon \<Rightarrow> unit res \<times> 'w daemon" where
  "handle_enter_or_tab C config origin event d =
     (if should_commit_manually_corrected_current_word (correction_state (fst d)) (ev_key event) (length (word_buffer (fst d)))
      then forward C origin event (update (\<lambda>s. invalidate_word_context (s\<lparr>correction_state := Raw\<rparr>)) d)
      else boundary_decision C config origin event d)"

definition is_plain_character :: "modifier_state \<Rightarrow> key \<Rightarrow> bool" where
  "is_plain_character m key \<longleftrightarrow> is_character key \<and> \<not> is_ctrl_pressed m \<and> \<not> is_alt_pressed m \<and> \<not> is_meta_pressed m"

definition current_stroke :: "modifier_state \<Rightarrow> key \<Rightarrow> keystroke" where
  "current_stroke m key = \<lparr>ks_key = key, ks_shift = is_shift_pressed m, ks_caps_lock = ms_caps_lock_active m\<rparr>"

definition handle_other_key ::
  "'w daemon_calls \<Rightarrow> input_origin \<Rightarrow> deferred_event \<Rightarrow> 'w daemon \<Rightarrow> unit res \<times> 'w daemon" where
  "handle_other_key C origin event d =
     (let m = modifiers (fst d); key = ev_key event in
      if is_plain_character m key
      then then_st (track_and_forward C origin event (PlainCharacter (current_stroke m key)) d) (\<lambda>_ d.
           maybe_run_pending_selected_text_switch C d)
      else forward_and_maybe_run C origin event (if is_modifier key then d else update invalidate_word_context d))"

definition handle_typed_key ::
  "'w daemon_calls \<Rightarrow> runtime_config_snapshot \<Rightarrow> input_origin \<Rightarrow> deferred_event \<Rightarrow> 'w daemon \<Rightarrow> unit res \<times> 'w daemon" where
  "handle_typed_key C config origin event d =
     (let key = ev_key event in
      if key = KEY_SPACE then handle_space C config origin event d
      else if key = KEY_ENTER \<or> key = KEY_TAB then handle_enter_or_tab C config origin event d
      else if key = KEY_BACKSPACE then track_and_forward C origin event Backspace d
      else handle_other_key C origin event d)"

subsection \<open>The handler\<close>

text \<open>The part of the handler after the modifiers have been followed, with its configuration.\<close>

definition handle_hotkeys_and_typing ::
  "'w daemon_calls \<Rightarrow> runtime_config_snapshot \<Rightarrow> input_origin \<Rightarrow> deferred_event \<Rightarrow> 'w daemon \<Rightarrow> unit res \<times> 'w daemon" where
  "handle_hotkeys_and_typing C config origin event d =
     (let key = ev_key event; value = ev_value event in
      if should_swallow_manual_hotkey_latched_event (hotkey_latch (fst d)) key value then (Inr (), d)
      else
        unless_done (finish_early C config key value d) (\<lambda>d.
        case handle_layout_shortcut_if_matched C config key value d of (done, d) \<Rightarrow>
        if done then (Inr (), d)
        else
          case call (dc_hotkey_capture_inhibited C) d of (inhibited, d) \<Rightarrow>
          unless_done (handle_selected_text_hotkey C config key value inhibited d) (\<lambda>d.
          if value = 0 then forward_and_maybe_run C origin event d
          else if manual_correction_hotkey_matches_when_allowed (rcs_manual_correction_hotkey config) (modifiers (fst d))
                    key value inhibited
          then handle_manual_hotkey C config key origin d
          else handle_typed_key C config origin event d)))"

definition handle_key_event ::
  "'w daemon_calls \<Rightarrow> deferred_event \<Rightarrow> input_origin \<Rightarrow> 'w daemon \<Rightarrow> unit res \<times> 'w daemon" where
  "handle_key_event C event origin d =
     (let key = ev_key event; value = ev_value event;
          d = snd (adopt_input_snapshot_nonblocking C d)
      in unless_done (route_suppressed_hotkey C key value d) (\<lambda>d.
         case route_suppressed_undo key value d of (swallowed, d) \<Rightarrow>
         if swallowed then (Inr (), d)
         else
           unless_done (route_suppressed_separator C key value d) (\<lambda>d.
           unless_done (route_capture C origin (sequence_id event) key value d) (\<lambda>d.
           unless_done (route_manual_flow C event origin d) (\<lambda>d.
           let config = is_config (input_snapshot (fst d)) in
           handle_hotkeys_and_typing C config origin event (follow_modifiers C config event d))))))"

subsection \<open>Completion of a manual correction\<close>

definition reset_transient_input_state :: "service \<Rightarrow> service" where
  "reset_transient_input_state s =
     (let s = clear_word_context_state s in
      s\<lparr>word_buffer_overflowed := False, suppressed_hotkey_key := None, suppressed_undo := [], hotkey_latch := None,
        manual_flow := IdleFlow, suppressed_separator_key := None, layout_shortcut_latched := False, pending_commit := None,
        pending_selected_text_switch := False, modifiers := modifier_state_default,
        shared_modifiers := shared_store modifier_state_default (shared_modifiers s)\<rparr>)"

definition adopt_corrected_word :: "correction_plan \<Rightarrow> service \<Rightarrow> service" where
  "adopt_corrected_word plan s =
     (snd (finalize_manual_correction \<lparr>am_corrected_buffer = cp_buffer plan, am_used_current_buffer = True,
        am_extra_backspaces = extra_backspaces plan\<rparr> s))\<lparr>correction_state := ManuallyCorrected, hotkey_latch := None\<rparr>"

definition handle_manual_completion ::
  "'w daemon_calls \<Rightarrow> manual_current_word_completion \<Rightarrow> 'w daemon \<Rightarrow> unit res \<times> 'w daemon" where
  "handle_manual_completion C completion d =
     (case transition_manual_completion completion (manual_flow (fst d)) of
        (None, _) \<Rightarrow> (Inr (), d)
      | (Some transition, flow) \<Rightarrow>
          let d = update (\<lambda>s. s\<lparr>manual_flow := flow\<rparr>) (snd (call (dc_invalidate_layout C) d)) in
          case transition of
            CompletionSucceeded session plan \<Rightarrow>
              (Inr (), update (if context_invalidated session then invalidate_word_context else adopt_corrected_word plan) d)
          | CompletionCancelled session \<Rightarrow> (Inr (), update invalidate_word_context d)
          | CompletionFailed session reason \<Rightarrow>
              (Inl (failed_manual_completion_error (mc_request_id completion) reason), update reset_transient_input_state d))"

definition poll_manual_completion :: "'w daemon_calls \<Rightarrow> 'w daemon \<Rightarrow> unit res \<times> 'w daemon" where
  "poll_manual_completion C d =
     (if \<not> keyboard_attached (fst d) then (Inr (), d)
      else
        then_st (call (dc_poll_manual_completion C) d) (\<lambda>completion d.
        case completion of None \<Rightarrow> (Inr (), d) | Some c \<Rightarrow> handle_manual_completion C c d))"

subsection \<open>Replay of deferred events\<close>

definition is_waiting :: "focus_barrier_decision \<Rightarrow> bool" where
  "is_waiting decision = (case decision of focus_barrier_decision.Waiting _ \<Rightarrow> True | _ \<Rightarrow> False)"

text \<open>Whether a focus barrier holds the replay back.\<close>

definition check_focus_barrier :: "'w daemon_calls \<Rightarrow> 'w daemon \<Rightarrow> bool res \<times> 'w daemon" where
  "check_focus_barrier C d =
     (let event = peek (deferred_input (fst d));
          pending = (case manual_flow (fst d) of
            DrainingDeferredInput session \<Rightarrow> barrier_has_pending (deferred_focus_barriers session) | _ \<Rightarrow> False)
      in if event = None \<and> \<not> pending then (Inr False, d)
         else
           then_st (on_keyboard (\<lambda>w. case dc_target_generation C w of (g, w) \<Rightarrow> (Inr g, w)) d) (\<lambda>generation d.
           case call (dc_instant_now C) d of (now, d) \<Rightarrow>
           case flow_barrier_before_next_event generation now event (manual_flow (fst d)) of (decision, flow) \<Rightarrow>
           (Inr (is_waiting decision), update (\<lambda>s. s\<lparr>manual_flow := flow\<rparr>) d)))"

definition replay_deferred_event :: "'w daemon_calls \<Rightarrow> deferred_event \<Rightarrow> 'w daemon \<Rightarrow> unit res \<times> 'w daemon" where
  "replay_deferred_event C event d =
     then_st (handle_key_event C event DeferredReplay d) (\<lambda>_ d.
     let d = update (\<lambda>s. s\<lparr>deferred_input := snd (acknowledge (deferred_input s) (sequence_id event))\<rparr>) d in
     then_st (on_keyboard (\<lambda>w. case dc_target_generation C w of (g, w) \<Rightarrow> (Inr g, w)) d) (\<lambda>generation d.
     case call (dc_instant_now C) d of (now, d) \<Rightarrow>
     (Inr (), update (\<lambda>s. s\<lparr>manual_flow :=
        (case acknowledge_focus_barrier (sequence_id event) generation now (manual_flow s) of
           DrainingDeferredInput session \<Rightarrow>
             DrainingDeferredInput (session\<lparr>drained_events := Suc (drained_events session)\<rparr>)
         | flow \<Rightarrow> flow)\<rparr>) d)))"

definition finish_drain :: "'w daemon_calls \<Rightarrow> manual_session \<Rightarrow> 'w daemon \<Rightarrow> unit res \<times> 'w daemon" where
  "finish_drain C session d =
     (let d = update (\<lambda>s. s\<lparr>manual_flow := IdleFlow, deferred_input := snd (finish_drained (deferred_input s))\<rparr>) d in
      if should_restart_after_drain (length (dl_queue (deferred_input (fst d)))) (retry_after_drain_requested session)
      then
        (let d = snd (adopt_input_snapshot_nonblocking C d) in
         then_st (begin_deferred_manual_correction C (ms_undo_key session) (is_config (input_snapshot (fst d))) d) (\<lambda>_ d.
         (Inr (), d)))
      else (Inr (), d))"

definition drain_one_deferred_input_event :: "'w daemon_calls \<Rightarrow> 'w daemon \<Rightarrow> unit res \<times> 'w daemon" where
  "drain_one_deferred_input_event C d =
     (case manual_flow (fst d) of
        DrainingDeferredInput _ \<Rightarrow>
          let event = peek (deferred_input (fst d)) in
          unless_done (check_focus_barrier C d) (\<lambda>d.
          case event of
            Some event \<Rightarrow> replay_deferred_event C event d
          | None \<Rightarrow>
              (case manual_flow (fst d) of
                 DrainingDeferredInput session \<Rightarrow> finish_drain C session d
               | _ \<Rightarrow> (Inr (), d)))
      | _ \<Rightarrow> (Inr (), d))"

end
