(* ===== verification/Word_Safety.thy ===== *)
theory Word_Safety
  imports Daemon_Service Switch_Properties "HOL-Library.Sublist"
begin

text \<open>
  What the event loop believes about the word before the cursor, compared with the application it types
  into.  The application is an \<open>editor\<close>; the locale \<open>editor_calls\<close> says what the calls of the service
  do to it; the invariant \<open>word_known\<close> ties the fields of the service to its text.
\<close>

subsection \<open>The application\<close>

text \<open>
  \<open>ed_text\<close> are keys known to stand before the cursor, the empty list when nothing is known.
  \<open>ed_clean\<close> says that every correction so far was made on the word it was meant for.
\<close>

record editor =
  ed_text :: "key list"
  ed_modifiers :: modifier_state
  ed_in_flight :: "(u64 \<times> correction_plan) option"
  ed_clean :: bool

definition types_plainly :: "modifier_state \<Rightarrow> bool" where
  "types_plainly m \<longleftrightarrow> \<not> is_ctrl_pressed m \<and> \<not> is_alt_pressed m \<and> \<not> is_meta_pressed m"

text \<open>A key that is neither a character, the space nor the backspace may move the cursor anywhere.\<close>

definition typed_text :: "key \<Rightarrow> int \<Rightarrow> modifier_state \<Rightarrow> key list \<Rightarrow> key list" where
  "typed_text key value m text =
     (if value = 0 \<or> is_modifier key then text
      else if \<not> types_plainly m then []
      else if key = KEY_BACKSPACE then butlast text
      else if key = KEY_SPACE \<or> is_character key then text @ [key]
      else [])"

definition type_key :: "key \<Rightarrow> int \<Rightarrow> editor \<Rightarrow> editor" where
  "type_key key value e =
     (let m = modifier_update key value (ed_modifiers e) in
      e\<lparr>ed_modifiers := m, ed_text := typed_text key value m (ed_text e)\<rparr>)"

text \<open>A correction is on the word when the keys it deletes are the ones it types, with their separator.\<close>

definition on_the_word :: "correction_plan \<Rightarrow> key list \<Rightarrow> bool" where
  "on_the_word plan text \<longleftrightarrow>
     suffix (map ks_key (cp_buffer plan) @ replicate (extra_backspaces plan) KEY_SPACE) text \<and>
     length (cp_buffer plan) \<le> MAX_CORRECTION_KEYSTROKES \<and> extra_backspaces plan \<le> MAX_CORRECTION_EXTRA_BACKSPACES"

definition retype :: "correction_plan \<Rightarrow> editor \<Rightarrow> editor" where
  "retype plan e = e\<lparr>ed_text := take (length (ed_text e) - extra_backspaces plan) (ed_text e)\<rparr>"

text \<open>An editor in which the text has changed in a way the service does not follow.\<close>

definition text_changed :: "editor \<Rightarrow> editor \<Rightarrow> bool" where
  "text_changed e e' \<longleftrightarrow>
     ed_modifiers e' = ed_modifiers e \<and> ed_in_flight e' = ed_in_flight e \<and> ed_clean e' = ed_clean e"

definition judged :: "correction_plan \<Rightarrow> editor \<Rightarrow> editor" where
  "judged plan e = e\<lparr>ed_clean := (ed_clean e \<and> on_the_word plan (ed_text e))\<rparr>"

subsection \<open>The calls\<close>

definition neutral :: "('w \<Rightarrow> editor) \<Rightarrow> ('w \<Rightarrow> 'a \<times> 'w) \<Rightarrow> bool" where
  "neutral ed f \<longleftrightarrow> (\<forall>w. ed (snd (f w)) = ed w)"

abbreviation keeps_clean :: "('w \<Rightarrow> editor) \<Rightarrow> 'w \<Rightarrow> 'w \<Rightarrow> bool" where
  "keeps_clean ed w w' \<equiv> ed_clean (ed w') = ed_clean (ed w)"

definition acts :: "('w \<Rightarrow> editor) \<Rightarrow> (editor \<Rightarrow> editor) \<Rightarrow> ('w \<Rightarrow> unit res \<times> 'w) \<Rightarrow> bool" where
  "acts ed g f \<longleftrightarrow> (\<forall>w. post (keeps_clean ed w) (\<lambda>_ w'. ed w' = g (ed w)) (f w))"

definition corrects :: "('w \<Rightarrow> editor) \<Rightarrow> correction_plan \<Rightarrow> ('w \<Rightarrow> 'a res \<times> 'w) \<Rightarrow> bool" where
  "corrects ed plan f \<longleftrightarrow>
     (\<forall>w. on_the_word plan (ed_text (ed w)) \<longrightarrow> post (keeps_clean ed w) (\<lambda>_ w'. ed w' = retype plan (ed w)) (f w))"

definition begins :: "('w \<Rightarrow> editor) \<Rightarrow> correction_plan \<Rightarrow> ('w \<Rightarrow> manual_start_outcome res \<times> 'w) \<Rightarrow> bool" where
  "begins ed plan f \<longleftrightarrow>
     (\<forall>w. on_the_word plan (ed_text (ed w)) \<longrightarrow> post (keeps_clean ed w)
        (\<lambda>outcome w'. case outcome of
             Started request_id \<Rightarrow> ed w' = (ed w)\<lparr>ed_in_flight := Some (request_id, plan)\<rparr>
           | RejectedBeforeMutation _ \<Rightarrow> ed w' = ed w) (f w))"

text \<open>A correction that runs in the writer is reported after it has typed its word.\<close>

definition completed :: "editor \<Rightarrow> manual_current_word_completion option \<Rightarrow> editor \<Rightarrow> bool" where
  "completed e completion e' \<longleftrightarrow>
     (case completion of
        None \<Rightarrow> e' = e
      | Some c \<Rightarrow>
          (case ed_in_flight e of
             None \<Rightarrow> False
           | Some (request_id, plan) \<Rightarrow>
               mc_request_id c = request_id \<and>
               (case mc_outcome c of
                  ManualSucceeded typed \<Rightarrow>
                    typed = plan \<and> (on_the_word plan (ed_text e) \<longrightarrow> e' = retype plan (e\<lparr>ed_in_flight := None\<rparr>))
                | _ \<Rightarrow> text_changed (e\<lparr>ed_in_flight := None\<rparr>) e')))"

definition completes :: "('w \<Rightarrow> editor) \<Rightarrow> ('w \<Rightarrow> manual_current_word_completion option res \<times> 'w) \<Rightarrow> bool" where
  "completes ed f \<longleftrightarrow> (\<forall>w. post (keeps_clean ed w) (\<lambda>c w'. completed (ed w) c (ed w')) (f w))"

definition starts_job :: "('w \<Rightarrow> editor) \<Rightarrow> ('w \<Rightarrow> bool res \<times> 'w) \<Rightarrow> bool" where
  "starts_job ed f \<longleftrightarrow>
     (\<forall>w. post (keeps_clean ed w) (\<lambda>started w'. if started then text_changed (ed w) (ed w') else ed w' = ed w) (f w))"

definition routes :: "('w \<Rightarrow> editor) \<Rightarrow> ('w \<Rightarrow> capture_outcome res \<times> 'w) \<Rightarrow> bool" where
  "routes ed f \<longleftrightarrow>
     (\<forall>w. post (keeps_clean ed w) (\<lambda>outcome w'. co_disposition outcome = PassThrough \<and> ed w' = ed w) (f w))"

subsection \<open>What the service knows\<close>

abbreviation keys_of :: "keystroke list \<Rightarrow> key list" where
  "keys_of \<equiv> map ks_key"

definition word_part :: "'a word_state_scheme \<Rightarrow> key list \<Rightarrow> bool" where
  "word_part s text \<longleftrightarrow>
     suffix (keys_of (word_buffer s)) text \<and> length (word_buffer s) \<le> MAX_CORRECTION_KEYSTROKES \<and>
     (wc_valid (word_context s) \<and> followed_by_separator (word_context s) \<longrightarrow>
        word_buffer s = [] \<and> \<not> word_buffer_overflowed s \<and>
        length (word_before_cursor (word_context s)) \<le> MAX_CORRECTION_KEYSTROKES \<and>
        suffix (keys_of (word_before_cursor (word_context s)) @ [KEY_SPACE]) text) \<and>
     (word_buffer_overflowed s \<longrightarrow> word_buffer s = [])"

definition changes_case :: "pending_word_commit option \<Rightarrow> bool" where
  "changes_case pending \<longleftrightarrow>
     (case pending of Some p \<Rightarrow> (case pw_action p of SameLayoutCaseCorrection _ \<Rightarrow> True | LayoutCorrection \<Rightarrow> False) | None \<Rightarrow> False)"

definition commit_part :: "pending_word_commit \<Rightarrow> key list \<Rightarrow> bool" where
  "commit_part p text \<longleftrightarrow>
     pw_separator_key p \<in> {KEY_SPACE, KEY_ENTER, KEY_TAB} \<and>
     (case pw_action p of
        LayoutCorrection \<Rightarrow> True
      | SameLayoutCaseCorrection strokes \<Rightarrow>
          length strokes \<le> MAX_CORRECTION_KEYSTROKES \<and> suffix (keys_of strokes) text)"

definition pending_part :: "pending_word_commit option \<Rightarrow> key list \<Rightarrow> bool" where
  "pending_part pending text \<longleftrightarrow> (case pending of Some p \<Rightarrow> commit_part p text | None \<Rightarrow> True)"

definition latch_part :: "manual_hotkey_latch option \<Rightarrow> bool" where
  "latch_part latch \<longleftrightarrow> (case latch of Some l \<Rightarrow> \<not> is_modifier (latch_key l) | None \<Rightarrow> True)"

definition in_flight_id :: "manual_current_word_flow \<Rightarrow> u64 option" where
  "in_flight_id flow =
     (case flow of
        InFlight session \<Rightarrow> Some (ms_request_id session)
      | CancelRequested session \<Rightarrow> Some (ms_request_id session)
      | _ \<Rightarrow> None)"

definition flight_part :: "(u64 \<times> correction_plan) option \<Rightarrow> service \<Rightarrow> key list \<Rightarrow> bool" where
  "flight_part in_flight s text \<longleftrightarrow>
     (case in_flight of
        Some (request_id, plan) \<Rightarrow>
          in_flight_id (manual_flow s) = Some request_id \<and> \<not> word_buffer_overflowed s \<and>
          on_the_word plan text \<and> extra_backspaces plan = 0
      | None \<Rightarrow> True)"

text \<open>What the application holds of Ctrl, Alt and Meta the service has seen pressed.\<close>

definition mods_le :: "modifier_state \<Rightarrow> modifier_state \<Rightarrow> bool" where
  "mods_le m n \<longleftrightarrow>
     (left_ctrl m \<longrightarrow> left_ctrl n) \<and> (right_ctrl m \<longrightarrow> right_ctrl n) \<and> (left_alt m \<longrightarrow> left_alt n) \<and>
     (right_alt m \<longrightarrow> right_alt n) \<and> (left_meta m \<longrightarrow> left_meta n) \<and> (right_meta m \<longrightarrow> right_meta n)"

lemma types_plainly_le: "mods_le m n \<Longrightarrow> types_plainly n \<Longrightarrow> types_plainly m"
  by (auto simp: mods_le_def types_plainly_def is_ctrl_pressed_def is_alt_pressed_def is_meta_pressed_def)

lemma mods_le_update: "mods_le m n \<Longrightarrow> mods_le (modifier_update k v m) (modifier_update k v n)"
  by (simp add: mods_le_def modifier_update_def Let_def)

lemma mods_le_refl: "mods_le m m"
  by (simp add: mods_le_def)

lemma mods_le_swallowed:
  "mods_le m n \<Longrightarrow> v = 1 \<or> \<not> is_modifier k \<Longrightarrow> mods_le m (modifier_update k v n)"
  by (auto simp: mods_le_def modifier_update_def Let_def is_modifier_def)

lemma modifier_update_other: "\<not> is_modifier k \<Longrightarrow> modifier_update k v m = m"
  by (auto simp: modifier_update_def Let_def is_modifier_def)

subsection \<open>Typing and the word\<close>

lemma typed_text_simps:
  "typed_text k 0 m text = text" "is_modifier k \<Longrightarrow> typed_text k v m text = text"
  "v \<noteq> 0 \<Longrightarrow> types_plainly m \<Longrightarrow> typed_text KEY_SPACE v m text = text @ [KEY_SPACE]"
  "v \<noteq> 0 \<Longrightarrow> types_plainly m \<Longrightarrow> typed_text KEY_BACKSPACE v m text = butlast text"
  "v \<noteq> 0 \<Longrightarrow> types_plainly m \<Longrightarrow> is_character k \<Longrightarrow> \<not> is_modifier k \<Longrightarrow> k \<noteq> KEY_BACKSPACE \<Longrightarrow> typed_text k v m text = text @ [k]"
  by (simp_all add: typed_text_def is_modifier_def is_character_def)

lemma not_modifiers: "\<not> is_modifier KEY_SPACE" "\<not> is_modifier KEY_BACKSPACE" "\<not> is_modifier KEY_ENTER" "\<not> is_modifier KEY_TAB"
  "\<not> is_modifier (hotkey_trigger_to_evdev_key trigger)"
  by (simp_all add: is_modifier_def) (cases trigger; simp)

lemma word_part_cleared: "word_buffer s = [] \<Longrightarrow> \<not> (wc_valid (word_context s) \<and> followed_by_separator (word_context s)) \<Longrightarrow> word_part s text"
  by (auto simp: word_part_def)

lemma word_part_invalidate: "word_part (invalidate_word_context s) text"
  by (rule word_part_cleared) (simp_all add: invalidate_word_context_def clear_word_context_state_def word_context_default_def)

lemma suffix_butlast: "suffix xs ys \<Longrightarrow> suffix (butlast xs) (butlast ys)"
  by (auto simp: suffix_def butlast_append)

lemma track_character_known:
  assumes "word_part s text"
  shows "word_part (snd (track_character stroke s)) (text @ [ks_key stroke])"
  using assms by (auto simp: word_part_def track_character_def Let_def no_word_context_def)

lemma track_backspace_known:
  assumes "word_part s text"
  shows "word_part (snd (track_backspace s)) (butlast text)"
proof -
  have "suffix (keys_of (butlast (word_buffer s))) (butlast text)"
    using assms suffix_butlast [of "keys_of (word_buffer s)" "text"] by (simp add: word_part_def map_butlast)
  moreover have "suffix (keys_of ws) (butlast text)" if "suffix (keys_of ws @ [KEY_SPACE]) text" for ws
    using suffix_butlast [OF that] by simp
  ultimately show ?thesis
    using assms by (auto simp: word_part_def track_backspace_def Let_def)
qed

lemma word_behind_known:
  assumes "word_part s text"
  shows "word_part (word_behind_separator s) (text @ [KEY_SPACE])" "word_part ((word_behind_separator s)\<lparr>word_buffer_overflowed := False\<rparr>) (text @ [KEY_SPACE])"
  using assms by (auto simp: word_part_def word_behind_separator_def)

lemma committed_known:
  assumes "suffix (keys_of corrected) text" "length corrected \<le> MAX_CORRECTION_KEYSTROKES"
  shows "word_part ((snd (apply_corrected_word_commit_state KEY_SPACE corrected s))\<lparr>word_buffer_overflowed := False\<rparr>) (text @ [KEY_SPACE])"
  using assms by (auto simp: word_part_def apply_corrected_word_commit_state_def)

lemma committed_cleared:
  assumes "sep \<noteq> KEY_SPACE"
  shows "word_part ((snd (apply_corrected_word_commit_state sep corrected s))\<lparr>word_buffer_overflowed := False\<rparr>) text"
  using assms by (intro word_part_cleared) (simp_all add: apply_corrected_word_commit_state_def clear_word_context_state_def word_context_default_def)

lemma tracking_frame:
  "pending_commit (snd (apply_word_tracking_event event s)) = pending_commit s"
  "modifiers (snd (apply_word_tracking_event event s)) = modifiers s"
  "pending_selected_text_switch (snd (apply_word_tracking_event event s)) = pending_selected_text_switch s"
  "manual_flow (snd (apply_word_tracking_event event s)) = manual_flow s"
  by (cases event; simp add: apply_word_tracking_event_def track_character_def track_backspace_def track_boundary_def
      clear_word_context_state_def Let_def)+

lemma tracking_latch: "latch_part (hotkey_latch s) \<Longrightarrow> latch_part (hotkey_latch (snd (apply_word_tracking_event event s)))"
  by (cases event; simp add: apply_word_tracking_event_def track_character_def track_backspace_def track_boundary_def
      clear_word_context_state_def Let_def latch_part_def)

subsection \<open>Plans\<close>

lemma split_whole: "ws_core (split_word_core_and_trailing_tail buf kind) @ trailing_tail (split_word_core_and_trailing_tail buf kind) = buf"
  by (simp add: split_word_core_and_trailing_tail_def split_at_tail_spec(1))

lemma case_fix_keys: "keys_of (apply_case_fixes_to_strokes buf f g) = keys_of buf"
  using case_fixes_stable [of buf f g] by (simp add: Let_def)

lemma case_plan_keys:
  assumes "same_layout_case_correction_plan buf kind f g = Some plan"
  shows "keys_of (cp_buffer plan) = keys_of buf"
proof -
  let ?split = "split_word_core_and_trailing_tail buf kind"
  have "keys_of (cp_buffer plan) = keys_of (ws_core ?split) @ keys_of (trailing_tail ?split)"
    using assms by (auto simp: same_layout_case_correction_plan_def Let_def case_fix_keys normalized_replay_buffer_def
        normalize_strokes_for_replay_def comp_def split: if_splits)
  also have "\<dots> = keys_of buf" by (simp only: map_append [symmetric] split_whole)
  finally show ?thesis .
qed

lemma manual_plan_keys:
  assumes "manual_correction_plan current last_word separator kind = Some plan"
  shows "keys_of (cp_buffer plan) = keys_of (if current \<noteq> [] then current else last_word) \<and>
    extra_backspaces plan = (if current = [] \<and> separator then 1 else 0) \<and> (if current \<noteq> [] then current else last_word) \<noteq> []"
  using manual_plan_exact [of current last_word kind separator] assms split_whole [of "[]" kind] by (auto simp: Let_def comp_def)

definition plan_for :: "'a word_state_scheme \<Rightarrow> keystroke list \<Rightarrow> correction_plan \<Rightarrow> bool" where
  "plan_for s fallback plan \<longleftrightarrow>
     extra_backspaces plan = (if word_buffer s = [] \<and> followed_by_separator (word_context s) then 1 else 0) \<and>
     keys_of (cp_buffer plan) = keys_of (if word_buffer s \<noteq> [] then word_buffer s else fallback) \<and>
     (word_buffer s = [] \<longrightarrow> fallback \<noteq> [])"

text \<open>The words a manual correction may be asked for.\<close>

definition fallback_word :: "'a word_state_scheme \<Rightarrow> keystroke list \<Rightarrow> bool" where
  "fallback_word s fallback \<longleftrightarrow> fallback = [] \<or> can_correct_word_before_cursor s \<and> fallback = word_before_cursor (word_context s)"

lemma same_keys_length: "keys_of xs = keys_of ys \<Longrightarrow> length xs = length ys"
  by (rule map_eq_imp_length_eq)

lemma plan_for_on_the_word:
  assumes "plan_for s fallback plan" "word_part s text" "fallback_word s fallback"
  shows "on_the_word plan text"
proof (cases "word_buffer s = []")
  case True
  with assms(1,3) have "fallback = word_before_cursor (word_context s)" "can_correct_word_before_cursor s"
    by (auto simp: plan_for_def fallback_word_def)
  with assms True show ?thesis
    by (auto simp: plan_for_def word_part_def on_the_word_def can_correct_word_before_cursor_def
        MAX_CORRECTION_EXTRA_BACKSPACES_def dest: same_keys_length)
next
  case False
  with assms show ?thesis
    by (auto simp: plan_for_def word_part_def on_the_word_def MAX_CORRECTION_EXTRA_BACKSPACES_def dest: same_keys_length)
qed

lemma plan_for_buffer: "plan_for s [] plan \<Longrightarrow> word_buffer s \<noteq> [] \<and> extra_backspaces plan = 0 \<and> keys_of (cp_buffer plan) = keys_of (word_buffer s)"
  by (auto simp: plan_for_def split: if_splits)

lemma pending_part_unchanged: "\<not> changes_case pending \<Longrightarrow> pending_part pending t = pending_part pending t'"
  by (auto simp: pending_part_def changes_case_def commit_part_def split: option.splits pending_word_commit_action.splits)

lemma invalidate_frame [simp]:
  "pending_commit (invalidate_word_context s) = pending_commit s" "modifiers (invalidate_word_context s) = modifiers s"
  "pending_selected_text_switch (invalidate_word_context s) = pending_selected_text_switch s"
  "manual_flow (invalidate_word_context s) = manual_flow s" "hotkey_latch (invalidate_word_context t) = None"
  by (simp_all add: invalidate_word_context_def clear_word_context_state_def)

lemma latch_part_None [simp]: "latch_part None"
  by (simp add: latch_part_def)

lemma pending_part_None [simp]: "pending_part None text" "\<not> changes_case None"
  by (simp_all add: pending_part_def changes_case_def)

lemma retype_nothing: "extra_backspaces plan = 0 \<Longrightarrow> retype plan e = e"
  by (simp add: retype_def)

subsection \<open>Runs\<close>

text \<open>
  What the user keeps to: the space, the backspace, the trigger of a hotkey and the key that ends a
  waiting correction are not pressed with Ctrl, Alt or Meta, and no key but a modifier repeats while a
  correction of the case waits.
\<close>

definition plain_event :: "service \<Rightarrow> deferred_event \<Rightarrow> bool" where
  "plain_event s event \<longleftrightarrow>
     ((ev_value event \<noteq> 0 \<and> ev_key event \<in> {KEY_SPACE, KEY_BACKSPACE} \<or>
       pending_commit s \<noteq> None \<and> \<not> is_modifier (ev_key event) \<or>
       ev_key event \<in> hotkey_trigger_to_evdev_key ` {F9, F10, F12, Pause, ScrollLock, Insert, Menu})
      \<longrightarrow> types_plainly (modifiers s)) \<and>
     (changes_case (pending_commit s) \<longrightarrow> ev_value event \<in> {0, 1} \<or> is_modifier (ev_key event))"

text \<open>No two corrections are under way at a time.\<close>

definition one_correction :: "service \<Rightarrow> editor \<Rightarrow> bool" where
  "one_correction s e \<longleftrightarrow>
     (ed_in_flight e \<noteq> None \<longrightarrow> pending_commit s = None \<and> \<not> pending_selected_text_switch s) \<and>
     (pending_selected_text_switch s \<longrightarrow> \<not> changes_case (pending_commit s))"

text \<open>
  What the run loop calls.  \<open>PointerOrFocus\<close> is a click or a change of the window: the editor's text is
  another one afterwards.
\<close>

datatype 'w service_step = KeyEvent deferred_event | CompletionPoll | DrainStep | PointerOrFocus "'w \<Rightarrow> 'w"

definition service_step :: "'w daemon_calls \<Rightarrow> 'w service_step \<Rightarrow> 'w daemon \<Rightarrow> unit res \<times> 'w daemon" where
  "service_step C st d =
     (case st of
        KeyEvent event \<Rightarrow> handle_key_event C event Physical d
      | CompletionPoll \<Rightarrow> poll_manual_completion C d
      | DrainStep \<Rightarrow> drain_one_deferred_input_event C d
      | PointerOrFocus change \<Rightarrow> (Inr (), handle_non_key_invalidation C (fst d, change (snd d))))"

definition step_allowed :: "('w \<Rightarrow> editor) \<Rightarrow> 'w service_step \<Rightarrow> 'w daemon \<Rightarrow> bool" where
  "step_allowed ed st d \<longleftrightarrow>
     one_correction (fst d) (ed (snd d)) \<and>
     (case st of
        KeyEvent event \<Rightarrow> plain_event (fst d) event
      | CompletionPoll \<Rightarrow> True
      | DrainStep \<Rightarrow> (case peek (deferred_input (fst d)) of Some event \<Rightarrow> plain_event (fst d) event | None \<Rightarrow> True)
      | PointerOrFocus change \<Rightarrow>
          ed_in_flight (ed (snd d)) = None \<and> \<not> changes_case (pending_commit (fst d)) \<and>
          text_changed (ed (snd d)) (ed (change (snd d))))"

text \<open>A run goes on until a step fails; then the backend is closed.\<close>

fun service_run :: "'w daemon_calls \<Rightarrow> 'w service_step list \<Rightarrow> 'w daemon \<Rightarrow> unit res \<times> 'w daemon" where
  "service_run C [] d = (Inr (), d)"
| "service_run C (st # sts) d = then_st (service_step C st d) (\<lambda>_. service_run C sts)"

fun run_allowed :: "'w daemon_calls \<Rightarrow> ('w \<Rightarrow> editor) \<Rightarrow> 'w service_step list \<Rightarrow> 'w daemon \<Rightarrow> bool" where
  "run_allowed C ed [] d \<longleftrightarrow> True"
| "run_allowed C ed (st # sts) d \<longleftrightarrow>
     step_allowed ed st d \<and>
     (case service_step C st d of (Inr _, d) \<Rightarrow> run_allowed C ed sts d | (Inl _, _) \<Rightarrow> True)"

end
