(* ===== verification/Word_Invariant.thy ===== *)
theory Word_Invariant
  imports Word_Safety
begin

text \<open>
  What every operation of the event loop leaves of the invariant of Word_Safety, up to a whole key event:
  the client side of the locale \<open>editor_calls\<close>.
\<close>

subsection \<open>States\<close>

abbreviation editor_of :: "('w \<Rightarrow> editor) \<Rightarrow> 'w daemon \<Rightarrow> editor" where
  "editor_of ed d \<equiv> ed (snd d)"

definition clean :: "('w \<Rightarrow> editor) \<Rightarrow> 'w daemon \<Rightarrow> bool" where
  "clean ed d \<longleftrightarrow> ed_clean (editor_of ed d)"

text \<open>
  No correction is in flight; \<open>m\<close> and \<open>n\<close> are the modifiers of the application and of the service, and
  the commit that waits, if any, is still \<open>q\<close>.
\<close>

definition quiet ::
  "('w \<Rightarrow> editor) \<Rightarrow> modifier_state \<Rightarrow> modifier_state \<Rightarrow> pending_word_commit option \<Rightarrow> 'w daemon \<Rightarrow> bool" where
  "quiet ed m n q d \<longleftrightarrow>
     (let e = editor_of ed d; s = fst d in
      ed_clean e \<and> ed_in_flight e = None \<and> ed_modifiers e = m \<and> modifiers s = n \<and> word_part s (ed_text e) \<and>
      pending_part (pending_commit s) (ed_text e) \<and> latch_part (hotkey_latch s) \<and>
      (pending_selected_text_switch s \<longrightarrow> \<not> changes_case (pending_commit s)) \<and>
      (pending_commit s = None \<or> pending_commit s = q))"

text \<open>Between two events.\<close>

definition word_settled :: "('w \<Rightarrow> editor) \<Rightarrow> 'w daemon \<Rightarrow> bool" where
  "word_settled ed d \<longleftrightarrow>
     (let e = editor_of ed d; s = fst d in
      ed_clean e \<and> flight_part (ed_in_flight e) s (ed_text e) \<and> mods_le (ed_modifiers e) (modifiers s) \<and>
      word_part s (ed_text e) \<and> pending_part (pending_commit s) (ed_text e) \<and> latch_part (hotkey_latch s))"

lemma quiet_settled: "quiet ed m n q d \<Longrightarrow> mods_le m n \<Longrightarrow> word_settled ed d"
  by (simp add: quiet_def word_settled_def flight_part_def Let_def)

lemma word_settled_quiet:
  "word_settled ed d \<Longrightarrow> ed_in_flight (editor_of ed d) = None \<Longrightarrow>
    (pending_selected_text_switch (fst d) \<longrightarrow> \<not> changes_case (pending_commit (fst d))) \<Longrightarrow>
    quiet ed (ed_modifiers (editor_of ed d)) (modifiers (fst d)) (pending_commit (fst d)) d"
  by (simp add: quiet_def word_settled_def Let_def)

text \<open>As \<open>quiet\<close>, but a correction may be in flight.\<close>

definition rests :: "('w \<Rightarrow> editor) \<Rightarrow> modifier_state \<Rightarrow> modifier_state \<Rightarrow> 'w daemon \<Rightarrow> bool" where
  "rests ed m n d \<longleftrightarrow>
     (let e = editor_of ed d; s = fst d in
      ed_clean e \<and> flight_part (ed_in_flight e) s (ed_text e) \<and> ed_modifiers e = m \<and> modifiers s = n \<and>
      word_part s (ed_text e) \<and> pending_part (pending_commit s) (ed_text e) \<and> latch_part (hotkey_latch s))"

lemma quiet_rests: "quiet ed m n q d \<Longrightarrow> rests ed m n d"
  by (simp add: quiet_def rests_def flight_part_def Let_def)

lemma rests_settled: "rests ed m n d \<Longrightarrow> mods_le m n \<Longrightarrow> word_settled ed d"
  by (auto simp: rests_def word_settled_def Let_def)

lemma quiet_clean: "quiet ed m n q d \<Longrightarrow> clean ed d"
  by (simp add: quiet_def clean_def Let_def)

lemma word_settled_clean: "word_settled ed d \<Longrightarrow> clean ed d"
  by (simp add: word_settled_def clean_def Let_def)

text \<open>Only the snapshot and what the editor does not show may differ.\<close>

definition same_word :: "('w \<Rightarrow> editor) \<Rightarrow> 'w daemon \<Rightarrow> 'w daemon \<Rightarrow> bool" where
  "same_word ed d d' \<longleftrightarrow> (\<exists>snap. fst d' = (fst d)\<lparr>input_snapshot := snap\<rparr>) \<and> editor_of ed d' = editor_of ed d"

lemma same_word_refl: "same_word ed d d"
  by (auto simp: same_word_def intro: exI [of _ "input_snapshot (fst d)"])

lemma same_word_trans: "same_word ed d d' \<Longrightarrow> same_word ed d' d'' \<Longrightarrow> same_word ed d d''"
  by (auto simp: same_word_def)

lemma word_part_snapshot [simp]: "word_part (s\<lparr>input_snapshot := snap\<rparr>) text = word_part s text"
  by (simp add: word_part_def)

lemma flight_part_snapshot [simp]: "flight_part p (s\<lparr>input_snapshot := snap\<rparr>) text = flight_part p s text"
  by (simp add: flight_part_def split: option.split)

lemma quiet_same: "same_word ed d d' \<Longrightarrow> quiet ed m n q d' = quiet ed m n q d"
  by (auto simp: same_word_def quiet_def Let_def)

lemma word_settled_same: "same_word ed d d' \<Longrightarrow> word_settled ed d' = word_settled ed d"
  by (auto simp: same_word_def word_settled_def Let_def)

lemma fst_update [simp]: "fst (update f d) = f (fst d)" and snd_update [simp]: "snd (update f d) = snd d"
  by (simp_all add: update_def split: prod.splits)

lemma post_pair: "(\<And>a d'. r = (a, d') \<Longrightarrow> post E Q (k a d')) \<Longrightarrow> post E Q (case r of (a, d') \<Rightarrow> k a d')"
  by (cases r) simp

lemma post_mono: "post E Q r \<Longrightarrow> (\<And>a s. Q a s \<Longrightarrow> R a s) \<Longrightarrow> (\<And>s. E s \<Longrightarrow> F s) \<Longrightarrow> post F R r"
  by (auto simp: post_def split: sum.splits)

lemma post_unless_done:
  assumes "post E Q r" "\<And>d. Q True d \<Longrightarrow> R () d" "\<And>d. Q False d \<Longrightarrow> post E R (k d)"
  shows "post E R (unless_done r k)"
  unfolding unless_done_def by (rule post_then [OF assms(1)]) (use assms(2,3) in \<open>auto split: if_splits\<close>)

lemma call_fst [simp]: "fst (snd (call f d)) = fst d"
  by (simp add: call_def split: prod.splits)

lemma call_editor: "neutral ed f \<Longrightarrow> editor_of ed (snd (call f d)) = editor_of ed d"
  by (simp add: neutral_def call_def split: prod.splits) (metis snd_conv)

lemma call_post:
  assumes "post (keeps_clean ed (snd d)) Q (f (snd d))" "clean ed d"
  shows "post (clean ed) (\<lambda>a d'. fst d' = fst d \<and> Q a (snd d')) (call f d)"
  using assms by (auto simp: call_def post_def clean_def split: prod.splits sum.splits)

lemma on_keyboard_post:
  assumes "post (keeps_clean ed (snd d)) Q (f (snd d))" "clean ed d"
  shows "post (clean ed) (\<lambda>a d'. fst d' = fst d \<and> Q a (snd d')) (on_keyboard f d)"
  unfolding on_keyboard_def
  by (rule post_check [where E = "clean ed", OF assms(2)], rule call_post [where f = f and d = d, OF assms])

subsection \<open>The contract of the calls\<close>

locale editor_calls =
  fixes C :: "'w daemon_calls" and ed :: "'w \<Rightarrow> editor"
  assumes reads_neutral: "neutral ed (dc_target_generation C)" "neutral ed (dc_try_snapshot C)" "neutral ed (dc_layout_epoch C)"
      "neutral ed (dc_hotkey_capture_inhibited C)" "neutral ed (dc_instant_now C)" "neutral ed (dc_system_now C)"
    and requests_neutral: "neutral ed (dc_request_layout_refresh C)" "neutral ed (dc_invalidate_layout C)"
      "neutral ed (dc_request_manual_cancel C request_id)" "neutral ed (dc_publish_capture_state C state)"
    and forwarding_types: "acts ed (type_key key value) (dc_forward_event C sequence key value)"
      "acts ed (type_key key value) (dc_forward_deferred_event C sequence key value)"
    and separator_types: "acts ed (type_key key 0 \<circ> type_key key 1) (dc_type_separator C key)"
    and correction_corrects: "corrects ed plan (dc_apply_correction C plan config m)"
    and same_layout_corrects: "corrects ed plan (dc_apply_same_layout_correction C plan config m)"
    and manual_begins: "begins ed plan (dc_begin_manual_correction C plan config m)"
    and completion_completes: "completes ed (dc_poll_manual_completion C)"
    and job_starts: "starts_job ed (dc_start_selected_text C)"
    and capture_routes: "routes ed (dc_route_capture_event C now key value)"
begin

lemmas requests_editor [simp] = requests_neutral [THEN call_editor]

lemma call_neutral: "neutral ed f \<Longrightarrow> same_word ed d (snd (call f d))"
  by (auto simp: same_word_def call_editor intro!: exI [of _ "input_snapshot (fst d)"])

lemma call_neutral': "call f d = (a, d') \<Longrightarrow> neutral ed f \<Longrightarrow> same_word ed d d'"
  using call_neutral [of f d] by simp

lemma now_and_epoch_same: "now_and_epoch C d = (p, d') \<Longrightarrow> same_word ed d d'"
  by (auto simp: now_and_epoch_def split: prod.splits dest!: call_neutral' intro: same_word_trans reads_neutral)

lemma adopt_same: "adopt_input_snapshot_nonblocking C d = (b, d') \<Longrightarrow> same_word ed d d'"
proof -
  assume adopt: "adopt_input_snapshot_nonblocking C d = (b, d')"
  obtain t d1 where t: "call (dc_try_snapshot C) d = (t, d1)" by (meson surj_pair)
  then have same: "same_word ed d d1" by (rule call_neutral' [OF _ reads_neutral(2)])
  show ?thesis
  proof (cases t)
    case (Loaded snap)
    with adopt t same show ?thesis
      by (auto simp: adopt_input_snapshot_nonblocking_def same_word_def)
  qed (use adopt t same in \<open>simp_all add: adopt_input_snapshot_nonblocking_def\<close>)
qed

lemma layout_kind_same: "layout_kind_for_current_decision C d = (k, d') \<Longrightarrow> same_word ed d d'"
  by (auto simp: layout_kind_for_current_decision_def split: prod.splits option.splits
      dest!: now_and_epoch_same intro: same_word_trans call_neutral requests_neutral)

lemma keyboard_acts:
  "acts ed g f \<Longrightarrow> clean ed d \<Longrightarrow>
    post (clean ed) (\<lambda>_ d'. fst d' = fst d \<and> editor_of ed d' = g (editor_of ed d)) (on_keyboard f d)"
  unfolding acts_def by (rule on_keyboard_post) blast+

lemma keyboard_corrects:
  "corrects ed plan f \<Longrightarrow> clean ed d \<Longrightarrow> on_the_word plan (ed_text (editor_of ed d)) \<Longrightarrow>
    post (clean ed) (\<lambda>_ d'. fst d' = fst d \<and> editor_of ed d' = retype plan (editor_of ed d)) (on_keyboard f d)"
  unfolding corrects_def by (rule on_keyboard_post) blast+

lemma forward_post:
  assumes "clean ed d"
  shows "post (clean ed) (\<lambda>_ d'. fst d' = fst d \<and> editor_of ed d' = type_key key value (editor_of ed d))
    (forward_event_for_origin C origin sequence key value d)"
  unfolding forward_event_for_origin_def
  by (cases origin) (simp_all add: keyboard_acts [OF forwarding_types(1) assms] keyboard_acts [OF forwarding_types(2) assms])

lemma job_post:
  assumes "clean ed d"
  shows "post (clean ed) (\<lambda>started d'. fst d' = fst d \<and>
      (if started then text_changed (editor_of ed d) (editor_of ed d') else editor_of ed d' = editor_of ed d))
    (call (dc_start_selected_text C) d)"
  using job_starts unfolding starts_job_def by (intro call_post [OF _ assms]) blast

lemma apply_selected_text_quiet:
  assumes "quiet ed m n q d" "\<not> changes_case (pending_commit (fst d))"
  shows "post (clean ed) (\<lambda>_. quiet ed m n q) (apply_selected_text_switch C d)"
proof -
  have "post (clean ed) (\<lambda>_. quiet ed m n q) (then_st (call (dc_start_selected_text C) d) (\<lambda>started d.
      (Inr (), if started then update invalidate_word_context d else d)))"
    by (rule post_then, rule job_post, rule quiet_clean [OF assms(1)])
      (use assms in \<open>auto simp: quiet_def Let_def text_changed_def word_part_invalidate split: if_splits
        intro: pending_part_unchanged [THEN iffD1]\<close>)
  then show ?thesis using assms(1) by (simp add: apply_selected_text_switch_def)
qed

lemma maybe_run_quiet:
  assumes "quiet ed m n q d"
  shows "post (clean ed) (\<lambda>_. quiet ed m n q) (maybe_run_pending_selected_text_switch C d)"
proof (cases "pending_selected_text_switch (fst d) \<and> suppressed_hotkey_key (fst d) = None")
  case True
  have "post (clean ed) (\<lambda>_. quiet ed m n q) (apply_selected_text_switch C (update (\<lambda>s. s\<lparr>pending_selected_text_switch := False\<rparr>) d))"
    by (rule apply_selected_text_quiet) (use assms True in \<open>auto simp: quiet_def Let_def word_part_def\<close>)
  with True show ?thesis by (simp add: maybe_run_pending_selected_text_switch_def)
next
  case False
  with assms show ?thesis by (auto simp: maybe_run_pending_selected_text_switch_def)
qed

lemma prepare_same: "prepare_manual_correction C config fallback d = (r, d') \<Longrightarrow> same_word ed d d'"
  by (auto simp: prepare_manual_correction_def split: prod.splits option.splits if_splits
      dest!: now_and_epoch_same layout_kind_same intro: same_word_trans)

lemma prepare_plan:
  assumes "prepare_manual_correction C config fallback d = (Some p, d')"
  shows "plan_for (fst d) fallback (pm_plan p) \<and> (pm_used_current_buffer p \<longleftrightarrow> word_buffer (fst d) \<noteq> [])"
proof -
  obtain x d1 where x: "now_and_epoch C d = (x, d1)" by (meson surj_pair)
  obtain k d2 where k: "layout_kind_for_current_decision C d1 = (k, d2)" by (meson surj_pair)
  have same: "same_word ed d d2" by (rule same_word_trans [OF now_and_epoch_same [OF x] layout_kind_same [OF k]])
  then have "word_buffer (fst d2) = word_buffer (fst d)" "word_context (fst d2) = word_context (fst d)"
    by (auto simp: same_word_def)
  with assms x k show ?thesis
    by (auto simp: prepare_manual_correction_def plan_for_def case_fixed_def case_fix_keys split: prod.splits option.splits if_splits
        dest!: manual_plan_keys)
qed

lemma apply_manual_post:
  assumes "clean ed d" "word_part (fst d) (ed_text (editor_of ed d))" "fallback_word (fst d) fallback"
  shows "post (clean ed)
    (\<lambda>r d'. case r of
        None \<Rightarrow> same_word ed d d'
      | Some a \<Rightarrow> \<exists>plan. plan_for (fst d) fallback plan \<and> am_corrected_buffer a = cp_buffer plan \<and>
          am_extra_backspaces a = extra_backspaces plan \<and> (am_used_current_buffer a \<longleftrightarrow> word_buffer (fst d) \<noteq> []) \<and>
          (\<exists>snap. fst d' = (fst d)\<lparr>input_snapshot := snap\<rparr>) \<and> editor_of ed d' = retype plan (editor_of ed d))
    (apply_manual_correction C config fallback d)"
proof -
  obtain r d1 where Pair: "prepare_manual_correction C config fallback d = (r, d1)" by (meson surj_pair)
  note same = prepare_same [OF Pair]
  show ?thesis
  proof (cases r)
    case None
    with Pair same show ?thesis by (simp add: apply_manual_correction_def)
  next
    case (Some p)
    note plan = prepare_plan [OF Pair [unfolded Some]]
    have clean1: "clean ed d1" and text1: "editor_of ed d1 = editor_of ed d"
      using same assms(1) by (simp_all add: same_word_def clean_def)
    have "on_the_word (pm_plan p) (ed_text (editor_of ed d1))"
      unfolding text1 by (rule plan_for_on_the_word [OF conjunct1 [OF plan] assms(2,3)])
    note applied = keyboard_corrects [OF correction_corrects clean1 this]
    show ?thesis
      unfolding apply_manual_correction_def Pair Some prod.case option.case
      by (rule post_then [OF applied])
        (use plan same in \<open>auto simp: same_word_def intro!: exI [of _ "pm_plan p"] split: if_splits\<close>)
  qed
qed

lemma commit_quiet:
  assumes "quiet ed m n q d" "pending_commit (fst d) = None" "sep \<in> {KEY_SPACE, KEY_ENTER, KEY_TAB}" "types_plainly m"
    "suffix (keys_of corrected) (ed_text (editor_of ed d))" "length corrected \<le> MAX_CORRECTION_KEYSTROKES"
  shows "post (clean ed) (\<lambda>_ d'. quiet ed m n q d' \<and> pending_commit (fst d') = None) (commit_corrected_word C sep corrected d)"
proof -
  let ?d = "update (\<lambda>s. (snd (apply_corrected_word_commit_state sep corrected s))\<lparr>word_buffer_overflowed := False\<rparr>) d"
  have sep: "fst (apply_corrected_word_commit_state sep corrected (fst d)) = sep"
    by (simp add: apply_corrected_word_commit_state_def)
  have "clean ed ?d" using assms(1) by (simp add: quiet_def clean_def Let_def)
  note typed = keyboard_acts [OF separator_types [of sep] this]
  show ?thesis
    unfolding commit_corrected_word_def Let_def sep
  proof (rule post_mono [OF typed], goal_cases)
    case (1 u d')
    have same: "modifiers (fst ?d) = modifiers (fst d)" "hotkey_latch (fst ?d) = None \<or> hotkey_latch (fst ?d) = hotkey_latch (fst d)"
      "pending_selected_text_switch (fst ?d) = pending_selected_text_switch (fst d)" "pending_commit (fst ?d) = pending_commit (fst d)"
      by (auto simp: apply_corrected_word_commit_state_def clear_word_context_state_def)
    have mods: "modifier_update sep 0 (modifier_update sep 1 m) = m" "\<not> is_modifier sep"
      using assms(3) by (auto simp: modifier_update_other is_modifier_def)
    have "word_part (fst ?d) (typed_text sep 1 m (ed_text (editor_of ed d)))"
    proof (cases "sep = KEY_SPACE")
      case True
      then show ?thesis using committed_known [OF assms(5,6), of "fst d"] assms(4) by (simp add: typed_text_simps)
    next
      case False
      then show ?thesis by (simp add: committed_cleared)
    qed
    with 1 same mods assms(1,2) show ?case
      by (auto simp: quiet_def Let_def type_key_def typed_text_simps modifier_update_other)
  qed
qed

lemma finish_auto_quiet:
  assumes "quiet ed m n q d" "pending_commit (fst d) = None" "sep \<in> {KEY_SPACE, KEY_ENTER, KEY_TAB}" "types_plainly m"
  shows "post (clean ed) (\<lambda>_ d'. quiet ed m n q d' \<and> pending_commit (fst d') = None) (finish_pending_auto_correction C sep config d)"
proof -
  have known: "clean ed d" "word_part (fst d) (ed_text (editor_of ed d))" "fallback_word (fst d) []"
    using assms(1) by (simp_all add: quiet_def clean_def fallback_word_def Let_def)
  show ?thesis
    unfolding finish_pending_auto_correction_def
  proof (rule post_then [OF apply_manual_post [OF known]], goal_cases)
    case (1 applied d')
    have "quiet ed m n q d' \<and> pending_commit (fst d') = None \<and> word_part (fst d') (ed_text (editor_of ed d'))"
      using 1 assms(1,2) by (auto simp: quiet_def Let_def same_word_def retype_nothing dest!: plan_for_buffer split: option.splits)
    moreover have "suffix (keys_of corrected) (ed_text (editor_of ed d')) \<and> length corrected \<le> MAX_CORRECTION_KEYSTROKES"
      if "corrected = (case applied of Some a \<Rightarrow> am_corrected_buffer a | None \<Rightarrow> word_buffer (fst d'))" for corrected
      using 1 that known(2) by (auto simp: word_part_def same_word_def retype_nothing dest!: plan_for_buffer
          dest: same_keys_length split: option.splits)
    ultimately show ?case using commit_quiet [OF _ _ assms(3,4)] by blast
  qed
qed

lemma finish_case_quiet:
  assumes "quiet ed m n q d" "pending_commit (fst d) = None" "sep \<in> {KEY_SPACE, KEY_ENTER, KEY_TAB}" "types_plainly m"
    "suffix (keys_of corrected) (ed_text (editor_of ed d))" "length corrected \<le> MAX_CORRECTION_KEYSTROKES"
  shows "post (clean ed) (\<lambda>_ d'. quiet ed m n q d' \<and> pending_commit (fst d') = None)
    (finish_pending_same_layout_case_correction C sep corrected config d)"
proof -
  have "on_the_word \<lparr>cp_buffer = corrected, extra_backspaces = 0\<rparr> (ed_text (editor_of ed d))"
    using assms(5,6) by (simp add: on_the_word_def)
  note typed = keyboard_corrects [OF same_layout_corrects quiet_clean [OF assms(1)] this]
  show ?thesis
    unfolding finish_pending_same_layout_case_correction_def
    by (rule post_then [OF typed], rule commit_quiet [OF _ _ assms(3,4)])
      (use assms in \<open>auto simp: quiet_def Let_def retype_nothing\<close>)
qed

lemma authorized_same: "pending_commit_is_authorized_after_adoption C adopted p d = (b, d') \<Longrightarrow> same_word ed d d'"
  by (auto simp: pending_commit_is_authorized_after_adoption_def split: prod.splits dest: now_and_epoch_same)

lemma finish_commit_quiet:
  assumes "quiet ed m n q d" "pending_commit (fst d) = None" "commit_part p (ed_text (editor_of ed d))" "types_plainly m"
  shows "post (clean ed) (\<lambda>_ d'. quiet ed m n q d' \<and> pending_commit (fst d') = None) (finish_pending_word_commit C p config d)"
proof -
  obtain adopted d1 where 1: "adopt_input_snapshot_nonblocking C d = (adopted, d1)" by (meson surj_pair)
  obtain authorized d2 where 2: "pending_commit_is_authorized_after_adoption C adopted p d1 = (authorized, d2)" by (meson surj_pair)
  have same: "same_word ed d d2" by (rule same_word_trans [OF adopt_same [OF 1] authorized_same [OF 2]])
  then have at: "quiet ed m n q d2" "pending_commit (fst d2) = None" "commit_part p (ed_text (editor_of ed d2))"
    using assms(1-3) quiet_same [OF same, of m n q] by (auto simp: same_word_def)
  then have sep: "pw_separator_key p \<in> {KEY_SPACE, KEY_ENTER, KEY_TAB}" by (simp add: commit_part_def)
  have "suffix (keys_of (word_buffer (fst d2))) (ed_text (editor_of ed d2))"
    "length (word_buffer (fst d2)) \<le> MAX_CORRECTION_KEYSTROKES"
    using at(1) by (simp_all add: quiet_def word_part_def Let_def)
  note uncorrected = commit_quiet [OF at(1,2) sep assms(4) this]
  show ?thesis
    unfolding finish_pending_word_commit_def 1 2 prod.case
    using uncorrected finish_auto_quiet [OF at(1,2) sep assms(4)] finish_case_quiet [OF at(1,2) sep assms(4)] at(3)
    by (auto simp: commit_part_def split: pending_word_commit_action.split)
qed

lemma finish_early_quiet:
  assumes "quiet ed m n q d" "q \<noteq> None \<and> \<not> is_modifier key \<longrightarrow> types_plainly m"
  shows "post (clean ed)
    (\<lambda>done d'. quiet ed m n q d' \<and> (done \<longrightarrow> value = 1) \<and> (value = 1 \<and> \<not> is_modifier key \<longrightarrow> pending_commit (fst d') = None))
    (finish_early C config key value d)"
proof (cases "pending_commit (fst d)")
  case None
  with assms(1) show ?thesis by (auto simp: finish_early_def take_pending_word_commit_for_early_finish_def)
next
  case (Some p)
  show ?thesis
  proof (cases "value = 1 \<and> \<not> is_modifier key")
    case True
    let ?d = "update (\<lambda>s. s\<lparr>pending_commit := None, suppressed_separator_key := Some (pw_separator_key p)\<rparr>) d"
    have "quiet ed m n q ?d" "commit_part p (ed_text (editor_of ed ?d))" "types_plainly m"
      using assms Some True by (auto simp: quiet_def Let_def word_part_def pending_part_def)
    then have "post (clean ed) (\<lambda>_ d'. quiet ed m n q d' \<and> pending_commit (fst d') = None) (finish_pending_word_commit C p config ?d)"
      by (intro finish_commit_quiet) simp_all
    then have "post (clean ed)
        (\<lambda>done d'. quiet ed m n q d' \<and> (done \<longrightarrow> value = 1) \<and> (value = 1 \<and> \<not> is_modifier key \<longrightarrow> pending_commit (fst d') = None))
        (then_st (finish_pending_word_commit C p config ?d) (\<lambda>_ d.
          (Inr (manual_correction_hotkey_matches (rcs_manual_correction_hotkey config) (modifiers (fst d)) key value), d)))"
      by (rule post_then) (use True in simp)
    with Some True show ?thesis
      by (simp add: finish_early_def take_pending_word_commit_for_early_finish_def preserved_separator_after_early_finish_def)
  next
    case False
    with assms(1) show ?thesis by (auto simp: finish_early_def take_pending_word_commit_for_early_finish_def)
  qed
qed

lemma quiet_frame:
  assumes "quiet ed m n q d" "snd d' = snd d" "word_buffer (fst d') = word_buffer (fst d)"
    "word_buffer_overflowed (fst d') = word_buffer_overflowed (fst d)" "word_context (fst d') = word_context (fst d)"
    "hotkey_latch (fst d') = hotkey_latch (fst d)" "modifiers (fst d') = modifiers (fst d)"
    "pending_commit (fst d') = pending_commit (fst d)"
    "pending_selected_text_switch (fst d') = pending_selected_text_switch (fst d)"
  shows "quiet ed m n q d'"
  using assms by (simp add: quiet_def Let_def word_part_def)

lemma suppressed_hotkey_quiet:
  assumes "quiet ed m n q d"
  shows "post (clean ed) (\<lambda>_. quiet ed m n q) (route_suppressed_hotkey C key value d)"
proof -
  have unset: "quiet ed m n q (update (\<lambda>s. s\<lparr>suppressed_hotkey_key := None\<rparr>) d)"
    by (rule quiet_frame [OF assms]) simp_all
  have run: "post (clean ed) (\<lambda>_. quiet ed m n q) (finished (maybe_run_pending_selected_text_switch C d'))"
    if "quiet ed m n q d'" for d'
    by (rule post_then [OF maybe_run_quiet [OF that]]) simp
  from run [OF assms] run [OF unset] assms unset show ?thesis
    by (simp add: route_suppressed_hotkey_def Let_def)
qed

lemma suppressed_undo_quiet:
  "quiet ed m n q d \<Longrightarrow> route_suppressed_undo key value d = (b, d') \<Longrightarrow> quiet ed m n q d'"
  by (auto simp: route_suppressed_undo_def split: prod.splits intro: quiet_frame)

lemma suppressed_separator_quiet:
  assumes "quiet ed m n q d" "q \<noteq> None \<and> \<not> is_modifier key \<longrightarrow> types_plainly m"
  shows "post (clean ed) (\<lambda>_. quiet ed m n q) (route_suppressed_separator C key value d)"
proof (cases "should_swallow_suppressed_separator_release (suppressed_separator_key (fst d)) key value")
  case False
  with assms(1) show ?thesis
    by (simp add: route_suppressed_separator_def take_suppressed_separator_release_state_def)
next
  case True
  have swallowed: "post (clean ed) (\<lambda>_. quiet ed m n q)
      (then_st r (\<lambda>_ d. (Inr True, update (\<lambda>s. s\<lparr>suppressed_separator_key := None\<rparr>) d)))"
    if "post (clean ed) (\<lambda>_. quiet ed m n q) r" for r :: "unit res \<times> 'w daemon"
    by (rule post_then [OF that]) (auto intro: quiet_frame)
  show ?thesis
  proof (cases "\<exists>p. pending_commit (fst d) = Some p \<and> pw_separator_key p = key")
    case False
    have "quiet ed m n q (update (\<lambda>s. s\<lparr>suppressed_separator_key := None\<rparr>)
        (update (\<lambda>s. s\<lparr>pending_commit := pending_commit (fst d)\<rparr>) d))"
      by (rule quiet_frame [OF assms(1)]) simp_all
    with True False show ?thesis
      by (auto simp: route_suppressed_separator_def take_suppressed_separator_release_state_def Let_def split: option.split)
  next
    case same: True
    then obtain p where p: "pending_commit (fst d) = Some p" "pw_separator_key p = key" by blast
    let ?d = "update (\<lambda>s. s\<lparr>pending_commit := None\<rparr>) d"
    have at: "quiet ed m n q ?d" "commit_part p (ed_text (editor_of ed ?d))"
      using assms(1) p by (auto simp: quiet_def Let_def word_part_def pending_part_def)
    have "q = Some p" using assms(1) p(1) by (simp add: quiet_def Let_def)
    moreover have "\<not> is_modifier key" using at(2) p(2) by (auto simp: commit_part_def is_modifier_def)
    ultimately have plain: "types_plainly m" using assms(2) by simp
    have "post (clean ed) (\<lambda>_. quiet ed m n q) (finish_pending_word_commit C p config ?d)" for config
      by (rule post_mono [OF finish_commit_quiet [OF at(1) _ at(2) plain]]) auto
    with swallowed True p show ?thesis
      by (simp add: route_suppressed_separator_def take_suppressed_separator_release_state_def Let_def)
  qed
qed

lemma invalidated_quiet:
  assumes "quiet ed m n q d" "hotkey_latch (f (fst d)) = None" "modifiers (f (fst d)) = modifiers (fst d)"
    "pending_commit (f (fst d)) = pending_commit (fst d)" "word_part (f (fst d)) (ed_text (editor_of ed d))"
    "pending_selected_text_switch (f (fst d)) = pending_selected_text_switch (fst d)" "editor_of ed d' = editor_of ed d" "fst d' = f (fst d)"
  shows "quiet ed m n q d'"
  using assms by (simp add: quiet_def Let_def)

lemma non_key_effect:
  "fst (handle_non_key_invalidation C d) =
     invalidate_word_context ((fst d)\<lparr>manual_flow := snd (invalidate_manual_flow_context (manual_flow (fst d)))\<rparr>) \<and>
   editor_of ed (handle_non_key_invalidation C d) = editor_of ed d"
  by (auto simp: handle_non_key_invalidation_def request_manual_current_word_cancel_def Let_def
      split: prod.split manual_flow_invalidation.split)

lemma non_key_quiet:
  assumes "quiet ed m n q d"
  shows "quiet ed m n q (handle_non_key_invalidation C d)"
  by (rule invalidated_quiet [OF assms, of "\<lambda>s. invalidate_word_context (s\<lparr>manual_flow := snd (invalidate_manual_flow_context (manual_flow s))\<rparr>)"])
    (simp_all add: non_key_effect word_part_invalidate)

lemma capture_post:
  assumes P: "P d" and clean: "clean ed d"
    and same: "\<And>d d'. P d \<Longrightarrow> fst d' = fst d \<Longrightarrow> editor_of ed d' = editor_of ed d \<Longrightarrow> P d'"
    and invalidated: "\<And>d d'. P d \<Longrightarrow> fst d' = invalidate_word_context (fst d) \<Longrightarrow> editor_of ed d' = editor_of ed d \<Longrightarrow> P d'"
  shows "post (clean ed) (\<lambda>done d'. \<not> done \<and> P d') (route_capture C origin sequence key value d)"
proof -
  obtain now d1 where now: "call (dc_instant_now C) d = (now, d1)" by (meson surj_pair)
  have d1: "fst d1 = fst d" "editor_of ed d1 = editor_of ed d" "clean ed d1"
    using call_fst [of "dc_instant_now C" d] call_editor [OF reads_neutral(5), of d] clean by (simp_all add: now clean_def)
  have changed: "P (observe_capture_state_change C change d2)" if "fst d2 = fst d1" "editor_of ed d2 = editor_of ed d1" for d2 change
  proof (cases change)
    case None
    with that d1 show ?thesis by (simp add: observe_capture_state_change_def same [OF P])
  next
    case (Some state)
    with that d1 show ?thesis
      by (simp add: observe_capture_state_change_def Let_def same [OF P] invalidated [OF P])
  qed
  have routed: "post (clean ed) (\<lambda>outcome d2. fst d2 = fst d1 \<and> co_disposition outcome = PassThrough \<and> editor_of ed d2 = editor_of ed d1)
      (call (dc_route_capture_event C now key value) d1)"
    using capture_routes unfolding routes_def by (intro call_post [OF _ d1(3)]) blast
  have "post (clean ed) (\<lambda>control d'. control = ContinueRouting \<and> P d')
      (route_layout_switch_capture_event C sequence key value d)"
    unfolding route_layout_switch_capture_event_def now prod.case
    by (rule post_then [OF routed]) (simp add: apply_capture_routing_disposition_def changed)
  then have "post (clean ed) (\<lambda>done d'. \<not> done \<and> P d')
      (then_st (route_layout_switch_capture_event C sequence key value d) (\<lambda>control d. (Inr (control = ReturnRouting), d)))"
    by (rule post_then) simp
  then show ?thesis using P by (simp add: route_capture_def)
qed

lemma capture_quiet:
  assumes "quiet ed m n q d"
  shows "post (clean ed) (\<lambda>done d'. \<not> done \<and> quiet ed m n q d') (route_capture C origin sequence key value d)"
proof (rule capture_post [where P = "quiet ed m n q", OF assms quiet_clean [OF assms]], goal_cases)
  case (1 d d')
  then show ?case by (simp add: quiet_def)
next
  case (2 d d')
  show ?case by (rule invalidated_quiet [OF 2(1), of invalidate_word_context]) (simp_all add: 2 word_part_invalidate)
qed

lemma cancel_same [simp]:
  "fst (request_manual_current_word_cancel C request_id d) = fst d"
  "editor_of ed (request_manual_current_word_cancel C request_id d) = editor_of ed d"
  by (simp_all add: request_manual_current_word_cancel_def)

lemma enqueue_quiet:
  assumes "quiet ed m n q d"
  shows "post (clean ed) (\<lambda>_. quiet ed m n q) (enqueue_deferred_physical_event C event marks d)"
proof (cases "manual_flow (fst d) = IdleFlow")
  case True
  with assms show ?thesis by (simp add: enqueue_deferred_physical_event_def)
next
  case False
  obtain admission ledger where admit: "admit (deferred_input (fst d)) event = (admission, ledger)" by (meson surj_pair)
  obtain focus flow where observe: "observe_deferred_physical_focus_invalidation (is_session_type (input_snapshot (fst d))) event
      (if marks then map_session (\<lambda>session. session\<lparr>seen_real_next_step := True\<rparr>) (manual_flow (fst d)) else manual_flow (fst d)) =
      (focus, flow)" by (meson surj_pair)
  let ?d = "update (\<lambda>s. s\<lparr>deferred_input := ledger, manual_flow := flow\<rparr>) d"
  have d1: "quiet ed m n q ?d" by (rule quiet_frame [OF assms]) simp_all
  have "clean ed (update (\<lambda>s. s\<lparr>deferred_input := ledger\<rparr>) d)"
    using quiet_clean [OF assms] by (simp add: clean_def)
  moreover have "quiet ed m n q (request_manual_current_word_cancel C i (update (\<lambda>s. invalidate_word_context (s\<lparr>manual_flow := f\<rparr>)) ?d))"
    for i f
    by (rule invalidated_quiet [OF d1, of "\<lambda>s. invalidate_word_context (s\<lparr>manual_flow := f\<rparr>)"])
      (simp_all add: word_part_invalidate)
  ultimately show ?thesis
    using False admit observe d1 non_key_quiet [OF d1]
    by (auto simp: enqueue_deferred_physical_event_def Let_def split: deferred_admission.split prod.split option.split)
qed

lemma manual_flow_quiet:
  assumes "quiet ed m n q d"
  shows "post (clean ed) (\<lambda>_. quiet ed m n q) (route_manual_flow C event origin d)"
proof -
  have "quiet ed m n q (update f d)"
    if "f = (\<lambda>s. s\<lparr>suppressed_undo := suppressed_arm (suppressed_undo s) key\<rparr>) \<or>
        f = (\<lambda>s. request_retry_after_drain (s\<lparr>suppressed_undo := suppressed_arm (suppressed_undo s) key\<rparr>))" for f key
    by (rule quiet_frame [OF assms]) (use that in \<open>auto simp: request_retry_after_drain_def\<close>)
  moreover have "post (clean ed) (\<lambda>_. quiet ed m n q) (finished (enqueue_deferred_physical_event C event marks d))" for marks
    by (rule post_then [OF enqueue_quiet [OF assms]]) simp
  ultimately show ?thesis
    using assms by (auto simp: route_manual_flow_def Let_def split: manual_current_word_physical_event_action.split)
qed

lemma follow_quiet:
  assumes "quiet ed m n q d"
  shows "quiet ed m (modifier_update (ev_key event) (ev_value event) n) q (follow_modifiers C config event d)"
proof -
  let ?n = "modifier_update (ev_key event) (ev_value event) n"
  let ?d = "update (store_modifiers (ev_key event) (ev_value event)) d"
  have d1: "quiet ed m ?n q ?d"
    using assms by (simp add: quiet_def Let_def store_modifiers_def word_part_def)
  have "quiet ed m ?n q (update (unlatch config event) d')" if "quiet ed m ?n q d'" for d'
    using that by (auto simp: quiet_def Let_def unlatch_def word_part_def)
  with d1 non_key_quiet [OF d1] show ?thesis by (simp add: follow_modifiers_def Let_def)
qed

lemma layout_shortcut_quiet:
  assumes "quiet ed m n q d" "handle_layout_shortcut_if_matched C config key value d = (done, d')"
  shows "quiet ed m n q d' \<and> (done \<longrightarrow> value = 1) \<and> pending_commit (fst d') = pending_commit (fst d)"
proof -
  have "quiet ed m n q (update invalidate_word_context (snd (call (dc_invalidate_layout C) (update (\<lambda>s. s\<lparr>layout_shortcut_latched := True\<rparr>) d))))"
    by (rule invalidated_quiet [OF assms(1), of "\<lambda>s. invalidate_word_context (s\<lparr>layout_shortcut_latched := True\<rparr>)"])
      (simp_all add: word_part_invalidate)
  with assms show ?thesis
    by (auto simp: handle_layout_shortcut_if_matched_def matches_layout_switch_combo_def split: if_splits)
qed

lemma selected_hotkey_quiet:
  assumes "quiet ed m n q d" "value = 1 \<and> \<not> is_modifier key \<longrightarrow> pending_commit (fst d) = None"
  shows "post (clean ed) (\<lambda>done d'. if done then value = 1 \<and> quiet ed m n q d' else d' = d)
    (handle_selected_text_hotkey C config key value inhibited d)"
proof (cases "selected_text_hotkey_matches_when_allowed (rcs_selected_text_hotkey config) (modifiers (fst d)) key value inhibited")
  case False
  then show ?thesis by (simp add: handle_selected_text_hotkey_def)
next
  case True
  then have matched: "value = 1" "pending_commit (fst d) = None"
    using assms(2) not_modifiers(5)
    by (auto simp: selected_text_hotkey_matches_when_allowed_def selected_text_hotkey_matches_def)
  have at: "quiet ed m n q (update (\<lambda>s. s\<lparr>suppressed_hotkey_key := k\<rparr>)
      (update (\<lambda>s. s\<lparr>suppressed_hotkey_key := Some key, pending_selected_text_switch := True\<rparr>) d))" for k
    using assms(1) matched by (simp add: quiet_def Let_def word_part_def)
  have "post (clean ed) (\<lambda>done d'. if done then value = 1 \<and> quiet ed m n q d' else d' = d)
      (then_st (maybe_run_pending_selected_text_switch C d') (\<lambda>_ d. (Inr True, update (\<lambda>s. s\<lparr>suppressed_hotkey_key := Some key\<rparr>) d)))"
    if "quiet ed m n q d'" for d'
    by (rule post_then [OF maybe_run_quiet [OF that]]) (use matched in \<open>auto intro: quiet_frame\<close>)
  with True matched at [of None] at [of "Some key"] show ?thesis
    by (auto simp: handle_selected_text_hotkey_def Let_def intro: quiet_frame)
qed

lemma begin_quiet:
  assumes "quiet ed m n q d"
  shows "post (clean ed) (\<lambda>done d'. if done then rests ed m n d' else quiet ed m n q d')
    (begin_deferred_manual_correction C undo_key config d)"
proof (cases "dl_queue (deferred_input (fst d)) = []")
  case False
  with assms show ?thesis by (simp add: begin_deferred_manual_correction_def quiet_rests)
next
  case True
  obtain r d1 where prepared: "prepare_manual_correction C config [] d = (r, d1)" by (meson surj_pair)
  have d1: "quiet ed m n q d1" using quiet_same [OF prepare_same [OF prepared]] assms by simp
  show ?thesis
  proof (cases "\<exists>p. r = Some p \<and> pm_used_current_buffer p")
    case False
    with True prepared d1 show ?thesis
      by (auto simp: begin_deferred_manual_correction_def split: option.split)
  next
    case used: True
    then obtain p where p: "r = Some p" "pm_used_current_buffer p" by blast
    have "plan_for (fst d) [] (pm_plan p)" using prepare_plan [OF prepared [unfolded p(1)]] by simp
    then have plan: "extra_backspaces (pm_plan p) = 0" "on_the_word (pm_plan p) (ed_text (editor_of ed d1))"
      "\<not> word_buffer_overflowed (fst d1)"
      using plan_for_on_the_word [of "fst d" "[]" "pm_plan p"] plan_for_buffer [of "fst d" "pm_plan p"] assms
        prepare_same [OF prepared]
      by (auto simp: quiet_def Let_def fallback_word_def same_word_def word_part_def)
    have started: "post (clean ed) (\<lambda>outcome d2. fst d2 = fst d1 \<and>
        (case outcome of
           Started request_id \<Rightarrow> editor_of ed d2 = (editor_of ed d1)\<lparr>ed_in_flight := Some (request_id, pm_plan p)\<rparr>
         | RejectedBeforeMutation _ \<Rightarrow> editor_of ed d2 = editor_of ed d1))
      (on_keyboard (dc_begin_manual_correction C (pm_plan p) config (modifiers (fst d1))) d1)"
      by (rule on_keyboard_post [OF _ quiet_clean [OF d1]]) (use manual_begins plan(2) in \<open>auto simp: begins_def\<close>)
    have "post (clean ed) (\<lambda>done d'. if done then rests ed m n d' else quiet ed m n q d')
        (then_st (on_keyboard (dc_begin_manual_correction C (pm_plan p) config (modifiers (fst d1))) d1) (\<lambda>outcome d.
          case outcome of
            RejectedBeforeMutation reason \<Rightarrow> (Inr True, d)
          | Started request_id \<Rightarrow>
              (case call (dc_instant_now C) d of (now, d) \<Rightarrow>
               (Inr True, update (\<lambda>s. s\<lparr>manual_flow := InFlight (start_session request_id undo_key (modifiers (fst d1)) now)\<rparr>) d))))"
    proof (rule post_then [OF started], goal_cases)
      case (1 outcome d2)
      show ?case
      proof (cases outcome)
        case (Started request_id)
        with 1 d1 plan call_editor [OF reads_neutral(5), of d2] show ?thesis
          by (cases "call (dc_instant_now C) d2")
            (use call_fst [of "dc_instant_now C" d2] in \<open>auto simp: quiet_def rests_def flight_part_def in_flight_id_def start_session_def Let_def word_part_def\<close>)
      next
        case (RejectedBeforeMutation reason)
        with 1 d1 show ?thesis by (simp add: quiet_def rests_def flight_part_def Let_def)
      qed
    qed
    with True prepared p show ?thesis by (simp add: begin_deferred_manual_correction_def Let_def)
  qed
qed

text \<open>The state after a manual correction, before its separator is typed again.\<close>

lemma finalized_quiet:
  assumes "quiet ed m n q d" "plan_for (fst d) fallback plan" "fallback_word (fst d) fallback"
    "am_corrected_buffer a = cp_buffer plan" "am_extra_backspaces a = extra_backspaces plan"
    "am_used_current_buffer a \<longleftrightarrow> word_buffer (fst d) \<noteq> []"
    "fst d' = snd (finalize_manual_correction a ((fst d)\<lparr>input_snapshot := snap\<rparr>))"
    "editor_of ed d' = (if am_used_current_buffer a then editor_of ed d
       else (editor_of ed d)\<lparr>ed_text := take (length (ed_text (editor_of ed d)) - 1) (ed_text (editor_of ed d)) @ [KEY_SPACE]\<rparr>)"
  shows "quiet ed m n q d'"
proof (cases "word_buffer (fst d) = []")
  case False
  then have "keys_of (cp_buffer plan) = keys_of (word_buffer (fst d))" using assms(2) by (simp add: plan_for_def)
  with False assms same_keys_length [OF this] show ?thesis
    by (auto simp: quiet_def Let_def word_part_def finalize_manual_correction_def update_word_context_after_manual_correction_def)
next
  case True
  let ?text = "ed_text (editor_of ed d)" and ?word = "word_before_cursor (word_context (fst d))"
  from True assms(2,3) have word: "can_correct_word_before_cursor (fst d)" "keys_of (cp_buffer plan) = keys_of ?word"
    "extra_backspaces plan = 1"
    by (auto simp: plan_for_def fallback_word_def can_correct_word_before_cursor_def)
  with assms(1) have behind: "suffix (keys_of ?word @ [KEY_SPACE]) ?text" "length ?word \<le> MAX_CORRECTION_KEYSTROKES"
    "\<not> word_buffer_overflowed (fst d)"
    by (auto simp: quiet_def Let_def word_part_def can_correct_word_before_cursor_def)
  from behind(1) have "take (length ?text - 1) ?text @ [KEY_SPACE] = ?text" by (auto simp: suffix_def)
  with True assms word behind same_keys_length [OF word(2)] show ?thesis
    by (simp add: quiet_def Let_def word_part_def finalize_manual_correction_def update_word_context_after_manual_correction_def)
qed

lemma correct_word_quiet:
  assumes "quiet ed m n q d" "types_plainly m" "\<not> is_modifier undo_key"
  shows "post (clean ed) (\<lambda>_. quiet ed m n q) (correct_word_before_cursor C undo_key config d)"
proof -
  let ?fallback = "if can_correct_word_before_cursor (fst d) then word_before_cursor (word_context (fst d)) else []"
  have at: "clean ed d" "word_part (fst d) (ed_text (editor_of ed d))" "fallback_word (fst d) ?fallback"
    using assms(1) by (simp_all add: quiet_def clean_def fallback_word_def Let_def)
  have latched: "quiet ed m n q (update (\<lambda>s. s\<lparr>correction_state := c, hotkey_latch :=
      next_manual_hotkey_latch_after_manual_correction undo_key path used now\<rparr>) d')" if "quiet ed m n q d'" for d' c path used now
    using that assms(3) by (auto simp: quiet_def Let_def word_part_def latch_part_def next_manual_hotkey_latch_after_manual_correction_def)
  have finished: "post (clean ed) (\<lambda>_. quiet ed m n q) (case call (dc_system_now C) d' of (now, d) \<Rightarrow>
      (Inr (), update (\<lambda>s. s\<lparr>correction_state := c, hotkey_latch :=
        next_manual_hotkey_latch_after_manual_correction undo_key path used now\<rparr>) d))" if "quiet ed m n q d'" for d' c path used
    by (rule post_pair) (use latched that quiet_same [OF call_neutral' [OF _ reads_neutral(6)]] in auto)
  show ?thesis
    unfolding correct_word_before_cursor_def
  proof (rule post_then [OF apply_manual_post [OF at]], goal_cases)
    case (1 applied d1)
    show ?case
    proof (cases applied)
      case None
      with 1 assms(1) show ?thesis by (simp add: quiet_same)
    next
      case (Some a)
      with 1 obtain plan snap where a: "plan_for (fst d) ?fallback plan" "am_corrected_buffer a = cp_buffer plan"
        "am_extra_backspaces a = extra_backspaces plan" "am_used_current_buffer a \<longleftrightarrow> word_buffer (fst d) \<noteq> []"
        "fst d1 = (fst d)\<lparr>input_snapshot := snap\<rparr>" "editor_of ed d1 = retype plan (editor_of ed d)" by auto
      note known = finalized_quiet [OF assms(1) a(1) at(3) a(2-4), where snap = snap]
      let ?d = "update (\<lambda>s. snd (finalize_manual_correction a s)) d1"
      show ?thesis
      proof (cases "am_used_current_buffer a")
        case True
        then have "extra_backspaces plan = 0" using a by (simp add: plan_for_def)
        then have "quiet ed m n q ?d" using True a by (intro known) (simp_all add: retype_nothing)
        with finished True Some show ?thesis
          by (simp add: finalize_manual_correction_def manual_separator_replay_key_def Let_def)
      next
        case False
        then have extra: "extra_backspaces plan = 1"
          using a(1,4) by (auto simp: plan_for_def can_correct_word_before_cursor_def split: if_splits)
        have clean: "clean ed ?d" using assms(1) a(6) by (simp add: quiet_def clean_def retype_def Let_def)
        have "post (clean ed) (\<lambda>_. quiet ed m n q) (on_keyboard (dc_type_separator C KEY_SPACE) ?d)"
        proof (rule post_mono [OF keyboard_acts [OF separator_types clean]], goal_cases)
          case (1 u d2)
          have "ed_modifiers (editor_of ed d) = m" using assms(1) by (simp add: quiet_def Let_def)
          with 1 False a extra assms(2) show ?case
            by (intro known) (simp_all add: type_key_def retype_def Let_def typed_text_simps modifier_update_other not_modifiers)
        qed
        then have "post (clean ed) (\<lambda>_. quiet ed m n q) (then_st (on_keyboard (dc_type_separator C KEY_SPACE) ?d) (\<lambda>_ d'.
            case call (dc_system_now C) d' of (now, d) \<Rightarrow> (Inr (), update (\<lambda>s. s\<lparr>correction_state := Raw, hotkey_latch :=
              next_manual_hotkey_latch_after_manual_correction undo_key ManualHotkey False now\<rparr>) d)))"
          by (rule post_then) (rule finished)
        with False Some a(3) extra show ?thesis
          by (simp add: finalize_manual_correction_def manual_separator_replay_key_def Let_def)
      qed
    qed
  qed
qed

lemma manual_hotkey_rests:
  assumes "quiet ed m n q d" "types_plainly m"
  shows "post (clean ed) (\<lambda>_. rests ed m n) (handle_manual_hotkey C config key origin d)"
proof -
  let ?undo = "hotkey_trigger_to_evdev_key (hs_trigger (rcs_manual_correction_hotkey config))"
  have armed: "quiet ed m n q (update (\<lambda>s. s\<lparr>suppressed_undo := keys\<rparr>) d)" for keys
    by (rule quiet_frame [OF assms(1)]) simp_all
  then have retried: "quiet ed m n q (update request_retry_after_drain (update (\<lambda>s. s\<lparr>suppressed_undo := keys\<rparr>) d))" for keys
    by (rule quiet_frame) (simp_all add: request_retry_after_drain_def)
  have "post (clean ed) (\<lambda>_. rests ed m n)
      (unless_done (begin_deferred_manual_correction C ?undo config d') (correct_word_before_cursor C ?undo config))"
    if "quiet ed m n q d'" for d'
    by (rule post_unless_done [OF begin_quiet [OF that]])
      (auto intro: post_weaken [OF correct_word_quiet [OF _ assms(2) not_modifiers(5)]] quiet_rests)
  with armed retried show ?thesis
    by (auto simp: handle_manual_hotkey_def Let_def register_suppressed_manual_hotkey_press_def intro: quiet_rests)
qed

lemma forward_tracked:
  assumes "quiet ed m n q d"
    "word_part (fst d') (typed_text (ev_key event) (ev_value event) (modifier_update (ev_key event) (ev_value event) m) (ed_text (editor_of ed d)))"
    "modifiers (fst d') = modifiers (fst d)" "pending_commit (fst d') = pending_commit (fst d)"
    "pending_selected_text_switch (fst d') = pending_selected_text_switch (fst d)" "latch_part (hotkey_latch (fst d'))"
    "editor_of ed d' = editor_of ed d"
    "\<not> changes_case (pending_commit (fst d)) \<or> ev_value event = 0 \<or> is_modifier (ev_key event)"
  shows "post (clean ed) (\<lambda>_. quiet ed (modifier_update (ev_key event) (ev_value event) m) n q) (forward C origin event d')"
proof -
  have "clean ed d'" using assms(1,7) by (simp add: quiet_def clean_def Let_def)
  note typed = forward_post [OF this]
  have "pending_part (pending_commit (fst d))
      (typed_text (ev_key event) (ev_value event) (modifier_update (ev_key event) (ev_value event) m) (ed_text (editor_of ed d)))"
    using assms(1,8) pending_part_unchanged [of "pending_commit (fst d)"]
    by (auto simp: quiet_def Let_def typed_text_simps)
  with assms show ?thesis
    by (intro post_mono [OF typed]) (simp_all add: quiet_def Let_def type_key_def)
qed

lemma tracked_and_forwarded:
  assumes "quiet ed m n q d"
    "word_part (snd (apply_word_tracking_event tracking (fst d)))
       (typed_text (ev_key event) (ev_value event) (modifier_update (ev_key event) (ev_value event) m) (ed_text (editor_of ed d)))"
    "\<not> changes_case (pending_commit (fst d)) \<or> ev_value event = 0 \<or> is_modifier (ev_key event)"
  shows "post (clean ed) (\<lambda>_. quiet ed (modifier_update (ev_key event) (ev_value event) m) n q)
    (track_and_forward C origin event tracking d)"
  unfolding track_and_forward_def
  by (rule post_check [where E = "clean ed", OF quiet_clean [OF assms(1)]], rule forward_tracked [OF assms(1)])
    (use assms tracking_latch in \<open>auto simp: tracking_frame quiet_def Let_def\<close>)

lemma pending_set_rests:
  assumes "quiet ed m n q d" "key \<in> {KEY_SPACE, KEY_ENTER, KEY_TAB}"
    "case action of LayoutCorrection \<Rightarrow> True | SameLayoutCaseCorrection strokes \<Rightarrow> keys_of strokes = keys_of (word_buffer (fst d))"
  shows "rests ed m n (update (set_pending key action authorization) d)"
proof -
  have "commit_part \<lparr>pw_separator_key = key, pw_action = action, pw_authorization = authorization\<rparr> (ed_text (editor_of ed d))"
  proof (cases action)
    case LayoutCorrection
    with assms(2) show ?thesis by (simp add: commit_part_def)
  next
    case (SameLayoutCaseCorrection strokes)
    with assms(3) have keys: "keys_of strokes = keys_of (word_buffer (fst d))" by simp
    with SameLayoutCaseCorrection assms(1,2) same_keys_length [OF keys] show ?thesis
      by (simp add: commit_part_def quiet_def word_part_def Let_def)
  qed
  with assms(1) show ?thesis
    by (simp add: quiet_def rests_def Let_def set_pending_def word_part_def flight_part_def pending_part_def)
qed

lemma space_decision_rests:
  assumes "quiet ed m n q d" "ev_key event = KEY_SPACE" "ev_value event \<noteq> 0" "types_plainly m"
    "\<not> changes_case (pending_commit (fst d))"
  shows "post (clean ed) (\<lambda>_. rests ed m n) (space_decision C config origin event d)"
proof -
  obtain now epoch d1 where d1: "now_and_epoch C d = ((now, epoch), d1)" by (metis surj_pair)
  note same = now_and_epoch_same [OF d1]
  have at: "quiet ed m n q d1" "\<not> changes_case (pending_commit (fst d1))"
    using assms(1,5) quiet_same [OF same, of m n q] same by (auto simp: same_word_def)
  let ?behind = "\<lambda>s. (word_behind_separator s)\<lparr>word_buffer_overflowed := False\<rparr>"
  have "word_part (fst d1) (ed_text (editor_of ed d1))" using at(1) by (simp add: quiet_def Let_def)
  note behind = word_behind_known(2) [OF this]
  have "post (clean ed) (\<lambda>_. rests ed m n) (forward C origin event (update ?behind d2))"
    if "fst d2 = fst d1" "editor_of ed d2 = editor_of ed d1" for d2
    by (rule post_weaken [OF forward_tracked [OF at(1)]])
      (use assms(2-4) at behind that in \<open>auto simp: word_behind_separator_def typed_text_simps modifier_update_other not_modifiers
        quiet_def [of ed m n q d1] Let_def intro: quiet_rests\<close>)
  note forwarded = this
  show ?thesis
  proof (cases "word_boundary_action (input_snapshot (fst d1)) now epoch KEY_SPACE")
    case (ForwardUncorrected k)
    with forwarded [of "snd (call (dc_request_layout_refresh C) d1)"] d1 assms(2) show ?thesis
      by (simp add: space_decision_def)
  next
    case (Evaluate kind authorization)
    have pending: "rests ed m n (update (set_pending KEY_SPACE action authorization) d1)"
      if "case action of LayoutCorrection \<Rightarrow> True | SameLayoutCaseCorrection strokes \<Rightarrow> keys_of strokes = keys_of (word_buffer (fst d1))"
      for action using that by (intro pending_set_rests [OF at(1)]) simp_all
    show ?thesis
    proof (cases "same_layout_plan_for config kind now epoch (fst d1)")
      case None
      with Evaluate forwarded [of d1] pending [of LayoutCorrection] d1 assms(2) show ?thesis
        by (simp add: space_decision_def Let_def)
    next
      case (Some plan)
      then have "keys_of (cp_buffer plan) = keys_of (word_buffer (fst d1))"
        by (auto simp: same_layout_plan_for_def case_plan_keys split: if_splits)
      with Some Evaluate pending [of LayoutCorrection] pending [of "SameLayoutCaseCorrection (cp_buffer plan)"] d1 assms(2)
      show ?thesis by (simp add: space_decision_def Let_def)
    qed
  qed
qed

lemma space_rests:
  assumes "quiet ed m n q d" "ev_key event = KEY_SPACE" "ev_value event \<noteq> 0" "types_plainly m"
    "\<not> changes_case (pending_commit (fst d))"
  shows "post (clean ed) (\<lambda>_. rests ed m n) (handle_space C config origin event d)"
proof -
  have typed: "typed_text (ev_key event) (ev_value event) (modifier_update (ev_key event) (ev_value event) m) (ed_text (editor_of ed d)) =
      ed_text (editor_of ed d) @ [KEY_SPACE]" "modifier_update (ev_key event) (ev_value event) m = m"
    using assms(2-4) by (simp_all add: typed_text_simps modifier_update_other not_modifiers)
  have "word_part (snd (apply_word_tracking_event Boundary (fst d))) t" for t
    by (rule word_part_cleared)
      (simp_all add: apply_word_tracking_event_def track_boundary_def clear_word_context_state_def word_context_default_def)
  then have "post (clean ed) (\<lambda>_. rests ed m n) (track_and_forward C origin event Boundary d)"
    by (intro post_weaken [OF tracked_and_forwarded [OF assms(1)]]) (use assms(5) typed in \<open>auto intro: quiet_rests\<close>)
  moreover have "word_part (word_behind_separator (s\<lparr>correction_state := c\<rparr>)) (t @ [KEY_SPACE])" if "word_part s t" for s :: service and c t
    using that by (intro word_behind_known(1)) (simp add: word_part_def)
  then have "post (clean ed) (\<lambda>_. rests ed m n)
      (forward C origin event (update (\<lambda>s. word_behind_separator (s\<lparr>correction_state := Raw\<rparr>)) d))"
    by (intro post_weaken [OF forward_tracked [OF assms(1)]])
      (use assms(1,5) typed in \<open>auto simp: word_behind_separator_def quiet_def Let_def intro: quiet_rests\<close>)
  ultimately show ?thesis
    using space_decision_rests [OF assms] by (simp add: handle_space_def)
qed

lemma forward_invalidated:
  assumes "quiet ed m n q d" "\<not> changes_case (pending_commit (fst d)) \<or> ev_value event = 0 \<or> is_modifier (ev_key event)"
    "fst d' = invalidate_word_context ((fst d)\<lparr>correction_state := c\<rparr>)" "editor_of ed d' = editor_of ed d"
  shows "post (clean ed) (\<lambda>_. quiet ed (modifier_update (ev_key event) (ev_value event) m) n q) (forward C origin event d')"
  by (rule forward_tracked [OF assms(1)]) (use assms in \<open>simp_all add: word_part_invalidate\<close>)

lemma boundary_rests:
  assumes "quiet ed m n q d" "ev_key event = KEY_ENTER \<or> ev_key event = KEY_TAB" "\<not> changes_case (pending_commit (fst d))"
  shows "post (clean ed) (\<lambda>_. rests ed m n) (boundary_decision C config origin event d)"
proof -
  obtain now epoch d1 where d1: "now_and_epoch C d = ((now, epoch), d1)" by (metis surj_pair)
  note same = now_and_epoch_same [OF d1]
  have at: "quiet ed m n q d1" "\<not> changes_case (pending_commit (fst d1))"
    using assms(1,3) quiet_same [OF same, of m n q] same by (auto simp: same_word_def)
  have key: "\<not> is_modifier (ev_key event)" using assms(2) not_modifiers by auto
  have forwarded: "post (clean ed) (\<lambda>_. rests ed m n) (forward C origin event (update invalidate_word_context d2))"
    if "fst d2 = fst d1" "editor_of ed d2 = editor_of ed d1" for d2
  proof (rule post_weaken [OF forward_invalidated [OF at(1), where c = "correction_state (fst d1)"]], goal_cases)
    case (4 u d3)
    then show ?case using quiet_rests modifier_update_other [OF key] by metis
  qed (use at that in simp_all)
  have pending: "rests ed m n (update (set_pending (ev_key event) (SameLayoutCaseCorrection (cp_buffer plan)) authorization) d1)"
    if "same_layout_plan_for config kind now epoch (fst d1) = Some plan" for kind plan authorization
    using that assms(2) by (intro pending_set_rests [OF at(1)]) (auto simp: same_layout_plan_for_def case_plan_keys split: if_splits)
  show ?thesis
  proof (cases "word_boundary_action (input_snapshot (fst d1)) now epoch (ev_key event)")
    case (ForwardUncorrected k)
    with forwarded [of "snd (call (dc_request_layout_refresh C) d1)"] d1 show ?thesis by (simp add: boundary_decision_def)
  next
    case (Evaluate kind authorization)
    with forwarded [of d1] pending d1 show ?thesis by (auto simp: boundary_decision_def split: option.split)
  qed
qed

lemma enter_or_tab_rests:
  assumes "quiet ed m n q d" "ev_key event = KEY_ENTER \<or> ev_key event = KEY_TAB" "\<not> changes_case (pending_commit (fst d))"
  shows "post (clean ed) (\<lambda>_. rests ed m n) (handle_enter_or_tab C config origin event d)"
proof -
  have "\<not> is_modifier (ev_key event)" using assms(2) not_modifiers by auto
  note key = modifier_update_other [OF this]
  have "post (clean ed) (\<lambda>_. quiet ed (modifier_update (ev_key event) (ev_value event) m) n q)
      (forward C origin event (update (\<lambda>s. invalidate_word_context (s\<lparr>correction_state := Raw\<rparr>)) d))"
    by (rule forward_invalidated [OF assms(1)]) (use assms(3) in simp_all)
  then have "post (clean ed) (\<lambda>_. rests ed m n)
      (forward C origin event (update (\<lambda>s. invalidate_word_context (s\<lparr>correction_state := Raw\<rparr>)) d))"
    unfolding key by (rule post_weaken) (rule quiet_rests)
  with boundary_rests [OF assms] show ?thesis by (simp add: handle_enter_or_tab_def)
qed

lemma backspace_quiet:
  assumes "quiet ed m n q d" "ev_key event = KEY_BACKSPACE" "ev_value event \<noteq> 0" "types_plainly m"
    "\<not> changes_case (pending_commit (fst d))"
  shows "post (clean ed) (\<lambda>_. quiet ed m n q) (track_and_forward C origin event Backspace d)"
proof -
  have "word_part (snd (apply_word_tracking_event Backspace (fst d))) (butlast (ed_text (editor_of ed d)))"
    using assms(1) track_backspace_known [of "fst d" "ed_text (editor_of ed d)"]
    by (simp add: apply_word_tracking_event_def quiet_def Let_def)
  with tracked_and_forwarded [OF assms(1), of Backspace event] assms(2-5) show ?thesis
    by (simp add: typed_text_simps modifier_update_other not_modifiers)
qed

lemma other_key_quiet:
  assumes "quiet ed m n q d" "ev_value event \<noteq> 0" "\<not> is_modifier (ev_key event) \<longrightarrow> mods_le m n" "ev_key event \<noteq> KEY_BACKSPACE"
    "\<not> changes_case (pending_commit (fst d)) \<or> is_modifier (ev_key event)"
  shows "post (clean ed) (\<lambda>_. quiet ed (modifier_update (ev_key event) (ev_value event) m) n q) (handle_other_key C origin event d)"
proof -
  have n: "modifiers (fst d) = n" using assms(1) by (simp add: quiet_def Let_def)
  let ?m = "modifier_update (ev_key event) (ev_value event) m"
  have ran: "post (clean ed) (\<lambda>_. quiet ed ?m n q) (then_st r (\<lambda>_ d. maybe_run_pending_selected_text_switch C d))"
    if "post (clean ed) (\<lambda>_. quiet ed ?m n q) r" for r :: "unit res \<times> 'w daemon"
    by (rule post_then [OF that]) (rule maybe_run_quiet)
  show ?thesis
  proof (cases "is_plain_character n (ev_key event)")
    case True
    then have character: "is_character (ev_key event)" "\<not> is_modifier (ev_key event)" "types_plainly n"
      by (auto simp: is_plain_character_def types_plainly_def is_character_def is_modifier_def)
    then have "typed_text (ev_key event) (ev_value event) ?m (ed_text (editor_of ed d)) = ed_text (editor_of ed d) @ [ev_key event]"
      using assms(2-4) types_plainly_le by (auto simp: typed_text_simps modifier_update_other)
    moreover have "word_part (fst d) (ed_text (editor_of ed d))" using assms(1) by (simp add: quiet_def Let_def)
    ultimately have "post (clean ed) (\<lambda>_. quiet ed ?m n q)
        (track_and_forward C origin event (PlainCharacter (current_stroke n (ev_key event))) d)"
      using assms(5) character(2) track_character_known [of "fst d" "ed_text (editor_of ed d)" "current_stroke n (ev_key event)"]
      by (intro tracked_and_forwarded [OF assms(1)]) (simp_all add: apply_word_tracking_event_def current_stroke_def)
    with True n ran show ?thesis by (simp add: handle_other_key_def Let_def)
  next
    case False
    have "post (clean ed) (\<lambda>_. quiet ed ?m n q)
        (forward C origin event (if is_modifier (ev_key event) then d else update invalidate_word_context d))"
      by (rule forward_tracked [OF assms(1)])
        (use assms in \<open>auto simp: typed_text_simps word_part_invalidate quiet_def Let_def\<close>)
    with False n ran show ?thesis by (simp add: handle_other_key_def forward_and_maybe_run_def Let_def)
  qed
qed

lemma typed_key_settled:
  assumes "quiet ed m n q d" "ev_value event \<noteq> 0" "mods_le (modifier_update (ev_key event) (ev_value event) m) n" "\<not> is_modifier (ev_key event) \<longrightarrow> mods_le m n"
    "ev_key event \<in> {KEY_SPACE, KEY_BACKSPACE} \<longrightarrow> types_plainly m"
    "\<not> changes_case (pending_commit (fst d)) \<or> is_modifier (ev_key event)"
  shows "post (clean ed) (\<lambda>_. word_settled ed) (handle_typed_key C config origin event d)"
proof -
  consider "ev_key event = KEY_SPACE" | "ev_key event = KEY_ENTER \<or> ev_key event = KEY_TAB" | "ev_key event = KEY_BACKSPACE"
    | (other) "ev_key event \<notin> {KEY_SPACE, KEY_ENTER, KEY_TAB, KEY_BACKSPACE}" by blast
  then show ?thesis
  proof cases
    case 1
    with assms(2,5,6) have "post (clean ed) (\<lambda>_. rests ed m n) (handle_space C config origin event d)"
      by (intro space_rests [OF assms(1)]) (simp_all add: not_modifiers)
    with 1 assms(4) not_modifiers show ?thesis
      by (auto simp: handle_typed_key_def Let_def intro: post_weaken [OF _ rests_settled])
  next
    case 2
    with assms(6) not_modifiers have "post (clean ed) (\<lambda>_. rests ed m n) (handle_enter_or_tab C config origin event d)"
      by (intro enter_or_tab_rests [OF assms(1)]) auto
    with 2 assms(4) not_modifiers show ?thesis
      by (auto simp: handle_typed_key_def Let_def intro: post_weaken [OF _ rests_settled])
  next
    case 3
    with assms(2,5,6) have "post (clean ed) (\<lambda>_. quiet ed m n q) (track_and_forward C origin event Backspace d)"
      by (intro backspace_quiet [OF assms(1)]) (simp_all add: not_modifiers)
    with 3 assms(4) not_modifiers show ?thesis
      by (auto simp: handle_typed_key_def Let_def intro: post_weaken [OF _ quiet_settled])
  next
    case other
    then have "post (clean ed) (\<lambda>_. quiet ed (modifier_update (ev_key event) (ev_value event) m) n q) (handle_other_key C origin event d)"
      by (intro other_key_quiet [OF assms(1,2,4) _ assms(6)]) simp
    with other show ?thesis
      by (auto simp: handle_typed_key_def Let_def intro: post_weaken [OF _ quiet_settled [OF _ assms(3)]])
  qed
qed

lemma hotkeys_and_typing_settled:
  assumes "quiet ed m n q d" "mods_le (modifier_update (ev_key event) (ev_value event) m) n"
    "ev_value event = 1 \<or> \<not> is_modifier (ev_key event) \<longrightarrow> mods_le m n"
    "ev_value event \<noteq> 0 \<and> ev_key event \<in> {KEY_SPACE, KEY_BACKSPACE} \<longrightarrow> types_plainly m"
    "q \<noteq> None \<and> \<not> is_modifier (ev_key event) \<longrightarrow> types_plainly m"
    "(\<exists>hotkey. ev_key event = hotkey_trigger_to_evdev_key hotkey) \<longrightarrow> types_plainly m"
    "changes_case q \<longrightarrow> ev_value event \<in> {0, 1} \<or> is_modifier (ev_key event)"
  shows "post (clean ed) (\<lambda>_. word_settled ed) (handle_hotkeys_and_typing C config origin event d)"
proof (cases "should_swallow_manual_hotkey_latched_event (hotkey_latch (fst d)) (ev_key event) (ev_value event)")
  case True
  then have "\<not> is_modifier (ev_key event)"
    using assms(1) by (auto simp: quiet_def Let_def latch_part_def should_swallow_manual_hotkey_latched_event_def split: option.splits)
  with True assms(1,3) show ?thesis by (simp add: handle_hotkeys_and_typing_def Let_def quiet_settled)
next
  case False
  let ?k = "ev_key event" and ?v = "ev_value event"
  have swallowed: "word_settled ed d'" if "quiet ed m n q d'" "?v = 1" for d'
    using that assms(3) by (intro quiet_settled) simp_all
  have passed: "post (clean ed) (\<lambda>_. word_settled ed) (forward_and_maybe_run C origin event d')"
    if "quiet ed m n q d'" "?v = 0" for d'
    unfolding forward_and_maybe_run_def
  proof (rule post_then [OF forward_tracked [OF that(1)]], goal_cases)
    case (8 u d2)
    show ?case
      by (rule post_weaken [OF maybe_run_quiet [OF 8]]) (rule quiet_settled [OF _ assms(2)])
  qed (use that in \<open>simp_all add: quiet_def typed_text_simps Let_def\<close>)
  have last: "post (clean ed) (\<lambda>_. word_settled ed)
      (if ?v = 0 then forward_and_maybe_run C origin event d'
       else if manual_correction_hotkey_matches_when_allowed (rcs_manual_correction_hotkey config) (modifiers (fst d')) ?k ?v inhibited
       then handle_manual_hotkey C config ?k origin d'
       else handle_typed_key C config origin event d')"
    if "quiet ed m n q d'" "?v = 1 \<and> \<not> is_modifier ?k \<longrightarrow> pending_commit (fst d') = None" for d' inhibited
  proof -
    have plan: "\<not> changes_case (pending_commit (fst d')) \<or> is_modifier ?k" if "?v \<noteq> 0"
    proof -
      have "pending_commit (fst d') = None \<or> pending_commit (fst d') = q"
        using \<open>quiet ed m n q d'\<close> by (simp add: quiet_def Let_def)
      with assms(7) that \<open>?v = 1 \<and> \<not> is_modifier ?k \<longrightarrow> pending_commit (fst d') = None\<close> show ?thesis by auto
    qed
    have hotkey: "post (clean ed) (\<lambda>_. word_settled ed) (handle_manual_hotkey C config ?k origin d')"
      if "?v = 1" "?k = hotkey_trigger_to_evdev_key (hs_trigger (rcs_manual_correction_hotkey config))"
      by (rule post_weaken [OF manual_hotkey_rests [OF \<open>quiet ed m n q d'\<close>]])
        (use that assms(3,6) in \<open>auto intro: rests_settled\<close>)
    show ?thesis
      using passed [OF that(1)] hotkey typed_key_settled [OF that(1) _ assms(2) _ _ plan, of config origin] assms(3,4)
      by (auto simp: manual_correction_hotkey_matches_when_allowed_def manual_correction_hotkey_matches_def)
  qed
  have stage2: "post (clean ed) (\<lambda>_. word_settled ed)
      (case handle_layout_shortcut_if_matched C config ?k ?v d' of (done, d') \<Rightarrow>
       if done then (Inr (), d')
       else case call (dc_hotkey_capture_inhibited C) d' of (inhibited, d') \<Rightarrow>
         unless_done (handle_selected_text_hotkey C config ?k ?v inhibited d') (\<lambda>d'.
         if ?v = 0 then forward_and_maybe_run C origin event d'
         else if manual_correction_hotkey_matches_when_allowed (rcs_manual_correction_hotkey config) (modifiers (fst d')) ?k ?v inhibited
         then handle_manual_hotkey C config ?k origin d'
         else handle_typed_key C config origin event d'))"
    if "quiet ed m n q d'" "?v = 1 \<and> \<not> is_modifier ?k \<longrightarrow> pending_commit (fst d') = None" for d'
  proof (rule post_pair, goal_cases)
    case (1 b d1)
    note d1 = layout_shortcut_quiet [OF that(1) 1]
    show ?case
    proof (cases b)
      case True
      with d1 swallowed show ?thesis by simp
    next
      case not_done: False
      show ?thesis
        unfolding if_not_P [OF not_done]
      proof (rule post_pair, goal_cases)
        case (1 inhibited d2)
        note same = call_neutral' [OF 1 reads_neutral(4)]
        then have d2: "quiet ed m n q d2" "?v = 1 \<and> \<not> is_modifier ?k \<longrightarrow> pending_commit (fst d2) = None"
          using d1 that(2) quiet_same [OF same, of m n q] by (auto simp: same_word_def)
        show ?case
          by (rule post_unless_done [OF selected_hotkey_quiet [OF d2]]) (use swallowed last d2 in auto)
      qed
    qed
  qed
  show ?thesis
    unfolding handle_hotkeys_and_typing_def Let_def using False
    by simp (rule post_unless_done [OF finish_early_quiet [OF assms(1)]], use assms(5) swallowed stage2 in auto)
qed

subsection \<open>A whole event\<close>

lemma event_quiet:
  assumes "word_settled ed d" "ed_in_flight (editor_of ed d) = None" "one_correction (fst d) (editor_of ed d)"
    "plain_event (fst d) event"
  shows "post (clean ed) (\<lambda>_. word_settled ed) (handle_key_event C event origin d)"
proof -
  let ?k = "ev_key event" and ?v = "ev_value event" and ?q = "pending_commit (fst d)"
  let ?m = "ed_modifiers (editor_of ed d)" and ?n = "modifiers (fst d)"
  have le: "mods_le ?m ?n" using assms(1) by (simp add: word_settled_def Let_def)
  have triggers: "hotkey_trigger_to_evdev_key h \<in> hotkey_trigger_to_evdev_key ` {F9, F10, F12, Pause, ScrollLock, Insert, Menu}" for h
    by (cases h) simp_all
  have plain: "?v \<noteq> 0 \<and> ?k \<in> {KEY_SPACE, KEY_BACKSPACE} \<longrightarrow> types_plainly ?m"
    "?q \<noteq> None \<and> \<not> is_modifier ?k \<longrightarrow> types_plainly ?m"
    "changes_case ?q \<longrightarrow> ?v \<in> {0, 1} \<or> is_modifier ?k"
    using assms(4) types_plainly_le [OF le] unfolding plain_event_def by blast+
  have trigger: "(\<exists>hotkey. ?k = hotkey_trigger_to_evdev_key hotkey) \<longrightarrow> types_plainly ?m"
  proof (intro impI, elim exE)
    fix hotkey assume "?k = hotkey_trigger_to_evdev_key hotkey"
    then show "types_plainly ?m" using triggers [of hotkey] assms(4) types_plainly_le [OF le] by (simp add: plain_event_def)
  qed
  obtain b d1 where d1: "adopt_input_snapshot_nonblocking C d = (b, d1)" by (meson surj_pair)
  have at: "quiet ed ?m ?n ?q d1"
    using quiet_same [OF adopt_same [OF d1]] assms(1-3) by (simp add: word_settled_quiet one_correction_def)
  have ended: "word_settled ed d'" if "quiet ed ?m ?n ?q d'" for d' by (rule quiet_settled [OF that le])
  have typed: "post (clean ed) (\<lambda>_. word_settled ed)
      (handle_hotkeys_and_typing C config origin event (follow_modifiers C config event d'))"
    if "quiet ed ?m ?n ?q d'" for config d'
    by (rule hotkeys_and_typing_settled [OF follow_quiet [OF that] mods_le_update [OF le]])
      (use plain trigger mods_le_swallowed [OF le] in blast)+
  have staged: "post (clean ed) (\<lambda>_. word_settled ed) (unless_done r k)"
    if "post (clean ed) (\<lambda>_. quiet ed ?m ?n ?q) r" "\<And>d'. quiet ed ?m ?n ?q d' \<Longrightarrow> post (clean ed) (\<lambda>_. word_settled ed) (k d')"
    for r and k :: "'w daemon \<Rightarrow> unit res \<times> 'w daemon"
    by (rule post_unless_done [OF that(1)]) (use ended that(2) in auto)
  show ?thesis
    unfolding handle_key_event_def Let_def d1 snd_conv
  proof (rule staged [OF suppressed_hotkey_quiet [OF at]], rule post_pair, goal_cases)
    case (1 d2 swallowed d3)
    note d3 = suppressed_undo_quiet [OF 1]
    show ?case
    proof (cases swallowed)
      case True
      with ended [OF d3] show ?thesis by simp
    next
      case False
      show ?thesis
        unfolding if_not_P [OF False]
      proof (rule staged [OF suppressed_separator_quiet [OF d3 plain(2)]], rule staged, goal_cases)
        case (1 d4)
        show ?case by (rule post_weaken [OF capture_quiet [OF 1]]) simp
      next
        case (2 d4 d5)
        show ?case by (rule staged [OF manual_flow_quiet [OF 2(2)]]) (rule typed)
      qed
    qed
  qed
qed

subsection \<open>While a correction is in flight\<close>

text \<open>Physical events are queued; nothing that could reach the editor happens.\<close>

lemma word_settled_frame:
  assumes "word_settled ed d" "editor_of ed d' = editor_of ed d" "modifiers (fst d') = modifiers (fst d)"
    "pending_commit (fst d') = pending_commit (fst d)" "in_flight_id (manual_flow (fst d')) = in_flight_id (manual_flow (fst d))"
    "(\<exists>s. fst d' = invalidate_word_context s) \<or> word_buffer (fst d') = word_buffer (fst d) \<and>
       word_buffer_overflowed (fst d') = word_buffer_overflowed (fst d) \<and> word_context (fst d') = word_context (fst d) \<and>
       hotkey_latch (fst d') = hotkey_latch (fst d)"
  shows "word_settled ed d'"
  using assms(6)
proof
  assume "\<exists>s. fst d' = invalidate_word_context s"
  then obtain s where "fst d' = invalidate_word_context s" ..
  moreover from this have "\<not> word_buffer_overflowed (fst d')" by (simp add: invalidate_word_context_def)
  ultimately show ?thesis
    using assms(1-5) word_part_invalidate [of s]
    by (auto simp: word_settled_def Let_def flight_part_def split: option.splits)
next
  assume "word_buffer (fst d') = word_buffer (fst d) \<and>
    word_buffer_overflowed (fst d') = word_buffer_overflowed (fst d) \<and> word_context (fst d') = word_context (fst d) \<and>
    hotkey_latch (fst d') = hotkey_latch (fst d)"
  with assms(1-5) show ?thesis
    by (auto simp: word_settled_def Let_def flight_part_def word_part_def split: option.splits)
qed

definition flying :: "'w daemon \<Rightarrow> bool" where
  "flying d \<longleftrightarrow> word_settled ed d \<and> ed_in_flight (editor_of ed d) \<noteq> None \<and> pending_commit (fst d) = None \<and>
     \<not> pending_selected_text_switch (fst d)"

lemma flying_frame:
  assumes "flying d" "editor_of ed d' = editor_of ed d" "modifiers (fst d') = modifiers (fst d)"
    "pending_commit (fst d') = pending_commit (fst d)" "pending_selected_text_switch (fst d') = pending_selected_text_switch (fst d)"
    "in_flight_id (manual_flow (fst d')) = in_flight_id (manual_flow (fst d))"
    "(\<exists>s. fst d' = invalidate_word_context s) \<or> word_buffer (fst d') = word_buffer (fst d) \<and>
       word_buffer_overflowed (fst d') = word_buffer_overflowed (fst d) \<and> word_context (fst d') = word_context (fst d) \<and>
       hotkey_latch (fst d') = hotkey_latch (fst d)"
  shows "flying d'"
  using assms word_settled_frame [OF _ assms(2-4,6,7)] by (simp add: flying_def)

lemma flying_clean: "flying d \<Longrightarrow> clean ed d"
  by (simp add: flying_def word_settled_def clean_def Let_def)

lemma flying_active: "flying d \<Longrightarrow> has_active_manual_current_word_flow (fst d) \<and> manual_flow (fst d) \<noteq> IdleFlow"
  by (auto simp: flying_def word_settled_def flight_part_def in_flight_id_def has_active_manual_current_word_flow_def Let_def
      split: option.splits)

lemma in_flight_id_simps:
  "(\<And>session. ms_request_id (f session) = ms_request_id session) \<Longrightarrow> in_flight_id (map_session f flow) = in_flight_id flow"
  "in_flight_id (snd (invalidate_manual_flow_context flow)) = in_flight_id flow"
  "in_flight_id (snd (promote_in_flight_to_cancel_requested flow)) = in_flight_id flow"
  by (cases flow; simp add: in_flight_id_def)+

lemma observed_flight:
  "observe_deferred_physical_focus_invalidation session_kind event flow = (b, flow') \<Longrightarrow> in_flight_id flow' = in_flight_id flow"
  by (cases flow) (auto simp: observe_deferred_physical_focus_invalidation_def in_flight_id_def Let_def)

lemma flying_hotkey:
  assumes "flying d"
  shows "post (clean ed) (\<lambda>_. flying) (route_suppressed_hotkey C key value d)"
proof -
  have "flying (update (\<lambda>s. s\<lparr>suppressed_hotkey_key := None\<rparr>) d)" by (rule flying_frame [OF assms]) simp_all
  with assms show ?thesis
    by (simp add: route_suppressed_hotkey_def maybe_run_pending_selected_text_switch_def flying_def Let_def)
qed

lemma flying_undo: "flying d \<Longrightarrow> route_suppressed_undo key value d = (b, d') \<Longrightarrow> flying d'"
  by (auto simp: route_suppressed_undo_def split: prod.splits intro: flying_frame)

lemma flying_separator:
  assumes "flying d"
  shows "post (clean ed) (\<lambda>_. flying) (route_suppressed_separator C key value d)"
proof -
  have "pending_commit (fst d) = None" using assms by (simp add: flying_def)
  moreover have "flying (update (\<lambda>s. s\<lparr>suppressed_separator_key := None\<rparr>) (update (\<lambda>s. s\<lparr>pending_commit := None\<rparr>) d))"
    by (rule flying_frame [OF assms]) (use calculation in simp_all)
  ultimately show ?thesis
    using assms by (simp add: route_suppressed_separator_def take_suppressed_separator_release_state_def Let_def)
qed

lemma flying_enqueued:
  assumes "flying d"
  shows "post (clean ed) (\<lambda>_. flying) (enqueue_deferred_physical_event C event marks d)"
proof -
  obtain admission ledger where admit: "admit (deferred_input (fst d)) event = (admission, ledger)" by (meson surj_pair)
  let ?flow = "if marks then map_session (\<lambda>session. session\<lparr>seen_real_next_step := True\<rparr>) (manual_flow (fst d)) else manual_flow (fst d)"
  obtain focus flow where observe: "observe_deferred_physical_focus_invalidation (is_session_type (input_snapshot (fst d))) event ?flow =
      (focus, flow)" by (meson surj_pair)
  have flow: "in_flight_id flow = in_flight_id (manual_flow (fst d))"
    using observed_flight [OF observe] by (simp add: in_flight_id_simps)
  let ?d = "update (\<lambda>s. s\<lparr>deferred_input := ledger, manual_flow := flow\<rparr>) d"
  have d1: "flying ?d" by (rule flying_frame [OF assms]) (simp_all add: flow)
  have "clean ed (update (\<lambda>s. s\<lparr>deferred_input := ledger\<rparr>) d)"
    using flying_clean [OF assms] by (simp add: clean_def)
  moreover have "flying (handle_non_key_invalidation C ?d)"
    by (rule flying_frame [OF d1]) (auto simp: non_key_effect in_flight_id_simps)
  moreover have "flying (request_manual_current_word_cancel C i (update (\<lambda>s. invalidate_word_context (s\<lparr>manual_flow := f\<rparr>)) ?d))"
    if "promote_in_flight_to_cancel_requested flow = (r, f)" for i r f
    using in_flight_id_simps(3) [of flow] that by (intro flying_frame [OF d1]) auto
  ultimately show ?thesis
    using flying_active [OF assms] admit observe d1
    by (auto simp: enqueue_deferred_physical_event_def Let_def split: deferred_admission.split prod.split option.split)
qed

lemma flying_routed:
  assumes "flying d"
  shows "post (clean ed) (\<lambda>done d'. done \<and> flying d') (route_manual_flow C event Physical d)"
proof -
  have "flying (update f d)"
    if "f = (\<lambda>s. s\<lparr>suppressed_undo := suppressed_arm (suppressed_undo s) key\<rparr>) \<or>
        f = (\<lambda>s. request_retry_after_drain (s\<lparr>suppressed_undo := suppressed_arm (suppressed_undo s) key\<rparr>))" for f key
    by (rule flying_frame [OF assms]) (use that in \<open>auto simp: request_retry_after_drain_def in_flight_id_simps\<close>)
  moreover have "post (clean ed) (\<lambda>done d'. done \<and> flying d') (finished (enqueue_deferred_physical_event C event marks d))" for marks
    by (rule post_then [OF flying_enqueued [OF assms]]) simp
  ultimately show ?thesis
    using assms flying_active [OF assms]
    by (auto simp: route_manual_flow_def Let_def manual_current_word_physical_event_action_def)
qed

lemma flying_capture:
  assumes "flying d"
  shows "post (clean ed) (\<lambda>done d'. \<not> done \<and> flying d') (route_capture C origin sequence key value d)"
  by (rule capture_post [where P = flying, OF assms flying_clean [OF assms]]) (auto intro: flying_frame)

lemma event_flying:
  assumes "flying d"
  shows "post (clean ed) (\<lambda>_. word_settled ed) (handle_key_event C event Physical d)"
proof -
  obtain b d1 where d1: "adopt_input_snapshot_nonblocking C d = (b, d1)" by (meson surj_pair)
  have at: "flying d1"
    using adopt_same [OF d1] by (intro flying_frame [OF assms]) (auto simp: same_word_def)
  have ended: "flying d' \<Longrightarrow> word_settled ed d'" for d' by (simp add: flying_def)
  have staged: "post (clean ed) (\<lambda>_. word_settled ed) (unless_done r k)"
    if "post (clean ed) (\<lambda>_. flying) r" "\<And>d'. flying d' \<Longrightarrow> post (clean ed) (\<lambda>_. word_settled ed) (k d')"
    for r and k :: "'w daemon \<Rightarrow> unit res \<times> 'w daemon"
    by (rule post_unless_done [OF that(1)]) (use ended that(2) in auto)
  show ?thesis
    unfolding handle_key_event_def Let_def d1 snd_conv
  proof (rule staged [OF flying_hotkey [OF at]], rule post_pair, goal_cases)
    case (1 d2 swallowed d3)
    note d3 = flying_undo [OF 1]
    show ?case
    proof (cases swallowed)
      case True
      with ended [OF d3] show ?thesis by simp
    next
      case False
      show ?thesis
        unfolding if_not_P [OF False]
      proof (rule staged [OF flying_separator [OF d3]], rule staged, goal_cases)
        case (1 d4)
        show ?case by (rule post_weaken [OF flying_capture [OF 1]]) simp
      next
        case (2 d4 d5)
        show ?case by (rule post_unless_done [OF flying_routed [OF 2(2)]]) (use ended in auto)
      qed
    qed
  qed
qed

subsection \<open>The other steps\<close>

lemma taken_session:
  assumes "in_flight_id flow = Some request_id"
  shows "\<exists>session. take_matching_session request_id flow = (Some session, IdleFlow)"
  using assms by (cases flow) (auto simp: in_flight_id_def)

lemma adopted_word:
  assumes "on_the_word plan text" "extra_backspaces plan = 0" "\<not> word_buffer_overflowed s"
  shows "word_part (adopt_corrected_word plan s) text"
  using assms by (simp add: word_part_def adopt_corrected_word_def finalize_manual_correction_def
      update_word_context_after_manual_correction_def on_the_word_def)

lemma completion_settled:
  assumes "word_settled ed d" "ed_in_flight (editor_of ed d) = Some (mc_request_id c, plan)"
    "pending_commit (fst d) = None" "fst d' = fst d"
    "case mc_outcome c of
       ManualSucceeded typed \<Rightarrow> typed = plan \<and> editor_of ed d' = (editor_of ed d)\<lparr>ed_in_flight := None\<rparr>
     | _ \<Rightarrow> text_changed ((editor_of ed d)\<lparr>ed_in_flight := None\<rparr>) (editor_of ed d')"
  shows "post (clean ed) (\<lambda>_. word_settled ed) (handle_manual_completion C c d')"
proof -
  have flight: "in_flight_id (manual_flow (fst d)) = Some (mc_request_id c)" "\<not> word_buffer_overflowed (fst d)"
    "on_the_word plan (ed_text (editor_of ed d))" "extra_backspaces plan = 0"
    using assms(1,2) by (simp_all add: word_settled_def flight_part_def Let_def)
  from taken_session [OF flight(1)] obtain session where
    taken: "take_matching_session (mc_request_id c) (manual_flow (fst d)) = (Some session, IdleFlow)" by blast
  let ?d = "\<lambda>f flow. update f (update (\<lambda>s. s\<lparr>manual_flow := flow\<rparr>) (snd (call (dc_invalidate_layout C) d')))"
  have invalidated: "word_settled ed (?d invalidate_word_context flow)" if "text_changed ((editor_of ed d)\<lparr>ed_in_flight := None\<rparr>) (editor_of ed d')" for flow
    using that assms(1,3,4) by (simp add: word_settled_def text_changed_def flight_part_def word_part_invalidate Let_def)
  show ?thesis
  proof (cases "mc_outcome c")
    case (ManualSucceeded typed)
    with assms(5) have typed: "typed = plan" "editor_of ed d' = (editor_of ed d)\<lparr>ed_in_flight := None\<rparr>" by simp_all
    have "word_part (fst (?d (adopt_corrected_word plan) flow)) (ed_text (editor_of ed d))" for flow
      using flight(2-4) assms(4) by (simp add: adopted_word)
    then have "word_settled ed (?d (adopt_corrected_word plan) flow)" for flow
      using assms(1,3,4) typed
      by (simp add: word_settled_def flight_part_def Let_def adopt_corrected_word_def finalize_manual_correction_def)
    moreover have "word_settled ed (?d invalidate_word_context flow)" for flow
      by (rule invalidated) (simp add: typed text_changed_def)
    ultimately show ?thesis
      using ManualSucceeded taken assms(4) typed(1)
      by (simp add: handle_manual_completion_def transition_manual_completion_def Let_def)
  next
    case ManualCancelled
    with invalidated assms(4,5) taken show ?thesis
      by (simp add: handle_manual_completion_def transition_manual_completion_def Let_def)
  next
    case (ManualFailedAfterMutation e)
    with assms(1,4,5) taken show ?thesis
      by (simp add: handle_manual_completion_def transition_manual_completion_def Let_def clean_def text_changed_def word_settled_def)
  qed
qed

lemma poll_settled:
  assumes "word_settled ed d" "one_correction (fst d) (editor_of ed d)"
  shows "post (clean ed) (\<lambda>_. word_settled ed) (poll_manual_completion C d)"
proof -
  have polled: "post (clean ed) (\<lambda>c d'. fst d' = fst d \<and> completed (editor_of ed d) c (editor_of ed d'))
      (call (dc_poll_manual_completion C) d)"
    using completion_completes unfolding completes_def by (intro call_post [OF _ word_settled_clean [OF assms(1)]]) blast
  have "post (clean ed) (\<lambda>_. word_settled ed) (then_st (call (dc_poll_manual_completion C) d)
      (\<lambda>completion d. case completion of None \<Rightarrow> (Inr (), d) | Some c \<Rightarrow> handle_manual_completion C c d))"
  proof (rule post_then [OF polled], goal_cases)
    case (1 completion d')
    show ?case
    proof (cases completion)
      case None
      with 1 assms(1) show ?thesis by (simp add: completed_def word_settled_def)
    next
      case (Some c)
      with 1 obtain plan where plan: "ed_in_flight (editor_of ed d) = Some (mc_request_id c, plan)"
        by (auto simp: completed_def split: option.splits)
      then have "on_the_word plan (ed_text (editor_of ed d))" "extra_backspaces plan = 0" "pending_commit (fst d) = None"
        using assms by (simp_all add: word_settled_def flight_part_def one_correction_def Let_def)
      with 1 Some plan have "post (clean ed) (\<lambda>_. word_settled ed) (handle_manual_completion C c d')"
        by (intro completion_settled [OF assms(1) plan])
          (auto simp: completed_def retype_nothing split: manual_current_word_outcome.splits)
      with Some show ?thesis by simp
    qed
  qed
  with assms(1) show ?thesis by (simp add: poll_manual_completion_def)
qed

lemma draining_quiet:
  assumes "word_settled ed d" "one_correction (fst d) (editor_of ed d)" "manual_flow (fst d) = DrainingDeferredInput session"
  shows "ed_in_flight (editor_of ed d) = None"
  using assms(1,3) by (auto simp: word_settled_def flight_part_def in_flight_id_def Let_def split: option.splits)

text \<open>The target of the input is read before and after an event is replayed.\<close>

lemma generation_read:
  assumes "clean ed d"
  shows "post (clean ed) (\<lambda>_ d'. fst d' = fst d \<and> editor_of ed d' = editor_of ed d)
    (on_keyboard (\<lambda>w. case dc_target_generation C w of (g, w) \<Rightarrow> (Inr g, w)) d)"
  by (rule on_keyboard_post [where Q = "\<lambda>_ w. ed w = editor_of ed d", OF _ assms])
    (use reads_neutral(1) in \<open>simp add: neutral_def split: prod.split\<close>, metis snd_conv)

lemma barrier_flow:
  "flow_barrier_before_next_event generation now event (DrainingDeferredInput session) = (decision, flow) \<Longrightarrow>
    \<exists>session. flow = DrainingDeferredInput session"
  by (auto simp: flow_barrier_before_next_event_def split: prod.splits)

definition same_but_flow :: "'w daemon \<Rightarrow> 'w daemon \<Rightarrow> bool" where
  "same_but_flow d d' \<longleftrightarrow>
     (\<exists>session. fst d' = (fst d)\<lparr>manual_flow := DrainingDeferredInput session\<rparr>) \<and> editor_of ed d' = editor_of ed d"

lemma barrier_checked:
  assumes "clean ed d" "manual_flow (fst d) = DrainingDeferredInput session"
  shows "post (clean ed) (\<lambda>_. same_but_flow d) (check_focus_barrier C d)"
proof -
  have same: "same_but_flow d d"
    using assms(2) by (auto simp: same_but_flow_def intro!: exI [of _ session])
  have "post (clean ed) (\<lambda>_. same_but_flow d)
      (then_st (on_keyboard (\<lambda>w. case dc_target_generation C w of (g, w) \<Rightarrow> (Inr g, w)) d) (\<lambda>generation d.
       case call (dc_instant_now C) d of (now, d) \<Rightarrow>
       case flow_barrier_before_next_event generation now event (manual_flow (fst d)) of (decision, flow) \<Rightarrow>
       (Inr (is_waiting decision), update (\<lambda>s. s\<lparr>manual_flow := flow\<rparr>) d)))" for event
  proof (rule post_then [OF generation_read [OF assms(1)]], rule post_pair, rule post_pair, goal_cases)
    case (1 generation d1 now d2 decision flow)
    have "fst d2 = fst d" "editor_of ed d2 = editor_of ed d"
      using 1 call_fst [of "dc_instant_now C" d1] call_editor [OF reads_neutral(5), of d1] by simp_all
    with 1 assms(2) show ?case by (auto simp: same_but_flow_def dest: barrier_flow)
  qed
  with same show ?thesis by (simp add: check_focus_barrier_def Let_def)
qed

lemma replay_settled:
  assumes "word_settled ed d" "ed_in_flight (editor_of ed d) = None" "one_correction (fst d) (editor_of ed d)"
    "plain_event (fst d) event"
  shows "post (clean ed) (\<lambda>_. word_settled ed) (replay_deferred_event C event d)"
  unfolding replay_deferred_event_def Let_def
proof (rule post_then [OF event_quiet [OF assms]], rule post_then, rule generation_read, goal_cases)
  case (1 u d1)
  then show ?case by (simp add: word_settled_def clean_def Let_def)
next
  case (2 u d1 generation d2)
  then have d2: "word_settled ed d2"
    by (intro word_settled_frame [OF 2(1)]) simp_all
  show ?case
  proof (rule post_pair, goal_cases)
    case (1 now d3)
    have "fst d3 = fst d2" "editor_of ed d3 = editor_of ed d2"
      using 1 call_fst [of "dc_instant_now C" d2] call_editor [OF reads_neutral(5), of d2] by simp_all
    then show ?case
      by (intro iffD2 [OF post_simps(2)] word_settled_frame [OF d2])
        (auto simp: acknowledge_focus_barrier_def in_flight_id_def split: manual_current_word_flow.split)
  qed
qed

lemma finish_drain_settled:
  assumes "word_settled ed d" "ed_in_flight (editor_of ed d) = None" "one_correction (fst d) (editor_of ed d)"
  shows "post (clean ed) (\<lambda>_. word_settled ed) (finish_drain C session d)"
proof -
  let ?m = "ed_modifiers (editor_of ed d)" and ?n = "modifiers (fst d)" and ?q = "pending_commit (fst d)"
  let ?d = "update (\<lambda>s. s\<lparr>manual_flow := IdleFlow, deferred_input := snd (finish_drained (deferred_input s))\<rparr>) d"
  have le: "mods_le ?m ?n" using assms(1) by (simp add: word_settled_def Let_def)
  have "quiet ed ?m ?n ?q d" by (rule word_settled_quiet [OF assms(1,2)]) (use assms(3) in \<open>simp add: one_correction_def\<close>)
  then have d1: "quiet ed ?m ?n ?q ?d" by (rule quiet_frame) simp_all
  obtain b d2 where d2: "adopt_input_snapshot_nonblocking C ?d = (b, d2)" by (meson surj_pair)
  have at: "quiet ed ?m ?n ?q d2" using quiet_same [OF adopt_same [OF d2]] d1 by simp
  have "post (clean ed) (\<lambda>_. word_settled ed)
      (then_st (begin_deferred_manual_correction C (ms_undo_key session) config d2) (\<lambda>_ d. (Inr (), d)))" for config
    by (rule post_then [OF begin_quiet [OF at]])
      (auto split: if_splits intro: rests_settled [OF _ le] quiet_settled [OF _ le])
  with d2 quiet_settled [OF d1 le] show ?thesis by (simp add: finish_drain_def Let_def)
qed

lemma drain_settled:
  assumes "word_settled ed d" "one_correction (fst d) (editor_of ed d)"
    "\<And>event. peek (deferred_input (fst d)) = Some event \<Longrightarrow> plain_event (fst d) event"
  shows "post (clean ed) (\<lambda>_. word_settled ed) (drain_one_deferred_input_event C d)"
proof (cases "manual_flow (fst d)")
  case (DrainingDeferredInput session)
  note quiet = draining_quiet [OF assms(1,2) this]
  have at: "word_settled ed d'" "ed_in_flight (editor_of ed d') = None" "one_correction (fst d') (editor_of ed d')"
    "plain_event (fst d') = plain_event (fst d)" if "same_but_flow d d'" for d'
  proof -
    show "word_settled ed d'"
      by (rule word_settled_frame [OF assms(1)]) (use that DrainingDeferredInput in \<open>auto simp: same_but_flow_def in_flight_id_def\<close>)
    show "ed_in_flight (editor_of ed d') = None" using that quiet by (simp add: same_but_flow_def)
    show "one_correction (fst d') (editor_of ed d')" using that assms(2) by (auto simp: same_but_flow_def one_correction_def)
    have "pending_commit (fst d') = pending_commit (fst d)" "modifiers (fst d') = modifiers (fst d)"
      using that by (auto simp: same_but_flow_def)
    then show "plain_event (fst d') = plain_event (fst d)" unfolding fun_eq_iff plain_event_def by simp
  qed
  have "post (clean ed) (\<lambda>_. word_settled ed)
      (unless_done (check_focus_barrier C d) (\<lambda>d'.
        case peek (deferred_input (fst d)) of
          Some event \<Rightarrow> replay_deferred_event C event d'
        | None \<Rightarrow> (case manual_flow (fst d') of DrainingDeferredInput session \<Rightarrow> finish_drain C session d' | _ \<Rightarrow> (Inr (), d'))))"
  proof (rule post_unless_done [OF barrier_checked [OF word_settled_clean [OF assms(1)] DrainingDeferredInput]], goal_cases)
    case (1 d')
    then show ?case by (rule at)
  next
    case (2 d')
    show ?case
    proof (cases "peek (deferred_input (fst d))")
      case None
      with finish_drain_settled [OF at(1-3) [OF 2]] at(1) [OF 2] show ?thesis
        by (simp split: manual_current_word_flow.split)
    next
      case (Some event)
      with replay_settled [OF at(1-3) [OF 2]] assms(3) at(4) [OF 2] show ?thesis by simp
    qed
  qed
  with DrainingDeferredInput show ?thesis by (simp add: drain_one_deferred_input_event_def Let_def)
qed (use assms(1) in \<open>simp_all add: drain_one_deferred_input_event_def\<close>)

lemma step_settled:
  assumes "word_settled ed d" "step_allowed ed st d"
  shows "post (clean ed) (\<lambda>_. word_settled ed) (service_step C st d)"
proof (cases st)
  case (KeyEvent event)
  show ?thesis
  proof (cases "ed_in_flight (editor_of ed d)")
    case None
    with assms KeyEvent show ?thesis by (simp add: service_step_def step_allowed_def event_quiet)
  next
    case (Some flight)
    with assms KeyEvent have "flying d" by (simp add: flying_def step_allowed_def one_correction_def)
    with KeyEvent show ?thesis by (simp add: service_step_def event_flying)
  qed
next
  case CompletionPoll
  with assms show ?thesis by (simp add: service_step_def step_allowed_def poll_settled)
next
  case DrainStep
  with assms show ?thesis by (auto simp: service_step_def step_allowed_def intro!: drain_settled)
next
  case (PointerOrFocus change)
  let ?d = "(fst d, change (snd d))"
  have allowed: "ed_in_flight (editor_of ed d) = None" "\<not> changes_case (pending_commit (fst d))"
    "text_changed (editor_of ed d) (editor_of ed ?d)"
    using assms(2) PointerOrFocus by (simp_all add: step_allowed_def)
  have "word_settled ed (handle_non_key_invalidation C ?d)"
    using assms(1) allowed pending_part_unchanged [OF allowed(2), of "ed_text (editor_of ed ?d)" "ed_text (editor_of ed d)"]
    by (simp add: word_settled_def non_key_effect text_changed_def flight_part_def word_part_invalidate Let_def)
  with PointerOrFocus show ?thesis by (simp add: service_step_def)
qed

lemma run_settled:
  "word_settled ed d \<Longrightarrow> run_allowed C ed sts d \<Longrightarrow> post (clean ed) (\<lambda>_. word_settled ed) (service_run C sts d)"
proof (induction sts arbitrary: d)
  case Nil
  then show ?case by simp
next
  case (Cons st sts)
  have "post (clean ed) (\<lambda>_. word_settled ed) (service_step C st d)"
    using Cons.prems by (intro step_settled) simp_all
  with Cons show ?case by (cases "service_step C st d" rule: prod.exhaust; cases "fst (service_step C st d)") auto
qed

end

end
