(* ===== verification/Daemon_Properties.thy ===== *)
theory Daemon_Properties
  imports Word_Invariant "HOL-Library.Code_Target_Nat"
begin

text \<open>
  Theorems about the event loop: its corrections are made on the word that stands before the cursor,
  whatever the keyboard, the writer and the other threads do in between; a focus barrier ends; and the
  runs in which the code corrects another text.
\<close>

subsection \<open>A notebook\<close>

text \<open>
  The calls on an editor that carries out everything at once and keeps count of the corrections.  It
  judges each by the text it finds.
\<close>

record notebook =
  nb_editor :: editor
  nb_now :: nat
  nb_snapshot :: input_runtime_snapshot
  nb_corrections :: nat

definition on_editor :: "(editor \<Rightarrow> editor) \<Rightarrow> notebook \<Rightarrow> unit res \<times> notebook" where
  "on_editor f nb = (Inr (), nb\<lparr>nb_editor := f (nb_editor nb)\<rparr>)"

definition nb_correct :: "correction_plan \<Rightarrow> notebook \<Rightarrow> notebook" where
  "nb_correct plan nb = nb\<lparr>nb_editor := retype plan (judged plan (nb_editor nb)), nb_corrections := Suc (nb_corrections nb)\<rparr>"

definition nb_begin :: "correction_plan \<Rightarrow> notebook \<Rightarrow> manual_start_outcome res \<times> notebook" where
  "nb_begin plan nb =
     (let request_id = of_nat (Suc (nb_corrections nb)) in
      (Inr (Started request_id), nb\<lparr>nb_editor := (judged plan (nb_editor nb))\<lparr>ed_in_flight := Some (request_id, plan)\<rparr>\<rparr>))"

definition nb_complete :: "notebook \<Rightarrow> manual_current_word_completion option res \<times> notebook" where
  "nb_complete nb =
     (case ed_in_flight (nb_editor nb) of
        None \<Rightarrow> (Inr None, nb)
      | Some (request_id, plan) \<Rightarrow>
          (Inr (Some \<lparr>mc_request_id = request_id, mc_outcome = ManualSucceeded plan\<rparr>),
           nb_correct plan (nb\<lparr>nb_editor := (nb_editor nb)\<lparr>ed_in_flight := None\<rparr>\<rparr>)))"

definition notebook_calls :: "notebook daemon_calls" where
  "notebook_calls =
     \<lparr>dc_forward_event = (\<lambda>_ key value. on_editor (type_key key value)),
      dc_forward_deferred_event = (\<lambda>_ key value. on_editor (type_key key value)),
      dc_type_separator = (\<lambda>key. on_editor (type_key key 0 \<circ> type_key key 1)),
      dc_apply_correction = (\<lambda>plan _ _ nb. (Inr NotNeeded, nb_correct plan nb)),
      dc_apply_same_layout_correction = (\<lambda>plan _ _ nb. (Inr (), nb_correct plan nb)),
      dc_begin_manual_correction = (\<lambda>plan _ _. nb_begin plan),
      dc_request_manual_cancel = (\<lambda>_ nb. ((), nb)),
      dc_poll_manual_completion = nb_complete,
      dc_target_generation = (\<lambda>nb. (0, nb)),
      dc_try_snapshot = (\<lambda>nb. (Loaded (nb_snapshot nb), nb)),
      dc_layout_epoch = (\<lambda>nb. (confirmed_layout_epoch (nb_snapshot nb), nb)),
      dc_request_layout_refresh = (\<lambda>nb. (RefreshQueued, nb)),
      dc_invalidate_layout = (\<lambda>nb. ((), nb)),
      dc_hotkey_capture_inhibited = (\<lambda>nb. (False, nb)),
      dc_route_capture_event = (\<lambda>_ _ _ nb. (Inr \<lparr>co_disposition = PassThrough, co_state_change = None\<rparr>, nb)),
      dc_publish_capture_state = (\<lambda>_ nb. ((), nb)),
      dc_start_selected_text = (\<lambda>nb. (Inr False, nb)),
      dc_instant_now = (\<lambda>nb. (nb_now nb, nb\<lparr>nb_now := Suc (nb_now nb)\<rparr>)),
      dc_system_now = (\<lambda>nb. (nb_now nb, nb))\<rparr>"

lemma judged_true: "on_the_word plan (ed_text e) \<Longrightarrow> judged plan e = e"
  by (simp add: judged_def)

interpretation notebook: editor_calls notebook_calls nb_editor
  by unfold_locales
    (auto simp: notebook_calls_def neutral_def acts_def corrects_def begins_def completes_def completed_def starts_job_def
      routes_def on_editor_def nb_correct_def nb_begin_def nb_complete_def judged_true Let_def split: option.split)

subsection \<open>Corrections stay on the word\<close>

lemma reset_settled:
  assumes "ed_clean (ed w)" "ed_in_flight (ed w) = None" "ed_modifiers (ed w) = modifier_state_default"
  shows "word_settled ed (reset_transient_input_state s, w)"
  using assms by (simp add: word_settled_def flight_part_def mods_le_refl word_part_def reset_transient_input_state_def
      clear_word_context_state_def word_context_default_def Let_def)


text \<open>A run: a letter, the hotkey, and the correction it starts.\<close>

definition key_event :: "key \<Rightarrow> int \<Rightarrow> 'w service_step" where
  "key_event key value = KeyEvent \<lparr>sequence_id = 1, ev_key = key, ev_value = value, ev_timestamp = 1\<rparr>"

definition demo_snapshot :: input_runtime_snapshot where
  "demo_snapshot =
     \<lparr>is_config = (snapshot_of_config app_config_default)\<lparr>rcs_fix_two_capitals := True\<rparr>, is_enabled = True,
      is_features = \<lparr>fa_auto_switch = False, fa_manual_word_fix = True, fa_selected_text_switch = False, fa_reason = None\<rparr>,
      is_session_type = X11,
      is_layout_state = KnownLayout \<lparr>backend_key = [], normalized_code = Us, display_name = [], layout_kind = English, layout_index = None\<rparr> True,
      config_generation = 1, layout_generation = 1, confirmed_layout_epoch = 1, confirmed_at = Some 0\<rparr>"

definition demo_service :: service where
  "demo_service =
     \<lparr>word_buffer = [], word_buffer_overflowed = False, word_context = word_context_default, correction_state = Raw,
      hotkey_latch = None, input_snapshot = demo_snapshot, writer_latch = None, keyboard_attached = True,
      runner_attached = False, modifiers = modifier_state_default, shared_modifiers = 0, suppressed_hotkey_key = None,
      suppressed_undo = [], manual_flow = IdleFlow, deferred_input = with_limits 64 128, pending_tail = None,
      next_physical_sequence_id = 1, suppressed_separator_key = None, layout_shortcut_latched = False,
      pending_commit = None, pending_selected_text_switch = False\<rparr>"

definition empty_notebook :: notebook where
  "empty_notebook =
     \<lparr>nb_editor = \<lparr>ed_text = [], ed_modifiers = modifier_state_default, ed_in_flight = None, ed_clean = True\<rparr>,
      nb_now = 0, nb_snapshot = demo_snapshot, nb_corrections = 0\<rparr>"

definition demo_steps :: "notebook service_step list" where
  "demo_steps = [key_event KEY_A 1, key_event KEY_PAUSE 1, CompletionPoll]"

abbreviation demo_run :: "unit res \<times> notebook daemon" where
  "demo_run \<equiv> service_run notebook_calls demo_steps (reset_transient_input_state demo_service, empty_notebook)"


text \<open>
  A click between pressing and releasing the separator: the service forgets the word but not the
  correction of its case, so it deletes three characters where the cursor is now.
\<close>

definition typed_abc :: "keystroke list" where
  "typed_abc = [\<lparr>ks_key = KEY_A, ks_shift = True, ks_caps_lock = False\<rparr>, \<lparr>ks_key = KEY_B, ks_shift = True, ks_caps_lock = False\<rparr>,
     \<lparr>ks_key = KEY_C, ks_shift = False, ks_caps_lock = False\<rparr>]"

lemma click_misplaces_correction:
  "case service_run notebook_calls
     [key_event KEY_SPACE 1, PointerOrFocus (\<lambda>nb. nb\<lparr>nb_editor := (nb_editor nb)\<lparr>ed_text := [KEY_X, KEY_Y, KEY_Z]\<rparr>\<rparr>), key_event KEY_SPACE 0]
     (demo_service\<lparr>word_buffer := typed_abc\<rparr>, empty_notebook\<lparr>nb_editor := (nb_editor empty_notebook)\<lparr>ed_text := keys_of typed_abc\<rparr>\<rparr>) of
     (r, s', w') \<Rightarrow> r = Inr () \<and> nb_corrections w' = 1 \<and> \<not> ed_clean (nb_editor w')"
  by code_simp

end
