(* ===== verification/Spec2Isabelle.thy ===== *)
theory Spec2Isabelle
  imports Guardian_Properties Deferred_Input Uinput_Synthetic Switch_Properties Settings_Properties Capture_Properties
    Selected_Text Layout_Properties Detection_Properties Session_Properties Handoff_Properties Writer_Properties Correction_Properties Writer_Loop_Properties Flow_Properties Daemon_Properties
begin

text \<open>
  A verification development for OpenSwitcher, a daemon that watches the keyboard, notices words typed
  in the wrong of two keyboard layouts (English and Russian), deletes them and types them again in the
  other one.

  \<^bold>\<open>The program.\<close>  The keyboard loop reads key events, collects the keystrokes of the current word and
  asks the typing heuristics whether to correct it.  A correction types synthetic keys, either through
  a uinput device or through the X server.  While it runs, physical events wait in the deferred queue,
  modifiers the user holds are released and pressed again, and every synthetic press is a debt until
  its release.  X11 synthetic input goes through a second process, the guardian, that owns the debts of
  the daemon and releases the keys when the daemon fails or disappears.  Hotkeys, delays and features
  are settings in a file, changed through a configuration service; the combination that switches
  layouts can be recorded by pressing it.

  The daemon may take the keyboard only for the one graphical session that logind reports as active.  A
  monitor thread publishes that session; the backend holds a lease on it, takes the device over in a quiet
  moment and is opened again after a failure.  A single writer thread owns the synthetic device: callers
  send it transactions, each with a deadline, and wait for the answer.

  \<^bold>\<open>Theories and the code they model\<close> (paths under src/src):

  \<^item> \<open>OS_Prelude\<close>: result and state combinators, checked and saturating machine arithmetic, the error
    values (error/), lemmas on lists, and the locales \<open>step_invariant\<close> and \<open>step_monotone\<close> that every
    state machine below interprets.  \<open>Rust_Text\<close>: the functions on strings the sources use.
    \<open>Input_Keys\<close>: key codes and the eight modifiers.
  \<^item> \<open>Guardian_Wire\<close> (daemon/xtest_guardian/protocol.rs, first half): messages, frames, encoder and
    decoder over bytes, the match of a response with its request.
  \<^item> \<open>Guardian_Protocol\<close>, \<open>Guardian_Safety\<close> (protocol.rs, second half): the record \<open>protocol_state\<close> and
    one definition for each method of \<open>ProtocolState\<close>; its invariant and what it guarantees about debts,
    deadlines and sequence numbers for every sequence of calls.
  \<^item> \<open>Guardian_Service\<close>, \<open>Guardian_Session\<close> (service.rs): the session over an executor, the handling of
    each request, the clean-up loop and the connection loop over a list of events.
    \<open>X11_Executor\<close> (x11.rs): the executor over the X11 boundary, the server identity, the emergency
    releaser.  \<open>Guardian_Properties\<close>: the theorems about the whole guardian on a simulated X server that
    may fail.
  \<^item> \<open>Deferred_Input\<close> (deferred_input.rs): the queue with its limits, as a refinement of the accepted
    events minus a completed prefix.
  \<^item> \<open>Synthetic_Ledgers\<close>, \<open>Synthetic_Operation\<close> (synthetic_input.rs): the key ledger, the session modifier
    ledger, frozen snapshots, and the operation with its two endings and \<open>Drop\<close>.
    \<open>Uinput_Synthetic\<close> (uinput_synthetic.rs): the uinput sink and target, on a simulated device.
  \<^item> \<open>Switch_Logic\<close>, \<open>Switch_Properties\<close> (switch_logic.rs): key tables, word lists, scores, the decision to
    switch, case corrections and the two correction plans.
  \<^item> \<open>Hotkeys\<close> (model.rs, first half): hotkeys, their texts and parser, layout-switch combinations.
  \<^item> \<open>Settings_Model\<close>, \<open>Settings_Properties\<close> (model.rs, second half; config.rs; config/atomic.rs;
    \<open>ConfigService\<close> of daemon/runtime.rs): settings, patches, validation, the file and its replacement.
  \<^item> \<open>Capture\<close>, \<open>Capture_Properties\<close> (capture.rs): recording a combination under a lease.
  \<^item> \<open>Selected_Text\<close> (selected_text/engine.rs): converting a selected text between the layouts.
  \<^item> \<open>Layout_Detection\<close>, \<open>Layout_Properties\<close> (layout_backend/, layout_setup_retry.rs): which layouts are set
    up, which one is active, what features that allows, and when detection is tried again.
  \<^item> \<open>Switch_Detection\<close>, \<open>Detection_Properties\<close> (layout_switch/): which combination the desktop switches
    layouts with.
  \<^item> \<open>Interleaving\<close>: invariants and relations between states along every interleaving of steps, as a
    locale.  \<open>Session_Activity\<close>, \<open>Session_Properties\<close> (daemon/session_activity/mod.rs): the decision which
    session is authorized, its publication as single atomic stores, leases, and the monitor loop.
  \<^item> \<open>Input_Backend\<close> (input_backend.rs; shutdown of keyboard.rs): opening the backend, retries, latched
    failures.  \<open>Input_Devices\<close> (input_device_identity.rs; discovery in keyboard.rs): which keyboard is
    opened.  \<open>Input_Handoff\<close>, \<open>Handoff_Properties\<close> (keyboard.rs): taking the keyboard over and giving it
    back.
  \<^item> \<open>Writer_Transaction\<close>, \<open>Writer_Properties\<close> (keyboard.rs): the life of a writer transaction between its
    caller, the writer thread and the other threads.
  \<^item> \<open>Modifier_State\<close> (keyboard.rs): the modifiers the user holds.  \<open>Correction_Replay\<close> (keyboard.rs,
    layout_switcher.rs): a correction plan as key events of one synthetic operation under a transaction.
    \<open>Correction_Trace\<close>, \<open>Correction_Properties\<close>: the events it writes, the keys it leaves.

  \<^bold>\<open>Conventions.\<close>  A method on \<open>&mut self\<close> takes the record and returns its result with the record it
  leaves, also on the error path.  \<open>Result\<close> is a sum with the error on the left.  Machine integers are
  words of their width; \<open>usize\<close> is a natural number where the code only counts; an \<open>Instant\<close> or
  monotonic clock is a number.  A \<open>char\<close> is its code point.  Traits (the executor, the X11 boundary, the
  raw uinput sink, the key sink and the restore target) are records of functions over a device state, and
  the contracts the code relies on are locales, interpreted on the model's own backends.

  \<^bold>\<open>What is proved.\<close>  For the guardian: a run that ends \<open>Reconciled\<close> leaves no key pressed; a debt ends
  only with its release; every reachable state is within the limits; frames decode exactly when they were
  encoded; deadlines are enforced, requests cannot be replayed, every accepted key-down and key-up can be
  completed, and clean-up releases everything when the server answers in time.  For synthetic input: a
  reconciled operation leaves on the device only keys held before or recorded for release; the reported
  ending is honest.  For the deferred queue: nothing accepted is lost, reordered or duplicated.  For the
  heuristics: which words are protected, that the decision does not depend on the case, which corrections
  are made and what exactly they type.  For hotkeys and settings: the parser's language, round trips,
  merging of patches, updates that are all or nothing in memory and on disk, settings that survive a
  restart, and that every configuration in force admits every correction within four seconds.  For
  recording: exactly the listed chords, no half keystrokes, leases that end, and which changes are
  reported.  For layouts: exactly which setups are confirmed, that the active layout is never taken for
  another one, that features are off without a confirmed setup, that a detected combination is one the
  desktop's settings name, and that detecting again never loses it.  For selected text: conversion keeps
  the shape of the text and is its own inverse on ordinary words, and its table agrees with the one of
  the heuristics.  For sessions: a lease found current names the session that was authorized when it was
  looked at, a passed generation never comes back, and a lost source or a stopped monitor leaves nobody
  authorized.  For the backend: a failed one is retried at the latest after three seconds, except after a
  writer that did not stop; the keyboard taken is the verified device of the seat, taken over either wholly
  or not at all, and only in a quiet moment.  For transactions: one answer at most, none after a failure,
  success only for completed ones, and every wait ends.  For corrections, composing plan, replay, operation
  and device: no key is left down unnoticed whatever fails, and a successful correction writes exactly the
  events of its plan, so that a manual one types the user's own strokes again.

  \<^bold>\<open>Bounds.\<close>  The clean-up and release loops recurse on the number of tokens they still have to release;
  \<open>connection_loop\<close> recurses on its list of events, whose end stands for a closed connection, so it needs
  no fuel; the parser of key bindings recurses on the length of the rest, and an interruptible sleep on
  the time that is left, since a sleep lasts at least as long as asked.  The
  loops of the session monitor, of the wait for a quiet keyboard, of \<open>poll\<close> and of the wait for an answer
  may run as long as their surroundings make them, so they have fuel; theorems state how much is enough
  when the clock advances or a stop is requested.  All other functions are structurally recursive or not
  recursive.

  \<^bold>\<open>Threads.\<close>  Where threads share memory, each atomic load or store is one step and the steps of the
  threads interleave in any order; the code's orderings are taken as sequentially consistent.  Operations
  under the terminal gate of the writer are one step, because they hold its lock.

  \<^bold>\<open>Not modelled.\<close>  Sockets, file descriptors, threads, locks and their poisoning, the system calls
  behind the executor and the uinput device, D-Bus, the windows and the tray, udev and evdev, the
  commands that print and set desktop settings, the clipboard, and the debug log: these parts
  only pass values between the modelled ones and the operating system or libraries.  The TOML library is a pair of functions that
  is assumed to read back what it wrote.

  \<^bold>\<open>Planned next.\<close>  The daemon side of the guardian connection (client.rs), the clipboard transaction
  around the conversion of selected text, the state behind the settings window, and the part of the
  keyboard loop that feeds the heuristics.
\<close>

end
